(* ===== verification/Prelude.thy ===== *)
theory Prelude
  imports Main "HOL-Library.Word"
begin

text \<open>
  Shared vocabulary of the development: machine sizes (\<open>std::size_t\<close>, written as \<open>nat\<close> with
  the wrap-around at \<open>2 ^ 64\<close> made explicit), byte ranges (\<open>memcpy\<close> as \<open>write_at\<close>), error codes
  as the library's \<open>boost::system::error_code\<close> (a category and an integer value, which is a
  failure exactly when the value is not zero), and the contracts that several components
  share as locales: a machine with an invariant, a machine with an append-only log, a
  converter pair between an internal and a wire representation, and a framing codec.
\<close>

section \<open>Collections of rewrite rules\<close>

named_theorems size_simps \<open>facts on bounded sizes\<close>
named_theorems mem_frame \<open>what a memory operation leaves unchanged\<close>
named_theorems mem_wf \<open>well-formedness of memory and buffer operations\<close>

section \<open>Machine sizes\<close>

type_synonym byte = "8 word"

definition SIZE_MAX :: nat where
  "SIZE_MAX = 2 ^ 64 - 1"

definition UINT32_MAX :: nat where
  "UINT32_MAX = 2 ^ 32 - 1"

definition INT_MAX :: nat where
  "INT_MAX = 2 ^ 31 - 1"

definition sz_add :: "nat \<Rightarrow> nat \<Rightarrow> nat" where
  "sz_add a b = (a + b) mod 2 ^ 64"

definition sz_sub :: "nat \<Rightarrow> nat \<Rightarrow> nat" where
  "sz_sub a b = (a + 2 ^ 64 - b) mod 2 ^ 64"

lemma sz_add_exact [size_simps]: "a + b \<le> SIZE_MAX \<Longrightarrow> sz_add a b = a + b"
  by (simp add: sz_add_def SIZE_MAX_def)

lemma sz_sub_exact [size_simps]:
  assumes "b \<le> a" and "a \<le> SIZE_MAX"
  shows "sz_sub a b = a - b"
proof -
  define M :: nat where "M = 2 ^ 64"
  then have "0 < M" by simp
  then have "a < M" using assms(2) unfolding SIZE_MAX_def M_def [symmetric] by arith
  with assms have "a - b < M" by arith
  moreover from assms have "a + M - b = (a - b) + M" by arith
  ultimately have "(a + M - b) mod M = a - b" by (simp only: mod_add_self2 mod_less)
  then show ?thesis by (simp only: sz_sub_def M_def)
qed

lemma sz_sub_self_zero [simp]: "a \<le> SIZE_MAX \<Longrightarrow> sz_sub a 0 = a"
  by (simp add: size_simps)

section \<open>Byte ranges\<close>

text \<open>\<open>write_at i ys xs\<close>: \<open>memcpy\<close> of \<open>ys\<close> into \<open>xs\<close> at index \<open>i\<close>.\<close>

definition write_at :: "nat \<Rightarrow> 'a list \<Rightarrow> 'a list \<Rightarrow> 'a list" where
  "write_at i ys xs = take i xs @ ys @ drop (i + length ys) xs"

lemma length_write_at [simp]:
  "i + length ys \<le> length xs \<Longrightarrow> length (write_at i ys xs) = length xs"
  by (simp add: write_at_def)

lemma write_at_Nil [simp]: "write_at i [] xs = xs"
  by (simp add: write_at_def)

lemma drop_write_at:
  assumes "i + length ys \<le> length xs"
  shows "drop i (write_at i ys xs) = ys @ drop (i + length ys) xs"
  using assms by (simp add: write_at_def)

lemma take_concat_split:
  "take n (xs @ ys) = take (min n (length xs)) xs @ take (n - length xs) ys"
  by (simp add: min_def)

lemma write_at_append_left:
  "i + length ys \<le> length xs \<Longrightarrow> write_at i ys (xs @ zs) = write_at i ys xs @ zs"
  by (simp add: write_at_def)

lemma write_at_append_right:
  "length xs \<le> i \<Longrightarrow> write_at i ys (xs @ zs) = xs @ write_at (i - length xs) ys zs"
  by (simp add: write_at_def)

text \<open>A window \<open>[ov, ov + n)\<close> of a list after a write at relative position \<open>k\<close> of the window.\<close>

lemma window_write_at:
  assumes "ov + n \<le> length xs" and "k + length ys \<le> n"
  shows "take n (drop ov (write_at (ov + k) ys xs)) = write_at k ys (take n (drop ov xs))"
proof -
  define A W R where "A = take ov xs" and "W = take n (drop ov xs)" and "R = drop n (drop ov xs)"
  have xs: "xs = A @ W @ R" unfolding A_def W_def R_def by (simp only: append_take_drop_id)
  have A: "length A = ov" and W: "length W = n" using assms(1) by (simp_all add: A_def W_def)
  have "write_at (ov + k) ys xs = A @ write_at k ys W @ R"
    using assms(2) A W by (simp add: xs write_at_append_right write_at_append_left)
  then show ?thesis
    using A W assms(2) by (simp add: W_def [symmetric])
qed

text \<open>A write outside a window does not change it.\<close>

lemma window_write_at_disjoint:
  assumes "i + length ys \<le> length xs" and "i + length ys \<le> ov \<or> ov + n \<le> i"
  shows "take n (drop ov (write_at i ys xs)) = take n (drop ov xs)"
  using assms by (auto simp: write_at_def drop_take)

lemma write_at_split:
  assumes "length us \<le> length xs - i" and "i \<le> length xs" and "i + length us = length xs"
    and "length vs \<le> length zs"
  shows "write_at i (us @ vs) (xs @ zs) = write_at i us xs @ write_at 0 vs zs"
proof -
  from assms(3) have "i + (length us + length vs) - length xs = length vs" by simp
  with assms show ?thesis by (simp add: write_at_def)
qed

text \<open>An update that does not touch a field leaves the table of that field alone.\<close>

lemma nth_update_if: "xs[i := y] ! j = (if i = j \<and> i < length xs then y else xs ! j)"
  by (cases "i < length xs") (auto simp: nth_list_update list_update_beyond [OF leI])

lemma map_update_same: "f y = f (xs ! i) \<Longrightarrow> map f (xs[i := y]) = map f xs"
  by (metis list_update_id map_update)

section \<open>Error codes\<close>

text \<open>
  \<open>boost::system::error_code\<close>: a category and a value. Its conversion to \<open>bool\<close> is
  \<open>value != 0\<close> for every category this library uses.
\<close>

datatype category = System_cat | Generic_cat | Asio_misc_cat | Core_cat | Io_cat | Stream_cat | Rstrm_cat | Stun_cat

datatype error_code = EC category int

fun ec_value :: "error_code \<Rightarrow> int" where
  "ec_value (EC c v) = v"

fun ec_failed :: "error_code \<Rightarrow> bool" where
  "ec_failed (EC c v) = (v \<noteq> 0)"

definition ec_ok :: error_code where
  "ec_ok = EC System_cat 0"

lemma ec_ok_not_failed [simp]: "\<not> ec_failed ec_ok"
  by (simp add: ec_ok_def)

section \<open>Contract: machines with an invariant and an append-only log\<close>

text \<open>
  The send queue and the control-channel client are deterministic state machines driven by
  strand events. Both keep an invariant over every event, and both only append to the log
  of externally visible actions. What follows for whole runs is proved once here.
\<close>

locale invariant_machine =
  fixes step :: "'e \<Rightarrow> 's \<Rightarrow> 's"
    and inv :: "'s \<Rightarrow> bool"
  assumes step_inv: "inv s \<Longrightarrow> inv (step e s)"
begin

lemma run_inv: "inv s \<Longrightarrow> inv (fold step es s)"
  by (induction es arbitrary: s) (auto intro: step_inv)

end

locale logged_machine = invariant_machine step inv
  for step :: "'e \<Rightarrow> 's \<Rightarrow> 's" and inv :: "'s \<Rightarrow> bool" +
  fixes log :: "'s \<Rightarrow> 'a list"
  assumes step_log: "inv s \<Longrightarrow> \<exists>as. log (step e s) = log s @ as"
begin

lemma run_log: "inv s \<Longrightarrow> \<exists>as. log (fold step es s) = log s @ as"
proof (induction es arbitrary: s)
  case Nil
  then show ?case by simp
next
  case (Cons e es)
  from step_log [OF Cons.prems] obtain as where "log (step e s) = log s @ as" by blast
  moreover from Cons.IH [OF step_inv [OF Cons.prems]]
  obtain bs where "log (fold step es (step e s)) = log (step e s) @ bs" by blast
  ultimately show ?case by simp
qed

text \<open>What has been done stays done: an action of the log survives every later event.\<close>

lemma run_log_mono: "inv s \<Longrightarrow> set (log s) \<subseteq> set (log (fold step es s))"
proof -
  assume "inv s"
  then obtain as where "log (fold step es s) = log s @ as" using run_log by blast
  then show ?thesis by simp
qed

end

section \<open>Contract: conversions between an internal and a wire representation\<close>

text \<open>
  On valid values \<open>to_wire\<close> and \<open>of_wire\<close> lose at most what \<open>norm\<close> drops. Then a value that has gone
  over the wire once is stable: a second trip changes nothing.
\<close>

locale wire_converter =
  fixes to_wire :: "'a \<Rightarrow> 'w"
    and of_wire :: "'w \<Rightarrow> 'a option"
    and norm :: "'a \<Rightarrow> 'a"
    and valid :: "'a \<Rightarrow> bool"
  assumes of_to: "valid x \<Longrightarrow> of_wire (to_wire x) = Some (norm x)"
    and norm_valid: "valid x \<Longrightarrow> valid (norm x)"
    and norm_idem: "norm (norm x) = norm x"
begin

lemma second_trip_stable:
  assumes "valid x" and "of_wire (to_wire x) = Some y"
  shows "of_wire (to_wire y) = Some y"
proof -
  have "y = norm x" using assms by (simp add: of_to)
  with assms(1) show ?thesis by (simp add: of_to norm_valid norm_idem)
qed

lemma to_wire_inj_on_normal:
  assumes "valid x" and "valid y" and "norm x = x" and "norm y = y" and "to_wire x = to_wire y"
  shows "x = y"
proof -
  have "Some x = of_wire (to_wire x)" unfolding of_to [OF assms(1)] assms(3) by (rule refl)
  also have "\<dots> = Some y" unfolding assms(5) of_to [OF assms(2)] assms(4) by (rule refl)
  finally show ?thesis by (rule option.inject [THEN iffD1])
qed

end

section \<open>Contract: framing\<close>

text \<open>
  A frame decoder that undoes the encoder in front of any continuation recovers every
  sequence of frames from their concatenation.
\<close>

locale frame_codec =
  fixes encode :: "'p \<Rightarrow> 'b list"
    and decode :: "'b list \<Rightarrow> ('p \<times> 'b list) option"
    and admissible :: "'p \<Rightarrow> bool"
  assumes decode_encode: "admissible p \<Longrightarrow> decode (encode p @ rest) = Some (p, rest)"
begin

primrec decode_n :: "nat \<Rightarrow> 'b list \<Rightarrow> ('p list \<times> 'b list) option" where
  "decode_n 0 bs = Some ([], bs)"
| "decode_n (Suc n) bs =
     (case decode bs of None \<Rightarrow> None
      | Some (p, bs') \<Rightarrow> map_option (\<lambda>(ps, r). (p # ps, r)) (decode_n n bs'))"

lemma decode_n_concat:
  "list_all admissible ps \<Longrightarrow>
   decode_n (length ps) (concat (map encode ps) @ rest) = Some (ps, rest)"
  by (induction ps) (auto simp: decode_encode)

lemma prefix_free:
  assumes "admissible p" and "admissible q" and "encode p @ r = encode q @ s"
  shows "p = q \<and> r = s"
proof -
  have "Some (p, r) = decode (encode q @ s)"
    unfolding assms(3) [symmetric] by (rule decode_encode [OF assms(1), symmetric])
  also have "\<dots> = Some (q, s)" by (rule decode_encode [OF assms(2)])
  finally show ?thesis by simp
qed

end

end
