(* ===== verification/Memory.thy ===== *)
theory Memory
  imports Prelude
begin

text \<open>
  Model of \<open>lib/rstream/core/memory.cpp\<close> and \<open>core/error.cpp\<close>: reference-counted views on byte
  arrays. A \<open>memory\<close> handle is a nullable shared pointer to an \<open>impl\<close> (a window: offset and
  size), which points to a shared immutable \<open>base\<close> (an owned allocation, a wrapped mutable array
  or a wrapped constant array). Copying a handle shares the \<open>impl\<close>; \<open>share\<close> copies the
  \<open>impl\<close> and shares the \<open>base\<close>. The aliasing is kept: the store holds the arrays, the bases
  and the impls, and handles are indices into it. Object lifetime (reference counts, destroy
  notifications) and allocation failure are not modelled: the store only grows.
\<close>

section \<open>Error codes of the core library\<close>

datatype core_error =
    Success
  | Invalid_size
  | Object_null
  | Object_not_writable
  | Plugin_not_found
  | Plugin_already_registered
  | Plugin_initialization_failed

fun core_error_value :: "core_error \<Rightarrow> int" where
  "core_error_value Success = 0"
| "core_error_value Invalid_size = 1"
| "core_error_value Object_null = 2"
| "core_error_value Object_not_writable = 3"
| "core_error_value Plugin_not_found = 4"
| "core_error_value Plugin_already_registered = 5"
| "core_error_value Plugin_initialization_failed = 6"

definition core_ec :: "core_error \<Rightarrow> error_code" where
  "core_ec e = EC Core_cat (core_error_value e)"

fun core_error_to_string :: "core_error \<Rightarrow> string" where
  "core_error_to_string Success = ''success''"
| "core_error_to_string Invalid_size = ''invalid size''"
| "core_error_to_string Object_null = ''object is null''"
| "core_error_to_string Object_not_writable = ''object is not writable''"
| "core_error_to_string Plugin_not_found = ''plugin not found''"
| "core_error_to_string Plugin_already_registered = ''plugin already registered''"
| "core_error_to_string Plugin_initialization_failed = ''plugin initialization failed''"

section \<open>State\<close>

text \<open>A pointer is an array address (\<open>None\<close> for \<open>nullptr\<close>) and a byte offset.\<close>

type_synonym ptr = "nat option \<times> nat"

datatype mbase =
    Memory_allocated nat nat
  | Memory_wrapped_mutable "nat option" nat nat
  | Memory_wrapped_const "nat option" nat nat

record mimpl =
  m_size :: nat
  m_offset :: nat
  m_base :: nat

record store =
  arrays :: "byte list list"
  bases :: "mbase list"
  impls :: "mimpl list"

type_synonym memory = "nat option"

type_synonym 'a result = "(core_error + 'a) \<times> store"

abbreviation impl_of :: "store \<Rightarrow> nat \<Rightarrow> mimpl" where
  "impl_of st i \<equiv> impls st ! i"

abbreviation base_of :: "store \<Rightarrow> nat \<Rightarrow> mbase" where
  "base_of st i \<equiv> bases st ! m_base (impl_of st i)"

section \<open>Bases\<close>

fun base_is_mutable :: "mbase \<Rightarrow> bool" where
  "base_is_mutable (Memory_allocated a n) = True"
| "base_is_mutable (Memory_wrapped_mutable d mx off) = True"
| "base_is_mutable (Memory_wrapped_const d mx off) = False"

fun base_get_data :: "mbase \<Rightarrow> core_error + ptr" where
  "base_get_data (Memory_allocated a n) = Inr (Some a, 0)"
| "base_get_data (Memory_wrapped_mutable d mx off) = Inr (d, off)"
| "base_get_data (Memory_wrapped_const d mx off) = Inl Object_not_writable"

fun base_get_const_data :: "mbase \<Rightarrow> ptr" where
  "base_get_const_data (Memory_allocated a n) = (Some a, 0)"
| "base_get_const_data (Memory_wrapped_mutable d mx off) = (d, off)"
| "base_get_const_data (Memory_wrapped_const d mx off) = (d, off)"

fun base_get_size :: "mbase \<Rightarrow> nat" where
  "base_get_size (Memory_allocated a n) = n"
| "base_get_size (Memory_wrapped_mutable d mx off) = sz_sub mx off"
| "base_get_size (Memory_wrapped_const d mx off) = sz_sub mx off"

section \<open>Raw bytes behind a pointer\<close>

fun read_ptr :: "store \<Rightarrow> ptr \<Rightarrow> nat \<Rightarrow> byte list" where
  "read_ptr st (None, off) n = []"
| "read_ptr st (Some a, off) n = take n (drop off (arrays st ! a))"

fun write_ptr :: "store \<Rightarrow> ptr \<Rightarrow> byte list \<Rightarrow> store" where
  "write_ptr st (None, off) bs = st"
| "write_ptr st (Some a, off) bs = st\<lparr>arrays := (arrays st)[a := write_at off bs (arrays st ! a)]\<rparr>"

section \<open>Construction\<close>

definition check_wrapped_memory_args :: "nat option \<Rightarrow> nat \<Rightarrow> nat \<Rightarrow> core_error option" where
  "check_wrapped_memory_args data max_size off =
     (if off > max_size then Some Invalid_size
      else if data = None \<and> max_size > 0 then Some Object_null
      else None)"

text \<open>\<open>memory(std::size_t, allocator)\<close>: a fresh value-initialised array, base and impl.\<close>

definition make_memory_allocated :: "store \<Rightarrow> nat \<Rightarrow> memory \<times> store" where
  "make_memory_allocated st sz =
     (Some (length (impls st)),
      st\<lparr>arrays := arrays st @ [replicate sz 0],
         bases := bases st @ [Memory_allocated (length (arrays st)) sz],
         impls := impls st @ [\<lparr>m_size = sz, m_offset = 0, m_base = length (bases st)\<rparr>]\<rparr>)"

definition add_wrapped :: "store \<Rightarrow> mbase \<Rightarrow> nat \<Rightarrow> memory \<times> store" where
  "add_wrapped st b sz =
     (Some (length (impls st)),
      st\<lparr>bases := bases st @ [b],
         impls := impls st @ [\<lparr>m_size = sz, m_offset = 0, m_base = length (bases st)\<rparr>]\<rparr>)"

definition make_memory_wrapped :: "store \<Rightarrow> nat option \<Rightarrow> nat \<Rightarrow> nat \<Rightarrow> memory result" where
  "make_memory_wrapped st data max_size off =
     (case check_wrapped_memory_args data max_size off of
        Some e \<Rightarrow> (Inl e, st)
      | None \<Rightarrow>
          (let (m, st') = add_wrapped st (Memory_wrapped_mutable data max_size off) (sz_sub max_size off)
           in (Inr m, st')))"

definition make_memory_wrapped_const :: "store \<Rightarrow> nat option \<Rightarrow> nat \<Rightarrow> nat \<Rightarrow> memory result" where
  "make_memory_wrapped_const st data max_size off =
     (case check_wrapped_memory_args data max_size off of
        Some e \<Rightarrow> (Inl e, st)
      | None \<Rightarrow>
          (let (m, st') = add_wrapped st (Memory_wrapped_const data max_size off) (sz_sub max_size off)
           in (Inr m, st')))"

text \<open>The private constructor \<open>memory(const memory&, allocator)\<close>: a new impl on the same base.\<close>

fun copy_impl :: "store \<Rightarrow> memory \<Rightarrow> memory \<times> store" where
  "copy_impl st None = (None, st)"
| "copy_impl st (Some i) = (Some (length (impls st)), st\<lparr>impls := impls st @ [impl_of st i]\<rparr>)"

section \<open>Observers\<close>

fun mem_is_mutable :: "store \<Rightarrow> memory \<Rightarrow> bool" where
  "mem_is_mutable st None = False"
| "mem_is_mutable st (Some i) = base_is_mutable (base_of st i)"

fun mem_get_data :: "store \<Rightarrow> memory \<Rightarrow> core_error + ptr" where
  "mem_get_data st None = Inr (None, 0)"
| "mem_get_data st (Some i) =
     (case base_get_data (base_of st i) of
        Inl e \<Rightarrow> Inl e
      | Inr (a, off) \<Rightarrow> Inr (a, off + m_offset (impl_of st i)))"

fun mem_get_const_data :: "store \<Rightarrow> memory \<Rightarrow> ptr" where
  "mem_get_const_data st None = (None, 0)"
| "mem_get_const_data st (Some i) =
     (case base_get_const_data (base_of st i) of (a, off) \<Rightarrow> (a, off + m_offset (impl_of st i)))"

fun mem_get_size :: "store \<Rightarrow> memory \<Rightarrow> nat" where
  "mem_get_size st None = 0"
| "mem_get_size st (Some i) = m_size (impl_of st i)"

text \<open>\<open>get_size(offset, maxsize)\<close>: the size and the two reference parameters.\<close>

fun mem_get_size_full :: "store \<Rightarrow> memory \<Rightarrow> nat \<times> nat \<times> nat" where
  "mem_get_size_full st None = (0, 0, 0)"
| "mem_get_size_full st (Some i) =
     (m_size (impl_of st i), m_offset (impl_of st i), base_get_size (base_of st i))"

section \<open>Windows\<close>

fun mem_resize1 :: "store \<Rightarrow> memory \<Rightarrow> nat \<Rightarrow> unit result" where
  "mem_resize1 st None off = (Inr (), st)"
| "mem_resize1 st (Some i) off =
     (if off > mem_get_size st (Some i) then (Inl Invalid_size, st)
      else (Inr (), st\<lparr>impls := (impls st)[i := (impl_of st i)
             \<lparr>m_offset := sz_add (m_offset (impl_of st i)) off,
              m_size := sz_sub (m_size (impl_of st i)) off\<rparr>]\<rparr>))"

fun mem_resize :: "store \<Rightarrow> memory \<Rightarrow> nat \<Rightarrow> nat \<Rightarrow> unit result" where
  "mem_resize st None off sz = (Inr (), st)"
| "mem_resize st (Some i) off sz =
     (let base_size = base_get_size (base_of st i) in
      if m_offset (impl_of st i) > base_size then (Inl Invalid_size, st)
      else
        let available = base_size - m_offset (impl_of st i) in
        if off > available \<or> sz > available - off then (Inl Invalid_size, st)
        else (Inr (), st\<lparr>impls := (impls st)[i := (impl_of st i)
               \<lparr>m_offset := sz_add (m_offset (impl_of st i)) off, m_size := sz\<rparr>]\<rparr>))"

definition mem_set_size :: "store \<Rightarrow> memory \<Rightarrow> nat \<Rightarrow> unit result" where
  "mem_set_size st m sz = mem_resize st m 0 sz"

fun mem_reset_size :: "store \<Rightarrow> memory \<Rightarrow> store" where
  "mem_reset_size st None = st"
| "mem_reset_size st (Some i) =
     st\<lparr>impls := (impls st)[i := (impl_of st i)\<lparr>m_offset := 0, m_size := base_get_size (base_of st i)\<rparr>]\<rparr>"

section \<open>Copies and shares\<close>

fun mem_copy :: "store \<Rightarrow> memory \<Rightarrow> nat \<Rightarrow> nat \<Rightarrow> memory result" where
  "mem_copy st None off sz =
     (if off \<noteq> 0 \<or> sz \<noteq> 0 then (Inl Invalid_size, st) else (Inr None, st))"
| "mem_copy st (Some i) off sz =
     (if off > mem_get_size st (Some i) then (Inl Invalid_size, st)
      else if sz > mem_get_size st (Some i) - off then (Inl Invalid_size, st)
      else
        let (m, st1) = make_memory_allocated st sz;
            (src, src_off) = mem_get_const_data st (Some i)
        in case mem_get_data st1 m of
             Inl e \<Rightarrow> (Inl e, st1)
           | Inr dst \<Rightarrow> (Inr m, write_ptr st1 dst (read_ptr st1 (src, src_off + off) sz)))"

definition mem_copy1 :: "store \<Rightarrow> memory \<Rightarrow> nat \<Rightarrow> memory result" where
  "mem_copy1 st m off = mem_copy st m off (sz_sub (mem_get_size st m) off)"

text \<open>\<open>make_mutable\<close> rebinds the handle it is called on; the new handle is the result.\<close>

definition mem_make_mutable :: "store \<Rightarrow> memory \<Rightarrow> memory result" where
  "mem_make_mutable st m =
     (if m = None \<or> mem_is_mutable st m then (Inr m, st) else mem_copy1 st m 0)"

definition mem_share :: "store \<Rightarrow> memory \<Rightarrow> nat \<Rightarrow> nat \<Rightarrow> memory result" where
  "mem_share st m off sz =
     (if m = None then
        (if off \<noteq> 0 \<or> sz \<noteq> 0 then (Inl Invalid_size, st) else (Inr None, st))
      else
        let (m', st1) = copy_impl st m in
        case mem_resize st1 m' off sz of
          (Inl e, st2) \<Rightarrow> (Inl e, st2)
        | (Inr _, st2) \<Rightarrow> (Inr m', st2))"

definition make_memory_shared :: "store \<Rightarrow> memory \<Rightarrow> nat \<Rightarrow> nat \<Rightarrow> memory result" where
  "make_memory_shared st other off sz =
     (if other = None then
        (if off \<noteq> 0 \<or> sz \<noteq> 0 then (Inl Invalid_size, st) else (Inr None, st))
      else
        let (m', st1) = copy_impl st other in
        case mem_resize st1 m' off sz of
          (Inl e, st2) \<Rightarrow> (Inl e, st2)
        | (Inr _, st2) \<Rightarrow> (Inr m', st2))"

section \<open>What a handle denotes, and well-formed stores\<close>

definition mem_bytes :: "store \<Rightarrow> memory \<Rightarrow> byte list" where
  "mem_bytes st m = read_ptr st (mem_get_const_data st m) (mem_get_size st m)"

fun base_array :: "mbase \<Rightarrow> nat option" where
  "base_array (Memory_allocated a n) = Some a"
| "base_array (Memory_wrapped_mutable d mx off) = d"
| "base_array (Memory_wrapped_const d mx off) = d"

fun mem_array :: "store \<Rightarrow> memory \<Rightarrow> nat option" where
  "mem_array st None = None"
| "mem_array st (Some i) = base_array (base_of st i)"

text \<open>
  A wrapped array of the caller must hold at least the bytes it was announced with; a base with a
  null pointer is empty (\<open>check_wrapped_memory_args\<close>).
\<close>

fun wf_base :: "byte list list \<Rightarrow> mbase \<Rightarrow> bool" where
  "wf_base as (Memory_allocated a n) = (a < length as \<and> n = length (as ! a) \<and> n \<le> SIZE_MAX)"
| "wf_base as (Memory_wrapped_mutable d mx off) =
     (off \<le> mx \<and> mx \<le> SIZE_MAX \<and> (case d of None \<Rightarrow> mx = 0 | Some a \<Rightarrow> a < length as \<and> mx \<le> length (as ! a)))"
| "wf_base as (Memory_wrapped_const d mx off) =
     (off \<le> mx \<and> mx \<le> SIZE_MAX \<and> (case d of None \<Rightarrow> mx = 0 | Some a \<Rightarrow> a < length as \<and> mx \<le> length (as ! a)))"

definition wf_impl :: "mbase list \<Rightarrow> mimpl \<Rightarrow> bool" where
  "wf_impl bs im \<longleftrightarrow> m_base im < length bs \<and> m_offset im + m_size im \<le> base_get_size (bs ! m_base im)"

definition wf_store :: "store \<Rightarrow> bool" where
  "wf_store st \<longleftrightarrow> list_all (wf_base (arrays st)) (bases st) \<and> list_all (wf_impl (bases st)) (impls st)"

definition wf_mem :: "store \<Rightarrow> memory \<Rightarrow> bool" where
  "wf_mem st m \<longleftrightarrow> (case m of None \<Rightarrow> True | Some i \<Rightarrow> i < length (impls st))"


section \<open>Bases cover their arrays\<close>

lemma wf_base_size: "wf_base as b \<Longrightarrow> base_get_size b \<le> SIZE_MAX"
  by (cases b) (auto simp: size_simps)

lemma wf_base_region:
  "wf_base as b \<Longrightarrow> base_get_const_data b = (Some a, off) \<Longrightarrow>
   a < length as \<and> off + base_get_size b \<le> length (as ! a)"
  by (cases b) (auto simp: size_simps)

lemma wf_base_null:
  "wf_base as b \<Longrightarrow> base_get_const_data b = (None, off) \<Longrightarrow> base_get_size b = 0"
  by (cases b) (auto simp: sz_sub_def)

lemma base_get_data_const:
  "base_get_data b = Inr p \<Longrightarrow> base_get_const_data b = p"
  by (cases b) auto

lemma base_get_data_mutable: "(\<exists>p. base_get_data b = Inr p) \<longleftrightarrow> base_is_mutable b"
  by (cases b) auto

lemma base_array_data: "fst (base_get_const_data b) = base_array b"
  by (cases b) auto

lemma wf_base_append: "wf_base as b \<Longrightarrow> wf_base (as @ bs) b"
  by (cases b) (auto simp: nth_append split: option.splits)

lemma wf_base_update:
  "wf_base as b \<Longrightarrow> length bs = length (as ! a) \<Longrightarrow> wf_base (as[a := bs]) b"
  by (cases b; cases "a < length as") (auto simp: nth_list_update list_update_beyond split: option.splits)

section \<open>Handles in a well-formed store\<close>

lemma wf_storeD:
  assumes "wf_store st" and "i < length (impls st)"
  shows "m_base (impl_of st i) < length (bases st)"
    and "m_offset (impl_of st i) + m_size (impl_of st i) \<le> base_get_size (base_of st i)"
    and "wf_base (arrays st) (base_of st i)"
  using assms by (auto simp: wf_store_def wf_impl_def list_all_length)

lemma mem_get_size_bound:
  "wf_store st \<Longrightarrow> wf_mem st m \<Longrightarrow> mem_get_size st m \<le> SIZE_MAX"
proof (cases m)
  case (Some i)
  assume "wf_store st" and "wf_mem st m"
  with Some have i: "i < length (impls st)" and "wf_store st" by (simp_all add: wf_mem_def)
  from wf_storeD(2) [OF this(2,1)] wf_base_size [OF wf_storeD(3) [OF this(2,1)]] Some
  show ?thesis by simp
qed simp

lemma length_mem_bytes [simp]:
  assumes "wf_store st" and "wf_mem st m"
  shows "length (mem_bytes st m) = mem_get_size st m"
proof (cases m)
  case None
  then show ?thesis by (simp add: mem_bytes_def)
next
  case (Some i)
  with assms(2) have i: "i < length (impls st)" by (simp add: wf_mem_def)
  obtain a off where d: "base_get_const_data (base_of st i) = (a, off)" by fastforce
  note wf = wf_storeD [OF assms(1) i]
  show ?thesis
  proof (cases a)
    case None
    with d wf have "base_get_size (base_of st i) = 0" by (simp add: wf_base_null)
    with wf Some d None show ?thesis by (simp add: mem_bytes_def)
  next
    case (Some b)
    with d wf have "off + base_get_size (base_of st i) \<le> length (arrays st ! b)"
      using wf_base_region by blast
    with wf have "off + m_offset (impl_of st i) + m_size (impl_of st i) \<le> length (arrays st ! b)"
      by simp
    with \<open>m = Some i\<close> d Some show ?thesis by (simp add: mem_bytes_def)
  qed
qed

section \<open>Growing the store\<close>

text \<open>
  Allocation, wrapping, sharing and copying only add to the store: every handle that existed keeps
  its window, its base and its bytes.
\<close>

definition store_extends :: "store \<Rightarrow> store \<Rightarrow> bool" where
  "store_extends st st' \<longleftrightarrow>
     (\<exists>as bs is. arrays st' = arrays st @ as \<and> bases st' = bases st @ bs \<and> impls st' = impls st @ is)"

lemma store_extends_refl [simp, intro]: "store_extends st st"
  by (simp add: store_extends_def)

lemma store_extends_trans [trans]:
  "store_extends s t \<Longrightarrow> store_extends t u \<Longrightarrow> store_extends s u"
  by (auto simp: store_extends_def)

lemma extends_impl [mem_frame]:
  "store_extends st st' \<Longrightarrow> i < length (impls st) \<Longrightarrow> impl_of st' i = impl_of st i"
  by (auto simp: store_extends_def nth_append)

lemma extends_base [mem_frame]:
  assumes "store_extends st st'" and "wf_store st" and "i < length (impls st)"
  shows "base_of st' i = base_of st i"
  using assms wf_storeD(1) [OF assms(2,3)] by (auto simp: store_extends_def nth_append)

lemma extends_wf_mem [mem_wf]: "store_extends st st' \<Longrightarrow> wf_mem st m \<Longrightarrow> wf_mem st' m"
  by (auto simp: store_extends_def wf_mem_def split: option.splits)

lemma extends_observers [mem_frame]:
  assumes "store_extends st st'" and "wf_store st" and "wf_mem st m"
  shows "mem_get_size st' m = mem_get_size st m"
    and "mem_get_size_full st' m = mem_get_size_full st m"
    and "mem_get_data st' m = mem_get_data st m"
    and "mem_get_const_data st' m = mem_get_const_data st m"
    and "mem_is_mutable st' m = mem_is_mutable st m"
    and "mem_array st' m = mem_array st m"
proof -
  have "mem_get_size st' m = mem_get_size st m \<and> mem_get_size_full st' m = mem_get_size_full st m
      \<and> mem_get_data st' m = mem_get_data st m \<and> mem_get_const_data st' m = mem_get_const_data st m
      \<and> mem_is_mutable st' m = mem_is_mutable st m \<and> mem_array st' m = mem_array st m"
  proof (cases m)
    case (Some i)
    with assms(3) have i: "i < length (impls st)" by (simp add: wf_mem_def)
    from extends_impl [OF assms(1) i] extends_base [OF assms(1,2) i] Some
    show ?thesis by (simp split: sum.splits prod.splits)
  qed simp
  then show "mem_get_size st' m = mem_get_size st m"
    and "mem_get_size_full st' m = mem_get_size_full st m"
    and "mem_get_data st' m = mem_get_data st m"
    and "mem_get_const_data st' m = mem_get_const_data st m"
    and "mem_is_mutable st' m = mem_is_mutable st m"
    and "mem_array st' m = mem_array st m"
    by blast+
qed

lemma read_ptr_extends:
  assumes "store_extends st st'" and "\<And>a. fst p = Some a \<Longrightarrow> a < length (arrays st)"
  shows "read_ptr st' p n = read_ptr st p n"
  using assms by (cases "(st, p, n)" rule: read_ptr.cases) (auto simp: store_extends_def nth_append)

lemma const_data_valid:
  assumes "wf_store st" and "wf_mem st m" and "fst (mem_get_const_data st m) = Some a"
  shows "a < length (arrays st)"
proof (cases m)
  case (Some i)
  with assms(2) have i: "i < length (impls st)" by (simp add: wf_mem_def)
  obtain off where "base_get_const_data (base_of st i) = (Some a, off)"
    using assms(3) Some by (auto split: prod.splits)
  then show ?thesis using wf_base_region wf_storeD(3) [OF assms(1) i] by blast
qed (use assms(3) in simp)

lemma extends_bytes [mem_frame]:
  assumes "store_extends st st'" and "wf_store st" and "wf_mem st m"
  shows "mem_bytes st' m = mem_bytes st m"
  unfolding mem_bytes_def extends_observers [OF assms]
  by (rule read_ptr_extends [OF assms(1)]) (rule const_data_valid [OF assms(2,3)])

lemma wf_impl_append: "wf_impl bs im \<Longrightarrow> wf_impl (bs @ cs) im"
  by (auto simp: wf_impl_def nth_append)

lemma list_all_wf_impl_append: "list_all (wf_impl bs) xs \<Longrightarrow> list_all (wf_impl (bs @ cs)) xs"
  by (erule list.pred_mono_strong) (rule wf_impl_append)

lemma list_all_wf_base_append: "list_all (wf_base as) xs \<Longrightarrow> list_all (wf_base (as @ bs)) xs"
  by (erule list.pred_mono_strong) (rule wf_base_append)

lemma list_all_wf_base_update:
  "list_all (wf_base as) xs \<Longrightarrow> length bs = length (as ! a) \<Longrightarrow> list_all (wf_base (as[a := bs])) xs"
  by (erule list.pred_mono_strong) (rule wf_base_update)

lemma make_memory_allocated_extends [mem_frame]:
  "make_memory_allocated st n = (m, st') \<Longrightarrow> store_extends st st'"
  by (auto simp: make_memory_allocated_def store_extends_def)

lemma make_memory_allocated_wf [mem_wf]:
  assumes "wf_store st" and "n \<le> SIZE_MAX" and "make_memory_allocated st n = (m, st')"
  shows "wf_store st' \<and> wf_mem st' m"
proof -
  have "wf_impl (bases st @ [Memory_allocated (length (arrays st)) n])
      \<lparr>m_size = n, m_offset = 0, m_base = length (bases st)\<rparr>"
    by (simp add: wf_impl_def)
  moreover have "wf_base (arrays st @ [replicate n 0]) (Memory_allocated (length (arrays st)) n)"
    using assms(2) by simp
  ultimately show ?thesis
    using assms by (auto simp: make_memory_allocated_def wf_store_def wf_mem_def
        list_all_wf_base_append list_all_wf_impl_append simp del: wf_base.simps)
qed

lemma add_wrapped_wf [mem_wf]:
  assumes "wf_store st" and "wf_base (arrays st) b" and "add_wrapped st b (base_get_size b) = (m, st')"
  shows "wf_store st' \<and> wf_mem st' m"
proof -
  have "wf_impl (bases st @ [b]) \<lparr>m_size = base_get_size b, m_offset = 0, m_base = length (bases st)\<rparr>"
    by (simp add: wf_impl_def)
  with assms show ?thesis
    by (auto simp: add_wrapped_def wf_store_def wf_mem_def list_all_wf_impl_append)
qed

lemma make_memory_allocated_spec:
  assumes "make_memory_allocated st n = (m, st')"
  shows "m = Some (length (impls st))" and "mem_bytes st' m = replicate n 0"
    and "mem_get_size st' m = n" and "mem_is_mutable st' m" and "mem_array st' m = Some (length (arrays st))"
    and "mem_get_data st' m = Inr (Some (length (arrays st)), 0)"
    and "mem_get_size_full st' m = (n, 0, n)"
  using assms by (auto simp: make_memory_allocated_def mem_bytes_def)

section \<open>Copying\<close>

text \<open>
  A copy is a fresh mutable memory that holds exactly the requested bytes; nothing that existed
  before changes.
\<close>

lemma read_ptr_sub:
  assumes "off + n \<le> k"
  shows "read_ptr st (a, p + off) n = take n (drop off (read_ptr st (a, p) k))"
  using assms by (cases a) (simp_all add: drop_take add.commute min_def)

lemma mem_copy_ok:
  assumes wf: "wf_store st" "wf_mem st m" and fits: "off + n \<le> mem_get_size st m"
  shows "\<exists>m' st'. mem_copy st m off n = (Inr m', st') \<and> store_extends st st' \<and> wf_store st' \<and> wf_mem st' m'
           \<and> mem_bytes st' m' = take n (drop off (mem_bytes st m))
           \<and> (m \<noteq> None \<longrightarrow> mem_is_mutable st' m' \<and> mem_array st' m' = Some (length (arrays st))
                \<and> m' = Some (length (impls st)))"
proof (cases m)
  case None
  with fits show ?thesis by (auto simp: mem_bytes_def wf wf_mem_def)
next
  case (Some i)
  obtain m1 st1 where al: "make_memory_allocated st n = (m1, st1)" by fastforce
  note new = make_memory_allocated_spec [OF al]
  note ext = make_memory_allocated_extends [OF al]
  have n: "n \<le> SIZE_MAX" using fits mem_get_size_bound [OF wf] by simp
  from make_memory_allocated_wf [OF wf(1) n al] have wf1: "wf_store st1" "wf_mem st1 m1" by auto
  obtain a p where cd: "mem_get_const_data st m = (a, p)" by fastforce
  define bs where "bs = take n (drop off (mem_bytes st m))"
  have rd: "read_ptr st1 (a, p + off) n = bs"
    unfolding bs_def extends_bytes [OF ext wf, symmetric]
    using fits read_ptr_sub [of off n "mem_get_size st m" st1 a p]
    by (simp add: mem_bytes_def cd extends_observers [OF ext wf])
  have len: "length bs = n" using fits by (simp add: bs_def wf)
  define st2 where "st2 = write_ptr st1 (Some (length (arrays st)), 0) bs"
  have st2: "st2 = st1\<lparr>arrays := arrays st @ [bs]\<rparr>"
    using al len by (auto simp: st2_def make_memory_allocated_def write_at_def)
  have ok: "mem_copy st m off n = (Inr m1, st2)"
    using fits cd al new Some rd by (simp add: st2_def)
  have "store_extends st st2"
    using al by (auto simp: st2 make_memory_allocated_def store_extends_def)
  moreover have "wf_store st2"
  proof -
    have "wf_store st1" by fact
    moreover have "arrays st1 = arrays st @ [replicate n 0]"
      using al by (auto simp: make_memory_allocated_def)
    then have "arrays st2 = (arrays st1)[length (arrays st) := bs]" by (simp add: st2)
    moreover have "length bs = length (arrays st1 ! length (arrays st))"
      using \<open>arrays st1 = _\<close> len by simp
    ultimately show ?thesis
      by (auto simp: wf_store_def st2 list_all_wf_base_update)
  qed
  moreover have "mem_bytes st2 m1 = bs" "mem_is_mutable st2 m1" "wf_mem st2 m1"
      "mem_array st2 m1 = Some (length (arrays st))" "m1 = Some (length (impls st))"
    using al len by (auto simp: st2 make_memory_allocated_def mem_bytes_def wf_mem_def)
  ultimately show ?thesis using ok by (auto simp: bs_def)
qed

lemma mem_copy_error:
  assumes "mem_get_size st m < off + n"
  shows "mem_copy st m off n = (Inl Invalid_size, st)"
  using assms by (cases m) auto

section \<open>Copy on write\<close>

lemma mem_make_mutable_ok:
  assumes wf: "wf_store st" "wf_mem st m"
  shows "\<exists>m' st'. mem_make_mutable st m = (Inr m', st') \<and> store_extends st st' \<and> wf_store st' \<and> wf_mem st' m'
           \<and> mem_bytes st' m' = mem_bytes st m
           \<and> (m' = m \<and> st' = st \<or>
              m' = Some (length (impls st)) \<and> mem_array st' m' = Some (length (arrays st)))
           \<and> (m \<noteq> None \<longrightarrow> mem_is_mutable st' m')"
proof (cases "m = None \<or> mem_is_mutable st m")
  case True
  then show ?thesis using wf by (auto simp: mem_make_mutable_def)
next
  case False
  then have eq: "mem_make_mutable st m = mem_copy st m 0 (mem_get_size st m)"
    by (simp add: mem_make_mutable_def mem_copy1_def mem_get_size_bound [OF wf])
  from False mem_copy_ok [OF wf, of 0 "mem_get_size st m"] show ?thesis
    unfolding eq by (auto simp: wf)
qed

section \<open>Moving the window\<close>

text \<open>All the bytes of the base behind a handle; the window selects a part of them.\<close>

definition base_bytes :: "store \<Rightarrow> nat \<Rightarrow> byte list" where
  "base_bytes st i = read_ptr st (base_get_const_data (base_of st i)) (base_get_size (base_of st i))"

definition set_window :: "store \<Rightarrow> nat \<Rightarrow> nat \<Rightarrow> nat \<Rightarrow> store" where
  "set_window st i off n =
     st\<lparr>impls := (impls st)[i := (impl_of st i)\<lparr>m_offset := off, m_size := n\<rparr>]\<rparr>"

lemma mem_bytes_window:
  assumes "wf_store st" and "i < length (impls st)"
  shows "mem_bytes st (Some i) =
           take (m_size (impl_of st i)) (drop (m_offset (impl_of st i)) (base_bytes st i))"
proof -
  obtain a p where cd: "base_get_const_data (base_of st i) = (a, p)" by fastforce
  from wf_storeD(2) [OF assms]
  show ?thesis
    by (simp add: mem_bytes_def base_bytes_def cd read_ptr_sub)
qed

lemma set_window_frame [simp]:
  "arrays (set_window st i off n) = arrays st"
  "bases (set_window st i off n) = bases st"
  "length (impls (set_window st i off n)) = length (impls st)"
  "j \<noteq> i \<Longrightarrow> impl_of (set_window st i off n) j = impl_of st j"
  by (simp_all add: set_window_def)

lemma set_window_m_base [simp]:
  "m_base (impls (set_window st i off n) ! j) = m_base (impls st ! j)"
proof (cases "j = i \<and> i < length (impls st)")
  case False
  then have "impls (set_window st i off n) ! j = impls st ! j"
    by (auto simp: set_window_def list_update_beyond)
  then show ?thesis by simp
qed (simp add: set_window_def)

lemma set_window_at [simp]:
  "i < length (impls st) \<Longrightarrow> m_offset (impls (set_window st i off n) ! i) = off"
  "i < length (impls st) \<Longrightarrow> m_size (impls (set_window st i off n) ! i) = n"
  by (simp_all add: set_window_def)

lemma set_window_wf [mem_wf]:
  assumes "wf_store st" and "i < length (impls st)" and "off + n \<le> base_get_size (base_of st i)"
  shows "wf_store (set_window st i off n)"
proof -
  have "list_all (wf_impl (bases st)) (impls (set_window st i off n))"
    unfolding list_all_length
  proof (intro allI impI)
    fix j assume "j < length (impls (set_window st i off n))"
    then show "wf_impl (bases st) (impls (set_window st i off n) ! j)"
      using assms by (cases "j = i") (auto simp: wf_impl_def dest: wf_storeD(1,2))
  qed
  with assms(1) show ?thesis by (simp add: wf_store_def)
qed

lemma set_window_wf_mem [simp]: "wf_mem (set_window st i off n) m = wf_mem st m"
  by (simp add: wf_mem_def split: option.splits)

lemma read_ptr_set_window [simp]: "read_ptr (set_window st i off n) p k = read_ptr st p k"
  by (cases "(st, p, k)" rule: read_ptr.cases) auto

lemma base_bytes_set_window [simp]: "base_bytes (set_window st i off n) j = base_bytes st j"
  by (simp add: base_bytes_def)

lemma mem_bytes_set_window_other [mem_frame]:
  "m \<noteq> Some i \<Longrightarrow> mem_bytes (set_window st i off n) m = mem_bytes st m"
  by (cases m) (auto simp: mem_bytes_def split: prod.splits)

lemma mem_observers_set_window [mem_frame]:
  "mem_array (set_window st i off n) m = mem_array st m"
  "mem_is_mutable (set_window st i off n) m = mem_is_mutable st m"
  "m \<noteq> Some i \<Longrightarrow> mem_get_size (set_window st i off n) m = mem_get_size st m"
  "m \<noteq> Some i \<Longrightarrow> mem_get_size_full (set_window st i off n) m = mem_get_size_full st m"
  by (cases m; auto)+

lemma mem_resize_eq:
  assumes "wf_store st" and "i < length (impls st)"
  shows "mem_resize st (Some i) off n =
    (if m_offset (impl_of st i) + off + n \<le> base_get_size (base_of st i)
     then (Inr (), set_window st i (m_offset (impl_of st i) + off) n)
     else (Inl Invalid_size, st))"
proof -
  note wf = wf_storeD [OF assms]
  show ?thesis
  proof (cases "m_offset (impl_of st i) + off + n \<le> base_get_size (base_of st i)")
    case True
    with wf_base_size [OF wf(3)] have "sz_add (m_offset (impl_of st i)) off = m_offset (impl_of st i) + off"
      by (simp add: size_simps)
    with True show ?thesis by (auto simp: set_window_def Let_def)
  qed (use wf(2) in \<open>auto simp: Let_def\<close>)
qed

lemma mem_reset_size_eq:
  "mem_reset_size st (Some i) = set_window st i 0 (base_get_size (base_of st i))"
  by (simp add: set_window_def)

text \<open>Narrowing a window selects the corresponding bytes.\<close>

lemma mem_bytes_narrow:
  assumes "wf_store st" and "i < length (impls st)" and "off + n \<le> m_size (impl_of st i)"
  shows "mem_bytes (set_window st i (m_offset (impl_of st i) + off) n) (Some i)
         = take n (drop off (mem_bytes st (Some i)))"
proof -
  note wf = wf_storeD [OF assms(1,2)]
  have "wf_store (set_window st i (m_offset (impl_of st i) + off) n)"
    using assms wf(2) by (intro set_window_wf) auto
  from mem_bytes_window [OF this, of i] mem_bytes_window [OF assms(1,2)] assms(2,3)
  show ?thesis by (simp add: drop_take add.commute)
qed

section \<open>Writing through a handle\<close>

lemma write_ptr_frame [simp]:
  "bases (write_ptr st p bs) = bases st" "impls (write_ptr st p bs) = impls st"
  "length (arrays (write_ptr st p bs)) = length (arrays st)"
  by (cases "(st, p, bs)" rule: write_ptr.cases; simp)+

lemma mem_get_data_const:
  "mem_get_data st m = Inr p \<Longrightarrow> mem_get_const_data st m = p"
  by (cases m) (auto split: sum.splits prod.splits dest: base_get_data_const)

lemma mem_get_data_mutable:
  "m \<noteq> None \<Longrightarrow> mem_is_mutable st m \<Longrightarrow> \<exists>p. mem_get_data st m = Inr p"
  by (cases m) (auto split: sum.splits simp flip: base_get_data_mutable)

lemma mem_get_data_error:
  "m \<noteq> None \<Longrightarrow> \<not> mem_is_mutable st m \<Longrightarrow> mem_get_data st m = Inl Object_not_writable"
  by (cases m) (auto split: sum.splits elim!: base_is_mutable.elims)

lemma fst_const_data: "fst (mem_get_const_data st m) = mem_array st m"
  by (cases m) (auto split: prod.splits simp flip: base_array_data)

text \<open>The region behind a handle lies inside its array.\<close>

lemma mem_region:
  assumes "wf_store st" and "wf_mem st m" and "mem_get_const_data st m = (Some a, p)"
  shows "a < length (arrays st)" and "p + mem_get_size st m \<le> length (arrays st ! a)"
proof -
  from assms(2,3) obtain i where m: "m = Some i" and i: "i < length (impls st)"
    by (cases m) (auto simp: wf_mem_def)
  obtain q where q: "base_get_const_data (base_of st i) = (Some a, q)" "p = q + m_offset (impl_of st i)"
    using assms(3) m by (auto split: prod.splits)
  from wf_base_region [OF wf_storeD(3) [OF assms(1) i] q(1)] wf_storeD(2) [OF assms(1) i] q(2) m
  show "a < length (arrays st)" and "p + mem_get_size st m \<le> length (arrays st ! a)" by auto
qed

lemma mem_null_size:
  assumes "wf_store st" and "wf_mem st m" and "mem_get_const_data st m = (None, p)"
  shows "mem_get_size st m = 0"
proof (cases m)
  case (Some i)
  with assms(2) have i: "i < length (impls st)" by (simp add: wf_mem_def)
  obtain q where "base_get_const_data (base_of st i) = (None, q)"
    using assms(3) Some by (auto split: prod.splits)
  with wf_base_null [OF wf_storeD(3) [OF assms(1) i]] wf_storeD(2) [OF assms(1) i] Some
  show ?thesis by simp
qed simp

lemma write_through:
  assumes wf: "wf_store st" "wf_mem st m" and d: "mem_get_data st m = Inr (a, p)"
    and fits: "k + length bs \<le> mem_get_size st m"
  defines "st' \<equiv> write_ptr st (a, p + k) bs"
  shows "wf_store st'" and "mem_bytes st' m = write_at k bs (mem_bytes st m)"
    and "\<And>m'. mem_array st m' \<noteq> a \<or> a = None \<Longrightarrow> mem_bytes st' m' = mem_bytes st m'"
    and "\<And>m'. mem_get_size st' m' = mem_get_size st m'"
    and "\<And>m'. mem_get_data st' m' = mem_get_data st m'"
    and "\<And>m'. mem_array st' m' = mem_array st m'"
    and "\<And>m'. mem_is_mutable st' m' = mem_is_mutable st m'"
    and "\<And>m'. wf_mem st' m' = wf_mem st m'"
proof -
  have obs: "mem_get_const_data st' m' = mem_get_const_data st m'"
      "mem_get_size st' m' = mem_get_size st m'" "mem_get_data st' m' = mem_get_data st m'"
      "mem_array st' m' = mem_array st m'" "mem_is_mutable st' m' = mem_is_mutable st m'"
      "wf_mem st' m' = wf_mem st m'" for m'
    by (cases m'; simp add: st'_def wf_mem_def split: sum.splits prod.splits)+
  then show "\<And>m'. mem_get_size st' m' = mem_get_size st m'" "\<And>m'. mem_get_data st' m' = mem_get_data st m'"
      "\<And>m'. mem_array st' m' = mem_array st m'" "\<And>m'. mem_is_mutable st' m' = mem_is_mutable st m'"
      "\<And>m'. wf_mem st' m' = wf_mem st m'" by blast+
  note cd = mem_get_data_const [OF d]
  show "wf_store st'"
  proof (cases a)
    case (Some b)
    with fits mem_region(2) [OF wf, of b p] cd have "p + k + length bs \<le> length (arrays st ! b)" by simp
    then have "length (write_at (p + k) bs (arrays st ! b)) = length (arrays st ! b)" by simp
    with wf(1) Some show ?thesis by (simp add: st'_def wf_store_def list_all_wf_base_update)
  qed (simp add: st'_def wf(1))
  show "mem_bytes st' m = write_at k bs (mem_bytes st m)"
  proof (cases a)
    case None
    with mem_null_size [OF wf] cd fits show ?thesis
      by (simp add: mem_bytes_def obs st'_def)
  next
    case (Some b)
    with mem_region [OF wf, of b p] cd
    have "b < length (arrays st)" "p + mem_get_size st m \<le> length (arrays st ! b)" by auto
    with fits Some cd show ?thesis
      by (simp add: mem_bytes_def obs) (simp add: st'_def window_write_at)
  qed
  show "mem_bytes st' m' = mem_bytes st m'" if "mem_array st m' \<noteq> a \<or> a = None" for m'
  proof -
    obtain c q where c: "mem_get_const_data st m' = (c, q)" by fastforce
    with fst_const_data [of st m'] have "mem_array st m' = c" by simp
    with that have "read_ptr st' (c, q) n = read_ptr st (c, q) n" for n
      by (cases a; cases c) (auto simp: st'_def nth_list_update)
    with c show ?thesis by (simp add: mem_bytes_def obs)
  qed
qed

section \<open>The empty store\<close>

definition empty_store :: store where
  "empty_store = \<lparr>arrays = [], bases = [], impls = []\<rparr>"

lemma empty_store_wf: "wf_store empty_store"
  by (simp add: empty_store_def wf_store_def)

end
