(* ===== verification/Buffer.thy ===== *)
theory Buffer
  imports Memory
begin

text \<open>
  Model of \<open>lib/rstream/core/buffer.cpp\<close> and of the buffer sequences of \<open>core/helpers/asio.cpp\<close>:
  a buffer is a list of memory blocks read and written as one byte sequence. The C++ object is a
  shared pointer to its block list; the model passes that list explicitly, so that two C++ handles
  on one \<open>impl\<close> are one list here. Operations that throw after a partial update return the
  error together with the store and the block list they leave behind.
\<close>

type_synonym blocks = "memory list"

section \<open>Construction and insertion\<close>

definition insert_memory :: "blocks \<Rightarrow> int \<Rightarrow> memory \<Rightarrow> core_error + blocks" where
  "insert_memory bl index m =
     (if m = None then Inl Object_null
      else if \<not> (index = -1 \<or> (index \<ge> 0 \<and> nat index \<le> length bl)) then Inl Invalid_size
      else let k = (if index \<noteq> -1 then nat index else length bl)
           in Inr (take k bl @ m # drop k bl))"

definition buffer_prepend :: "blocks \<Rightarrow> memory \<Rightarrow> core_error + blocks" where
  "buffer_prepend bl m = insert_memory bl 0 m"

definition buffer_append :: "blocks \<Rightarrow> memory \<Rightarrow> core_error + blocks" where
  "buffer_append bl m = insert_memory bl (-1) m"

text \<open>The appended buffer's blocks are copied first, so appending a buffer to itself is defined.\<close>

fun buffer_append_buffer :: "blocks \<Rightarrow> blocks \<Rightarrow> core_error + blocks" where
  "buffer_append_buffer bl [] = Inr bl"
| "buffer_append_buffer bl (m # ms) =
     (case buffer_append bl m of Inl e \<Rightarrow> Inl e | Inr bl' \<Rightarrow> buffer_append_buffer bl' ms)"

definition buffer_bool :: "blocks \<Rightarrow> bool" where
  "buffer_bool bl = (bl \<noteq> [])"

definition make_buffer_allocated :: "store \<Rightarrow> nat \<Rightarrow> (core_error + blocks) \<times> store" where
  "make_buffer_allocated st n =
     (let (m, st1) = make_memory_allocated st n in (buffer_append [] m, st1))"

definition make_buffer_wrapped :: "store \<Rightarrow> nat option \<Rightarrow> nat \<Rightarrow> nat \<Rightarrow> (core_error + blocks) \<times> store" where
  "make_buffer_wrapped st data max_size off =
     (case make_memory_wrapped st data max_size off of
        (Inl e, st1) \<Rightarrow> (Inl e, st1)
      | (Inr m, st1) \<Rightarrow> (buffer_append [] m, st1))"

definition make_buffer_wrapped_const :: "store \<Rightarrow> nat option \<Rightarrow> nat \<Rightarrow> nat \<Rightarrow> (core_error + blocks) \<times> store" where
  "make_buffer_wrapped_const st data max_size off =
     (case make_memory_wrapped_const st data max_size off of
        (Inl e, st1) \<Rightarrow> (Inl e, st1)
      | (Inr m, st1) \<Rightarrow> (buffer_append [] m, st1))"

section \<open>Reading and writing\<close>

text \<open>The bytes copied to the destination, in order, and what is left to copy.\<close>

fun extract_loop :: "store \<Rightarrow> blocks \<Rightarrow> nat \<Rightarrow> nat \<Rightarrow> byte list \<times> nat" where
  "extract_loop st [] off left = ([], left)"
| "extract_loop st (mem # ms) off left =
     (if left = 0 then ([], left)
      else
        let mem_size = mem_get_size st mem in
        if mem_size > off then
          let to_copy = min (mem_size - off) left;
              (a, p) = mem_get_const_data st mem;
              (bs, left') = extract_loop st ms 0 (left - to_copy)
          in (read_ptr st (a, p + off) to_copy @ bs, left')
        else extract_loop st ms (off - mem_size) left)"

definition buffer_extract :: "store \<Rightarrow> blocks \<Rightarrow> nat \<Rightarrow> nat \<Rightarrow> byte list \<times> nat" where
  "buffer_extract st bl off n = (let (bs, left) = extract_loop st bl off n in (bs, n - left))"

datatype map_mode = Map_read | Map_write

definition map_memory_block :: "store \<Rightarrow> memory \<Rightarrow> map_mode \<Rightarrow> memory result" where
  "map_memory_block st m mode =
     (if mode = Map_write \<and> \<not> mem_is_mutable st m then mem_make_mutable st m else (Inr m, st))"

fun fill_loop :: "store \<Rightarrow> blocks \<Rightarrow> byte list \<Rightarrow> nat \<Rightarrow> nat \<Rightarrow> (core_error + nat) \<times> store \<times> blocks" where
  "fill_loop st [] src off left = (Inr left, st, [])"
| "fill_loop st (mem # ms) src off left =
     (if left = 0 then (Inr left, st, mem # ms)
      else
        case map_memory_block st mem Map_write of
          (Inl e, st1) \<Rightarrow> (Inl e, st1, mem # ms)
        | (Inr mem', st1) \<Rightarrow>
            (let mem_size = mem_get_size st1 mem' in
             if mem_size > off then
               let to_copy = min (mem_size - off) left in
               case mem_get_data st1 mem' of
                 Inl e \<Rightarrow> (Inl e, st1, mem' # ms)
               | Inr (a, p) \<Rightarrow>
                   (case fill_loop (write_ptr st1 (a, p + off) (take to_copy src)) ms (drop to_copy src) 0 (left - to_copy) of
                      (r, st2, ms') \<Rightarrow> (r, st2, mem' # ms'))
             else
               case fill_loop st1 ms src (off - mem_size) left of
                 (r, st2, ms') \<Rightarrow> (r, st2, mem' # ms')))"

definition buffer_fill :: "store \<Rightarrow> blocks \<Rightarrow> byte list \<Rightarrow> nat \<Rightarrow> nat \<Rightarrow> (core_error + nat) \<times> store \<times> blocks" where
  "buffer_fill st bl src off n =
     (case fill_loop st bl src off n of
        (Inl e, st', bl') \<Rightarrow> (Inl e, st', bl')
      | (Inr left, st', bl') \<Rightarrow> (Inr (n - left), st', bl'))"

section \<open>Sizes of block ranges\<close>

definition check_size_add :: "nat \<Rightarrow> nat \<Rightarrow> bool" where
  "check_size_add b v \<longleftrightarrow> \<not> v > SIZE_MAX - b"

definition process_args :: "blocks \<Rightarrow> nat \<Rightarrow> int \<Rightarrow> core_error + nat" where
  "process_args bl index len =
     (let max_length = length bl in
      if len < -1 \<or> index > max_length then Inl Invalid_size
      else if len = -1 then
        (if max_length - index > INT_MAX then Inl Invalid_size else Inr (max_length - index))
      else if nat len > max_length - index then Inl Invalid_size
      else Inr (nat len))"

text \<open>The loop of \<open>get_size_range\<close> over the blocks of the range: \<open>size\<close>, \<open>offset\<close> and \<open>extra\<close>.\<close>

fun size_range_loop :: "store \<Rightarrow> blocks \<Rightarrow> nat \<Rightarrow> nat \<Rightarrow> nat \<Rightarrow> core_error + (nat \<times> nat \<times> nat)" where
  "size_range_loop st [] bsize off extra = Inr (bsize, off, extra)"
| "size_range_loop st (mem # ms) bsize off extra =
     (let (mem_size, mem_offset, mem_maxsize) = mem_get_size_full st mem in
      if mem_offset > mem_maxsize \<or> mem_size > mem_maxsize - mem_offset then Inl Invalid_size
      else if mem_size \<noteq> 0 then
        let off' = (if bsize = 0 then sz_add extra mem_offset else off) in
        if \<not> check_size_add bsize mem_size then Inl Invalid_size
        else size_range_loop st ms (bsize + mem_size) off' (mem_maxsize - (mem_offset + mem_size))
      else if \<not> check_size_add extra mem_maxsize then Inl Invalid_size
      else size_range_loop st ms bsize off (extra + mem_maxsize))"

definition range_of :: "blocks \<Rightarrow> nat \<Rightarrow> nat \<Rightarrow> blocks" where
  "range_of bl index len = take len (drop index bl)"

definition get_size_range :: "store \<Rightarrow> blocks \<Rightarrow> nat \<Rightarrow> int \<Rightarrow> core_error + nat" where
  "get_size_range st bl index len =
     (case process_args bl index len of
        Inl e \<Rightarrow> Inl e
      | Inr n \<Rightarrow>
          (case size_range_loop st (range_of bl index n) 0 0 0 of
             Inl e \<Rightarrow> Inl e
           | Inr (bsize, off, extra) \<Rightarrow> Inr bsize))"

text \<open>The same with the two output parameters: size, offset and maximal size of the range.\<close>

definition get_size_range_full :: "store \<Rightarrow> blocks \<Rightarrow> nat \<Rightarrow> int \<Rightarrow> core_error + (nat \<times> nat \<times> nat)" where
  "get_size_range_full st bl index len =
     (case process_args bl index len of
        Inl e \<Rightarrow> Inl e
      | Inr n \<Rightarrow>
          (case size_range_loop st (range_of bl index n) 0 0 0 of
             Inl e \<Rightarrow> Inl e
           | Inr (bsize, off, extra) \<Rightarrow>
               if \<not> check_size_add off bsize \<or> \<not> check_size_add (off + bsize) extra then Inl Invalid_size
               else Inr (bsize, off, off + bsize + extra)))"

definition get_size :: "store \<Rightarrow> blocks \<Rightarrow> core_error + nat" where
  "get_size st bl = get_size_range st bl 0 (-1)"

definition get_size_full :: "store \<Rightarrow> blocks \<Rightarrow> core_error + (nat \<times> nat \<times> nat)" where
  "get_size_full st bl = get_size_range_full st bl 0 (-1)"

section \<open>Resizing\<close>

fun resize_loop :: "store \<Rightarrow> blocks \<Rightarrow> nat \<Rightarrow> nat \<Rightarrow> unit result" where
  "resize_loop st [] off bsize = (Inr (), st)"
| "resize_loop st (mem # ms) off bsize =
     (let mem_size = mem_get_size st mem;
          (left, noffs, off') =
            (if ms = [] then (bsize, 0, off)
             else if mem_size \<le> off then (0, off - mem_size, 0)
             else (min (mem_size - off) bsize, 0, off))
      in case (if off' \<noteq> 0 \<or> left \<noteq> mem_size then mem_resize st mem off' left else (Inr (), st)) of
           (Inl e, st1) \<Rightarrow> (Inl e, st1)
         | (Inr _, st1) \<Rightarrow> resize_loop st1 ms noffs (sz_sub bsize left))"

definition resize_range_checked :: "store \<Rightarrow> blocks \<Rightarrow> nat \<Rightarrow> int \<Rightarrow> nat \<Rightarrow> nat option \<Rightarrow> unit result" where
  "resize_range_checked st bl index len off size_opt =
     (case process_args bl index len of
        Inl e \<Rightarrow> (Inl e, st)
      | Inr n \<Rightarrow>
          (case get_size_range_full st bl index (int n) of
             Inl e \<Rightarrow> (Inl e, st)
           | Inr (buf_size, buf_offset, buf_maxsize) \<Rightarrow>
               if buf_offset > buf_maxsize \<or> off > buf_maxsize - buf_offset then (Inl Invalid_size, st)
               else if size_opt = None \<and> \<not> buf_size \<ge> off then (Inl Invalid_size, st)
               else
                 let bsize = (case size_opt of None \<Rightarrow> buf_size - off | Some k \<Rightarrow> k) in
                 if bsize > buf_maxsize - buf_offset - off then (Inl Invalid_size, st)
                 else if off = 0 \<and> bsize = buf_size then (Inr (), st)
                 else resize_loop st (range_of bl index n) off bsize))"

definition buffer_resize1 :: "store \<Rightarrow> blocks \<Rightarrow> nat \<Rightarrow> unit result" where
  "buffer_resize1 st bl off = resize_range_checked st bl 0 (-1) off None"

definition buffer_resize :: "store \<Rightarrow> blocks \<Rightarrow> nat \<Rightarrow> nat \<Rightarrow> unit result" where
  "buffer_resize st bl off n = resize_range_checked st bl 0 (-1) off (Some n)"

definition buffer_resize_range :: "store \<Rightarrow> blocks \<Rightarrow> nat \<Rightarrow> int \<Rightarrow> nat \<Rightarrow> int \<Rightarrow> unit result" where
  "buffer_resize_range st bl index len off n =
     (if n < -1 then (Inl Invalid_size, st)
      else resize_range_checked st bl index len off (if n \<noteq> -1 then Some (nat n) else None))"

definition buffer_set_size :: "store \<Rightarrow> blocks \<Rightarrow> nat \<Rightarrow> unit result" where
  "buffer_set_size st bl n = buffer_resize st bl 0 n"

definition buffer_reset_size :: "store \<Rightarrow> blocks \<Rightarrow> store" where
  "buffer_reset_size st bl = fold (\<lambda>m s. mem_reset_size s m) bl st"

section \<open>Mapping to one block\<close>

text \<open>
  The loop that copies a range of blocks into \<open>result\<close>; the blocks of the range are erased one by
  one, so that an error leaves the remaining ones in the list.
\<close>

fun map_range_loop :: "store \<Rightarrow> blocks \<Rightarrow> map_mode \<Rightarrow> memory \<Rightarrow> nat \<Rightarrow> (core_error + unit) \<times> store \<times> blocks" where
  "map_range_loop st [] mode res off = (Inr (), st, [])"
| "map_range_loop st (mem # ms) mode res off =
     (case map_memory_block st mem mode of
        (Inl e, st1) \<Rightarrow> (Inl e, st1, mem # ms)
      | (Inr mem', st1) \<Rightarrow>
          (let to_copy = mem_get_size st1 mem' in
           case mem_get_data st1 res of
             Inl e \<Rightarrow> (Inl e, st1, mem' # ms)
           | Inr (a, p) \<Rightarrow>
               map_range_loop (write_ptr st1 (a, p + off) (read_ptr st1 (mem_get_const_data st1 mem') to_copy))
                 ms mode res (sz_add off to_copy)))"

definition map_range :: "store \<Rightarrow> blocks \<Rightarrow> map_mode \<Rightarrow> nat \<Rightarrow> int \<Rightarrow> (core_error + memory) \<times> store \<times> blocks" where
  "map_range st bl mode index len =
     (case process_args bl index len of
        Inl e \<Rightarrow> (Inl e, st, bl)
      | Inr n \<Rightarrow>
          if n = 1 then
            (case map_memory_block st (bl ! index) mode of
               (Inl e, st1) \<Rightarrow> (Inl e, st1, bl)
             | (Inr m, st1) \<Rightarrow> (Inr m, st1, bl[index := m]))
          else if n \<noteq> 0 then
            (case get_size_range st bl index (int n) of
               Inl e \<Rightarrow> (Inl e, st, bl)
             | Inr bsize \<Rightarrow>
                 (let (res, st1) = make_memory_allocated st bsize in
                  case map_range_loop st1 (range_of bl index n) mode res 0 of
                    (Inl e, st2, rest) \<Rightarrow> (Inl e, st2, take index bl @ rest @ drop (index + n) bl)
                  | (Inr _, st2, _) \<Rightarrow> (Inr res, st2, take index bl @ res # drop (index + n) bl)))
          else (Inr None, st, bl))"

definition buffer_map :: "store \<Rightarrow> blocks \<Rightarrow> map_mode \<Rightarrow> (core_error + memory) \<times> store \<times> blocks" where
  "buffer_map st bl mode = map_range st bl mode 0 (-1)"

section \<open>Copying\<close>

definition buffer_copy :: "store \<Rightarrow> blocks \<Rightarrow> nat \<Rightarrow> nat \<Rightarrow> (core_error + blocks) \<times> store" where
  "buffer_copy st bl off n =
     (case get_size st bl of
        Inl e \<Rightarrow> (Inl e, st)
      | Inr tot \<Rightarrow>
          if off > tot then (Inl Invalid_size, st)
          else if n > tot - off then (Inl Invalid_size, st)
          else
            (case make_buffer_allocated st n of
              (Inl e, st1) \<Rightarrow> (Inl e, st1)
            | (Inr new, st1) \<Rightarrow>
                (case buffer_map st1 new Map_write of
                   (Inl e, st2, new') \<Rightarrow> (Inl e, st2)
                 | (Inr m, st2, new') \<Rightarrow>
                     (case mem_get_data st2 m of
                        Inl e \<Rightarrow> (Inl e, st2)
                      | Inr dst \<Rightarrow> (Inr new', write_ptr st2 dst (fst (buffer_extract st2 bl off n)))))))"

definition buffer_copy1 :: "store \<Rightarrow> blocks \<Rightarrow> nat \<Rightarrow> (core_error + blocks) \<times> store" where
  "buffer_copy1 st bl off =
     (case get_size st bl of
        Inl e \<Rightarrow> (Inl e, st)
      | Inr tot \<Rightarrow> buffer_copy st bl off (sz_sub tot off))"

section \<open>Buffer sequences for the transport\<close>

definition const_memory_sequence :: "store \<Rightarrow> blocks \<Rightarrow> (ptr \<times> nat) list" where
  "const_memory_sequence st bl = map (\<lambda>m. (mem_get_const_data st m, mem_get_size st m)) bl"

fun mutable_memory_sequence :: "store \<Rightarrow> blocks \<Rightarrow> core_error + (ptr \<times> nat) list" where
  "mutable_memory_sequence st [] = Inr []"
| "mutable_memory_sequence st (m # ms) =
     (case mem_get_data st m of
        Inl e \<Rightarrow> Inl e
      | Inr p \<Rightarrow>
          (case mutable_memory_sequence st ms of
             Inl e \<Rightarrow> Inl e
           | Inr ps \<Rightarrow> Inr ((p, mem_get_size st m) # ps)))"

section \<open>What a buffer denotes\<close>

definition buffer_bytes :: "store \<Rightarrow> blocks \<Rightarrow> byte list" where
  "buffer_bytes st bl = concat (map (mem_bytes st) bl)"

definition buffer_total :: "store \<Rightarrow> blocks \<Rightarrow> nat" where
  "buffer_total st bl = sum_list (map (mem_get_size st) bl)"

definition wf_blocks :: "store \<Rightarrow> blocks \<Rightarrow> bool" where
  "wf_blocks st bl \<longleftrightarrow> list_all (\<lambda>m. m \<noteq> None \<and> wf_mem st m) bl"


section \<open>Block lists in a well-formed store\<close>

lemma wf_blocks_simps [simp]:
  "wf_blocks st []" "wf_blocks st (m # ms) \<longleftrightarrow> m \<noteq> None \<and> wf_mem st m \<and> wf_blocks st ms"
  "wf_blocks st (xs @ ys) \<longleftrightarrow> wf_blocks st xs \<and> wf_blocks st ys"
  by (auto simp: wf_blocks_def)

lemma buffer_bytes_simps [simp]:
  "buffer_bytes st [] = []" "buffer_bytes st (m # ms) = mem_bytes st m @ buffer_bytes st ms"
  "buffer_bytes st (xs @ ys) = buffer_bytes st xs @ buffer_bytes st ys"
  by (simp_all add: buffer_bytes_def)

lemma buffer_total_simps [simp]:
  "buffer_total st [] = 0" "buffer_total st (m # ms) = mem_get_size st m + buffer_total st ms"
  "buffer_total st (xs @ ys) = buffer_total st xs + buffer_total st ys"
  by (simp_all add: buffer_total_def)

lemma length_buffer_bytes [simp]:
  "wf_store st \<Longrightarrow> wf_blocks st bl \<Longrightarrow> length (buffer_bytes st bl) = buffer_total st bl"
  by (induction bl) auto

lemma wf_blocks_take_drop:
  "wf_blocks st bl \<Longrightarrow> wf_blocks st (take n bl)" "wf_blocks st bl \<Longrightarrow> wf_blocks st (drop n bl)"
  by (auto simp: wf_blocks_def list_all_iff dest: in_set_takeD in_set_dropD)

lemma extends_blocks [mem_frame]:
  assumes "store_extends st st'" and "wf_store st" and "wf_blocks st bl"
  shows "buffer_bytes st' bl = buffer_bytes st bl" and "wf_blocks st' bl"
    and "buffer_total st' bl = buffer_total st bl" and "map (mem_array st') bl = map (mem_array st) bl"
  using assms(3)
  by (induction bl)
    (auto simp: extends_bytes [OF assms(1,2)] extends_wf_mem [OF assms(1)] extends_observers [OF assms(1,2)])

lemma range_of_all: "range_of bl 0 (length bl) = bl"
  by (simp add: range_of_def)

section \<open>Extraction\<close>

lemma mem_bytes_sub:
  assumes "mem_get_const_data st m = (a, p)" and "off + n \<le> mem_get_size st m"
  shows "read_ptr st (a, p + off) n = take n (drop off (mem_bytes st m))"
  using assms read_ptr_sub by (simp add: mem_bytes_def)

lemma extract_loop_spec:
  assumes "wf_store st" and "wf_blocks st bl"
  shows "extract_loop st bl off left =
           (take left (drop off (buffer_bytes st bl)), left - (buffer_total st bl - off))"
  using assms(2)
proof (induction bl arbitrary: off left)
  case (Cons m ms)
  obtain a p where cd: "mem_get_const_data st m = (a, p)" by fastforce
  have len: "length (mem_bytes st m) = mem_get_size st m" using Cons.prems assms(1) by simp
  show ?case
  proof (cases "left = 0 \<or> mem_get_size st m \<le> off")
    case True
    with Cons len show ?thesis by (auto simp: Let_def)
  next
    case False
    define k where "k = min (mem_get_size st m - off) left"
    with False have k: "off + k \<le> mem_get_size st m" "k \<le> left" by auto
    have "take left (drop off (mem_bytes st m @ buffer_bytes st ms))
        = take k (drop off (mem_bytes st m)) @ take (left - k) (buffer_bytes st ms)"
      using False len by (auto simp: k_def min_def)
    moreover have "extract_loop st (m # ms) off left
        = (take k (drop off (mem_bytes st m)) @ take (left - k) (buffer_bytes st ms), left - k - buffer_total st ms)"
      using False Cons.prems Cons.IH [of 0 "left - k"] mem_bytes_sub [OF cd k(1)]
      unfolding extract_loop.simps k_def by (simp add: Let_def cd)
    moreover have "left - k - buffer_total st ms = left - (mem_get_size st m + buffer_total st ms - off)"
      using False unfolding k_def by arith
    ultimately show ?thesis by (simp only: buffer_bytes_simps buffer_total_simps)
  qed
qed simp

lemma buffer_extract_spec:
  assumes "wf_store st" and "wf_blocks st bl"
  shows "buffer_extract st bl off n =
           (take n (drop off (buffer_bytes st bl)), min n (buffer_total st bl - off))"
  by (simp add: buffer_extract_def extract_loop_spec [OF assms] min_def)

section \<open>Sizes\<close>

lemma check_size_add_iff: "b \<le> SIZE_MAX \<Longrightarrow> check_size_add b v \<longleftrightarrow> b + v \<le> SIZE_MAX"
  by (auto simp: check_size_add_def)

lemma mem_get_size_full_wf:
  assumes "wf_store st" and "wf_mem st m" and "mem_get_size_full st m = (n, off, mx)"
  shows "off + n \<le> mx" and "mx \<le> SIZE_MAX" and "mem_get_size st m = n"
proof -
  have "off + n \<le> mx \<and> mx \<le> SIZE_MAX \<and> mem_get_size st m = n"
  proof (cases m)
    case (Some i)
    with assms(2) have i: "i < length (impls st)" by (simp add: wf_mem_def)
    from wf_storeD [OF assms(1) i] assms(3) Some show ?thesis by (auto intro: wf_base_size)
  qed (use assms(3) in simp)
  then show "off + n \<le> mx" and "mx \<le> SIZE_MAX" and "mem_get_size st m = n" by blast+
qed

text \<open>
  The size of a range is the sum of its blocks' sizes; the only failure on well-formed blocks is an
  arithmetic overflow.
\<close>

lemma size_range_loop_size:
  assumes "wf_store st" and "wf_blocks st bl"
    and "size_range_loop st bl n off extra = Inr (n', off', extra')"
  shows "n' = n + buffer_total st bl"
  using assms(2,3)
proof (induction bl arbitrary: n off extra)
  case (Cons m ms)
  obtain k o1 mx where full: "mem_get_size_full st m = (k, o1, mx)" by (metis prod_cases3)
  from mem_get_size_full_wf(3) [OF assms(1) _ full] Cons.prems(1) have "mem_get_size st m = k" by simp
  with Cons.prems full show ?case
    by (auto simp: Let_def simp del: mem_get_size_full.simps mem_get_size.simps split: if_splits
        dest!: Cons.IH [rotated])
qed simp

text \<open>An upper bound on everything a range can hold: the sum of the capacities of its blocks.\<close>

definition mem_capacity :: "store \<Rightarrow> memory \<Rightarrow> nat" where
  "mem_capacity st m = snd (snd (mem_get_size_full st m))"

definition buffer_capacity :: "store \<Rightarrow> blocks \<Rightarrow> nat" where
  "buffer_capacity st bl = sum_list (map (mem_capacity st) bl)"

lemma buffer_capacity_simps [simp]:
  "buffer_capacity st [] = 0" "buffer_capacity st (m # ms) = mem_capacity st m + buffer_capacity st ms"
  "buffer_capacity st (xs @ ys) = buffer_capacity st xs + buffer_capacity st ys"
  by (simp_all add: buffer_capacity_def)

lemma size_range_loop_ok:
  assumes "wf_store st" and "wf_blocks st bl"
    and "n + extra + off + buffer_capacity st bl \<le> SIZE_MAX"
  shows "\<exists>n' off' extra'. size_range_loop st bl n off extra = Inr (n', off', extra')
           \<and> n' + off' + extra' \<le> n + off + extra + buffer_capacity st bl"
  using assms(2,3)
proof (induction bl arbitrary: n off extra)
  case (Cons m ms)
  obtain k o1 mx where full: "mem_get_size_full st m = (k, o1, mx)" by (metis prod_cases3)
  have wf: "o1 + k \<le> mx" using mem_get_size_full_wf [OF assms(1) _ full] Cons.prems(1) by simp
  have cap: "mem_capacity st m = mx" by (simp add: mem_capacity_def full)
  note IH = Cons.IH [of "n + k" "mx - (o1 + k)"]
  show ?case
  proof (cases "k = 0")
    case True
    with Cons.prems cap have "\<exists>n' off' extra'. size_range_loop st ms n off (extra + mx) = Inr (n', off', extra')
           \<and> n' + off' + extra' \<le> n + off + (extra + mx) + buffer_capacity st ms"
      by (intro Cons.IH) auto
    with True full wf Cons.prems cap show ?thesis by (auto simp: check_size_add_iff)
  next
    case False
    define o2 where "o2 = (if n = 0 then sz_add extra o1 else off)"
    have o2: "o2 \<le> extra + o1 + off"
      using Cons.prems(2) cap wf by (auto simp: o2_def size_simps)
    with Cons.prems cap wf have "\<exists>n' off' extra'. size_range_loop st ms (n + k) o2 (mx - (o1 + k)) = Inr (n', off', extra')
           \<and> n' + off' + extra' \<le> (n + k) + o2 + (mx - (o1 + k)) + buffer_capacity st ms"
      by (intro Cons.IH) auto
    with False full wf Cons.prems cap o2 show ?thesis
      by (auto simp: check_size_add_iff Let_def o2_def [symmetric])
  qed
qed auto

section \<open>Addressable buffers\<close>

text \<open>
  A buffer whose block count fits an \<open>int\<close> and whose total capacity fits a \<open>size_t\<close>: on these no
  size computation overflows.
\<close>

definition buffer_ok :: "store \<Rightarrow> blocks \<Rightarrow> bool" where
  "buffer_ok st bl \<longleftrightarrow> wf_store st \<and> wf_blocks st bl \<and> length bl \<le> INT_MAX \<and> buffer_capacity st bl \<le> SIZE_MAX"

lemma buffer_total_le_capacity:
  "wf_store st \<Longrightarrow> wf_blocks st bl \<Longrightarrow> buffer_total st bl \<le> buffer_capacity st bl"
proof (induction bl)
  case (Cons m ms)
  obtain k o1 mx where full: "mem_get_size_full st m = (k, o1, mx)" by (metis prod_cases3)
  from mem_get_size_full_wf [OF Cons.prems(1) _ full] Cons show ?case
    by (simp add: mem_capacity_def full)
qed simp

lemma process_args_all: "length bl \<le> INT_MAX \<Longrightarrow> process_args bl 0 (-1) = Inr (length bl)"
  by (simp add: process_args_def)

lemma process_args_len: "process_args bl 0 (int (length bl)) = Inr (length bl)"
  by (simp add: process_args_def)

lemma size_range_loop_all:
  assumes "buffer_ok st bl"
  shows "\<exists>off extra. size_range_loop st bl 0 0 0 = Inr (buffer_total st bl, off, extra)
           \<and> buffer_total st bl + off + extra \<le> buffer_capacity st bl"
  using assms size_range_loop_ok [of st bl 0 0 0] size_range_loop_size [of st bl 0 0 0]
  by (fastforce simp: buffer_ok_def)

lemma get_size_ok: "buffer_ok st bl \<Longrightarrow> get_size st bl = Inr (buffer_total st bl)"
  using size_range_loop_all [of st bl]
  by (auto simp: get_size_def get_size_range_def process_args_all range_of_all buffer_ok_def)

lemma get_size_full_ok:
  assumes "buffer_ok st bl"
  shows "\<exists>off mx. get_size_full st bl = Inr (buffer_total st bl, off, mx)
           \<and> off + buffer_total st bl \<le> mx \<and> mx \<le> buffer_capacity st bl"
proof -
  obtain off extra where l: "size_range_loop st bl 0 0 0 = Inr (buffer_total st bl, off, extra)"
      and b: "buffer_total st bl + off + extra \<le> buffer_capacity st bl"
    using size_range_loop_all [OF assms] by blast
  with assms show ?thesis
    by (auto simp: get_size_full_def get_size_range_full_def process_args_all range_of_all
        buffer_ok_def check_size_add_iff)
qed

section \<open>Resizing\<close>

text \<open>The blocks lie in pairwise different arrays.\<close>

definition sep :: "store \<Rightarrow> blocks \<Rightarrow> bool" where
  "sep st bl \<longleftrightarrow> distinct (map (mem_array st) bl)"

text \<open>What resizing never touches: the array, the mutability and the capacity behind a handle.\<close>

definition same_shape :: "store \<Rightarrow> store \<Rightarrow> bool" where
  "same_shape st st' \<longleftrightarrow> (\<forall>m. mem_array st' m = mem_array st m \<and> mem_is_mutable st' m = mem_is_mutable st m
     \<and> mem_capacity st' m = mem_capacity st m)"

lemma set_window_same_shape: "same_shape st (set_window st i off n)"
  unfolding same_shape_def
proof (intro allI conjI)
  fix m show "mem_capacity (set_window st i off n) m = mem_capacity st m"
    by (cases m) (auto simp: mem_capacity_def)
qed (rule mem_observers_set_window)+

lemma same_shape_blocks:
  assumes "same_shape st st'"
  shows "buffer_capacity st' bl = buffer_capacity st bl" and "sep st' bl = sep st bl"
proof -
  have "mem_capacity st' = mem_capacity st" "mem_array st' = mem_array st"
    using assms by (auto simp: same_shape_def)
  then show "buffer_capacity st' bl = buffer_capacity st bl" "sep st' bl = sep st bl"
    by (simp_all add: buffer_capacity_def sep_def)
qed

text \<open>One step of the resize loop: the block's window is narrowed, every other handle is untouched.\<close>

lemma resize_step:
  assumes "wf_store st" and "wf_mem st m" and "m \<noteq> None" and "off + n \<le> mem_get_size st m"
  shows "\<exists>st'. (if off \<noteq> 0 \<or> n \<noteq> mem_get_size st m then mem_resize st m off n else (Inr (), st)) = (Inr (), st')
           \<and> wf_store st' \<and> (\<forall>m'. wf_mem st' m' = wf_mem st m')
           \<and> mem_bytes st' m = take n (drop off (mem_bytes st m))
           \<and> (\<forall>m'. m' \<noteq> m \<longrightarrow> mem_bytes st' m' = mem_bytes st m' \<and> mem_get_size st' m' = mem_get_size st m')
           \<and> same_shape st st'"
proof (cases "off \<noteq> 0 \<or> n \<noteq> mem_get_size st m")
  case True
  from assms(2,3) obtain i where m: "m = Some i" and i: "i < length (impls st)"
    by (cases m) (auto simp: wf_mem_def)
  define st' where "st' = set_window st i (m_offset (impl_of st i) + off) n"
  have n: "off + n \<le> m_size (impl_of st i)" using assms(4) m by simp
  with wf_storeD(2) [OF assms(1) i]
  have b: "m_offset (impl_of st i) + off + n \<le> base_get_size (base_of st i)" by simp
  have "mem_resize st m off n = (Inr (), st')"
    using b mem_resize_eq [OF assms(1) i, of off n] m by (simp add: st'_def)
  moreover have "wf_store st'" using set_window_wf [OF assms(1) i b] by (simp add: st'_def)
  moreover have "mem_bytes st' m = take n (drop off (mem_bytes st m))"
    using mem_bytes_narrow [OF assms(1) i n] m by (simp add: st'_def)
  ultimately show ?thesis
    using True m set_window_same_shape [of st i]
    by (auto simp: st'_def mem_bytes_set_window_other mem_observers_set_window)
qed (use assms in \<open>auto simp: same_shape_def\<close>)

lemma buffer_bytes_cong:
  "(\<And>m. m \<in> set bl \<Longrightarrow> mem_bytes st' m = mem_bytes st m) \<Longrightarrow> buffer_bytes st' bl = buffer_bytes st bl"
  by (induction bl) auto

lemma buffer_total_cong:
  "(\<And>m. m \<in> set bl \<Longrightarrow> mem_get_size st' m = mem_get_size st m) \<Longrightarrow> buffer_total st' bl = buffer_total st bl"
  by (induction bl) auto

lemma wf_blocks_cong: "(\<And>m. wf_mem st' m = wf_mem st m) \<Longrightarrow> wf_blocks st' bl = wf_blocks st bl"
  by (induction bl) auto

definition resize_result :: "store \<Rightarrow> blocks \<Rightarrow> nat \<Rightarrow> nat \<Rightarrow> store \<Rightarrow> bool" where
  "resize_result st bl off n st' \<longleftrightarrow>
     wf_store st' \<and> (\<forall>m. wf_mem st' m = wf_mem st m)
     \<and> buffer_bytes st' bl = take n (drop off (buffer_bytes st bl)) \<and> same_shape st st'
     \<and> (\<forall>m. m \<notin> set bl \<longrightarrow> mem_bytes st' m = mem_bytes st m \<and> mem_get_size st' m = mem_get_size st m)"

lemma resize_loop_ok:
  assumes "wf_store st" and "wf_blocks st bl" and "distinct bl"
    and "off + n \<le> buffer_total st bl" and "n \<le> SIZE_MAX"
  shows "\<exists>st'. resize_loop st bl off n = (Inr (), st') \<and> resize_result st bl off n st'"
  using assms
proof (induction bl arbitrary: st off n)
  case (Cons m ms)
  define left noffs off' where "left = (if ms = [] then n else if mem_get_size st m \<le> off then 0
      else min (mem_get_size st m - off) n)"
    and "noffs = (if ms \<noteq> [] \<and> mem_get_size st m \<le> off then off - mem_get_size st m else 0)"
    and "off' = (if ms \<noteq> [] \<and> mem_get_size st m \<le> off then 0 else off)"
  note defs = left_def noffs_def off'_def
  have trip: "(if ms = [] then (n, 0, off) else if mem_get_size st m \<le> off then (0, off - mem_get_size st m, 0)
      else (min (mem_get_size st m - off) n, 0, off)) = (left, noffs, off')"
    by (auto simp: defs)
  have m: "wf_mem st m" "m \<noteq> None" "m \<notin> set ms" "wf_blocks st ms" "distinct ms" using Cons.prems by auto
  have fit: "off' + left \<le> mem_get_size st m" using Cons.prems(4) by (auto simp: defs)
  obtain st1 where st1: "(if off' \<noteq> 0 \<or> left \<noteq> mem_get_size st m then mem_resize st m off' left else (Inr (), st)) = (Inr (), st1)"
      "wf_store st1" "\<forall>m'. wf_mem st1 m' = wf_mem st m'"
      "mem_bytes st1 m = take left (drop off' (mem_bytes st m))"
      "\<forall>m'. m' \<noteq> m \<longrightarrow> mem_bytes st1 m' = mem_bytes st m' \<and> mem_get_size st1 m' = mem_get_size st m'"
      "same_shape st st1"
    using resize_step [OF Cons.prems(1) m(1,2) fit] by blast
  have ms: "buffer_bytes st1 ms = buffer_bytes st ms" "buffer_total st1 ms = buffer_total st ms"
    using st1(5) m(3) by (auto intro!: buffer_bytes_cong buffer_total_cong)
  have sub: "sz_sub n left = n - left" "left \<le> n" using Cons.prems(5) by (auto simp: defs size_simps)
  have fits: "noffs + (n - left) \<le> buffer_total st1 ms" "n - left \<le> SIZE_MAX"
    using Cons.prems(4,5) ms by (auto simp: defs)
  have "wf_blocks st1 ms" using st1(3) m(4) wf_blocks_cong [of st1 st ms] by simp
  from Cons.IH [OF st1(2) this m(5) fits]
  obtain st2 where st2: "resize_loop st1 ms noffs (n - left) = (Inr (), st2)"
      "resize_result st1 ms noffs (n - left) st2"
    by blast
  have len: "length (mem_bytes st m) = mem_get_size st m" using Cons.prems(1) m(1) by simp
  have bytes: "take left (drop off' (mem_bytes st m)) @ take (n - left) (drop noffs (buffer_bytes st ms))
      = take n (drop off (mem_bytes st m @ buffer_bytes st ms))"
    using len Cons.prems(4) by (auto simp: defs min_def)
  have eq: "resize_loop st (m # ms) off n = (Inr (), st2)"
    unfolding resize_loop.simps Let_def trip prod.case st1(1) sum.case sub(1) by (rule st2(1))
  have shape: "same_shape st st2" using st1(6) st2(2) by (simp add: resize_result_def same_shape_def)
  from st2(2) have r: "wf_store st2" "\<forall>m. wf_mem st2 m = wf_mem st1 m"
      "buffer_bytes st2 ms = take (n - left) (drop noffs (buffer_bytes st1 ms))"
      "\<forall>m. m \<notin> set ms \<longrightarrow> mem_bytes st2 m = mem_bytes st1 m \<and> mem_get_size st2 m = mem_get_size st1 m"
    unfolding resize_result_def by blast+
  have "buffer_bytes st2 (m # ms) = take n (drop off (buffer_bytes st (m # ms)))"
    using r(3,4) m(3) st1(4) ms(1) bytes by simp
  with r st1 eq m(3) shape show ?case unfolding resize_result_def by (simp del: buffer_bytes_simps)
qed (simp add: resize_result_def same_shape_def)

text \<open>A resize that stays inside the current contents succeeds and selects exactly those bytes.\<close>

lemma buffer_resize_inside:
  assumes ok: "buffer_ok st bl" and d: "distinct bl" and fit: "off + n \<le> buffer_total st bl"
  shows "\<exists>st'. buffer_resize st bl off n = (Inr (), st') \<and> resize_result st bl off n st'"
proof -
  obtain o0 mx where full: "get_size_full st bl = Inr (buffer_total st bl, o0, mx)"
      and b: "o0 + buffer_total st bl \<le> mx" "mx \<le> buffer_capacity st bl"
    using get_size_full_ok [OF ok] by blast
  have wf: "wf_store st" "wf_blocks st bl" and len: "length bl \<le> INT_MAX" and cap: "buffer_capacity st bl \<le> SIZE_MAX"
    using ok by (auto simp: buffer_ok_def)
  have "get_size_range_full st bl 0 (int (length bl)) = get_size_full st bl"
    using len by (simp add: get_size_full_def get_size_range_full_def process_args_all process_args_len)
  with full b fit len have eq: "buffer_resize st bl off n =
      (if off = 0 \<and> n = buffer_total st bl then (Inr (), st) else resize_loop st bl off n)"
    by (auto simp: buffer_resize_def resize_range_checked_def process_args_all range_of_all)
  show ?thesis
  proof (cases "off = 0 \<and> n = buffer_total st bl")
    case True
    with eq wf show ?thesis by (auto simp: resize_result_def same_shape_def)
  next
    case False
    with eq resize_loop_ok [OF wf d fit] fit b cap show ?thesis by auto
  qed
qed

section \<open>Filling\<close>

lemma mem_array_bound:
  "wf_store st \<Longrightarrow> wf_mem st m \<Longrightarrow> mem_array st m = Some a \<Longrightarrow> a < length (arrays st)"
  using const_data_valid [of st m a] by (simp add: fst_const_data)

text \<open>
  What an update of the blocks \<open>bl\<close> guarantees: the result is well-formed and every handle on an
  array of no block keeps its bytes.
\<close>

definition update_frame :: "store \<Rightarrow> blocks \<Rightarrow> store \<Rightarrow> bool" where
  "update_frame st bl st' \<longleftrightarrow> wf_store st' \<and> length (arrays st) \<le> length (arrays st')
     \<and> (\<forall>m. wf_mem st m \<longrightarrow> wf_mem st' m \<and> mem_array st' m = mem_array st m \<and> mem_get_size st' m = mem_get_size st m
          \<and> (mem_array st m \<notin> mem_array st ` set bl \<longrightarrow> mem_bytes st' m = mem_bytes st m))"

lemma map_memory_block_ok:
  assumes "wf_store st" and "wf_mem st m" and "m \<noteq> None"
  shows "\<exists>m' st'. map_memory_block st m mode = (Inr m', st') \<and> store_extends st st' \<and> wf_store st' \<and> wf_mem st' m'
           \<and> mem_bytes st' m' = mem_bytes st m \<and> m' \<noteq> None
           \<and> (mem_array st' m' = mem_array st m \<or> mem_array st' m' = Some (length (arrays st)))
           \<and> (mode = Map_write \<longrightarrow> mem_is_mutable st' m')"
proof (cases "mode = Map_write \<and> \<not> mem_is_mutable st m")
  case True
  then have "map_memory_block st m mode = mem_make_mutable st m" by (simp add: map_memory_block_def)
  with mem_make_mutable_ok [OF assms(1,2)] assms(3) show ?thesis by auto
next
  case False
  with assms show ?thesis by (auto simp: map_memory_block_def)
qed

text \<open>One block is written: the block's bytes change, nothing outside its array does.\<close>

lemma fill_step:
  assumes wf: "wf_store st" "wf_mem st m" "m \<noteq> None" and fits: "off + length bs \<le> mem_get_size st m"
  shows "\<exists>m' st1 a p st2. map_memory_block st m Map_write = (Inr m', st1) \<and> mem_get_data st1 m' = Inr (a, p)
           \<and> st2 = write_ptr st1 (a, p + off) bs \<and> mem_get_size st1 m' = mem_get_size st m
           \<and> update_frame st [m] st2 \<and> wf_mem st2 m' \<and> m' \<noteq> None
           \<and> mem_bytes st2 m' = write_at off bs (mem_bytes st m)
           \<and> (mem_array st2 m' = mem_array st m \<or> mem_array st2 m' = Some (length (arrays st)))
           \<and> (\<forall>m''. wf_mem st m'' \<and> mem_array st m'' \<noteq> mem_array st m \<longrightarrow> mem_array st2 m'' \<noteq> mem_array st2 m')"
proof -
  obtain m' st1 where b: "map_memory_block st m Map_write = (Inr m', st1)" "store_extends st st1"
      "wf_store st1" "wf_mem st1 m'" "mem_bytes st1 m' = mem_bytes st m" "m' \<noteq> None"
      "mem_array st1 m' = mem_array st m \<or> mem_array st1 m' = Some (length (arrays st))" "mem_is_mutable st1 m'"
    using map_memory_block_ok [OF wf, of Map_write] by auto
  obtain a p where d: "mem_get_data st1 m' = Inr (a, p)"
    using mem_get_data_mutable [OF b(6,8)] by fastforce
  have size1: "mem_get_size st1 m' = mem_get_size st m"
    using length_mem_bytes [OF b(3,4)] length_mem_bytes [OF wf(1,2)] b(5) by simp
  have arr: "mem_array st1 m' = a" using mem_get_data_const [OF d] fst_const_data [of st1 m'] by simp
  define st2 where "st2 = write_ptr st1 (a, p + off) bs"
  have "off + length bs \<le> mem_get_size st1 m'" using fits size1 by simp
  note w = write_through [OF b(3,4) d this, folded st2_def]
  have ext: "wf_mem st1 m'' \<and> mem_array st1 m'' = mem_array st m'' \<and> mem_get_size st1 m'' = mem_get_size st m''
      \<and> mem_bytes st1 m'' = mem_bytes st m''" if "wf_mem st m''" for m''
    using that extends_wf_mem [OF b(2)] extends_observers [OF b(2) wf(1)] extends_bytes [OF b(2) wf(1)] by blast
  have neq: "mem_array st1 m'' \<noteq> a" if "wf_mem st m''" "mem_array st m'' \<noteq> mem_array st m" for m''
    using that ext [OF that(1)] b(7) arr mem_array_bound [OF wf(1) that(1)] by auto
  have "update_frame st [m] st2"
    unfolding update_frame_def
  proof (intro conjI allI impI)
    show "wf_store st2" by (rule w(1))
    show "length (arrays st) \<le> length (arrays st2)"
      using b(2) by (auto simp: st2_def store_extends_def)
  qed (use ext w neq in auto)
  with b d size1 w neq arr show ?thesis
    by (metis st2_def)
qed

lemma wf_blocksD: "wf_blocks st bl \<Longrightarrow> m \<in> set bl \<Longrightarrow> wf_mem st m \<and> m \<noteq> None"
  by (simp add: wf_blocks_def list_all_iff)

lemma write_ptr_Nil [simp]: "write_ptr st p [] = st"
  by (cases "(st, p, []::byte list)" rule: write_ptr.cases) auto

lemma update_frame_refl: "wf_store st \<Longrightarrow> update_frame st bl st"
  by (simp add: update_frame_def)

lemma update_frame_trans:
  assumes "update_frame st [m] st1" and "update_frame st1 ms st2" and "wf_blocks st ms"
  shows "update_frame st (m # ms) st2"
  unfolding update_frame_def
proof (intro conjI allI impI)
  show "wf_store st2" "length (arrays st) \<le> length (arrays st2)"
    using assms by (auto simp: update_frame_def)
  have ms: "mem_array st1 x = mem_array st x" if "x \<in> set ms" for x
    using that assms(1,3) by (auto simp: update_frame_def wf_blocks_def list_all_iff)
  fix m' assume m': "wf_mem st m'"
  from assms(1) m' have 1: "wf_mem st1 m'" "mem_array st1 m' = mem_array st m'" "mem_get_size st1 m' = mem_get_size st m'"
    by (auto simp: update_frame_def)
  from assms(2) 1 show "wf_mem st2 m'" "mem_array st2 m' = mem_array st m'" "mem_get_size st2 m' = mem_get_size st m'"
    by (auto simp: update_frame_def)
  assume out: "mem_array st m' \<notin> mem_array st ` set (m # ms)"
  then have "mem_bytes st1 m' = mem_bytes st m'" using assms(1) m' by (auto simp: update_frame_def)
  moreover have "mem_array st1 m' \<notin> mem_array st1 ` set ms" using out 1 ms by auto
  then have "mem_bytes st2 m' = mem_bytes st1 m'" using assms(2) 1 by (auto simp: update_frame_def)
  ultimately show "mem_bytes st2 m' = mem_bytes st m'" by simp
qed

lemma update_frame_blocks:
  assumes "update_frame st [m] st'" and "wf_blocks st ms" and "mem_array st m \<notin> mem_array st ` set ms"
  shows "wf_blocks st' ms" and "buffer_bytes st' ms = buffer_bytes st ms"
    and "buffer_total st' ms = buffer_total st ms" and "sep st' ms = sep st ms"
proof -
  have out: "x \<in> set ms \<Longrightarrow> mem_array st x \<noteq> mem_array st m" for x using assms(3) by (metis imageI)
  have "x \<in> set ms \<Longrightarrow> wf_mem st' x \<and> mem_array st' x = mem_array st x \<and> mem_get_size st' x = mem_get_size st x
      \<and> mem_bytes st' x = mem_bytes st x" for x
    using assms(1) out [of x] wf_blocksD [OF assms(2), of x] unfolding update_frame_def by simp
  then show "buffer_bytes st' ms = buffer_bytes st ms" "buffer_total st' ms = buffer_total st ms"
      "sep st' ms = sep st ms" "wf_blocks st' ms"
    using assms(2) by (auto simp: sep_def wf_blocks_def list_all_iff intro!: buffer_bytes_cong buffer_total_cong
        arg_cong [where f = distinct])
qed

definition fill_result :: "store \<Rightarrow> blocks \<Rightarrow> nat \<Rightarrow> byte list \<Rightarrow> store \<Rightarrow> blocks \<Rightarrow> bool" where
  "fill_result st bl off bs st' bl' \<longleftrightarrow>
     update_frame st bl st' \<and> wf_blocks st' bl' \<and> length bl' = length bl
     \<and> buffer_bytes st' bl' = write_at off bs (buffer_bytes st bl)"

text \<open>The bytes of a block followed by the rest, written from the block on.\<close>

lemma write_at_blocks:
  assumes "length xs = s" and "k = min n (s + length ys - off)" and "n \<le> length src"
    and "j = (if s > off then min (s - off) n else 0)"
  shows "write_at off (take j src) xs
           @ write_at (off - s) (take (min (n - j) (length ys - (off - s))) (drop j src)) ys
         = write_at off (take k src) (xs @ ys)"
proof (cases "s > off")
  case False
  with assms show ?thesis by (simp add: write_at_append_right add.commute)
next
  case in1: True
  show ?thesis
  proof (cases "n \<le> s - off")
    case True
    with in1 assms have "j = n" "k = n" by auto
    with in1 True assms(1,3) show ?thesis by (simp add: write_at_append_left)
  next
    case False
    define r where "r = min (n - j) (length ys)"
    from in1 False assms have j: "j = s - off" and k: "k = j + r" by (auto simp: r_def)
    have "take k src = take j src @ take r (drop j src)" by (simp add: k take_add)
    moreover have "length (take j src) = j" "length (take r (drop j src)) = r"
      using assms(3) False j by (auto simp: r_def)
    ultimately show ?thesis
      using in1 j assms(1) write_at_split [of "take j src" xs off "take r (drop j src)" ys]
      by (simp add: r_def)
  qed
qed

lemma fill_loop_ok:
  assumes "wf_store st" and "wf_blocks st bl" and "sep st bl" and "left \<le> length src"
    and "k = min left (buffer_total st bl - off)"
  shows "\<exists>st' bl'. fill_loop st bl src off left = (Inr (left - k), st', bl')
           \<and> fill_result st bl off (take k src) st' bl'"
  using assms
proof (induction bl arbitrary: st src off left k)
  case (Cons m ms)
  show ?case
  proof (cases "left = 0")
    case True
    with Cons.prems show ?thesis by (auto simp: fill_result_def update_frame_refl)
  next
    case False
    define s j where "s = mem_get_size st m" and "j = (if s > off then min (s - off) left else 0)"
    define o1 where "o1 = (if s > off then off else 0)"
    have m: "wf_mem st m" "m \<noteq> None" "wf_blocks st ms" "mem_array st m \<notin> mem_array st ` set ms" "sep st ms"
      using Cons.prems by (auto simp: sep_def)
    have jl: "j \<le> left" "o1 + length (take j src) \<le> mem_get_size st m"
      by (auto simp: j_def o1_def s_def)
    obtain m' st1 a p st2 where f: "map_memory_block st m Map_write = (Inr m', st1)" "mem_get_data st1 m' = Inr (a, p)"
        "st2 = write_ptr st1 (a, p + o1) (take j src)" "mem_get_size st1 m' = s" "update_frame st [m] st2"
        "wf_mem st2 m'" "m' \<noteq> None" "mem_bytes st2 m' = write_at o1 (take j src) (mem_bytes st m)"
        "\<forall>m''. wf_mem st m'' \<and> mem_array st m'' \<noteq> mem_array st m \<longrightarrow> mem_array st2 m'' \<noteq> mem_array st2 m'"
      using fill_step [OF Cons.prems(1) m(1,2) jl(2)] unfolding s_def by blast
    note ms = update_frame_blocks [OF f(5) m(3,4)]
    have wf2: "wf_store st2" using f(5) by (simp add: update_frame_def)
    define k2 where "k2 = min (left - j) (buffer_total st ms - (off - s))"
    have "left - j \<le> length (drop j src)" using Cons.prems(4) by simp
    from Cons.IH [OF wf2 ms(1) _ this, of k2 "off - s"] ms m(5)
    obtain st3 ms' where i: "fill_loop st2 ms (drop j src) (off - s) (left - j) = (Inr (left - j - k2), st3, ms')"
        "fill_result st2 ms (off - s) (take k2 (drop j src)) st3 ms'"
      unfolding k2_def by auto
    from i(2) have r: "update_frame st2 ms st3" "wf_blocks st3 ms'" "length ms' = length ms"
        "buffer_bytes st3 ms' = write_at (off - s) (take k2 (drop j src)) (buffer_bytes st2 ms)"
      by (auto simp: fill_result_def)
    have "mem_array st2 m' \<notin> mem_array st2 ` set ms"
    proof
      assume "mem_array st2 m' \<in> mem_array st2 ` set ms"
      then obtain x where x: "x \<in> set ms" "mem_array st2 x = mem_array st2 m'" by auto
      with m(4) wf_blocksD [OF m(3)] have "wf_mem st x" "mem_array st x \<noteq> mem_array st m"
        by (auto simp: image_iff)
      with f(9) x(2) show False by blast
    qed
    with r(1) f(6) have m3: "wf_mem st3 m'" "mem_bytes st3 m' = mem_bytes st2 m'"
      unfolding update_frame_def by blast+
    have sum: "left - k = left - j - k2"
      using Cons.prems(5) by (auto simp: k2_def j_def s_def min_def)
    have eq: "fill_loop st (m # ms) src off left = (Inr (left - k), st3, m' # ms')"
      using False f(1,2,4) i(1) sum f(3) by (auto simp: j_def o1_def Let_def)
    have "write_at o1 (take j src) (mem_bytes st m) = write_at off (take j src) (mem_bytes st m)"
      by (auto simp: o1_def j_def)
    then have "buffer_bytes st3 (m' # ms') = write_at off (take j src) (mem_bytes st m)
        @ write_at (off - s) (take k2 (drop j src)) (buffer_bytes st ms)"
      by (simp only: buffer_bytes_simps r(4) m3(2) f(8) ms(2))
    also have "\<dots> = write_at off (take k src) (mem_bytes st m @ buffer_bytes st ms)"
      unfolding k2_def length_buffer_bytes [OF Cons.prems(1) m(3), symmetric]
      using Cons.prems m(1,3) by (intro write_at_blocks) (simp_all add: s_def j_def)
    finally have "buffer_bytes st3 (m' # ms') = write_at off (take k src) (buffer_bytes st (m # ms))"
      by simp
    moreover have "update_frame st (m # ms) st3" using update_frame_trans [OF f(5) r(1) m(3)] .
    ultimately show ?thesis using eq m3 r(2,3) f(7) by (auto simp: fill_result_def simp del: buffer_bytes_simps)
  qed
qed (simp add: fill_result_def update_frame_refl)

lemma buffer_fill_ok:
  assumes "wf_store st" and "wf_blocks st bl" and "sep st bl" and "n \<le> length src"
    and "k = min n (buffer_total st bl - off)"
  shows "\<exists>st' bl'. buffer_fill st bl src off n = (Inr k, st', bl') \<and> fill_result st bl off (take k src) st' bl'"
  using fill_loop_ok [OF assms] assms(5) by (auto simp: buffer_fill_def)

section \<open>Mapping\<close>

lemma update_frame_extend:
  assumes "store_extends st st1" and "wf_store st" and "update_frame st1 [m] st2" and "wf_mem st m"
  shows "update_frame st [m] st2"
  unfolding update_frame_def
proof (intro conjI allI impI)
  show "wf_store st2" "length (arrays st) \<le> length (arrays st2)"
    using assms(1,3) by (auto simp: update_frame_def store_extends_def)
  fix x assume x: "wf_mem st x"
  note e = extends_wf_mem [OF assms(1) x] extends_observers [OF assms(1,2) x] extends_bytes [OF assms(1,2) x]
  from assms(3) e show "wf_mem st2 x" "mem_array st2 x = mem_array st x" "mem_get_size st2 x = mem_get_size st x"
    by (auto simp: update_frame_def)
  assume "mem_array st x \<notin> mem_array st ` set [m]"
  with assms(3) e extends_observers(6) [OF assms(1,2,4)] show "mem_bytes st2 x = mem_bytes st x"
    by (auto simp: update_frame_def)
qed

lemma update_frame_trans1:
  assumes "update_frame st [m] st1" and "update_frame st1 [m] st2" and "wf_mem st m"
  shows "update_frame st [m] st2"
proof -
  have "wf_mem st x \<Longrightarrow> wf_mem st1 x \<and> mem_array st1 x = mem_array st x" for x
    using assms(1) by (simp add: update_frame_def)
  with assms show ?thesis unfolding update_frame_def by force
qed

lemma write_through_frame:
  assumes "wf_store st" and "wf_mem st m" and "mem_get_data st m = Inr (a, p)"
    and "k + length bs \<le> mem_get_size st m"
  shows "update_frame st [m] (write_ptr st (a, p + k) bs)"
proof -
  note w = write_through [OF assms]
  have "mem_array st m = a" using mem_get_data_const [OF assms(3)] fst_const_data [of st m] by simp
  with w show ?thesis by (auto simp: update_frame_def)
qed

lemma map_range_loop_ok:
  assumes "wf_store st" and "wf_blocks st bl" and "wf_mem st res" and "mem_get_data st res = Inr d"
    and "mem_array st res \<noteq> None" and "mem_array st res \<notin> mem_array st ` set bl"
    and "off + buffer_total st bl \<le> mem_get_size st res"
  shows "\<exists>st'. map_range_loop st bl mode res off = (Inr (), st', []) \<and> update_frame st [res] st'
           \<and> mem_bytes st' res = write_at off (buffer_bytes st bl) (mem_bytes st res)
           \<and> mem_get_data st' res = Inr d"
  using assms
proof (induction bl arbitrary: st off)
  case Nil
  then show ?case by (simp add: update_frame_refl)
next
  case (Cons m ms)
  obtain a p where d: "d = (a, p)" by fastforce
  have m: "wf_mem st m" "m \<noteq> None" "wf_blocks st ms" using Cons.prems by auto
  obtain m' st1 where b: "map_memory_block st m mode = (Inr m', st1)" "store_extends st st1"
      "wf_store st1" "wf_mem st1 m'" "mem_bytes st1 m' = mem_bytes st m"
    using map_memory_block_ok [OF Cons.prems(1) m(1,2), of mode] by blast
  note e = extends_wf_mem [OF b(2) Cons.prems(3)] extends_observers [OF b(2) Cons.prems(1,3)]
    extends_bytes [OF b(2) Cons.prems(1,3)]
  have len: "mem_get_size st1 m' = mem_get_size st m" "length (mem_bytes st m) = mem_get_size st m"
    using length_mem_bytes [OF b(3,4)] length_mem_bytes [OF Cons.prems(1) m(1)] b(5) by auto
  define st2 where "st2 = write_ptr st1 (a, p + off) (mem_bytes st m)"
  have d1: "mem_get_data st1 res = Inr (a, p)" using e Cons.prems(4) d by simp
  have fit: "off + length (mem_bytes st m) \<le> mem_get_size st1 res" using Cons.prems(7) e len by simp
  note w = write_through [OF b(3) e(1) d1 fit, folded st2_def]
  have uf: "update_frame st [res] st2"
    using update_frame_extend [OF b(2) Cons.prems(1) _ Cons.prems(3)] write_through_frame [OF b(3) e(1) d1 fit]
    unfolding st2_def by blast
  have "mem_array st res \<notin> mem_array st ` set ms" using Cons.prems(6) by auto
  note ms = update_frame_blocks [OF uf m(3) this]
  have arr: "mem_array st2 res = mem_array st res" using w(6) e by simp
  moreover have "mem_array st2 ` set ms = mem_array st ` set ms"
    using uf wf_blocksD [OF m(3)] unfolding update_frame_def by auto
  ultimately have "mem_array st2 res \<notin> mem_array st2 ` set ms" using Cons.prems(6) by auto
  with Cons.IH [of st2 "off + mem_get_size st m"] w e ms arr Cons.prems(4,5,7)
  obtain st3 where i: "map_range_loop st2 ms mode res (off + mem_get_size st m) = (Inr (), st3, [])"
      "update_frame st2 [res] st3" "mem_get_data st3 res = Inr d"
      "mem_bytes st3 res = write_at (off + mem_get_size st m) (buffer_bytes st2 ms) (mem_bytes st2 res)"
    by auto
  have "off + mem_get_size st m \<le> SIZE_MAX"
    using Cons.prems(7) mem_get_size_bound [OF Cons.prems(1,3)] by simp
  then have "map_range_loop st (m # ms) mode res off = (Inr (), st3, [])"
    using b(1,5) d1 i(1) len st2_def by (simp add: Let_def size_simps mem_bytes_def)
  moreover have "length (mem_bytes st res) = mem_get_size st res" using Cons.prems by simp
  then have "mem_bytes st3 res = write_at off (buffer_bytes st (m # ms)) (mem_bytes st res)"
    using i(4) w(2) e ms(2) len Cons.prems(7) length_buffer_bytes [OF Cons.prems(1) m(3)]
    by (simp add: write_at_def drop_take ac_simps)
  ultimately show ?case using i(2,3) update_frame_trans1 [OF uf i(2) Cons.prems(3)] by blast
qed

definition map_result :: "store \<Rightarrow> blocks \<Rightarrow> map_mode \<Rightarrow> store \<Rightarrow> memory \<Rightarrow> bool" where
  "map_result st bl mode st' m \<longleftrightarrow>
     wf_store st' \<and> wf_mem st' m \<and> mem_bytes st' m = buffer_bytes st bl
     \<and> (mode = Map_write \<longrightarrow> mem_is_mutable st' m)
     \<and> (\<forall>m'. wf_mem st m' \<longrightarrow> wf_mem st' m' \<and> mem_bytes st' m' = mem_bytes st m')"

lemma buffer_map_ok:
  assumes ok: "buffer_ok st bl" and ne: "bl \<noteq> []"
  shows "\<exists>m st'. buffer_map st bl mode = (Inr m, st', [m]) \<and> map_result st bl mode st' m"
proof (cases "length bl = 1")
  case True
  then obtain b where bl: "bl = [b]" by (auto simp: length_Suc_conv)
  have wf: "wf_store st" "wf_mem st b" "b \<noteq> None" and len: "length bl \<le> INT_MAX"
    using ok by (auto simp: buffer_ok_def bl)
  from map_memory_block_ok [OF wf, of mode] obtain m st' where
      m: "map_memory_block st b mode = (Inr m, st')" "store_extends st st'" "wf_store st'" "wf_mem st' m"
      "mem_bytes st' m = mem_bytes st b" "mode = Map_write \<longrightarrow> mem_is_mutable st' m" by blast
  have "map_result st bl mode st' m"
    using m extends_wf_mem [OF m(2)] extends_bytes [OF m(2) wf(1)] by (simp add: map_result_def bl)
  then show ?thesis using m(1) bl len process_args_all [of bl]
    by (auto simp: buffer_map_def map_range_def)
next
  case False
  have wf: "wf_store st" "wf_blocks st bl" and len: "length bl \<le> INT_MAX" and cap: "buffer_capacity st bl \<le> SIZE_MAX"
    using ok by (auto simp: buffer_ok_def)
  have tot: "buffer_total st bl \<le> SIZE_MAX" using buffer_total_le_capacity [OF wf] cap by simp
  obtain res st1 where al: "make_memory_allocated st (buffer_total st bl) = (res, st1)" by fastforce
  note new = make_memory_allocated_spec [OF al] and ext = make_memory_allocated_extends [OF al]
  from make_memory_allocated_wf [OF wf(1) tot al] have wf1: "wf_store st1" "wf_mem st1 res" by auto
  note bl1 = extends_blocks [OF ext wf]
  have fresh: "mem_array st1 x \<noteq> mem_array st1 res" if "wf_mem st x" for x
    using mem_array_bound [OF wf(1) that] extends_observers(6) [OF ext wf(1) that] new(5) by auto
  then have "mem_array st1 res \<notin> mem_array st1 ` set bl"
    using wf_blocksD [OF wf(2)] by (metis imageE)
  from map_range_loop_ok [OF wf1(1) bl1(2) wf1(2) new(6) _ this, of 0 mode] new(3,5) bl1(3)
  obtain st2 where l: "map_range_loop st1 bl mode res 0 = (Inr (), st2, [])" "update_frame st1 [res] st2"
      "mem_bytes st2 res = write_at 0 (buffer_bytes st1 bl) (mem_bytes st1 res)"
      "mem_get_data st2 res = Inr (Some (length (arrays st)), 0)" by auto
  have "get_size_range st bl 0 (int (length bl)) = Inr (buffer_total st bl)"
    using get_size_ok [OF ok] len by (simp add: get_size_def get_size_range_def process_args_all process_args_len)
  with False ne len al l(1) have "buffer_map st bl mode = (Inr res, st2, [res])"
    by (simp add: buffer_map_def map_range_def process_args_all range_of_all)
  moreover have "mem_bytes st2 res = buffer_bytes st bl"
    using l(3) bl1(1) new(2) wf by (simp add: write_at_def)
  moreover have "mem_is_mutable st2 res" using l(4) new(1) mem_get_data_error [of res st2] by auto
  moreover have "wf_mem st2 m' \<and> mem_bytes st2 m' = mem_bytes st m'" if "wf_mem st m'" for m'
    using l(2) extends_wf_mem [OF ext that] extends_bytes [OF ext wf(1) that] fresh [OF that]
    unfolding update_frame_def by simp
  ultimately show ?thesis using l(2) wf1(2) by (auto simp: map_result_def update_frame_def)
qed

section \<open>Copies\<close>

lemma make_buffer_allocated_eq:
  "make_memory_allocated st n = (m, st') \<Longrightarrow> make_buffer_allocated st n = (Inr [m], st')"
  by (auto simp: make_buffer_allocated_def buffer_append_def insert_memory_def make_memory_allocated_def)

text \<open>A copy is a fresh one-block buffer with the selected bytes; no existing handle changes.\<close>

lemma buffer_copy_ok:
  assumes ok: "buffer_ok st bl" and fit: "off + n \<le> buffer_total st bl"
  shows "\<exists>m st'. buffer_copy st bl off n = (Inr [m], st') \<and> wf_store st' \<and> wf_mem st' m
           \<and> mem_bytes st' m = take n (drop off (buffer_bytes st bl))
           \<and> mem_is_mutable st' m \<and> mem_array st' m = Some (length (arrays st))
           \<and> (\<forall>m'. wf_mem st m' \<longrightarrow> wf_mem st' m' \<and> mem_bytes st' m' = mem_bytes st m')"
proof -
  have wf: "wf_store st" "wf_blocks st bl" and cap: "buffer_capacity st bl \<le> SIZE_MAX"
    using ok by (auto simp: buffer_ok_def)
  have n: "n \<le> SIZE_MAX" using fit buffer_total_le_capacity [OF wf] cap by simp
  obtain m st1 where al: "make_memory_allocated st n = (m, st1)" by fastforce
  note new = make_memory_allocated_spec [OF al] and ext = make_memory_allocated_extends [OF al]
  from make_memory_allocated_wf [OF wf(1) n al] have wf1: "wf_store st1" "wf_mem st1 m" by auto
  note bl1 = extends_blocks [OF ext wf]
  define bs where "bs = take n (drop off (buffer_bytes st bl))"
  have len: "length bs = n" using fit wf by (simp add: bs_def)
  define st2 where "st2 = write_ptr st1 (Some (length (arrays st)), 0 + 0) bs"
  have fit1: "0 + length bs \<le> mem_get_size st1 m" using new(3) len by simp
  note w = write_through [OF wf1 new(6) fit1, folded st2_def]
  have "buffer_map st1 [m] Map_write = (Inr m, st1, [m])"
    using new(4) by (simp add: buffer_map_def map_range_def process_args_def map_memory_block_def INT_MAX_def)
  then have "buffer_copy st bl off n = (Inr [m], st2)"
    using fit get_size_ok [OF ok] make_buffer_allocated_eq [OF al] new(6)
      buffer_extract_spec [OF wf1(1) bl1(2)] bl1(1)
    by (simp add: buffer_copy_def st2_def bs_def)
  moreover have "mem_bytes st2 m = bs"
    using w(2) new(2) len by (simp add: write_at_def)
  moreover have "wf_mem st2 m' \<and> mem_bytes st2 m' = mem_bytes st m'" if "wf_mem st m'" for m'
  proof -
    have "mem_array st1 m' \<noteq> Some (length (arrays st))"
      using mem_array_bound [OF wf(1) that] extends_observers(6) [OF ext wf(1) that] by auto
    then show ?thesis
      using w(3,8) extends_wf_mem [OF ext that] extends_bytes [OF ext wf(1) that] by simp
  qed
  ultimately show ?thesis using w(1,6,7,8) wf1(2) new(4,5) unfolding bs_def by auto
qed

lemma buffer_copy_error:
  "buffer_ok st bl \<Longrightarrow> buffer_total st bl < off + n \<Longrightarrow> buffer_copy st bl off n = (Inl Invalid_size, st)"
  by (simp add: buffer_copy_def get_size_ok) arith

section \<open>Resetting the windows\<close>

text \<open>After \<open>reset_size\<close> the contents are the whole capacity and every window starts at offset zero.\<close>

lemma mem_reset_size_ok:
  assumes "wf_store st" and "wf_mem st m" and "m \<noteq> None"
  shows "wf_store (mem_reset_size st m)" and "wf_mem (mem_reset_size st m) x = wf_mem st x"
    and "mem_get_size_full (mem_reset_size st m) m = (mem_capacity st m, 0, mem_capacity st m)"
    and "x \<noteq> m \<Longrightarrow> mem_get_size_full (mem_reset_size st m) x = mem_get_size_full st x"
    and "mem_capacity (mem_reset_size st m) x = mem_capacity st x"
    and "mem_array (mem_reset_size st m) x = mem_array st x"
    and "mem_is_mutable (mem_reset_size st m) x = mem_is_mutable st x"
proof -
  from assms(2,3) obtain i where m: "m = Some i" and i: "i < length (impls st)"
    by (cases m) (auto simp: wf_mem_def)
  note eq = mem_reset_size_eq [of st i]
  show "wf_store (mem_reset_size st m)"
    unfolding m eq using assms(1) i by (intro set_window_wf) auto
  show "wf_mem (mem_reset_size st m) x = wf_mem st x" unfolding m eq by simp
  have cap: "mem_capacity (mem_reset_size st m) x = mem_capacity st x" for x
    unfolding m eq mem_capacity_def by (cases x) auto
  show "mem_capacity (mem_reset_size st m) x = mem_capacity st x" by (rule cap)
  show "mem_get_size_full (mem_reset_size st m) m = (mem_capacity st m, 0, mem_capacity st m)"
    using i unfolding m eq mem_capacity_def by simp
  show "x \<noteq> m \<Longrightarrow> mem_get_size_full (mem_reset_size st m) x = mem_get_size_full st x"
    unfolding m eq by (rule mem_observers_set_window)
  show "mem_array (mem_reset_size st m) x = mem_array st x"
      "mem_is_mutable (mem_reset_size st m) x = mem_is_mutable st x"
    unfolding m eq by (rule mem_observers_set_window)+
qed

lemma mem_reset_size_shape: "wf_store st \<Longrightarrow> wf_mem st m \<Longrightarrow> m \<noteq> None \<Longrightarrow> same_shape st (mem_reset_size st m)"
  using mem_reset_size_ok [of st m] by (simp add: same_shape_def)

lemma buffer_reset_size_ok:
  assumes "wf_store st" and "wf_blocks st bl"
  shows "wf_store (buffer_reset_size st bl)" and "wf_mem (buffer_reset_size st bl) x = wf_mem st x"
    and "same_shape st (buffer_reset_size st bl)"
    and "x \<notin> set bl \<Longrightarrow> mem_get_size_full (buffer_reset_size st bl) x = mem_get_size_full st x"
    and "x \<in> set bl \<Longrightarrow> mem_get_size_full (buffer_reset_size st bl) x = (mem_capacity st x, 0, mem_capacity st x)"
proof -
  have "wf_store (buffer_reset_size st bl) \<and> (\<forall>x. wf_mem (buffer_reset_size st bl) x = wf_mem st x)
      \<and> same_shape st (buffer_reset_size st bl)
      \<and> (\<forall>x. x \<notin> set bl \<longrightarrow> mem_get_size_full (buffer_reset_size st bl) x = mem_get_size_full st x)
      \<and> (\<forall>x. x \<in> set bl \<longrightarrow> mem_get_size_full (buffer_reset_size st bl) x = (mem_capacity st x, 0, mem_capacity st x))"
    using assms
  proof (induction bl arbitrary: st)
    case (Cons m ms)
    have m: "wf_mem st m" "m \<noteq> None" "wf_blocks st ms" using Cons.prems by auto
    define st1 where "st1 = mem_reset_size st m"
    note r = mem_reset_size_ok [OF Cons.prems(1) m(1,2), folded st1_def]
    have shape: "same_shape st st1" unfolding st1_def by (rule mem_reset_size_shape [OF Cons.prems(1) m(1,2)])
    have "wf_blocks st1 ms" using m(3) r(2) wf_blocks_cong by blast
    note i = Cons.IH [OF r(1) this]
    have eq: "buffer_reset_size st (m # ms) = buffer_reset_size st1 ms"
      by (simp add: buffer_reset_size_def st1_def)
    have "same_shape st (buffer_reset_size st1 ms)" using shape i by (simp add: same_shape_def)
    then show ?case unfolding eq using i r shape by (auto simp: same_shape_def)
  qed (simp add: buffer_reset_size_def same_shape_def)
  then show "wf_store (buffer_reset_size st bl)" "wf_mem (buffer_reset_size st bl) x = wf_mem st x"
      "same_shape st (buffer_reset_size st bl)"
      "x \<notin> set bl \<Longrightarrow> mem_get_size_full (buffer_reset_size st bl) x = mem_get_size_full st x"
      "x \<in> set bl \<Longrightarrow> mem_get_size_full (buffer_reset_size st bl) x = (mem_capacity st x, 0, mem_capacity st x)"
    by blast+
qed

lemma buffer_reset_size_total:
  assumes "buffer_ok st bl"
  shows "buffer_ok (buffer_reset_size st bl) bl"
    and "buffer_total (buffer_reset_size st bl) bl = buffer_capacity st bl"
    and "buffer_capacity (buffer_reset_size st bl) bl = buffer_capacity st bl"
proof -
  have wf: "wf_store st" "wf_blocks st bl" using assms by (auto simp: buffer_ok_def)
  note r = buffer_reset_size_ok [OF wf]
  show cap: "buffer_capacity (buffer_reset_size st bl) bl = buffer_capacity st bl"
    by (rule same_shape_blocks [OF r(3)])
  have wfb: "wf_blocks (buffer_reset_size st bl) bl" using wf(2) r(2) wf_blocks_cong by blast
  with assms cap r(1) show "buffer_ok (buffer_reset_size st bl) bl" by (simp add: buffer_ok_def)
  have "mem_get_size (buffer_reset_size st bl) m = mem_capacity st m" if "m \<in> set bl" for m
  proof -
    have "wf_mem (buffer_reset_size st bl) m" using wfb that wf_blocksD by blast
    from mem_get_size_full_wf(3) [OF r(1) this r(5) [OF that]] show ?thesis .
  qed
  then show "buffer_total (buffer_reset_size st bl) bl = buffer_capacity st bl"
    unfolding buffer_total_def buffer_capacity_def by (metis (no_types, lifting) map_eq_conv)
qed

section \<open>Scattered writes\<close>

text \<open>
  What a transport read does with the mutable sequence of a buffer: the bytes received so far fill the
  regions in order.
\<close>

fun scatter :: "store \<Rightarrow> (ptr \<times> nat) list \<Rightarrow> byte list \<Rightarrow> store" where
  "scatter st [] bs = st"
| "scatter st ((d, n) # ps) bs = scatter (write_ptr st d (take n bs)) ps (drop n bs)"

definition gather :: "store \<Rightarrow> (ptr \<times> nat) list \<Rightarrow> byte list" where
  "gather st ps = concat (map (\<lambda>(d, n). read_ptr st d n) ps)"

lemma gather_const_sequence: "gather st (const_memory_sequence st bl) = buffer_bytes st bl"
  unfolding gather_def const_memory_sequence_def buffer_bytes_def
  by (induction bl) (simp_all add: mem_bytes_def)

definition all_mutable :: "store \<Rightarrow> blocks \<Rightarrow> bool" where
  "all_mutable st bl \<longleftrightarrow> list_all (mem_is_mutable st) bl"

lemma mutable_sequence_cong:
  "(\<And>m. mem_get_data st' m = mem_get_data st m) \<Longrightarrow> (\<And>m. mem_get_size st' m = mem_get_size st m) \<Longrightarrow>
   mutable_memory_sequence st' bl = mutable_memory_sequence st bl"
  by (induction bl) (simp_all split: sum.splits)

lemma mutable_sequence_ok:
  "wf_blocks st bl \<Longrightarrow> all_mutable st bl \<Longrightarrow> \<exists>ps. mutable_memory_sequence st bl = Inr ps"
proof (induction bl)
  case (Cons m ms)
  then obtain p where "mem_get_data st m = Inr p" using mem_get_data_mutable [of m st] by (auto simp: all_mutable_def)
  with Cons show ?case by (auto simp: all_mutable_def)
qed simp

text \<open>A block list with one read-only block cannot be read into.\<close>

lemma mutable_sequence_error:
  "wf_blocks st bl \<Longrightarrow> \<not> all_mutable st bl \<Longrightarrow> mutable_memory_sequence st bl = Inl Object_not_writable"
proof (induction bl)
  case (Cons m ms)
  show ?case
  proof (cases "mem_is_mutable st m")
    case True
    then obtain p where "mem_get_data st m = Inr p" using Cons.prems mem_get_data_mutable [of m st] by auto
    with Cons True show ?thesis by (auto simp: all_mutable_def)
  next
    case False
    with Cons.prems mem_get_data_error [of m st] show ?thesis by auto
  qed
qed (simp add: all_mutable_def)

lemma scatter_ok:
  assumes "wf_store st" and "wf_blocks st bl" and "sep st bl" and "mutable_memory_sequence st bl = Inr ps"
    and "length bs = buffer_total st bl"
  shows "update_frame st bl (scatter st ps bs)" and "buffer_bytes (scatter st ps bs) bl = bs"
proof -
  have "update_frame st bl (scatter st ps bs) \<and> buffer_bytes (scatter st ps bs) bl = bs"
    using assms
  proof (induction bl arbitrary: st ps bs)
    case (Cons m ms)
    define n where "n = mem_get_size st m"
    from Cons.prems(4) obtain a p ps' where d: "mem_get_data st m = Inr (a, p)" "ps = ((a, p), n) # ps'"
        "mutable_memory_sequence st ms = Inr ps'"
      by (auto simp: n_def split: sum.splits)
    have m: "wf_mem st m" "wf_blocks st ms" "mem_array st m \<notin> mem_array st ` set ms" "sep st ms"
      using Cons.prems by (auto simp: sep_def)
    define st1 where "st1 = write_ptr st (a, p + 0) (take n bs)"
    have fit: "0 + length (take n bs) \<le> mem_get_size st m" by (simp add: n_def)
    note w = write_through [OF Cons.prems(1) m(1) d(1) fit, folded st1_def]
    have uf: "update_frame st [m] st1" unfolding st1_def by (rule write_through_frame [OF Cons.prems(1) m(1) d(1) fit])
    note ms = update_frame_blocks [OF uf m(2,3)]
    have seq: "mutable_memory_sequence st1 ms = Inr ps'" using d(3) mutable_sequence_cong [of st1 st ms] w(4,5) by simp
    have len: "length (drop n bs) = buffer_total st1 ms" using Cons.prems(5) ms(3) by (simp add: n_def)
    from Cons.IH [OF w(1) ms(1) _ seq len] ms(4) m(4)
    have i: "update_frame st1 ms (scatter st1 ps' (drop n bs))" "buffer_bytes (scatter st1 ps' (drop n bs)) ms = drop n bs"
      by auto
    have eq: "scatter st ps bs = scatter st1 ps' (drop n bs)" by (simp add: d(2) st1_def)
    have arr: "mem_array st1 x = mem_array st x" for x by (rule w(6))
    have "mem_bytes (scatter st1 ps' (drop n bs)) m = mem_bytes st1 m"
      using i(1) w(8) m(1,3) arr unfolding update_frame_def by auto
    moreover have "length bs \<ge> n" using Cons.prems(5) by (simp add: n_def)
    then have "mem_bytes st1 m = take n bs"
      using w(2) Cons.prems(1) m(1) by (simp add: write_at_def n_def)
    ultimately show ?case unfolding eq using i update_frame_trans [OF uf i(1) m(2)] by simp
  qed (simp add: update_frame_refl)
  then show "update_frame st bl (scatter st ps bs)" "buffer_bytes (scatter st ps bs) bl = bs" by auto
qed

lemma same_shape_trans: "same_shape s t \<Longrightarrow> same_shape t u \<Longrightarrow> same_shape s u"
  by (simp add: same_shape_def)

lemma write_ptr_same_shape: "same_shape st (write_ptr st p bs)"
  unfolding same_shape_def
proof (intro allI conjI)
  fix m
  show "mem_array (write_ptr st p bs) m = mem_array st m" "mem_is_mutable (write_ptr st p bs) m = mem_is_mutable st m"
      "mem_capacity (write_ptr st p bs) m = mem_capacity st m"
    by (cases m; simp add: mem_capacity_def)+
qed

lemma scatter_same_shape: "same_shape st (scatter st ps bs)"
proof (induction st ps bs rule: scatter.induct)
  case (2 st d n ps bs)
  then show ?case using same_shape_trans write_ptr_same_shape by fastforce
qed (simp add: same_shape_def)

section \<open>Buffers to receive into\<close>

text \<open>Addressable, writable, with separate blocks: what a receive operation needs of its buffer.\<close>

definition recv_ready :: "store \<Rightarrow> blocks \<Rightarrow> bool" where
  "recv_ready st bl \<longleftrightarrow> buffer_ok st bl \<and> sep st bl \<and> all_mutable st bl"

lemma sep_distinct: "sep st bl \<Longrightarrow> distinct bl"
  by (simp add: sep_def distinct_map)

lemma recv_ready_shape:
  assumes "recv_ready st bl" and "same_shape st st'" and "wf_store st'" and "wf_blocks st' bl"
  shows "recv_ready st' bl"
proof -
  have "mem_is_mutable st' = mem_is_mutable st" using assms(2) by (auto simp: same_shape_def)
  with assms show ?thesis
    by (simp add: recv_ready_def buffer_ok_def same_shape_blocks [OF assms(2)] all_mutable_def)
qed

lemma recv_ready_reset:
  assumes "recv_ready st bl"
  shows "recv_ready (buffer_reset_size st bl) bl"
    and "buffer_total (buffer_reset_size st bl) bl = buffer_capacity st bl"
    and "buffer_capacity (buffer_reset_size st bl) bl = buffer_capacity st bl"
proof -
  have ok: "buffer_ok st bl" using assms by (simp add: recv_ready_def)
  then have wf: "wf_store st" "wf_blocks st bl" by (auto simp: buffer_ok_def)
  have "buffer_ok (buffer_reset_size st bl) bl" by (rule buffer_reset_size_total [OF ok])
  then show "recv_ready (buffer_reset_size st bl) bl"
    using recv_ready_shape [OF assms buffer_reset_size_ok(3) [OF wf]] by (simp add: buffer_ok_def)
qed (use assms buffer_reset_size_total in \<open>auto simp: recv_ready_def\<close>)

text \<open>Narrowing a reset buffer to \<open>n\<close> bytes and receiving exactly \<open>n\<close> bytes leaves those bytes as contents.\<close>

lemma set_size_scatter:
  assumes r: "recv_ready st bl" and n: "length bs \<le> buffer_total st bl"
  shows "\<exists>st1 ps. buffer_set_size st bl (length bs) = (Inr (), st1) \<and> mutable_memory_sequence st1 bl = Inr ps
           \<and> sum_list (map snd ps) = length bs \<and> buffer_bytes (scatter st1 ps bs) bl = bs
           \<and> recv_ready (scatter st1 ps bs) bl \<and> buffer_capacity (scatter st1 ps bs) bl = buffer_capacity st bl"
proof -
  have ok: "buffer_ok st bl" and sep: "sep st bl" and mut: "all_mutable st bl" using r by (auto simp: recv_ready_def)
  have wf: "wf_store st" "wf_blocks st bl" using ok by (auto simp: buffer_ok_def)
  from buffer_resize_inside [OF ok sep_distinct [OF sep], of 0 "length bs"] n
  obtain st1 where st1: "buffer_set_size st bl (length bs) = (Inr (), st1)" "resize_result st bl 0 (length bs) st1"
    by (auto simp: buffer_set_size_def)
  have s1: "wf_store st1" "\<forall>m. wf_mem st1 m = wf_mem st m" "same_shape st st1"
      "buffer_bytes st1 bl = take (length bs) (buffer_bytes st bl)"
    using st1(2) by (auto simp: resize_result_def)
  have wfb: "wf_blocks st1 bl" using wf(2) s1(2) wf_blocks_cong by blast
  have tot: "buffer_total st1 bl = length bs"
    using length_buffer_bytes [OF s1(1) wfb] length_buffer_bytes [OF wf] s1(4) n by simp
  have r1: "recv_ready st1 bl" by (rule recv_ready_shape [OF r s1(3,1) wfb])
  then obtain ps where ps: "mutable_memory_sequence st1 bl = Inr ps"
    using mutable_sequence_ok [OF wfb] by (auto simp: recv_ready_def)
  have "sep st1 bl" using r1 by (simp add: recv_ready_def)
  note sc = scatter_ok [OF s1(1) wfb this ps tot [symmetric]]
  have "wf_blocks (scatter st1 ps bs) bl"
    using sc(1) wfb wf_blocksD [OF wfb] unfolding update_frame_def wf_blocks_def list_all_iff by blast
  with sc(1) have r2: "recv_ready (scatter st1 ps bs) bl"
    using recv_ready_shape [OF r1 scatter_same_shape] by (auto simp: update_frame_def)
  have "sum_list (map snd ps) = buffer_total st1 bl"
    using ps by (induction bl arbitrary: ps) (auto split: sum.splits)
  moreover have "buffer_capacity (scatter st1 ps bs) bl = buffer_capacity st bl"
    using same_shape_blocks [OF scatter_same_shape] same_shape_blocks [OF s1(3)] by simp
  ultimately show ?thesis using st1(1) ps sc(2) r2 tot by auto
qed

lemma buffer_capacity_append [simp]: "buffer_capacity st (xs @ ys) = buffer_capacity st xs + buffer_capacity st ys"
  by (simp add: buffer_capacity_def)

lemma recv_ready_append:
  assumes r: "recv_ready st bl" and full: "buffer_total st bl = buffer_capacity st bl"
    and cap: "buffer_capacity st bl + k \<le> SIZE_MAX" and len: "length bl < INT_MAX"
    and al: "make_memory_allocated st k = (m, st')"
  shows "recv_ready st' (bl @ [m])" and "buffer_total st' (bl @ [m]) = buffer_capacity st bl + k"
    and "buffer_capacity st' (bl @ [m]) = buffer_capacity st bl + k"
proof -
  have wf: "wf_store st" "wf_blocks st bl" using r by (auto simp: recv_ready_def buffer_ok_def)
  note new = make_memory_allocated_spec [OF al] and ext = make_memory_allocated_extends [OF al]
  have "k \<le> SIZE_MAX" using cap by simp
  from make_memory_allocated_wf [OF wf(1) this al] have wf1: "wf_store st'" "wf_mem st' m" by auto
  note bl = extends_blocks [OF ext wf]
  have obs: "mem_capacity st' x = mem_capacity st x \<and> mem_is_mutable st' x = mem_is_mutable st x \<and> mem_array st' x \<noteq> mem_array st' m"
    if "x \<in> set bl" for x
  proof -
    have x: "wf_mem st x" using wf_blocksD [OF wf(2) that] by blast
    then show ?thesis
      using extends_observers [OF ext wf(1) x] mem_array_bound [OF wf(1) x] new(5) by (auto simp: mem_capacity_def)
  qed
  have capbl: "buffer_capacity st' bl = buffer_capacity st bl"
    using obs unfolding buffer_capacity_def by (metis (no_types, lifting) map_eq_conv)
  have capm: "mem_capacity st' m = k" using new(7) by (simp add: mem_capacity_def)
  show tot: "buffer_total st' (bl @ [m]) = buffer_capacity st bl + k" using bl(3) new(3) full by simp
  show c: "buffer_capacity st' (bl @ [m]) = buffer_capacity st bl + k" using capbl capm by simp
  have "distinct (map (mem_array st') bl)" unfolding bl(4) using r by (simp add: recv_ready_def sep_def)
  moreover have "mem_array st' m \<notin> mem_array st' ` set bl" using obs by (metis imageE)
  ultimately have "sep st' (bl @ [m])" by (simp add: sep_def)
  moreover have "all_mutable st' (bl @ [m])"
    using r obs new(4) by (auto simp: recv_ready_def all_mutable_def list_all_iff)
  moreover have "buffer_ok st' (bl @ [m])"
    using wf1 bl(2) new(1) c cap len by (simp add: buffer_ok_def)
  ultimately show "recv_ready st' (bl @ [m])" by (simp add: recv_ready_def)
qed

lemma recv_ready_Nil: "wf_store st \<Longrightarrow> recv_ready st [] \<and> buffer_capacity st [] = 0"
  by (simp add: recv_ready_def buffer_ok_def sep_def all_mutable_def)

section \<open>Blocks for the witnesses\<close>

definition w_block :: "memory \<times> store" where
  "w_block = make_memory_allocated empty_store 4"

lemma w_block_ready:
  "recv_ready (snd w_block) [fst w_block]" "buffer_total (snd w_block) [fst w_block] = 4"
  "buffer_capacity (snd w_block) [fst w_block] = 4" "buffer_bytes (snd w_block) [fst w_block] = [0, 0, 0, 0]"
proof -
  obtain m st where al: "make_memory_allocated empty_store 4 = (m, st)" by fastforce
  then have w: "w_block = (m, st)" by (simp add: w_block_def)
  have r: "recv_ready empty_store []" "buffer_capacity empty_store [] = 0" "buffer_total empty_store [] = 0"
    using recv_ready_Nil [OF empty_store_wf] by auto
  from recv_ready_append [OF r(1) _ _ _ al] r
  show "recv_ready (snd w_block) [fst w_block]" "buffer_total (snd w_block) [fst w_block] = 4"
      "buffer_capacity (snd w_block) [fst w_block] = 4"
    by (simp_all add: w SIZE_MAX_def INT_MAX_def)
  show "buffer_bytes (snd w_block) [fst w_block] = [0, 0, 0, 0]"
    using make_memory_allocated_spec(2) [OF al] by (simp add: w numeral_eq_Suc)
qed

section \<open>Properties\<close>

text \<open>
  C33: filling a buffer and reading it back. On well-formed blocks that lie in pairwise different
  arrays, a fill that fits reports all bytes written, extraction at the same place returns exactly those
  bytes, every other byte of the buffer keeps its value, and a handle on an array of no block of the
  buffer is not affected, even where read-only blocks had to be replaced by copies.
\<close>

theorem fill_extract_round_trip:
  assumes "wf_store st" and "wf_blocks st bl" and "sep st bl" and "n \<le> length src" and "off + n \<le> buffer_total st bl"
  shows "\<exists>st' bl'. buffer_fill st bl src off n = (Inr n, st', bl') \<and> buffer_extract st' bl' off n = (take n src, n)
           \<and> buffer_bytes st' bl' = take off (buffer_bytes st bl) @ take n src @ drop (off + n) (buffer_bytes st bl)
           \<and> (\<forall>m. wf_mem st m \<and> mem_array st m \<notin> mem_array st ` set bl \<longrightarrow> mem_bytes st' m = mem_bytes st m)"
proof -
  have k: "n = min n (buffer_total st bl - off)" using assms(5) by simp
  from buffer_fill_ok [OF assms(1-4) k] obtain st' bl' where
    f: "buffer_fill st bl src off n = (Inr n, st', bl')" "fill_result st bl off (take n src) st' bl'" by blast
  then have r: "wf_store st'" "wf_blocks st' bl'" "buffer_bytes st' bl' = write_at off (take n src) (buffer_bytes st bl)"
      "update_frame st bl st'"
    by (auto simp: fill_result_def update_frame_def)
  have len: "length (buffer_bytes st bl) = buffer_total st bl" using assms(1,2) by simp
  have "buffer_total st' bl' = buffer_total st bl"
    using length_buffer_bytes [OF r(1,2)] r(3) len assms(4,5) by simp
  moreover have "take n (drop off (buffer_bytes st' bl')) = take n src"
    using len assms(4,5) by (simp add: r(3) write_at_def)
  ultimately have "buffer_extract st' bl' off n = (take n src, n)"
    using buffer_extract_spec [OF r(1,2)] assms(5) by simp
  with f(1) r(3,4) assms(4) show ?thesis by (auto simp: write_at_def min_def update_frame_def)
qed

theorem fill_extract_round_trip_witness:
  "\<exists>st' bl'. buffer_fill (snd w_block) [fst w_block] [7, 8] 1 2 = (Inr 2, st', bl') \<and> buffer_extract st' bl' 1 2 = ([7, 8], 2)
     \<and> buffer_bytes st' bl' = [0, 7, 8, 0]"
proof -
  have "wf_store (snd w_block)" "wf_blocks (snd w_block) [fst w_block]" "sep (snd w_block) [fst w_block]"
    using w_block_ready(1) by (auto simp: recv_ready_def buffer_ok_def)
  with fill_extract_round_trip [of "snd w_block" "[fst w_block]" 2 "[7, 8]" 1] w_block_ready(2,4)
  show ?thesis by (force simp: numeral_eq_Suc)
qed

text \<open>
  Mapping a buffer. Whatever its blocks, mapping merges them into one block that holds the same
  bytes and is writable in write mode; no handle that existed before changes its contents.
\<close>

theorem map_preserves_bytes:
  assumes "buffer_ok st bl" and "bl \<noteq> []"
  shows "\<exists>m st'. buffer_map st bl mode = (Inr m, st', [m]) \<and> buffer_bytes st' [m] = buffer_bytes st bl
           \<and> (mode = Map_write \<longrightarrow> mem_is_mutable st' m)
           \<and> (\<forall>m'. wf_mem st m' \<longrightarrow> wf_mem st' m' \<and> mem_bytes st' m' = mem_bytes st m')"
  using buffer_map_ok [OF assms, of mode] unfolding map_result_def by auto

theorem map_preserves_bytes_witness:
  "\<exists>m st'. buffer_map (snd w_block) [fst w_block] Map_write = (Inr m, st', [m]) \<and> buffer_bytes st' [m] = [0, 0, 0, 0]
     \<and> mem_is_mutable st' m"
proof -
  have "buffer_ok (snd w_block) [fst w_block]" using w_block_ready(1) by (simp add: recv_ready_def)
  from map_preserves_bytes [OF this, of Map_write] w_block_ready(4) show ?thesis by auto
qed

text \<open>
  Copying a buffer. A copy of a range inside the contents is a fresh writable one-block buffer in
  a new array with exactly those bytes, a range outside is refused with \<open>invalid_size\<close>, and in both
  cases every existing handle keeps its contents.
\<close>

theorem copy_is_independent:
  assumes "buffer_ok st bl"
  shows "if off + n \<le> buffer_total st bl
         then \<exists>m st'. buffer_copy st bl off n = (Inr [m], st') \<and> buffer_bytes st' [m] = take n (drop off (buffer_bytes st bl))
                \<and> mem_is_mutable st' m \<and> mem_array st' m = Some (length (arrays st))
                \<and> (\<forall>m'. wf_mem st m' \<longrightarrow> wf_mem st' m' \<and> mem_bytes st' m' = mem_bytes st m')
         else buffer_copy st bl off n = (Inl Invalid_size, st)"
proof (cases "off + n \<le> buffer_total st bl")
  case True
  with buffer_copy_ok [OF assms True] show ?thesis by auto
next
  case False
  with buffer_copy_error [OF assms, of off n] show ?thesis by simp
qed

theorem copy_is_independent_witness:
  "(\<exists>m st'. buffer_copy (snd w_block) [fst w_block] 1 2 = (Inr [m], st') \<and> buffer_bytes st' [m] = [0, 0])
   \<and> buffer_copy (snd w_block) [fst w_block] 3 2 = (Inl Invalid_size, snd w_block)"
proof -
  have ok: "buffer_ok (snd w_block) [fst w_block]" using w_block_ready(1) by (simp add: recv_ready_def)
  from copy_is_independent [OF ok, of 1 2] copy_is_independent [OF ok, of 3 2] w_block_ready(2,4)
  show ?thesis by (auto simp: numeral_eq_Suc)
qed

text \<open>
  Resizing inside the contents. On pairwise different blocks a resize to a range of the current
  contents succeeds and leaves exactly the bytes of that range, and no other handle changes.
\<close>

theorem resize_selects:
  assumes "buffer_ok st bl" and "distinct bl" and "off + n \<le> buffer_total st bl"
  shows "\<exists>st'. buffer_resize st bl off n = (Inr (), st') \<and> buffer_bytes st' bl = take n (drop off (buffer_bytes st bl))
           \<and> (\<forall>m. m \<notin> set bl \<longrightarrow> mem_bytes st' m = mem_bytes st m)"
  using buffer_resize_inside [OF assms] unfolding resize_result_def by auto

theorem resize_selects_witness:
  "\<exists>st'. buffer_resize (snd w_block) [fst w_block] 1 2 = (Inr (), st') \<and> buffer_bytes st' [fst w_block] = [0, 0]"
proof -
  have ok: "buffer_ok (snd w_block) [fst w_block]" using w_block_ready(1) by (simp add: recv_ready_def)
  from resize_selects [OF ok, of 1 2] w_block_ready(2,4) show ?thesis by (auto simp: numeral_eq_Suc)
qed

definition w_uneven :: store where
  "w_uneven = \<lparr>arrays = [[0, 1, 2, 3, 4, 5, 6, 7, 8, 9], [0, 0, 0, 0, 0, 0, 0, 0]],
     bases = [Memory_allocated 0 10, Memory_allocated 1 8],
     impls = [\<lparr>m_size = 4, m_offset = 0, m_base = 0\<rparr>, \<lparr>m_size = 0, m_offset = 0, m_base = 1\<rparr>]\<rparr>"

text \<open>
  A failed resize may leave the buffer changed. The space behind a block's contents counts as
  room of the whole buffer although the loop can only use that of the last block; a request that passes
  the check can therefore fail at the last block with \<open>invalid_size\<close> after the first ones have been
  cut: four bytes of ten in a first block, none of eight in a second, resized to sixteen bytes from
  offset two, lose their first two bytes.
\<close>

theorem resize_not_atomic:
  "buffer_ok w_uneven [Some 0, Some 1] \<and> buffer_bytes w_uneven [Some 0, Some 1] = [0, 1, 2, 3]
   \<and> (\<exists>st'. buffer_resize w_uneven [Some 0, Some 1] 2 16 = (Inl Invalid_size, st')
         \<and> buffer_bytes st' [Some 0, Some 1] = [2, 3])"
proof (intro conjI)
  show "buffer_ok w_uneven [Some 0, Some 1]"
    by (simp add: buffer_ok_def w_uneven_def wf_store_def wf_impl_def wf_mem_def INT_MAX_def SIZE_MAX_def mem_capacity_def)
  show "buffer_bytes w_uneven [Some 0, Some 1] = [0, 1, 2, 3]"
    by (simp add: w_uneven_def mem_bytes_def numeral_eq_Suc)
  define st' where "st' = w_uneven\<lparr>impls := [\<lparr>m_size = 2, m_offset = 2, m_base = 0\<rparr>, \<lparr>m_size = 0, m_offset = 0, m_base = 1\<rparr>]\<rparr>"
  have "buffer_resize w_uneven [Some 0, Some 1] 2 16 = (Inl Invalid_size, st')"
    by (simp add: st'_def w_uneven_def buffer_resize_def resize_range_checked_def get_size_range_full_def process_args_def
        range_of_def check_size_add_def SIZE_MAX_def INT_MAX_def sz_add_def sz_sub_def)
  moreover have "buffer_bytes st' [Some 0, Some 1] = [2, 3]"
    by (simp add: st'_def w_uneven_def mem_bytes_def numeral_eq_Suc)
  ultimately show "\<exists>st'. buffer_resize w_uneven [Some 0, Some 1] 2 16 = (Inl Invalid_size, st')
      \<and> buffer_bytes st' [Some 0, Some 1] = [2, 3]" by blast
qed

end
