(* ===== verification/Payloader.thy ===== *)
theory Payloader
  imports Buffer
begin

unbundle bit_operations_syntax

text \<open>
  Model of \<open>lib/rstream/io/payloader.hpp\<close> and \<open>io/error.cpp\<close>: messages are sent as a four-byte
  big-endian length followed by the payload. The transport is not part of this repository: a read is a
  parameter that returns the bytes delivered, the error code of the completion and the stream's next
  state, and \<open>exact_reader\<close> is what \<open>boost::asio::async_read\<close> documents (a successful read has filled
  the buffers with the next bytes). The bytes handed to \<open>async_write\<close> are the result of a send.
\<close>

section \<open>Error codes of the io library\<close>

datatype io_error =
    Io_success
  | Deserialization_error
  | Invalid_buffer_size
  | Operation_cancelled
  | Io_operation_timeout
  | Unknown_undefined_error
  | Invalid_uri
  | Unsupported_operation

fun io_error_value :: "io_error \<Rightarrow> int" where
  "io_error_value Io_success = 0"
| "io_error_value Deserialization_error = 1"
| "io_error_value Invalid_buffer_size = 2"
| "io_error_value Operation_cancelled = 3"
| "io_error_value Io_operation_timeout = 4"
| "io_error_value Unknown_undefined_error = 5"
| "io_error_value Invalid_uri = 6"
| "io_error_value Unsupported_operation = 7"

definition io_ec :: "io_error \<Rightarrow> error_code" where
  "io_ec e = EC Io_cat (io_error_value e)"

definition io_error_to_string :: "int \<Rightarrow> string" where
  "io_error_to_string v =
     (if v = 0 then ''success''
      else if v = 1 then ''deserialization error''
      else if v = 2 then ''invalid buffer size''
      else if v = 3 then ''operation has been cancelled''
      else if v = 4 then ''operation timeout''
      else if v = 5 then ''error is unknonw / undefined''
      else if v = 6 then ''invalid URI''
      else if v = 7 then ''unsupported operation''
      else ''unknown error'')"

section \<open>The length header\<close>

text \<open>The memory of \<open>htonl(w)\<close>: the four bytes of \<open>w\<close>, most significant first, on every host.\<close>

definition htonl_bytes :: "32 word \<Rightarrow> byte list" where
  "htonl_bytes w = [ucast (drop_bit 24 w), ucast (drop_bit 16 w), ucast (drop_bit 8 w), ucast w]"

fun ntohl_bytes :: "byte list \<Rightarrow> 32 word" where
  "ntohl_bytes [a, b, c, d] = push_bit 24 (ucast a) OR push_bit 16 (ucast b) OR push_bit 8 (ucast c) OR ucast d"
| "ntohl_bytes bs = 0"

lemma length_htonl_bytes [simp]: "length (htonl_bytes w) = 4"
  by (simp add: htonl_bytes_def)

lemma ntohl_htonl [simp]: "ntohl_bytes (htonl_bytes w) = w"
proof (rule bit_word_eqI)
  fix n assume "n < LENGTH(32)"
  then consider "n < 8" | "8 \<le> n" "n < 16" | "16 \<le> n" "n < 24" | "24 \<le> n" "n < 32" by force
  then show "bit (ntohl_bytes (htonl_bytes w)) n = bit w n"
    by cases (auto simp: htonl_bytes_def bit_simps)
qed

lemma header_of_length: "n \<le> UINT32_MAX \<Longrightarrow> unat (of_nat n :: 32 word) = n"
  by (simp add: UINT32_MAX_def unat_of_nat take_bit_nat_eq_self)

section \<open>Sending\<close>

text \<open>
  \<open>Inl\<close>: the handler completes with that code, or \<open>get_size\<close> throws; \<open>Inr\<close>: the bytes given to
  \<open>async_write\<close>, whose error code is passed on to the handler.
\<close>

datatype send_failure = Send_error error_code | Send_throw core_error

definition payloader_send :: "store \<Rightarrow> blocks \<Rightarrow> (send_failure + byte list) \<times> store" where
  "payloader_send st payload =
     (case get_size st payload of
        Inl e \<Rightarrow> (Inl (Send_throw e), st)
      | Inr payload_size \<Rightarrow>
          if payload_size > UINT32_MAX then (Inl (Send_error (io_ec Invalid_buffer_size)), st)
          else
            (case make_memory_allocated st 4 of
               (header, st1) \<Rightarrow>
                 (case mem_get_data st1 header of
                    Inl e \<Rightarrow> (Inl (Send_throw e), st1)
                  | Inr d \<Rightarrow>
                      (let st2 = write_ptr st1 d (htonl_bytes (of_nat payload_size)) in
                       case buffer_append [] header of
                         Inl e \<Rightarrow> (Inl (Send_throw e), st2)
                       | Inr message \<Rightarrow>
                           (case buffer_append_buffer message payload of
                              Inl e \<Rightarrow> (Inl (Send_throw e), st2)
                            | Inr message' \<Rightarrow> (Inr (gather st2 (const_memory_sequence st2 message')), st2))))))"

section \<open>Receiving\<close>

type_synonym 's reader = "'s \<Rightarrow> nat \<Rightarrow> byte list \<times> error_code \<times> 's"

datatype recv_end = Recv_done error_code | Recv_throw core_error

text \<open>What leaves the control callback: a \<open>system_error\<close> with its code, or any other exception.\<close>

datatype cb_exn = Cb_system_error error_code | Cb_other

fun cb_code :: "cb_exn \<Rightarrow> error_code" where
  "cb_code (Cb_system_error ec) = ec"
| "cb_code Cb_other = io_ec Unknown_undefined_error"

type_synonym control_cb = "store \<Rightarrow> blocks \<Rightarrow> nat \<Rightarrow> cb_exn option \<times> store \<times> blocks"

definition read_payload_into :: "'s reader \<Rightarrow> store \<Rightarrow> blocks \<Rightarrow> 's \<Rightarrow> 32 word \<Rightarrow> recv_end \<times> store \<times> blocks \<times> 's" where
  "read_payload_into rd st bl s header =
     (case get_size_full st bl of
        Inl e \<Rightarrow> (Recv_throw e, st, bl, s)
      | Inr (_, _, maxsize) \<Rightarrow>
          if unat header > maxsize then (Recv_done (io_ec Invalid_buffer_size), st, bl, s)
          else
            (case buffer_set_size st bl (unat header) of
               (Inl e, st1) \<Rightarrow> (Recv_throw e, st1, bl, s)
             | (Inr _, st1) \<Rightarrow>
                 (case mutable_memory_sequence st1 bl of
                    Inl e \<Rightarrow> (Recv_throw e, st1, bl, s)
                  | Inr ps \<Rightarrow>
                      (case rd s (sum_list (map snd ps)) of
                         (bs, ec, s') \<Rightarrow> (Recv_done ec, scatter st1 ps bs, bl, s')))))"

definition do_read_payload ::
  "control_cb option \<Rightarrow> 's reader \<Rightarrow> store \<Rightarrow> blocks \<Rightarrow> 's \<Rightarrow> 32 word \<Rightarrow> recv_end \<times> store \<times> blocks \<times> 's" where
  "do_read_payload cb rd st bl s header =
     (case (case cb of None \<Rightarrow> (None, st, bl) | Some f \<Rightarrow> f st bl (unat header)) of
        (Some ex, st1, bl1) \<Rightarrow> (Recv_done (cb_code ex), st1, bl1, s)
      | (None, st1, bl1) \<Rightarrow> read_payload_into rd st1 bl1 s header)"

definition payloader_recv ::
  "control_cb option \<Rightarrow> 's reader \<Rightarrow> store \<Rightarrow> blocks \<Rightarrow> 's \<Rightarrow> recv_end \<times> store \<times> blocks \<times> 's" where
  "payloader_recv cb rd st bl s =
     (case rd s 4 of
        (bs, ec, s1) \<Rightarrow>
          if ec_failed ec then (Recv_done ec, st, bl, s1)
          else do_read_payload cb rd st bl s1 (ntohl_bytes bs))"

section \<open>What the transport promises\<close>

definition exact_reader :: "'s reader \<Rightarrow> ('s \<Rightarrow> byte list) \<Rightarrow> bool" where
  "exact_reader rd content \<longleftrightarrow>
     (\<forall>s n. n \<le> length (content s) \<longrightarrow>
        (\<exists>s'. rd s n = (take n (content s), ec_ok, s') \<and> content s' = drop n (content s)))"

text \<open>A byte stream that ends: a read beyond the end delivers what is left and reports \<open>eof\<close>.\<close>

definition asio_eof :: error_code where
  "asio_eof = EC Asio_misc_cat 2"

definition list_reader :: "byte list reader" where
  "list_reader s n = (if n \<le> length s then (take n s, ec_ok, drop n s) else (s, asio_eof, []))"

lemma exact_list_reader: "exact_reader list_reader id"
  by (simp add: exact_reader_def list_reader_def)

section \<open>The wire format\<close>

definition frame :: "byte list \<Rightarrow> byte list" where
  "frame p = htonl_bytes (of_nat (length p)) @ p"

definition unframe :: "byte list \<Rightarrow> (byte list \<times> byte list) option" where
  "unframe bs =
     (let n = unat (ntohl_bytes (take 4 bs)) in
      if length bs < 4 \<or> length (drop 4 bs) < n then None
      else Some (take n (drop 4 bs), drop n (drop 4 bs)))"

definition framable :: "byte list \<Rightarrow> bool" where
  "framable p \<longleftrightarrow> length p \<le> UINT32_MAX"

interpretation wire: frame_codec frame unframe framable
  by unfold_locales (simp add: frame_def unframe_def framable_def header_of_length)

lemma frame_length: "length (frame p) = 4 + length p"
  by (simp add: frame_def)

section \<open>Sending writes a frame\<close>

lemma buffer_append_buffer_ok:
  "wf_blocks st bl' \<Longrightarrow> buffer_append_buffer bl bl' = Inr (bl @ bl')"
  by (induction bl' arbitrary: bl) (auto simp: buffer_append_def insert_memory_def)

lemma payloader_send_ok:
  assumes ok: "buffer_ok st bl" and n: "buffer_total st bl \<le> UINT32_MAX"
  shows "\<exists>st'. payloader_send st bl = (Inr (frame (buffer_bytes st bl)), st')
           \<and> wf_store st' \<and> (\<forall>m. wf_mem st m \<longrightarrow> mem_bytes st' m = mem_bytes st m)"
proof -
  have wf: "wf_store st" "wf_blocks st bl" using ok by (auto simp: buffer_ok_def)
  obtain m st1 where al: "make_memory_allocated st 4 = (m, st1)" by fastforce
  note new = make_memory_allocated_spec [OF al] and ext = make_memory_allocated_extends [OF al]
  have "(4::nat) \<le> SIZE_MAX" by (simp add: SIZE_MAX_def)
  from make_memory_allocated_wf [OF wf(1) this al] have wf1: "wf_store st1" "wf_mem st1 m" by auto
  define h where "h = htonl_bytes (of_nat (buffer_total st bl))"
  define st2 where "st2 = write_ptr st1 (Some (length (arrays st)), 0 + 0) h"
  have fit: "0 + length h \<le> mem_get_size st1 m" using new(3) by (simp add: h_def)
  note w = write_through [OF wf1 new(6) fit, folded st2_def]
  have hb: "mem_bytes st2 m = h" using w(2) new(2) by (simp add: write_at_def h_def)
  have old: "mem_bytes st2 x = mem_bytes st x" if "wf_mem st x" for x
  proof -
    have "mem_array st1 x \<noteq> Some (length (arrays st))"
      using mem_array_bound [OF wf(1) that] extends_observers(6) [OF ext wf(1) that] by auto
    then show ?thesis using w(3) extends_bytes [OF ext wf(1) that] by simp
  qed
  have "buffer_bytes st2 (m # bl) = frame (buffer_bytes st bl)"
    using hb old buffer_bytes_cong [of bl st2 st] wf_blocksD [OF wf(2)] wf
    by (simp add: frame_def h_def)
  moreover have "buffer_append [] m = Inr [m]" using new(1) by (simp add: buffer_append_def insert_memory_def)
  ultimately have "payloader_send st bl = (Inr (frame (buffer_bytes st bl)), st2)"
    using n al new(6) get_size_ok [OF ok] buffer_append_buffer_ok [OF wf(2), of "[m]"]
    unfolding st2_def h_def
    by (simp add: payloader_send_def gather_const_sequence Let_def del: write_ptr.simps)
  with w(1) old show ?thesis by blast
qed

lemma payloader_send_too_long:
  "buffer_ok st bl \<Longrightarrow> UINT32_MAX < buffer_total st bl \<Longrightarrow>
   payloader_send st bl = (Inl (Send_error (io_ec Invalid_buffer_size)), st)"
  by (simp add: payloader_send_def get_size_ok)

section \<open>Receiving reads a frame\<close>

lemma get_size_full_reset:
  assumes "buffer_ok st bl" and "buffer_total st bl = buffer_capacity st bl"
  shows "get_size_full st bl = Inr (buffer_capacity st bl, 0, buffer_capacity st bl)"
  using get_size_full_ok [OF assms(1)] assms(2) by auto

lemma read_payload_into_ok:
  assumes r: "recv_ready st bl" and full: "buffer_total st bl = buffer_capacity st bl"
    and rd: "exact_reader rd content" and c: "content s = p @ rest"
    and h: "unat header = length p" and fit: "length p \<le> buffer_capacity st bl"
  shows "\<exists>st' s'. read_payload_into rd st bl s header = (Recv_done ec_ok, st', bl, s')
           \<and> buffer_bytes st' bl = p \<and> content s' = rest \<and> recv_ready st' bl
           \<and> buffer_capacity st' bl = buffer_capacity st bl"
proof -
  from r have ok: "buffer_ok st bl" by (simp add: recv_ready_def)
  from set_size_scatter [OF r, of p] fit full obtain st1 ps where
    sc: "buffer_set_size st bl (length p) = (Inr (), st1)" "mutable_memory_sequence st1 bl = Inr ps"
      "sum_list (map snd ps) = length p" "buffer_bytes (scatter st1 ps p) bl = p"
      "recv_ready (scatter st1 ps p) bl" "buffer_capacity (scatter st1 ps p) bl = buffer_capacity st bl"
    by auto
  from rd c obtain s' where "rd s (length p) = (p, ec_ok, s')" "content s' = rest"
    unfolding exact_reader_def by (metis append_eq_conv_conj length_append le_add1)
  with sc h fit get_size_full_reset [OF ok full] show ?thesis
    by (auto simp: read_payload_into_def)
qed

lemma read_payload_into_too_long:
  assumes "recv_ready st bl" and "buffer_total st bl = buffer_capacity st bl"
    and "buffer_capacity st bl < unat header"
  shows "read_payload_into rd st bl s header = (Recv_done (io_ec Invalid_buffer_size), st, bl, s)"
  using assms get_size_full_reset [of st bl] by (simp add: read_payload_into_def recv_ready_def)

lemma exact_reader_header:
  assumes "exact_reader rd content" and "content s = frame p @ rest" and "framable p"
  shows "\<exists>s1 header. rd s 4 = (htonl_bytes header, ec_ok, s1) \<and> content s1 = p @ rest \<and> unat header = length p"
proof -
  have "take 4 (content s) = htonl_bytes (of_nat (length p))" "drop 4 (content s) = p @ rest" "4 \<le> length (content s)"
    using assms(2) by (auto simp: frame_def)
  with assms(1) header_of_length [of "length p"] assms(3) show ?thesis
    unfolding exact_reader_def framable_def by metis
qed

text \<open>Receiving into a reset buffer without a control callback.\<close>

lemma payloader_recv_ok:
  assumes "recv_ready st bl" and "buffer_total st bl = buffer_capacity st bl"
    and "exact_reader rd content" and "content s = frame p @ rest" and "framable p"
    and "length p \<le> buffer_capacity st bl"
  shows "\<exists>st' s'. payloader_recv None rd st bl s = (Recv_done ec_ok, st', bl, s')
           \<and> buffer_bytes st' bl = p \<and> content s' = rest \<and> recv_ready st' bl
           \<and> buffer_capacity st' bl = buffer_capacity st bl"
proof -
  obtain s1 header where h: "rd s 4 = (htonl_bytes header, ec_ok, s1)" "content s1 = p @ rest" "unat header = length p"
    using exact_reader_header [OF assms(3-5)] by blast
  from read_payload_into_ok [OF assms(1-3) h(2,3) assms(6)] h(1) show ?thesis
    by (simp add: payloader_recv_def do_read_payload_def)
qed

section \<open>The receive loop\<close>

text \<open>
  One turn of a peer's receive loop (\<open>do_read_incoming_message\<close> and \<open>on_read_incoming_data\<close> of the
  control-channel client): the buffer is reset, one message is received and the buffer is mapped to one
  block for the parser.
\<close>

definition recv_message :: "'s reader \<Rightarrow> store \<Rightarrow> blocks \<Rightarrow> 's \<Rightarrow> (recv_end + byte list) \<times> store \<times> blocks \<times> 's" where
  "recv_message rd st bl s =
     (case payloader_recv None rd (buffer_reset_size st bl) bl s of
        (Recv_throw e, st1, bl1, s1) \<Rightarrow> (Inl (Recv_throw e), st1, bl1, s1)
      | (Recv_done ec, st1, bl1, s1) \<Rightarrow>
          if ec_failed ec then (Inl (Recv_done ec), st1, bl1, s1)
          else
            (case buffer_map st1 bl1 Map_write of
               (Inl e, st2, bl2) \<Rightarrow> (Inl (Recv_throw e), st2, bl2, s1)
             | (Inr m, st2, bl2) \<Rightarrow> (Inr (read_ptr st2 (mem_get_const_data st2 m) (mem_get_size st2 m)), st2, bl2, s1)))"

fun recv_messages :: "'s reader \<Rightarrow> store \<Rightarrow> blocks \<Rightarrow> 's \<Rightarrow> nat \<Rightarrow> byte list list \<times> recv_end option \<times> store \<times> blocks \<times> 's" where
  "recv_messages rd st bl s 0 = ([], None, st, bl, s)"
| "recv_messages rd st bl s (Suc n) =
     (case recv_message rd st bl s of
        (Inl e, st1, bl1, s1) \<Rightarrow> ([], Some e, st1, bl1, s1)
      | (Inr p, st1, bl1, s1) \<Rightarrow>
          (case recv_messages rd st1 bl1 s1 n of (ps, e, r) \<Rightarrow> (p # ps, e, r)))"

lemma recv_message_ok:
  assumes r: "recv_ready st [m]" and rd: "exact_reader rd content" and c: "content s = frame p @ rest"
    and p: "framable p" "length p \<le> mem_capacity st m"
  shows "\<exists>st' s'. recv_message rd st [m] s = (Inr p, st', [m], s')
           \<and> content s' = rest \<and> recv_ready st' [m] \<and> mem_capacity st' m = mem_capacity st m"
proof -
  note z = recv_ready_reset [OF r]
  have full: "buffer_total (buffer_reset_size st [m]) [m] = buffer_capacity (buffer_reset_size st [m]) [m]"
    using z by simp
  from payloader_recv_ok [OF z(1) full rd c p(1)] p(2) z(2,3)
  obtain st' s' where l: "payloader_recv None rd (buffer_reset_size st [m]) [m] s = (Recv_done ec_ok, st', [m], s')"
      "buffer_bytes st' [m] = p" "content s' = rest" "recv_ready st' [m]" "mem_capacity st' m = mem_capacity st m"
    by auto
  have "mem_is_mutable st' m" using l(4) by (simp add: recv_ready_def all_mutable_def)
  then have "buffer_map st' [m] Map_write = (Inr m, st', [m])"
    by (simp add: buffer_map_def map_range_def process_args_def map_memory_block_def INT_MAX_def)
  with l show ?thesis by (simp add: recv_message_def mem_bytes_def)
qed

lemma recv_messages_ok:
  assumes "exact_reader rd content" and "recv_ready st [m]" and "content s = concat (map frame ps) @ rest"
    and "list_all (\<lambda>p. framable p \<and> length p \<le> mem_capacity st m) ps"
  shows "\<exists>st' s'. recv_messages rd st [m] s (length ps) = (ps, None, st', [m], s') \<and> content s' = rest"
  using assms(2-4)
proof (induction ps arbitrary: st s)
  case (Cons p ps)
  then have c: "content s = frame p @ (concat (map frame ps) @ rest)"
    and p: "framable p" "length p \<le> mem_capacity st m" by auto
  from recv_message_ok [OF Cons.prems(1) assms(1) c p] obtain st1 s1 where
    m: "recv_message rd st [m] s = (Inr p, st1, [m], s1)" "content s1 = concat (map frame ps) @ rest"
      "recv_ready st1 [m]" "mem_capacity st1 m = mem_capacity st m" by blast
  from Cons.IH [OF m(3,2)] Cons.prems(3) m(4) m(1) show ?case by fastforce
qed simp

section \<open>Properties\<close>

text \<open>
  What sending writes. A buffer of at most \<open>2 ^ 32 - 1\<close> bytes is written as its length in four
  big-endian bytes followed by its contents, a longer one is refused with \<open>invalid_buffer_size\<close> and
  nothing is written; the caller's memory is unchanged, and two different payloads never have frames
  one of which is a prefix of the other's continuation.
\<close>

theorem send_writes_frame:
  assumes "buffer_ok st bl"
  shows "(if buffer_total st bl \<le> UINT32_MAX
          then \<exists>st'. payloader_send st bl = (Inr (frame (buffer_bytes st bl)), st')
                 \<and> (\<forall>m. wf_mem st m \<longrightarrow> mem_bytes st' m = mem_bytes st m)
          else payloader_send st bl = (Inl (Send_error (io_ec Invalid_buffer_size)), st))
       \<and> (\<forall>q r s. buffer_total st bl \<le> UINT32_MAX \<and> length q \<le> UINT32_MAX \<and> frame (buffer_bytes st bl) @ r = frame q @ s
            \<longrightarrow> q = buffer_bytes st bl \<and> r = s)"
proof (intro conjI allI impI)
  show "if buffer_total st bl \<le> UINT32_MAX
      then \<exists>st'. payloader_send st bl = (Inr (frame (buffer_bytes st bl)), st')
             \<and> (\<forall>m. wf_mem st m \<longrightarrow> mem_bytes st' m = mem_bytes st m)
      else payloader_send st bl = (Inl (Send_error (io_ec Invalid_buffer_size)), st)"
    using payloader_send_ok [OF assms] payloader_send_too_long [OF assms] by auto
  fix q r s
  assume "buffer_total st bl \<le> UINT32_MAX \<and> length q \<le> UINT32_MAX \<and> frame (buffer_bytes st bl) @ r = frame q @ s"
  moreover have "length (buffer_bytes st bl) = buffer_total st bl" using assms by (simp add: buffer_ok_def)
  ultimately have "framable (buffer_bytes st bl)" "framable q" "frame (buffer_bytes st bl) @ r = frame q @ s"
    by (auto simp: framable_def)
  from wire.prefix_free [OF this] show "q = buffer_bytes st bl" "r = s" by auto
qed

theorem send_writes_frame_witness:
  "\<exists>st'. payloader_send (snd w_block) [fst w_block] = (Inr [0, 0, 0, 4, 0, 0, 0, 0], st')"
proof -
  have "buffer_ok (snd w_block) [fst w_block]" using w_block_ready(1) by (simp add: recv_ready_def)
  from send_writes_frame [OF this] w_block_ready(2,4)
  have "\<exists>st'. payloader_send (snd w_block) [fst w_block] = (Inr (frame [0, 0, 0, 0]), st')"
    by (auto simp: UINT32_MAX_def)
  moreover have "frame [0, 0, 0, 0] = [0, 0, 0, 4, 0, 0, 0, 0]" by code_simp
  ultimately show ?thesis by simp
qed

text \<open>
  C16: the receive loop delivers what was sent. Over any transport whose reads return the next bytes
  of the stream, a loop that resets a one-block buffer and receives into it turns the concatenation of
  frames back into the list of their payloads, in order and unchanged, as long as each payload fits
  the block, and stops reading exactly behind the last frame.
\<close>

theorem receive_loop_delivers:
  assumes "exact_reader rd content" and "recv_ready st [m]" and "content s = concat (map frame ps) @ rest"
    and "list_all (\<lambda>p. length p \<le> UINT32_MAX \<and> length p \<le> mem_capacity st m) ps"
  shows "\<exists>st' s'. recv_messages rd st [m] s (length ps) = (ps, None, st', [m], s') \<and> content s' = rest"
  using recv_messages_ok [OF assms(1-3)] assms(4) by (simp add: framable_def)

theorem receive_loop_delivers_witness:
  "\<exists>st'. recv_messages list_reader (snd w_block) [fst w_block] (frame [1, 2] @ frame [] @ frame [3]) 3
     = ([[1, 2], [], [3]], None, st', [fst w_block], [])"
proof -
  have "mem_capacity (snd w_block) (fst w_block) = 4" using w_block_ready(3) by simp
  then have "list_all (\<lambda>p. length p \<le> UINT32_MAX \<and> length p \<le> mem_capacity (snd w_block) (fst w_block)) [[1, 2], [], [3 :: byte]]"
    by (simp add: UINT32_MAX_def)
  from receive_loop_delivers [OF exact_list_reader w_block_ready(1) _ this, of "frame [1, 2] @ frame [] @ frame [3]" "[]"]
  show ?thesis by (auto simp: numeral_eq_Suc)
qed

end
