(* ===== verification/Queue.thy ===== *)
theory Queue
  imports Payloader "HOL-Library.Sublist"
begin

text \<open>
  Model of \<open>lib/rstream/io/queue.hpp\<close>: the send queue in front of a transport. All work of the queue
  runs on one strand; the state holds the strand's waiting jobs in order, so an interleaving is a
  sequence of events: calls from outside (which post a job), the cancellation slot of a handler (which
  marks the task at once and posts a job), the completion of the transport operation in flight (which
  posts its handler to the strand) and the strand running its next job. Tasks are numbered in the order
  of \<open>async_send\<close>; what the queue does to the outside is appended to a log.
\<close>

unbundle bit_operations_syntax

section \<open>State\<close>

type_synonym cancellation_type = "32 word"

definition cancellation_terminal :: cancellation_type where
  "cancellation_terminal = 1"

record task =
  t_buffer :: "byte list"
  t_slot :: bool
  t_cancelled :: cancellation_type
  t_completed :: bool

datatype qaction =
    Start nat "byte list"
  | Invoke nat error_code
  | Invoke_cancel nat error_code
  | Emit nat cancellation_type

datatype qjob =
    J_send nat
  | J_cancel
  | J_async_cancel nat
  | J_on_task_cancel nat cancellation_type
  | J_on_send error_code

record queue =
  q_tasks :: "task list"
  q_current :: "nat option"
  q_queue :: "nat list"
  q_cancel_handlers :: "nat list"
  q_jobs :: "qjob list"
  q_inflight :: bool
  q_fault :: bool
  q_log :: "qaction list"

definition queue_init :: queue where
  "queue_init = \<lparr>q_tasks = [], q_current = None, q_queue = [], q_cancel_handlers = [], q_jobs = [],
     q_inflight = False, q_fault = False, q_log = []\<rparr>"

section \<open>Tasks\<close>

abbreviation task_of :: "queue \<Rightarrow> nat \<Rightarrow> task" where
  "task_of q i \<equiv> q_tasks q ! i"

definition completed :: "queue \<Rightarrow> nat \<Rightarrow> bool" where
  "completed q i = t_completed (task_of q i)"

definition cancelled :: "queue \<Rightarrow> nat \<Rightarrow> bool" where
  "cancelled q i \<longleftrightarrow> t_cancelled (task_of q i) \<noteq> 0"

definition request_cancel :: "nat \<Rightarrow> cancellation_type \<Rightarrow> queue \<Rightarrow> queue" where
  "request_cancel i ty q =
     q\<lparr>q_tasks := (q_tasks q)[i := (task_of q i)\<lparr>t_cancelled := t_cancelled (task_of q i) OR ty\<rparr>]\<rparr>"

definition emit_cancellation :: "nat \<Rightarrow> cancellation_type \<Rightarrow> queue \<Rightarrow> queue" where
  "emit_cancellation i ty q = q\<lparr>q_log := q_log q @ [Emit i ty]\<rparr>"

definition task_complete :: "nat \<Rightarrow> error_code \<Rightarrow> queue \<Rightarrow> queue" where
  "task_complete i ec q =
     (if completed q i then q
      else q\<lparr>q_tasks := (q_tasks q)[i := (task_of q i)\<lparr>t_completed := True\<rparr>], q_log := q_log q @ [Invoke i ec]\<rparr>)"

section \<open>Handlers\<close>

fun drain_queue :: "nat list \<Rightarrow> queue \<Rightarrow> queue" where
  "drain_queue [] q = q"
| "drain_queue (i # ts) q =
     drain_queue ts (task_complete i (io_ec Operation_cancelled) (request_cancel i cancellation_terminal q))"

definition cancel_pending :: "queue \<Rightarrow> queue" where
  "cancel_pending q =
     (let q1 = (case q_current q of
                  Some i \<Rightarrow> emit_cancellation i cancellation_terminal (request_cancel i cancellation_terminal q)
                | None \<Rightarrow> q)
      in drain_queue (q_queue q1) (q1\<lparr>q_queue := []\<rparr>))"

definition complete_cancel_handlers :: "queue \<Rightarrow> queue" where
  "complete_cancel_handlers q =
     (if q_current q \<noteq> None then q
      else q\<lparr>q_cancel_handlers := [], q_log := q_log q @ map (\<lambda>h. Invoke_cancel h ec_ok) (q_cancel_handlers q)\<rparr>)"

definition cancel_internal :: "queue \<Rightarrow> queue" where
  "cancel_internal q = cancel_pending q"

definition cancel_internal_handler :: "nat \<Rightarrow> queue \<Rightarrow> queue" where
  "cancel_internal_handler h q =
     complete_cancel_handlers (cancel_pending (q\<lparr>q_cancel_handlers := q_cancel_handlers q @ [h]\<rparr>))"

text \<open>The transport operation of \<open>process\<close> is started.\<close>

definition start_task :: "nat \<Rightarrow> queue \<Rightarrow> queue" where
  "start_task i q =
     q\<lparr>q_current := Some i, q_inflight := True, q_log := q_log q @ [Start i (t_buffer (task_of q i))]\<rparr>"

lemma task_complete_frame [simp]:
  "q_queue (task_complete i ec q) = q_queue q" "q_current (task_complete i ec q) = q_current q"
  "q_jobs (task_complete i ec q) = q_jobs q" "q_inflight (task_complete i ec q) = q_inflight q"
  "q_cancel_handlers (task_complete i ec q) = q_cancel_handlers q" "q_fault (task_complete i ec q) = q_fault q"
  "length (q_tasks (task_complete i ec q)) = length (q_tasks q)"
  by (simp_all add: task_complete_def)

function process :: "nat \<Rightarrow> queue \<Rightarrow> queue" and process_next :: "queue \<Rightarrow> queue" where
  "process i q =
     (if completed q i then process_next q
      else if cancelled q i then process_next (task_complete i (io_ec Operation_cancelled) q)
      else start_task i q)"
| "process_next q =
     (case q_queue q of
        [] \<Rightarrow> q
      | i # ts \<Rightarrow>
          (let q1 = q\<lparr>q_queue := ts\<rparr> in
           if completed q1 i then process_next q1
           else if cancelled q1 i then process_next (task_complete i (io_ec Operation_cancelled) q1)
           else process i q1))"
  by pat_completeness auto
termination
  by (relation "measure (\<lambda>x. case x of Inl (i, q) \<Rightarrow> 2 * length (q_queue q) + 1 | Inr q \<Rightarrow> 2 * length (q_queue q))") auto

declare process.simps [simp del] process_next.simps [simp del]

definition send :: "nat \<Rightarrow> queue \<Rightarrow> queue" where
  "send i q =
     (if completed q i then q
      else if cancelled q i then task_complete i (io_ec Operation_cancelled) q
      else if q_current q = None then process i q
      else q\<lparr>q_queue := q_queue q @ [i]\<rparr>)"

definition on_task_cancel :: "nat \<Rightarrow> cancellation_type \<Rightarrow> queue \<Rightarrow> queue" where
  "on_task_cancel i ty q =
     (if completed q i then q
      else if q_current q = Some i then emit_cancellation i ty q
      else task_complete i (io_ec Operation_cancelled) q)"

text \<open>\<open>on_send\<close> dereferences \<open>m_current\<close>; a null pointer there is a fault.\<close>

definition on_send :: "error_code \<Rightarrow> queue \<Rightarrow> queue" where
  "on_send ec q =
     (case q_current q of
        None \<Rightarrow> q\<lparr>q_fault := True\<rparr>
      | Some i \<Rightarrow> process_next (complete_cancel_handlers ((task_complete i ec q)\<lparr>q_current := None\<rparr>)))"

section \<open>Events\<close>

fun run_job :: "qjob \<Rightarrow> queue \<Rightarrow> queue" where
  "run_job (J_send i) q = send i q"
| "run_job J_cancel q = cancel_internal q"
| "run_job (J_async_cancel h) q = cancel_internal_handler h q"
| "run_job (J_on_task_cancel i ty) q = on_task_cancel i ty q"
| "run_job (J_on_send ec) q = on_send ec q"

definition post :: "qjob \<Rightarrow> queue \<Rightarrow> queue" where
  "post j q = q\<lparr>q_jobs := q_jobs q @ [j]\<rparr>"

definition queue_async_send :: "byte list \<Rightarrow> bool \<Rightarrow> queue \<Rightarrow> queue" where
  "queue_async_send b has_slot q =
     post (J_send (length (q_tasks q)))
       (q\<lparr>q_tasks := q_tasks q @ [\<lparr>t_buffer = b, t_slot = has_slot, t_cancelled = 0, t_completed = False\<rparr>]\<rparr>)"

definition queue_cancel :: "queue \<Rightarrow> queue" where
  "queue_cancel q = post J_cancel q"

definition queue_async_cancel :: "nat \<Rightarrow> queue \<Rightarrow> queue" where
  "queue_async_cancel h q = post (J_async_cancel h) q"

text \<open>The function that \<open>arm\<close> assigns to the handler's cancellation slot.\<close>

definition slot_fires :: "nat \<Rightarrow> cancellation_type \<Rightarrow> queue \<Rightarrow> queue" where
  "slot_fires i ty q =
     (if i < length (q_tasks q) \<and> t_slot (task_of q i) \<and> ty \<noteq> 0
      then post (J_on_task_cancel i ty) (request_cancel i ty q) else q)"

text \<open>The transport ends the operation in flight, if there is one, and posts the bound handler.\<close>

definition transport_sent :: "error_code \<Rightarrow> queue \<Rightarrow> queue" where
  "transport_sent ec q = (if q_inflight q then post (J_on_send ec) (q\<lparr>q_inflight := False\<rparr>) else q)"

definition strand_run :: "queue \<Rightarrow> queue" where
  "strand_run q = (case q_jobs q of [] \<Rightarrow> q | j # js \<Rightarrow> run_job j (q\<lparr>q_jobs := js\<rparr>))"

datatype qevent =
    E_send "byte list" bool
  | E_cancel
  | E_async_cancel nat
  | E_slot nat cancellation_type
  | E_sent error_code
  | E_run

fun queue_step :: "qevent \<Rightarrow> queue \<Rightarrow> queue" where
  "queue_step (E_send b sl) q = queue_async_send b sl q"
| "queue_step E_cancel q = queue_cancel q"
| "queue_step (E_async_cancel h) q = queue_async_cancel h q"
| "queue_step (E_slot i ty) q = slot_fires i ty q"
| "queue_step (E_sent ec) q = transport_sent ec q"
| "queue_step E_run q = strand_run q"

section \<open>Observations\<close>

fun start_ids :: "qaction list \<Rightarrow> nat list" where
  "start_ids [] = []"
| "start_ids (Start i b # as) = i # start_ids as"
| "start_ids (a # as) = start_ids as"

fun invoke_ids :: "qaction list \<Rightarrow> nat list" where
  "invoke_ids [] = []"
| "invoke_ids (Invoke i ec # as) = i # invoke_ids as"
| "invoke_ids (a # as) = invoke_ids as"

fun send_jobs :: "qjob list \<Rightarrow> nat list" where
  "send_jobs [] = []"
| "send_jobs (J_send i # js) = i # send_jobs js"
| "send_jobs (j # js) = send_jobs js"

fun sent_jobs :: "qjob list \<Rightarrow> nat" where
  "sent_jobs [] = 0"
| "sent_jobs (J_on_send ec # js) = Suc (sent_jobs js)"
| "sent_jobs (j # js) = sent_jobs js"

lemma start_ids_append [simp]: "start_ids (xs @ ys) = start_ids xs @ start_ids ys"
  by (induction xs rule: start_ids.induct) auto

lemma invoke_ids_append [simp]: "invoke_ids (xs @ ys) = invoke_ids xs @ invoke_ids ys"
  by (induction xs rule: invoke_ids.induct) auto

lemma send_jobs_append [simp]: "send_jobs (xs @ ys) = send_jobs xs @ send_jobs ys"
  by (induction xs rule: send_jobs.induct) auto

lemma sent_jobs_append [simp]: "sent_jobs (xs @ ys) = sent_jobs xs + sent_jobs ys"
  by (induction xs rule: sent_jobs.induct) auto

lemma cancel_actions [simp]:
  "start_ids (map (\<lambda>h. Invoke_cancel h ec) hs) = []" "invoke_ids (map (\<lambda>h. Invoke_cancel h ec) hs) = []"
  by (induction hs) auto

section \<open>Invariant\<close>

text \<open>
  \<open>q_base\<close>: starts, queue and waiting sends are in the order of the calls; a task is completed exactly
  when its handler has been invoked, and then once; a task that is not completed is in flight, queued or
  waiting to be queued; the task in flight has been started and is not completed.
\<close>

definition order :: "queue \<Rightarrow> nat list" where
  "order q = start_ids (q_log q) @ q_queue q @ send_jobs (q_jobs q)"

definition q_base :: "queue \<Rightarrow> bool" where
  "q_base q \<longleftrightarrow>
     \<not> q_fault q \<and> sorted_wrt (<) (order q) \<and> (\<forall>i \<in> set (order q). i < length (q_tasks q))
     \<and> distinct (invoke_ids (q_log q)) \<and> set (invoke_ids (q_log q)) \<subseteq> {..<length (q_tasks q)}
     \<and> (\<forall>i < length (q_tasks q). completed q i \<longleftrightarrow> i \<in> set (invoke_ids (q_log q)))
     \<and> (\<forall>i < length (q_tasks q). \<not> completed q i \<longrightarrow>
          q_current q = Some i \<or> i \<in> set (q_queue q) \<or> i \<in> set (send_jobs (q_jobs q)))
     \<and> (\<forall>i. q_current q = Some i \<longrightarrow> i \<in> set (start_ids (q_log q)) \<and> \<not> completed q i)"

definition q_flight :: "queue \<Rightarrow> bool" where
  "q_flight q \<longleftrightarrow> sent_jobs (q_jobs q) + (if q_inflight q then 1 else 0) = (if q_current q = None then 0 else 1)"

definition q_idle :: "queue \<Rightarrow> bool" where
  "q_idle q \<longleftrightarrow> (q_current q = None \<longrightarrow> q_queue q = [] \<and> q_cancel_handlers q = [])"

definition q_inv :: "queue \<Rightarrow> bool" where
  "q_inv q \<longleftrightarrow> q_base q \<and> q_flight q \<and> q_idle q"

lemma queue_init_inv: "q_inv queue_init"
  by (simp add: queue_init_def q_inv_def q_base_def q_flight_def q_idle_def order_def)

lemma q_base_in: "q_base q \<Longrightarrow> i \<in> set (order q) \<Longrightarrow> i < length (q_tasks q)"
  by (simp add: q_base_def)

subsection \<open>Operations on tasks\<close>

lemma request_cancel_frame [simp]:
  "q_queue (request_cancel i ty q) = q_queue q" "q_current (request_cancel i ty q) = q_current q"
  "q_jobs (request_cancel i ty q) = q_jobs q" "q_inflight (request_cancel i ty q) = q_inflight q"
  "q_cancel_handlers (request_cancel i ty q) = q_cancel_handlers q" "q_fault (request_cancel i ty q) = q_fault q"
  "length (q_tasks (request_cancel i ty q)) = length (q_tasks q)" "q_log (request_cancel i ty q) = q_log q"
  by (simp_all add: request_cancel_def)

lemma completed_request_cancel [simp]: "completed (request_cancel i ty q) j = completed q j"
proof (cases "j = i \<and> i < length (q_tasks q)")
  case False
  then have "q_tasks (request_cancel i ty q) ! j = q_tasks q ! j"
    by (auto simp: request_cancel_def list_update_beyond)
  then show ?thesis by (simp add: completed_def)
qed (auto simp: completed_def request_cancel_def)

lemma request_cancel_base [simp]: "q_base (request_cancel i ty q) = q_base q"
  by (simp add: q_base_def order_def)

lemma emit_base [simp]: "q_base (emit_cancellation i ty q) = q_base q"
  by (simp add: q_base_def order_def emit_cancellation_def completed_def)

lemma emit_frame [simp]:
  "q_queue (emit_cancellation i ty q) = q_queue q" "q_current (emit_cancellation i ty q) = q_current q"
  "q_jobs (emit_cancellation i ty q) = q_jobs q" "q_inflight (emit_cancellation i ty q) = q_inflight q"
  "q_cancel_handlers (emit_cancellation i ty q) = q_cancel_handlers q" "q_tasks (emit_cancellation i ty q) = q_tasks q"
  by (simp_all add: emit_cancellation_def)

lemma completed_task_complete:
  "i < length (q_tasks q) \<Longrightarrow> completed (task_complete i ec q) j = (j = i \<or> completed q j)"
  by (auto simp: completed_def task_complete_def nth_list_update)

lemma log_task_complete:
  "start_ids (q_log (task_complete i ec q)) = start_ids (q_log q)"
  "invoke_ids (q_log (task_complete i ec q)) = invoke_ids (q_log q) @ (if completed q i then [] else [i])"
  by (simp_all add: task_complete_def)

text \<open>Completing a task that is not the one in flight.\<close>

lemma task_complete_base:
  assumes "q_base q" and "i < length (q_tasks q)" and "q_current q \<noteq> Some i"
  shows "q_base (task_complete i ec q)"
  using assms
  by (auto simp: q_base_def order_def completed_task_complete log_task_complete)

lemma task_complete_flight [simp]: "q_flight (task_complete i ec q) = q_flight q"
  by (simp add: q_flight_def)

subsection \<open>Draining and cancelling\<close>

lemma drain_queue_frame [simp]:
  "q_queue (drain_queue ts q) = q_queue q" "q_current (drain_queue ts q) = q_current q"
  "q_jobs (drain_queue ts q) = q_jobs q" "q_inflight (drain_queue ts q) = q_inflight q"
  "q_cancel_handlers (drain_queue ts q) = q_cancel_handlers q" "q_fault (drain_queue ts q) = q_fault q"
  "length (q_tasks (drain_queue ts q)) = length (q_tasks q)"
  by (induction ts q rule: drain_queue.induct) auto

text \<open>While a popped list of tasks is drained, they are accounted for as if still queued.\<close>

lemma drain_queue_base:
  assumes "q_base (q\<lparr>q_queue := ts\<rparr>)" and "\<forall>i \<in> set ts. q_current q \<noteq> Some i" and "q_queue q = []"
  shows "q_base (drain_queue ts q) \<and> (\<forall>i \<in> set ts. completed (drain_queue ts q) i)
    \<and> (\<forall>i < length (q_tasks q). completed q i \<longrightarrow> completed (drain_queue ts q) i)"
  using assms
proof (induction ts arbitrary: q)
  case Nil
  then show ?case by (cases q) simp
next
  case (Cons i ts)
  define q1 where "q1 = task_complete i (io_ec Operation_cancelled) (request_cancel i cancellation_terminal q)"
  have len: "length (q_tasks q1) = length (q_tasks q)" by (simp add: q1_def)
  have i: "i < length (q_tasks q)" using Cons.prems(1) by (auto simp: q_base_def order_def)
  have comp: "completed q1 j = (j = i \<or> completed q j)" for j
    using i by (simp add: q1_def completed_task_complete)
  have upd: "completed (r\<lparr>q_queue := x\<rparr>) j = completed r j" for r x j by (simp add: completed_def)
  have log: "start_ids (q_log q1) = start_ids (q_log q)"
      "invoke_ids (q_log q1) = invoke_ids (q_log q) @ (if completed q i then [] else [i])"
    by (simp_all add: q1_def log_task_complete)
  have "q_base (q1\<lparr>q_queue := ts\<rparr>)"
    using Cons.prems(1,2) i unfolding q_base_def order_def upd comp
    by (auto simp: q1_def log [unfolded q1_def] len [unfolded q1_def] sorted_wrt_append)
  moreover have "\<forall>j \<in> set ts. q_current q1 \<noteq> Some j" "q_queue q1 = []" using Cons.prems by (simp_all add: q1_def)
  ultimately have IH: "q_base (drain_queue ts q1)" "\<forall>j \<in> set ts. completed (drain_queue ts q1) j"
      "\<forall>j < length (q_tasks q1). completed q1 j \<longrightarrow> completed (drain_queue ts q1) j"
    using Cons.IH [of q1] by auto
  have "drain_queue (i # ts) q = drain_queue ts q1" by (simp add: q1_def)
  with IH i comp len show ?case by auto
qed

lemma current_not_queued:
  assumes "q_base q" and "q_current q = Some i"
  shows "i \<notin> set (q_queue q)" and "i \<notin> set (send_jobs (q_jobs q))"
proof -
  have "i \<in> set (start_ids (q_log q))" "sorted_wrt (<) (order q)" using assms by (auto simp: q_base_def)
  then show "i \<notin> set (q_queue q)" "i \<notin> set (send_jobs (q_jobs q))"
    by (auto simp: order_def sorted_wrt_append)
qed

lemma cancel_pending_ok:
  assumes "q_base q"
  shows "q_base (cancel_pending q)" and "q_queue (cancel_pending q) = []"
    and "q_current (cancel_pending q) = q_current q" and "q_jobs (cancel_pending q) = q_jobs q"
    and "q_inflight (cancel_pending q) = q_inflight q" and "q_cancel_handlers (cancel_pending q) = q_cancel_handlers q"
    and "length (q_tasks (cancel_pending q)) = length (q_tasks q)"
    and "i \<in> set (q_queue q) \<Longrightarrow> completed (cancel_pending q) i"
proof -
  define q1 where "q1 = (case q_current q of
      Some i \<Rightarrow> emit_cancellation i cancellation_terminal (request_cancel i cancellation_terminal q) | None \<Rightarrow> q)"
  have f: "q_queue q1 = q_queue q" "q_current q1 = q_current q" "q_jobs q1 = q_jobs q" "q_inflight q1 = q_inflight q"
      "q_cancel_handlers q1 = q_cancel_handlers q" "length (q_tasks q1) = length (q_tasks q)" "q_base q1"
    using assms by (auto simp: q1_def split: option.splits)
  have eq: "cancel_pending q = drain_queue (q_queue q) (q1\<lparr>q_queue := []\<rparr>)"
    by (simp add: cancel_pending_def q1_def [symmetric] f)
  have "q_base ((q1\<lparr>q_queue := []\<rparr>)\<lparr>q_queue := q_queue q\<rparr>)" using f(1,7) by (cases q1) simp
  moreover have "\<forall>i \<in> set (q_queue q). q_current (q1\<lparr>q_queue := []\<rparr>) \<noteq> Some i"
    using f(2) current_not_queued(1) [OF assms] by auto
  ultimately have d: "q_base (cancel_pending q)" "\<forall>i \<in> set (q_queue q). completed (cancel_pending q) i"
    using drain_queue_base [where q = "q1\<lparr>q_queue := []\<rparr>" and ts = "q_queue q"] unfolding eq by auto
  then show "q_base (cancel_pending q)" "i \<in> set (q_queue q) \<Longrightarrow> completed (cancel_pending q) i" by auto
  show "q_queue (cancel_pending q) = []" "q_current (cancel_pending q) = q_current q" "q_jobs (cancel_pending q) = q_jobs q"
      "q_inflight (cancel_pending q) = q_inflight q" "q_cancel_handlers (cancel_pending q) = q_cancel_handlers q"
      "length (q_tasks (cancel_pending q)) = length (q_tasks q)"
    by (simp_all add: eq f)
qed

lemma complete_cancel_base [simp]: "q_base (complete_cancel_handlers q) = q_base q"
  by (simp add: complete_cancel_handlers_def q_base_def order_def completed_def)

lemma complete_cancel_frame [simp]:
  "q_queue (complete_cancel_handlers q) = q_queue q" "q_current (complete_cancel_handlers q) = q_current q"
  "q_jobs (complete_cancel_handlers q) = q_jobs q" "q_inflight (complete_cancel_handlers q) = q_inflight q"
  "q_tasks (complete_cancel_handlers q) = q_tasks q"
  "q_current q = None \<Longrightarrow> q_cancel_handlers (complete_cancel_handlers q) = []"
  by (simp_all add: complete_cancel_handlers_def)

subsection \<open>Starting tasks\<close>

lemma process_start: "\<not> completed q i \<Longrightarrow> \<not> cancelled q i \<Longrightarrow> process i q = start_task i q"
  by (simp add: process.simps)

text \<open>A task that is next in order and not completed is started when nothing is in flight.\<close>

lemma start_task_inv:
  assumes "q_base (q\<lparr>q_queue := i # q_queue q\<rparr>)" and "q_flight q" and "q_current q = None" and "\<not> completed q i"
  shows "q_inv (start_task i q)"
  using assms unfolding q_inv_def q_base_def q_flight_def q_idle_def order_def start_task_def completed_def
  by (auto simp: sorted_wrt_append split: if_splits)

lemma process_next_inv:
  assumes "q_base q" and "q_flight q" and "q_current q = None" and "q_cancel_handlers q = []"
  shows "q_inv (process_next q)"
  using assms
proof (induction "length (q_queue q)" arbitrary: q rule: less_induct)
  case less
  show ?case
  proof (cases "q_queue q")
    case Nil
    with less.prems show ?thesis by (simp add: process_next.simps q_inv_def q_idle_def)
  next
    case (Cons i ts)
    define q1 where "q1 = q\<lparr>q_queue := ts\<rparr>"
    have q: "q = q1\<lparr>q_queue := i # q_queue q1\<rparr>" using Cons by (cases q) (simp add: q1_def)
    have fr: "q_flight q1" "q_current q1 = None" "q_cancel_handlers q1 = []" "length (q_queue q1) < length (q_queue q)"
      using less.prems Cons by (simp_all add: q1_def q_flight_def)
    have i: "i < length (q_tasks q1)" using less.prems(1) Cons by (auto simp: q1_def q_base_def order_def)
    have comp: "completed q1 j = completed q j" for j by (simp add: q1_def completed_def)
    have base: "q_base q1" if "completed q1 i"
      using less.prems(1) Cons that unfolding q_base_def order_def comp [symmetric]
      by (auto simp: q1_def sorted_wrt_append)
    have eq: "process_next q = (if completed q1 i then process_next q1
        else if cancelled q1 i then process_next (task_complete i (io_ec Operation_cancelled) q1) else process i q1)"
      by (subst process_next.simps) (simp add: Cons q1_def Let_def)
    consider "completed q1 i" | "\<not> completed q1 i" "cancelled q1 i" | "\<not> completed q1 i" "\<not> cancelled q1 i" by blast
    then show ?thesis
    proof cases
      case 1
      with less.hyps [OF fr(4) base fr(1-3)] eq show ?thesis by simp
    next
      case 2
      define q2 where "q2 = task_complete i (io_ec Operation_cancelled) q"
      have "q_base q2" unfolding q2_def using less.prems(1,3) i by (intro task_complete_base) (auto simp: q1_def)
      moreover have t: "task_complete i (io_ec Operation_cancelled) q1 = q2\<lparr>q_queue := ts\<rparr>"
        using 2 by (simp add: q2_def task_complete_def q1_def completed_def)
      moreover have "completed q2 i" "q_queue q2 = i # ts"
        using i by (simp_all add: q2_def q1_def completed_task_complete Cons)
      ultimately have "q_base (q2\<lparr>q_queue := ts\<rparr>)"
        unfolding q_base_def order_def completed_def by (auto simp: sorted_wrt_append)
      then have "q_inv (process_next (task_complete i (io_ec Operation_cancelled) q1))"
        using fr unfolding t [symmetric] by (intro less.hyps) simp_all
      with 2 eq show ?thesis by simp
    next
      case 3
      with start_task_inv [where q = q1 and i = i] less.prems(1) fr(1,2) q eq show ?thesis by (simp add: process_start)
    qed
  qed
qed

subsection \<open>Jobs\<close>

text \<open>The state from which a job runs: it has been taken from the strand.\<close>

lemma send_inv:
  assumes inv: "q_inv q" and j: "q_jobs q = J_send i # js"
  shows "q_inv (send i (q\<lparr>q_jobs := js\<rparr>))"
proof -
  define q1 where "q1 = q\<lparr>q_jobs := js\<rparr>"
  have comp: "completed q1 k = completed q k" for k by (simp add: q1_def completed_def)
  have b: "q_base q" "q_flight q" "q_idle q" using inv by (auto simp: q_inv_def)
  have i: "i < length (q_tasks q1)" using b(1) j by (auto simp: q_base_def order_def q1_def)
  have cur: "q_current q1 \<noteq> Some i" using current_not_queued(2) [OF b(1), of i] j by (auto simp: q1_def)
  have rest: "q_flight q1" "q_idle q1" using b(2,3) j by (auto simp: q1_def q_flight_def q_idle_def)
  have base: "q_base q1" if "completed q1 i"
    using b(1) that j unfolding q_base_def order_def comp [symmetric] by (auto simp: q1_def sorted_wrt_append)
  have base2: "q_base (task_complete i ec q1)" for ec
  proof (cases "completed q1 i")
    case True
    with base show ?thesis by (simp add: task_complete_def)
  next
    case False
    have "q_base (task_complete i ec q)"
      using task_complete_base [OF b(1)] i cur by (simp add: q1_def)
    moreover have "task_complete i ec q1 = (task_complete i ec q)\<lparr>q_jobs := js\<rparr>"
      using False by (simp add: task_complete_def q1_def completed_def)
    moreover have "completed (task_complete i ec q) i" using i by (simp add: completed_task_complete q1_def)
    ultimately show ?thesis using j unfolding q_base_def order_def completed_def by (auto simp: sorted_wrt_append)
  qed
  consider "completed q1 i" | "\<not> completed q1 i" "cancelled q1 i"
    | "\<not> completed q1 i" "\<not> cancelled q1 i" "q_current q1 = None"
    | "\<not> completed q1 i" "\<not> cancelled q1 i" "q_current q1 \<noteq> None" by blast
  then have "q_inv (send i q1)"
  proof cases
    case 1
    with base rest show ?thesis by (simp add: send_def q_inv_def)
  next
    case 2
    with base2 rest show ?thesis by (simp add: send_def q_inv_def q_idle_def)
  next
    case 3
    then have "q_queue q1 = []" using rest(2) by (simp add: q_idle_def)
    then have "q_base (q1\<lparr>q_queue := i # q_queue q1\<rparr>)"
      using b(1) j unfolding q_base_def order_def completed_def by (auto simp: q1_def)
    with start_task_inv [where q = q1 and i = i] rest 3 show ?thesis by (simp add: send_def process_start)
  next
    case 4
    have "q_base (q1\<lparr>q_queue := q_queue q1 @ [i]\<rparr>)"
      using b(1) j unfolding q_base_def order_def completed_def by (auto simp: q1_def)
    moreover have "send i q1 = q1\<lparr>q_queue := q_queue q1 @ [i]\<rparr>" using 4 by (auto simp: send_def)
    ultimately show ?thesis using 4 rest by (auto simp: q_inv_def q_flight_def q_idle_def)
  qed
  then show ?thesis by (simp add: q1_def)
qed

lemma drop_job_inv:
  assumes "q_inv q" and "q_jobs q = j # js" and "send_jobs [j] = []" and "sent_jobs [j] = 0"
  shows "q_inv (q\<lparr>q_jobs := js\<rparr>)"
proof -
  have "send_jobs (q_jobs q) = send_jobs js" "sent_jobs (q_jobs q) = sent_jobs js"
    using assms(2-4) send_jobs_append [of "[j]" js] sent_jobs_append [of "[j]" js] by auto
  with assms(1) show ?thesis
    unfolding q_inv_def q_base_def order_def q_flight_def q_idle_def completed_def by auto
qed

lemma cancel_inv: "q_inv q \<Longrightarrow> q_inv (cancel_internal q)"
  using cancel_pending_ok [of q] by (simp add: q_inv_def cancel_internal_def q_flight_def q_idle_def)

lemma cancel_handler_inv: "q_inv q \<Longrightarrow> q_inv (cancel_internal_handler h q)"
proof -
  assume "q_inv q"
  moreover define q1 where "q1 = q\<lparr>q_cancel_handlers := q_cancel_handlers q @ [h]\<rparr>"
  ultimately have "q_base q1" "q_flight q1"
    by (auto simp: q_inv_def q_base_def order_def completed_def q_flight_def)
  with cancel_pending_ok [of q1] show ?thesis
    by (simp add: q_inv_def cancel_internal_handler_def q1_def [symmetric] q_flight_def q_idle_def)
qed

lemma on_task_cancel_inv: "q_inv q \<Longrightarrow> i < length (q_tasks q) \<Longrightarrow> q_inv (on_task_cancel i ty q)"
  using task_complete_base [of q i "io_ec Operation_cancelled"]
  by (simp add: on_task_cancel_def q_inv_def q_flight_def q_idle_def)

lemma on_send_inv:
  assumes inv: "q_inv q" and j: "q_jobs q = J_on_send ec # js"
  shows "q_inv (on_send ec (q\<lparr>q_jobs := js\<rparr>))"
proof -
  have b: "q_base q" "q_flight q" using inv by (auto simp: q_inv_def)
  then obtain i where i: "q_current q = Some i" using j by (auto simp: q_flight_def split: if_splits)
  have fl: "sent_jobs js = 0" "\<not> q_inflight q" using b(2) j i by (auto simp: q_flight_def split: if_splits)
  define q2 where "q2 = (task_complete i ec (q\<lparr>q_jobs := js\<rparr>))\<lparr>q_current := None\<rparr>"
  have s: "i \<in> set (start_ids (q_log q))" "\<not> completed q i" "i < length (q_tasks q)"
    using b(1) i by (auto simp: q_base_def order_def)
  have q2: "q2 = q\<lparr>q_jobs := js, q_current := None, q_tasks := (q_tasks q)[i := (task_of q i)\<lparr>t_completed := True\<rparr>],
      q_log := q_log q @ [Invoke i ec]\<rparr>"
    using s(2) by (simp add: q2_def task_complete_def completed_def)
  have comp: "completed q2 k = (k = i \<or> completed q k)" for k
    using s(3) by (auto simp: q2 completed_def nth_list_update)
  have "q_base q2"
    using b(1) s j i unfolding q_base_def order_def comp by (auto simp: q2)
  moreover have "q_flight q2" using fl by (simp add: q2 q_flight_def)
  moreover have "on_send ec (q\<lparr>q_jobs := js\<rparr>) = process_next (complete_cancel_handlers q2)"
    using i by (simp add: on_send_def q2_def)
  ultimately show ?thesis
    by (simp add: q2) (intro process_next_inv, simp_all add: q_flight_def)
qed

subsection \<open>Every event keeps the invariant\<close>

text \<open>Jobs only name tasks that exist.\<close>

definition jobs_wf :: "queue \<Rightarrow> bool" where
  "jobs_wf q \<longleftrightarrow> (\<forall>i ty. J_on_task_cancel i ty \<in> set (q_jobs q) \<longrightarrow> i < length (q_tasks q))"

definition queue_inv :: "queue \<Rightarrow> bool" where
  "queue_inv q \<longleftrightarrow> q_inv q \<and> jobs_wf q"

text \<open>What every strand function does: it only appends to the log, and starts a task with its own buffer.\<close>

definition grows :: "queue \<Rightarrow> queue \<Rightarrow> bool" where
  "grows q q' \<longleftrightarrow> q_jobs q' = q_jobs q \<and> map t_buffer (q_tasks q') = map t_buffer (q_tasks q)
     \<and> (\<exists>as. q_log q' = q_log q @ as
           \<and> (\<forall>i b. Start i b \<in> set as \<and> i < length (q_tasks q) \<longrightarrow> b = t_buffer (task_of q i)))"

lemma grows_length: "grows q q' \<Longrightarrow> length (q_tasks q') = length (q_tasks q)"
  unfolding grows_def by (metis length_map)

lemma buffers_nth: "map t_buffer xs = map t_buffer ys \<Longrightarrow> i < length ys \<Longrightarrow> t_buffer (xs ! i) = t_buffer (ys ! i)"
  by (metis length_map nth_map)

lemma grows_trans: "grows a b \<Longrightarrow> grows b c \<Longrightarrow> grows a c"
proof -
  assume ab: "grows a b" and bc: "grows b c"
  obtain xs ys where x: "q_log b = q_log a @ xs" "\<forall>i t. Start i t \<in> set xs \<and> i < length (q_tasks a) \<longrightarrow> t = t_buffer (task_of a i)"
      and y: "q_log c = q_log b @ ys" "\<forall>i t. Start i t \<in> set ys \<and> i < length (q_tasks b) \<longrightarrow> t = t_buffer (task_of b i)"
    using ab bc unfolding grows_def by blast
  have m: "map t_buffer (q_tasks b) = map t_buffer (q_tasks a)" using ab by (simp add: grows_def)
  have "\<forall>i t. Start i t \<in> set (xs @ ys) \<and> i < length (q_tasks a) \<longrightarrow> t = t_buffer (task_of a i)"
    using x(2) y(2) grows_length [OF ab] buffers_nth [OF m] by auto
  with x(1) y(1) ab bc show ?thesis unfolding grows_def by auto
qed

lemma grows_basic:
  "grows q q" "grows q (task_complete i ec q)" "grows q (request_cancel i ty q)" "grows q (emit_cancellation i ty q)"
  "grows q (complete_cancel_handlers q)" "grows q (start_task i q)"
  by (auto simp: grows_def task_complete_def emit_cancellation_def complete_cancel_handlers_def start_task_def
      request_cancel_def map_update_same)

lemma grows_update: "grows (q\<lparr>q_current := c\<rparr>) r = grows q r" "grows (q\<lparr>q_queue := x\<rparr>) r = grows q r"
  "grows (q\<lparr>q_cancel_handlers := h\<rparr>) r = grows q r" "grows q (r\<lparr>q_current := c\<rparr>) = grows q r"
  "grows q (r\<lparr>q_queue := x\<rparr>) = grows q r" "grows q (r\<lparr>q_fault := f\<rparr>) = grows q r"
  by (simp_all add: grows_def)

lemma grows_process: "grows q (process i q)" "grows r (process_next r)"
proof (induction i q and r rule: process_process_next.induct)
  case (1 i q)
  let ?c = "task_complete i (io_ec Operation_cancelled) q"
  consider "completed q i" | "\<not> completed q i" "cancelled q i" | "\<not> completed q i" "\<not> cancelled q i" by blast
  then show ?case
  proof cases
    case 2
    then have "process i q = process_next ?c" by (simp add: process.simps [of i q])
    with 1(2) [OF 2] grows_trans [OF grows_basic(2)] show ?thesis by metis
  qed (use 1(1) grows_basic(6) in \<open>simp_all add: process.simps [of i q]\<close>)
next
  case (2 q)
  show ?case
  proof (cases "q_queue q")
    case Nil
    then show ?thesis by (simp add: process_next.simps [of q] grows_basic)
  next
    case (Cons i ts)
    define q1 where "q1 = q\<lparr>q_queue := ts\<rparr>"
    note IH = 2 [OF Cons q1_def]
    let ?c = "task_complete i (io_ec Operation_cancelled) q1"
    have eq: "process_next q = (if completed q1 i then process_next q1
        else if cancelled q1 i then process_next ?c else process i q1)"
      by (simp add: process_next.simps [of q] Cons q1_def Let_def)
    have "grows q1 (process_next q)"
    proof (cases "\<not> completed q1 i \<and> cancelled q1 i")
      case True
      then have "grows ?c (process_next ?c)" using IH(2) by blast
      with True eq grows_trans [OF grows_basic(2)] show ?thesis by metis
    qed (use IH(1,3) eq in auto)
    then show ?thesis by (simp add: q1_def grows_update)
  qed
qed

lemma grows_drain: "grows q (drain_queue ts q)"
proof (induction ts q rule: drain_queue.induct)
  case (2 i ts q)
  then show ?case using grows_basic(2,3) grows_trans by (metis drain_queue.simps(2))
qed (simp add: grows_basic)

lemma grows_cancel_pending: "grows q (cancel_pending q)"
proof -
  define q1 where "q1 = (case q_current q of
      Some i \<Rightarrow> emit_cancellation i cancellation_terminal (request_cancel i cancellation_terminal q) | None \<Rightarrow> q)"
  have "grows q q1" unfolding q1_def using grows_basic(1,3,4) grows_trans by (auto split: option.splits) blast
  moreover have "cancel_pending q = drain_queue (q_queue q1) (q1\<lparr>q_queue := []\<rparr>)"
    by (simp add: cancel_pending_def q1_def Let_def)
  ultimately show ?thesis using grows_drain [of "q1\<lparr>q_queue := []\<rparr>" "q_queue q1"] grows_trans by (simp add: grows_update)
qed

lemma grows_job: "grows q (run_job j q)"
proof (cases j)
  case (J_send i)
  then show ?thesis by (auto simp: send_def grows_basic grows_process grows_update)
next
  case J_cancel
  then show ?thesis by (simp add: cancel_internal_def grows_cancel_pending)
next
  case (J_async_cancel h)
  show ?thesis
    using grows_trans [OF grows_cancel_pending [of "q\<lparr>q_cancel_handlers := q_cancel_handlers q @ [h]\<rparr>"] grows_basic(5)] J_async_cancel
    by (simp add: cancel_internal_handler_def grows_update)
next
  case (J_on_task_cancel i ty)
  then show ?thesis by (auto simp: on_task_cancel_def grows_basic)
next
  case (J_on_send ec)
  show ?thesis
  proof (cases "q_current q")
    case (Some i)
    have "grows q (complete_cancel_handlers ((task_complete i ec q)\<lparr>q_current := None\<rparr>))"
      using grows_trans [OF grows_basic(2) [of q i ec]] grows_basic(5) [of "(task_complete i ec q)\<lparr>q_current := None\<rparr>"]
      by (simp add: grows_update)
    with Some J_on_send grows_trans grows_process(2) show ?thesis by (simp add: on_send_def)
  qed (use J_on_send in \<open>simp add: on_send_def grows_update grows_basic\<close>)
qed

lemma strand_run_inv:
  assumes "queue_inv q"
  shows "queue_inv (strand_run q)"
proof (cases "q_jobs q")
  case Nil
  with assms show ?thesis by (simp add: strand_run_def)
next
  case (Cons j js)
  have inv: "q_inv q" and wf: "jobs_wf q" using assms by (auto simp: queue_inv_def)
  note drop = drop_job_inv [OF inv Cons]
  have "q_inv (run_job j (q\<lparr>q_jobs := js\<rparr>))"
  proof (cases j)
    case (J_send i)
    with send_inv [OF inv] Cons show ?thesis by simp
  next
    case J_cancel
    with drop cancel_inv show ?thesis by simp
  next
    case (J_async_cancel h)
    with drop cancel_handler_inv show ?thesis by simp
  next
    case (J_on_task_cancel i ty)
    moreover have "i < length (q_tasks q)" using wf Cons J_on_task_cancel by (auto simp: jobs_wf_def)
    ultimately show ?thesis using drop on_task_cancel_inv [of "q\<lparr>q_jobs := js\<rparr>" i ty] by simp
  next
    case (J_on_send ec)
    with on_send_inv [OF inv] Cons show ?thesis by simp
  qed
  moreover have "jobs_wf (run_job j (q\<lparr>q_jobs := js\<rparr>))"
    using wf Cons grows_job [of "q\<lparr>q_jobs := js\<rparr>" j] grows_length [OF grows_job [of "q\<lparr>q_jobs := js\<rparr>" j]]
    by (auto simp: jobs_wf_def grows_def)
  ultimately show ?thesis using Cons by (simp add: strand_run_def queue_inv_def)
qed

lemma post_inv:
  assumes "queue_inv q" and "send_jobs [j] = []" and "sent_jobs [j] = 0"
    and "\<And>i ty. j = J_on_task_cancel i ty \<Longrightarrow> i < length (q_tasks q)"
  shows "queue_inv (post j q)"
  using assms unfolding queue_inv_def q_inv_def q_base_def order_def q_flight_def q_idle_def completed_def jobs_wf_def post_def
  by auto

lemma queue_async_send_inv:
  assumes "queue_inv q"
  shows "queue_inv (queue_async_send b sl q)"
proof -
  define q' where "q' = queue_async_send b sl q"
  let ?n = "length (q_tasks q)"
  have f: "length (q_tasks q') = Suc ?n" "q_log q' = q_log q" "q_queue q' = q_queue q" "q_current q' = q_current q"
      "send_jobs (q_jobs q') = send_jobs (q_jobs q) @ [?n]" "sent_jobs (q_jobs q') = sent_jobs (q_jobs q)"
      "q_inflight q' = q_inflight q" "q_fault q' = q_fault q" "q_cancel_handlers q' = q_cancel_handlers q"
    by (simp_all add: q'_def queue_async_send_def post_def)
  have comp: "completed q' i = (i < ?n \<and> completed q i)" if "i < Suc ?n" for i
    using that by (auto simp: q'_def queue_async_send_def post_def completed_def nth_append less_Suc_eq)
  have b: "q_base q" "q_flight q" "q_idle q" "jobs_wf q" using assms by (auto simp: queue_inv_def q_inv_def)
  have ord: "order q' = order q @ [?n]" by (simp add: order_def f)
  have "q_base q'" unfolding q_base_def
  proof (intro conjI)
    show "\<not> q_fault q'" "distinct (invoke_ids (q_log q'))" using b(1) f by (auto simp: q_base_def)
    show "sorted_wrt (<) (order q')" "\<forall>i \<in> set (order q'). i < length (q_tasks q')"
      using b(1) f by (auto simp: ord q_base_def sorted_wrt_append)
    have sub: "set (invoke_ids (q_log q)) \<subseteq> {..<?n}" using b(1) by (simp add: q_base_def)
    then show "set (invoke_ids (q_log q')) \<subseteq> {..<length (q_tasks q')}" using f by auto
    show "\<forall>i < length (q_tasks q'). completed q' i \<longleftrightarrow> i \<in> set (invoke_ids (q_log q'))"
      using b(1) f comp sub by (auto simp: q_base_def less_Suc_eq)
    show "\<forall>i < length (q_tasks q'). \<not> completed q' i \<longrightarrow>
        q_current q' = Some i \<or> i \<in> set (q_queue q') \<or> i \<in> set (send_jobs (q_jobs q'))"
      using b(1) f comp by (auto simp: q_base_def less_Suc_eq)
    show "\<forall>i. q_current q' = Some i \<longrightarrow> i \<in> set (start_ids (q_log q')) \<and> \<not> completed q' i"
    proof (intro allI impI)
      fix i assume "q_current q' = Some i"
      then have "i \<in> set (start_ids (q_log q))" "\<not> completed q i" "i < ?n" using b(1) f by (auto simp: q_base_def order_def)
      then show "i \<in> set (start_ids (q_log q')) \<and> \<not> completed q' i" using f(2) comp [of i] by simp
    qed
  qed
  moreover have "q_flight q'" "q_idle q'" using b(2,3) f by (auto simp: q_flight_def q_idle_def)
  moreover have "jobs_wf q'" using b(4) by (auto simp: jobs_wf_def q'_def queue_async_send_def post_def less_Suc_eq)
  ultimately show ?thesis by (simp add: queue_inv_def q_inv_def q'_def)
qed

lemma slot_fires_inv: "queue_inv q \<Longrightarrow> queue_inv (slot_fires i ty q)"
proof -
  assume q: "queue_inv q"
  then have "queue_inv (request_cancel i ty q)"
    by (simp add: queue_inv_def q_inv_def q_flight_def q_idle_def jobs_wf_def)
  with q show ?thesis by (auto simp: slot_fires_def intro!: post_inv)
qed

lemma transport_sent_inv: "queue_inv q \<Longrightarrow> queue_inv (transport_sent ec q)"
  unfolding queue_inv_def q_inv_def q_base_def order_def q_flight_def q_idle_def completed_def jobs_wf_def
    transport_sent_def post_def
  by (auto split: if_splits)

lemma queue_step_inv: "queue_inv q \<Longrightarrow> queue_inv (queue_step e q)"
  by (cases e) (auto simp: queue_async_send_inv queue_cancel_def queue_async_cancel_def slot_fires_inv
      transport_sent_inv strand_run_inv intro!: post_inv)

lemma queue_step_log: "\<exists>as. q_log (queue_step e q) = q_log q @ as"
proof (cases e)
  case E_run
  show ?thesis
  proof (cases "q_jobs q")
    case (Cons j js)
    from grows_job [of "q\<lparr>q_jobs := js\<rparr>" j] show ?thesis by (auto simp: E_run strand_run_def Cons grows_def)
  qed (simp add: E_run strand_run_def)
qed (auto simp: queue_async_send_def queue_cancel_def queue_async_cancel_def slot_fires_def transport_sent_def post_def)

interpretation sendq: logged_machine queue_step queue_inv q_log
  by unfold_locales (simp_all add: queue_step_inv queue_step_log)

lemma queue_init_queue_inv: "queue_inv queue_init"
  by (simp add: queue_inv_def queue_init_inv jobs_wf_def) (simp add: queue_init_def)

lemma reachable_inv: "queue_inv (fold queue_step es queue_init)"
  by (rule sendq.run_inv [OF queue_init_queue_inv])

section \<open>What reaches the transport\<close>

fun sent_buffers :: "qevent list \<Rightarrow> byte list list" where
  "sent_buffers [] = []"
| "sent_buffers (E_send b sl # es) = b # sent_buffers es"
| "sent_buffers (e # es) = sent_buffers es"

fun started_buffers :: "qaction list \<Rightarrow> byte list list" where
  "started_buffers [] = []"
| "started_buffers (Start i b # as) = b # started_buffers as"
| "started_buffers (a # as) = started_buffers as"

lemma sent_buffers_append [simp]: "sent_buffers (xs @ ys) = sent_buffers xs @ sent_buffers ys"
  by (induction xs rule: sent_buffers.induct) auto

definition starts_own :: "queue \<Rightarrow> bool" where
  "starts_own q \<longleftrightarrow> (\<forall>i b. Start i b \<in> set (q_log q) \<longrightarrow> i < length (q_tasks q) \<longrightarrow> b = t_buffer (task_of q i))"

lemma start_id_in: "Start i b \<in> set as \<Longrightarrow> i \<in> set (start_ids as)"
  by (induction as rule: start_ids.induct) auto

lemma step_buffers: "map t_buffer (q_tasks (queue_step e q)) = map t_buffer (q_tasks q) @ sent_buffers [e]"
proof (cases e)
  case E_run
  show ?thesis
  proof (cases "q_jobs q")
    case (Cons j js)
    from grows_job [of "q\<lparr>q_jobs := js\<rparr>" j] show ?thesis by (simp add: E_run strand_run_def Cons grows_def)
  qed (simp add: E_run strand_run_def)
qed (auto simp: queue_async_send_def queue_cancel_def queue_async_cancel_def slot_fires_def transport_sent_def post_def
    request_cancel_def map_update_same)

lemma step_starts_own:
  assumes "queue_inv q" and "starts_own q"
  shows "starts_own (queue_step e q)"
proof -
  have ids: "i < length (q_tasks q)" if "Start i b \<in> set (q_log q)" for i b
    using start_id_in [OF that] assms(1) by (auto simp: queue_inv_def q_inv_def q_base_def order_def)
  have old: "b = t_buffer (q_tasks (queue_step e q) ! i)" if "Start i b \<in> set (q_log q)" for i b
  proof -
    have "t_buffer (q_tasks (queue_step e q) ! i) = map t_buffer (q_tasks (queue_step e q)) ! i"
      using step_buffers [of e q] ids [OF that] by (metis length_append length_map nth_map trans_less_add1)
    also have "\<dots> = t_buffer (task_of q i)" using ids [OF that] by (simp add: step_buffers nth_append)
    finally show ?thesis using assms(2) that ids [OF that] by (simp add: starts_own_def)
  qed
  show ?thesis
  proof (cases "e = E_run \<and> q_jobs q \<noteq> []")
    case False
    then have "q_log (queue_step e q) = q_log q"
      by (cases e) (auto simp: queue_async_send_def queue_cancel_def queue_async_cancel_def slot_fires_def
          transport_sent_def post_def strand_run_def)
    with old show ?thesis by (simp add: starts_own_def)
  next
    case True
    then obtain j js where j: "q_jobs q = j # js" "e = E_run" by (cases "q_jobs q") auto
    define r where "r = run_job j (q\<lparr>q_jobs := js\<rparr>)"
    have g: "grows (q\<lparr>q_jobs := js\<rparr>) r" unfolding r_def by (rule grows_job)
    have r: "queue_step e q = r" using j by (simp add: strand_run_def r_def)
    obtain as where as: "q_log r = q_log q @ as" "\<And>i b. Start i b \<in> set as \<Longrightarrow> i < length (q_tasks q) \<Longrightarrow> b = t_buffer (task_of q i)"
      and m: "map t_buffer (q_tasks r) = map t_buffer (q_tasks q)"
      using g unfolding grows_def by auto
    have len: "length (q_tasks r) = length (q_tasks q)" using grows_length [OF g] by simp
    show ?thesis unfolding r starts_own_def
    proof (intro allI impI)
      fix i b assume s: "Start i b \<in> set (q_log r)" and i: "i < length (q_tasks r)"
      from s as(1) consider "Start i b \<in> set (q_log q)" | "Start i b \<in> set as" by auto
      then show "b = t_buffer (task_of r i)"
      proof cases
        case 1
        with old r show ?thesis by simp
      next
        case 2
        with as(2) i len buffers_nth [OF m] show ?thesis by simp
      qed
    qed
  qed
qed

lemma reachable_buffers:
  "map t_buffer (q_tasks (fold queue_step es queue_init)) = sent_buffers es
   \<and> starts_own (fold queue_step es queue_init)"
proof (induction es rule: rev_induct)
  case Nil
  then show ?case by (simp add: queue_init_def starts_own_def)
next
  case (snoc e es)
  then show ?case using step_buffers step_starts_own [OF reachable_inv] by simp
qed

lemma subseq_nth:
  "sorted_wrt (<) ks \<Longrightarrow> \<forall>i \<in> set ks. i < length xs \<Longrightarrow> subseq (map ((!) xs) ks) xs"
proof (induction xs arbitrary: ks rule: rev_induct)
  case (snoc x xs)
  show ?case
  proof (cases "ks \<noteq> [] \<and> last ks = length xs")
    case True
    define js where "js = butlast ks"
    have ks: "ks = js @ [length xs]" using True append_butlast_last_id [of ks] by (simp add: js_def)
    then have "sorted_wrt (<) js" "\<forall>i \<in> set js. i < length xs" using snoc.prems(1) by (auto simp: sorted_wrt_append)
    with snoc.IH [of js] have "subseq (map ((!) xs) js @ [x]) (xs @ [x])" by (simp add: list_emb_append_mono)
    moreover have "map ((!) (xs @ [x])) ks = map ((!) xs) js @ [x]"
      using \<open>\<forall>i \<in> set js. i < length xs\<close> by (simp add: ks nth_append)
    ultimately show ?thesis by simp
  next
    case False
    have "\<forall>i \<in> set ks. i < length xs"
    proof
      fix i assume i: "i \<in> set ks"
      then have "i \<le> last ks"
        using snoc.prems(1) by (metis append_butlast_last_id in_set_butlastD in_set_conv_decomp_last
            last_snoc less_imp_le order.refl rotate1.simps set_ConsD set_rotate1 sorted_wrt_append
            empty_iff list.set(1) list.set_intros(1))
      moreover have "ks \<noteq> []" using i by auto
      then have "last ks < length xs" using False snoc.prems(2) last_in_set [of ks] by (auto simp: less_Suc_eq)
      ultimately show "i < length xs" by simp
    qed
    with snoc.IH [OF snoc.prems(1)] have "subseq (map ((!) xs) ks) xs" by blast
    moreover have "map ((!) (xs @ [x])) ks = map ((!) xs) ks"
      using \<open>\<forall>i \<in> set ks. i < length xs\<close> by (simp add: nth_append)
    ultimately show ?thesis by (metis list_emb_append2 append_Nil2 list_emb_append_mono list_emb_Nil)
  qed
qed simp

lemma started_buffers_map:
  assumes "\<And>i b. Start i b \<in> set as \<Longrightarrow> b = f i"
  shows "started_buffers as = map f (start_ids as)"
  using assms by (induction as rule: start_ids.induct) auto

lemma reachable_wire: "subseq (started_buffers (q_log (fold queue_step es queue_init))) (sent_buffers es)"
proof -
  define q where "q = fold queue_step es queue_init"
  have inv: "queue_inv q" unfolding q_def by (rule reachable_inv)
  have buf: "map t_buffer (q_tasks q) = sent_buffers es" "starts_own q" using reachable_buffers [of es] by (auto simp: q_def)
  have ids: "sorted_wrt (<) (start_ids (q_log q))" "\<forall>i \<in> set (start_ids (q_log q)). i < length (q_tasks q)"
    using inv by (auto simp: queue_inv_def q_inv_def q_base_def order_def sorted_wrt_append)
  have len: "length (sent_buffers es) = length (q_tasks q)" using buf(1) by (metis length_map)
  have "started_buffers (q_log q) = map ((!) (sent_buffers es)) (start_ids (q_log q))"
  proof (rule started_buffers_map)
    fix i b assume s: "Start i b \<in> set (q_log q)"
    with ids(2) start_id_in have i: "i < length (q_tasks q)" by blast
    with s buf(2) have "b = t_buffer (task_of q i)" by (simp add: starts_own_def)
    with i buf(1) show "b = sent_buffers es ! i" by (metis nth_map)
  qed
  moreover have "subseq (map ((!) (sent_buffers es)) (start_ids (q_log q))) (sent_buffers es)"
    using ids(2) by (intro subseq_nth [OF ids(1)]) (simp add: len)
  ultimately show ?thesis by (simp add: q_def)
qed

section \<open>Properties\<close>

text \<open>
  C6: the order on the wire. For every sequence of calls, cancellations, transport completions and
  strand runs, the buffers handed to the transport are a subsequence of the buffers given to
  \<open>async_send\<close>, in the order of the calls; every operation started before has been answered to its
  handler, except the one in flight; and \<open>on_send\<close> never finds a null task.
\<close>

theorem queue_wire_order:
  "subseq (started_buffers (q_log (fold queue_step es queue_init))) (sent_buffers es)
   \<and> sorted_wrt (<) (start_ids (q_log (fold queue_step es queue_init)))
   \<and> set (start_ids (q_log (fold queue_step es queue_init)))
       \<subseteq> set (invoke_ids (q_log (fold queue_step es queue_init))) \<union> set_option (q_current (fold queue_step es queue_init))
   \<and> \<not> q_fault (fold queue_step es queue_init)"
proof -
  define q where "q = fold queue_step es queue_init"
  have b: "q_base q" using reachable_inv [of es] by (simp add: q_def queue_inv_def q_inv_def)
  have "i \<in> set (invoke_ids (q_log q)) \<union> set_option (q_current q)" if "i \<in> set (start_ids (q_log q))" for i
  proof -
    have "i < length (q_tasks q)" "i \<notin> set (q_queue q)" "i \<notin> set (send_jobs (q_jobs q))"
      using b that by (auto simp: q_base_def order_def sorted_wrt_append)
    with b show ?thesis by (auto simp: q_base_def)
  qed
  moreover have "sorted_wrt (<) (start_ids (q_log q))" "\<not> q_fault q"
    using b by (auto simp: q_base_def order_def sorted_wrt_append)
  ultimately show ?thesis using reachable_wire [of es] unfolding q_def by blast
qed

text \<open>
  Handlers are answered once and for all. In every run each completion handler of a send is
  invoked at most once, only for a send that was requested, and what a prefix of the run has invoked
  stays invoked.
\<close>

theorem queue_handlers_once:
  "distinct (invoke_ids (q_log (fold queue_step es queue_init)))
   \<and> set (invoke_ids (q_log (fold queue_step es queue_init))) \<subseteq> {..<length (sent_buffers es)}
   \<and> set (q_log (fold queue_step es queue_init)) \<subseteq> set (q_log (fold queue_step (es @ es') queue_init))"
proof -
  have "length (q_tasks (fold queue_step es queue_init)) = length (sent_buffers es)"
    using reachable_buffers [of es] by (metis length_map)
  then show ?thesis
    using reachable_inv [of es] sendq.run_log_mono [OF reachable_inv, of es es']
    by (auto simp: queue_inv_def q_inv_def q_base_def)
qed

text \<open>
  C19: nothing is lost. Whenever the strand has no job left and no operation is in flight, every send
  has been answered exactly once, the queue is empty and no cancellation handler is waiting.
\<close>

theorem queue_nothing_lost:
  assumes "q_jobs (fold queue_step es queue_init) = []" and "q_current (fold queue_step es queue_init) = None"
  shows "distinct (invoke_ids (q_log (fold queue_step es queue_init)))
       \<and> set (invoke_ids (q_log (fold queue_step es queue_init))) = {..<length (sent_buffers es)}
       \<and> q_queue (fold queue_step es queue_init) = [] \<and> q_cancel_handlers (fold queue_step es queue_init) = []"
proof -
  define q where "q = fold queue_step es queue_init"
  have b: "q_base q" "q_idle q" using reachable_inv [of es] by (auto simp: q_def queue_inv_def q_inv_def)
  have len: "length (q_tasks q) = length (sent_buffers es)" using reachable_buffers [of es] unfolding q_def by (metis length_map)
  have e: "q_queue q = []" "q_cancel_handlers q = []" using b(2) assms(2) by (auto simp: q_idle_def q_def)
  have "i \<in> set (invoke_ids (q_log q))" if "i < length (q_tasks q)" for i
    using b(1) that e assms by (auto simp: q_base_def q_def)
  then have "set (invoke_ids (q_log q)) = {..<length (q_tasks q)}" using b(1) by (auto simp: q_base_def)
  with e b(1) len show ?thesis by (auto simp: q_base_def q_def)
qed

definition w_run :: "qevent list" where
  "w_run = [E_send [1] False, E_send [2] True, E_run, E_run, E_async_cancel 0, E_run, E_sent ec_ok, E_run]"

theorem queue_nothing_lost_witness:
  "q_log (fold queue_step w_run queue_init)
     = [Start 0 [1], Emit 0 1, Invoke 1 (io_ec Operation_cancelled), Invoke 0 ec_ok, Invoke_cancel 0 ec_ok]
   \<and> set (invoke_ids (q_log (fold queue_step w_run queue_init))) = {..<2}"
proof -
  have "q_jobs (fold queue_step w_run queue_init) = []" "q_current (fold queue_step w_run queue_init) = None"
      "length (sent_buffers w_run) = 2"
      "q_log (fold queue_step w_run queue_init)
         = [Start 0 [1], Emit 0 1, Invoke 1 (io_ec Operation_cancelled), Invoke 0 ec_ok, Invoke_cancel 0 ec_ok]"
    by code_simp+
  with queue_nothing_lost [of w_run] show ?thesis by simp
qed

text \<open>
  Cancelling the queue. When the strand runs an \<open>async_cancel\<close>, every queued send is answered at
  once and the queue is empty; its handler is answered at once when nothing is in flight, and
  otherwise waits; when the operation in flight ends, every waiting cancellation handler is answered.
\<close>

theorem queue_cancel_drains:
  assumes "q = fold queue_step es queue_init"
  shows "(\<forall>h js. q_jobs q = J_async_cancel h # js \<longrightarrow>
            q_queue (strand_run q) = [] \<and> set (q_queue q) \<subseteq> set (invoke_ids (q_log (strand_run q)))
            \<and> q_current (strand_run q) = q_current q
            \<and> (if q_current q = None then Invoke_cancel h ec_ok \<in> set (q_log (strand_run q))
               else h \<in> set (q_cancel_handlers (strand_run q))))
       \<and> (\<forall>ec js h. q_jobs q = J_on_send ec # js \<and> h \<in> set (q_cancel_handlers q) \<longrightarrow>
            Invoke_cancel h ec_ok \<in> set (q_log (strand_run q)))"
proof (intro conjI allI impI)
  have inv: "queue_inv q" unfolding assms by (rule reachable_inv)
  then have qi: "q_inv q" by (simp add: queue_inv_def)
  fix h js assume j: "q_jobs q = J_async_cancel h # js"
  define q1 where "q1 = q\<lparr>q_jobs := js, q_cancel_handlers := q_cancel_handlers q @ [h]\<rparr>"
  have "q_inv (q\<lparr>q_jobs := js\<rparr>)" using drop_job_inv [OF qi j] by simp
  then have b: "q_base q1" by (auto simp: q1_def q_inv_def q_base_def order_def completed_def)
  note cp = cancel_pending_ok [OF b]
  have r: "strand_run q = complete_cancel_handlers (cancel_pending q1)"
    by (simp add: strand_run_def j cancel_internal_handler_def q1_def)
  have frame: "q_queue q1 = q_queue q" "q_current q1 = q_current q" "length (q_tasks q1) = length (q_tasks q)"
      "h \<in> set (q_cancel_handlers q1)" by (simp_all add: q1_def)
  show "q_queue (strand_run q) = []" "q_current (strand_run q) = q_current q" using cp frame by (simp_all add: r)
  have "q_base (strand_run q)" using cp(1) by (simp add: r)
  moreover have "completed (strand_run q) i" "i < length (q_tasks (strand_run q))" if "i \<in> set (q_queue q)" for i
  proof -
    show "completed (strand_run q) i" using cp(8) that frame by (simp add: r completed_def)
    have "i < length (q_tasks q1)" using b that by (simp add: q_base_def order_def q1_def)
    then show "i < length (q_tasks (strand_run q))" using cp(7) by (simp add: r)
  qed
  ultimately show "set (q_queue q) \<subseteq> set (invoke_ids (q_log (strand_run q)))" by (auto simp: q_base_def)
  show "if q_current q = None then Invoke_cancel h ec_ok \<in> set (q_log (strand_run q))
      else h \<in> set (q_cancel_handlers (strand_run q))"
    using cp(3,6) frame by (auto simp: r complete_cancel_handlers_def)
next
  have inv: "queue_inv q" unfolding assms by (rule reachable_inv)
  fix ec js h assume a: "q_jobs q = J_on_send ec # js \<and> h \<in> set (q_cancel_handlers q)"
  then obtain i where i: "q_current q = Some i" using inv by (auto simp: queue_inv_def q_inv_def q_flight_def split: if_splits)
  define q2 where "q2 = complete_cancel_handlers ((task_complete i ec (q\<lparr>q_jobs := js\<rparr>))\<lparr>q_current := None\<rparr>)"
  have "Invoke_cancel h ec_ok \<in> set (q_log q2)" using a by (simp add: q2_def complete_cancel_handlers_def)
  moreover have "strand_run q = process_next q2" using a i by (simp add: strand_run_def on_send_def q2_def)
  ultimately show "Invoke_cancel h ec_ok \<in> set (q_log (strand_run q))"
    using grows_process(2) [of q2] by (auto simp: grows_def)
qed

theorem queue_cancel_drains_witness:
  "Invoke_cancel 0 ec_ok \<in> set (q_log (strand_run (fold queue_step (butlast w_run) queue_init)))"
proof -
  have "q_jobs (fold queue_step (butlast w_run) queue_init) = J_on_send ec_ok # []"
      "0 \<in> set (q_cancel_handlers (fold queue_step (butlast w_run) queue_init))"
    by code_simp+
  with queue_cancel_drains [OF refl, of "butlast w_run"] show ?thesis by blast
qed

end
