(* ===== verification/ConfigFile.thy ===== *)
theory ConfigFile
  imports Prelude "HOL-Library.AList"
begin

text \<open>
  Model of \<open>io-rstrm/error.cpp\<close> and of the configuration file part of
  \<open>lib/rstream/io-rstrm/io-rstrm.cpp\<close>: the configuration structures, the trimming of strings, the
  extraction of the structures from a YAML document and the choice and loading of the file. What is
  outside the repository (environment variables, the file system, the path library and yaml-cpp) is a
  record of functions given as an argument. A YAML document is the tree yaml-cpp presents.
\<close>

section \<open>Error codes of io-rstrm\<close>

datatype rstrm_error =
    Rstrm_success
  | Invalid_configuration
  | Invalid_endpoint
  | Invalid_state
  | No_valid_endpoint
  | Operation_aborted
  | Operation_in_progress
  | Operation_timeout
  | Protocol_error
  | Server_error
  | Stream_not_found
  | Authentication_conflict
  | Unsupported_mtls_exec
  | Unauthorized
  | Invalid_request
  | Protocol_version_missing
  | Protocol_version_invalid
  | Protocol_version_incompatible
  | Tunnel_not_found
  | Invalid_stream
  | Feature_not_available
  | Service_unavailable
  | Capacity_exhausted
  | Internal

fun rstrm_error_value :: "rstrm_error \<Rightarrow> int" where
  "rstrm_error_value Rstrm_success = 0"
| "rstrm_error_value Invalid_configuration = 1"
| "rstrm_error_value Invalid_endpoint = 2"
| "rstrm_error_value Invalid_state = 3"
| "rstrm_error_value No_valid_endpoint = 4"
| "rstrm_error_value Operation_aborted = 5"
| "rstrm_error_value Operation_in_progress = 6"
| "rstrm_error_value Operation_timeout = 7"
| "rstrm_error_value Protocol_error = 8"
| "rstrm_error_value Server_error = 9"
| "rstrm_error_value Stream_not_found = 10"
| "rstrm_error_value Authentication_conflict = 11"
| "rstrm_error_value Unsupported_mtls_exec = 12"
| "rstrm_error_value Unauthorized = 1000"
| "rstrm_error_value Invalid_request = 2000"
| "rstrm_error_value Protocol_version_missing = 2010"
| "rstrm_error_value Protocol_version_invalid = 2020"
| "rstrm_error_value Protocol_version_incompatible = 2030"
| "rstrm_error_value Tunnel_not_found = 3000"
| "rstrm_error_value Invalid_stream = 4000"
| "rstrm_error_value Feature_not_available = 5000"
| "rstrm_error_value Service_unavailable = 6000"
| "rstrm_error_value Capacity_exhausted = 7000"
| "rstrm_error_value Internal = 9000"

definition rstrm_ec :: "rstrm_error \<Rightarrow> error_code" where
  "rstrm_ec e = EC Rstrm_cat (rstrm_error_value e)"

text \<open>\<open>make_error_code(int)\<close>: a code received from the server, taken over as it is.\<close>

definition make_error_code :: "int \<Rightarrow> error_code" where
  "make_error_code c = EC Rstrm_cat c"

definition rstrm_error_to_string :: "int \<Rightarrow> string" where
  "rstrm_error_to_string v =
     (if v = 0 then ''success''
      else if v = 2 then ''invalid endpoint''
      else if v = 4 then ''no valid endpoint''
      else if v = 1 then ''invalid configuration''
      else if v = 3 then ''invalid state''
      else if v = 5 then ''operation aborted''
      else if v = 6 then ''another operation is in progress''
      else if v = 7 then ''operation timeout''
      else if v = 8 then ''protocol error''
      else if v = 9 then ''server error''
      else if v = 10 then ''stream not found''
      else if v = 11 then ''token and mTLS authentication cannot be used together''
      else if v = 12 then ''mTLS storage kind 'exec' is not supported by rstream-cpp''
      else if v = 3000 then ''tunnel not found''
      else if v = 1000 then ''unauthorized''
      else if v = 2000 then ''invalid request''
      else if v = 2010 then ''protocol version missing''
      else if v = 2020 then ''protocol version invalid''
      else if v = 2030 then ''protocol version incompatible''
      else if v = 4000 then ''invalid stream''
      else if v = 5000 then ''feature not available''
      else if v = 6000 then ''service unavailable''
      else if v = 7000 then ''capacity exhausted''
      else if v = 9000 then ''internal error''
      else ''unknown error'')"

lemma rstrm_ec_failed [simp]: "ec_failed (rstrm_ec e) \<longleftrightarrow> e \<noteq> Rstrm_success"
  by (cases e) (simp_all add: rstrm_ec_def)

lemma rstrm_ec_inject [simp]: "rstrm_ec e = rstrm_ec e' \<longleftrightarrow> e = e'"
  by (cases e; cases e') (simp_all add: rstrm_ec_def)

text \<open>The codes of \<open>boost::system::errc\<close> that the file uses.\<close>

definition errc_no_such_file :: error_code where "errc_no_such_file = EC Generic_cat 2"
definition errc_io_error :: error_code where "errc_io_error = EC Generic_cat 5"
definition errc_invalid_argument :: error_code where "errc_invalid_argument = EC Generic_cat 22"

section \<open>Configuration structures\<close>

record config_token =
  ct_present :: bool
  ct_kind :: string
  ct_value :: string

record config_mtls_storage =
  cs_present :: bool
  cs_kind :: string
  cs_provider :: string
  cs_module :: string
  cs_openssl_provider :: string
  cs_token_label :: string
  cs_token_serial :: string
  cs_slot :: "int option"
  cs_key_label :: string
  cs_key_id_hex :: string
  cs_certificate :: string
  cs_certificate_file :: string
  cs_certificate_label :: string
  cs_certificate_id_hex :: string
  cs_certificate_sha256 :: string
  cs_pin_env :: string
  cs_max_sessions :: int

record config_mtls =
  cm_present :: bool
  cm_certificate :: string
  cm_certificate_file :: string
  cm_key :: string
  cm_key_file :: string
  cm_storage :: config_mtls_storage

record config_auth =
  ca_token :: config_token
  ca_mtls :: config_mtls

record config_tls =
  tls_present :: bool
  tls_insecure_skip_verify_set :: bool
  tls_insecure_skip_verify :: bool
  tls_ca_file :: string
  tls_server_name :: string

record config_proxy =
  cp_present :: bool
  cp_from_environment_present :: bool
  cp_from_environment :: bool
  cp_http :: string
  cp_socks5 :: string
  cp_username :: string
  cp_password :: string
  cp_headers :: "(string \<times> string) list"
  cp_tls :: config_tls

record config_transport =
  tr_mode_present :: bool
  tr_mode :: string
  tr_use_quic_present :: bool
  tr_use_quic_valid :: bool
  tr_use_quic :: bool
  tr_proxy :: config_proxy
  tr_tls :: config_tls

record config_environment =
  ce_api_url :: string
  ce_auth :: config_auth
  ce_transport :: config_transport

record config_context =
  cc_name :: string
  cc_api_url :: string
  cc_engine :: string
  cc_auth :: config_auth
  cc_transport :: config_transport

record config_file =
  cf_default_context :: string
  cf_environments :: "config_environment list"
  cf_contexts :: "config_context list"

definition config_token0 :: config_token where
  "config_token0 = \<lparr>ct_present = False, ct_kind = [], ct_value = []\<rparr>"

definition config_mtls_storage0 :: config_mtls_storage where
  "config_mtls_storage0 =
     \<lparr>cs_present = False, cs_kind = [], cs_provider = [], cs_module = [], cs_openssl_provider = [],
      cs_token_label = [], cs_token_serial = [], cs_slot = None, cs_key_label = [], cs_key_id_hex = [],
      cs_certificate = [], cs_certificate_file = [], cs_certificate_label = [], cs_certificate_id_hex = [],
      cs_certificate_sha256 = [], cs_pin_env = [], cs_max_sessions = 0\<rparr>"

definition config_mtls0 :: config_mtls where
  "config_mtls0 = \<lparr>cm_present = False, cm_certificate = [], cm_certificate_file = [], cm_key = [], cm_key_file = [],
     cm_storage = config_mtls_storage0\<rparr>"

definition config_auth0 :: config_auth where
  "config_auth0 = \<lparr>ca_token = config_token0, ca_mtls = config_mtls0\<rparr>"

definition config_tls0 :: config_tls where
  "config_tls0 = \<lparr>tls_present = False, tls_insecure_skip_verify_set = False, tls_insecure_skip_verify = False,
     tls_ca_file = [], tls_server_name = []\<rparr>"

definition config_proxy0 :: config_proxy where
  "config_proxy0 = \<lparr>cp_present = False, cp_from_environment_present = False, cp_from_environment = False,
     cp_http = [], cp_socks5 = [], cp_username = [], cp_password = [], cp_headers = [], cp_tls = config_tls0\<rparr>"

definition config_transport0 :: config_transport where
  "config_transport0 = \<lparr>tr_mode_present = False, tr_mode = [], tr_use_quic_present = False, tr_use_quic_valid = True,
     tr_use_quic = False, tr_proxy = config_proxy0, tr_tls = config_tls0\<rparr>"

definition config_file0 :: config_file where
  "config_file0 = \<lparr>cf_default_context = [], cf_environments = [], cf_contexts = []\<rparr>"

section \<open>Trimming\<close>

text \<open>\<open>std::isspace\<close> in the classic locale: space, \<open>\t\<close>, \<open>\n\<close>, \<open>\v\<close>, \<open>\f\<close>, \<open>\r\<close>.\<close>

definition is_space :: "char \<Rightarrow> bool" where
  "is_space c \<longleftrightarrow> (let n = (of_char c :: nat) in n = 32 \<or> (9 \<le> n \<and> n \<le> 13))"

definition ltrim :: "string \<Rightarrow> string" where
  "ltrim s = dropWhile is_space s"

definition rtrim :: "string \<Rightarrow> string" where
  "rtrim s = rev (dropWhile is_space (rev s))"

definition trim :: "string \<Rightarrow> string" where
  "trim s = rtrim (ltrim s)"

section \<open>YAML trees\<close>

datatype yaml = Y_undefined | Y_null | Y_scalar string | Y_seq "yaml list" | Y_map "(yaml \<times> yaml) list"

record outside =
  os_getenv :: "string \<Rightarrow> string option"
  os_read_file :: "string \<Rightarrow> string option"
  os_parent_path :: "string \<Rightarrow> string"
  os_path_append :: "string \<Rightarrow> string \<Rightarrow> string"
  os_yaml_load :: "string \<Rightarrow> yaml option"
  os_as_int :: "string \<Rightarrow> int option"
  os_as_bool :: "string \<Rightarrow> bool option"

fun y_is_map :: "yaml \<Rightarrow> bool" where
  "y_is_map (Y_map m) = True"
| "y_is_map _ = False"

text \<open>\<open>node[key]\<close> on a map: the first entry whose key is that scalar.\<close>

fun y_get :: "yaml \<Rightarrow> string \<Rightarrow> yaml" where
  "y_get (Y_map m) k = (case map_of m (Y_scalar k) of None \<Rightarrow> Y_undefined | Some v \<Rightarrow> v)"
| "y_get _ k = Y_undefined"

fun yaml_string :: "yaml \<Rightarrow> string" where
  "yaml_string (Y_scalar s) = trim s"
| "yaml_string _ = []"

fun yaml_int :: "outside \<Rightarrow> yaml \<Rightarrow> int option" where
  "yaml_int os (Y_scalar s) = os_as_int os s"
| "yaml_int os _ = None"

fun yaml_bool :: "outside \<Rightarrow> yaml \<Rightarrow> bool option" where
  "yaml_bool os (Y_scalar s) = os_as_bool os s"
| "yaml_bool os _ = None"

section \<open>From the tree to the structures\<close>

definition parse_auth_token_storage :: "yaml \<Rightarrow> config_auth \<Rightarrow> config_auth" where
  "parse_auth_token_storage node auth =
     (if \<not> y_is_map node then auth
      else
        let kind = yaml_string (y_get node ''kind'');
            val = yaml_string (y_get node ''value'');
            t0 = ca_token auth;
            t1 = t0\<lparr>ct_present := True\<rparr>;
            t2 = (if kind \<noteq> [] then t1\<lparr>ct_kind := kind\<rparr> else t1);
            t3 = (if val \<noteq> [] then t2\<lparr>ct_value := val\<rparr> else t2)
        in auth\<lparr>ca_token := t3\<rparr>)"

definition parse_auth_mtls_storage :: "outside \<Rightarrow> yaml \<Rightarrow> config_mtls_storage \<Rightarrow> config_mtls_storage" where
  "parse_auth_mtls_storage os node storage =
     (if \<not> y_is_map node then storage
      else
        storage\<lparr>cs_present := True,
          cs_kind := yaml_string (y_get node ''kind''),
          cs_provider := yaml_string (y_get node ''provider''),
          cs_module := yaml_string (y_get node ''module''),
          cs_openssl_provider := yaml_string (y_get node ''opensslProvider''),
          cs_token_label := yaml_string (y_get node ''tokenLabel''),
          cs_token_serial := yaml_string (y_get node ''tokenSerial''),
          cs_slot := yaml_int os (y_get node ''slot''),
          cs_key_label := yaml_string (y_get node ''keyLabel''),
          cs_key_id_hex := yaml_string (y_get node ''keyIdHex''),
          cs_certificate := yaml_string (y_get node ''certificate''),
          cs_certificate_file := yaml_string (y_get node ''certificateFile''),
          cs_certificate_label := yaml_string (y_get node ''certificateLabel''),
          cs_certificate_id_hex := yaml_string (y_get node ''certificateIdHex''),
          cs_certificate_sha256 := yaml_string (y_get node ''certificateSHA256''),
          cs_pin_env := yaml_string (y_get node ''pinEnv''),
          cs_max_sessions := (case yaml_int os (y_get node ''maxSessions'') of
            None \<Rightarrow> cs_max_sessions storage | Some n \<Rightarrow> n)\<rparr>)"

definition parse_auth_mtls :: "outside \<Rightarrow> yaml \<Rightarrow> config_auth \<Rightarrow> config_auth" where
  "parse_auth_mtls os node auth =
     (if \<not> y_is_map node then auth
      else
        let certificate = yaml_string (y_get node ''certificate'');
            certificate_file = yaml_string (y_get node ''certificateFile'');
            key = yaml_string (y_get node ''key'');
            key_file = yaml_string (y_get node ''keyFile'');
            storage = parse_auth_mtls_storage os (y_get node ''storage'') config_mtls_storage0
        in if certificate = [] \<and> certificate_file = [] \<and> key = [] \<and> key_file = [] \<and> \<not> cs_present storage then auth
           else auth\<lparr>ca_mtls := (ca_mtls auth)\<lparr>cm_present := True, cm_certificate := certificate,
             cm_certificate_file := certificate_file, cm_key := key, cm_key_file := key_file, cm_storage := storage\<rparr>\<rparr>)"

definition parse_auth :: "outside \<Rightarrow> yaml \<Rightarrow> config_auth \<Rightarrow> config_auth" where
  "parse_auth os node auth =
     (if \<not> y_is_map node then auth
      else
        let auth_node = y_get node ''auth'' in
        if \<not> y_is_map auth_node then auth
        else
          let token = y_get auth_node ''token'';
              auth1 = (if y_is_map token \<and> y_is_map (y_get token ''storage'')
                       then parse_auth_token_storage (y_get token ''storage'') auth else auth)
          in parse_auth_mtls os (y_get auth_node ''mtls'') auth1)"

definition parse_transport_tls :: "outside \<Rightarrow> yaml \<Rightarrow> config_tls \<Rightarrow> config_tls" where
  "parse_transport_tls os node t =
     (if \<not> y_is_map node then t
      else
        let t1 = t\<lparr>tls_present := True, tls_ca_file := yaml_string (y_get node ''caFile''),
                   tls_server_name := yaml_string (y_get node ''serverName'')\<rparr>
        in case yaml_bool os (y_get node ''insecureSkipVerify'') of
             None \<Rightarrow> t1
           | Some b \<Rightarrow> t1\<lparr>tls_insecure_skip_verify_set := True, tls_insecure_skip_verify := b\<rparr>)"

fun parse_headers :: "(yaml \<times> yaml) list \<Rightarrow> (string \<times> string) list \<Rightarrow> (string \<times> string) list" where
  "parse_headers [] hs = hs"
| "parse_headers ((k, v) # es) hs =
     (let key = yaml_string k; val = yaml_string v in
      parse_headers es (if key \<noteq> [] \<and> val \<noteq> [] then AList.update key val hs else hs))"

definition parse_transport_proxy :: "outside \<Rightarrow> yaml \<Rightarrow> config_transport \<Rightarrow> config_transport" where
  "parse_transport_proxy os node tr =
     (if \<not> y_is_map node then tr
      else
        let p0 = tr_proxy tr;
            p1 = p0\<lparr>cp_present := True, cp_http := yaml_string (y_get node ''http''),
                    cp_socks5 := yaml_string (y_get node ''socks5''),
                    cp_username := yaml_string (y_get node ''username''),
                    cp_password := yaml_string (y_get node ''password'')\<rparr>;
            p2 = (case yaml_bool os (y_get node ''fromEnvironment'') of
                    None \<Rightarrow> p1
                  | Some b \<Rightarrow> p1\<lparr>cp_from_environment_present := True, cp_from_environment := b\<rparr>);
            p3 = p2\<lparr>cp_tls := parse_transport_tls os (y_get node ''tls'') (cp_tls p2)\<rparr>;
            p4 = (case y_get node ''headers'' of
                    Y_map es \<Rightarrow> p3\<lparr>cp_headers := parse_headers es (cp_headers p3)\<rparr>
                  | _ \<Rightarrow> p3)
        in tr\<lparr>tr_proxy := p4\<rparr>)"

definition parse_transport :: "outside \<Rightarrow> yaml \<Rightarrow> config_transport \<Rightarrow> config_transport" where
  "parse_transport os node tr =
     (if \<not> y_is_map node then tr
      else
        let mode = y_get node ''mode'';
            tr1 = (if mode \<noteq> Y_undefined then tr\<lparr>tr_mode_present := True, tr_mode := yaml_string mode\<rparr> else tr);
            uq = y_get node ''useQuic'';
            tr2 = (if uq \<noteq> Y_undefined then
                     (case yaml_bool os uq of
                        Some b \<Rightarrow> tr1\<lparr>tr_use_quic_present := True, tr_use_quic := b\<rparr>
                      | None \<Rightarrow> tr1\<lparr>tr_use_quic_present := True, tr_use_quic_valid := False\<rparr>)
                   else tr1);
            tr3 = tr2\<lparr>tr_tls := parse_transport_tls os (y_get node ''tls'') (tr_tls tr2)\<rparr>
        in parse_transport_proxy os (y_get node ''proxy'') tr3)"

definition parse_environment :: "outside \<Rightarrow> yaml \<Rightarrow> config_environment" where
  "parse_environment os node =
     \<lparr>ce_api_url = yaml_string (y_get node ''apiUrl''),
      ce_auth = parse_auth os node config_auth0,
      ce_transport = parse_transport os (y_get node ''transport'') config_transport0\<rparr>"

definition parse_context :: "outside \<Rightarrow> yaml \<Rightarrow> config_context" where
  "parse_context os node =
     \<lparr>cc_name = yaml_string (y_get node ''name''),
      cc_api_url = yaml_string (y_get node ''apiUrl''),
      cc_engine = yaml_string (y_get node ''engine''),
      cc_auth = parse_auth os node config_auth0,
      cc_transport = parse_transport os (y_get node ''transport'') config_transport0\<rparr>"

definition parse_config_root :: "outside \<Rightarrow> yaml \<Rightarrow> config_file \<Rightarrow> config_file" where
  "parse_config_root os root cfg =
     (if \<not> y_is_map root then cfg
      else
        let defaults = y_get root ''defaults'';
            cfg1 = (if y_is_map defaults \<and> y_is_map (y_get defaults ''context'')
                    then cfg\<lparr>cf_default_context := yaml_string (y_get (y_get defaults ''context'') ''name'')\<rparr> else cfg);
            cfg2 = (case y_get root ''environments'' of
                      Y_seq ns \<Rightarrow> cfg1\<lparr>cf_environments := cf_environments cfg1 @ map (parse_environment os) (filter y_is_map ns)\<rparr>
                    | _ \<Rightarrow> cfg1)
        in case y_get root ''contexts'' of
             Y_seq ns \<Rightarrow> cfg2\<lparr>cf_contexts := cf_contexts cfg2 @ map (parse_context os) (filter y_is_map ns)\<rparr>
           | _ \<Rightarrow> cfg2)"

text \<open>\<open>None\<close>: the document is not YAML.\<close>

definition parse_config_yaml :: "outside \<Rightarrow> string \<Rightarrow> config_file option" where
  "parse_config_yaml os content =
     (if trim content = [] then Some config_file0
      else case os_yaml_load os content of
             None \<Rightarrow> None
           | Some root \<Rightarrow> Some (parse_config_root os root config_file0))"

section \<open>Locating and loading the file\<close>

definition getenv_trim :: "outside \<Rightarrow> string \<Rightarrow> string" where
  "getenv_trim os key = (case os_getenv os key of None \<Rightarrow> [] | Some v \<Rightarrow> trim v)"

definition get_home_path :: "outside \<Rightarrow> error_code + string" where
  "get_home_path os =
     (case (case os_getenv os ''HOME'' of None \<Rightarrow> os_getenv os ''USERPROFILE'' | Some h \<Rightarrow> Some h) of
        Some h \<Rightarrow> Inr h
      | None \<Rightarrow> Inl errc_no_such_file)"

definition nonempty_env :: "outside \<Rightarrow> string \<Rightarrow> string option" where
  "nonempty_env os key = (case os_getenv os key of Some v \<Rightarrow> if v \<noteq> [] then Some v else None | None \<Rightarrow> None)"

definition get_rstream_config_path :: "outside \<Rightarrow> error_code + string" where
  "get_rstream_config_path os =
     (case nonempty_env os ''RSTREAM_CONFIG'' of
        Some p \<Rightarrow> Inr (os_parent_path os p)
      | None \<Rightarrow> (case get_home_path os of
                   Inr h \<Rightarrow> Inr (os_path_append os h ''.rstream'')
                 | Inl e \<Rightarrow> Inl e))"

definition get_rstream_config_file_path :: "outside \<Rightarrow> string option \<Rightarrow> error_code + string" where
  "get_rstream_config_file_path os config_path =
     (case config_path of
        Some p \<Rightarrow> if p \<noteq> [] then Inr p else
          (case nonempty_env os ''RSTREAM_CONFIG'' of
             Some q \<Rightarrow> Inr q
           | None \<Rightarrow> (case get_rstream_config_path os of
                        Inr d \<Rightarrow> Inr (os_path_append os d ''config.yaml'') | Inl e \<Rightarrow> Inl e))
      | None \<Rightarrow>
          (case nonempty_env os ''RSTREAM_CONFIG'' of
             Some q \<Rightarrow> Inr q
           | None \<Rightarrow> (case get_rstream_config_path os of
                        Inr d \<Rightarrow> Inr (os_path_append os d ''config.yaml'') | Inl e \<Rightarrow> Inl e)))"

definition load_rstream_config :: "outside \<Rightarrow> string option \<Rightarrow> error_code + config_file" where
  "load_rstream_config os config_path =
     (case get_rstream_config_file_path os config_path of
        Inl e \<Rightarrow> Inl e
      | Inr p \<Rightarrow>
          (case os_read_file os p of
             None \<Rightarrow> Inr config_file0
           | Some content \<Rightarrow>
               (case parse_config_yaml os content of None \<Rightarrow> Inl errc_io_error | Some cfg \<Rightarrow> Inr cfg)))"

section \<open>Trimming and extraction\<close>

lemma dropWhile_idem: "dropWhile P (dropWhile P xs) = dropWhile P xs"
  by (induction xs) auto

lemma trim_idem: "trim (trim s) = trim s"
proof -
  define u where "u = dropWhile is_space s"
  define v where "v = rev (dropWhile is_space (rev u))"
  have "dropWhile is_space v = v"
  proof (cases v)
    case (Cons c cs)
    obtain w where "u = v @ w"
      using takeWhile_dropWhile_id [of is_space "rev u"] unfolding v_def
      by (metis rev_append rev_rev_ident)
    then have "u \<noteq> []" "hd u = c" using Cons by auto
    moreover have "u \<noteq> [] \<Longrightarrow> \<not> is_space (hd u)" using hd_dropWhile [of is_space s] by (simp add: u_def)
    ultimately show ?thesis using Cons by simp
  qed simp
  then have "trim v = v" by (simp add: trim_def ltrim_def rtrim_def v_def dropWhile_idem)
  then show ?thesis by (simp add: trim_def ltrim_def rtrim_def v_def u_def)
qed

lemma trim_empty_iff: "trim s = [] \<longleftrightarrow> list_all is_space s"
  by (auto simp: trim_def ltrim_def rtrim_def list_all_iff dest: set_dropWhileD)
    (metis (full_types) dropWhile_eq_Nil_conv hd_dropWhile hd_in_set)

lemma yaml_string_trimmed: "trim (yaml_string n) = yaml_string n"
  by (cases n) (simp_all add: trim_idem, simp_all add: trim_def ltrim_def rtrim_def)

end
