(* ===== verification/Convert.thy ===== *)
theory Convert
  imports Prelude
begin

text \<open>
  Model of \<open>lib/rstream/io-rstrm/detail/convert.cpp\<close>: conversions between the library's structures and
  the protobuf messages of \<open>messages.proto\<close>. A protobuf message is a record of its fields; a wrapper
  (\<open>StringValue\<close>, \<open>BoolValue\<close>, \<open>UInt32Value\<close>) or message field is an option, a \<open>oneof\<close> a datatype.
  Each \<open>convert(dst, src)\<close> is a function of the destination's old value and the source, because the code
  merges into what the destination holds. A time point is its signed 64-bit tick count (nanoseconds);
  the multiplication that builds one from seconds is undefined when it overflows, which is \<open>None\<close>.
\<close>

text \<open>\<open>if (src.m_x) { dst.x = *src.m_x; }\<close>\<close>

definition opt_set :: "'a option \<Rightarrow> 'a option \<Rightarrow> 'a option" where
  "opt_set src dst = (case src of None \<Rightarrow> dst | Some v \<Rightarrow> Some v)"

lemma opt_set_simps [simp]: "opt_set (Some v) d = Some v" "opt_set None d = d" "opt_set s None = s"
  by (simp_all add: opt_set_def split: option.splits)

section \<open>IP addresses\<close>

text \<open>\<open>boost::asio::ip::address\<close>: a 32-bit address, or sixteen bytes with a scope identifier.\<close>

datatype ip_address = Addr_v4 "32 word" | Addr_v6 "byte list" "32 word"

datatype proto_ip_address = Ip_not_set | Ip_v4 "32 word" | Ip_v6 "byte list"

fun convert_ip_to :: "ip_address \<Rightarrow> proto_ip_address" where
  "convert_ip_to (Addr_v4 a) = Ip_v4 a"
| "convert_ip_to (Addr_v6 bs scope) = Ip_v6 bs"

text \<open>\<open>None\<close> where the code throws \<open>std::invalid_argument\<close>.\<close>

fun convert_ip_from :: "proto_ip_address \<Rightarrow> ip_address option" where
  "convert_ip_from (Ip_v4 a) = Some (Addr_v4 a)"
| "convert_ip_from (Ip_v6 bs) = (if length bs \<noteq> 16 then None else Some (Addr_v6 bs 0))"
| "convert_ip_from Ip_not_set = None"

fun ip_norm :: "ip_address \<Rightarrow> ip_address" where
  "ip_norm (Addr_v4 a) = Addr_v4 a"
| "ip_norm (Addr_v6 bs scope) = Addr_v6 bs 0"

fun ip_valid :: "ip_address \<Rightarrow> bool" where
  "ip_valid (Addr_v4 a) = True"
| "ip_valid (Addr_v6 bs scope) = (length bs = 16)"

interpretation ip: wire_converter convert_ip_to convert_ip_from ip_norm ip_valid
proof unfold_locales
  fix x :: ip_address
  show "ip_valid x \<Longrightarrow> convert_ip_from (convert_ip_to x) = Some (ip_norm x)" by (cases x) auto
  show "ip_valid x \<Longrightarrow> ip_valid (ip_norm x)" by (cases x) auto
  show "ip_norm (ip_norm x) = ip_norm x" by (cases x) auto
qed

section \<open>Client details\<close>

record client_details =
  cd_agent :: "string option"
  cd_channel :: "string option"
  cd_os :: "string option"
  cd_arch :: "string option"
  cd_version :: "string option"
  cd_token :: "string option"
  cd_protocol_version :: "string option"

record proto_client_details =
  pcd_agent :: "string option"
  pcd_channel :: "string option"
  pcd_version :: "string option"
  pcd_os :: "string option"
  pcd_arch :: "string option"
  pcd_token :: "string option"
  pcd_protocol_version :: "string option"

definition empty_client_details :: client_details where
  "empty_client_details = \<lparr>cd_agent = None, cd_channel = None, cd_os = None, cd_arch = None, cd_version = None,
     cd_token = None, cd_protocol_version = None\<rparr>"

definition empty_proto_client_details :: proto_client_details where
  "empty_proto_client_details = \<lparr>pcd_agent = None, pcd_channel = None, pcd_version = None, pcd_os = None,
     pcd_arch = None, pcd_token = None, pcd_protocol_version = None\<rparr>"

definition convert_client_details_to :: "proto_client_details \<Rightarrow> client_details \<Rightarrow> proto_client_details" where
  "convert_client_details_to dst src =
     dst\<lparr>pcd_agent := opt_set (cd_agent src) (pcd_agent dst),
         pcd_channel := opt_set (cd_channel src) (pcd_channel dst),
         pcd_os := opt_set (cd_os src) (pcd_os dst),
         pcd_arch := opt_set (cd_arch src) (pcd_arch dst),
         pcd_version := opt_set (cd_version src) (pcd_version dst),
         pcd_token := opt_set (cd_token src) (pcd_token dst),
         pcd_protocol_version := opt_set (cd_protocol_version src) (pcd_protocol_version dst)\<rparr>"

definition convert_client_details_from :: "client_details \<Rightarrow> proto_client_details \<Rightarrow> client_details" where
  "convert_client_details_from dst src =
     dst\<lparr>cd_agent := opt_set (pcd_agent src) (cd_agent dst),
         cd_channel := opt_set (pcd_channel src) (cd_channel dst),
         cd_os := opt_set (pcd_os src) (cd_os dst),
         cd_arch := opt_set (pcd_arch src) (cd_arch dst),
         cd_version := opt_set (pcd_version src) (cd_version dst),
         cd_token := opt_set (pcd_token src) (cd_token dst),
         cd_protocol_version := opt_set (pcd_protocol_version src) (cd_protocol_version dst)\<rparr>"

text \<open>Into a fresh destination the conversion is lossless in both directions.\<close>

lemma client_details_round_trip:
  "convert_client_details_from empty_client_details (convert_client_details_to empty_proto_client_details d) = d"
  by (simp add: convert_client_details_from_def convert_client_details_to_def empty_client_details_def
      empty_proto_client_details_def)

interpretation details: wire_converter "convert_client_details_to empty_proto_client_details"
  "\<lambda>w. Some (convert_client_details_from empty_client_details w)" id "\<lambda>_. True"
  by unfold_locales (simp_all add: client_details_round_trip)

section \<open>Tunnel properties\<close>

record http_cors =
  m_allowed_origins :: "string list"
  m_allowed_methods :: "string list"
  m_allowed_headers :: "string list"
  m_exposed_headers :: "string list"
  m_allow_credentials :: bool
  m_max_age :: "64 word"

record proto_http_cors =
  p_allowed_origins :: "string list"
  p_allowed_methods :: "string list"
  p_allowed_headers :: "string list"
  p_exposed_headers :: "string list"
  p_allow_credentials :: bool
  p_max_age :: "64 word"

definition proto_of_http_cors :: "http_cors \<Rightarrow> proto_http_cors" where
  "proto_of_http_cors c =
     \<lparr>p_allowed_origins = m_allowed_origins c, p_allowed_methods = m_allowed_methods c,
      p_allowed_headers = m_allowed_headers c, p_exposed_headers = m_exposed_headers c,
      p_allow_credentials = m_allow_credentials c, p_max_age = m_max_age c\<rparr>"

definition http_cors_of_proto :: "proto_http_cors \<Rightarrow> http_cors" where
  "http_cors_of_proto c =
     \<lparr>m_allowed_origins = p_allowed_origins c, m_allowed_methods = p_allowed_methods c,
      m_allowed_headers = p_allowed_headers c, m_exposed_headers = p_exposed_headers c,
      m_allow_credentials = p_allow_credentials c, m_max_age = p_max_age c\<rparr>"

lemma http_cors_round_trip [simp]: "http_cors_of_proto (proto_of_http_cors c) = c"
  by (simp add: http_cors_of_proto_def proto_of_http_cors_def)

record tunnel_properties =
  m_id :: "string option"
  m_name :: "string option"
  m_creation_date :: "int option"
  m_type :: "string option"
  m_publish :: "bool option"
  m_protocol :: "string option"
  m_labels :: "string \<rightharpoonup> string"
  m_geoip :: "string list"
  m_trusted_ips :: "string list"
  m_host :: "string option"
  m_hostname :: "string option"
  m_port :: "32 word option"
  m_tls_mode :: "string option"
  m_tls_alpns :: "string list"
  m_tls_min_version :: "string option"
  m_tls_ciphers :: "string list"
  m_mtls_auth :: "bool option"
  m_http_version :: "string option"
  m_http_use_tls :: "bool option"
  m_upstream_tls :: "bool option"
  m_token_auth :: "bool option"
  m_rstream_auth :: "bool option"
  m_challenge_mode :: "bool option"
  m_datagram_guaranteed_delivery :: "bool option"
  m_allow_cross_region_routing :: "bool option"
  m_http_cors :: "http_cors option"

record proto_tunnel_properties =
  p_id :: "string option"
  p_name :: "string option"
  p_creation_date :: "int option"
  p_type :: "string option"
  p_publish :: "bool option"
  p_protocol :: "string option"
  p_labels :: "string \<rightharpoonup> string"
  p_geoip :: "string list"
  p_trusted_ips :: "string list"
  p_host :: "string option"
  p_hostname :: "string option"
  p_port :: "32 word option"
  p_tls_mode :: "string option"
  p_tls_alpns :: "string list"
  p_tls_min_version :: "string option"
  p_tls_ciphers :: "string list"
  p_mtls_auth :: "bool option"
  p_http_version :: "string option"
  p_http_use_tls :: "bool option"
  p_upstream_tls :: "bool option"
  p_token_auth :: "bool option"
  p_rstream_auth :: "bool option"
  p_challenge_mode :: "bool option"
  p_datagram_guaranteed_delivery :: "bool option"
  p_allow_cross_region_routing :: "bool option"
  p_http_cors :: "proto_http_cors option"
  p_mtls_cacert_pem :: "string option"

definition empty_tunnel_properties :: tunnel_properties where
  "empty_tunnel_properties =
    \<lparr>m_id = None,
     m_name = None,
     m_creation_date = None,
     m_type = None,
     m_publish = None,
     m_protocol = None,
     m_labels = Map.empty,
     m_geoip = [],
     m_trusted_ips = [],
     m_host = None,
     m_hostname = None,
     m_port = None,
     m_tls_mode = None,
     m_tls_alpns = [],
     m_tls_min_version = None,
     m_tls_ciphers = [],
     m_mtls_auth = None,
     m_http_version = None,
     m_http_use_tls = None,
     m_upstream_tls = None,
     m_token_auth = None,
     m_rstream_auth = None,
     m_challenge_mode = None,
     m_datagram_guaranteed_delivery = None,
     m_allow_cross_region_routing = None,
     m_http_cors = None\<rparr>"

definition empty_proto_tunnel_properties :: proto_tunnel_properties where
  "empty_proto_tunnel_properties =
    \<lparr>p_id = None,
     p_name = None,
     p_creation_date = None,
     p_type = None,
     p_publish = None,
     p_protocol = None,
     p_labels = Map.empty,
     p_geoip = [],
     p_trusted_ips = [],
     p_host = None,
     p_hostname = None,
     p_port = None,
     p_tls_mode = None,
     p_tls_alpns = [],
     p_tls_min_version = None,
     p_tls_ciphers = [],
     p_mtls_auth = None,
     p_http_version = None,
     p_http_use_tls = None,
     p_upstream_tls = None,
     p_token_auth = None,
     p_rstream_auth = None,
     p_challenge_mode = None,
     p_datagram_guaranteed_delivery = None,
     p_allow_cross_region_routing = None,
     p_http_cors = None,
     p_mtls_cacert_pem = None\<rparr>"

text \<open>\<open>duration_cast\<close> to seconds rounds toward zero.\<close>

definition TICKS_PER_SECOND :: int where
  "TICKS_PER_SECOND = 1000000000"

definition trunc_div :: "int \<Rightarrow> int \<Rightarrow> int" where
  "trunc_div a b = sgn a * sgn b * (\<bar>a\<bar> div \<bar>b\<bar>)"

definition in_int64 :: "int \<Rightarrow> bool" where
  "in_int64 i \<longleftrightarrow> - (2 ^ 63) \<le> i \<and> i < 2 ^ 63"

definition convert_tunnel_properties_to :: "proto_tunnel_properties \<Rightarrow> tunnel_properties \<Rightarrow> proto_tunnel_properties" where
  "convert_tunnel_properties_to dst src =
     dst\<lparr>p_id := opt_set (m_id src) (p_id dst),
          p_name := opt_set (m_name src) (p_name dst),
          p_creation_date := opt_set (map_option (\<lambda>t. trunc_div t TICKS_PER_SECOND) (m_creation_date src)) (p_creation_date dst),
          p_type := opt_set (m_type src) (p_type dst),
          p_publish := opt_set (m_publish src) (p_publish dst),
          p_protocol := opt_set (m_protocol src) (p_protocol dst),
          p_labels := p_labels dst ++ m_labels src,
          p_geoip := p_geoip dst @ m_geoip src,
          p_trusted_ips := p_trusted_ips dst @ m_trusted_ips src,
          p_host := opt_set (m_host src) (p_host dst),
          p_hostname := opt_set (m_hostname src) (p_hostname dst),
          p_port := opt_set (m_port src) (p_port dst),
          p_tls_mode := opt_set (m_tls_mode src) (p_tls_mode dst),
          p_tls_alpns := p_tls_alpns dst @ m_tls_alpns src,
          p_tls_min_version := opt_set (m_tls_min_version src) (p_tls_min_version dst),
          p_tls_ciphers := p_tls_ciphers dst @ m_tls_ciphers src,
          p_mtls_auth := opt_set (m_mtls_auth src) (p_mtls_auth dst),
          p_http_version := opt_set (m_http_version src) (p_http_version dst),
          p_http_use_tls := opt_set (m_http_use_tls src) (p_http_use_tls dst),
          p_upstream_tls := opt_set (m_upstream_tls src) (p_upstream_tls dst),
          p_token_auth := opt_set (m_token_auth src) (p_token_auth dst),
          p_rstream_auth := opt_set (m_rstream_auth src) (p_rstream_auth dst),
          p_challenge_mode := opt_set (m_challenge_mode src) (p_challenge_mode dst),
          p_datagram_guaranteed_delivery := opt_set (m_datagram_guaranteed_delivery src) (p_datagram_guaranteed_delivery dst),
          p_allow_cross_region_routing := opt_set (m_allow_cross_region_routing src) (p_allow_cross_region_routing dst),
          p_http_cors := map_option proto_of_http_cors (m_http_cors src)\<rparr>"

definition convert_tunnel_properties_from ::
  "tunnel_properties \<Rightarrow> proto_tunnel_properties \<Rightarrow> tunnel_properties option" where
  "convert_tunnel_properties_from dst src =
     (if (case p_creation_date src of None \<Rightarrow> False | Some s \<Rightarrow> \<not> in_int64 (s * TICKS_PER_SECOND)) then None
      else Some (dst\<lparr>m_id := opt_set (p_id src) (m_id dst),
          m_name := opt_set (p_name src) (m_name dst),
          m_creation_date := opt_set (map_option (\<lambda>s. s * TICKS_PER_SECOND) (p_creation_date src)) (m_creation_date dst),
          m_type := opt_set (p_type src) (m_type dst),
          m_publish := opt_set (p_publish src) (m_publish dst),
          m_protocol := opt_set (p_protocol src) (m_protocol dst),
          m_labels := m_labels dst ++ p_labels src,
          m_geoip := p_geoip src,
          m_trusted_ips := p_trusted_ips src,
          m_host := opt_set (p_host src) (m_host dst),
          m_hostname := opt_set (p_hostname src) (m_hostname dst),
          m_port := opt_set (p_port src) (m_port dst),
          m_tls_mode := opt_set (p_tls_mode src) (m_tls_mode dst),
          m_tls_alpns := p_tls_alpns src,
          m_tls_min_version := opt_set (p_tls_min_version src) (m_tls_min_version dst),
          m_tls_ciphers := p_tls_ciphers src,
          m_mtls_auth := opt_set (p_mtls_auth src) (m_mtls_auth dst),
          m_http_version := opt_set (p_http_version src) (m_http_version dst),
          m_http_use_tls := opt_set (p_http_use_tls src) (m_http_use_tls dst),
          m_upstream_tls := opt_set (p_upstream_tls src) (m_upstream_tls dst),
          m_token_auth := opt_set (p_token_auth src) (m_token_auth dst),
          m_rstream_auth := opt_set (p_rstream_auth src) (m_rstream_auth dst),
          m_challenge_mode := opt_set (p_challenge_mode src) (m_challenge_mode dst),
          m_datagram_guaranteed_delivery := opt_set (p_datagram_guaranteed_delivery src) (m_datagram_guaranteed_delivery dst),
          m_allow_cross_region_routing := opt_set (p_allow_cross_region_routing src) (m_allow_cross_region_routing dst),
          m_http_cors := map_option http_cors_of_proto (p_http_cors src)\<rparr>))"

definition tunnel_norm :: "tunnel_properties \<Rightarrow> tunnel_properties" where
  "tunnel_norm p = p\<lparr>m_creation_date :=
     map_option (\<lambda>t. trunc_div t TICKS_PER_SECOND * TICKS_PER_SECOND) (m_creation_date p)\<rparr>"

definition tunnel_valid :: "tunnel_properties \<Rightarrow> bool" where
  "tunnel_valid p \<longleftrightarrow> (case m_creation_date p of None \<Rightarrow> True | Some t \<Rightarrow> in_int64 t)"

lemma trunc_div_bound: "0 < b \<Longrightarrow> \<bar>trunc_div a b * b\<bar> \<le> \<bar>a\<bar>"
proof -
  assume b: "0 < b"
  have "0 \<le> \<bar>a\<bar> div b" using b by (intro pos_imp_zdiv_nonneg_iff [THEN iffD2]) auto
  then have "\<bar>trunc_div a b * b\<bar> \<le> (\<bar>a\<bar> div b) * b"
    using b by (auto simp: trunc_div_def abs_mult sgn_if)
  also have "\<dots> \<le> \<bar>a\<bar>" using b div_mult_mod_eq [of "\<bar>a\<bar>" b] pos_mod_sign [of b "\<bar>a\<bar>"] by linarith
  finally show ?thesis .
qed

lemma trunc_div_sign: "0 < b \<Longrightarrow> 0 \<le> a \<Longrightarrow> 0 \<le> trunc_div a b * b" "0 < b \<Longrightarrow> a \<le> 0 \<Longrightarrow> trunc_div a b * b \<le> 0"
  by (auto simp: trunc_div_def sgn_if pos_imp_zdiv_nonneg_iff mult_nonneg_nonneg)

lemma trunc_div_mult: "0 < b \<Longrightarrow> trunc_div (q * b) b = q"
  by (auto simp: trunc_div_def sgn_if abs_mult mult_less_0_iff zero_less_mult_iff)

lemma trunc_in_int64: "in_int64 t \<Longrightarrow> in_int64 (trunc_div t TICKS_PER_SECOND * TICKS_PER_SECOND)"
proof -
  assume t: "in_int64 t"
  define x where "x = trunc_div t TICKS_PER_SECOND * TICKS_PER_SECOND"
  have "0 < TICKS_PER_SECOND" by (simp add: TICKS_PER_SECOND_def)
  then have "\<bar>x\<bar> \<le> \<bar>t\<bar>" "0 \<le> t \<Longrightarrow> 0 \<le> x" "t \<le> 0 \<Longrightarrow> x \<le> 0"
    unfolding x_def by (auto intro: trunc_div_bound trunc_div_sign)
  with t have "in_int64 x" unfolding in_int64_def by arith
  then show ?thesis by (simp only: x_def)
qed

text \<open>Through fresh messages everything but the fraction of a second of the creation date survives.\<close>

lemma tunnel_round_trip:
  assumes "tunnel_valid p"
  shows "convert_tunnel_properties_from empty_tunnel_properties
           (convert_tunnel_properties_to empty_proto_tunnel_properties p) = Some (tunnel_norm p)"
  using assms trunc_in_int64
  by (cases "m_creation_date p"; cases "m_http_cors p")
    (simp_all add: convert_tunnel_properties_from_def convert_tunnel_properties_to_def tunnel_norm_def
      tunnel_valid_def empty_tunnel_properties_def empty_proto_tunnel_properties_def)

interpretation tunnel: wire_converter "convert_tunnel_properties_to empty_proto_tunnel_properties"
  "convert_tunnel_properties_from empty_tunnel_properties" tunnel_norm tunnel_valid
proof unfold_locales
  fix p :: tunnel_properties
  show "tunnel_valid p \<Longrightarrow> convert_tunnel_properties_from empty_tunnel_properties
      (convert_tunnel_properties_to empty_proto_tunnel_properties p) = Some (tunnel_norm p)"
    by (rule tunnel_round_trip)
  show "tunnel_valid p \<Longrightarrow> tunnel_valid (tunnel_norm p)"
    by (cases "m_creation_date p") (auto simp: tunnel_valid_def tunnel_norm_def trunc_in_int64)
  show "tunnel_norm (tunnel_norm p) = tunnel_norm p"
    by (cases "m_creation_date p") (auto simp: tunnel_norm_def trunc_div_mult TICKS_PER_SECOND_def)
qed

section \<open>Properties\<close>



text \<open>
  Client details and addresses on the wire. Client details come back exactly; an IP address comes
  back without its IPv6 scope; and the conversion from the wire refuses exactly the messages without an
  address and the IPv6 addresses that are not sixteen bytes long.
\<close>

theorem details_and_addresses_wire:
  "convert_client_details_from empty_client_details (convert_client_details_to empty_proto_client_details d) = d
   \<and> (convert_ip_from w = None \<longleftrightarrow> w = Ip_not_set \<or> (\<exists>bs. w = Ip_v6 bs \<and> length bs \<noteq> 16))
   \<and> (\<forall>a. ip_valid a \<longrightarrow> convert_ip_from (convert_ip_to a) = Some (ip_norm a))"
proof (intro conjI)
  show "convert_client_details_from empty_client_details (convert_client_details_to empty_proto_client_details d) = d"
    by (rule client_details_round_trip)
  show "convert_ip_from w = None \<longleftrightarrow> w = Ip_not_set \<or> (\<exists>bs. w = Ip_v6 bs \<and> length bs \<noteq> 16)"
    by (cases w) auto
  show "\<forall>a. ip_valid a \<longrightarrow> convert_ip_from (convert_ip_to a) = Some (ip_norm a)" using ip.of_to by blast
qed

theorem details_and_addresses_wire_witness:
  "convert_ip_from (convert_ip_to (Addr_v6 (replicate 16 1) 5)) = Some (Addr_v6 (replicate 16 1) 0)"
  using details_and_addresses_wire [of empty_client_details Ip_not_set] by (auto dest!: spec [of _ "Addr_v6 (replicate 16 1) 5"])

end
