(* ===== verification/Config.thy ===== *)
theory Config
  imports ConfigFile Convert
begin

text \<open>
  Model of the settings part of \<open>lib/rstream/io-rstrm/io-rstrm.cpp\<close>, of \<open>io/detail/stream/url.cpp\<close>,
  \<open>io/address.cpp\<close> and \<open>io-rstrm/detail/stable_domain.hpp\<close>: settings from URL parameters, selection of
  a context and an environment, resolution of the token, the mTLS material and the engine address, the
  query parameters built from them, client details, and the stable domain. A parsed URL
  (\<open>boost::urls::url\<close>) is its host, its port and the list of its decoded parameters; what the build
  fixes (version, channel, platform, OpenSSL and PKCS#11 support) is the record \<open>build_info\<close>.
\<close>

section \<open>Addresses\<close>

type_synonym param = "string \<times> string option"

record address =
  a_str :: "string option"
  a_host :: string
  a_port :: string
  a_params :: "param list"

fun prefix_at :: "string \<Rightarrow> string \<Rightarrow> bool" where
  "prefix_at [] s = True"
| "prefix_at (p # ps) [] = False"
| "prefix_at (p # ps) (c # cs) = (p = c \<and> prefix_at ps cs)"

text \<open>\<open>s.find(p) != npos\<close>\<close>

fun str_contains :: "string \<Rightarrow> string \<Rightarrow> bool" where
  "str_contains [] p = prefix_at p []"
| "str_contains (c # cs) p = (prefix_at p (c # cs) \<or> str_contains cs p)"

definition char_in :: "nat \<Rightarrow> nat \<Rightarrow> char \<Rightarrow> bool" where
  "char_in lo hi c \<longleftrightarrow> lo \<le> (of_char c :: nat) \<and> (of_char c :: nat) \<le> hi"

definition is_digit :: "char \<Rightarrow> bool" where "is_digit c = char_in 48 57 c"
definition is_lower :: "char \<Rightarrow> bool" where "is_lower c = char_in 97 122 c"
definition is_upper :: "char \<Rightarrow> bool" where "is_upper c = char_in 65 90 c"
definition is_alnum :: "char \<Rightarrow> bool" where "is_alnum c = (is_digit c \<or> is_lower c \<or> is_upper c)"
definition is_xdigit :: "char \<Rightarrow> bool" where
  "is_xdigit c = (is_digit c \<or> char_in 97 102 c \<or> char_in 65 70 c)"

definition to_lower :: "char \<Rightarrow> char" where
  "to_lower c = (if is_upper c then char_of ((of_char c :: nat) + 32) else c)"

definition normalize_str :: "string \<Rightarrow> string" where
  "normalize_str str =
     (if str_contains str ''://'' then str
      else ''tcp://'' @ (if list_all is_digit str then ''localhost:'' @ str else str))"

section \<open>URL parameters\<close>

definition stream_invalid_argument :: error_code where
  "stream_invalid_argument = EC Stream_cat 2"

text \<open>The two parameters in and out of \<open>parse_url_param_value\<close>: the destination and the error code.\<close>

definition parse_url_bool :: "bool \<Rightarrow> param \<Rightarrow> error_code \<Rightarrow> bool \<times> error_code" where
  "parse_url_bool dst p ec =
     (case snd p of
        Some v \<Rightarrow> if v = ''true'' then (True, ec)
                  else if v = ''false'' then (False, ec)
                  else (dst, stream_invalid_argument)
      | None \<Rightarrow> (True, ec))"

definition parse_url_string :: "string option \<Rightarrow> param \<Rightarrow> error_code \<Rightarrow> string option \<times> error_code" where
  "parse_url_string dst p ec =
     (case snd p of Some v \<Rightarrow> (Some v, ec) | None \<Rightarrow> (dst, stream_invalid_argument))"

definition find_param :: "param list \<Rightarrow> string \<Rightarrow> param option" where
  "find_param ps k = find (\<lambda>p. fst p = k) ps"

text \<open>\<open>std::getline\<close> with a delimiter, until it fails.\<close>

function split :: "string \<Rightarrow> char \<Rightarrow> string list" where
  "split [] d = []"
| "split (c # cs) d =
     takeWhile (\<lambda>x. x \<noteq> d) (c # cs) # split (drop 1 (dropWhile (\<lambda>x. x \<noteq> d) (c # cs))) d"
  by pat_completeness auto
termination
proof (relation "measure (length \<circ> fst)")
  show "((drop 1 (dropWhile (\<lambda>x. x \<noteq> d) (c # cs)), d), (c # cs, d)) \<in> measure (length \<circ> fst)" for d c and cs :: string
    using length_dropWhile_le [of "\<lambda>x. x \<noteq> d" "c # cs"] by simp
qed simp

section \<open>Settings\<close>

record config =
  cfg_max_buffer_size :: nat
  cfg_zero_rtt :: bool
  cfg_no_token :: bool
  cfg_token :: "string option"
  cfg_token_from_uri_param :: bool
  cfg_config_path :: "string option"

record config_client = config +
  cfg_connection_timeout_ms :: nat
  cfg_async_stream_operation :: bool
  cfg_max_ongoing_streams :: nat
  cfg_hearbeat :: bool
  cfg_heartbeat_interval_ms :: nat

record settings_acceptor =
  sa_config :: config_client
  sa_auto_reconnect :: bool
  sa_reconnect_timeout_ms :: nat
  sa_auto_recreate_tunnel :: bool
  sa_recreate_tunnel_timeout_ms :: nat
  sa_tunnel_properties :: tunnel_properties

definition config_client0 :: "bool \<Rightarrow> config_client" where
  "config_client0 debug_build =
     \<lparr>cfg_max_buffer_size = 65535, cfg_zero_rtt = (\<not> debug_build), cfg_no_token = False, cfg_token = None,
      cfg_token_from_uri_param = False, cfg_config_path = None, cfg_connection_timeout_ms = 30000,
      cfg_async_stream_operation = True, cfg_max_ongoing_streams = 50, cfg_hearbeat = True,
      cfg_heartbeat_interval_ms = 10000\<rparr>"

definition settings_acceptor0 :: "bool \<Rightarrow> settings_acceptor" where
  "settings_acceptor0 debug_build =
     \<lparr>sa_config = config_client0 debug_build, sa_auto_reconnect = True, sa_reconnect_timeout_ms = 5000,
      sa_auto_recreate_tunnel = True, sa_recreate_tunnel_timeout_ms = 5000,
      sa_tunnel_properties = empty_tunnel_properties\<rparr>"

text \<open>
  The macros \<open>PARSE_PARAMS_VIEW_*\<close>. The boolean one declares \<open>bool value;\<close> without an initial value
  and stores it even when the parameter does not parse: \<open>junk\<close> stands for that indeterminate value.
\<close>

definition view_bool ::
  "bool \<Rightarrow> param list \<Rightarrow> string \<Rightarrow> (bool \<Rightarrow> tunnel_properties \<Rightarrow> tunnel_properties)
     \<Rightarrow> tunnel_properties \<times> error_code \<Rightarrow> tunnel_properties \<times> error_code" where
  "view_bool junk ps name upd = (\<lambda>(pr, ec).
     if ec_failed ec then (pr, ec)
     else case find_param ps (''rstrm.'' @ name) of
            None \<Rightarrow> (pr, ec)
          | Some p \<Rightarrow> (case parse_url_bool junk p ec of (v, ec') \<Rightarrow> (upd v pr, ec')))"

definition view_string ::
  "param list \<Rightarrow> string \<Rightarrow> (tunnel_properties \<Rightarrow> string option) \<Rightarrow> (string option \<Rightarrow> tunnel_properties \<Rightarrow> tunnel_properties)
     \<Rightarrow> tunnel_properties \<times> error_code \<Rightarrow> tunnel_properties \<times> error_code" where
  "view_string ps name get upd = (\<lambda>(pr, ec).
     if ec_failed ec then (pr, ec)
     else case find_param ps (''rstrm.'' @ name) of
            None \<Rightarrow> (pr, ec)
          | Some p \<Rightarrow> (case parse_url_string (get pr) p ec of (v, ec') \<Rightarrow> (upd v pr, ec')))"

definition view_vec ::
  "param list \<Rightarrow> string \<Rightarrow> (string list \<Rightarrow> tunnel_properties \<Rightarrow> tunnel_properties)
     \<Rightarrow> tunnel_properties \<times> error_code \<Rightarrow> tunnel_properties \<times> error_code" where
  "view_vec ps name upd = (\<lambda>(pr, ec).
     if ec_failed ec then (pr, ec)
     else case find_param ps (''rstrm.'' @ name) of
            None \<Rightarrow> (pr, ec)
          | Some p \<Rightarrow>
              (case parse_url_string None p ec of
                 (Some v, ec') \<Rightarrow> if ec_failed ec' then (pr, ec') else (upd (split v CHR '','') pr, ec')
               | (None, ec') \<Rightarrow> (pr, ec')))"

text \<open>A label without the delimiter is ignored.\<close>

definition add_label :: "string \<Rightarrow> tunnel_properties \<Rightarrow> tunnel_properties" where
  "add_label l pr =
     (case dropWhile (\<lambda>c. c \<noteq> CHR ''='') l of
        [] \<Rightarrow> pr
      | _ # v \<Rightarrow> pr\<lparr>m_labels := (m_labels pr)(takeWhile (\<lambda>c. c \<noteq> CHR ''='') l \<mapsto> v)\<rparr>)"

fun view_labels_loop :: "param list \<Rightarrow> tunnel_properties \<times> error_code \<Rightarrow> tunnel_properties \<times> error_code" where
  "view_labels_loop [] s = s"
| "view_labels_loop (p # ps) (pr, ec) =
     view_labels_loop ps
       (if fst p = ''rstrm.labels'' then
          (case parse_url_string None p ec of
             (Some l, ec') \<Rightarrow> if ec_failed ec' then (pr, ec') else (add_label l pr, ec')
           | (None, ec') \<Rightarrow> (pr, ec'))
        else (pr, ec))"

definition view_labels :: "param list \<Rightarrow> tunnel_properties \<times> error_code \<Rightarrow> tunnel_properties \<times> error_code" where
  "view_labels ps s = (if ec_failed (snd s) then s else view_labels_loop ps s)"

text \<open>\<open>std::from_chars\<close> for \<open>std::int64_t\<close>: the value and what follows it.\<close>

definition dec_value :: "string \<Rightarrow> int" where
  "dec_value ds = fold (\<lambda>c v. v * 10 + (of_char c - 48)) ds 0"

definition from_chars_int64 :: "string \<Rightarrow> (int \<times> string) option" where
  "from_chars_int64 s =
     (let neg = (case s of [] \<Rightarrow> False | c # cs \<Rightarrow> c = CHR ''-'');
          body = (if neg then drop 1 s else s);
          ds = takeWhile is_digit body;
          v = (if neg then - dec_value ds else dec_value ds)
      in if ds = [] \<or> \<not> in_int64 v then None else Some (v, dropWhile is_digit body))"

definition empty_http_cors :: http_cors where
  "empty_http_cors = \<lparr>m_allowed_origins = [], m_allowed_methods = [], m_allowed_headers = [], m_exposed_headers = [],
     m_allow_credentials = False, m_max_age = 0\<rparr>"

text \<open>One parameter \<open>rstrm.http_cors.*\<close> that has a value.\<close>

definition set_cors :: "string \<Rightarrow> string \<Rightarrow> http_cors \<Rightarrow> http_cors \<times> error_code" where
  "set_cors key v c =
     (if key = ''rstrm.http_cors.allowed_origins'' then (c\<lparr>m_allowed_origins := split v CHR '',''\<rparr>, ec_ok)
      else if key = ''rstrm.http_cors.allowed_methods'' then (c\<lparr>m_allowed_methods := split v CHR '',''\<rparr>, ec_ok)
      else if key = ''rstrm.http_cors.allowed_headers'' then (c\<lparr>m_allowed_headers := split v CHR '',''\<rparr>, ec_ok)
      else if key = ''rstrm.http_cors.exposed_headers'' then (c\<lparr>m_exposed_headers := split v CHR '',''\<rparr>, ec_ok)
      else if key = ''rstrm.http_cors.max_age'' then
        (case from_chars_int64 v of
           None \<Rightarrow> (c, rstrm_ec Invalid_configuration)
         | Some (n, rest) \<Rightarrow>
             (c\<lparr>m_max_age := of_int n\<rparr>,
              if rest \<noteq> [] \<or> n < 0 \<or> n > 86400 then rstrm_ec Invalid_configuration else ec_ok))
      else (c, rstrm_ec Invalid_configuration))"

text \<open>The loop over all parameters; the third result says that the function has returned from inside it.\<close>

fun cors_loop :: "param list \<Rightarrow> tunnel_properties \<Rightarrow> error_code \<Rightarrow> tunnel_properties \<times> error_code \<times> bool" where
  "cors_loop [] pr ec = (pr, ec, False)"
| "cors_loop (p # ps) pr ec =
     (if \<not> prefix_at ''rstrm.http_cors.'' (fst p) \<or> ec_failed ec then cors_loop ps pr ec
      else
        let c = (case m_http_cors pr of None \<Rightarrow> empty_http_cors | Some c \<Rightarrow> c);
            pr1 = pr\<lparr>m_http_cors := Some c\<rparr>
        in if fst p = ''rstrm.http_cors.allow_credentials'' then
             (case parse_url_bool (m_allow_credentials c) p ec of
                (b, ec') \<Rightarrow> cors_loop ps (pr1\<lparr>m_http_cors := Some (c\<lparr>m_allow_credentials := b\<rparr>)\<rparr>) ec')
           else
             case snd p of
               None \<Rightarrow> (pr1, stream_invalid_argument, True)
             | Some v \<Rightarrow>
                 (case set_cors (fst p) v c of
                    (c', ec') \<Rightarrow> cors_loop ps (pr1\<lparr>m_http_cors := Some c'\<rparr>) (if ec_failed ec' then ec' else ec)))"

definition cors_conflict :: "tunnel_properties \<Rightarrow> bool" where
  "cors_conflict pr \<longleftrightarrow>
     (case m_http_cors pr of
        None \<Rightarrow> False
      | Some c \<Rightarrow> m_allowed_origins c = [] \<or> m_publish pr = Some False
          \<or> (case m_protocol pr of None \<Rightarrow> False | Some q \<Rightarrow> q \<noteq> ''http''))"

definition parse_tunnel_views :: "bool \<Rightarrow> param list \<Rightarrow> tunnel_properties \<times> error_code \<Rightarrow> tunnel_properties \<times> error_code" where
  "parse_tunnel_views junk ps s0 =
     (let s1 = view_string ps ''type'' m_type (\<lambda>v r. r\<lparr>m_type := v\<rparr>) s0;
          s2 = view_bool junk ps ''publish'' (\<lambda>v r. r\<lparr>m_publish := Some v\<rparr>) s1;
          s3 = view_string ps ''protocol'' m_protocol (\<lambda>v r. r\<lparr>m_protocol := v\<rparr>) s2;
          s4 = view_labels ps s3;
          s5 = view_vec ps ''geoip'' (\<lambda>v r. r\<lparr>m_geoip := v\<rparr>) s4;
          s6 = view_vec ps ''trusted_ips'' (\<lambda>v r. r\<lparr>m_trusted_ips := v\<rparr>) s5;
          s7 = view_string ps ''host'' m_host (\<lambda>v r. r\<lparr>m_host := v\<rparr>) s6;
          s8 = view_string ps ''hostname'' m_hostname (\<lambda>v r. r\<lparr>m_hostname := v\<rparr>) s7;
          s9 = view_string ps ''tls_min_version'' m_tls_min_version (\<lambda>v r. r\<lparr>m_tls_min_version := v\<rparr>) s8;
          s10 = view_vec ps ''tls_ciphers'' (\<lambda>v r. r\<lparr>m_tls_ciphers := v\<rparr>) s9;
          s11 = view_bool junk ps ''mtls_auth'' (\<lambda>v r. r\<lparr>m_mtls_auth := Some v\<rparr>) s10;
          s12 = view_string ps ''http_version'' m_http_version (\<lambda>v r. r\<lparr>m_http_version := v\<rparr>) s11;
          s13 = view_bool junk ps ''http_use_tls'' (\<lambda>v r. r\<lparr>m_http_use_tls := Some v\<rparr>) s12;
          s14 = view_bool junk ps ''upstream_tls'' (\<lambda>v r. r\<lparr>m_upstream_tls := Some v\<rparr>) s13;
          s15 = view_bool junk ps ''token_auth'' (\<lambda>v r. r\<lparr>m_token_auth := Some v\<rparr>) s14;
          s16 = view_bool junk ps ''rstream_auth'' (\<lambda>v r. r\<lparr>m_rstream_auth := Some v\<rparr>) s15;
          s17 = view_bool junk ps ''challenge_mode'' (\<lambda>v r. r\<lparr>m_challenge_mode := Some v\<rparr>) s16;
          s18 = view_bool junk ps ''datagram_guaranteed_delivery'' (\<lambda>v r. r\<lparr>m_datagram_guaranteed_delivery := Some v\<rparr>) s17;
          s19 = view_bool junk ps ''allow_cross_region_routing'' (\<lambda>v r. r\<lparr>m_allow_cross_region_routing := Some v\<rparr>) s18;
          s20 = view_string ps ''tls_mode'' m_tls_mode (\<lambda>v r. r\<lparr>m_tls_mode := v\<rparr>) s19
      in view_vec ps ''tls_alpns'' (\<lambda>v r. r\<lparr>m_tls_alpns := v\<rparr>) s20)"

definition parse_tunnel_properties ::
  "bool \<Rightarrow> param list \<Rightarrow> tunnel_properties \<Rightarrow> error_code \<Rightarrow> tunnel_properties \<times> error_code" where
  "parse_tunnel_properties junk ps pr ec =
     (case parse_tunnel_views junk ps (pr, ec) of
        (pr1, ec1) \<Rightarrow>
          (case cors_loop ps pr1 ec1 of
             (pr2, ec2, returned) \<Rightarrow>
               if \<not> returned \<and> cors_conflict pr2 then (pr2, rstrm_ec Invalid_configuration) else (pr2, ec2)))"

definition parse_config :: "param list \<Rightarrow> 'a config_scheme \<Rightarrow> error_code \<Rightarrow> 'a config_scheme \<times> error_code" where
  "parse_config ps cfg ec =
     (let (cfg1, ec1) =
            (if ec_failed ec then (cfg, ec)
             else case find_param ps ''rstream.no_token'' of
                    None \<Rightarrow> (cfg, ec)
                  | Some p \<Rightarrow> (case parse_url_bool (cfg_no_token cfg) p ec of (b, ec') \<Rightarrow> (cfg\<lparr>cfg_no_token := b\<rparr>, ec')))
      in if ec_failed ec1 then (cfg1, ec1)
         else case find_param ps ''rstream.token'' of
                None \<Rightarrow> (cfg1, ec1)
              | Some p \<Rightarrow>
                  if cfg_no_token cfg1 then (cfg1, rstrm_ec Invalid_configuration)
                  else (case parse_url_string (cfg_token cfg1) p ec1 of
                          (t, ec') \<Rightarrow> (cfg1\<lparr>cfg_token := t, cfg_token_from_uri_param := (\<not> ec_failed ec')\<rparr>, ec')))"

definition parse_settings_acceptor ::
  "bool \<Rightarrow> param list \<Rightarrow> settings_acceptor \<Rightarrow> error_code \<Rightarrow> settings_acceptor \<times> error_code" where
  "parse_settings_acceptor junk ps sa ec =
     (let (sa1, ec1) = (if ec_failed ec then (sa, ec)
                        else case parse_config ps (sa_config sa) ec of (c, ec') \<Rightarrow> (sa\<lparr>sa_config := c\<rparr>, ec'));
          (sa2, ec2) = (if ec_failed ec1 then (sa1, ec1)
                        else case find_param ps ''rstream.retry'' of
                               None \<Rightarrow> (sa1, ec1)
                             | Some p \<Rightarrow> (case parse_url_bool (sa_auto_reconnect sa1) p ec1 of
                                            (b, ec') \<Rightarrow> (sa1\<lparr>sa_auto_reconnect := b\<rparr>, ec')))
      in if ec_failed ec2 then (sa2, ec2)
         else case parse_tunnel_properties junk ps (sa_tunnel_properties sa2) ec2 of
                (pr, ec') \<Rightarrow> (sa2\<lparr>sa_tunnel_properties := pr\<rparr>, ec'))"

section \<open>Cross-origin settings\<close>

text \<open>The parameter views leave the cross-origin policy alone.\<close>

lemma view_bool_cors [simp]:
  "(\<And>v r. m_http_cors (upd v r) = m_http_cors r) \<Longrightarrow> m_http_cors (fst (view_bool junk ps n upd s)) = m_http_cors (fst s)"
  by (cases s) (auto simp: view_bool_def split: option.splits prod.splits)

lemma view_string_cors [simp]:
  "(\<And>v r. m_http_cors (upd v r) = m_http_cors r) \<Longrightarrow> m_http_cors (fst (view_string ps n get upd s)) = m_http_cors (fst s)"
  by (cases s) (auto simp: view_string_def split: option.splits prod.splits)

lemma view_vec_cors [simp]:
  "(\<And>v r. m_http_cors (upd v r) = m_http_cors r) \<Longrightarrow> m_http_cors (fst (view_vec ps n upd s)) = m_http_cors (fst s)"
  by (cases s) (auto simp: view_vec_def split: option.splits prod.splits)

lemma add_label_cors [simp]: "m_http_cors (add_label l pr) = m_http_cors pr"
  by (simp add: add_label_def split: list.splits)

lemma view_labels_cors [simp]: "m_http_cors (fst (view_labels ps s)) = m_http_cors (fst s)"
proof -
  have "m_http_cors (fst (view_labels_loop ps s)) = m_http_cors (fst s)"
    by (induction ps s rule: view_labels_loop.induct) (auto split: option.splits prod.splits)
  then show ?thesis by (simp add: view_labels_def)
qed

lemma parse_tunnel_views_cors: "m_http_cors (fst (parse_tunnel_views junk ps s)) = m_http_cors (fst s)"
  by (simp add: parse_tunnel_views_def Let_def)

definition age_ok :: "tunnel_properties \<Rightarrow> bool" where
  "age_ok pr \<longleftrightarrow> (case m_http_cors pr of None \<Rightarrow> True | Some c \<Rightarrow> unat (m_max_age c) \<le> 86400)"

lemma max_age_word: "0 \<le> n \<Longrightarrow> n \<le> 86400 \<Longrightarrow> unat (of_int n :: 64 word) \<le> 86400"
proof -
  assume "0 \<le> n" "n \<le> 86400"
  then have "of_int n = (of_nat (nat n) :: 64 word)" "nat n \<le> 86400" by auto
  then show ?thesis by (simp add: unat_of_nat take_bit_nat_eq_self)
qed

lemma set_cors_age:
  assumes "unat (m_max_age c) \<le> 86400" and "set_cors k v c = (c', ec)" and "\<not> ec_failed ec"
  shows "unat (m_max_age c') \<le> 86400"
  using assms max_age_word unfolding set_cors_def
  by (auto split: if_splits option.splits prod.splits)

lemma cors_loop_age:
  assumes "cors_loop ps pr ec = (pr', ec', ret)" and "\<not> ec_failed ec'" and "ec_failed ec \<or> age_ok pr"
  shows "age_ok pr' \<and> \<not> ret"
  using assms
proof (induction ps arbitrary: pr ec)
  case Nil
  then show ?case by auto
next
  case (Cons p ps)
  show ?case
  proof (cases "\<not> prefix_at ''rstrm.http_cors.'' (fst p) \<or> ec_failed ec")
    case True
    then have "cors_loop (p # ps) pr ec = cors_loop ps pr ec" by auto
    with Cons show ?thesis by simp
  next
    case False
    define c where "c = (case m_http_cors pr of None \<Rightarrow> empty_http_cors | Some c \<Rightarrow> c)"
    have c: "unat (m_max_age c) \<le> 86400"
      using Cons.prems(3) False by (auto simp: c_def age_ok_def empty_http_cors_def split: option.splits)
    show ?thesis
    proof (cases "fst p = ''rstrm.http_cors.allow_credentials''")
      case True
      obtain b ec1 where b: "parse_url_bool (m_allow_credentials c) p ec = (b, ec1)" by fastforce
      with Cons.prems(1) False True
      have "cors_loop ps (pr\<lparr>m_http_cors := Some (c\<lparr>m_allow_credentials := b\<rparr>)\<rparr>) ec1 = (pr', ec', ret)"
        by (simp add: c_def Let_def)
      from Cons.IH [OF this Cons.prems(2)] c show ?thesis by (simp add: age_ok_def)
    next
      case F2: False
      show ?thesis
      proof (cases "snd p")
        case None
        with Cons.prems False F2 show ?thesis by (auto simp: Let_def stream_invalid_argument_def)
      next
        case (Some v)
        obtain c1 ec1 where s: "set_cors (fst p) v c = (c1, ec1)" by fastforce
        with Cons.prems(1) False F2 Some
        have l: "cors_loop ps (pr\<lparr>m_http_cors := Some c1\<rparr>) (if ec_failed ec1 then ec1 else ec) = (pr', ec', ret)"
          by (simp add: c_def Let_def)
        have "ec_failed (if ec_failed ec1 then ec1 else ec) \<or> age_ok (pr\<lparr>m_http_cors := Some c1\<rparr>)"
          using set_cors_age [OF c s] by (simp add: age_ok_def)
        from Cons.IH [OF l Cons.prems(2) this] show ?thesis .
      qed
    qed
  qed
qed

section \<open>Properties\<close>

text \<open>
  C38: tunnel properties read from a URL. When parsing reports no error and a cross-origin policy has
  been set, the policy names at least one origin, its maximal age lies between zero and one day, the
  tunnel is not explicitly unpublished and its protocol, when given, is HTTP.
\<close>

theorem tunnel_cors_sound:
  assumes "parse_tunnel_properties junk ps pr0 ec_ok = (pr, ec)" and "\<not> ec_failed ec"
    and "m_http_cors pr0 = None" and "m_http_cors pr = Some c"
  shows "m_allowed_origins c \<noteq> [] \<and> unat (m_max_age c) \<le> 86400 \<and> m_publish pr \<noteq> Some False
       \<and> (m_protocol pr = None \<or> m_protocol pr = Some ''http'')"
proof -
  obtain pr1 ec1 where v: "parse_tunnel_views junk ps (pr0, ec_ok) = (pr1, ec1)" by fastforce
  obtain pr2 ec2 ret where l: "cors_loop ps pr1 ec1 = (pr2, ec2, ret)" by (metis prod_cases3)
  from assms(1,2) v l have e: "pr = pr2" "ec = ec2" "ret \<or> \<not> cors_conflict pr2"
    by (auto simp: parse_tunnel_properties_def split: if_splits)
  have "age_ok pr1"
    using parse_tunnel_views_cors [of junk ps "(pr0, ec_ok)"] v assms(3) by (simp add: age_ok_def)
  with cors_loop_age [OF l] assms(2) e have "age_ok pr2" "\<not> cors_conflict pr2" by auto
  with assms(4) e(1) show ?thesis by (auto simp: age_ok_def cors_conflict_def split: option.splits)
qed

definition w_cors_params :: "param list" where
  "w_cors_params = [(''rstrm.protocol'', Some ''http''), (''rstrm.http_cors.allowed_origins'', Some ''https://a,https://b''),
     (''rstrm.http_cors.max_age'', Some ''600'')]"

theorem tunnel_cors_sound_witness:
  "\<exists>c. m_http_cors (fst (parse_tunnel_properties True w_cors_params empty_tunnel_properties ec_ok)) = Some c
     \<and> m_allowed_origins c \<noteq> [] \<and> unat (m_max_age c) \<le> 86400"
proof -
  define r where "r = parse_tunnel_properties True w_cors_params empty_tunnel_properties ec_ok"
  obtain pr ec where r: "r = (pr, ec)" by fastforce
  have "\<not> ec_failed (snd r)" unfolding r_def by code_simp
  moreover have "m_http_cors empty_tunnel_properties = None" by code_simp
  moreover obtain c where "m_http_cors (fst r) = Some c"
  proof -
    have "m_http_cors (fst r) \<noteq> None" unfolding r_def by code_simp
    then show ?thesis using that by blast
  qed
  ultimately show ?thesis
    using tunnel_cors_sound [of True w_cors_params empty_tunnel_properties pr ec c] r unfolding r_def by simp
qed

text \<open>
  A URL cannot both forbid and supply a token. When \<open>rstream.no_token\<close> is in force after parsing,
  either no token came from the URL or parsing has failed; and a token reported as coming from the URL
  is the value of its \<open>rstream.token\<close> parameter.
\<close>

theorem parse_config_token:
  assumes "parse_config ps cfg ec_ok = (cfg', ec)" and "\<not> ec_failed ec" and "\<not> cfg_token_from_uri_param cfg"
  shows "\<not> (cfg_no_token cfg' \<and> cfg_token_from_uri_param cfg')
       \<and> (cfg_token_from_uri_param cfg' \<longrightarrow>
            (\<exists>t. find_param ps ''rstream.token'' = Some (''rstream.token'', Some t) \<and> cfg_token cfg' = Some t))"
proof -
  have key: "find_param ps k = Some p \<Longrightarrow> fst p = k" for k p
    by (auto simp: find_param_def find_Some_iff)
  show ?thesis
    using assms key unfolding parse_config_def Let_def
    by (auto simp: parse_url_string_def stream_invalid_argument_def parse_url_bool_def
        split: if_splits option.splits prod.splits)
qed

theorem parse_config_token_witness:
  "\<not> ec_failed (snd (parse_config [(''rstream.token'', Some ''t'')] (config_client0 False) ec_ok))
   \<and> cfg_token (fst (parse_config [(''rstream.token'', Some ''t'')] (config_client0 False) ec_ok)) = Some ''t''"
proof -
  define r where "r = parse_config [(''rstream.token'', Some ''t'')] (config_client0 False) ec_ok"
  obtain cfg' ec where r: "r = (cfg', ec)" by fastforce
  have "\<not> ec_failed (snd r)" "cfg_token_from_uri_param (fst r)" "\<not> cfg_token_from_uri_param (config_client0 False)"
    by (simp_all add: r_def parse_config_def config_client0_def find_param_def parse_url_string_def)
  moreover have "find_param [(''rstream.token'', Some ''t'')] ''rstream.token'' = Some (''rstream.token'', Some ''t'')"
    by code_simp
  ultimately show ?thesis
    using parse_config_token [of "[(''rstream.token'', Some ''t'')]" "config_client0 False" cfg' ec] r
    unfolding r_def by auto
qed

end
