(* ===== verification/Resolve.thy ===== *)
theory Resolve
  imports Config
begin

text \<open>
  Model of the resolution part of \<open>lib/rstream/io-rstrm/io-rstrm.cpp\<close>: the tunnel transport mode, the
  selection of a context and an environment, the token, the mTLS material, the engine address and its
  query parameters, the client details and the forwarding descriptions.
\<close>

record build_info =
  b_channel :: "string option"
  b_os :: string
  b_arch :: string
  b_version :: string
  b_protocol_version :: "string option"
  b_openssl_35 :: bool
  b_with_pkcs11 :: bool

section \<open>Selection\<close>

record resolved_config =
  rc_api_url :: string
  rc_environment :: "config_environment option"
  rc_context :: "config_context option"

definition transport_proxy_requested :: "config_proxy \<Rightarrow> bool" where
  "transport_proxy_requested p \<longleftrightarrow>
     cp_http p \<noteq> [] \<or> cp_socks5 p \<noteq> [] \<or> cp_username p \<noteq> [] \<or> cp_password p \<noteq> [] \<or> cp_from_environment p
     \<or> cp_headers p \<noteq> [] \<or> tls_present (cp_tls p)"

definition transport_mode_from_config :: "config_transport \<Rightarrow> error_code + string" where
  "transport_mode_from_config t =
     (if tr_mode_present t then
        (if tr_mode t = [] then Inl (rstrm_ec Invalid_configuration) else Inr (tr_mode t))
      else if tr_use_quic_present t then
        (if \<not> tr_use_quic_valid t then Inl (rstrm_ec Invalid_configuration)
         else Inr (if tr_use_quic t then ''quic'' else ''tls''))
      else Inr [])"

text \<open>The mode before it is checked: environment variables, then the context, then the environment.\<close>

definition requested_transport_mode ::
  "outside \<Rightarrow> config_environment option \<Rightarrow> config_context option \<Rightarrow> error_code + string" where
  "requested_transport_mode os env ctx =
     (let m0 = getenv_trim os ''RSTREAM_TUNNEL_TRANSPORT'';
          legacy = getenv_trim os ''RSTREAM_QUIC_TRANSPORT'';
          m1 = (if m0 = [] \<and> legacy \<noteq> [] then (if legacy = ''1'' then ''quic'' else ''tls'') else m0)
      in case (case ctx of Some c \<Rightarrow> if m1 = [] then transport_mode_from_config (cc_transport c) else Inr m1
                         | None \<Rightarrow> Inr m1) of
           Inl e \<Rightarrow> Inl e
         | Inr m2 \<Rightarrow>
             (case env of Some e \<Rightarrow> if m2 = [] then transport_mode_from_config (ce_transport e) else Inr m2
                        | None \<Rightarrow> Inr m2))"

definition resolve_tunnel_transport_mode ::
  "outside \<Rightarrow> config_environment option \<Rightarrow> config_context option \<Rightarrow> error_code + string" where
  "resolve_tunnel_transport_mode os env ctx =
     (case requested_transport_mode os env ctx of
        Inl e \<Rightarrow> Inl e
      | Inr m \<Rightarrow>
          (let mode = map to_lower (if m = [] then ''auto'' else m) in
           if mode \<noteq> ''auto'' \<and> mode \<noteq> ''tls'' \<and> mode \<noteq> ''quic'' then Inl (rstrm_ec Invalid_configuration)
           else if mode = ''quic'' then Inl (rstrm_ec Invalid_configuration)
           else Inr ''tls''))"

text \<open>The context: unique by name, or by name and explicit URL, or the unique one without URL.\<close>

definition select_context :: "config_file \<Rightarrow> string \<Rightarrow> string \<Rightarrow> error_code + config_context" where
  "select_context cfg api_url_explicit context_name =
     (let matches = filter (\<lambda>c. cc_name c = context_name) (cf_contexts cfg) in
      if matches = [] then Inl (rstrm_ec Invalid_configuration)
      else if api_url_explicit \<noteq> [] then
        (let exact = filter (\<lambda>c. cc_api_url c = api_url_explicit) matches in
         case exact of
           [c] \<Rightarrow> Inr c
         | [] \<Rightarrow> (case filter (\<lambda>c. cc_api_url c = []) matches of
                    [c] \<Rightarrow> Inr c
                  | _ \<Rightarrow> Inl (rstrm_ec Invalid_configuration))
         | _ \<Rightarrow> Inl (rstrm_ec Invalid_configuration))
      else (case matches of [c] \<Rightarrow> Inr c | _ \<Rightarrow> Inl (rstrm_ec Invalid_configuration)))"

definition default_api_url :: string where
  "default_api_url = ''https://rstream.io''"

text \<open>What follows the choice of the context: the URL, the environment, the transport checks.\<close>

definition finish_selection :: "outside \<Rightarrow> config_file \<Rightarrow> string \<Rightarrow> config_context option \<Rightarrow> error_code + resolved_config" where
  "finish_selection os cfg url ctx =
     (let api_url = (if url = [] then default_api_url else url);
          env0 = find (\<lambda>e. ce_api_url e = api_url) (cf_environments cfg);
          env = (case ctx of Some c \<Rightarrow> if cc_api_url c = [] then None else env0 | None \<Rightarrow> env0)
      in case resolve_tunnel_transport_mode os env ctx of
           Inl e \<Rightarrow> Inl e
         | Inr _ \<Rightarrow>
             if (case ctx of Some c \<Rightarrow> transport_proxy_requested (tr_proxy (cc_transport c)) | None \<Rightarrow> False)
                \<or> (case env of Some e \<Rightarrow> transport_proxy_requested (tr_proxy (ce_transport e)) | None \<Rightarrow> False)
             then Inl (rstrm_ec Invalid_configuration)
             else Inr \<lparr>rc_api_url = api_url, rc_environment = env, rc_context = ctx\<rparr>)"

definition resolve_config_selection :: "outside \<Rightarrow> config_file \<Rightarrow> string \<Rightarrow> string \<Rightarrow> error_code + resolved_config" where
  "resolve_config_selection os cfg api_url_explicit context_name =
     (if context_name \<noteq> [] then
        (case select_context cfg api_url_explicit context_name of
           Inl e \<Rightarrow> Inl e
         | Inr c \<Rightarrow>
             if api_url_explicit \<noteq> [] \<and> cc_api_url c \<noteq> [] \<and> cc_api_url c \<noteq> api_url_explicit
             then Inl (rstrm_ec Invalid_configuration)
             else finish_selection os cfg
                    (if api_url_explicit = [] \<and> cc_api_url c \<noteq> [] then cc_api_url c else api_url_explicit) (Some c))
      else finish_selection os cfg api_url_explicit None)"

section \<open>Credentials\<close>

definition resolve_token_from_auth :: "config_auth \<Rightarrow> error_code + string option" where
  "resolve_token_from_auth auth =
     (let t = ca_token auth in
      if \<not> ct_present t then Inr None
      else if ct_kind t \<noteq> [] \<and> ct_kind t \<noteq> ''inline'' then Inl (rstrm_ec Invalid_configuration)
      else if ct_value t = [] then Inr None
      else Inr (Some (ct_value t)))"

definition resolve_token_from_config :: "outside \<Rightarrow> config_file \<Rightarrow> string \<Rightarrow> string \<Rightarrow> error_code + string option" where
  "resolve_token_from_config os cfg api_url_explicit context_name =
     (case resolve_config_selection os cfg api_url_explicit context_name of
        Inl e \<Rightarrow> Inl e
      | Inr r \<Rightarrow>
          (case (case rc_context r of Some c \<Rightarrow> resolve_token_from_auth (cc_auth c) | None \<Rightarrow> Inr None) of
             Inl e \<Rightarrow> Inl e
           | Inr (Some t) \<Rightarrow> Inr (Some t)
           | Inr None \<Rightarrow>
               (case rc_environment r of Some e \<Rightarrow> resolve_token_from_auth (ce_auth e) | None \<Rightarrow> Inr None)))"

definition resolve_engine_from_config :: "outside \<Rightarrow> config_file \<Rightarrow> string \<Rightarrow> string \<Rightarrow> error_code + string option" where
  "resolve_engine_from_config os cfg api_url_explicit context_name =
     (case resolve_config_selection os cfg api_url_explicit context_name of
        Inl e \<Rightarrow> Inl e
      | Inr r \<Rightarrow>
          (case rc_context r of
             Some c \<Rightarrow> if cc_engine c \<noteq> [] then Inr (Some (cc_engine c)) else Inr None
           | None \<Rightarrow> Inr None))"

definition resolve_mtls_from_config :: "outside \<Rightarrow> config_file \<Rightarrow> string \<Rightarrow> string \<Rightarrow> error_code + config_mtls option" where
  "resolve_mtls_from_config os cfg api_url_explicit context_name =
     (case resolve_config_selection os cfg api_url_explicit context_name of
        Inl e \<Rightarrow> Inl e
      | Inr r \<Rightarrow>
          (let from_env = (case rc_environment r of
                             Some e \<Rightarrow> if cm_present (ca_mtls (ce_auth e)) then Some (ca_mtls (ce_auth e)) else None
                           | None \<Rightarrow> None)
           in Inr (case rc_context r of
                     Some c \<Rightarrow> if cm_present (ca_mtls (cc_auth c)) then Some (ca_mtls (cc_auth c)) else from_env
                   | None \<Rightarrow> from_env)))"

definition resolve_tls_from_config :: "outside \<Rightarrow> config_file \<Rightarrow> string \<Rightarrow> string \<Rightarrow> error_code + config_tls option" where
  "resolve_tls_from_config os cfg api_url_explicit context_name =
     (case resolve_config_selection os cfg api_url_explicit context_name of
        Inl e \<Rightarrow> Inl e
      | Inr r \<Rightarrow>
          (let from_env = (case rc_environment r of
                             Some e \<Rightarrow> if tls_present (tr_tls (ce_transport e)) then Some (tr_tls (ce_transport e)) else None
                           | None \<Rightarrow> None)
           in Inr (case rc_context r of
                     Some c \<Rightarrow> if tls_present (tr_tls (cc_transport c)) then Some (tr_tls (cc_transport c)) else from_env
                   | None \<Rightarrow> from_env)))"

definition resolve_mtls_from_environment :: "outside \<Rightarrow> config_mtls option" where
  "resolve_mtls_from_environment os =
     (let cert = getenv_trim os ''RSTREAM_MTLS_CERT_FILE'';
          key = getenv_trim os ''RSTREAM_MTLS_KEY_FILE''
      in if cert = [] \<and> key = [] then None
         else Some (config_mtls0\<lparr>cm_present := True, cm_certificate_file := cert, cm_key_file := key\<rparr>))"

section \<open>Query parameters\<close>

definition hex_digit :: "nat \<Rightarrow> char" where
  "hex_digit n = (if n < 10 then char_of (48 + n) else char_of (55 + n))"

definition unreserved :: "char \<Rightarrow> bool" where
  "unreserved c \<longleftrightarrow> is_alnum c \<or> c = CHR ''-'' \<or> c = CHR ''_'' \<or> c = CHR ''.'' \<or> c = CHR ''~''"

definition escape_char :: "char \<Rightarrow> string" where
  "escape_char c =
     (if unreserved c then [c]
      else let n = (of_char c :: nat) in [CHR ''%'', hex_digit (n div 16), hex_digit (n mod 16)])"

definition query_escape :: "string \<Rightarrow> string" where
  "query_escape v = concat (map escape_char v)"

definition append_query_param :: "string \<Rightarrow> string \<Rightarrow> string \<Rightarrow> string" where
  "append_query_param addr key v =
     addr @ [if CHR ''?'' \<in> set addr then CHR ''&'' else CHR ''?''] @ key @ ''='' @ query_escape v"

definition count_non_empty :: "string \<Rightarrow> string \<Rightarrow> nat" where
  "count_non_empty a b = (if a \<noteq> [] then 1 else 0) + (if b \<noteq> [] then 1 else 0)"

definition pkcs11_uri_escape :: "string \<Rightarrow> string" where
  "pkcs11_uri_escape v = concat (map escape_char v)"

definition is_hex_string :: "string \<Rightarrow> bool" where
  "is_hex_string v \<longleftrightarrow> v \<noteq> [] \<and> length v mod 2 = 0 \<and> list_all is_xdigit v"

fun percent_pairs :: "string \<Rightarrow> string" where
  "percent_pairs (a # b # cs) = CHR ''%'' # a # b # percent_pairs cs"
| "percent_pairs _ = []"

definition pkcs11_uri_id_from_hex :: "string \<Rightarrow> error_code + string" where
  "pkcs11_uri_id_from_hex v =
     (if \<not> is_hex_string v then Inl (rstrm_ec Invalid_configuration) else Inr (percent_pairs v))"

definition pkcs11_uri_for_object :: "config_mtls_storage \<Rightarrow> string \<Rightarrow> string \<Rightarrow> string \<Rightarrow> error_code + string" where
  "pkcs11_uri_for_object s label id_hex type =
     (let uri = ''pkcs11:''
            @ (if cs_token_label s \<noteq> [] then ''token='' @ pkcs11_uri_escape (cs_token_label s) @ '';'' else [])
            @ (if cs_token_serial s \<noteq> [] then ''serial='' @ pkcs11_uri_escape (cs_token_serial s) @ '';'' else [])
      in if label \<noteq> [] then Inr (uri @ ''object='' @ pkcs11_uri_escape label @ '';'' @ ''type='' @ type)
         else case pkcs11_uri_id_from_hex id_hex of
                Inl e \<Rightarrow> Inl e
              | Inr i \<Rightarrow> Inr (uri @ ''id='' @ i @ '';'' @ ''type='' @ type))"

text \<open>The PKCS#11 branch after the kind has been accepted.\<close>

definition append_pkcs11_params :: "string \<Rightarrow> config_mtls_storage \<Rightarrow> error_code + string" where
  "append_pkcs11_params addr s =
     (if cs_provider s \<noteq> [] \<or> cs_module s = [] \<or> cs_pin_env s = [] then Inl (rstrm_ec Invalid_configuration)
      else if cs_slot s \<noteq> None \<or> cs_max_sessions s \<noteq> 0 \<or> cs_certificate_sha256 s \<noteq> [] then Inl (rstrm_ec Invalid_configuration)
      else if count_non_empty (cs_token_label s) (cs_token_serial s) \<noteq> 1 then Inl (rstrm_ec Invalid_configuration)
      else if count_non_empty (cs_key_label s) (cs_key_id_hex s) \<noteq> 1 then Inl (rstrm_ec Invalid_configuration)
      else
        let has_pem = (cs_certificate s \<noteq> [] \<or> cs_certificate_file s \<noteq> []);
            has_tok = (cs_certificate_label s \<noteq> [] \<or> cs_certificate_id_hex s \<noteq> [])
        in if count_non_empty (cs_certificate s) (cs_certificate_file s) > 1
              \<or> count_non_empty (cs_certificate_label s) (cs_certificate_id_hex s) > 1 then Inl (rstrm_ec Invalid_configuration)
           else if has_pem = has_tok then Inl (rstrm_ec Invalid_configuration)
           else
             case pkcs11_uri_for_object s (cs_key_label s) (cs_key_id_hex s) ''private'' of
               Inl e \<Rightarrow> Inl e
             | Inr key_uri \<Rightarrow>
                 (let a1 = append_query_param addr ''ssl.pkcs11_module'' (cs_module s);
                      a2 = (if cs_openssl_provider s \<noteq> [] then append_query_param a1 ''ssl.pkcs11_provider'' (cs_openssl_provider s) else a1);
                      a3 = append_query_param a2 ''ssl.pkcs11_pin_env'' (cs_pin_env s);
                      a4 = append_query_param a3 ''ssl.key'' key_uri;
                      a5 = append_query_param a4 ''ssl.key_type'' ''pkcs11''
                  in if cs_certificate s \<noteq> [] then Inr (append_query_param a5 ''ssl.cert'' (cs_certificate s))
                     else if cs_certificate_file s \<noteq> [] then Inr (append_query_param a5 ''ssl.cert_file'' (cs_certificate_file s))
                     else case pkcs11_uri_for_object s (cs_certificate_label s) (cs_certificate_id_hex s) ''cert'' of
                            Inl e \<Rightarrow> Inl e
                          | Inr cert_uri \<Rightarrow>
                              Inr (append_query_param (append_query_param a5 ''ssl.cert'' cert_uri) ''ssl.cert_type'' ''pkcs11'')))"

definition append_mtls_auth_params :: "build_info \<Rightarrow> string \<Rightarrow> config_mtls option \<Rightarrow> error_code + string" where
  "append_mtls_auth_params b addr mtls =
     (case mtls of
        None \<Rightarrow> Inr addr
      | Some m \<Rightarrow>
          (let inline_cert = cm_certificate m \<noteq> []; file_cert = cm_certificate_file m \<noteq> [];
               inline_key = cm_key m \<noteq> []; file_key = cm_key_file m \<noteq> []
           in if cs_present (cm_storage m) then
                (if inline_cert \<or> file_cert \<or> inline_key \<or> file_key then Inl (rstrm_ec Invalid_configuration)
                 else if cs_kind (cm_storage m) = ''exec'' then Inl (rstrm_ec Unsupported_mtls_exec)
                 else if cs_kind (cm_storage m) = ''keychain'' then Inl (rstrm_ec Invalid_configuration)
                 else if cs_kind (cm_storage m) \<noteq> ''pkcs11'' then Inl (rstrm_ec Invalid_configuration)
                 else if \<not> b_with_pkcs11 b then Inl (rstrm_ec Invalid_configuration)
                 else append_pkcs11_params addr (cm_storage m))
              else if inline_cert = file_cert \<or> inline_key = file_key then Inl (rstrm_ec Invalid_configuration)
              else if inline_cert \<noteq> inline_key \<or> file_cert \<noteq> file_key then Inl (rstrm_ec Invalid_configuration)
              else if inline_cert then
                Inr (append_query_param (append_query_param addr ''ssl.cert'' (cm_certificate m)) ''ssl.key'' (cm_key m))
              else
                Inr (append_query_param (append_query_param addr ''ssl.cert_file'' (cm_certificate_file m))
                       ''ssl.key_file'' (cm_key_file m))))"

definition append_engine_tls_params :: "string \<Rightarrow> config_tls option \<Rightarrow> string" where
  "append_engine_tls_params addr tls =
     (case tls of
        None \<Rightarrow> addr
      | Some t \<Rightarrow>
          (let a1 = (if tls_ca_file t \<noteq> [] then append_query_param addr ''ssl.cacert_file'' (tls_ca_file t) else addr);
               a2 = (if tls_server_name t \<noteq> [] then append_query_param a1 ''ssl.sni'' (tls_server_name t) else a1)
           in if tls_insecure_skip_verify_set t \<and> tls_insecure_skip_verify t
              then append_query_param a2 ''ssl.peer_verification'' ''false'' else a2))"

section \<open>Token, client details, engine address\<close>

definition has_client_certificate_config :: "address \<Rightarrow> bool" where
  "has_client_certificate_config a =
     list_ex (\<lambda>p. fst p = ''ssl.cert'' \<or> fst p = ''ssl.cert_file'') (a_params a)"

definition config_context_name :: "outside \<Rightarrow> config_file \<Rightarrow> string" where
  "config_context_name os cfg =
     (let n = getenv_trim os ''RSTREAM_CONTEXT'' in if n = [] \<and> cf_default_context cfg \<noteq> [] then cf_default_context cfg else n)"

definition get_rstream_token :: "outside \<Rightarrow> 'a config_scheme \<Rightarrow> address \<Rightarrow> error_code + string option" where
  "get_rstream_token os cfg server_address =
     (let uses_mtls_auth = has_client_certificate_config server_address;
          env_token = getenv_trim os ''RSTREAM_AUTHENTICATION_TOKEN''
      in if cfg_no_token cfg then Inr None
         else case cfg_token cfg of
                Some t \<Rightarrow> if uses_mtls_auth then Inl (rstrm_ec Authentication_conflict) else Inr (Some t)
              | None \<Rightarrow>
                  if env_token \<noteq> [] then
                    (if uses_mtls_auth then Inl (rstrm_ec Authentication_conflict) else Inr (Some env_token))
                  else if uses_mtls_auth then Inr None
                  else (case load_rstream_config os (cfg_config_path cfg) of
                          Inl e \<Rightarrow> Inl e
                        | Inr f \<Rightarrow> resolve_token_from_config os f (getenv_trim os ''RSTREAM_API_URL'') (config_context_name os f)))"

definition get_client_details_token :: "build_info \<Rightarrow> string option \<Rightarrow> client_details" where
  "get_client_details_token b token =
     \<lparr>cd_agent = Some ''rstream-utils'',
      cd_channel = (case b_channel b of Some v \<Rightarrow> if v \<noteq> [] then Some v else None | None \<Rightarrow> None),
      cd_os = (if b_os b \<noteq> [] then Some (b_os b) else None),
      cd_arch = (if b_arch b \<noteq> [] then Some (b_arch b) else None),
      cd_version = Some (b_version b),
      cd_token = token,
      cd_protocol_version = b_protocol_version b\<rparr>"

definition get_client_details :: "build_info \<Rightarrow> outside \<Rightarrow> 'a config_scheme \<Rightarrow> address \<Rightarrow> error_code + client_details" where
  "get_client_details b os cfg server_address =
     (case get_rstream_token os cfg server_address of
        Inl e \<Rightarrow> Inl e
      | Inr token \<Rightarrow>
          if token \<noteq> None \<and> has_client_certificate_config server_address
          then Inl (rstrm_ec Authentication_conflict)
          else Inr (get_client_details_token b token))"

definition default_tls_groups_query :: "build_info \<Rightarrow> string" where
  "default_tls_groups_query b =
     (if b_openssl_35 b
      then ''&ssl.groups=SecP256r1MLKEM768%3ASecP384r1MLKEM1024%3AX25519MLKEM768%3AX25519%3Asecp256r1%3Asecp384r1''
      else ''&ssl.groups=X25519%3Asecp256r1%3Asecp384r1'')"

definition finish_engine_address :: "build_info \<Rightarrow> string \<Rightarrow> config_mtls option \<Rightarrow> config_tls option \<Rightarrow> error_code + string" where
  "finish_engine_address b engine mtls tls =
     (if engine = [] then Inl (rstrm_ec Invalid_configuration)
      else if str_contains engine ''://''
      then append_mtls_auth_params b (append_engine_tls_params engine tls) mtls
      else append_mtls_auth_params b
             (append_engine_tls_params
               (''tcp://'' @ engine @ ''?ssl&ssl.tlsv13&ssl.alpn_protos=rstrm%2F1'' @ default_tls_groups_query b) tls) mtls)"

definition get_rstream_engine_address :: "build_info \<Rightarrow> outside \<Rightarrow> string option \<Rightarrow> error_code + string" where
  "get_rstream_engine_address b os config_path =
     (case resolve_tunnel_transport_mode os None None of
        Inl e \<Rightarrow> Inl e
      | Inr _ \<Rightarrow>
          (let engine_address = getenv_trim os ''RSTREAM_ENGINE_ADDRESS'';
               mtls = resolve_mtls_from_environment os;
               engine = getenv_trim os ''RSTREAM_ENGINE''
           in if engine_address \<noteq> [] then append_mtls_auth_params b engine_address mtls
              else if engine \<noteq> [] then finish_engine_address b engine mtls None
              else
                (case load_rstream_config os config_path of
                   Inl e \<Rightarrow> Inl e
                 | Inr f \<Rightarrow>
                     (let api_url = getenv_trim os ''RSTREAM_API_URL''; name = config_context_name os f in
                      case resolve_engine_from_config os f api_url name of
                        Inl e \<Rightarrow> Inl e
                      | Inr eng \<Rightarrow>
                          (case (if mtls \<noteq> None then Inr mtls else resolve_mtls_from_config os f api_url name) of
                             Inl e \<Rightarrow> Inl e
                           | Inr mtls' \<Rightarrow>
                               (case resolve_tls_from_config os f api_url name of
                                  Inl e \<Rightarrow> Inl e
                                | Inr tls \<Rightarrow>
                                    finish_engine_address b (case eng of None \<Rightarrow> engine | Some g \<Rightarrow> g) mtls' tls))))))"

section \<open>Descriptions\<close>

fun show_nat :: "nat \<Rightarrow> string" where
  "show_nat n = (if n < 10 then [char_of (48 + n)] else show_nat (n div 10) @ [char_of (48 + n mod 10)])"

declare show_nat.simps [simp del]

definition format_forwarding_address :: "tunnel_properties \<Rightarrow> error_code + string" where
  "format_forwarding_address p =
     (if m_hostname p \<noteq> None \<or> m_host p \<noteq> None then
        let http = (m_protocol p = Some ''http''); webtty = (m_protocol p = Some ''webtty'');
            edge = (if http \<or> webtty then ''https'' else case m_protocol p of None \<Rightarrow> ''tls'' | Some q \<Rightarrow> q);
            suffix = (if webtty then ''webtty'' else []);
            res0 = (if http \<or> webtty then edge @ ''://'' else []);
            res1 = (case m_hostname p of
                      Some h \<Rightarrow> res0 @ h
                        @ (case m_port p of
                             Some port \<Rightarrow> if edge \<noteq> ''https'' \<or> port \<noteq> 443 then '':'' @ show_nat (unat port) else []
                           | None \<Rightarrow> [])
                    | None \<Rightarrow> res0 @ (case m_host p of Some h \<Rightarrow> h | None \<Rightarrow> []))
        in Inr (if suffix \<noteq> [] then res1 @ '' ('' @ suffix @ '')''
                else if edge \<noteq> ''https'' then res1 @ '' ('' @ edge @ '')''
                else res1)
      else case m_name p of
             Some n \<Rightarrow> Inr (''rstrm://'' @ n @ '' (unpublished)'')
           | None \<Rightarrow> (case m_id p of
                        Some i \<Rightarrow> Inr (''rstrm://'' @ i @ '' (unpublished)'')
                      | None \<Rightarrow> Inl errc_invalid_argument))"

definition format_forwarded_address :: "address \<Rightarrow> tunnel_properties \<Rightarrow> error_code + string" where
  "format_forwarded_address a p =
     (if (case a_str a of Some s \<Rightarrow> str_contains s ''://'' | None \<Rightarrow> False) then
        (if a_host a = [] then Inl errc_invalid_argument
         else Inr ((case a_str a of Some s \<Rightarrow> s | None \<Rightarrow> []) @ '' (unparsed)''))
      else if a_host a = [] then Inl errc_invalid_argument
      else if a_port a = [] then Inl errc_invalid_argument
      else
        let upstream = (case m_upstream_tls p of Some b \<Rightarrow> Some b | None \<Rightarrow> m_http_use_tls p);
            protocol = (if m_protocol p = Some ''http'' then (if upstream = Some True then ''https'' else ''http'') else []);
            res0 = (if protocol \<noteq> [] then protocol @ ''://'' else []);
            res1 = res0 @ a_host a
              @ (if \<not> (protocol = ''http'' \<and> a_port a = ''80'') \<and> \<not> (protocol = ''https'' \<and> a_port a = ''443'')
                 then '':'' @ a_port a else [])
        in Inr (if protocol = ''http'' then
                  (case m_http_version p of Some v \<Rightarrow> res1 @ '' ('' @ v @ '')'' | None \<Rightarrow> res1)
                else if protocol = ''https'' then res1
                else if m_tls_mode p = Some ''passthrough'' then res1 @ '' (tls)''
                else if m_upstream_tls p = Some True then
                  (if m_protocol p = Some ''dtls'' then res1 @ '' (dtls)''
                   else if m_protocol p = Some ''quic'' then res1 @ '' (quic)''
                   else res1 @ '' (tls)'')
                else if m_protocol p = Some ''dtls'' then res1 @ '' (udp)''
                else if m_protocol p = Some ''quic'' then res1 @ '' (quic)''
                else if m_protocol p = Some ''webtty'' then res1 @ '' (webtty)''
                else res1 @ '' (tcp)''))"

section \<open>Stable domains\<close>

text \<open>\<open>join_stable_domain_labels(labels, 1)\<close>: a separator is added only once the result is not empty.\<close>

definition join_stable_domain_labels :: "string list \<Rightarrow> nat \<Rightarrow> string" where
  "join_stable_domain_labels labels off =
     fold (\<lambda>l res. (if res \<noteq> [] then res @ ''.'' else res) @ l) (drop off labels) []"

definition is_stable_domain_label :: "string \<Rightarrow> bool" where
  "is_stable_domain_label l \<longleftrightarrow>
     l \<noteq> [] \<and> length l \<le> 63 \<and> hd l \<noteq> CHR ''-'' \<and> last l \<noteq> CHR ''-''
     \<and> list_all (\<lambda>c. is_lower c \<or> is_digit c \<or> c = CHR ''-'') l"

definition hex_lower :: "nat \<Rightarrow> char" where
  "hex_lower n = (if n < 10 then char_of (48 + n) else char_of (87 + n))"

text \<open>The slug for four random bytes.\<close>

definition stable_domain_slug :: "8 word list \<Rightarrow> string" where
  "stable_domain_slug rs =
     CHR ''r'' # concat (map (\<lambda>b. [hex_lower (unat b div 16), hex_lower (unat b mod 16)]) (take 4 rs))"

text \<open>\<open>is_ip\<close> stands for \<open>boost::asio::ip::make_address\<close> accepting the host.\<close>

definition generate_stable_domain :: "(string \<Rightarrow> bool) \<Rightarrow> 8 word list \<Rightarrow> address \<Rightarrow> string option" where
  "generate_stable_domain is_ip rs server_address =
     (let host = rev (dropWhile (\<lambda>c. c = CHR ''.'') (rev (map to_lower (a_host server_address)))) in
      if is_ip host then None
      else if host = [] \<or> CHR '':'' \<in> set host then None
      else
        let labels = split host CHR ''.'' in
        if length labels < 2 then None
        else
          let project_endpoint = hd labels; cluster_domain = join_stable_domain_labels labels 1 in
          if \<not> is_stable_domain_label project_endpoint then None
          else if \<not> list_all is_stable_domain_label (split cluster_domain CHR ''.'') then None
          else if length project_endpoint \<ge> 63 then None
          else
            let max_slug_len = 63 - length project_endpoint - 1 in
            if max_slug_len < 9 then None
            else Some (take max_slug_len (stable_domain_slug rs) @ ''-'' @ project_endpoint @ ''.t.'' @ cluster_domain))"

section \<open>Reading a query back\<close>

text \<open>The reference reading of a query string: split at \<open>&\<close>, then at the first \<open>=\<close>, then percent-decode.\<close>

definition hex_value :: "char \<Rightarrow> nat" where
  "hex_value c = (let n = (of_char c :: nat) in if n \<le> 57 then n - 48 else if n \<le> 70 then n - 55 else n - 87)"

fun unescape :: "string \<Rightarrow> string" where
  "unescape (c # h # l # cs) =
     (if c = CHR ''%'' then char_of (16 * hex_value h + hex_value l) # unescape cs else c # unescape (h # l # cs))"
| "unescape (c # cs) = c # unescape cs"
| "unescape [] = []"

fun split_all :: "char \<Rightarrow> string \<Rightarrow> string list" where
  "split_all d [] = [[]]"
| "split_all d (c # cs) =
     (if c = d then [] # split_all d cs
      else case split_all d cs of [] \<Rightarrow> [[c]] | x # xs \<Rightarrow> (c # x) # xs)"

definition parse_param :: "string \<Rightarrow> param" where
  "parse_param s =
     (unescape (takeWhile (\<lambda>c. c \<noteq> CHR ''='') s),
      case dropWhile (\<lambda>c. c \<noteq> CHR ''='') s of [] \<Rightarrow> None | _ # v \<Rightarrow> Some (unescape v))"

definition query_params :: "string \<Rightarrow> param list" where
  "query_params addr =
     (case dropWhile (\<lambda>c. c \<noteq> CHR ''?'') addr of [] \<Rightarrow> [] | _ # q \<Rightarrow> map parse_param (split_all CHR ''&'' q))"

lemma split_all_neq_Nil [simp]: "split_all d s \<noteq> []"
  by (cases s) (auto split: list.splits)

lemma split_all_append: "split_all d (xs @ d # ys) = split_all d xs @ split_all d ys"
  by (induction xs) (auto split: list.splits)

lemma split_all_free: "d \<notin> set xs \<Longrightarrow> split_all d xs = [xs]"
  by (induction xs) auto

lemma char_class_codes:
  "is_alnum c \<Longrightarrow> (of_char c :: nat) \<noteq> 37 \<and> (of_char c :: nat) \<noteq> 38 \<and> (of_char c :: nat) \<noteq> 61 \<and> (of_char c :: nat) \<noteq> 63"
  by (auto simp: is_alnum_def is_digit_def is_lower_def is_upper_def char_in_def)

lemma unreserved_plain: "unreserved c \<Longrightarrow> c \<noteq> CHR ''%'' \<and> c \<noteq> CHR ''&'' \<and> c \<noteq> CHR ''='' \<and> c \<noteq> CHR ''?''"
  using char_class_codes [of c] unfolding unreserved_def by auto

lemma hex_value_digit: "n < 16 \<Longrightarrow> hex_value (hex_digit n) = n"
  by (auto simp: hex_value_def hex_digit_def Let_def)

lemma hex_digit_unreserved: "n < 16 \<Longrightarrow> unreserved (hex_digit n)"
  by (auto simp: unreserved_def is_alnum_def is_digit_def is_upper_def char_in_def hex_digit_def)

lemma unescape_plain: "c \<noteq> CHR ''%'' \<Longrightarrow> unescape (c # cs) = c # unescape cs"
  by (cases cs rule: list.exhaust; cases "tl cs") auto

lemma unescape_escape_char: "unescape (escape_char c @ cs) = c # unescape cs"
proof (cases "unreserved c")
  case True
  then show ?thesis using unreserved_plain [of c] by (simp add: escape_char_def unescape_plain)
next
  case False
  define n where "n = (of_char c :: nat)"
  have n: "n < 256" by (simp add: n_def)
  then have d: "n div 16 < 16" "n mod 16 < 16" by auto
  have "16 * hex_value (hex_digit (n div 16)) + hex_value (hex_digit (n mod 16)) = n"
    by (simp add: hex_value_digit [OF d(1)] hex_value_digit [OF d(2)])
  with False show ?thesis by (simp add: escape_char_def n_def Let_def)
qed

lemma unescape_query_escape: "unescape (query_escape v) = v"
  unfolding query_escape_def by (induction v) (simp_all add: unescape_escape_char)

lemma escape_char_safe: "x \<in> set (escape_char c) \<Longrightarrow> unreserved x \<or> x = CHR ''%''"
proof -
  define n where "n = (of_char c :: nat)"
  have "n < 256" by (simp add: n_def)
  then have "n div 16 < 16" "n mod 16 < 16" by auto
  then have "unreserved (hex_digit (n div 16))" "unreserved (hex_digit (n mod 16))"
    by (simp_all only: hex_digit_unreserved)
  then show "x \<in> set (escape_char c) \<Longrightarrow> unreserved x \<or> x = CHR ''%''"
    by (auto simp: escape_char_def Let_def n_def split: if_splits)
qed

text \<open>An escaped value can end neither its parameter nor the query.\<close>

lemma query_escape_safe: "x \<in> set (query_escape v) \<Longrightarrow> unreserved x \<or> x = CHR ''%''"
  unfolding query_escape_def using escape_char_safe by auto

lemma query_escape_free: "CHR ''&'' \<notin> set (query_escape v)" "CHR ''?'' \<notin> set (query_escape v)"
  using query_escape_safe [of "CHR ''&''" v] query_escape_safe [of "CHR ''?''" v] unreserved_plain by auto

definition plain_key :: "string \<Rightarrow> bool" where
  "plain_key k \<longleftrightarrow> list_all unreserved k"

lemma plain_key_free:
  assumes "plain_key k"
  shows "CHR ''&'' \<notin> set k" and "CHR ''='' \<notin> set k" and "CHR ''?'' \<notin> set k" and "unescape k = k"
proof -
  have "x \<in> set k \<Longrightarrow> unreserved x" for x using assms by (auto simp: plain_key_def list_all_iff)
  then show "CHR ''&'' \<notin> set k" "CHR ''='' \<notin> set k" "CHR ''?'' \<notin> set k"
    using unreserved_plain by blast+
  from assms show "unescape k = k"
    unfolding plain_key_def by (induction k) (auto simp: unescape_plain dest: unreserved_plain)
qed

lemma parse_param_pair:
  assumes "plain_key k"
  shows "parse_param (k @ ''='' @ query_escape v) = (k, Some v)"
proof -
  have eq: "\<forall>c \<in> set k. c \<noteq> CHR ''=''" using plain_key_free(2) [OF assms] by auto
  then have "takeWhile (\<lambda>c. c \<noteq> CHR ''='') (k @ ''='' @ query_escape v) = k"
      "dropWhile (\<lambda>c. c \<noteq> CHR ''='') (k @ ''='' @ query_escape v) = ''='' @ query_escape v"
    by (simp_all add: takeWhile_append2 dropWhile_append2)
  with plain_key_free(4) [OF assms] show ?thesis by (simp add: parse_param_def unescape_query_escape)
qed

text \<open>Appending a parameter keeps the parameters that were there and adds exactly the one given.\<close>

lemma append_query_param_params:
  assumes "plain_key k"
  shows "query_params (append_query_param addr k v) = query_params addr @ [(k, Some v)]"
proof -
  define piece where "piece = k @ ''='' @ query_escape v"
  have free: "CHR ''&'' \<notin> set piece"
    using plain_key_free(1) [OF assms] query_escape_free(1) by (simp add: piece_def)
  have one: "map parse_param (split_all CHR ''&'' piece) = [(k, Some v)]"
    using split_all_free [OF free] parse_param_pair [OF assms] by (simp add: piece_def)
  show ?thesis
  proof (cases "CHR ''?'' \<in> set addr")
    case False
    then have a: "dropWhile (\<lambda>c. c \<noteq> CHR ''?'') addr = []" by (auto simp: dropWhile_eq_Nil_conv)
    have b: "dropWhile (\<lambda>c. c \<noteq> CHR ''?'') (append_query_param addr k v) = CHR ''?'' # piece"
      using False by (subst append_query_param_def, subst dropWhile_append2) (auto simp: piece_def)
    show ?thesis unfolding query_params_def a b list.case one by simp
  next
    case True
    then obtain pre q where pq: "addr = pre @ CHR ''?'' # q" "CHR ''?'' \<notin> set pre" by (metis split_list_first)
    have q: "dropWhile (\<lambda>c. c \<noteq> CHR ''?'') addr = CHR ''?'' # q"
      unfolding pq(1) using pq(2) by (subst dropWhile_append2) auto
    have "dropWhile (\<lambda>c. c \<noteq> CHR ''?'') (addr @ xs) = CHR ''?'' # q @ xs" for xs
      using True q dropWhile_append1 [of "CHR ''?''" addr "\<lambda>c. c \<noteq> CHR ''?''" xs] by simp
    then have "dropWhile (\<lambda>c. c \<noteq> CHR ''?'') (append_query_param addr k v) = CHR ''?'' # q @ CHR ''&'' # piece"
      using True by (simp add: append_query_param_def piece_def)
    then show ?thesis using q one by (simp add: query_params_def split_all_append)
  qed
qed

lemma plain_keys [simp]:
  "plain_key ''ssl.cert''" "plain_key ''ssl.key''" "plain_key ''ssl.cert_file''" "plain_key ''ssl.key_file''"
  "plain_key ''ssl.pkcs11_module''" "plain_key ''ssl.pkcs11_provider''" "plain_key ''ssl.pkcs11_pin_env''"
  "plain_key ''ssl.key_type''" "plain_key ''ssl.cert_type''" "plain_key ''ssl.cacert_file''" "plain_key ''ssl.sni''"
  "plain_key ''ssl.peer_verification''"
  by (simp_all add: plain_key_def unreserved_def is_alnum_def is_digit_def is_lower_def is_upper_def char_in_def)

lemmas append_params = append_query_param_params [OF plain_keys(1)] append_query_param_params [OF plain_keys(2)]
  append_query_param_params [OF plain_keys(3)] append_query_param_params [OF plain_keys(4)]
  append_query_param_params [OF plain_keys(5)] append_query_param_params [OF plain_keys(6)]
  append_query_param_params [OF plain_keys(7)] append_query_param_params [OF plain_keys(8)]
  append_query_param_params [OF plain_keys(9)]

section \<open>mTLS material and tokens exclude each other\<close>

definition names_certificate :: "param list \<Rightarrow> bool" where
  "names_certificate ps \<longleftrightarrow> (\<exists>v. (''ssl.cert'', v) \<in> set ps \<or> (''ssl.cert_file'', v) \<in> set ps)"

lemma pkcs11_names_certificate:
  assumes "append_pkcs11_params addr s = Inr a"
  shows "names_certificate (query_params a)"
  using assms unfolding append_pkcs11_params_def Let_def names_certificate_def
  by (auto simp: append_params split: if_splits sum.splits)

lemma mtls_names_certificate:
  assumes "append_mtls_auth_params b addr (Some m) = Inr a"
  shows "names_certificate (query_params a)"
  using assms pkcs11_names_certificate unfolding append_mtls_auth_params_def Let_def
  by (auto simp: append_params names_certificate_def split: if_splits)

lemma names_certificate_config: "names_certificate (a_params sa) \<Longrightarrow> has_client_certificate_config sa"
  by (force simp: names_certificate_def has_client_certificate_config_def list_ex_iff)

lemma client_details_no_token:
  "has_client_certificate_config sa \<Longrightarrow> get_client_details b os cfg sa = Inr d \<Longrightarrow> cd_token d = None"
  by (auto simp: get_client_details_def get_client_details_token_def split: sum.splits if_splits)

section \<open>Selection\<close>

lemma transport_mode_tls: "resolve_tunnel_transport_mode os env ctx = Inr m \<Longrightarrow> m = ''tls''"
  by (auto simp: resolve_tunnel_transport_mode_def Let_def split: sum.splits if_splits)

lemma select_context_sound:
  assumes "select_context cfg url name = Inr c"
  shows "c \<in> set (cf_contexts cfg)" and "cc_name c = name"
    and "url \<noteq> [] \<Longrightarrow> cc_api_url c = url \<or> cc_api_url c = []"
    and "url = [] \<Longrightarrow> filter (\<lambda>c. cc_name c = name) (cf_contexts cfg) = [c]"
proof -
  define ms where "ms = filter (\<lambda>c. cc_name c = name) (cf_contexts cfg)"
  have f: "c \<in> set ms \<and> P c" if "filter P ms = [c]" for P
  proof -
    from that have "c \<in> set (filter P ms)" by simp
    then show ?thesis by simp
  qed
  moreover have "ms = [c] \<Longrightarrow> c \<in> set ms" by simp
  moreover from assms have "url \<noteq> [] \<and> (filter (\<lambda>c. cc_api_url c = url) ms = [c] \<or> filter (\<lambda>c. cc_api_url c = []) ms = [c])
      \<or> url = [] \<and> ms = [c]"
    unfolding select_context_def ms_def [symmetric] Let_def by (auto split: if_splits list.splits)
  ultimately have "c \<in> set ms" "url \<noteq> [] \<Longrightarrow> cc_api_url c = url \<or> cc_api_url c = []" "url = [] \<Longrightarrow> ms = [c]"
    by blast+
  then show "c \<in> set (cf_contexts cfg)" "cc_name c = name" "url \<noteq> [] \<Longrightarrow> cc_api_url c = url \<or> cc_api_url c = []"
      "url = [] \<Longrightarrow> filter (\<lambda>c. cc_name c = name) (cf_contexts cfg) = [c]"
    by (auto simp: ms_def)
qed

lemma finish_selection_sound:
  assumes "finish_selection os cfg url ctx = Inr r"
  shows "rc_context r = ctx" and "rc_api_url r = (if url = [] then default_api_url else url)"
    and "rc_environment r = Some e \<Longrightarrow> e \<in> set (cf_environments cfg) \<and> ce_api_url e = rc_api_url r
           \<and> (\<forall>c. ctx = Some c \<longrightarrow> cc_api_url c \<noteq> []) \<and> \<not> transport_proxy_requested (tr_proxy (ce_transport e))"
    and "ctx = Some c \<Longrightarrow> \<not> transport_proxy_requested (tr_proxy (cc_transport c))"
    and "resolve_tunnel_transport_mode os (rc_environment r) ctx = Inr ''tls''"
  using assms unfolding finish_selection_def Let_def
  by (auto split: sum.splits if_splits option.splits dest: transport_mode_tls simp: find_Some_iff)

lemma resolve_selection_cases:
  assumes "resolve_config_selection os cfg url name = Inr r"
  obtains "name = []" and "finish_selection os cfg url None = Inr r"
  | c where "name \<noteq> []" and "select_context cfg url name = Inr c" and "url = [] \<or> cc_api_url c = [] \<or> cc_api_url c = url"
      and "finish_selection os cfg (if url = [] \<and> cc_api_url c \<noteq> [] then cc_api_url c else url) (Some c) = Inr r"
  using assms unfolding resolve_config_selection_def by (auto split: if_splits sum.splits)

section \<open>A configuration for the witnesses\<close>

definition w_os :: outside where
  "w_os = \<lparr>os_getenv = (\<lambda>_. None), os_read_file = (\<lambda>_. None), os_parent_path = (\<lambda>p. p),
     os_path_append = (\<lambda>p q. p @ ''/'' @ q), os_yaml_load = (\<lambda>_. None), os_as_int = (\<lambda>_. None),
     os_as_bool = (\<lambda>_. None)\<rparr>"

definition w_env :: config_environment where
  "w_env = \<lparr>ce_api_url = ''https://a'', ce_auth = config_auth0\<lparr>ca_token := \<lparr>ct_present = True, ct_kind = [], ct_value = ''tok''\<rparr>\<rparr>,
     ce_transport = config_transport0\<rparr>"

definition w_ctx :: config_context where
  "w_ctx = \<lparr>cc_name = ''prod'', cc_api_url = ''https://a'', cc_engine = ''e:443'', cc_auth = config_auth0,
     cc_transport = config_transport0\<rparr>"

definition w_cfg :: config_file where
  "w_cfg = \<lparr>cf_default_context = [], cf_environments = [w_env], cf_contexts = [w_ctx]\<rparr>"

definition w_sel :: resolved_config where
  "w_sel = \<lparr>rc_api_url = ''https://a'', rc_environment = Some w_env, rc_context = Some w_ctx\<rparr>"

definition w_build :: build_info where
  "w_build = \<lparr>b_channel = None, b_os = ''linux'', b_arch = ''x86_64'', b_version = ''1'', b_protocol_version = Some ''1.4.7'',
     b_openssl_35 = False, b_with_pkcs11 = False\<rparr>"

definition w_mtls :: config_mtls where
  "w_mtls = config_mtls0\<lparr>cm_present := True, cm_certificate_file := ''c&d'', cm_key_file := ''k''\<rparr>"

lemma w_selection: "resolve_config_selection w_os w_cfg [] ''prod'' = Inr w_sel"
  by code_simp

lemma w_token: "resolve_token_from_config w_os w_cfg [] ''prod'' = Inr (Some ''tok'')"
  by code_simp

section \<open>Properties\<close>

text \<open>
  What the resolution of a configuration selects. A named context is one of the file's with that
  name (the only one when no API URL is given), and never one linked to another API URL than the
  explicit one; the environment, when there is one, is that of the selected API URL, which is the
  context's own; neither may ask for a proxy and neither may ask for QUIC.
\<close>

theorem selection_sound:
  assumes "resolve_config_selection os cfg url name = Inr r"
  shows "(name \<noteq> [] \<longrightarrow> (\<exists>c. rc_context r = Some c \<and> c \<in> set (cf_contexts cfg) \<and> cc_name c = name
             \<and> (url \<noteq> [] \<longrightarrow> cc_api_url c = url \<or> cc_api_url c = [])
             \<and> (url = [] \<longrightarrow> filter (\<lambda>c. cc_name c = name) (cf_contexts cfg) = [c])))
       \<and> (\<forall>e. rc_environment r = Some e \<longrightarrow> e \<in> set (cf_environments cfg) \<and> ce_api_url e = rc_api_url r
             \<and> (\<forall>c. rc_context r = Some c \<longrightarrow> cc_api_url c = ce_api_url e)
             \<and> \<not> transport_proxy_requested (tr_proxy (ce_transport e)))
       \<and> (\<forall>c. rc_context r = Some c \<longrightarrow> \<not> transport_proxy_requested (tr_proxy (cc_transport c)))
       \<and> resolve_tunnel_transport_mode os (rc_environment r) (rc_context r) = Inr ''tls''"
  using assms
proof (cases rule: resolve_selection_cases)
  case 1
  note f = finish_selection_sound [OF 1(2)]
  show ?thesis using 1(1) f(1) f(3) f(5) by simp
next
  case (2 c)
  note f = finish_selection_sound [OF 2(4)] and s = select_context_sound [OF 2(2)]
  have link: "cc_api_url c = ce_api_url e" if "rc_environment r = Some e" for e
    using f(3) [OF that] f(2) 2(3) by (auto split: if_splits)
  show ?thesis using 2(1) f(1,5) f(3) f(4) link s by simp
qed

theorem selection_sound_witness:
  "resolve_config_selection w_os w_cfg [] ''prod'' = Inr w_sel
   \<and> resolve_tunnel_transport_mode w_os (rc_environment w_sel) (rc_context w_sel) = Inr ''tls''"
  using w_selection selection_sound [OF w_selection] by blast

text \<open>
  Where a configured token comes from. It is the token of a context with the requested name, or
  the token of the environment of the API URL in force; with a named context that environment is the
  one the context is linked to, so a context without API URL never picks up an environment's token.
\<close>

theorem token_scope:
  assumes "resolve_token_from_config os cfg url name = Inr (Some t)"
  shows "(\<exists>c \<in> set (cf_contexts cfg). name \<noteq> [] \<and> cc_name c = name \<and> resolve_token_from_auth (cc_auth c) = Inr (Some t))
       \<or> (\<exists>e \<in> set (cf_environments cfg). resolve_token_from_auth (ce_auth e) = Inr (Some t)
            \<and> (name = [] \<longrightarrow> ce_api_url e = (if url = [] then default_api_url else url))
            \<and> (name \<noteq> [] \<longrightarrow> (\<exists>c \<in> set (cf_contexts cfg). cc_name c = name \<and> cc_api_url c = ce_api_url e \<and> cc_api_url c \<noteq> [])))"
proof -
  obtain r where r: "resolve_config_selection os cfg url name = Inr r"
      and t: "(\<exists>c. rc_context r = Some c \<and> resolve_token_from_auth (cc_auth c) = Inr (Some t))
        \<or> (\<exists>e. rc_environment r = Some e \<and> resolve_token_from_auth (ce_auth e) = Inr (Some t))"
    using assms unfolding resolve_token_from_config_def by (auto split: sum.splits option.splits)
  from r show ?thesis
  proof (cases rule: resolve_selection_cases)
    case 1
    note f = finish_selection_sound [OF 1(2)]
    show ?thesis using 1(1) t f(1,2) f(3) by auto
  next
    case (2 c)
    note f = finish_selection_sound [OF 2(4)] and s = select_context_sound [OF 2(2)]
    have link: "cc_api_url c = ce_api_url e \<and> cc_api_url c \<noteq> []" if "rc_environment r = Some e" for e
      using f(3) [OF that] f(2) 2(3) by (auto split: if_splits)
    from t show ?thesis
    proof (elim disjE exE conjE)
      fix e assume "rc_environment r = Some e" "resolve_token_from_auth (ce_auth e) = Inr (Some t)"
      with 2(1) f(3) link s(1,2) show ?thesis by blast
    qed (use 2(1) f(1) s(1,2) in auto)
  qed
qed

theorem token_scope_witness:
  "resolve_token_from_config w_os w_cfg [] ''prod'' = Inr (Some ''tok'')
   \<and> (\<exists>e \<in> set (cf_environments w_cfg). resolve_token_from_auth (ce_auth e) = Inr (Some ''tok''))"
proof -
  have "resolve_token_from_auth (cc_auth w_ctx) = Inr None" by code_simp
  moreover have "cf_contexts w_cfg = [w_ctx]" by (simp add: w_cfg_def)
  ultimately show ?thesis using w_token token_scope [OF w_token] by auto
qed



text \<open>
  Appending a query parameter keeps the parameters that were there and adds exactly the one
  given, whatever bytes its value holds: a value can neither end its parameter nor start another.
\<close>

theorem query_param_round_trip:
  assumes "list_all unreserved k"
  shows "query_params (append_query_param addr k v) = query_params addr @ [(k, Some v)]"
  using append_query_param_params [of k] assms by (simp add: plain_key_def)

theorem query_param_round_trip_witness:
  "query_params (append_query_param ''tcp://h?a=b'' ''ssl.cert'' ''x&y=z'') = [(''a'', Some ''b''), (''ssl.cert'', Some ''x&y=z'')]"
proof -
  have "list_all unreserved ''ssl.cert''" by code_simp
  from query_param_round_trip [OF this, of "''tcp://h?a=b''" "''x&y=z''"]
  have "query_params (append_query_param ''tcp://h?a=b'' ''ssl.cert'' ''x&y=z'')
      = query_params ''tcp://h?a=b'' @ [(''ssl.cert'', Some ''x&y=z'')]" .
  moreover have "query_params ''tcp://h?a=b'' = [(''a'', Some ''b'')]" by code_simp
  ultimately show ?thesis by simp
qed

section \<open>Stable domains\<close>

lemma hex_lower_class: "n < 16 \<Longrightarrow> is_lower (hex_lower n) \<or> is_digit (hex_lower n)"
  by (auto simp: hex_lower_def is_lower_def is_digit_def char_in_def)

lemma slug_chars: "c \<in> set (stable_domain_slug rs) \<Longrightarrow> is_lower c \<or> is_digit c"
proof -
  have b: "is_lower c \<or> is_digit c" if "c = hex_lower (unat b div 16) \<or> c = hex_lower (unat b mod 16)" for b :: "8 word"
  proof -
    have "unat b < 2 ^ LENGTH(8)" by (rule unsigned_less)
    then have "unat b < 256" by simp
    then have "unat b div 16 < 16" "unat b mod 16 < 16" by auto
    with that show ?thesis using hex_lower_class by blast
  qed
  assume "c \<in> set (stable_domain_slug rs)"
  then show ?thesis using b by (auto simp: stable_domain_slug_def is_lower_def char_in_def)
qed

lemma stable_label_append:
  assumes "is_stable_domain_label e" and "s \<noteq> []" and "\<And>c. c \<in> set s \<Longrightarrow> is_lower c \<or> is_digit c"
    and "length s + 1 + length e \<le> 63"
  shows "is_stable_domain_label (s @ ''-'' @ e)"
proof -
  have "hd s \<in> set s" using assms(2) by simp
  then have "hd s \<noteq> CHR ''-''" using assms(3) [of "hd s"] by (auto simp: is_lower_def is_digit_def char_in_def)
  moreover have "list_all (\<lambda>c. is_lower c \<or> is_digit c \<or> c = CHR ''-'') s"
    using assms(3) by (auto simp: list_all_iff)
  ultimately show ?thesis using assms by (auto simp: is_stable_domain_label_def)
qed

text \<open>
  C39: a generated stable domain is a valid name under the cluster: its first label, the slug joined
  to the project endpoint, is a DNS label of at most 63 lower-case letters, digits and inner hyphens
  that starts with the slug, and every label of the cluster domain is one too.
\<close>

theorem stable_domain_valid:
  assumes "generate_stable_domain is_ip rs sa = Some d"
  shows "\<exists>slug endpoint cluster. d = (slug @ ''-'' @ endpoint) @ ''.t.'' @ cluster
           \<and> is_stable_domain_label (slug @ ''-'' @ endpoint) \<and> hd slug = CHR ''r'' \<and> 1 \<le> length slug
           \<and> list_all is_stable_domain_label (split cluster CHR ''.'')"
proof -
  obtain e cl k where d: "d = take k (stable_domain_slug rs) @ ''-'' @ e @ ''.t.'' @ cl"
      and e: "is_stable_domain_label e" "list_all is_stable_domain_label (split cl CHR ''.'')"
      and k: "k = 63 - length e - 1" "\<not> k < 9" "\<not> length e \<ge> 63"
    using assms unfolding generate_stable_domain_def Let_def by (auto split: if_splits)
  define sl where "sl = take k (stable_domain_slug rs)"
  have ne: "sl \<noteq> []" "hd sl = CHR ''r''" using k(2) by (auto simp: sl_def stable_domain_slug_def take_Cons')
  have "c \<in> set sl \<Longrightarrow> is_lower c \<or> is_digit c" for c
    using slug_chars [of c rs] by (auto simp: sl_def dest: in_set_takeD)
  moreover have "length sl + 1 + length e \<le> 63" using k by (simp add: sl_def)
  ultimately have "is_stable_domain_label (sl @ ''-'' @ e)" using stable_label_append [OF e(1) ne(1)] by blast
  moreover have "d = (sl @ ''-'' @ e) @ ''.t.'' @ cl" by (simp add: d sl_def)
  moreover have "1 \<le> length sl" using ne(1) by (cases sl) auto
  ultimately show ?thesis using e(2) ne(2) by blast
qed

definition w_address :: "string \<Rightarrow> address" where
  "w_address h = \<lparr>a_str = None, a_host = h, a_port = [], a_params = []\<rparr>"

theorem stable_domain_valid_witness:
  "generate_stable_domain (\<lambda>_. False) [1, 2, 3, 255] (w_address ''P1.Eu.example.'') = Some ''r010203ff-p1.t.eu.example''
   \<and> (\<exists>slug endpoint cluster. ''r010203ff-p1.t.eu.example'' = (slug @ ''-'' @ endpoint) @ ''.t.'' @ cluster
        \<and> is_stable_domain_label (slug @ ''-'' @ endpoint))"
proof -
  have g: "generate_stable_domain (\<lambda>_. False) [1, 2, 3, 255] (w_address ''P1.Eu.example.'') = Some ''r010203ff-p1.t.eu.example''"
    by code_simp
  from g stable_domain_valid [OF g] show ?thesis by blast
qed

text \<open>
  An empty label of the host is dropped instead of being rejected. \<open>join_stable_domain_labels\<close>
  adds a separator only once its result is not empty, so the empty labels right after the project
  endpoint disappear and the host \<open>p1..example\<close>, which is not a domain name, yields a domain.
\<close>

theorem stable_domain_empty_label:
  "split ''p1..example'' CHR ''.'' = [''p1'', [], ''example'']
   \<and> \<not> list_all is_stable_domain_label (split ''p1..example'' CHR ''.'')
   \<and> generate_stable_domain (\<lambda>_. False) [1, 2, 3, 4] (w_address ''p1..example'') = Some ''r01020304-p1.t.example''"
  by code_simp

end
