(* ===== verification/Messages.thy ===== *)
theory Messages
  imports Payloader Resolve
begin

text \<open>
  The protobuf messages of \<open>io-rstrm/definitions/.../messages.proto\<close> that the library exchanges and the
  two helpers of \<open>core/detail/protobuf.hpp\<close> that turn a message into a buffer and back. The generated
  encoder and decoder are parameters: \<open>enc\<close> is \<open>None\<close> where protobuf reports that a message is not
  initialised or cannot be serialised, \<open>dec\<close> is \<open>None\<close> where it cannot be parsed.
\<close>

section \<open>Messages\<close>

record proto_error =
  pe_code :: int
  pe_message :: "string option"

record server_details =
  sd_update :: "string option"
  sd_plan :: "string option"
  sd_provider :: "string option"
  sd_region :: "string option"

record liveness =
  lv_interval_ms :: "32 word"
  lv_timeout_ms :: "32 word"

record open_ok =
  ok_client_id :: string
  ok_server_details :: "server_details option"
  ok_liveness :: "liveness option"

datatype open_rsp = Open_not_set | Open_ok open_ok | Open_error proto_error

datatype tunnel_rsp = Tunnel_not_set | Tunnel_ok proto_tunnel_properties | Tunnel_error proto_error

record proxy_conn_req =
  pr_tunnel_id :: string
  pr_stream_id :: string
  pr_secret :: "string option"
  pr_source_ip :: "proto_ip_address option"
  pr_proxy_endpoint :: "string option"

datatype stream_rsp = Stream_not_set | Stream_id string | Stream_error proto_error

record hs_request =
  rq_client_details :: proto_client_details
  rq_id_name :: string
  rq_zero_rtt :: "bool option"

datatype message =
    Payload_not_set
  | Open_control_channel_req proto_client_details "liveness option"
  | Open_control_channel_rsp open_rsp
  | Close_control_channel_req
  | Close_control_channel_rsp
  | Open_tunnel_req string proto_tunnel_properties
  | Open_tunnel_rsp string tunnel_rsp
  | Close_tunnel_req string
  | Close_tunnel_rsp string
  | Proxy_conn_req proxy_conn_req
  | Proxy_conn_rsp string "proto_error option"
  | Proxy_req hs_request
  | Proxy_rsp "proto_error option"
  | Stream_req hs_request
  | Stream_rsp stream_rsp
  | Heartbeat "64 word" "64 word"
  | Server_message string
  | Datagram_channel_close string "proto_error option"

fun message_token :: "message \<Rightarrow> string option" where
  "message_token (Open_control_channel_req d l) = pcd_token d"
| "message_token (Proxy_req r) = pcd_token (rq_client_details r)"
| "message_token (Stream_req r) = pcd_token (rq_client_details r)"
| "message_token _ = None"

section \<open>Serialisation into buffers\<close>

definition is_protobuf_buffer_size_valid :: "nat \<Rightarrow> bool" where
  "is_protobuf_buffer_size_valid n \<longleftrightarrow> n \<le> INT_MAX"

definition parse_protobuf_message :: "(byte list \<Rightarrow> 'm option) \<Rightarrow> byte list \<Rightarrow> 'm option" where
  "parse_protobuf_message dec bs = (if is_protobuf_buffer_size_valid (length bs) then dec bs else None)"

text \<open>\<open>Inr None\<close>: the function returns false; \<open>Inl\<close>: an exception of the buffer operations.\<close>

definition serialize_protobuf_message ::
  "('m \<Rightarrow> byte list option) \<Rightarrow> store \<Rightarrow> 'm \<Rightarrow> (core_error + blocks option) \<times> store" where
  "serialize_protobuf_message enc st msg =
     (case enc msg of
        None \<Rightarrow> (Inr None, st)
      | Some bs \<Rightarrow>
          if \<not> is_protobuf_buffer_size_valid (length bs) then (Inr None, st)
          else
            (case make_buffer_allocated st (length bs) of
               (Inl e, st1) \<Rightarrow> (Inl e, st1)
             | (Inr bl, st1) \<Rightarrow>
                 (case buffer_map st1 bl Map_write of
                    (Inl e, st2, bl2) \<Rightarrow> (Inl e, st2)
                  | (Inr m, st2, bl2) \<Rightarrow>
                      (case mem_get_data st2 m of
                         Inl e \<Rightarrow> (Inl e, st2)
                       | Inr d \<Rightarrow> (Inr (Some bl2), write_ptr st2 d bs)))))"

text \<open>A serialised message is a fresh addressable buffer that holds exactly the encoder's bytes.\<close>

lemma INT_MAX_le_SIZE_MAX: "INT_MAX \<le> SIZE_MAX"
  by (simp add: INT_MAX_def SIZE_MAX_def)

lemma serialize_ok:
  assumes wf: "wf_store st" and enc: "enc msg = Some bs" and len: "length bs \<le> INT_MAX"
  shows "\<exists>m st'. serialize_protobuf_message enc st msg = (Inr (Some [m]), st') \<and> buffer_ok st' [m]
           \<and> buffer_bytes st' [m] = bs \<and> (\<forall>x. wf_mem st x \<longrightarrow> wf_mem st' x \<and> mem_bytes st' x = mem_bytes st x)"
proof -
  obtain m st1 where al: "make_memory_allocated st (length bs) = (m, st1)" by fastforce
  note new = make_memory_allocated_spec [OF al] and ext = make_memory_allocated_extends [OF al]
  have n: "length bs \<le> SIZE_MAX" using len INT_MAX_le_SIZE_MAX by simp
  from make_memory_allocated_wf [OF wf n al] have wf1: "wf_store st1" "wf_mem st1 m" by auto
  define st2 where "st2 = write_ptr st1 (Some (length (arrays st)), 0 + 0) bs"
  have fit: "0 + length bs \<le> mem_get_size st1 m" using new(3) by simp
  note w = write_through [OF wf1 new(6) fit, folded st2_def]
  have map: "buffer_map st1 [m] Map_write = (Inr m, st1, [m])"
    using new(4) by (simp add: buffer_map_def map_range_def process_args_def map_memory_block_def INT_MAX_def)
  have eq: "serialize_protobuf_message enc st msg = (Inr (Some [m]), st2)"
    using enc len make_buffer_allocated_eq [OF al] map new(6)
    by (simp add: serialize_protobuf_message_def is_protobuf_buffer_size_valid_def st2_def)
  have "mem_capacity st2 m = length bs"
    using write_ptr_same_shape [of st1 "(Some (length (arrays st)), 0 + 0)" bs] new(7)
    by (simp add: same_shape_def st2_def mem_capacity_def)
  moreover have "m \<noteq> None" "wf_mem st2 m" using new(1) w(8) wf1(2) by auto
  ultimately have "buffer_ok st2 [m]" using w(1) n by (simp add: buffer_ok_def INT_MAX_def)
  moreover have "mem_bytes st2 m = bs" using w(2) new(2) by (simp add: write_at_def)
  moreover have "wf_mem st2 x \<and> mem_bytes st2 x = mem_bytes st x" if "wf_mem st x" for x
  proof -
    have "mem_array st1 x \<noteq> Some (length (arrays st))"
      using mem_array_bound [OF wf that] extends_observers(6) [OF ext wf that] by auto
    then show ?thesis using w(3,8) extends_wf_mem [OF ext that] extends_bytes [OF ext wf that] by simp
  qed
  ultimately show ?thesis using eq by auto
qed

end
