(* ===== verification/Endpoint.thy ===== *)
theory Endpoint
  imports Resolve
begin

text \<open>
  Model of \<open>lib/rstream/io-rstrm/endpoint.cpp\<close>: endpoints (a tunnel or stream name with the server that
  serves it) and the redirection of a server address to a proxy. Parsing a URL is the work of Boost.URL
  and a parameter: \<open>parse\<close> maps the text of a URL to its parts, \<open>None\<close> where the constructor throws.
\<close>

section \<open>Addresses from text\<close>

type_synonym url_parser = "string \<Rightarrow> address option"

definition make_address :: "url_parser \<Rightarrow> string \<Rightarrow> address option" where
  "make_address parse str = map_option (\<lambda>u. u\<lparr>a_str := Some str\<rparr>) (parse (normalize_str str))"

definition empty_address :: address where
  "empty_address = \<lparr>a_str = None, a_host = [], a_port = [], a_params = []\<rparr>"

section \<open>Endpoints\<close>

record endpoint =
  ep_id_name :: "string option"
  ep_server_address :: address
  ep_server_address_from_uri_param :: bool
  ep_secret :: "string option"
  ep_source_ip :: "ip_address option"

definition empty_endpoint :: endpoint where
  "empty_endpoint = \<lparr>ep_id_name = None, ep_server_address = empty_address, ep_server_address_from_uri_param = False,
     ep_secret = None, ep_source_ip = None\<rparr>"

text \<open>
  An endpoint whose server was named by the URL may see the user's credentials only when tokens are switched
  off or the token comes from the URL as well: the test of \<open>async_connect\<close> and \<open>async_accept\<close>.
\<close>

definition trusted_endpoint :: "'a config_scheme \<Rightarrow> endpoint \<Rightarrow> bool" where
  "trusted_endpoint cfg ep \<longleftrightarrow> (ep_server_address_from_uri_param ep \<longrightarrow> cfg_no_token cfg \<or> cfg_token_from_uri_param cfg)"

text \<open>An exception of the URL parser leaves \<open>make_endpoint\<close>; the other failures are error codes.\<close>

datatype endpoint_result = Ep_ok endpoint | Ep_error error_code | Ep_throw

definition endpoint_at :: "url_parser \<Rightarrow> string option \<Rightarrow> bool \<Rightarrow> string \<Rightarrow> endpoint_result" where
  "endpoint_at parse id_name from_uri server =
     (case make_address parse server of
        None \<Rightarrow> Ep_throw
      | Some a \<Rightarrow> Ep_ok \<lparr>ep_id_name = id_name, ep_server_address = a, ep_server_address_from_uri_param = from_uri,
                          ep_secret = None, ep_source_ip = None\<rparr>)"

definition make_endpoint ::
  "build_info \<Rightarrow> outside \<Rightarrow> url_parser \<Rightarrow> string option \<Rightarrow> string option \<Rightarrow> string option \<Rightarrow> endpoint_result" where
  "make_endpoint b os parse id_name server_address config_path =
     (case server_address of
        Some s \<Rightarrow> endpoint_at parse id_name False s
      | None \<Rightarrow>
          (case get_rstream_engine_address b os config_path of
             Inl e \<Rightarrow> Ep_error e
           | Inr s \<Rightarrow> endpoint_at parse id_name False s))"

text \<open>\<open>url\<close> with \<open>is_name\<close> telling whether its host is a name.\<close>

definition make_endpoint_url :: "build_info \<Rightarrow> outside \<Rightarrow> url_parser \<Rightarrow> bool \<Rightarrow> address \<Rightarrow> endpoint_result" where
  "make_endpoint_url b os parse is_name url =
     (let it = find_param (a_params url) ''server'';
          server_ec = (case it of None \<Rightarrow> (None, ec_ok) | Some p \<Rightarrow> parse_url_string None p ec_ok);
          from_uri = (it \<noteq> None);
          id_name = (if is_name \<and> a_host url \<noteq> [] then Some (a_host url) else None)
      in if ec_failed (snd server_ec) then Ep_error (snd server_ec)
         else case fst server_ec of
                Some s \<Rightarrow> endpoint_at parse id_name from_uri s
              | None \<Rightarrow>
                  (case get_rstream_engine_address b os None of
                     Inl e \<Rightarrow> Ep_error e
                   | Inr s \<Rightarrow> endpoint_at parse id_name from_uri s))"

section \<open>Redirection\<close>

fun erase_param :: "string \<Rightarrow> param list \<Rightarrow> param list" where
  "erase_param k [] = []"
| "erase_param k (p # ps) = (if fst p = k then ps else p # erase_param k ps)"

definition make_redirected_server_address :: "url_parser \<Rightarrow> address \<Rightarrow> string \<Rightarrow> error_code + address" where
  "make_redirected_server_address parse base server_address =
     (case make_address parse server_address of
        None \<Rightarrow> Inl (rstrm_ec Invalid_endpoint)
      | Some target \<Rightarrow>
          if a_host target = [] \<or> a_port target = [] then Inl (rstrm_ec Invalid_endpoint)
          else Inr \<lparr>a_str = None, a_host = a_host target, a_port = a_port target,
                     a_params = erase_param ''ssl.sni'' (a_params base)\<rparr>)"

lemma erase_param_other: "k \<noteq> k' \<Longrightarrow> filter (\<lambda>p. fst p = k') (erase_param k ps) = filter (\<lambda>p. fst p = k') ps"
  by (induction ps) auto

lemma erase_param_list_ex:
  "(\<And>p. P p \<Longrightarrow> fst p \<noteq> k) \<Longrightarrow> list_ex P (erase_param k ps) = list_ex P ps"
  by (induction ps) auto

lemma erase_param_gone: "length (filter (\<lambda>p. fst p = k) ps) \<le> 1 \<Longrightarrow> find_param (erase_param k ps) k = None"
  by (induction ps) (fastforce simp: find_param_def find_None_iff filter_empty_conv)+

section \<open>Properties\<close>


definition w_parse :: url_parser where
  "w_parse s = (if s = ''tcp://edge:7'' then Some \<lparr>a_str = None, a_host = ''edge'', a_port = ''7'', a_params = []\<rparr> else None)"


end
