(* ===== verification/OrderedMap.thy ===== *)
theory OrderedMap
  imports Main "HOL-Library.List_Lexorder" "HOL-Library.Char_ord"
begin

text \<open>
  \<open>std::map\<close> as the code uses it: an association list whose keys increase, so that iteration visits the
  entries in the order of their keys. \<open>std::string\<close> keys are compared byte by byte, which is the order of
  \<open>List_Lexorder\<close> on \<open>Char_ord\<close>. The locale \<open>key_map\<close> states what the client relies on.
\<close>

type_synonym ('k, 'v) omap = "('k \<times> 'v) list"

fun omap_put :: "'k::linorder \<Rightarrow> 'v \<Rightarrow> ('k, 'v) omap \<Rightarrow> ('k, 'v) omap" where
  "omap_put k v [] = [(k, v)]"
| "omap_put k v ((k', v') # xs) =
     (if k < k' then (k, v) # (k', v') # xs else if k = k' then (k, v) # xs else (k', v') # omap_put k v xs)"

definition omap_del :: "'k \<Rightarrow> ('k, 'v) omap \<Rightarrow> ('k, 'v) omap" where
  "omap_del k xs = filter (\<lambda>p. fst p \<noteq> k) xs"

definition omap_sorted :: "('k::linorder, 'v) omap \<Rightarrow> bool" where
  "omap_sorted xs = sorted_wrt (<) (map fst xs)"

section \<open>The interface\<close>

locale key_map =
  fixes lookup :: "'m \<Rightarrow> 'k \<Rightarrow> 'v option"
    and put :: "'k \<Rightarrow> 'v \<Rightarrow> 'm \<Rightarrow> 'm"
    and del :: "'k \<Rightarrow> 'm \<Rightarrow> 'm"
    and wf :: "'m \<Rightarrow> bool"
    and card_of :: "'m \<Rightarrow> nat"
  assumes lookup_put: "wf m \<Longrightarrow> lookup (put k v m) = (lookup m)(k \<mapsto> v)"
    and lookup_del: "wf m \<Longrightarrow> lookup (del k m) = (lookup m)(k := None)"
    and wf_put: "wf m \<Longrightarrow> wf (put k v m)"
    and wf_del: "wf m \<Longrightarrow> wf (del k m)"
    and card_put: "wf m \<Longrightarrow> card_of (put k v m) = (if lookup m k = None then Suc (card_of m) else card_of m)"
    and card_del: "wf m \<Longrightarrow> card_of (del k m) \<le> card_of m"
begin

definition every :: "('k \<Rightarrow> 'v \<Rightarrow> bool) \<Rightarrow> 'm \<Rightarrow> bool" where
  "every P m \<longleftrightarrow> (\<forall>k v. lookup m k = Some v \<longrightarrow> P k v)"

lemma every_put: "wf m \<Longrightarrow> every P m \<Longrightarrow> P k v \<Longrightarrow> every P (put k v m)"
  by (auto simp: every_def lookup_put)

lemma every_del: "wf m \<Longrightarrow> every P m \<Longrightarrow> every P (del k m)"
  by (auto simp: every_def lookup_del)

lemma every_lookup: "every P m \<Longrightarrow> lookup m k = Some v \<Longrightarrow> P k v"
  by (simp add: every_def)

lemma card_replace: "wf m \<Longrightarrow> lookup m k = Some w \<Longrightarrow> card_of (put k v m) = card_of m"
  by (simp add: card_put)

end

section \<open>The interface holds\<close>

lemma omap_put_keys: "fst ` set (omap_put k v xs) = insert k (fst ` set xs)"
  by (induction k v xs rule: omap_put.induct) auto

lemma omap_put_head: "(\<forall>x \<in> set xs. a < fst x) \<Longrightarrow> a < k \<Longrightarrow> \<forall>x \<in> set (omap_put k v xs). a < fst x"
  by (induction k v xs rule: omap_put.induct) auto

lemma omap_put_sorted: "omap_sorted xs \<Longrightarrow> omap_sorted (omap_put k v xs)"
proof (induction k v xs rule: omap_put.induct)
  case (2 k v k' v' xs)
  then show ?case using omap_put_head [of xs k' k v] by (auto simp: omap_sorted_def)
qed (simp add: omap_sorted_def)

lemma omap_lookup_put: "omap_sorted xs \<Longrightarrow> map_of (omap_put k v xs) = (map_of xs)(k \<mapsto> v)"
proof (induction k v xs rule: omap_put.induct)
  case (2 k v k' v' xs)
  then show ?case by (auto simp: omap_sorted_def fun_eq_iff)
qed simp

lemma omap_lookup_del: "map_of (omap_del k xs) = (map_of xs)(k := None)"
  by (induction xs) (auto simp: omap_del_def fun_eq_iff)

lemma omap_del_sorted: "omap_sorted xs \<Longrightarrow> omap_sorted (omap_del k xs)"
  by (induction xs) (auto simp: omap_sorted_def omap_del_def)

lemma omap_length_put:
  "omap_sorted xs \<Longrightarrow> length (omap_put k v xs) = (if map_of xs k = None then Suc (length xs) else length xs)"
proof (induction k v xs rule: omap_put.induct)
  case (2 k v k' v' xs)
  have "k < k' \<Longrightarrow> map_of xs k = None" using 2(2) by (force simp: omap_sorted_def map_of_eq_None_iff)
  with 2 show ?case by (auto simp: omap_sorted_def)
qed simp

lemma omap_length_del: "length (omap_del k xs) \<le> length xs"
  by (simp add: omap_del_def)

lemma omap_sorted_Nil [simp]: "omap_sorted []"
  by (simp add: omap_sorted_def)

interpretation om: key_map map_of omap_put omap_del omap_sorted length
  by unfold_locales
    (simp_all add: omap_lookup_put omap_lookup_del omap_put_sorted omap_del_sorted omap_length_put omap_length_del)

lemma omap_sorted_distinct: "omap_sorted xs \<Longrightarrow> distinct (map fst xs)"
  by (induction xs) (auto simp: omap_sorted_def)

lemma omap_mem: "omap_sorted xs \<Longrightarrow> (k, v) \<in> set xs \<longleftrightarrow> map_of xs k = Some v"
  using omap_sorted_distinct by (auto dest: map_of_SomeD simp: map_of_eq_Some_iff)

end
