(* ===== verification/Operations.thy ===== *)
theory Operations
  imports Prelude
begin

text \<open>
  Asynchronous operations, as the client, the socket and the acceptor keep them: a table of operations, the
  list of what waits for an answer, and the log of the completions. The table is right when every operation
  that is not completed waits somewhere and the completed ones are answered once.
\<close>

text \<open>\<open>boost::asio::error::operation_aborted\<close>: \<open>ECANCELED\<close> of the system category.\<close>

definition asio_operation_aborted :: error_code where
  "asio_operation_aborted = EC System_cat 125"

section \<open>Answering an entry\<close>

lemma out_split: "k < length xs \<Longrightarrow> xs = take k xs @ xs ! k # drop (Suc k) xs"
  by (rule id_take_nth_drop)

definition remove_at :: "nat \<Rightarrow> 'a list \<Rightarrow> 'a list" where
  "remove_at k xs = take k xs @ drop (Suc k) xs"

abbreviation over :: "('a \<Rightarrow> 'b list) \<Rightarrow> 'a list \<Rightarrow> 'b list" where
  "over f xs \<equiv> concat (map f xs)"

text \<open>A projection of the waiting entries splits at the entry that is answered.\<close>

lemma remove_at_project:
  assumes "k < length xs"
  shows "\<exists>as bs. over f xs = as @ f (xs ! k) @ bs \<and> over f (remove_at k xs) = as @ bs"
proof -
  have "over f xs = over f (take k xs) @ f (xs ! k) @ over f (drop (Suc k) xs)"
    by (subst out_split [OF assms]) simp
  then show ?thesis by (auto simp: remove_at_def)
qed

section \<open>A table of operations\<close>

text \<open>
  \<open>ops_ok ds js W ids\<close>: operation \<open>i\<close> is completed when \<open>ds ! i\<close>; \<open>js\<close> are the operations whose job
  waits, \<open>W\<close> those that wait elsewhere, \<open>ids\<close> the completions in the order of the log. An operation
  that is not completed waits somewhere, and the completed ones are those of the log, once each.
\<close>

definition ops_ok :: "bool list \<Rightarrow> nat list \<Rightarrow> nat set \<Rightarrow> nat list \<Rightarrow> bool" where
  "ops_ok ds js W ids \<longleftrightarrow>
     distinct js \<and> set js \<subseteq> {..<length ds} \<and> distinct ids \<and> set ids = {i. i < length ds \<and> ds ! i}
     \<and> {i. i < length ds \<and> \<not> ds ! i} \<subseteq> set js \<union> W \<and> W \<subseteq> {..<length ds} - set js"

lemma ops_ok_init: "ops_ok [] [] {} []"
  by (simp add: ops_ok_def)

lemma ops_ok_mid: "ops_ok ds (as @ i # bs) W ids \<longleftrightarrow> ops_ok ds (i # as @ bs) W ids"
  by (auto simp: ops_ok_def)

lemma ops_ok_swap: "length xs \<le> 1 \<Longrightarrow> ops_ok ds (as @ xs @ bs) W ids = ops_ok ds (xs @ as @ bs) W ids"
  using ops_ok_mid [of ds as _ bs W ids] by (cases xs) auto

lemma ops_ok_new: "ops_ok ds js W ids \<Longrightarrow> ops_ok (ds @ [False]) (js @ [length ds]) W ids"
  by (auto simp: ops_ok_def nth_append less_Suc_eq subset_iff)

lemma ops_ok_complete:
  assumes "ops_ok ds js W ids" and "i < length ds" and "\<not> ds ! i" and "W - {i} \<subseteq> W'" and "W' \<subseteq> W"
  shows "ops_ok (ds[i := True]) js W' (ids @ [i])"
  using assms by (auto simp: ops_ok_def nth_list_update)

lemma ops_ok_done: "ops_ok ds (i # js) W ids \<Longrightarrow> ds ! i \<Longrightarrow> ops_ok ds js W ids"
  by (auto simp: ops_ok_def)

lemma ops_ok_park: "ops_ok ds (i # js) W ids \<Longrightarrow> ops_ok ds js (insert i W) ids"
  by (auto simp: ops_ok_def)

lemma ops_ok_unpark: "ops_ok ds js W ids \<Longrightarrow> W' \<subseteq> W \<Longrightarrow> \<forall>i \<in> W - W'. ds ! i \<Longrightarrow> ops_ok ds js W' ids"
  by (auto simp: ops_ok_def)

lemma ops_ok_complete_job:
  assumes "ops_ok ds (i # js) W ids" and "\<not> ds ! i"
  shows "ops_ok (ds[i := True]) js W (ids @ [i])"
proof -
  have "i < length ds" "i \<notin> W" using assms(1) by (auto simp: ops_ok_def)
  with ops_ok_complete [OF assms(1) _ assms(2), of W] ops_ok_done show ?thesis by simp
qed

lemma ops_ok_job: "ops_ok ds js W ids \<Longrightarrow> i \<in> set js \<Longrightarrow> i < length ds"
  by (auto simp: ops_ok_def)

lemma ops_ok_waits: "ops_ok ds js W ids \<Longrightarrow> i < length ds \<Longrightarrow> \<not> ds ! i \<Longrightarrow> i \<notin> W \<Longrightarrow> i \<in> set js"
  by (auto simp: ops_ok_def)

lemma ops_ok_parked: "ops_ok ds js W ids \<Longrightarrow> i \<in> W \<Longrightarrow> i < length ds \<and> i \<notin> set js"
  by (auto simp: ops_ok_def)

lemma ops_ok_once: "ops_ok ds js W ids \<Longrightarrow> distinct ids"
  by (simp add: ops_ok_def)

text \<open>With nothing waiting, every operation has been answered.\<close>

lemma ops_ok_idle: "ops_ok ds [] {} ids \<Longrightarrow> set ids = {..<length ds}"
  by (auto simp: ops_ok_def)

end
