(* ===== verification/Client.thy ===== *)
theory Client
  imports Messages Endpoint OrderedMap Operations
begin

text \<open>
  Model of \<open>lib/rstream/io-rstrm/client.cpp\<close>: the control-channel client. Everything the client does runs
  on one strand. Its state is the record \<open>client\<close>; the operations of the callers (connect, create a
  tunnel, accept a stream) are heap objects and therefore lists indexed by the order of the calls. What
  has been started and has not been answered yet (jobs dispatched to the strand, resolver, socket,
  payloader, queue, timers, stream connections) is the list \<open>c_out\<close>; an interleaving is a sequence of
  calls from outside and of answers to any entry of that list, in any order. What the client does to the
  outside is appended to a log. \<open>m_generation\<close> is a natural number: the 64-bit counter grows by two for
  each connection. Calls made by a status or disconnection callback from inside the strand are treated
  like other calls, as jobs.
\<close>

section \<open>Types\<close>

datatype cstate = St_null | St_connecting | St_connected | St_closing

record control_callbacks =
  cb_on_disconnection :: "nat option"
  cb_on_status :: "nat option"

record status =
  ss_update :: "string option"
  ss_plan :: "string option"
  ss_provider :: "string option"
  ss_region :: "string option"

definition empty_status :: status where
  "empty_status = \<lparr>ss_update = None, ss_plan = None, ss_provider = None, ss_region = None\<rparr>"

record connect_op =
  co_cancelled :: bool
  co_completed :: bool
  co_reserved :: bool

record create_tunnel_op =
  cr_properties :: tunnel_properties
  cr_cancelled :: bool
  cr_completed :: bool

text \<open>\<open>ao_tunnel\<close> is the tunnel identifier that the cancellation slot of the operation captures.\<close>

record accept_tunnel_op =
  ao_tunnel :: string
  ao_cancelled :: bool
  ao_completed :: bool
  ao_busy :: bool

record stream_context =
  sx_secret :: "string option"
  sx_source_ip :: "ip_address option"
  sx_proxy_endpoint :: "address option"

text \<open>\<open>sc_ptr\<close>: the stream's own socket, if it has one, and whether it is connected.\<close>

record stream_container =
  sc_ptr :: "bool option"
  sc_context :: stream_context

record tunnel_type =
  tn_closing :: bool
  tn_accept_tunnel_op :: "nat option"
  tn_streams :: "(string, stream_container) omap"

definition new_tunnel :: tunnel_type where
  "new_tunnel = \<lparr>tn_closing = False, tn_accept_tunnel_op = None, tn_streams = []\<rparr>"

record tunnel =
  tu_tunnel_id :: string
  tu_local_endpoint :: endpoint
  tu_properties :: tunnel_properties

text \<open>What a caller posts to the strand.\<close>

datatype job =
    J_connect nat
  | J_cancel_connect nat
  | J_create nat
  | J_cancel_create nat
  | J_accept string nat
  | J_cancel_accept string nat
  | J_close_tunnel string
  | J_close

datatype pending =
    P_job job
  | P_resolve nat
  | P_connect nat
  | P_recv nat
  | P_send nat bool
  | P_stream nat string string
  | P_state_timer nat nat
  | P_heartbeat_timer nat nat
  | P_queue_cancel error_code cstate "nat option"

text \<open>
  Actions. \<open>Stream_connect\<close> starts a connection on the stream's own socket (\<open>None\<close>) or on the socket
  of an accept operation; \<open>Accept_adopt\<close> moves the stream's socket into that of the operation.
\<close>

datatype caction =
    Connect_rejected error_code
  | Connect_done nat error_code
  | Create_done nat error_code "tunnel option"
  | Accept_done nat error_code
  | Accept_endpoint nat endpoint
  | Accept_adopt nat string string
  | Accept_peer_close nat
  | Stream_close string string
  | Stream_connect nat string string endpoint "nat option"
  | Sent nat message
  | Resolver_cancel
  | Socket_close
  | On_status nat status
  | On_disconnection nat error_code

record client =
  c_state :: cstate
  c_generation :: nat
  c_is_state_non_null :: bool
  c_close_pending :: bool
  c_server_address :: address
  c_control_callbacks :: control_callbacks
  c_buffer :: "nat list"
  c_connect_op :: "nat option"
  c_create_tunnel_ops :: "(string, nat) omap"
  c_tunnels :: "(string, tunnel_type) omap"
  c_error_code :: error_code
  c_client_details :: "client_details option"
  c_status :: status
  c_connects :: "connect_op list"
  c_creates :: "create_tunnel_op list"
  c_accepts :: "accept_tunnel_op list"
  c_timers :: "bool list"
  c_out :: "pending list"
  c_fault :: bool
  c_log :: "caction list"

text \<open>
  What the constructor fixes, with the protobuf encoder and decoder, the URL parser and the texts of
  error codes as parameters.
\<close>

record client_params =
  cp_config :: config_client
  cp_build :: build_info
  cp_default_server_address :: "string option"
  cp_default_server_error :: error_code
  cp_token :: "string option"
  cp_token_error :: error_code
  cp_mtls_token :: "string option"
  cp_mtls_token_error :: error_code
  cp_enc :: "message \<Rightarrow> byte list option"
  cp_dec :: "byte list \<Rightarrow> message option"
  cp_parse :: url_parser
  cp_ec_message :: "error_code \<Rightarrow> string"

text \<open>
  What the outside answers in one step: the error code of the operation, whether the resolver found
  nothing, whether the connected socket is secure, the bytes received, the request identifiers drawn,
  whether an accepting socket is already in use, and the error code of \<open>socket::settings\<close>.
\<close>

record reply =
  re_error_code :: error_code
  re_results_empty :: bool
  re_is_secure :: bool
  re_bytes :: "byte list"
  re_request_id :: "nat \<Rightarrow> string"
  re_peer_impl :: bool
  re_settings :: error_code

definition sum_error :: "error_code + 'a \<Rightarrow> error_code" where
  "sum_error r = (case r of Inl e \<Rightarrow> e | Inr _ \<Rightarrow> ec_ok)"

definition localhost_address :: address where
  "localhost_address = \<lparr>a_str = Some ''tcp://localhost'', a_host = ''localhost'', a_port = [], a_params = []\<rparr>"

definition localhost_mtls_address :: address where
  "localhost_mtls_address =
     \<lparr>a_str = Some ''tcp://localhost?ssl&ssl.cert_file=snapshot'', a_host = ''localhost'', a_port = [],
      a_params = [(''ssl'', None), (''ssl.cert_file'', Some ''snapshot'')]\<rparr>"

definition make_client_params ::
  "config_client \<Rightarrow> build_info \<Rightarrow> outside \<Rightarrow> (message \<Rightarrow> byte list option) \<Rightarrow> (byte list \<Rightarrow> message option)
     \<Rightarrow> url_parser \<Rightarrow> (error_code \<Rightarrow> string) \<Rightarrow> client_params" where
  "make_client_params cfg b os enc dec parse ec_message =
     (let server_result = get_rstream_engine_address b os (cfg_config_path cfg);
          token_result = get_rstream_token os cfg localhost_address;
          mtls_token_result = get_rstream_token os cfg localhost_mtls_address
      in \<lparr>cp_config = cfg, cp_build = b,
          cp_default_server_address = (case server_result of Inl _ \<Rightarrow> None | Inr s \<Rightarrow> Some s),
          cp_default_server_error = sum_error server_result,
          cp_token = (case token_result of Inl _ \<Rightarrow> None | Inr t \<Rightarrow> t),
          cp_token_error = sum_error token_result,
          cp_mtls_token = (case mtls_token_result of Inl _ \<Rightarrow> None | Inr t \<Rightarrow> t),
          cp_mtls_token_error = sum_error mtls_token_result,
          cp_enc = enc, cp_dec = dec, cp_parse = parse, cp_ec_message = ec_message\<rparr>)"

definition client_init :: client where
  "client_init =
     \<lparr>c_state = St_null, c_generation = 0, c_is_state_non_null = False, c_close_pending = False,
      c_server_address = empty_address, c_control_callbacks = \<lparr>cb_on_disconnection = None, cb_on_status = None\<rparr>,
      c_buffer = [], c_connect_op = None, c_create_tunnel_ops = [], c_tunnels = [], c_error_code = ec_ok,
      c_client_details = None, c_status = empty_status, c_connects = [], c_creates = [], c_accepts = [],
      c_timers = [], c_out = [], c_fault = False, c_log = []\<rparr>"

section \<open>Tunnel properties\<close>

definition invalid_published_tcp_options :: "tunnel_properties \<Rightarrow> bool" where
  "invalid_published_tcp_options q =
     (let published_tcp = (m_protocol q = Some ''tcp'') in
      if m_port q \<noteq> None \<and> \<not> published_tcp then True
      else if \<not> published_tcp then False
      else if m_publish q = Some False
           \<or> (m_type q \<noteq> None \<and> m_type q \<noteq> Some ''bytestream'')
           \<or> (case m_port q of None \<Rightarrow> False | Some v \<Rightarrow> v = 0 \<or> v > 65535) then True
      else m_hostname q \<noteq> None \<or> m_tls_mode q \<noteq> None \<or> m_tls_alpns q \<noteq> [] \<or> m_tls_min_version q \<noteq> None
           \<or> m_tls_ciphers q \<noteq> [] \<or> m_mtls_auth q \<noteq> None \<or> m_http_version q \<noteq> None \<or> m_http_use_tls q \<noteq> None
           \<or> m_upstream_tls q \<noteq> None \<or> m_token_auth q \<noteq> None \<or> m_rstream_auth q \<noteq> None
           \<or> m_challenge_mode q \<noteq> None \<or> m_datagram_guaranteed_delivery q \<noteq> None)"

definition normalize_tunnel_properties :: "tunnel_properties \<Rightarrow> tunnel_properties" where
  "normalize_tunnel_properties q =
     (if m_protocol q = Some ''tcp'' then
        let q1 = (if m_type q = None then q\<lparr>m_type := Some ''bytestream''\<rparr> else q)
        in if m_publish q1 = None then q1\<lparr>m_publish := Some True\<rparr> else q1
      else q)"

section \<open>Primitives\<close>

definition act :: "caction \<Rightarrow> client \<Rightarrow> client" where
  "act a c = c\<lparr>c_log := c_log c @ [a]\<rparr>"

definition start :: "pending \<Rightarrow> client \<Rightarrow> client" where
  "start o1 c = c\<lparr>c_out := c_out c @ [o1]\<rparr>"

definition fault :: "client \<Rightarrow> client" where
  "fault c = c\<lparr>c_fault := True\<rparr>"

text \<open>\<open>m_state_changed_signal\<close>: every timer task that still listens is cleaned, that is, marked complete.\<close>

definition set_state :: "cstate \<Rightarrow> client \<Rightarrow> client" where
  "set_state s c = c\<lparr>c_state := s, c_timers := map (\<lambda>_. True) (c_timers c)\<rparr>"

definition arm_state_timer :: "nat \<Rightarrow> client \<Rightarrow> client" where
  "arm_state_timer timeout_ms c =
     (if timeout_ms = 0 then c
      else start (P_state_timer (length (c_timers c)) (c_generation c)) (c\<lparr>c_timers := c_timers c @ [False]\<rparr>))"

definition timer_clean :: "nat \<Rightarrow> client \<Rightarrow> client" where
  "timer_clean t c = c\<lparr>c_timers := (c_timers c)[t := True]\<rparr>"

definition upd_connect :: "nat \<Rightarrow> (connect_op \<Rightarrow> connect_op) \<Rightarrow> client \<Rightarrow> client" where
  "upd_connect i f c = c\<lparr>c_connects := (c_connects c)[i := f (c_connects c ! i)]\<rparr>"

definition upd_create :: "nat \<Rightarrow> (create_tunnel_op \<Rightarrow> create_tunnel_op) \<Rightarrow> client \<Rightarrow> client" where
  "upd_create i f c = c\<lparr>c_creates := (c_creates c)[i := f (c_creates c ! i)]\<rparr>"

definition upd_accept :: "nat \<Rightarrow> (accept_tunnel_op \<Rightarrow> accept_tunnel_op) \<Rightarrow> client \<Rightarrow> client" where
  "upd_accept i f c = c\<lparr>c_accepts := (c_accepts c)[i := f (c_accepts c ! i)]\<rparr>"

definition put_tunnel :: "string \<Rightarrow> tunnel_type \<Rightarrow> client \<Rightarrow> client" where
  "put_tunnel t tn c = c\<lparr>c_tunnels := omap_put t tn (c_tunnels c)\<rparr>"

section \<open>Completion\<close>

definition complete_connect :: "nat option \<Rightarrow> error_code \<Rightarrow> client \<Rightarrow> client" where
  "complete_connect op ec c =
     (case op of
        None \<Rightarrow> c
      | Some i \<Rightarrow>
          if co_completed (c_connects c ! i) then c
          else
            let c1 = act (Connect_done i ec) (upd_connect i (\<lambda>x. x\<lparr>co_completed := True\<rparr>) c)
            in if c_connect_op c1 = Some i then c1\<lparr>c_connect_op := None\<rparr> else c1)"

definition complete_create_tunnel :: "nat \<Rightarrow> error_code \<Rightarrow> tunnel option \<Rightarrow> client \<Rightarrow> client" where
  "complete_create_tunnel i ec tun c =
     (if cr_completed (c_creates c ! i) then c
      else act (Create_done i ec tun) (upd_create i (\<lambda>x. x\<lparr>cr_completed := True\<rparr>) c))"

definition complete_accept_tunnel :: "nat \<Rightarrow> error_code \<Rightarrow> client \<Rightarrow> client" where
  "complete_accept_tunnel i ec c =
     (if ao_completed (c_accepts c ! i) then c
      else act (Accept_done i ec) (upd_accept i (\<lambda>x. x\<lparr>ao_completed := True\<rparr>) c))"

section \<open>Closing\<close>

definition on_close :: "error_code \<Rightarrow> client \<Rightarrow> client" where
  "on_close ec c =
     (if c_state c = St_null \<or> c_close_pending c then c
      else
        let cause = (if ec_failed (c_error_code c) then c_error_code c else if ec_failed ec then ec else ec_ok);
            previous_state = c_state c;
            disconnection_callback = cb_on_disconnection (c_control_callbacks c);
            c1 = c\<lparr>c_close_pending := True, c_generation := Suc (c_generation c)\<rparr>;
            c2 = (if c_state c1 \<noteq> St_closing then set_state St_closing c1 else c1)
        in start (P_queue_cancel cause previous_state disconnection_callback) (act Resolver_cancel c2))"

definition on_error :: "error_code \<Rightarrow> client \<Rightarrow> client" where
  "on_error ec c = (if \<not> ec_failed ec then c else on_close ec c)"

text \<open>\<open>serialize_protobuf_message\<close> returns false exactly when this does not hold.\<close>

definition serializable :: "client_params \<Rightarrow> message \<Rightarrow> bool" where
  "serializable p msg =
     (case cp_enc p msg of None \<Rightarrow> False | Some bs \<Rightarrow> is_protobuf_buffer_size_valid (length bs))"

text \<open>The callback of \<open>do_send_message\<close> is either absent or \<open>do_send_heartbeat\<close>.\<close>

definition do_send_message :: "client_params \<Rightarrow> message \<Rightarrow> bool \<Rightarrow> client \<Rightarrow> client" where
  "do_send_message p msg heartbeat_cb c =
     (if c_state c = St_null then c
      else if \<not> serializable p msg then on_error (rstrm_ec Protocol_error) c
      else start (P_send (c_generation c) heartbeat_cb) (act (Sent (c_generation c) msg) c))"

definition close_internal :: "client_params \<Rightarrow> error_code \<Rightarrow> client \<Rightarrow> client" where
  "close_internal p ec c =
     (if c_state c = St_null then c
      else if c_state c = St_connecting then on_close ec c
      else if c_state c \<noteq> St_closing then
        let c1 = arm_state_timer (cfg_connection_timeout_ms (cp_config p)) (set_state St_closing c);
            c2 = (if ec_failed ec \<and> \<not> ec_failed (c_error_code c1) then c1\<lparr>c_error_code := ec\<rparr> else c1)
        in do_send_message p Close_control_channel_req False c2
      else c)"

section \<open>Heartbeat\<close>

definition do_send_heartbeat :: "client_params \<Rightarrow> client \<Rightarrow> client" where
  "do_send_heartbeat p c =
     (if cfg_heartbeat_interval_ms (cp_config p) = 0 then c
      else if c_state c \<noteq> St_connected then c
      else start (P_heartbeat_timer (length (c_timers c)) (c_generation c)) (c\<lparr>c_timers := c_timers c @ [False]\<rparr>))"

definition send_heartbeat :: "client_params \<Rightarrow> client \<Rightarrow> client" where
  "send_heartbeat p c = do_send_heartbeat p c"

definition on_heartbeat_timer :: "client_params \<Rightarrow> nat \<Rightarrow> nat \<Rightarrow> error_code \<Rightarrow> client \<Rightarrow> client" where
  "on_heartbeat_timer p t g ec c =
     (if c_timers c ! t then c
      else timer_clean t
             (if \<not> ec_failed ec \<and> g = c_generation c then do_send_message p (Heartbeat 0 0) True c else c))"

definition on_state_timer :: "nat \<Rightarrow> nat \<Rightarrow> error_code \<Rightarrow> client \<Rightarrow> client" where
  "on_state_timer t g ec c =
     (if c_timers c ! t then c
      else timer_clean t
             (if \<not> ec_failed ec \<and> g = c_generation c then on_error (rstrm_ec Operation_timeout) c else c))"

definition on_send_message :: "client_params \<Rightarrow> nat \<Rightarrow> error_code \<Rightarrow> bool \<Rightarrow> client \<Rightarrow> client" where
  "on_send_message p g ec heartbeat_cb c =
     (if g \<noteq> c_generation c \<or> c_state c = St_null then c
      else if ec_failed ec then on_error ec c
      else if heartbeat_cb then do_send_heartbeat p c else c)"

section \<open>Connecting\<close>

definition release_connect_reservation :: "nat \<Rightarrow> client \<Rightarrow> client" where
  "release_connect_reservation i c =
     (if \<not> co_reserved (c_connects c ! i) \<or> c_state c \<noteq> St_null then c
      else if c_is_state_non_null c then
        upd_connect i (\<lambda>x. x\<lparr>co_reserved := False\<rparr>)
          (c\<lparr>c_is_state_non_null := False, c_server_address := empty_address\<rparr>)
      else c)"

text \<open>The cancellations test for a null pointer first: a number that belongs to no operation.\<close>

definition cancel_connect :: "nat \<Rightarrow> client \<Rightarrow> client" where
  "cancel_connect i c =
     (if \<not> i < length (c_connects c) \<or> \<not> co_cancelled (c_connects c ! i) \<or> co_completed (c_connects c ! i) then c
      else if c_connect_op c = Some i then on_close asio_operation_aborted c
      else complete_connect (Some i) asio_operation_aborted (release_connect_reservation i c))"

definition do_resolve_host :: "client \<Rightarrow> client" where
  "do_resolve_host c = start (P_resolve (c_generation c)) c"

text \<open>The handler of an operation is null exactly when the operation has been completed.\<close>

definition async_connect_internal :: "client_params \<Rightarrow> nat \<Rightarrow> client \<Rightarrow> client" where
  "async_connect_internal p i c =
     (if co_completed (c_connects c ! i) then c
      else if co_cancelled (c_connects c ! i) then
        complete_connect (Some i) asio_operation_aborted (release_connect_reservation i c)
      else if \<not> co_reserved (c_connects c ! i) \<or> c_state c \<noteq> St_null then
        complete_connect (Some i) (rstrm_ec Invalid_state) c
      else
        do_resolve_host
          (arm_state_timer (cfg_connection_timeout_ms (cp_config p))
            (set_state St_connecting (c\<lparr>c_generation := Suc (c_generation c), c_connect_op := Some i\<rparr>))))"

definition do_connect :: "client \<Rightarrow> client" where
  "do_connect c = start (P_connect (c_generation c)) c"

definition on_do_resolve_host :: "nat \<Rightarrow> error_code \<Rightarrow> bool \<Rightarrow> client \<Rightarrow> client" where
  "on_do_resolve_host g ec results_empty c =
     (if g \<noteq> c_generation c \<or> c_state c \<noteq> St_connecting then c
      else
        let cause = (if \<not> ec_failed ec \<and> results_empty then rstrm_ec No_valid_endpoint else ec)
        in if ec_failed cause then on_error cause c else do_connect c)"

definition effective_client_details :: "client_params \<Rightarrow> client \<Rightarrow> error_code + client_details" where
  "effective_client_details p c =
     (if has_client_certificate_config (c_server_address c) then
        (if ec_failed (cp_mtls_token_error p) then Inl (cp_mtls_token_error p)
         else Inr (get_client_details_token (cp_build p) (cp_mtls_token p)))
      else if ec_failed (cp_token_error p) then Inl (cp_token_error p)
      else Inr (get_client_details_token (cp_build p) (cp_token p)))"

definition do_open :: "client_params \<Rightarrow> bool \<Rightarrow> client \<Rightarrow> client" where
  "do_open p is_secure c =
     (case effective_client_details p c of
        Inl e \<Rightarrow> on_error e c
      | Inr details \<Rightarrow>
          (let c1 = c\<lparr>c_client_details := Some details\<rparr>;
               d = convert_client_details_to empty_proto_client_details details
           in if pcd_token d \<noteq> None \<and> \<not> is_secure then on_error (rstrm_ec Protocol_error) c1
              else do_send_message p (Open_control_channel_req d None) False c1))"

definition do_read_incoming_message :: "client \<Rightarrow> client" where
  "do_read_incoming_message c = (if c_state c = St_null then c else start (P_recv (c_generation c)) c)"

definition do_read :: "client_params \<Rightarrow> client \<Rightarrow> client" where
  "do_read p c = do_read_incoming_message (c\<lparr>c_buffer := c_buffer c @ [cfg_max_buffer_size (cp_config p)]\<rparr>)"

definition on_connect :: "client_params \<Rightarrow> nat \<Rightarrow> error_code \<Rightarrow> bool \<Rightarrow> client \<Rightarrow> client" where
  "on_connect p g ec is_secure c =
     (if g \<noteq> c_generation c \<or> c_state c \<noteq> St_connecting then c
      else if ec_failed ec then on_error ec c
      else do_read p (do_open p is_secure c))"

definition on_open :: "client_params \<Rightarrow> client \<Rightarrow> client" where
  "on_open p c =
     (if c_state c \<noteq> St_connecting then c
      else
        let c1 = set_state St_connected c;
            c2 = complete_connect (c_connect_op c1) ec_ok c1;
            c3 = (case cb_on_status (c_control_callbacks c2) of None \<Rightarrow> c2 | Some k \<Rightarrow> act (On_status k (c_status c2)) c2)
        in if cfg_hearbeat (cp_config p) then send_heartbeat p c3 else c3)"

section \<open>Tunnels\<close>

definition do_create_tunnel :: "client_params \<Rightarrow> string \<Rightarrow> nat \<Rightarrow> client \<Rightarrow> client" where
  "do_create_tunnel p request_id i c =
     (if c_state c \<noteq> St_connected then c
      else do_send_message p
             (Open_tunnel_req request_id
               (convert_tunnel_properties_to empty_proto_tunnel_properties (cr_properties (c_creates c ! i)))) False c)"

text \<open>The loop over the attempts to draw an unused request identifier; \<open>n\<close> attempts are left.\<close>

fun emplace_request :: "client_params \<Rightarrow> (nat \<Rightarrow> string) \<Rightarrow> nat \<Rightarrow> nat \<Rightarrow> nat \<Rightarrow> client \<Rightarrow> client" where
  "emplace_request p ids attempt 0 i c = complete_create_tunnel i (rstrm_ec Internal) None c"
| "emplace_request p ids attempt (Suc n) i c =
     (if map_of (c_create_tunnel_ops c) (ids attempt) = None
      then do_create_tunnel p (ids attempt) i (c\<lparr>c_create_tunnel_ops := omap_put (ids attempt) i (c_create_tunnel_ops c)\<rparr>)
      else emplace_request p ids (Suc attempt) n i c)"

definition max_request_id_attempts :: nat where
  "max_request_id_attempts = 32"

definition async_create_tunnel_internal :: "client_params \<Rightarrow> (nat \<Rightarrow> string) \<Rightarrow> nat \<Rightarrow> client \<Rightarrow> client" where
  "async_create_tunnel_internal p ids i c =
     (let op = c_creates c ! i in
      if cr_completed op then c
      else if cr_cancelled op then complete_create_tunnel i asio_operation_aborted None c
      else if c_state c \<noteq> St_connected then complete_create_tunnel i (rstrm_ec Invalid_state) None c
      else if (m_type (cr_properties op) \<noteq> None \<and> m_type (cr_properties op) \<noteq> Some ''bytestream'')
              \<or> invalid_published_tcp_options (cr_properties op)
      then complete_create_tunnel i (rstrm_ec Invalid_configuration) None c
      else emplace_request p ids 0 max_request_id_attempts i c)"

definition cancel_create_tunnel :: "nat \<Rightarrow> client \<Rightarrow> client" where
  "cancel_create_tunnel i c =
     (if \<not> i < length (c_creates c) \<or> \<not> cr_cancelled (c_creates c ! i) \<or> cr_completed (c_creates c ! i) then c
      else complete_create_tunnel i asio_operation_aborted None c)"

definition do_close_tunnel :: "client_params \<Rightarrow> string \<Rightarrow> client \<Rightarrow> client" where
  "do_close_tunnel p t c = (if c_state c \<noteq> St_connected then c else do_send_message p (Close_tunnel_req t) False c)"

definition close_tunnel_internal :: "client_params \<Rightarrow> string \<Rightarrow> client \<Rightarrow> client" where
  "close_tunnel_internal p t c =
     (if c_state c \<noteq> St_connected then c
      else case map_of (c_tunnels c) t of
             None \<Rightarrow> c
           | Some tn \<Rightarrow>
               if tn_closing tn then c else do_close_tunnel p t (put_tunnel t (tn\<lparr>tn_closing := True\<rparr>) c))"

text \<open>
  \<open>on_tunnel_response\<close> reads \<open>m_id\<close> of the properties when there is no error; an absent identifier there
  is undefined behaviour.
\<close>

definition on_tunnel_response :: "client_params \<Rightarrow> string \<Rightarrow> tunnel_properties \<Rightarrow> error_code \<Rightarrow> client \<Rightarrow> client" where
  "on_tunnel_response p request_id q ec c =
     (case map_of (c_create_tunnel_ops c) request_id of
        None \<Rightarrow> c
      | Some i \<Rightarrow>
          if \<not> ec_failed ec \<and> m_id q = None then fault c
          else
            let tid = (case m_id q of None \<Rightarrow> [] | Some t \<Rightarrow> t);
                ep = \<lparr>ep_id_name = Some tid, ep_server_address = c_server_address c,
                      ep_server_address_from_uri_param = False, ep_secret = None, ep_source_ip = None\<rparr>;
                tun = (if ec_failed ec then None
                       else Some \<lparr>tu_tunnel_id = tid, tu_local_endpoint = ep, tu_properties = q\<rparr>);
                c1 = (if ec_failed ec \<or> map_of (c_tunnels c) tid \<noteq> None then c else put_tunnel tid new_tunnel c);
                c2 = (if cr_cancelled (c_creates c1 ! i) then
                        (let d = complete_create_tunnel i asio_operation_aborted None c1
                         in if ec_failed ec then d else close_tunnel_internal p tid d)
                      else complete_create_tunnel i ec tun c1)
            in c2\<lparr>c_create_tunnel_ops := omap_del request_id (c_create_tunnel_ops c2)\<rparr>)"

fun close_streams :: "string \<Rightarrow> (string, stream_container) omap \<Rightarrow> client \<Rightarrow> client" where
  "close_streams t [] c = c"
| "close_streams t ((s, sc) # ss) c = close_streams t ss (if sc_ptr sc \<noteq> None then act (Stream_close t s) c else c)"

definition on_tunnel_close :: "string \<Rightarrow> client \<Rightarrow> client" where
  "on_tunnel_close t c =
     (case map_of (c_tunnels c) t of
        None \<Rightarrow> c
      | Some tn \<Rightarrow>
          let c1 = close_streams t (tn_streams tn) c;
              c2 = (case tn_accept_tunnel_op tn of
                      None \<Rightarrow> c1
                    | Some i \<Rightarrow>
                        complete_accept_tunnel i (rstrm_ec Tunnel_not_found)
                          (if ao_busy (c_accepts c1 ! i) then act (Accept_peer_close i) c1 else c1))
          in c2\<lparr>c_tunnels := omap_del t (c_tunnels c2)\<rparr>)"

section \<open>Streams\<close>

definition stream_address :: "stream_context \<Rightarrow> client \<Rightarrow> address" where
  "stream_address x c = (case sx_proxy_endpoint x of Some a \<Rightarrow> a | None \<Rightarrow> c_server_address c)"

definition stream_endpoint :: "string \<Rightarrow> stream_context \<Rightarrow> string option \<Rightarrow> client \<Rightarrow> endpoint" where
  "stream_endpoint s x secret c =
     \<lparr>ep_id_name = Some s, ep_server_address = stream_address x c, ep_server_address_from_uri_param = False,
      ep_secret = secret, ep_source_ip = sx_source_ip x\<rparr>"

definition do_send_proxy_response :: "client_params \<Rightarrow> string \<Rightarrow> error_code \<Rightarrow> client \<Rightarrow> client" where
  "do_send_proxy_response p s ec c =
     (if c_state c \<noteq> St_connected then c
      else do_send_message p
             (Proxy_conn_rsp s
               (if ec_failed ec then Some \<lparr>pe_code = ec_value ec, pe_message = Some (cp_ec_message p ec)\<rparr> else None)) False c)"

definition accept_stream :: "string \<Rightarrow> tunnel_type \<Rightarrow> nat \<Rightarrow> string \<Rightarrow> stream_container \<Rightarrow> client \<Rightarrow> client" where
  "accept_stream t tn i s sc c =
     (let c1 = (if sc_ptr sc \<noteq> None then act (Accept_adopt i t s) c else c);
          c2 = act (Accept_endpoint i (stream_endpoint s (sc_context sc) None c1)) c1;
          c3 = complete_accept_tunnel i ec_ok c2
      in put_tunnel t (tn\<lparr>tn_streams := omap_del s (tn_streams tn), tn_accept_tunnel_op := None\<rparr>) c3)"

definition on_connect_stream :: "client_params \<Rightarrow> nat \<Rightarrow> string \<Rightarrow> string \<Rightarrow> error_code \<Rightarrow> client \<Rightarrow> client" where
  "on_connect_stream p g t s ec c =
     (if g \<noteq> c_generation c \<or> c_state c \<noteq> St_connected then c
      else case map_of (c_tunnels c) t of
             None \<Rightarrow> do_send_proxy_response p s (rstrm_ec Tunnel_not_found) c
           | Some tn \<Rightarrow>
               (case map_of (tn_streams tn) s of
                  None \<Rightarrow> do_send_proxy_response p s (rstrm_ec Invalid_stream) c
                | Some sc \<Rightarrow>
                    let c1 = (case tn_accept_tunnel_op tn of
                                None \<Rightarrow> c | Some i \<Rightarrow> upd_accept i (\<lambda>x. x\<lparr>ao_busy := False\<rparr>) c);
                        c2 = (if ec_failed ec then put_tunnel t (tn\<lparr>tn_streams := omap_del s (tn_streams tn)\<rparr>) c1
                              else case tn_accept_tunnel_op tn of
                                     Some i \<Rightarrow> accept_stream t tn i s sc c1
                                   | None \<Rightarrow>
                                       if sc_ptr sc \<noteq> None
                                       then put_tunnel t
                                              (tn\<lparr>tn_streams := omap_put s (sc\<lparr>sc_ptr := Some True\<rparr>) (tn_streams tn)\<rparr>) c1
                                       else c1)
                    in do_send_proxy_response p s ec c2))"

text \<open>The socket to connect: \<open>Some None\<close> is the stream's own, \<open>Some (Some i)\<close> that of an accept operation.\<close>

definition stream_peer :: "tunnel_type \<Rightarrow> stream_container \<Rightarrow> client \<Rightarrow> nat option option" where
  "stream_peer tn sc c =
     (if sc_ptr sc \<noteq> None then Some None
      else case tn_accept_tunnel_op tn of
             Some i \<Rightarrow> if \<not> ao_busy (c_accepts c ! i) then Some (Some i) else None
           | None \<Rightarrow> None)"

definition do_connect_stream :: "client_params \<Rightarrow> error_code \<Rightarrow> string \<Rightarrow> string \<Rightarrow> client \<Rightarrow> client" where
  "do_connect_stream p settings t s c =
     (case map_of (c_tunnels c) t of
        None \<Rightarrow> c
      | Some tn \<Rightarrow>
          (case map_of (tn_streams tn) s of
             None \<Rightarrow> c
           | Some sc \<Rightarrow>
               (case stream_peer tn sc c of
                  None \<Rightarrow> c
                | Some peer \<Rightarrow>
                    let c1 = (case peer of None \<Rightarrow> c | Some i \<Rightarrow> upd_accept i (\<lambda>x. x\<lparr>ao_busy := True\<rparr>) c) in
                    if ec_failed settings then on_connect_stream p (c_generation c1) t s settings c1
                    else start (P_stream (c_generation c1) t s)
                           (act (Stream_connect (c_generation c1) t s
                             (stream_endpoint s (sc_context sc) (sx_secret (sc_context sc)) c1) peer) c1))))"

definition on_proxy_request :: "client_params \<Rightarrow> error_code \<Rightarrow> string \<Rightarrow> string \<Rightarrow> stream_context \<Rightarrow> client \<Rightarrow> client" where
  "on_proxy_request p settings t s x c =
     (if c_state c \<noteq> St_connected then c
      else case map_of (c_tunnels c) t of
             None \<Rightarrow> c
           | Some tn \<Rightarrow>
               let limit = cfg_max_ongoing_streams (cp_config p) in
               if limit > 0 \<and> length (tn_streams tn) \<ge> limit
               then do_send_proxy_response p s (rstrm_ec Operation_aborted) c
               else if map_of (tn_streams tn) s \<noteq> None
               then do_send_proxy_response p s (rstrm_ec Operation_in_progress) c
               else
                 let sc = \<lparr>sc_ptr = (if cfg_async_stream_operation (cp_config p) then Some False else None), sc_context = x\<rparr>
                 in do_connect_stream p settings t s (put_tunnel t (tn\<lparr>tn_streams := omap_put s sc (tn_streams tn)\<rparr>) c))"

definition cancel_accept_tunnel :: "string \<Rightarrow> nat \<Rightarrow> client \<Rightarrow> client" where
  "cancel_accept_tunnel t i c =
     (if \<not> i < length (c_accepts c) \<or> \<not> ao_cancelled (c_accepts c ! i) \<or> ao_completed (c_accepts c ! i) then c
      else case map_of (c_tunnels c) t of
             None \<Rightarrow> c
           | Some tn \<Rightarrow>
               if tn_accept_tunnel_op tn \<noteq> Some i then c
               else
                 let c1 = (if ao_busy (c_accepts c ! i) then act (Accept_peer_close i) c else c)
                 in complete_accept_tunnel i asio_operation_aborted (put_tunnel t (tn\<lparr>tn_accept_tunnel_op := None\<rparr>) c1))"

definition async_accept_tunnel_internal :: "client_params \<Rightarrow> bool \<Rightarrow> error_code \<Rightarrow> string \<Rightarrow> nat \<Rightarrow> client \<Rightarrow> client" where
  "async_accept_tunnel_internal p peer_impl settings t i c =
     (if ao_completed (c_accepts c ! i) then c
      else if ao_cancelled (c_accepts c ! i) then complete_accept_tunnel i asio_operation_aborted c
      else if c_state c \<noteq> St_connected then complete_accept_tunnel i (rstrm_ec Invalid_state) c
      else case map_of (c_tunnels c) t of
             None \<Rightarrow> complete_accept_tunnel i (rstrm_ec Tunnel_not_found) c
           | Some tn \<Rightarrow>
               if tn_accept_tunnel_op tn \<noteq> None then complete_accept_tunnel i (rstrm_ec Operation_in_progress) c
               else
                 let is_async = cfg_async_stream_operation (cp_config p);
                     c1 = (if peer_impl then act (Accept_peer_close i) c else c)
                 in case (if is_async then find (\<lambda>(s, sc). sc_ptr sc = Some True) (tn_streams tn) else None) of
                      Some (s, sc) \<Rightarrow> accept_stream t tn i s sc c1
                    | None \<Rightarrow>
                        let c2 = put_tunnel t (tn\<lparr>tn_accept_tunnel_op := Some i\<rparr>) c1 in
                        if is_async then c2
                        else case find (\<lambda>(s, sc). sc_ptr sc = None) (tn_streams tn) of
                               Some (s, sc) \<Rightarrow> do_connect_stream p settings t s c2
                             | None \<Rightarrow> c2)"

section \<open>Messages from the server\<close>

text \<open>The compatibility matrix; it has no row for the null state, where the lookup is undefined.\<close>

fun is_message_expected :: "cstate \<Rightarrow> message \<Rightarrow> bool option" where
  "is_message_expected St_null msg = None"
| "is_message_expected St_connecting msg =
     Some (case msg of Open_control_channel_rsp _ \<Rightarrow> True | _ \<Rightarrow> False)"
| "is_message_expected _ msg =
     Some (case msg of
             Open_tunnel_rsp _ _ \<Rightarrow> True | Close_tunnel_rsp _ \<Rightarrow> True | Proxy_conn_req _ \<Rightarrow> True
           | Close_control_channel_rsp \<Rightarrow> True | Heartbeat _ _ \<Rightarrow> True | Server_message _ \<Rightarrow> True | _ \<Rightarrow> False)"

definition merge_status :: "server_details \<Rightarrow> status \<Rightarrow> status" where
  "merge_status d st =
     \<lparr>ss_update = opt_set (sd_update d) (ss_update st), ss_plan = opt_set (sd_plan d) (ss_plan st),
      ss_provider = opt_set (sd_provider d) (ss_provider st), ss_region = opt_set (sd_region d) (ss_region st)\<rparr>"

text \<open>Each branch gives the code in \<open>error_code\<close> at the end of the branch and the new state.\<close>

definition open_control_channel_rsp :: "client_params \<Rightarrow> open_rsp \<Rightarrow> client \<Rightarrow> error_code \<times> client" where
  "open_control_channel_rsp p rsp c =
     (case rsp of
        Open_ok ok \<Rightarrow>
          if ok_client_id ok \<noteq> [] then
            (ec_ok, on_open p
              (case ok_server_details ok of None \<Rightarrow> c | Some d \<Rightarrow> c\<lparr>c_status := merge_status d (c_status c)\<rparr>))
          else (rstrm_ec Protocol_error, c)
      | Open_error e \<Rightarrow> (make_error_code (pe_code e), c)
      | Open_not_set \<Rightarrow> (rstrm_ec Protocol_error, c))"

definition open_tunnel_rsp :: "client_params \<Rightarrow> string \<Rightarrow> tunnel_rsp \<Rightarrow> client \<Rightarrow> error_code \<times> client" where
  "open_tunnel_rsp p request_id rsp c =
     (if map_of (c_create_tunnel_ops c) request_id = None then (rstrm_ec Protocol_error, c)
      else case rsp of
             Tunnel_ok pq \<Rightarrow>
               (case convert_tunnel_properties_from empty_tunnel_properties pq of
                  None \<Rightarrow> (ec_ok, fault c)
                | Some q \<Rightarrow>
                    (case m_id q of
                       None \<Rightarrow> (rstrm_ec Protocol_error, c)
                     | Some t \<Rightarrow>
                         if m_type q \<noteq> None \<and> m_type q \<noteq> Some ''bytestream''
                         then (ec_ok, on_tunnel_response p request_id q (rstrm_ec Invalid_configuration) c)
                         else if map_of (c_tunnels c) t \<noteq> None then (rstrm_ec Protocol_error, c)
                         else (ec_ok, on_tunnel_response p request_id q ec_ok c)))
           | Tunnel_error e \<Rightarrow>
               (ec_ok, on_tunnel_response p request_id empty_tunnel_properties (make_error_code (pe_code e)) c)
           | Tunnel_not_set \<Rightarrow> (rstrm_ec Protocol_error, c))"

definition close_tunnel_rsp :: "string \<Rightarrow> client \<Rightarrow> error_code \<times> client" where
  "close_tunnel_rsp t c =
     (if map_of (c_tunnels c) t = None then (rstrm_ec Protocol_error, c) else (ec_ok, on_tunnel_close t c))"

definition proxy_endpoint_of :: "client_params \<Rightarrow> address \<Rightarrow> proxy_conn_req \<Rightarrow> error_code + address option" where
  "proxy_endpoint_of p server_address r =
     (case pr_proxy_endpoint r of
        None \<Rightarrow> Inr None
      | Some e \<Rightarrow>
          if (case pr_secret r of None \<Rightarrow> True | Some v \<Rightarrow> trim v = []) \<or> trim e = []
          then Inl (rstrm_ec Protocol_error)
          else (case make_redirected_server_address (cp_parse p) server_address e of
                  Inl ec \<Rightarrow> Inl ec
                | Inr a \<Rightarrow> Inr (Some a)))"

definition proxy_conn_request :: "client_params \<Rightarrow> error_code \<Rightarrow> proxy_conn_req \<Rightarrow> client \<Rightarrow> error_code \<times> client" where
  "proxy_conn_request p settings r c =
     (if map_of (c_tunnels c) (pr_tunnel_id r) = None then (rstrm_ec Protocol_error, c)
      else case proxy_endpoint_of p (c_server_address c) r of
             Inl ec \<Rightarrow> (ec_ok, do_send_proxy_response p (pr_stream_id r) ec c)
           | Inr a \<Rightarrow>
               (ec_ok, on_proxy_request p settings (pr_tunnel_id r) (pr_stream_id r)
                 \<lparr>sx_secret = pr_secret r,
                  sx_source_ip = (case pr_source_ip r of None \<Rightarrow> None | Some ip \<Rightarrow> convert_ip_from ip),
                  sx_proxy_endpoint = a\<rparr> c))"

definition handle_message :: "client_params \<Rightarrow> error_code \<Rightarrow> message \<Rightarrow> client \<Rightarrow> error_code \<times> client" where
  "handle_message p settings msg c =
     (case msg of
        Open_control_channel_rsp rsp \<Rightarrow> open_control_channel_rsp p rsp c
      | Open_tunnel_rsp request_id rsp \<Rightarrow> open_tunnel_rsp p request_id rsp c
      | Close_tunnel_rsp t \<Rightarrow> close_tunnel_rsp t c
      | Proxy_conn_req r \<Rightarrow> proxy_conn_request p settings r c
      | Close_control_channel_rsp \<Rightarrow>
          (ec_ok, on_close (if c_state c \<noteq> St_closing then rstrm_ec Server_error else ec_ok) c)
      | _ \<Rightarrow> (ec_ok, c))"

definition on_read_incoming_message :: "client_params \<Rightarrow> error_code \<Rightarrow> nat \<Rightarrow> message \<Rightarrow> client \<Rightarrow> client" where
  "on_read_incoming_message p settings g msg c =
     (if g \<noteq> c_generation c \<or> c_state c = St_null then c
      else case is_message_expected (c_state c) msg of
             None \<Rightarrow> fault c
           | Some expected \<Rightarrow>
               (case (if expected then handle_message p settings msg c else (rstrm_ec Protocol_error, c)) of
                  (ec, c1) \<Rightarrow>
                    if g \<noteq> c_generation c1 then c1
                    else if ec_failed ec then on_error ec c1
                    else do_read_incoming_message c1))"

definition on_read_incoming_data :: "client_params \<Rightarrow> error_code \<Rightarrow> nat \<Rightarrow> error_code \<Rightarrow> byte list \<Rightarrow> client \<Rightarrow> client" where
  "on_read_incoming_data p settings g ec bs c =
     (if g \<noteq> c_generation c \<or> c_state c = St_null then c
      else if ec_failed ec then on_error ec c
      else case parse_protobuf_message (cp_dec p) bs of
             Some msg \<Rightarrow> on_read_incoming_message p settings g msg c
           | None \<Rightarrow> on_error (rstrm_ec Protocol_error) c)"

section \<open>The queue has been cancelled\<close>

fun fail_creates :: "client_params \<Rightarrow> error_code \<Rightarrow> string list \<Rightarrow> client \<Rightarrow> client" where
  "fail_creates p ec [] c = c"
| "fail_creates p ec (r # rs) c = fail_creates p ec rs (on_tunnel_response p r empty_tunnel_properties ec c)"

fun close_tunnels :: "string list \<Rightarrow> client \<Rightarrow> client" where
  "close_tunnels [] c = c"
| "close_tunnels (t # ts) c = close_tunnels ts (on_tunnel_close t c)"

definition on_queue_cancelled :: "client_params \<Rightarrow> error_code \<Rightarrow> error_code \<Rightarrow> cstate \<Rightarrow> nat option \<Rightarrow> client \<Rightarrow> client" where
  "on_queue_cancelled p ec cause previous_state disconnection_callback c =
     (if \<not> c_close_pending c then c
      else
        let close_cause = (if \<not> ec_failed cause \<and> ec_failed ec then ec else cause);
            final = (if ec_failed close_cause then close_cause else rstrm_ec Operation_aborted);
            c1 = act Socket_close c;
            c2 = set_state St_null (c1\<lparr>c_buffer := [], c_error_code := ec_ok, c_client_details := None, c_status := empty_status\<rparr>);
            c3 = c2\<lparr>c_close_pending := False, c_is_state_non_null := False, c_server_address := empty_address,
                    c_control_callbacks := \<lparr>cb_on_disconnection = None, cb_on_status = None\<rparr>\<rparr>;
            c4 = fail_creates p final (map fst (c_create_tunnel_ops c3)) c3;
            c5 = close_tunnels (map fst (c_tunnels c4)) c4;
            c6 = (if previous_state = St_connecting then complete_connect (c_connect_op c5) final c5 else c5);
            c7 = c6\<lparr>c_connect_op := None\<rparr>
        in case disconnection_callback of
             Some k \<Rightarrow> if previous_state = St_connected \<or> previous_state = St_closing
                       then act (On_disconnection k close_cause) c7 else c7
           | None \<Rightarrow> c7)"

section \<open>Calls from outside\<close>

definition client_address :: "client \<Rightarrow> error_code \<times> address" where
  "client_address c = (if \<not> c_is_state_non_null c then rstrm_ec Invalid_state else ec_ok, c_server_address c)"

definition set_control_callbacks :: "control_callbacks \<Rightarrow> client \<Rightarrow> error_code \<times> client" where
  "set_control_callbacks cbs c =
     (if c_is_state_non_null c then (rstrm_ec Invalid_state, c) else (ec_ok, c\<lparr>c_control_callbacks := cbs\<rparr>))"

definition async_connect :: "address \<Rightarrow> client \<Rightarrow> client" where
  "async_connect a c =
     (let reserved = (\<not> c_is_state_non_null c);
          op = \<lparr>co_cancelled = False, co_completed = False, co_reserved = reserved\<rparr>;
          c1 = c\<lparr>c_connects := c_connects c @ [op]\<rparr>;
          c2 = (if reserved then c1\<lparr>c_is_state_non_null := True, c_server_address := a\<rparr> else c1)
      in start (P_job (J_connect (length (c_connects c)))) c2)"

text \<open>An exception of the URL parser leaves the call before anything has changed.\<close>

definition async_connect_default :: "client_params \<Rightarrow> client \<Rightarrow> client" where
  "async_connect_default p c =
     (case cp_default_server_address p of
        Some s \<Rightarrow> (case make_address (cp_parse p) s of Some a \<Rightarrow> async_connect a c | None \<Rightarrow> c)
      | None \<Rightarrow>
          act (Connect_rejected
            (if ec_failed (cp_default_server_error p) then cp_default_server_error p else rstrm_ec Invalid_configuration)) c)"

definition async_create_tunnel :: "tunnel_properties \<Rightarrow> client \<Rightarrow> client" where
  "async_create_tunnel q c =
     start (P_job (J_create (length (c_creates c))))
       (c\<lparr>c_creates := c_creates c
            @ [\<lparr>cr_properties = normalize_tunnel_properties q, cr_cancelled = False, cr_completed = False\<rparr>]\<rparr>)"

definition async_accept_tunnel :: "string \<Rightarrow> client \<Rightarrow> client" where
  "async_accept_tunnel t c =
     start (P_job (J_accept t (length (c_accepts c))))
       (c\<lparr>c_accepts := c_accepts c
            @ [\<lparr>ao_tunnel = t, ao_cancelled = False, ao_completed = False, ao_busy = False\<rparr>]\<rparr>)"

definition close_tunnel :: "string \<Rightarrow> client \<Rightarrow> client" where
  "close_tunnel t c = start (P_job (J_close_tunnel t)) c"

definition client_close :: "client \<Rightarrow> client" where
  "client_close c = start (P_job J_close) c"

text \<open>The functions assigned to the cancellation slots, called with a type other than \<open>none\<close>.\<close>

definition slot_connect :: "nat \<Rightarrow> client \<Rightarrow> client" where
  "slot_connect i c =
     (if i < length (c_connects c)
      then start (P_job (J_cancel_connect i)) (upd_connect i (\<lambda>x. x\<lparr>co_cancelled := True\<rparr>) c) else c)"

definition slot_create :: "nat \<Rightarrow> client \<Rightarrow> client" where
  "slot_create i c =
     (if i < length (c_creates c)
      then start (P_job (J_cancel_create i)) (upd_create i (\<lambda>x. x\<lparr>cr_cancelled := True\<rparr>) c) else c)"

definition slot_accept :: "nat \<Rightarrow> client \<Rightarrow> client" where
  "slot_accept i c =
     (if i < length (c_accepts c)
      then start (P_job (J_cancel_accept (ao_tunnel (c_accepts c ! i)) i)) (upd_accept i (\<lambda>x. x\<lparr>ao_cancelled := True\<rparr>) c) else c)"

section \<open>Events\<close>

fun client_job :: "client_params \<Rightarrow> reply \<Rightarrow> job \<Rightarrow> client \<Rightarrow> client" where
  "client_job p r (J_connect i) c = async_connect_internal p i c"
| "client_job p r (J_cancel_connect i) c = cancel_connect i c"
| "client_job p r (J_create i) c = async_create_tunnel_internal p (re_request_id r) i c"
| "client_job p r (J_cancel_create i) c = cancel_create_tunnel i c"
| "client_job p r (J_accept t i) c = async_accept_tunnel_internal p (re_peer_impl r) (re_settings r) t i c"
| "client_job p r (J_cancel_accept t i) c = cancel_accept_tunnel t i c"
| "client_job p r (J_close_tunnel t) c = close_tunnel_internal p t c"
| "client_job p r J_close c = close_internal p ec_ok c"

fun answer :: "client_params \<Rightarrow> reply \<Rightarrow> pending \<Rightarrow> client \<Rightarrow> client" where
  "answer p r (P_job j) c = client_job p r j c"
| "answer p r (P_resolve g) c = on_do_resolve_host g (re_error_code r) (re_results_empty r) c"
| "answer p r (P_connect g) c = on_connect p g (re_error_code r) (re_is_secure r) c"
| "answer p r (P_recv g) c = on_read_incoming_data p (re_settings r) g (re_error_code r) (re_bytes r) c"
| "answer p r (P_send g hb) c = on_send_message p g (re_error_code r) hb c"
| "answer p r (P_stream g t s) c = on_connect_stream p g t s (re_error_code r) c"
| "answer p r (P_state_timer t g) c = on_state_timer t g (re_error_code r) c"
| "answer p r (P_heartbeat_timer t g) c = on_heartbeat_timer p t g (re_error_code r) c"
| "answer p r (P_queue_cancel cause prev cb) c = on_queue_cancelled p (re_error_code r) cause prev cb c"

datatype cevent =
    C_connect address
  | C_connect_default
  | C_create tunnel_properties
  | C_accept string
  | C_close_tunnel string
  | C_close
  | C_callbacks control_callbacks
  | C_slot_connect nat
  | C_slot_create nat
  | C_slot_accept nat
  | C_reply nat reply

definition take_out :: "nat \<Rightarrow> client \<Rightarrow> client" where
  "take_out k c = c\<lparr>c_out := take k (c_out c) @ drop (Suc k) (c_out c)\<rparr>"

fun client_event :: "client_params \<Rightarrow> cevent \<Rightarrow> client \<Rightarrow> client" where
  "client_event p (C_connect a) c = async_connect a c"
| "client_event p C_connect_default c = async_connect_default p c"
| "client_event p (C_create q) c = async_create_tunnel q c"
| "client_event p (C_accept t) c = async_accept_tunnel t c"
| "client_event p (C_close_tunnel t) c = close_tunnel t c"
| "client_event p C_close c = client_close c"
| "client_event p (C_callbacks cbs) c = snd (set_control_callbacks cbs c)"
| "client_event p (C_slot_connect i) c = slot_connect i c"
| "client_event p (C_slot_create i) c = slot_create i c"
| "client_event p (C_slot_accept i) c = slot_accept i c"
| "client_event p (C_reply k r) c = (if k < length (c_out c) then answer p r (c_out c ! k) (take_out k c) else c)"

text \<open>After undefined behaviour nothing more is said about the run.\<close>

definition client_step :: "client_params \<Rightarrow> cevent \<Rightarrow> client \<Rightarrow> client" where
  "client_step p e c = (if c_fault c then c else client_event p e c)"

definition client_run :: "client_params \<Rightarrow> cevent list \<Rightarrow> client" where
  "client_run p es = fold (client_step p) es client_init"

end
