(* ===== verification/ClientFrames.thy ===== *)
theory ClientFrames
  imports Client
begin

text \<open>
  What the handlers of the client leave alone. The state is observed through views: the caller's connect,
  create and accept operations each with the places where such an operation can wait and the log of its
  completions. A handler that does not concern a kind of operation keeps the view of that kind; these
  facts carry the invariant proofs.
\<close>

section \<open>Observations\<close>

fun connect_jobs :: "pending list \<Rightarrow> nat list" where
  "connect_jobs [] = []"
| "connect_jobs (P_job (J_connect i) # os) = i # connect_jobs os"
| "connect_jobs (x # os) = connect_jobs os"

fun create_jobs :: "pending list \<Rightarrow> nat list" where
  "create_jobs [] = []"
| "create_jobs (P_job (J_create i) # os) = i # create_jobs os"
| "create_jobs (x # os) = create_jobs os"

fun accept_jobs :: "pending list \<Rightarrow> (string \<times> nat) list" where
  "accept_jobs [] = []"
| "accept_jobs (P_job (J_accept t i) # os) = (t, i) # accept_jobs os"
| "accept_jobs (x # os) = accept_jobs os"

fun connect_ids :: "caction list \<Rightarrow> nat list" where
  "connect_ids [] = []"
| "connect_ids (Connect_done i ec # as) = i # connect_ids as"
| "connect_ids (a # as) = connect_ids as"

fun create_ids :: "caction list \<Rightarrow> nat list" where
  "create_ids [] = []"
| "create_ids (Create_done i ec t # as) = i # create_ids as"
| "create_ids (a # as) = create_ids as"

fun accept_ids :: "caction list \<Rightarrow> nat list" where
  "accept_ids [] = []"
| "accept_ids (Accept_done i ec # as) = i # accept_ids as"
| "accept_ids (a # as) = accept_ids as"

lemma connect_jobs_append [simp]: "connect_jobs (xs @ ys) = connect_jobs xs @ connect_jobs ys"
  by (induction xs rule: connect_jobs.induct) auto

lemma create_jobs_append [simp]: "create_jobs (xs @ ys) = create_jobs xs @ create_jobs ys"
  by (induction xs rule: create_jobs.induct) auto

lemma accept_jobs_append [simp]: "accept_jobs (xs @ ys) = accept_jobs xs @ accept_jobs ys"
  by (induction xs rule: accept_jobs.induct) auto

lemma connect_ids_append [simp]: "connect_ids (xs @ ys) = connect_ids xs @ connect_ids ys"
  by (induction xs rule: connect_ids.induct) auto

lemma create_ids_append [simp]: "create_ids (xs @ ys) = create_ids xs @ create_ids ys"
  by (induction xs rule: create_ids.induct) auto

lemma accept_ids_append [simp]: "accept_ids (xs @ ys) = accept_ids xs @ accept_ids ys"
  by (induction xs rule: accept_ids.induct) auto

definition connect_view :: "client \<Rightarrow> connect_op list \<times> nat list \<times> nat option \<times> bool \<times> bool \<times> nat list" where
  "connect_view c = (c_connects c, connect_jobs (c_out c), c_connect_op c, c_state c = St_null, c_is_state_non_null c,
     connect_ids (c_log c))"

definition create_view :: "client \<Rightarrow> create_tunnel_op list \<times> nat list \<times> (string, nat) omap \<times> nat list" where
  "create_view c = (c_creates c, create_jobs (c_out c), c_create_tunnel_ops c, create_ids (c_log c))"

definition accept_view :: "client \<Rightarrow> accept_tunnel_op list \<times> (string \<times> nat) list \<times> (string, tunnel_type) omap \<times> nat list" where
  "accept_view c = (c_accepts c, accept_jobs (c_out c), c_tunnels c, accept_ids (c_log c))"

section \<open>Updates of single fields\<close>

lemma view_updates [simp]:
  "connect_view (c\<lparr>c_client_details := cd\<rparr>) = connect_view c" "create_view (c\<lparr>c_client_details := cd\<rparr>) = create_view c"
  "accept_view (c\<lparr>c_client_details := cd\<rparr>) = accept_view c"
  "connect_view (c\<lparr>c_buffer := b\<rparr>) = connect_view c" "create_view (c\<lparr>c_buffer := b\<rparr>) = create_view c"
  "accept_view (c\<lparr>c_buffer := b\<rparr>) = accept_view c"
  "connect_view (c\<lparr>c_error_code := ec\<rparr>) = connect_view c" "create_view (c\<lparr>c_error_code := ec\<rparr>) = create_view c"
  "accept_view (c\<lparr>c_error_code := ec\<rparr>) = accept_view c"
  "connect_view (c\<lparr>c_timers := ts\<rparr>) = connect_view c" "create_view (c\<lparr>c_timers := ts\<rparr>) = create_view c"
  "accept_view (c\<lparr>c_timers := ts\<rparr>) = accept_view c"
  "connect_view (c\<lparr>c_status := st\<rparr>) = connect_view c" "create_view (c\<lparr>c_status := st\<rparr>) = create_view c"
  "accept_view (c\<lparr>c_status := st\<rparr>) = accept_view c"
  "connect_view (c\<lparr>c_control_callbacks := cb\<rparr>) = connect_view c" "create_view (c\<lparr>c_control_callbacks := cb\<rparr>) = create_view c"
  "accept_view (c\<lparr>c_control_callbacks := cb\<rparr>) = accept_view c"
  "connect_view (c\<lparr>c_close_pending := x\<rparr>) = connect_view c" "create_view (c\<lparr>c_close_pending := x\<rparr>) = create_view c"
  "accept_view (c\<lparr>c_close_pending := x\<rparr>) = accept_view c"
  "connect_view (c\<lparr>c_generation := g\<rparr>) = connect_view c" "create_view (c\<lparr>c_generation := g\<rparr>) = create_view c"
  "accept_view (c\<lparr>c_generation := g\<rparr>) = accept_view c"
  "create_view (c\<lparr>c_connect_op := i\<rparr>) = create_view c" "accept_view (c\<lparr>c_connect_op := i\<rparr>) = accept_view c"
  "create_view (c\<lparr>c_is_state_non_null := x\<rparr>) = create_view c" "accept_view (c\<lparr>c_is_state_non_null := x\<rparr>) = accept_view c"
  "connect_view (c\<lparr>c_server_address := a\<rparr>) = connect_view c" "create_view (c\<lparr>c_server_address := a\<rparr>) = create_view c"
  "accept_view (c\<lparr>c_server_address := a\<rparr>) = accept_view c"
  "connect_view (c\<lparr>c_create_tunnel_ops := ops\<rparr>) = connect_view c" "accept_view (c\<lparr>c_create_tunnel_ops := ops\<rparr>) = accept_view c"
  "connect_view (c\<lparr>c_tunnels := tns\<rparr>) = connect_view c" "create_view (c\<lparr>c_tunnels := tns\<rparr>) = create_view c"
  by (simp_all add: connect_view_def create_view_def accept_view_def)

section \<open>Primitives\<close>

lemma act_views [simp]:
  "connect_ids [a] = [] \<Longrightarrow> connect_view (act a c) = connect_view c"
  "create_ids [a] = [] \<Longrightarrow> create_view (act a c) = create_view c"
  "accept_ids [a] = [] \<Longrightarrow> accept_view (act a c) = accept_view c"
  by (simp_all add: act_def connect_view_def create_view_def accept_view_def)

lemma start_views [simp]:
  "connect_jobs [x] = [] \<Longrightarrow> connect_view (start x c) = connect_view c"
  "create_jobs [x] = [] \<Longrightarrow> create_view (start x c) = create_view c"
  "accept_jobs [x] = [] \<Longrightarrow> accept_view (start x c) = accept_view c"
  by (simp_all add: start_def connect_view_def create_view_def accept_view_def)

lemma fault_views [simp]:
  "connect_view (fault c) = connect_view c" "create_view (fault c) = create_view c" "accept_view (fault c) = accept_view c"
  by (simp_all add: fault_def connect_view_def create_view_def accept_view_def)

lemma set_state_views [simp]:
  "(s = St_null) = (c_state c = St_null) \<Longrightarrow> connect_view (set_state s c) = connect_view c"
  "create_view (set_state s c) = create_view c" "accept_view (set_state s c) = accept_view c"
  by (simp_all add: set_state_def connect_view_def create_view_def accept_view_def)

lemma upd_connect_views [simp]:
  "create_view (upd_connect i f c) = create_view c" "accept_view (upd_connect i f c) = accept_view c"
  by (simp_all add: upd_connect_def create_view_def accept_view_def)

lemma upd_create_views [simp]:
  "connect_view (upd_create i f c) = connect_view c" "accept_view (upd_create i f c) = accept_view c"
  by (simp_all add: upd_create_def connect_view_def accept_view_def)

lemma upd_accept_views [simp]:
  "connect_view (upd_accept i f c) = connect_view c" "create_view (upd_accept i f c) = create_view c"
  by (simp_all add: upd_accept_def connect_view_def create_view_def)

lemma put_tunnel_views [simp]:
  "connect_view (put_tunnel t tn c) = connect_view c" "create_view (put_tunnel t tn c) = create_view c"
  by (simp_all add: put_tunnel_def connect_view_def create_view_def)

lemma arm_state_timer_views [simp]:
  "connect_view (arm_state_timer n c) = connect_view c" "create_view (arm_state_timer n c) = create_view c"
  "accept_view (arm_state_timer n c) = accept_view c"
  by (simp_all add: arm_state_timer_def)

lemma timer_clean_views [simp]:
  "connect_view (timer_clean t c) = connect_view c" "create_view (timer_clean t c) = create_view c"
  "accept_view (timer_clean t c) = accept_view c"
  by (simp_all add: timer_clean_def)

lemma primitive_state [simp]:
  "c_state (act a c) = c_state c" "c_state (start x c) = c_state c" "c_state (fault c) = c_state c"
  "c_state (upd_connect i f c) = c_state c" "c_state (upd_create j fc c) = c_state c" "c_state (upd_accept k fa c) = c_state c"
  "c_state (put_tunnel t tn c) = c_state c" "c_state (arm_state_timer n c) = c_state c" "c_state (timer_clean tm c) = c_state c"
  "c_state (set_state s c) = s"
  by (simp_all add: act_def start_def fault_def upd_connect_def upd_create_def upd_accept_def put_tunnel_def
      arm_state_timer_def timer_clean_def set_state_def)

section \<open>Completion\<close>

lemma complete_connect_views [simp]:
  "create_view (complete_connect op ec c) = create_view c" "accept_view (complete_connect op ec c) = accept_view c"
  by (simp_all add: complete_connect_def Let_def split: option.splits)

lemma complete_create_views [simp]:
  "connect_view (complete_create_tunnel i ec t c) = connect_view c" "accept_view (complete_create_tunnel i ec t c) = accept_view c"
  by (simp_all add: complete_create_tunnel_def)

lemma complete_accept_views [simp]:
  "connect_view (complete_accept_tunnel i ec c) = connect_view c" "create_view (complete_accept_tunnel i ec c) = create_view c"
  by (simp_all add: complete_accept_tunnel_def)

section \<open>Handlers\<close>

lemma on_close_views [simp]:
  "connect_view (on_close ec c) = connect_view c" "create_view (on_close ec c) = create_view c"
  "accept_view (on_close ec c) = accept_view c"
  by (simp_all add: on_close_def Let_def)

lemma on_error_views [simp]:
  "connect_view (on_error ec c) = connect_view c" "create_view (on_error ec c) = create_view c"
  "accept_view (on_error ec c) = accept_view c"
  by (simp_all add: on_error_def)

lemma do_send_message_views [simp]:
  "connect_view (do_send_message p m hb c) = connect_view c" "create_view (do_send_message p m hb c) = create_view c"
  "accept_view (do_send_message p m hb c) = accept_view c"
  by (simp_all add: do_send_message_def)

lemma close_internal_views [simp]:
  "connect_view (close_internal p ec c) = connect_view c" "create_view (close_internal p ec c) = create_view c"
  "accept_view (close_internal p ec c) = accept_view c"
  by (simp_all add: close_internal_def Let_def)

lemma heartbeat_views [simp]:
  "connect_view (do_send_heartbeat p c) = connect_view c" "create_view (do_send_heartbeat p c) = create_view c"
  "accept_view (do_send_heartbeat p c) = accept_view c"
  "connect_view (on_heartbeat_timer p t g ec c) = connect_view c" "create_view (on_heartbeat_timer p t g ec c) = create_view c"
  "accept_view (on_heartbeat_timer p t g ec c) = accept_view c"
  "connect_view (on_state_timer t g ec c) = connect_view c" "create_view (on_state_timer t g ec c) = create_view c"
  "accept_view (on_state_timer t g ec c) = accept_view c"
  "connect_view (on_send_message p g ec hb c) = connect_view c" "create_view (on_send_message p g ec hb c) = create_view c"
  "accept_view (on_send_message p g ec hb c) = accept_view c"
  by (simp_all add: do_send_heartbeat_def on_heartbeat_timer_def on_state_timer_def on_send_message_def)

lemma connecting_views [simp]:
  "connect_view (do_resolve_host c) = connect_view c" "create_view (do_resolve_host c) = create_view c"
  "accept_view (do_resolve_host c) = accept_view c"
  "connect_view (on_do_resolve_host g ec em c) = connect_view c" "create_view (on_do_resolve_host g ec em c) = create_view c"
  "accept_view (on_do_resolve_host g ec em c) = accept_view c"
  "connect_view (do_open p sec c) = connect_view c" "create_view (do_open p sec c) = create_view c"
  "accept_view (do_open p sec c) = accept_view c"
  "connect_view (do_read_incoming_message c) = connect_view c" "create_view (do_read_incoming_message c) = create_view c"
  "accept_view (do_read_incoming_message c) = accept_view c"
  "connect_view (do_read p c) = connect_view c" "create_view (do_read p c) = create_view c" "accept_view (do_read p c) = accept_view c"
  "connect_view (on_connect p g ec sec c) = connect_view c" "create_view (on_connect p g ec sec c) = create_view c"
  "accept_view (on_connect p g ec sec c) = accept_view c"
  by (simp_all add: do_resolve_host_def on_do_resolve_host_def do_connect_def do_open_def do_read_incoming_message_def
      do_read_def on_connect_def Let_def split: sum.splits)

lemma connect_ops_views [simp]:
  "create_view (release_connect_reservation i c) = create_view c" "accept_view (release_connect_reservation i c) = accept_view c"
  "create_view (cancel_connect i c) = create_view c" "accept_view (cancel_connect i c) = accept_view c"
  "create_view (async_connect_internal p i c) = create_view c" "accept_view (async_connect_internal p i c) = accept_view c"
  "create_view (on_open p c) = create_view c" "accept_view (on_open p c) = accept_view c"
  by (simp_all add: release_connect_reservation_def cancel_connect_def async_connect_internal_def on_open_def
      send_heartbeat_def Let_def split: option.splits)

lemma do_create_tunnel_views [simp]:
  "connect_view (do_create_tunnel p r i c) = connect_view c" "create_view (do_create_tunnel p r i c) = create_view c"
  "accept_view (do_create_tunnel p r i c) = accept_view c"
  by (simp_all add: do_create_tunnel_def)

lemma emplace_request_views [simp]:
  "connect_view (emplace_request p ids a n i c) = connect_view c" "accept_view (emplace_request p ids a n i c) = accept_view c"
  by (induction p ids a n i c rule: emplace_request.induct) simp_all

lemma create_ops_views [simp]:
  "connect_view (async_create_tunnel_internal p ids i c) = connect_view c"
  "accept_view (async_create_tunnel_internal p ids i c) = accept_view c"
  "connect_view (cancel_create_tunnel i c) = connect_view c" "accept_view (cancel_create_tunnel i c) = accept_view c"
  by (simp_all add: async_create_tunnel_internal_def cancel_create_tunnel_def Let_def)

lemma close_tunnel_views [simp]:
  "connect_view (close_tunnel_internal p t c) = connect_view c" "create_view (close_tunnel_internal p t c) = create_view c"
  by (simp_all add: close_tunnel_internal_def do_close_tunnel_def split: option.splits)

lemma on_tunnel_response_views [simp]:
  "connect_view (on_tunnel_response p r q ec c) = connect_view c"
  by (simp add: on_tunnel_response_def Let_def split: option.splits)

lemma close_streams_views [simp]:
  "connect_view (close_streams t ss c) = connect_view c" "create_view (close_streams t ss c) = create_view c"
  "accept_view (close_streams t ss c) = accept_view c"
  by (induction t ss c rule: close_streams.induct) simp_all

lemma on_tunnel_close_views [simp]:
  "connect_view (on_tunnel_close t c) = connect_view c" "create_view (on_tunnel_close t c) = create_view c"
  by (simp_all add: on_tunnel_close_def Let_def split: option.splits)

lemma stream_views [simp]:
  "connect_view (do_send_proxy_response p s ec c) = connect_view c" "create_view (do_send_proxy_response p s ec c) = create_view c"
  "accept_view (do_send_proxy_response p s ec c) = accept_view c"
  "connect_view (accept_stream t tn i s sc c) = connect_view c" "create_view (accept_stream t tn i s sc c) = create_view c"
  by (simp_all add: do_send_proxy_response_def accept_stream_def Let_def)

lemma on_connect_stream_views [simp]:
  "connect_view (on_connect_stream p g t s ec c) = connect_view c" "create_view (on_connect_stream p g t s ec c) = create_view c"
  by (simp_all add: on_connect_stream_def Let_def split: option.splits)

lemma do_connect_stream_views [simp]:
  "connect_view (do_connect_stream p se t s c) = connect_view c" "create_view (do_connect_stream p se t s c) = create_view c"
  by (simp_all add: do_connect_stream_def Let_def split: option.splits)

lemma accepting_views [simp]:
  "connect_view (on_proxy_request p se t s x c) = connect_view c" "create_view (on_proxy_request p se t s x c) = create_view c"
  "connect_view (cancel_accept_tunnel t i c) = connect_view c" "create_view (cancel_accept_tunnel t i c) = create_view c"
  "connect_view (async_accept_tunnel_internal p im se t i c) = connect_view c"
  "create_view (async_accept_tunnel_internal p im se t i c) = create_view c"
  by (simp_all add: on_proxy_request_def cancel_accept_tunnel_def async_accept_tunnel_internal_def Let_def
      split: option.splits prod.splits)

lemma fail_creates_views [simp]: "connect_view (fail_creates p ec rs c) = connect_view c"
  by (induction p ec rs c rule: fail_creates.induct) simp_all

lemma close_tunnels_views [simp]:
  "connect_view (close_tunnels ts c) = connect_view c" "create_view (close_tunnels ts c) = create_view c"
  by (induction ts c rule: close_tunnels.induct) simp_all

end
