(* ===== verification/ClientOps.thy ===== *)
theory ClientOps
  imports ClientFrames
begin

text \<open>
  The caller's operations. For each kind of operation (connect, create a tunnel, accept a stream) an
  invariant says where an operation that is not completed waits, that it is completed exactly when its
  handler has been invoked, and that this happens once; for connects it also says who holds the
  reservation \<open>m_is_state_non_null\<close>. Every handler of the client keeps the three invariants.
\<close>

section \<open>Answering an entry\<close>

lemma take_out_jobs:
  assumes "k < length (c_out c)"
  shows "\<exists>as bs. connect_jobs (c_out c) = as @ connect_jobs [c_out c ! k] @ bs \<and> connect_jobs (c_out (take_out k c)) = as @ bs"
    and "\<exists>as bs. create_jobs (c_out c) = as @ create_jobs [c_out c ! k] @ bs \<and> create_jobs (c_out (take_out k c)) = as @ bs"
    and "\<exists>as bs. accept_jobs (c_out c) = as @ accept_jobs [c_out c ! k] @ bs \<and> accept_jobs (c_out (take_out k c)) = as @ bs"
proof -
  define u v x where "u = take k (c_out c)" and "v = drop (Suc k) (c_out c)" and "x = c_out c ! k"
  have eq: "c_out c = u @ [x] @ v" using out_split [OF assms] by (simp add: u_def v_def x_def)
  have take: "c_out (take_out k c) = u @ v" by (simp add: take_out_def u_def v_def)
  show "\<exists>as bs. connect_jobs (c_out c) = as @ connect_jobs [c_out c ! k] @ bs \<and> connect_jobs (c_out (take_out k c)) = as @ bs"
    unfolding take x_def [symmetric] unfolding eq connect_jobs_append by blast
  show "\<exists>as bs. create_jobs (c_out c) = as @ create_jobs [c_out c ! k] @ bs \<and> create_jobs (c_out (take_out k c)) = as @ bs"
    unfolding take x_def [symmetric] unfolding eq create_jobs_append by blast
  show "\<exists>as bs. accept_jobs (c_out c) = as @ accept_jobs [c_out c ! k] @ bs \<and> accept_jobs (c_out (take_out k c)) = as @ bs"
    unfolding take x_def [symmetric] unfolding eq accept_jobs_append by blast
qed

lemma take_out_fields [simp]:
  "c_state (take_out k c) = c_state c" "c_connects (take_out k c) = c_connects c" "c_creates (take_out k c) = c_creates c"
  "c_accepts (take_out k c) = c_accepts c" "c_log (take_out k c) = c_log c" "c_connect_op (take_out k c) = c_connect_op c"
  "c_is_state_non_null (take_out k c) = c_is_state_non_null c" "c_create_tunnel_ops (take_out k c) = c_create_tunnel_ops c"
  "c_tunnels (take_out k c) = c_tunnels c" "c_generation (take_out k c) = c_generation c"
  "c_close_pending (take_out k c) = c_close_pending c" "c_timers (take_out k c) = c_timers c" "c_fault (take_out k c) = c_fault c"
  "c_buffer (take_out k c) = c_buffer c" "c_server_address (take_out k c) = c_server_address c"
  by (simp_all add: take_out_def)

section \<open>Connects\<close>

text \<open>An operation holds the reservation while it is reserved, not completed and its job waits.\<close>

definition holds :: "connect_op list \<Rightarrow> nat \<Rightarrow> bool" where
  "holds cs i \<longleftrightarrow> co_reserved (cs ! i) \<and> \<not> co_completed (cs ! i)"

definition reserve_ok :: "connect_op list \<Rightarrow> nat set \<Rightarrow> bool \<Rightarrow> bool \<Rightarrow> bool" where
  "reserve_ok cs J nul nn \<longleftrightarrow>
     (if nul then (if nn then \<exists>i \<in> J. holds cs i \<and> (\<forall>j \<in> J. holds cs j \<longrightarrow> j = i) else \<forall>i \<in> J. \<not> holds cs i)
      else nn \<and> (\<forall>i \<in> J. \<not> holds cs i))"

definition connect_ok :: "connect_op list \<times> nat list \<times> nat option \<times> bool \<times> bool \<times> nat list \<Rightarrow> bool" where
  "connect_ok = (\<lambda>(cs, js, cop, nul, nn, ids).
     ops_ok (map co_completed cs) js (set_option cop) ids \<and> reserve_ok cs (set js) nul nn
     \<and> (\<forall>i. cop = Some i \<longrightarrow> \<not> co_completed (cs ! i) \<and> \<not> nul))"

definition connect_inv :: "client \<Rightarrow> bool" where
  "connect_inv c = connect_ok (connect_view c)"

text \<open>The invariant while the job of operation \<open>i\<close> runs: as if it still waited.\<close>

definition connect_inv_job :: "nat \<Rightarrow> client \<Rightarrow> bool" where
  "connect_inv_job i c \<longleftrightarrow>
     connect_ok (c_connects c, i # connect_jobs (c_out c), c_connect_op c, c_state c = St_null, c_is_state_non_null c,
       connect_ids (c_log c))"

lemmas connect_ok_iff = connect_ok_def [THEN fun_cong, of "(cs, js, cop, nul, nn, ids)" for cs js cop nul nn ids, unfolded prod.case]

lemma connect_invD:
  assumes "connect_inv c"
  shows "ops_ok (map co_completed (c_connects c)) (connect_jobs (c_out c)) (set_option (c_connect_op c)) (connect_ids (c_log c))"
    and "reserve_ok (c_connects c) (set (connect_jobs (c_out c))) (c_state c = St_null) (c_is_state_non_null c)"
    and "c_connect_op c = Some i \<Longrightarrow> \<not> co_completed (c_connects c ! i) \<and> c_state c \<noteq> St_null"
  using assms by (simp_all add: connect_inv_def connect_view_def connect_ok_iff)

lemma connect_ok_mid: "connect_ok (cs, as @ i # bs, rest) \<longleftrightarrow> connect_ok (cs, i # as @ bs, rest)"
proof (cases rest)
  case (fields cop nul nn ids)
  have "insert i (set as \<union> set bs) = set as \<union> insert i (set bs)" by blast
  then show ?thesis by (simp add: fields connect_ok_iff ops_ok_mid)
qed

lemma connect_inv_init: "connect_inv client_init"
  by (simp add: connect_inv_def connect_view_def client_init_def connect_ok_iff ops_ok_init reserve_ok_def)

lemma connect_inv_take_out:
  assumes "connect_inv c" and "k < length (c_out c)"
  shows "connect_jobs [c_out c ! k] = [] \<Longrightarrow> connect_inv (take_out k c)"
    and "c_out c ! k = P_job (J_connect i) \<Longrightarrow> connect_inv_job i (take_out k c)"
  using take_out_jobs(1) [OF assms(2)] assms(1)
  by (auto simp: connect_inv_def connect_inv_job_def connect_view_def connect_ok_mid)

lemma complete_connect_fields [simp]:
  "c_state (complete_connect op ec c) = c_state c" "c_out (complete_connect op ec c) = c_out c"
  "c_is_state_non_null (complete_connect op ec c) = c_is_state_non_null c"
  by (simp_all add: complete_connect_def act_def upd_connect_def Let_def split: option.splits)

abbreviation set_completed :: "nat \<Rightarrow> connect_op list \<Rightarrow> connect_op list" where
  "set_completed i cs \<equiv> cs[i := (cs ! i)\<lparr>co_completed := True\<rparr>]"

lemma complete_connect_view:
  "\<not> co_completed (c_connects c ! i) \<Longrightarrow> connect_view (complete_connect (Some i) ec c) =
    (set_completed i (c_connects c), connect_jobs (c_out c),
     if c_connect_op c = Some i then None else c_connect_op c, c_state c = St_null, c_is_state_non_null c,
     connect_ids (c_log c) @ [i])"
  by (simp add: complete_connect_def connect_view_def act_def upd_connect_def Let_def)

lemma set_completed_simps:
  "map co_completed (set_completed i cs) = (map co_completed cs)[i := True]"
  "i < length cs \<Longrightarrow> co_completed (set_completed i cs ! j) \<longleftrightarrow> j = i \<or> co_completed (cs ! j)"
  "i < length cs \<Longrightarrow> holds (set_completed i cs) j \<longleftrightarrow> j \<noteq> i \<and> holds cs j"
  by (auto simp: map_update holds_def nth_list_update)

lemma reserve_complete:
  "reserve_ok cs J nul nn \<Longrightarrow> i < length cs \<Longrightarrow> \<not> (i \<in> J \<and> holds cs i) \<Longrightarrow> reserve_ok (set_completed i cs) J nul nn"
  by (auto simp: reserve_ok_def set_completed_simps split: if_splits)

lemma reserve_drop: "reserve_ok cs (insert i J) nul nn \<Longrightarrow> \<not> holds cs i \<Longrightarrow> reserve_ok cs J nul nn"
  by (auto simp: reserve_ok_def split: if_splits)

text \<open>Completing an operation that does not hold the reservation.\<close>

lemma connect_ok_complete:
  assumes "connect_ok (cs, js, cop, nul, nn, ids)" and "i < length cs" and "\<not> co_completed (cs ! i)"
    and "\<not> (i \<in> set js \<and> holds cs i)"
  shows "connect_ok (set_completed i cs, js, if cop = Some i then None else cop, nul, nn, ids @ [i])"
proof -
  from assms(1) have a: "ops_ok (map co_completed cs) js (set_option cop) ids" "reserve_ok cs (set js) nul nn"
      "\<And>j. cop = Some j \<Longrightarrow> \<not> co_completed (cs ! j) \<and> \<not> nul" by (simp_all add: connect_ok_iff)
  have "ops_ok ((map co_completed cs)[i := True]) js (set_option (if cop = Some i then None else cop)) (ids @ [i])"
    by (rule ops_ok_complete [OF a(1)]) (use assms(2,3) in auto)
  with a reserve_complete [OF a(2) assms(2,4)] assms(2) show ?thesis by (auto simp: connect_ok_iff set_completed_simps)
qed

lemma connect_ok_drop_job:
  "connect_ok (cs, i # js, cop, nul, nn, ids) \<Longrightarrow> co_completed (cs ! i) \<Longrightarrow> connect_ok (cs, js, cop, nul, nn, ids)"
proof -
  assume a: "connect_ok (cs, i # js, cop, nul, nn, ids)" and c: "co_completed (cs ! i)"
  from a have "i < length cs" by (auto simp: connect_ok_iff dest: ops_ok_job)
  with a c show ?thesis
    by (auto simp: connect_ok_iff holds_def intro: ops_ok_done reserve_drop)
qed

lemma complete_connect_inv:
  assumes "connect_inv c" and "i < length (c_connects c)" and "\<not> (i \<in> set (connect_jobs (c_out c)) \<and> holds (c_connects c) i)"
  shows "connect_inv (complete_connect (Some i) ec c)"
proof (cases "co_completed (c_connects c ! i)")
  case True
  with assms(1) show ?thesis by (simp add: complete_connect_def)
next
  case False
  from connect_ok_complete [OF assms(1) [unfolded connect_inv_def connect_view_def] assms(2) False assms(3)] show ?thesis
    by (simp only: connect_inv_def complete_connect_view [OF False])
qed

lemma complete_connect_inv_job:
  assumes "connect_inv_job i c" and "\<not> holds (c_connects c) i"
  shows "connect_inv (complete_connect (Some i) ec c)"
proof (cases "co_completed (c_connects c ! i)")
  case True
  with connect_ok_drop_job [OF assms(1) [unfolded connect_inv_job_def]] show ?thesis
    by (simp add: complete_connect_def connect_inv_def connect_view_def)
next
  case False
  have i: "i < length (c_connects c)" using assms(1) by (auto simp: connect_inv_job_def connect_ok_iff dest: ops_ok_job)
  note ok = connect_ok_complete [OF assms(1) [unfolded connect_inv_job_def] i False]
  have "co_completed (set_completed i (c_connects c) ! i)" using i by simp
  from connect_ok_drop_job [OF ok this] assms(2) show ?thesis
    by (simp only: connect_inv_def complete_connect_view [OF False] simp_thms)
qed

subsection \<open>The reservation\<close>

lemma release_fields:
  "length (c_connects (release_connect_reservation i c)) = length (c_connects c)"
  "c_out (release_connect_reservation i c) = c_out c" "c_state (release_connect_reservation i c) = c_state c"
  "c_log (release_connect_reservation i c) = c_log c" "c_connect_op (release_connect_reservation i c) = c_connect_op c"
  by (simp_all add: release_connect_reservation_def upd_connect_def)

lemma release_completed:
  assumes "i < length (c_connects c)"
  shows "co_completed (c_connects (release_connect_reservation i c) ! j) = co_completed (c_connects c ! j)"
    and "map co_completed (c_connects (release_connect_reservation i c)) = map co_completed (c_connects c)"
proof -
  show "co_completed (c_connects (release_connect_reservation i c) ! j) = co_completed (c_connects c ! j)" for j
    using assms by (simp add: release_connect_reservation_def upd_connect_def nth_list_update)
  then show "map co_completed (c_connects (release_connect_reservation i c)) = map co_completed (c_connects c)"
    by (simp add: list_eq_iff_nth_eq release_fields)
qed

lemma release_reserve:
  assumes "reserve_ok (c_connects c) J (c_state c = St_null) (c_is_state_non_null c)" and "i \<in> J" and "i < length (c_connects c)"
    and "\<not> co_completed (c_connects c ! i)"
  shows "\<not> holds (c_connects (release_connect_reservation i c)) i"
    and "reserve_ok (c_connects (release_connect_reservation i c)) J (c_state c = St_null) (c_is_state_non_null (release_connect_reservation i c))"
proof -
  define cs where "cs = (c_connects c)[i := (c_connects c ! i)\<lparr>co_reserved := False\<rparr>]"
  have h: "holds cs j \<longleftrightarrow> j \<noteq> i \<and> holds (c_connects c) j" for j
    using assms(3) by (auto simp: cs_def holds_def nth_list_update)
  have e: "release_connect_reservation i c = (if holds (c_connects c) i \<and> c_state c = St_null \<and> c_is_state_non_null c
      then c\<lparr>c_is_state_non_null := False, c_server_address := empty_address, c_connects := cs\<rparr> else c)"
    using assms(4) by (auto simp: release_connect_reservation_def upd_connect_def cs_def holds_def)
  show "\<not> holds (c_connects (release_connect_reservation i c)) i"
    using assms(1,2) by (auto simp: e h reserve_ok_def split: if_splits)
  show "reserve_ok (c_connects (release_connect_reservation i c)) J (c_state c = St_null) (c_is_state_non_null (release_connect_reservation i c))"
    using assms(1,2) by (auto simp: e h reserve_ok_def split: if_splits)
qed

text \<open>Both places that give up a reservation: the cancellation and the job of a cancelled operation.\<close>

lemma release_ok:
  assumes "connect_ok (c_connects c, js, c_connect_op c, c_state c = St_null, c_is_state_non_null c, ids)" and "i \<in> set js"
    and "\<not> co_completed (c_connects c ! i)"
  shows "\<not> holds (c_connects (release_connect_reservation i c)) i"
    and "connect_ok (c_connects (release_connect_reservation i c), js, c_connect_op c, c_state c = St_null,
      c_is_state_non_null (release_connect_reservation i c), ids)"
proof -
  have i: "i < length (c_connects c)" using assms(1,2) by (auto simp: connect_ok_iff dest: ops_ok_job)
  have res: "reserve_ok (c_connects c) (set js) (c_state c = St_null) (c_is_state_non_null c)" using assms(1) by (simp add: connect_ok_iff)
  note r = release_reserve [OF res assms(2) i assms(3)]
  show "\<not> holds (c_connects (release_connect_reservation i c)) i" by (rule r(1))
  show "connect_ok (c_connects (release_connect_reservation i c), js, c_connect_op c, c_state c = St_null,
      c_is_state_non_null (release_connect_reservation i c), ids)"
    using assms(1) r(2) by (simp add: connect_ok_iff release_completed [OF i])
qed

lemma cancel_connect_inv:
  assumes "connect_inv c"
  shows "connect_inv (cancel_connect i c)"
proof (cases "\<not> i < length (c_connects c) \<or> \<not> co_cancelled (c_connects c ! i) \<or> co_completed (c_connects c ! i) \<or> c_connect_op c = Some i")
  case True
  with assms show ?thesis by (auto simp: cancel_connect_def connect_inv_def)
next
  case False
  have js: "i \<in> set (connect_jobs (c_out c))"
    by (rule ops_ok_waits [OF connect_invD(1) [OF assms]]) (use False in auto)
  have nc: "\<not> co_completed (c_connects c ! i)" using False by simp
  note r = release_ok [OF assms [unfolded connect_inv_def connect_view_def] js nc]
  have "connect_inv (release_connect_reservation i c)"
    using r(2) by (simp add: connect_inv_def connect_view_def release_fields)
  with complete_connect_inv [OF this] r(1) False show ?thesis
    by (simp add: cancel_connect_def release_fields)
qed

lemma connect_ok_start:
  assumes "connect_ok (cs, i # js, cop, True, nn, ids)" and "holds cs i"
  shows "connect_ok (cs, js, Some i, False, nn, ids)"
proof -
  from assms(1) have a: "ops_ok (map co_completed cs) (i # js) (set_option cop) ids" "reserve_ok cs (insert i (set js)) True nn" "cop = None"
    by (cases cop; simp add: connect_ok_iff)+
  have "i \<notin> set js" using a(1) by (simp add: ops_ok_def)
  with a(2) assms(2) have "reserve_ok cs (set js) False nn" by (auto simp: reserve_ok_def split: if_splits)
  with ops_ok_park [OF a(1)] a(3) assms(2) show ?thesis by (simp add: connect_ok_iff holds_def)
qed

lemma async_connect_internal_inv:
  assumes "connect_inv_job i c"
  shows "connect_inv (async_connect_internal p i c)"
proof -
  note a = assms [unfolded connect_inv_job_def]
  have i: "i < length (c_connects c)" using a by (auto simp: connect_ok_iff dest: ops_ok_job)
  have drop: "co_completed (c_connects c ! i) \<Longrightarrow> connect_inv c"
    using connect_ok_drop_job [OF a] by (simp add: connect_inv_def connect_view_def)
  have cancelled: "connect_inv (complete_connect (Some i) ec (release_connect_reservation i c))"
    if "\<not> co_completed (c_connects c ! i)" for ec
    using release_ok [OF a _ that] complete_connect_inv_job [of i "release_connect_reservation i c"]
    by (simp add: connect_inv_job_def release_fields)
  have refused: "connect_inv (complete_connect (Some i) ec c)" if "\<not> co_reserved (c_connects c ! i) \<or> c_state c \<noteq> St_null" for ec
    using complete_connect_inv_job [OF assms] a that by (auto simp: holds_def connect_ok_iff reserve_ok_def split: if_splits)
  have started: "connect_inv (arm_state_timer n (set_state St_connecting (c\<lparr>c_generation := g, c_connect_op := Some i\<rparr>)))"
    if "\<not> co_completed (c_connects c ! i)" "co_reserved (c_connects c ! i)" "c_state c = St_null" for n g
    using connect_ok_start a that unfolding connect_inv_def arm_state_timer_views
    by (simp add: connect_view_def set_state_def holds_def)
  from drop cancelled refused started show ?thesis
    by (simp add: async_connect_internal_def connect_inv_def)
qed

lemma on_open_inv:
  assumes "connect_inv c"
  shows "connect_inv (on_open p c)"
proof (cases "c_state c = St_connecting")
  case False
  with assms show ?thesis by (simp add: on_open_def)
next
  case True
  define c1 where "c1 = set_state St_connected c"
  have c1: "connect_inv c1" using assms True by (simp add: c1_def connect_inv_def)
  have "connect_inv (complete_connect (c_connect_op c1) ec_ok c1)"
  proof (cases "c_connect_op c1")
    case None
    with c1 show ?thesis by (simp add: complete_connect_def)
  next
    case (Some i)
    with ops_ok_parked [OF connect_invD(1) [OF c1], of i]
    have "i < length (c_connects c1)" "i \<notin> set (connect_jobs (c_out c1))" by auto
    with complete_connect_inv [OF c1] Some show ?thesis by simp
  qed
  with True show ?thesis by (auto simp: on_open_def Let_def c1_def [symmetric] connect_inv_def send_heartbeat_def split: option.splits)
qed

text \<open>The end of a connection: afterwards nobody holds the reservation.\<close>

lemma on_queue_cancelled_connect_inv:
  assumes inv: "connect_inv c" and state: "c_close_pending c \<Longrightarrow> c_state c \<noteq> St_null"
    and op: "c_close_pending c \<Longrightarrow> prev = St_connecting \<or> c_connect_op c = None"
  shows "connect_inv (on_queue_cancelled p ec cause prev cb c)"
proof (cases "c_close_pending c")
  case False
  with inv show ?thesis by (simp add: on_queue_cancelled_def)
next
  case True
  define final where "final = (if ec_failed (if \<not> ec_failed cause \<and> ec_failed ec then ec else cause)
      then (if \<not> ec_failed cause \<and> ec_failed ec then ec else cause) else rstrm_ec Operation_aborted)"
  define c3 where "c3 = (set_state St_null ((act Socket_close c)\<lparr>c_buffer := [], c_error_code := ec_ok, c_client_details := None,
      c_status := empty_status\<rparr>))\<lparr>c_close_pending := False, c_is_state_non_null := False, c_server_address := empty_address,
      c_control_callbacks := \<lparr>cb_on_disconnection = None, cb_on_status = None\<rparr>\<rparr>"
  define c5 where "c5 = (let c4 = fail_creates p final (map fst (c_create_tunnel_ops c3)) c3 in close_tunnels (map fst (c_tunnels c4)) c4)"
  have v: "connect_view c5 = (c_connects c, connect_jobs (c_out c), c_connect_op c, True, False, connect_ids (c_log c))"
    by (simp add: c5_def Let_def) (simp add: c3_def connect_view_def set_state_def act_def)
  define c6 where "c6 = (if prev = St_connecting then complete_connect (c_connect_op c5) final c5 else c5)"
  have eq: "connect_view (on_queue_cancelled p ec cause prev cb c) = connect_view (c6\<lparr>c_connect_op := None\<rparr>)"
    using True by (simp add: on_queue_cancelled_def c6_def c5_def c3_def final_def Let_def split: option.splits)
  have op5: "c_connect_op c5 = c_connect_op c" "c_connects c5 = c_connects c" "connect_ids (c_log c5) = connect_ids (c_log c)"
      "connect_jobs (c_out c5) = connect_jobs (c_out c)" "c_state c5 = St_null" "\<not> c_is_state_non_null c5"
    using v by (auto simp: connect_view_def)
  have res: "reserve_ok (c_connects c) (set (connect_jobs (c_out c))) True False"
    using connect_invD(2) [OF inv] state [OF True] by (simp add: reserve_ok_def split: if_splits)
  have base: "connect_ok (c_connects c, connect_jobs (c_out c), cop, False, True, connect_ids (c_log c))" if "cop = c_connect_op c" for cop
    using inv state [OF True] that by (simp add: connect_inv_def connect_view_def connect_ok_iff reserve_ok_def split: if_splits)
  show ?thesis
  proof (cases "c_connect_op c")
    case None
    then have "connect_view (c6\<lparr>c_connect_op := None\<rparr>) = (c_connects c, connect_jobs (c_out c), None, True, False, connect_ids (c_log c))"
      using v op5 by (simp add: c6_def complete_connect_def connect_view_def)
    with eq base [OF refl] None res show ?thesis by (simp add: connect_inv_def connect_ok_iff)
  next
    case (Some i)
    with op [OF True] have prev: "prev = St_connecting" by simp
    have i: "i < length (c_connects c)" "i \<notin> set (connect_jobs (c_out c))" "\<not> co_completed (c_connects c ! i)"
      using ops_ok_parked [OF connect_invD(1) [OF inv], of i] connect_invD(3) [OF inv Some] Some by auto
    have "connect_view (complete_connect (Some i) final c5) =
        (set_completed i (c_connects c), connect_jobs (c_out c), None, True, False, connect_ids (c_log c) @ [i])"
      using complete_connect_view [of c5 i final] i op5 Some by simp
    then have "connect_view (c6\<lparr>c_connect_op := None\<rparr>) =
        (set_completed i (c_connects c), connect_jobs (c_out c), None, True, False, connect_ids (c_log c) @ [i])"
      using op5(1) Some prev by (auto simp: c6_def connect_view_def)
    moreover have "connect_ok (set_completed i (c_connects c), connect_jobs (c_out c), None, False, True, connect_ids (c_log c) @ [i])"
      using connect_ok_complete [OF base [OF refl] i(1,3)] i(2) Some by simp
    ultimately show ?thesis
      using eq reserve_complete [OF res i(1)] i(2) by (simp add: connect_inv_def connect_ok_iff)
  qed
qed

lemma async_connect_inv:
  assumes "connect_inv c"
  shows "connect_inv (async_connect a c)"
proof -
  define op where "op = \<lparr>co_cancelled = False, co_completed = False, co_reserved = (\<not> c_is_state_non_null c)\<rparr>"
  let ?cs = "c_connects c" and ?js = "connect_jobs (c_out c)"
  note d = connect_invD [OF assms]
  have js: "i < length ?cs" if "i \<in> set ?js" for i using ops_ok_job [OF d(1) that] by simp
  have h: "holds (?cs @ [op]) i = holds ?cs i" if "i \<in> set ?js" for i
    using js [OF that] by (simp add: holds_def nth_append)
  have hn: "holds (?cs @ [op]) (length ?cs) = (\<not> c_is_state_non_null c)" by (simp add: holds_def op_def)
  have new: "length ?cs \<notin> set ?js" using js by blast
  have "reserve_ok (?cs @ [op]) (insert (length ?cs) (set ?js)) (c_state c = St_null) True"
    using d(2) h hn new by (auto simp: reserve_ok_def split: if_splits)
  moreover have "\<not> co_completed ((?cs @ [op]) ! i) \<and> c_state c \<noteq> St_null" if "c_connect_op c = Some i" for i
    using d(3) [OF that] ops_ok_parked [OF d(1), of i] that by (auto simp: nth_append)
  moreover have "ops_ok (map co_completed (?cs @ [op])) (?js @ [length ?cs]) (set_option (c_connect_op c)) (connect_ids (c_log c))"
    using ops_ok_new [OF d(1)] by (simp add: op_def)
  ultimately show ?thesis
    by (cases "c_is_state_non_null c")
      (simp_all add: connect_inv_def async_connect_def connect_view_def start_def Let_def op_def connect_ok_iff)
qed

lemma slot_connect_inv:
  assumes "connect_inv c"
  shows "connect_inv (slot_connect i c)"
proof (cases "i < length (c_connects c)")
  case True
  define cs where "cs = (c_connects c)[i := (c_connects c ! i)\<lparr>co_cancelled := True\<rparr>]"
  have cs: "co_completed (cs ! j) = co_completed (c_connects c ! j)" "co_reserved (cs ! j) = co_reserved (c_connects c ! j)"
      "length cs = length (c_connects c)" for j
    using True by (simp_all add: cs_def nth_list_update)
  then have "map co_completed cs = map co_completed (c_connects c)" by (simp add: list_eq_iff_nth_eq)
  with cs have "connect_ok (cs, js, x, n, nn, ids) = connect_ok (c_connects c, js, x, n, nn, ids)" for js x n nn ids
    by (simp add: connect_ok_iff reserve_ok_def holds_def)
  with assms True show ?thesis
    by (simp add: slot_connect_def connect_inv_def) (simp add: connect_view_def upd_connect_def cs_def [symmetric])
qed (use assms in \<open>simp add: slot_connect_def\<close>)

end
