(* ===== verification/ClientTunnels.thy ===== *)
theory ClientTunnels
  imports ClientOps
begin

text \<open>
  The operations on tunnels: an operation that creates a tunnel waits in its job or in
  \<open>m_create_tunnel_ops\<close>, one that accepts a stream in its job or in the tunnel. Every handler keeps the
  invariants of both, and the bound on the streams of a tunnel.
\<close>

section \<open>Creating tunnels\<close>

definition create_ok :: "create_tunnel_op list \<times> nat list \<times> (string, nat) omap \<times> nat list \<Rightarrow> bool" where
  "create_ok = (\<lambda>(crs, js, ops, ids). ops_ok (map cr_completed crs) js (snd ` set ops) ids \<and> omap_sorted ops)"

definition create_inv :: "client \<Rightarrow> bool" where
  "create_inv c = create_ok (create_view c)"

definition create_inv_job :: "nat \<Rightarrow> client \<Rightarrow> bool" where
  "create_inv_job i c \<longleftrightarrow> create_ok (c_creates c, i # create_jobs (c_out c), c_create_tunnel_ops c, create_ids (c_log c))"

lemmas create_ok_iff = create_ok_def [THEN fun_cong, of "(crs, js, ops, ids)" for crs js ops ids, unfolded prod.case]

lemma create_inv_iff:
  "create_inv c \<longleftrightarrow> ops_ok (map cr_completed (c_creates c)) (create_jobs (c_out c)) (snd ` set (c_create_tunnel_ops c)) (create_ids (c_log c))
     \<and> omap_sorted (c_create_tunnel_ops c)"
  by (simp add: create_inv_def create_view_def create_ok_iff)

lemma create_inv_init: "create_inv client_init"
  by (simp add: create_inv_iff client_init_def ops_ok_init)

lemma create_inv_take_out:
  assumes "create_inv c" and "k < length (c_out c)"
  shows "create_jobs [c_out c ! k] = [] \<Longrightarrow> create_inv (take_out k c)"
    and "c_out c ! k = P_job (J_create i) \<Longrightarrow> create_inv_job i (take_out k c)"
  using take_out_jobs(2) [OF assms(2)] assms(1)
  by (auto simp: create_inv_def create_inv_job_def create_view_def create_ok_iff ops_ok_mid)

lemma omap_put_values:
  "map_of xs k = None \<Longrightarrow> snd ` set (omap_put k v xs) = insert v (snd ` set xs)"
  by (induction k v xs rule: omap_put.induct) (auto split: if_splits)

lemma omap_del_values: "omap_sorted xs \<Longrightarrow> map_of xs k = Some v \<Longrightarrow> snd ` set xs - snd ` set (omap_del k xs) \<subseteq> {v}"
proof
  fix w assume sorted: "omap_sorted xs" and v: "map_of xs k = Some v" and w: "w \<in> snd ` set xs - snd ` set (omap_del k xs)"
  then obtain j where j: "(j, w) \<in> set xs" by auto
  with w have "j = k" by (force simp: omap_del_def)
  with j sorted v show "w \<in> {v}" by (simp add: omap_mem)
qed

lemma complete_create_view:
  "\<not> cr_completed (c_creates c ! i) \<Longrightarrow> create_view (complete_create_tunnel i ec t c) =
     ((c_creates c)[i := (c_creates c ! i)\<lparr>cr_completed := True\<rparr>], create_jobs (c_out c), c_create_tunnel_ops c, create_ids (c_log c) @ [i])"
  by (simp add: complete_create_tunnel_def create_view_def act_def upd_create_def)

lemma complete_create_fields [simp]:
  "c_out (complete_create_tunnel i ec t c) = c_out c" "c_create_tunnel_ops (complete_create_tunnel i ec t c) = c_create_tunnel_ops c"
  "c_state (complete_create_tunnel i ec t c) = c_state c" "c_tunnels (complete_create_tunnel i ec t c) = c_tunnels c"
  "length (c_creates (complete_create_tunnel i ec t c)) = length (c_creates c)"
  by (simp_all add: complete_create_tunnel_def act_def upd_create_def)

lemma complete_create_done: "i < length (c_creates c) \<Longrightarrow> cr_completed (c_creates (complete_create_tunnel i ec t c) ! i)"
  by (simp add: complete_create_tunnel_def act_def upd_create_def)

lemma complete_create_inv:
  assumes "create_inv c" and "i < length (c_creates c)"
  shows "create_inv (complete_create_tunnel i ec t c)"
proof (cases "cr_completed (c_creates c ! i)")
  case False
  from assms(1) have ok: "ops_ok (map cr_completed (c_creates c)) (create_jobs (c_out c)) (snd ` set (c_create_tunnel_ops c)) (create_ids (c_log c))"
    and sorted: "omap_sorted (c_create_tunnel_ops c)" by (simp_all add: create_inv_iff)
  have "ops_ok ((map cr_completed (c_creates c))[i := True]) (create_jobs (c_out c)) (snd ` set (c_create_tunnel_ops c)) (create_ids (c_log c) @ [i])"
    by (rule ops_ok_complete [OF ok]) (use assms(2) False in auto)
  with False sorted show ?thesis by (simp add: create_inv_def complete_create_view create_ok_iff map_update)
qed (use assms in \<open>simp add: complete_create_tunnel_def\<close>)

lemma complete_create_inv_job:
  assumes "create_inv_job i c"
  shows "create_inv (complete_create_tunnel i ec t c)"
proof (cases "cr_completed (c_creates c ! i)")
  case False
  have i: "i < length (c_creates c)" using assms by (auto simp: create_inv_job_def create_ok_iff dest: ops_ok_job)
  with ops_ok_complete_job [of "map cr_completed (c_creates c)" i] assms False show ?thesis
    by (simp add: create_inv_def complete_create_view create_inv_job_def create_ok_iff map_update)
next
  case True
  have i: "i < length (c_creates c)" using assms by (auto simp: create_inv_job_def create_ok_iff dest: ops_ok_job)
  with True assms ops_ok_done [of "map cr_completed (c_creates c)" i] show ?thesis
    by (simp add: complete_create_tunnel_def create_inv_iff create_inv_job_def create_ok_iff)
qed

lemma emplace_request_inv:
  "create_inv_job i c \<Longrightarrow> create_inv (emplace_request p ids a n i c)"
proof (induction p ids a n i c rule: emplace_request.induct)
  case (1 p ids a i c)
  then show ?case by (simp add: complete_create_inv_job)
next
  case (2 p ids a n i c)
  have "create_inv (c\<lparr>c_create_tunnel_ops := omap_put (ids a) i (c_create_tunnel_ops c)\<rparr>)"
    if "map_of (c_create_tunnel_ops c) (ids a) = None"
    using 2(2) ops_ok_park that
    by (simp add: create_inv_iff create_inv_job_def create_ok_iff omap_put_values omap_put_sorted)
  with 2 show ?case by (simp add: create_inv_def)
qed

lemma async_create_tunnel_internal_inv:
  assumes "create_inv_job i c"
  shows "create_inv (async_create_tunnel_internal p ids i c)"
proof -
  have "cr_completed (c_creates c ! i) \<Longrightarrow> create_inv c"
    using complete_create_inv_job [OF assms, of ec_ok None] by (simp add: complete_create_tunnel_def)
  with assms show ?thesis
    by (auto simp: async_create_tunnel_internal_def Let_def intro: complete_create_inv_job emplace_request_inv)
qed

lemma on_tunnel_response_inv:
  assumes "create_inv c"
  shows "create_inv (on_tunnel_response p r q ec c)"
proof (cases "map_of (c_create_tunnel_ops c) r")
  case None
  with assms show ?thesis by (simp add: on_tunnel_response_def)
next
  case (Some i)
  then have "i \<in> snd ` set (c_create_tunnel_ops c)" by (force dest: map_of_SomeD)
  then have i: "i < length (c_creates c)" using assms ops_ok_parked by (fastforce simp: create_inv_iff)
  have del: "create_inv (d\<lparr>c_create_tunnel_ops := omap_del r (c_create_tunnel_ops d)\<rparr>)"
    if "create_view d = create_view (complete_create_tunnel i ec' t c1)" "create_view c1 = create_view c" for d c1 ec' t
  proof -
    have ops: "c_create_tunnel_ops d = c_create_tunnel_ops c" and len: "length (c_creates c1) = length (c_creates c)"
      using that by (auto simp: create_view_def)
    have inv: "create_inv d" using complete_create_inv [of c1] that assms i len by (simp add: create_inv_def)
    have "cr_completed (c_creates d ! i)" using complete_create_done [of i c1] that(1) i len by (simp add: create_view_def)
    moreover have "i < length (c_creates d)" using that(1) i len by (simp add: create_view_def)
    ultimately have 1: "\<forall>j \<in> snd ` set (c_create_tunnel_ops d) - snd ` set (omap_del r (c_create_tunnel_ops d)). map cr_completed (c_creates d) ! j"
      using omap_del_values [of "c_create_tunnel_ops d" r i] inv Some ops by (auto simp: create_inv_iff)
    have 2: "snd ` set (omap_del r (c_create_tunnel_ops d)) \<subseteq> snd ` set (c_create_tunnel_ops d)"
      by (auto simp: omap_del_def)
    have 3: "ops_ok (map cr_completed (c_creates d)) (create_jobs (c_out d)) (snd ` set (c_create_tunnel_ops d)) (create_ids (c_log d))"
      using inv by (simp add: create_inv_iff)
    from ops_ok_unpark [OF 3 2 1] show ?thesis using inv by (simp add: create_inv_iff omap_del_sorted)
  qed
  define c1 where "c1 = (if ec_failed ec \<or> map_of (c_tunnels c) (case m_id q of None \<Rightarrow> [] | Some t \<Rightarrow> t) \<noteq> None then c
      else put_tunnel (case m_id q of None \<Rightarrow> [] | Some t \<Rightarrow> t) new_tunnel c)"
  have c1: "create_view c1 = create_view c" by (simp add: c1_def)
  show ?thesis
  proof (cases "\<not> ec_failed ec \<and> m_id q = None")
    case True
    with Some assms show ?thesis by (simp add: on_tunnel_response_def create_inv_def)
  next
    case False
    note eq = on_tunnel_response_def [of p r q ec c, unfolded Some option.case if_not_P [OF False] Let_def c1_def [symmetric]]
    show ?thesis
    proof (cases "cr_cancelled (c_creates c1 ! i)")
      case True
      show ?thesis unfolding eq if_P [OF True] by (rule del [OF _ c1]) (cases "ec_failed ec"; simp)
    next
      case False
      show ?thesis unfolding eq if_not_P [OF False] by (rule del [OF refl c1])
    qed
  qed
qed

lemma cancel_create_tunnel_inv: "create_inv c \<Longrightarrow> create_inv (cancel_create_tunnel i c)"
  by (simp add: cancel_create_tunnel_def complete_create_inv)

lemma fail_creates_inv: "create_inv c \<Longrightarrow> create_inv (fail_creates p ec rs c)"
  by (induction p ec rs c rule: fail_creates.induct) (auto intro: on_tunnel_response_inv)

lemma on_tunnel_response_ops:
  assumes "ec_failed ec"
  shows "c_create_tunnel_ops (on_tunnel_response p r q ec c) = omap_del r (c_create_tunnel_ops c)"
    and "c_state (on_tunnel_response p r q ec c) = c_state c" and "c_tunnels (on_tunnel_response p r q ec c) = c_tunnels c"
proof -
  have "map_of xs r = None \<Longrightarrow> omap_del r xs = xs" for xs :: "(string, nat) omap"
    by (auto simp: omap_del_def map_of_eq_None_iff filter_id_conv)
  then show "c_create_tunnel_ops (on_tunnel_response p r q ec c) = omap_del r (c_create_tunnel_ops c)"
    and "c_state (on_tunnel_response p r q ec c) = c_state c" and "c_tunnels (on_tunnel_response p r q ec c) = c_tunnels c"
    using assms by (simp_all add: on_tunnel_response_def Let_def split: option.splits)
qed

lemma fail_creates_empties:
  "ec_failed ec \<Longrightarrow> fst ` set (c_create_tunnel_ops c) \<subseteq> set rs \<Longrightarrow> c_create_tunnel_ops (fail_creates p ec rs c) = []"
proof (induction p ec rs c rule: fail_creates.induct)
  case (2 p ec r rs c)
  then show ?case by (auto simp: on_tunnel_response_ops omap_del_def)
qed simp

lemma fail_creates_fields:
  "ec_failed ec \<Longrightarrow> c_state (fail_creates p ec rs c) = c_state c" "ec_failed ec \<Longrightarrow> c_tunnels (fail_creates p ec rs c) = c_tunnels c"
  by (induction p ec rs c rule: fail_creates.induct) (simp_all add: on_tunnel_response_ops)

lemma on_queue_cancelled_create_inv:
  "create_inv c \<Longrightarrow> create_inv (on_queue_cancelled p ec cause prev cb c)"
proof -
  assume inv: "create_inv c"
  have "create_inv (fail_creates p e rs d)" if "create_view d = create_view c" for e rs d
    using fail_creates_inv inv that by (simp add: create_inv_def)
  then show ?thesis
    using inv by (simp add: on_queue_cancelled_def Let_def create_inv_def split: option.splits)
qed

lemma async_create_tunnel_inv: "create_inv c \<Longrightarrow> create_inv (async_create_tunnel q c)"
  using ops_ok_new [of "map cr_completed (c_creates c)"]
  by (simp add: async_create_tunnel_def create_inv_iff start_def)

lemma slot_create_inv: "create_inv c \<Longrightarrow> create_inv (slot_create i c)"
proof -
  assume inv: "create_inv c"
  have "map cr_completed ((c_creates c)[i := (c_creates c ! i)\<lparr>cr_cancelled := True\<rparr>]) = map cr_completed (c_creates c)"
    if "i < length (c_creates c)" using that by (simp add: list_eq_iff_nth_eq nth_list_update)
  with inv show ?thesis by (simp add: slot_create_def create_inv_iff start_def upd_create_def)
qed

end
