(* ===== verification/ClientStreams.thy ===== *)
theory ClientStreams
  imports ClientTunnels
begin

text \<open>
  Accepting streams: an accept operation waits in its job or in the tunnel it was made for, never in
  two tunnels; a tunnel never holds a completed operation. The streams of a tunnel never exceed the
  configured limit. Every handler keeps both.
\<close>

section \<open>Accept operations\<close>

definition slot_of :: "(string, tunnel_type) omap \<Rightarrow> string \<Rightarrow> nat option" where
  "slot_of tns t = Option.bind (map_of tns t) tn_accept_tunnel_op"

definition accept_core :: "accept_tunnel_op list \<Rightarrow> (string \<times> nat) list \<Rightarrow> (string \<Rightarrow> nat option) \<Rightarrow> nat list \<Rightarrow> bool" where
  "accept_core aos js sl ids \<longleftrightarrow>
     ops_ok (map ao_completed aos) (map snd js) (ran sl) ids \<and> (\<forall>x \<in> set js. ao_tunnel (aos ! snd x) = fst x)
     \<and> (\<forall>t i. sl t = Some i \<longrightarrow> \<not> ao_completed (aos ! i) \<and> ao_tunnel (aos ! i) = t)"

definition accept_inv :: "client \<Rightarrow> bool" where
  "accept_inv c = (\<lambda>(aos, js, tns, ids). accept_core aos js (slot_of tns) ids \<and> omap_sorted tns) (accept_view c)"

definition accept_inv_job :: "string \<Rightarrow> nat \<Rightarrow> client \<Rightarrow> bool" where
  "accept_inv_job t i c \<longleftrightarrow>
     accept_core (c_accepts c) ((t, i) # accept_jobs (c_out c)) (slot_of (c_tunnels c)) (accept_ids (c_log c)) \<and> omap_sorted (c_tunnels c)"

lemma accept_inv_iff:
  "accept_inv c \<longleftrightarrow> accept_core (c_accepts c) (accept_jobs (c_out c)) (slot_of (c_tunnels c)) (accept_ids (c_log c)) \<and> omap_sorted (c_tunnels c)"
  by (simp add: accept_inv_def accept_view_def)

lemma slot_of_put: "omap_sorted tns \<Longrightarrow> slot_of (omap_put t tn tns) = (slot_of tns)(t := tn_accept_tunnel_op tn)"
  by (simp add: slot_of_def omap_lookup_put fun_eq_iff)

lemma slot_of_del: "slot_of (omap_del t tns) = (slot_of tns)(t := None)"
  by (simp add: slot_of_def omap_lookup_del fun_eq_iff)

lemma slot_of_lookup: "map_of tns t = Some tn \<Longrightarrow> slot_of tns t = tn_accept_tunnel_op tn"
  by (simp add: slot_of_def)

lemma accept_core_mid: "accept_core aos (as @ (t, i) # bs) sl ids \<longleftrightarrow> accept_core aos ((t, i) # as @ bs) sl ids"
  by (auto simp: accept_core_def ops_ok_mid)

lemma accept_inv_init: "accept_inv client_init"
  by (simp add: accept_inv_iff client_init_def accept_core_def slot_of_def ops_ok_init ran_def)

lemma accept_inv_take_out:
  assumes "accept_inv c" and "k < length (c_out c)"
  shows "accept_jobs [c_out c ! k] = [] \<Longrightarrow> accept_inv (take_out k c)"
    and "c_out c ! k = P_job (J_accept t i) \<Longrightarrow> accept_inv_job t i (take_out k c)"
  using take_out_jobs(3) [OF assms(2)] assms(1)
  by (auto simp: accept_inv_iff accept_inv_job_def accept_core_mid)

abbreviation set_accepted :: "nat \<Rightarrow> accept_tunnel_op list \<Rightarrow> accept_tunnel_op list" where
  "set_accepted i aos \<equiv> aos[i := (aos ! i)\<lparr>ao_completed := True\<rparr>]"

lemma set_accepted_simps:
  "map ao_completed (set_accepted i aos) = (map ao_completed aos)[i := True]"
  "i < length aos \<Longrightarrow> ao_completed (set_accepted i aos ! j) \<longleftrightarrow> j = i \<or> ao_completed (aos ! j)"
  "i < length aos \<Longrightarrow> ao_tunnel (set_accepted i aos ! j) = ao_tunnel (aos ! j)"
  by (auto simp: map_update nth_list_update)

text \<open>The four moves: complete in a tunnel, complete in the job, park in a tunnel, drop a completed job.\<close>

lemma accept_core_complete:
  assumes "accept_core aos js sl ids" and "sl t = Some i"
  shows "accept_core (set_accepted i aos) js (sl(t := None)) (ids @ [i])"
proof -
  from assms have a: "ops_ok (map ao_completed aos) (map snd js) (ran sl) ids" "\<not> ao_completed (aos ! i)"
      "\<And>u j. sl u = Some j \<Longrightarrow> \<not> ao_completed (aos ! j) \<and> ao_tunnel (aos ! j) = u" by (auto simp: accept_core_def)
  have i: "i < length aos" using ops_ok_parked [OF a(1)] assms(2) by (auto simp: ran_def)
  have only: "u = t" if "sl u = Some i" for u using a(3) [OF that] a(3) [OF assms(2)] by simp
  have less: "ran (sl(t := None)) \<subseteq> ran sl" by (auto simp: ran_def)
  have "j \<in> ran (sl(t := None))" if "j \<in> ran sl" "j \<noteq> i" for j
  proof -
    from that(1) obtain u where "sl u = Some j" by (auto simp: ran_def)
    with that(2) assms(2) have "(sl(t := None)) u = Some j" by auto
    then show ?thesis by (rule ranI)
  qed
  then have more: "ran sl - {i} \<subseteq> ran (sl(t := None))" by blast
  have "ops_ok ((map ao_completed aos)[i := True]) (map snd js) (ran (sl(t := None))) (ids @ [i])"
    by (rule ops_ok_complete [OF a(1) _ _ more less]) (use i a(2) in auto)
  with assms(1) i only show ?thesis by (auto simp: accept_core_def set_accepted_simps)
qed

lemma accept_core_complete_job:
  assumes "accept_core aos ((t, i) # js) sl ids" and "\<not> ao_completed (aos ! i)"
  shows "accept_core (set_accepted i aos) js sl (ids @ [i])"
proof -
  from assms have a: "ops_ok (map ao_completed aos) (i # map snd js) (ran sl) ids" by (simp add: accept_core_def)
  have i: "i < length aos" using ops_ok_job [OF a] by simp
  have no: "sl u \<noteq> Some i" for u using ops_ok_parked [OF a, of i] by (auto simp: ran_def)
  have "ops_ok ((map ao_completed aos)[i := True]) (map snd js) (ran sl) (ids @ [i])"
    by (rule ops_ok_complete_job [OF a]) (use i assms(2) in simp)
  with assms(1) i no show ?thesis by (auto simp: accept_core_def set_accepted_simps)
qed

lemma accept_core_park:
  assumes "accept_core aos ((t, i) # js) sl ids" and "\<not> ao_completed (aos ! i)" and "sl t = None"
  shows "accept_core aos js (sl(t \<mapsto> i)) ids"
  using assms ops_ok_park [of _ i "map snd js"] by (auto simp: accept_core_def)

lemma accept_core_drop: "accept_core aos ((t, i) # js) sl ids \<Longrightarrow> ao_completed (aos ! i) \<Longrightarrow> accept_core aos js sl ids"
  using ops_ok_done [of "map ao_completed aos" i "map snd js"] ops_ok_job [of "map ao_completed aos" "i # map snd js" _ _ i]
  by (auto simp: accept_core_def)

section \<open>Handlers\<close>

lemma complete_accept_view:
  "\<not> ao_completed (c_accepts c ! i) \<Longrightarrow> accept_view (complete_accept_tunnel i ec c) =
     (set_accepted i (c_accepts c), accept_jobs (c_out c), c_tunnels c, accept_ids (c_log c) @ [i])"
  by (simp add: complete_accept_tunnel_def accept_view_def act_def upd_accept_def)

lemma put_tunnel_accept_view:
  "accept_view (put_tunnel t tn c) = (c_accepts c, accept_jobs (c_out c), omap_put t tn (c_tunnels c), accept_ids (c_log c))"
  by (simp add: put_tunnel_def accept_view_def)

lemma accept_view_fields:
  assumes "accept_view d = accept_view c"
  shows "c_accepts d = c_accepts c" and "accept_jobs (c_out d) = accept_jobs (c_out c)" and "c_tunnels d = c_tunnels c"
    and "accept_ids (c_log d) = accept_ids (c_log c)"
  using assms by (simp_all add: accept_view_def)

lemma accept_inv_frame: "accept_view d = accept_view c \<Longrightarrow> accept_inv d = accept_inv c"
  by (simp add: accept_inv_def)

text \<open>A tunnel replaced by one with the same waiting operation, or a new one without.\<close>

lemma put_tunnel_inv:
  assumes "accept_inv c" and "slot_of (c_tunnels c) t = tn_accept_tunnel_op tn"
  shows "accept_inv (put_tunnel t tn c)"
proof -
  have "(slot_of (c_tunnels c))(t := tn_accept_tunnel_op tn) = slot_of (c_tunnels c)" using assms(2) by auto
  then show ?thesis using assms(1)
    by (simp add: accept_inv_def put_tunnel_accept_view) (simp add: accept_view_def slot_of_put omap_put_sorted)
qed

lemma set_busy_inv:
  assumes "accept_inv c"
  shows "accept_inv (upd_accept i (\<lambda>x. x\<lparr>ao_busy := b\<rparr>) c)"
proof -
  define aos where "aos = (c_accepts c)[i := (c_accepts c ! i)\<lparr>ao_busy := b\<rparr>]"
  have aos: "ao_completed (aos ! j) = ao_completed (c_accepts c ! j)" "ao_tunnel (aos ! j) = ao_tunnel (c_accepts c ! j)"
      "length aos = length (c_accepts c)" for j
    by (cases "i < length (c_accepts c)"; simp add: aos_def nth_list_update list_update_beyond)+
  then have "map ao_completed aos = map ao_completed (c_accepts c)" by (simp add: list_eq_iff_nth_eq)
  with aos have "accept_core aos js sl ids = accept_core (c_accepts c) js sl ids" for js sl ids by (simp add: accept_core_def)
  with assms show ?thesis by (simp add: accept_inv_iff upd_accept_def aos_def [symmetric])
qed

lemma complete_in_tunnel:
  assumes "accept_inv c" and "map_of (c_tunnels c) t = Some tn" and "tn_accept_tunnel_op tn = Some i"
  shows "accept_inv (put_tunnel t (tn'\<lparr>tn_accept_tunnel_op := None\<rparr>) (complete_accept_tunnel i ec c))"
    and "accept_inv (complete_accept_tunnel i ec (put_tunnel t (tn'\<lparr>tn_accept_tunnel_op := None\<rparr>) c))"
    and "accept_inv ((complete_accept_tunnel i ec c)\<lparr>c_tunnels := omap_del t (c_tunnels (complete_accept_tunnel i ec c))\<rparr>)"
proof -
  have sl: "slot_of (c_tunnels c) t = Some i" using assms(2,3) by (simp add: slot_of_lookup)
  have core: "accept_core (c_accepts c) (accept_jobs (c_out c)) (slot_of (c_tunnels c)) (accept_ids (c_log c))"
    and sorted: "omap_sorted (c_tunnels c)" using assms(1) by (simp_all add: accept_inv_iff)
  note fin = accept_core_complete [OF core sl]
  have nc: "\<not> ao_completed (c_accepts c ! i)" using core sl by (simp add: accept_core_def)
  then have f: "c_accepts (complete_accept_tunnel i ec d) = set_accepted i (c_accepts c)" "c_tunnels (complete_accept_tunnel i ec d) = c_tunnels d"
      "accept_jobs (c_out (complete_accept_tunnel i ec d)) = accept_jobs (c_out c)"
      "accept_ids (c_log (complete_accept_tunnel i ec d)) = accept_ids (c_log c) @ [i]"
    if "c_accepts d = c_accepts c" "c_out d = c_out c" "c_log d = c_log c" for d
    using that by (simp_all add: complete_accept_tunnel_def act_def upd_accept_def)
  show "accept_inv (put_tunnel t (tn'\<lparr>tn_accept_tunnel_op := None\<rparr>) (complete_accept_tunnel i ec c))"
    using fin sorted by (simp add: accept_inv_iff put_tunnel_def f slot_of_put omap_put_sorted)
  show "accept_inv (complete_accept_tunnel i ec (put_tunnel t (tn'\<lparr>tn_accept_tunnel_op := None\<rparr>) c))"
    using fin sorted f [of "put_tunnel t (tn'\<lparr>tn_accept_tunnel_op := None\<rparr>) c"]
    by (simp add: accept_inv_iff) (simp add: put_tunnel_def slot_of_put omap_put_sorted)
  show "accept_inv ((complete_accept_tunnel i ec c)\<lparr>c_tunnels := omap_del t (c_tunnels (complete_accept_tunnel i ec c))\<rparr>)"
    using fin sorted by (simp add: accept_inv_iff f slot_of_del omap_del_sorted)
qed

lemma complete_accept_inv_job:
  assumes "accept_inv_job t i c"
  shows "accept_inv (complete_accept_tunnel i ec c)"
proof (cases "ao_completed (c_accepts c ! i)")
  case True
  with assms show ?thesis by (auto simp: complete_accept_tunnel_def accept_inv_iff accept_inv_job_def intro: accept_core_drop)
next
  case False
  with assms show ?thesis
    by (auto simp: accept_inv_def complete_accept_view accept_inv_job_def intro: accept_core_complete_job)
qed

lemma close_tunnel_internal_inv:
  assumes "accept_inv c"
  shows "accept_inv (close_tunnel_internal p t c)"
proof -
  have "accept_inv (put_tunnel t (tn\<lparr>tn_closing := True\<rparr>) c)" if "map_of (c_tunnels c) t = Some tn" for tn
    using assms that by (intro put_tunnel_inv) (simp_all add: slot_of_lookup)
  with assms show ?thesis
    by (auto simp: close_tunnel_internal_def do_close_tunnel_def accept_inv_def split: option.splits)
qed

lemma on_tunnel_response_accept_inv:
  assumes "accept_inv c"
  shows "accept_inv (on_tunnel_response p r q ec c)"
proof -
  have new: "accept_inv (put_tunnel t new_tunnel c)" if "map_of (c_tunnels c) t = None" for t
    using assms that by (intro put_tunnel_inv) (simp_all add: slot_of_def new_tunnel_def)
  have "accept_inv (close_tunnel_internal p t (complete_create_tunnel i ec' tun d))" if "accept_inv d" for t i ec' tun d
    using that by (intro close_tunnel_internal_inv) (simp add: accept_inv_def)
  with new assms show ?thesis
    by (auto simp: on_tunnel_response_def Let_def accept_inv_def [of "fault c"] accept_inv_def [of "_\<lparr>c_create_tunnel_ops := _\<rparr>"]
        accept_inv_def [of "complete_create_tunnel _ _ _ _"] simp flip: accept_inv_def split: option.splits)
qed

lemma on_tunnel_close_inv:
  assumes "accept_inv c"
  shows "accept_inv (on_tunnel_close t c)"
proof (cases "map_of (c_tunnels c) t")
  case None
  with assms show ?thesis by (simp add: on_tunnel_close_def)
next
  case (Some tn)
  define c1 where "c1 = close_streams t (tn_streams tn) c"
  have c1: "accept_view c1 = accept_view c" by (simp add: c1_def)
  show ?thesis
  proof (cases "tn_accept_tunnel_op tn")
    case None
    have "(slot_of (c_tunnels c))(t := None) = slot_of (c_tunnels c)" using slot_of_lookup [OF Some] None by auto
    with assms accept_view_fields [OF c1] Some None show ?thesis
      by (simp add: on_tunnel_close_def c1_def [symmetric] accept_inv_iff slot_of_del omap_del_sorted)
  next
    case (Some i)
    define c2 where "c2 = (if ao_busy (c_accepts c1 ! i) then act (Accept_peer_close i) c1 else c1)"
    have "accept_view c2 = accept_view c" by (simp add: c2_def c1)
    then have "accept_inv c2" "map_of (c_tunnels c2) t = Some tn" using assms \<open>map_of (c_tunnels c) t = Some tn\<close>
      by (auto simp: accept_inv_def accept_view_def)
    from complete_in_tunnel(3) [OF this Some] show ?thesis
      using \<open>map_of (c_tunnels c) t = Some tn\<close> Some
      by (simp add: on_tunnel_close_def c1_def [symmetric] c2_def [symmetric] Let_def)
  qed
qed

text \<open>\<open>accept_stream\<close> completes the operation that waits in the tunnel.\<close>

lemma accept_stream_view:
  "\<exists>c2. accept_view c2 = accept_view c \<and> accept_stream t tn i s sc c =
     put_tunnel t (tn\<lparr>tn_streams := omap_del s (tn_streams tn), tn_accept_tunnel_op := None\<rparr>) (complete_accept_tunnel i ec_ok c2)"
  by (rule exI [of _ "act (Accept_endpoint i (stream_endpoint s (sc_context sc) None
        (if sc_ptr sc \<noteq> None then act (Accept_adopt i t s) c else c))) (if sc_ptr sc \<noteq> None then act (Accept_adopt i t s) c else c)"])
    (simp add: accept_stream_def Let_def)

lemma accept_stream_inv:
  assumes "accept_inv c" and "map_of (c_tunnels c) t = Some tn" and "tn_accept_tunnel_op tn = Some i"
  shows "accept_inv (accept_stream t tn i s sc c)"
proof -
  obtain c2 where c2: "accept_view c2 = accept_view c" "accept_stream t tn i s sc c =
     put_tunnel t (tn\<lparr>tn_streams := omap_del s (tn_streams tn), tn_accept_tunnel_op := None\<rparr>) (complete_accept_tunnel i ec_ok c2)"
    using accept_stream_view by blast
  have "accept_inv c2" "map_of (c_tunnels c2) t = Some tn" using assms accept_view_fields [OF c2(1)] by (auto simp: accept_inv_iff)
  from complete_in_tunnel(1) [OF this assms(3)] show ?thesis unfolding c2(2) by simp
qed

lemma accept_stream_inv_job:
  assumes "accept_inv_job t i c" and "map_of (c_tunnels c) t = Some tn" and "tn_accept_tunnel_op tn = None"
  shows "accept_inv (accept_stream t tn i s sc c)"
proof -
  obtain c2 where c2: "accept_view c2 = accept_view c" "accept_stream t tn i s sc c =
     put_tunnel t (tn\<lparr>tn_streams := omap_del s (tn_streams tn), tn_accept_tunnel_op := None\<rparr>) (complete_accept_tunnel i ec_ok c2)"
    using accept_stream_view by blast
  have "accept_inv_job t i c2" using assms(1) accept_view_fields [OF c2(1)] by (simp add: accept_inv_job_def)
  then have inv: "accept_inv (complete_accept_tunnel i ec_ok c2)" by (rule complete_accept_inv_job)
  have "c_tunnels (complete_accept_tunnel i ec_ok c2) = c_tunnels c"
    using accept_view_fields(3) [OF c2(1)] by (simp add: complete_accept_tunnel_def act_def upd_accept_def)
  with put_tunnel_inv [OF inv] assms(2,3) show ?thesis unfolding c2(2) by (simp add: slot_of_lookup)
qed

lemma on_connect_stream_inv:
  assumes "accept_inv c"
  shows "accept_inv (on_connect_stream p g t s ec c)"
proof (cases "g = c_generation c \<and> c_state c = St_connected \<and> map_of (c_tunnels c) t \<noteq> None")
  case False
  with assms show ?thesis by (auto simp: on_connect_stream_def accept_inv_def split: option.splits)
next
  case True
  then obtain tn where tn: "map_of (c_tunnels c) t = Some tn" by blast
  define c1 where "c1 = (case tn_accept_tunnel_op tn of None \<Rightarrow> c | Some i \<Rightarrow> upd_accept i (\<lambda>x. x\<lparr>ao_busy := False\<rparr>) c)"
  have c1: "accept_inv c1" "map_of (c_tunnels c1) t = Some tn"
    using assms tn set_busy_inv [OF assms] by (simp_all add: c1_def split: option.splits) (simp add: upd_accept_def)
  have put: "accept_inv (put_tunnel t (tn\<lparr>tn_streams := ss\<rparr>) c1)" for ss
    by (rule put_tunnel_inv [OF c1(1)]) (simp add: slot_of_lookup [OF c1(2)])
  have acc: "accept_inv (accept_stream t tn i s sc c1)" if "tn_accept_tunnel_op tn = Some i" for i sc
    by (rule accept_stream_inv [OF c1 that])
  have rsp: "accept_inv (do_send_proxy_response p s e d) = accept_inv d" for e d by (simp add: accept_inv_def)
  note eq = on_connect_stream_def [of p g t s ec c, unfolded tn option.case c1_def [symmetric] Let_def]
  show ?thesis
  proof (cases "map_of (tn_streams tn) s")
    case None
    with True assms show ?thesis unfolding eq by (auto simp: rsp)
  next
    case (Some sc)
    with True put acc c1(1) show ?thesis unfolding eq by (auto simp: rsp split: option.splits)
  qed
qed

lemma do_connect_stream_inv:
  assumes "accept_inv c"
  shows "accept_inv (do_connect_stream p se t s c)"
proof -
  have busy: "accept_inv (case peer of None \<Rightarrow> c | Some i \<Rightarrow> upd_accept i (\<lambda>x. x\<lparr>ao_busy := True\<rparr>) c)" for peer
    using assms set_busy_inv by (auto split: option.splits)
  have st: "accept_inv (start (P_stream g u v) (act (Stream_connect g u v e q) d)) = accept_inv d" for g u v e q d
    by (simp add: accept_inv_def)
  show ?thesis
    using assms busy on_connect_stream_inv [OF busy]
    by (auto simp: do_connect_stream_def Let_def st split: option.splits)
qed

lemma on_proxy_request_inv:
  assumes "accept_inv c"
  shows "accept_inv (on_proxy_request p se t s x c)"
proof -
  have rsp: "accept_inv (do_send_proxy_response p s e d) = accept_inv d" for e d by (simp add: accept_inv_def)
  have "accept_inv (put_tunnel t (tn\<lparr>tn_streams := ss\<rparr>) c)" if "map_of (c_tunnels c) t = Some tn" for tn ss
    by (rule put_tunnel_inv [OF assms]) (simp add: slot_of_lookup [OF that])
  then show ?thesis using assms
    by (auto simp: on_proxy_request_def Let_def rsp intro: do_connect_stream_inv split: option.splits)
qed

lemma cancel_accept_tunnel_inv:
  assumes "accept_inv c"
  shows "accept_inv (cancel_accept_tunnel t i c)"
proof -
  have "accept_inv (complete_accept_tunnel i asio_operation_aborted
      (put_tunnel t (tn\<lparr>tn_accept_tunnel_op := None\<rparr>) (if ao_busy (c_accepts c ! i) then act (Accept_peer_close i) c else c)))"
    if "map_of (c_tunnels c) t = Some tn" "tn_accept_tunnel_op tn = Some i" for tn
  proof (rule complete_in_tunnel(2) [OF _ _ that(2)])
    show "accept_inv (if ao_busy (c_accepts c ! i) then act (Accept_peer_close i) c else c)" using assms by (simp add: accept_inv_def)
    show "map_of (c_tunnels (if ao_busy (c_accepts c ! i) then act (Accept_peer_close i) c else c)) t = Some tn"
      using that(1) by (simp add: act_def)
  qed
  with assms show ?thesis by (auto simp: cancel_accept_tunnel_def Let_def split: option.splits)
qed

lemma park_in_tunnel:
  assumes "accept_inv_job t i c" and "map_of (c_tunnels c) t = Some tn" and "tn_accept_tunnel_op tn = None"
    and "\<not> ao_completed (c_accepts c ! i)"
  shows "accept_inv (put_tunnel t (tn\<lparr>tn_accept_tunnel_op := Some i\<rparr>) c)"
proof -
  from assms(1) have core: "accept_core (c_accepts c) ((t, i) # accept_jobs (c_out c)) (slot_of (c_tunnels c)) (accept_ids (c_log c))"
    and sorted: "omap_sorted (c_tunnels c)" by (simp_all add: accept_inv_job_def)
  from accept_core_park [OF core assms(4)] assms(2,3) sorted show ?thesis
    by (simp add: accept_inv_iff put_tunnel_def slot_of_lookup slot_of_put omap_put_sorted)
qed

lemma async_accept_tunnel_internal_inv:
  assumes "accept_inv_job t i c"
  shows "accept_inv (async_accept_tunnel_internal p im se t i c)"
proof -
  define c1 where "c1 = (if im then act (Accept_peer_close i) c else c)"
  have c1: "accept_view c1 = accept_view c" by (simp add: c1_def)
  note f = accept_view_fields [OF c1]
  have job: "accept_inv_job t i c1" using assms f by (simp add: accept_inv_job_def)
  have drop: "ao_completed (c_accepts c ! i) \<Longrightarrow> accept_inv c"
    using complete_accept_inv_job [OF assms, of ec_ok] by (simp add: complete_accept_tunnel_def)
  have taken: "accept_inv (accept_stream t tn i s sc c1)" and parked: "\<not> ao_completed (c_accepts c ! i) \<Longrightarrow> accept_inv (put_tunnel t (tn\<lparr>tn_accept_tunnel_op := Some i\<rparr>) c1)"
    if "map_of (c_tunnels c) t = Some tn" "tn_accept_tunnel_op tn = None" for tn s sc
    using accept_stream_inv_job [OF job] park_in_tunnel [OF job] that f by auto
  note eq = async_accept_tunnel_internal_def [of p im se t i c, unfolded Let_def c1_def [symmetric]]
  show ?thesis
    using drop complete_accept_inv_job [OF assms]
    by (auto simp: eq intro!: taken parked do_connect_stream_inv split: option.splits prod.splits)
qed

lemma close_tunnels_inv: "accept_inv c \<Longrightarrow> accept_inv (close_tunnels ts c)"
  by (induction ts c rule: close_tunnels.induct) (auto intro: on_tunnel_close_inv)

lemma fail_creates_accept_inv: "accept_inv c \<Longrightarrow> accept_inv (fail_creates p ec rs c)"
  by (induction p ec rs c rule: fail_creates.induct) (auto intro: on_tunnel_response_accept_inv)

lemma on_queue_cancelled_accept_inv:
  "accept_inv c \<Longrightarrow> accept_inv (on_queue_cancelled p ec cause prev cb c)"
proof -
  assume inv: "accept_inv c"
  have "accept_inv (close_tunnels ts (fail_creates p e rs d))" if "accept_view d = accept_view c" for e rs ts d
    using close_tunnels_inv fail_creates_accept_inv inv that accept_inv_frame by blast
  then show ?thesis
    using inv by (simp add: on_queue_cancelled_def Let_def accept_inv_def split: option.splits)
qed

lemma async_accept_tunnel_inv:
  assumes "accept_inv c"
  shows "accept_inv (async_accept_tunnel t c)"
proof -
  define op where "op = \<lparr>ao_tunnel = t, ao_cancelled = False, ao_completed = False, ao_busy = False\<rparr>"
  have op: "\<not> ao_completed op" "ao_tunnel op = t" by (simp_all add: op_def)
  from assms have core: "accept_core (c_accepts c) (accept_jobs (c_out c)) (slot_of (c_tunnels c)) (accept_ids (c_log c))"
    by (simp add: accept_inv_iff)
  then have ok: "ops_ok (map ao_completed (c_accepts c)) (map snd (accept_jobs (c_out c))) (ran (slot_of (c_tunnels c))) (accept_ids (c_log c))"
    by (simp add: accept_core_def)
  have nth: "(c_accepts c @ [op]) ! i = c_accepts c ! i" if "i < length (c_accepts c)" for i using that by (simp add: nth_append)
  have js: "snd x < length (c_accepts c)" if "x \<in> set (accept_jobs (c_out c))" for x using ops_ok_job [OF ok, of "snd x"] that by simp
  have sl: "i < length (c_accepts c)" if "slot_of (c_tunnels c) u = Some i" for u i
    using ops_ok_parked [OF ok, of i] that by (auto simp: ran_def)
  have "accept_core (c_accepts c @ [op]) (accept_jobs (c_out c) @ [(t, length (c_accepts c))]) (slot_of (c_tunnels c)) (accept_ids (c_log c))"
    using ops_ok_new [OF ok] core js sl op by (auto simp: accept_core_def nth)
  with assms show ?thesis by (simp add: async_accept_tunnel_def accept_inv_iff start_def op_def)
qed

lemma slot_accept_inv:
  assumes "accept_inv c"
  shows "accept_inv (slot_accept i c)"
proof (cases "i < length (c_accepts c)")
  case True
  define aos where "aos = (c_accepts c)[i := (c_accepts c ! i)\<lparr>ao_cancelled := True\<rparr>]"
  have aos: "ao_completed (aos ! j) = ao_completed (c_accepts c ! j)" "ao_tunnel (aos ! j) = ao_tunnel (c_accepts c ! j)"
      "length aos = length (c_accepts c)" for j
    using True by (simp_all add: aos_def nth_list_update)
  then have "map ao_completed aos = map ao_completed (c_accepts c)" by (simp add: list_eq_iff_nth_eq)
  with aos have "accept_core aos js sl ids = accept_core (c_accepts c) js sl ids" for js sl ids by (simp add: accept_core_def)
  with assms True show ?thesis by (simp add: accept_inv_iff slot_accept_def start_def upd_accept_def aos_def [symmetric])
qed (use assms in \<open>simp add: slot_accept_def\<close>)

end
