(* ===== verification/ClientPhases.thy ===== *)
theory ClientPhases
  imports ClientStreams
begin

text \<open>
  The life of a connection. An abstract session between client and server is the automaton
  \<open>session_step\<close>: nothing before the request to open the control channel, tunnel and proxy messages and
  heartbeats while it is open, nothing after the request to close it. The invariant of this theory ties
  the client's state to that automaton, to the one read (or resolution, or connection) that drives it and
  to the cancellation of the send queue that ends it.
\<close>

section \<open>The abstract session\<close>

datatype session = Session_idle | Session_open | Session_closed

fun session_message :: "message \<Rightarrow> bool" where
  "session_message (Open_tunnel_req r q) = True"
| "session_message (Close_tunnel_req t) = True"
| "session_message (Proxy_conn_rsp s e) = True"
| "session_message (Heartbeat a b) = True"
| "session_message _ = False"

fun session_step :: "session \<Rightarrow> message \<Rightarrow> session option" where
  "session_step Session_idle (Open_control_channel_req d l) = Some Session_open"
| "session_step Session_open Close_control_channel_req = Some Session_closed"
| "session_step Session_open msg = (if session_message msg then Some Session_open else None)"
| "session_step _ _ = None"

fun session_run :: "session \<Rightarrow> message list \<Rightarrow> session option" where
  "session_run x [] = Some x"
| "session_run x (m # ms) = (case session_step x m of None \<Rightarrow> None | Some y \<Rightarrow> session_run y ms)"

lemma session_run_append:
  "session_run x (ms @ ns) = (case session_run x ms of None \<Rightarrow> None | Some y \<Rightarrow> session_run y ns)"
  by (induction ms arbitrary: x) (auto split: option.splits)

lemma session_step_open: "session_message m \<Longrightarrow> session_step Session_open m = Some Session_open"
  by (cases m) auto

section \<open>Observations\<close>

fun is_flow :: "pending \<Rightarrow> bool" where
  "is_flow (P_resolve g) = True"
| "is_flow (P_connect g) = True"
| "is_flow (P_recv g) = True"
| "is_flow _ = False"

fun flow_gen :: "pending \<Rightarrow> nat" where
  "flow_gen (P_resolve g) = g"
| "flow_gen (P_connect g) = g"
| "flow_gen (P_recv g) = g"
| "flow_gen _ = 0"

fun cancels :: "pending list \<Rightarrow> (error_code \<times> cstate \<times> nat option) list" where
  "cancels [] = []"
| "cancels (P_queue_cancel cause prev cb # xs) = (cause, prev, cb) # cancels xs"
| "cancels (x # xs) = cancels xs"

fun sents :: "caction list \<Rightarrow> (nat \<times> message) list" where
  "sents [] = []"
| "sents (Sent g m # as) = (g, m) # sents as"
| "sents (a # as) = sents as"

lemma cancels_append [simp]: "cancels (xs @ ys) = cancels xs @ cancels ys"
  by (induction xs rule: cancels.induct) auto

lemma sents_append [simp]: "sents (xs @ ys) = sents xs @ sents ys"
  by (induction xs rule: sents.induct) auto

text \<open>The messages of one generation, in the order in which they were handed to the send queue.\<close>

definition session_of :: "nat \<Rightarrow> (nat \<times> message) list \<Rightarrow> message list" where
  "session_of g ms = map snd (filter (\<lambda>x. fst x = g) ms)"

lemma session_of_append [simp]: "session_of g (xs @ ys) = session_of g xs @ session_of g ys"
  by (simp add: session_of_def)

lemma session_of_simps [simp]: "session_of g [] = []" "session_of g [(h, m)] = (if h = g then [m] else [])"
  by (simp_all add: session_of_def)

definition flow :: "nat \<Rightarrow> pending list \<Rightarrow> pending list" where
  "flow g xs = filter (\<lambda>x. flow_gen x = g) xs"

lemma flow_append [simp]: "flow g (xs @ ys) = flow g xs @ flow g ys"
  by (simp add: flow_def)

lemma flow_simps [simp]: "flow g [] = []" "flow g (x # xs) = (if flow_gen x = g then x # flow g xs else flow g xs)"
  by (simp_all add: flow_def)

lemma flow_later: "\<forall>x \<in> set xs. flow_gen x \<le> g \<Longrightarrow> g < h \<Longrightarrow> flow h xs = []"
  by (auto simp: flow_def filter_empty_conv)

lemma session_later: "\<forall>x \<in> set ms. fst x \<le> g \<Longrightarrow> g < h \<Longrightarrow> session_of h ms = []"
  by (auto simp: session_of_def filter_empty_conv)

section \<open>The invariant\<close>

text \<open>The session that the client is in, from its state and from what it waits for.\<close>

fun session_abs :: "cstate \<Rightarrow> bool \<Rightarrow> nat \<Rightarrow> pending list \<Rightarrow> session" where
  "session_abs st True g fl = Session_idle"
| "session_abs St_null False g fl = Session_idle"
| "session_abs St_connecting False g fl = (if fl = [P_recv g] then Session_open else Session_idle)"
| "session_abs St_connected False g fl = Session_open"
| "session_abs St_closing False g fl = Session_closed"

definition phase_ok ::
  "cstate \<Rightarrow> bool \<Rightarrow> bool \<Rightarrow> nat \<Rightarrow> (error_code \<times> cstate \<times> nat option) list \<Rightarrow> bool" where
  "phase_ok st cp cop g cs \<longleftrightarrow>
     (if cp then st = St_closing \<and> (\<exists>cause prev cb. cs = [(cause, prev, cb)] \<and> prev \<noteq> St_null \<and> (prev = St_connecting \<longleftrightarrow> cop))
      else cs = [] \<and> (cop \<longleftrightarrow> st = St_connecting))"

definition flow_ok :: "cstate \<Rightarrow> bool \<Rightarrow> nat \<Rightarrow> pending list \<Rightarrow> bool" where
  "flow_ok st cp g fl \<longleftrightarrow>
     (\<forall>x \<in> set fl. flow_gen x \<le> g)
     \<and> (st = St_connecting \<longrightarrow> (\<exists>x. flow g fl = [x])) \<and> (st = St_connected \<or> st = St_closing \<and> \<not> cp \<longrightarrow> flow g fl = [P_recv g])"

definition session_ok :: "cstate \<Rightarrow> bool \<Rightarrow> nat \<Rightarrow> pending list \<Rightarrow> (nat \<times> message) list \<Rightarrow> bool" where
  "session_ok st cp g fl ms \<longleftrightarrow>
     (\<forall>x \<in> set ms. fst x \<le> g) \<and> (\<forall>h. session_run Session_idle (session_of h ms) \<noteq> None)
     \<and> session_run Session_idle (session_of g ms) = Some (session_abs st cp g (flow g fl))"

text \<open>\<open>xs\<close> and \<open>cs\<close>: what has been taken out of \<open>c_out\<close> and is being handled.\<close>

definition phase_inv_with :: "pending list \<Rightarrow> (error_code \<times> cstate \<times> nat option) list \<Rightarrow> client \<Rightarrow> bool" where
  "phase_inv_with xs cs c \<longleftrightarrow>
     phase_ok (c_state c) (c_close_pending c) (c_connect_op c \<noteq> None) (c_generation c) (cs @ cancels (c_out c))
     \<and> flow_ok (c_state c) (c_close_pending c) (c_generation c) (xs @ filter is_flow (c_out c))
     \<and> session_ok (c_state c) (c_close_pending c) (c_generation c) (xs @ filter is_flow (c_out c)) (sents (c_log c))"

abbreviation phase_inv :: "client \<Rightarrow> bool" where
  "phase_inv \<equiv> phase_inv_with [] []"

definition phase_view :: "client \<Rightarrow> cstate \<times> bool \<times> bool \<times> nat \<times> (error_code \<times> cstate \<times> nat option) list \<times> pending list \<times> (nat \<times> message) list" where
  "phase_view c = (c_state c, c_close_pending c, c_connect_op c \<noteq> None, c_generation c, cancels (c_out c), filter is_flow (c_out c), sents (c_log c))"

definition phase_core :: "pending list \<Rightarrow> (error_code \<times> cstate \<times> nat option) list
    \<Rightarrow> cstate \<times> bool \<times> bool \<times> nat \<times> (error_code \<times> cstate \<times> nat option) list \<times> pending list \<times> (nat \<times> message) list \<Rightarrow> bool" where
  "phase_core xs cs = (\<lambda>(st, cp, cop, g, cns, fl, ms).
     phase_ok st cp cop g (cs @ cns) \<and> flow_ok st cp g (xs @ fl) \<and> session_ok st cp g (xs @ fl) ms)"

lemma phase_inv_core: "phase_inv_with xs cs c = phase_core xs cs (phase_view c)"
  by (simp add: phase_inv_with_def phase_core_def phase_view_def)

lemma phase_inv_frame: "phase_view d = phase_view c \<Longrightarrow> phase_inv_with xs cs d = phase_inv_with xs cs c"
  by (simp add: phase_view_def phase_inv_with_def)

lemma phase_inv_init: "phase_inv client_init"
  by (simp add: phase_inv_with_def client_init_def phase_ok_def flow_ok_def session_ok_def session_of_def)

text \<open>Only the entries of the current generation matter, and not their order.\<close>

lemma singleton_mid: "filter P (as @ x # bs) = [a] \<longleftrightarrow> filter P (x # as @ bs) = [a]"
  by (auto simp: append_eq_Cons_conv filter_empty_conv)

lemma session_abs_mid: "session_abs st cp g (flow g (as @ x # bs)) = session_abs st cp g (flow g (x # as @ bs))"
proof -
  have "(flow g (as @ x # bs) = [P_recv g]) = (flow g (x # as @ bs) = [P_recv g])"
    unfolding flow_def by (rule singleton_mid)
  then show ?thesis by (cases st; cases cp; simp del: flow_simps flow_append)
qed

lemma flow_ok_mid: "flow_ok st cp g (as @ x # bs) = flow_ok st cp g (x # as @ bs)"
proof -
  have "(flow g (as @ x # bs) = [y]) = (flow g (x # as @ bs) = [y])" for y
    unfolding flow_def by (rule singleton_mid)
  moreover have "set (as @ x # bs) = set (x # as @ bs)" by auto
  ultimately show ?thesis unfolding flow_ok_def by presburger
qed

lemma phase_inv_mid: "phase_inv_with (as @ x # bs) cs c = phase_inv_with (x # as @ bs) cs c"
  using flow_ok_mid [of _ _ _ as x "bs @ filter is_flow (c_out c)"] session_abs_mid [of _ _ _ as x "bs @ filter is_flow (c_out c)"]
  by (simp add: phase_inv_with_def session_ok_def)

lemma phase_inv_take_out:
  assumes "phase_inv c" and "k < length (c_out c)"
  shows "is_flow (c_out c ! k) \<Longrightarrow> phase_inv_with [c_out c ! k] [] (take_out k c)"
    and "c_out c ! k = P_queue_cancel cause prev cb \<Longrightarrow> phase_inv_with [] [(cause, prev, cb)] (take_out k c)"
    and "\<not> is_flow (c_out c ! k) \<Longrightarrow> cancels [c_out c ! k] = [] \<Longrightarrow> phase_inv (take_out k c)"
proof -
  define u v x where "u = take k (c_out c)" and "v = drop (Suc k) (c_out c)" and "x = c_out c ! k"
  have eq: "c_out c = u @ [x] @ v" using out_split [OF assms(2)] by (simp add: u_def v_def x_def)
  have out: "c_out (take_out k c) = u @ v" by (simp add: take_out_def u_def v_def)
  have fields: "phase_inv_with xs cs (take_out k c) \<longleftrightarrow>
     phase_ok (c_state c) (c_close_pending c) (c_connect_op c \<noteq> None) (c_generation c) (cs @ cancels (u @ v))
     \<and> flow_ok (c_state c) (c_close_pending c) (c_generation c) (xs @ filter is_flow (u @ v))
     \<and> session_ok (c_state c) (c_close_pending c) (c_generation c) (xs @ filter is_flow (u @ v)) (sents (c_log c))" for xs cs
    by (simp add: phase_inv_with_def out)
  note a = assms(1) [unfolded phase_inv_with_def eq append_Nil]
  show "phase_inv_with [c_out c ! k] [] (take_out k c)" if "is_flow (c_out c ! k)"
  proof -
    have "cancels [x] = []" using that by (cases x) (auto simp: x_def)
    then have "cancels (x # v) = cancels v" using cancels_append [of "[x]" v] by simp
    then show ?thesis
      using a that flow_ok_mid [of _ _ _ "filter is_flow u" x "filter is_flow v"] session_abs_mid [of _ _ _ "filter is_flow u" x "filter is_flow v"]
      unfolding fields by (simp add: session_ok_def x_def [symmetric])
  qed
  show "phase_inv_with [] [(cause, prev, cb)] (take_out k c)" if "c_out c ! k = P_queue_cancel cause prev cb"
    using a that unfolding fields by (auto simp: x_def [symmetric] phase_ok_def append_eq_Cons_conv split: if_splits)
  show "phase_inv (take_out k c)" if "\<not> is_flow (c_out c ! k)" "cancels [c_out c ! k] = []"
  proof -
    have "cancels (x # v) = cancels v" using cancels_append [of "[x]" v] that by (simp add: x_def)
    then show ?thesis using a that unfolding fields by (simp add: x_def [symmetric])
  qed
qed

text \<open>An entry of an earlier generation, or of a connection that is being ended, may be forgotten.\<close>

lemma phase_inv_drop:
  assumes "phase_inv_with (x # xs) cs c" and "flow_gen x \<noteq> c_generation c \<or> c_close_pending c \<or> c_state c = St_null"
  shows "phase_inv_with xs cs c"
proof (cases "flow_gen x = c_generation c")
  case False
  with assms(1) show ?thesis by (simp add: phase_inv_with_def flow_ok_def session_ok_def)
next
  case True
  with assms have "c_close_pending c \<or> c_state c = St_null" by simp
  moreover have "session_abs (c_state c) (c_close_pending c) g fl = Session_idle" if "c_close_pending c \<or> c_state c = St_null" for g fl
    using that by (cases "c_state c"; cases "c_close_pending c"; simp)
  ultimately show ?thesis using assms(1) True
    by (auto simp: phase_inv_with_def flow_ok_def session_ok_def phase_ok_def)
qed

section \<open>Handlers that keep the phase\<close>

lemma phase_view_updates [simp]:
  "phase_view (c\<lparr>c_client_details := cd\<rparr>) = phase_view c" "phase_view (c\<lparr>c_buffer := b\<rparr>) = phase_view c"
  "phase_view (c\<lparr>c_error_code := ec\<rparr>) = phase_view c" "phase_view (c\<lparr>c_timers := ts\<rparr>) = phase_view c"
  "phase_view (c\<lparr>c_status := st\<rparr>) = phase_view c" "phase_view (c\<lparr>c_control_callbacks := cb\<rparr>) = phase_view c"
  "phase_view (c\<lparr>c_is_state_non_null := x\<rparr>) = phase_view c" "phase_view (c\<lparr>c_server_address := a\<rparr>) = phase_view c"
  "phase_view (c\<lparr>c_create_tunnel_ops := ops\<rparr>) = phase_view c" "phase_view (c\<lparr>c_tunnels := tns\<rparr>) = phase_view c"
  "phase_view (c\<lparr>c_connects := cs\<rparr>) = phase_view c" "phase_view (c\<lparr>c_creates := rs\<rparr>) = phase_view c"
  "phase_view (c\<lparr>c_accepts := os\<rparr>) = phase_view c"
  by (simp_all add: phase_view_def)

lemma phase_view_primitives [simp]:
  "sents [a] = [] \<Longrightarrow> phase_view (act a c) = phase_view c"
  "\<not> is_flow x \<Longrightarrow> cancels [x] = [] \<Longrightarrow> phase_view (start x c) = phase_view c"
  "phase_view (fault c) = phase_view c" "phase_view (upd_connect i f c) = phase_view c"
  "phase_view (upd_create i fc c) = phase_view c" "phase_view (upd_accept i fa c) = phase_view c"
  "phase_view (put_tunnel t tn c) = phase_view c" "phase_view (timer_clean tm c) = phase_view c"
  by (simp_all add: phase_view_def act_def start_def fault_def upd_connect_def upd_create_def upd_accept_def put_tunnel_def
      timer_clean_def)

lemma phase_view_quiet [simp]:
  "phase_view (arm_state_timer n c) = phase_view c" "phase_view (complete_create_tunnel i ec tun c) = phase_view c"
  "phase_view (complete_accept_tunnel i ec c) = phase_view c" "phase_view (do_send_heartbeat p c) = phase_view c"
  "phase_view (release_connect_reservation i c) = phase_view c" "phase_view (accept_stream t tn i s sc c) = phase_view c"
  "phase_view (cancel_create_tunnel i c) = phase_view c" "phase_view (cancel_accept_tunnel t i c) = phase_view c"
  by (simp_all add: arm_state_timer_def complete_create_tunnel_def complete_accept_tunnel_def do_send_heartbeat_def
      release_connect_reservation_def accept_stream_def cancel_create_tunnel_def cancel_accept_tunnel_def Let_def split: option.splits)

lemma phase_view_close_streams [simp]: "phase_view (close_streams t ss c) = phase_view c"
  by (induction t ss c rule: close_streams.induct) simp_all

lemma phase_view_on_tunnel_close [simp]: "phase_view (on_tunnel_close t c) = phase_view c"
  by (simp add: on_tunnel_close_def Let_def split: option.splits)

lemma phase_view_close_tunnels [simp]: "phase_view (close_tunnels ts c) = phase_view c"
  by (induction ts c rule: close_tunnels.induct) simp_all

lemma phase_view_fail_creates: "ec_failed ec \<Longrightarrow> phase_view (fail_creates p ec rs c) = phase_view c"
  by (induction p ec rs c rule: fail_creates.induct) (simp_all add: on_tunnel_response_def Let_def split: option.splits)

section \<open>Closing\<close>

lemma on_close_phase:
  assumes "phase_inv_with xs cs c"
  shows "phase_inv_with xs cs (on_close ec c)"
proof (cases "c_state c = St_null \<or> c_close_pending c")
  case True
  with assms show ?thesis by (simp add: on_close_def)
next
  case False
  let ?g = "c_generation c"
  from assms False have p: "cs @ cancels (c_out c) = []" "(c_connect_op c \<noteq> None) = (c_state c = St_connecting)"
    by (simp_all add: phase_inv_with_def phase_ok_def)
  from assms have fl: "\<forall>x \<in> set (xs @ filter is_flow (c_out c)). flow_gen x \<le> ?g" by (simp add: phase_inv_with_def flow_ok_def)
  from assms have ms: "\<forall>x \<in> set (sents (c_log c)). fst x \<le> ?g" "\<And>h. session_run Session_idle (session_of h (sents (c_log c))) \<noteq> None"
    by (simp_all add: phase_inv_with_def session_ok_def)
  have later: "session_of (Suc ?g) (sents (c_log c)) = []" using session_later [OF ms(1), of "Suc ?g"] by simp
  have v: "phase_view (on_close ec c) = (St_closing, True, c_connect_op c \<noteq> None, Suc ?g,
      cancels (c_out c) @ [(if ec_failed (c_error_code c) then c_error_code c else if ec_failed ec then ec else ec_ok,
        c_state c, cb_on_disconnection (c_control_callbacks c))], filter is_flow (c_out c), sents (c_log c))"
    using False by (simp add: on_close_def Let_def phase_view_def start_def act_def set_state_def)
  have f: "c_state (on_close ec c) = St_closing" "c_close_pending (on_close ec c)" "(c_connect_op (on_close ec c) \<noteq> None) = (c_connect_op c \<noteq> None)"
      "c_generation (on_close ec c) = Suc ?g" "filter is_flow (c_out (on_close ec c)) = filter is_flow (c_out c)" "sents (c_log (on_close ec c)) = sents (c_log c)"
    and cs: "\<exists>cause cb. cancels (c_out (on_close ec c)) = cancels (c_out c) @ [(cause, c_state c, cb)]"
    using v by (simp_all add: phase_view_def)
  from cs obtain cause cb where cs: "cancels (c_out (on_close ec c)) = cancels (c_out c) @ [(cause, c_state c, cb)]" by blast
  have "phase_ok St_closing True (c_connect_op c \<noteq> None) (Suc ?g) (cs @ cancels (c_out (on_close ec c)))"
    using p False cs by (simp add: phase_ok_def)
  moreover have "flow_ok St_closing True (Suc ?g) (xs @ filter is_flow (c_out c))" using fl by (simp add: flow_ok_def le_SucI)
  moreover have "session_ok St_closing True (Suc ?g) (xs @ filter is_flow (c_out c)) (sents (c_log c))"
    using ms later by (simp add: session_ok_def le_SucI)
  ultimately show ?thesis unfolding phase_inv_with_def f(1,4,5,6) f(3) using f(2) by simp
qed

lemma on_close_moves:
  "c_state c \<noteq> St_null \<Longrightarrow> \<not> c_close_pending c \<Longrightarrow> c_generation (on_close ec c) = Suc (c_generation c)"
  "c_state c \<noteq> St_null \<Longrightarrow> c_close_pending (on_close ec c)"
  by (simp_all add: on_close_def Let_def start_def act_def set_state_def)

lemma on_error_phase: "phase_inv_with xs cs c \<Longrightarrow> phase_inv_with xs cs (on_error ec c)"
  by (simp add: on_error_def on_close_phase)

text \<open>After an error the entry being handled is history.\<close>

lemma on_error_drop:
  assumes "phase_inv_with (x # xs) cs c" and "ec_failed ec"
  shows "phase_inv_with xs cs (on_error ec c)"
proof (rule phase_inv_drop [OF on_error_phase [OF assms(1)]])
  show "flow_gen x \<noteq> c_generation (on_error ec c) \<or> c_close_pending (on_error ec c) \<or> c_state (on_error ec c) = St_null"
    using on_close_moves(2) [of c ec] assms(2) by (cases "c_state c = St_null") (auto simp: on_error_def on_close_def)
qed

section \<open>Sending\<close>

lemma session_ok_send:
  assumes "session_ok st cp g fl ms" and "session_step (session_abs st cp g (flow g fl)) m = Some (session_abs st' cp' g (flow g fl'))"
  shows "session_ok st' cp' g fl' (ms @ [(g, m)])"
proof -
  have run: "session_run Session_idle (session_of g ms) = Some (session_abs st cp g (flow g fl))" using assms(1) by (simp add: session_ok_def)
  have "session_run Session_idle (session_of h (ms @ [(g, m)])) \<noteq> None" for h
    using assms run by (cases "h = g") (simp_all add: session_ok_def session_run_append)
  with assms run show ?thesis by (auto simp: session_ok_def session_run_append)
qed

lemma do_send_message_phase:
  assumes "phase_inv_with xs cs c" and "c_state c = St_connected" and "session_message m"
  shows "phase_inv_with xs cs (do_send_message p m hb c)"
proof (cases "serializable p m")
  case False
  with assms show ?thesis by (simp add: do_send_message_def on_error_phase)
next
  case True
  let ?d = "do_send_message p m hb c"
  have f: "c_state ?d = c_state c" "c_close_pending ?d = c_close_pending c" "c_connect_op ?d = c_connect_op c" "c_generation ?d = c_generation c"
      "cancels (c_out ?d) = cancels (c_out c)" "filter is_flow (c_out ?d) = filter is_flow (c_out c)"
      "sents (c_log ?d) = sents (c_log c) @ [(c_generation c, m)]"
    using True assms(2) by (simp_all add: do_send_message_def start_def act_def)
  have cp: "\<not> c_close_pending c" using assms(1,2) by (auto simp: phase_inv_with_def phase_ok_def)
  from assms(1) have s: "session_ok (c_state c) False (c_generation c) (xs @ filter is_flow (c_out c)) (sents (c_log c))"
    using cp by (simp add: phase_inv_with_def)
  have "session_ok (c_state c) False (c_generation c) (xs @ filter is_flow (c_out c)) (sents (c_log c) @ [(c_generation c, m)])"
    by (rule session_ok_send [OF s]) (simp add: assms(2) session_step_open [OF assms(3)])
  with assms(1) cp show ?thesis by (simp add: phase_inv_with_def f)
qed

lemma close_internal_phase:
  assumes "phase_inv_with xs cs c"
  shows "phase_inv_with xs cs (close_internal p ec c)"
proof (cases "c_state c = St_connected")
  case False
  with assms on_close_phase [OF assms] show ?thesis by (simp add: close_internal_def Let_def) (meson cstate.exhaust)
next
  case True
  let ?m = Close_control_channel_req
  define c2 where "c2 = (let c1 = arm_state_timer (cfg_connection_timeout_ms (cp_config p)) (set_state St_closing c) in
      if ec_failed ec \<and> \<not> ec_failed (c_error_code c1) then c1\<lparr>c_error_code := ec\<rparr> else c1)"
  have eq: "close_internal p ec c = do_send_message p ?m False c2" using True by (simp add: close_internal_def c2_def Let_def)
  have v: "phase_view c2 = phase_view (set_state St_closing c)" by (simp add: c2_def Let_def)
  have f: "c_state c2 = St_closing" "c_close_pending c2 = c_close_pending c" "(c_connect_op c2 \<noteq> None) = (c_connect_op c \<noteq> None)"
      "c_generation c2 = c_generation c" "cancels (c_out c2) = cancels (c_out c)" "filter is_flow (c_out c2) = filter is_flow (c_out c)"
      "sents (c_log c2) = sents (c_log c)"
    using v by (simp_all add: phase_view_def set_state_def)
  have cp: "\<not> c_close_pending c" and cop: "c_connect_op c = None" and cs: "cs @ cancels (c_out c) = []"
    using assms True by (auto simp: phase_inv_with_def phase_ok_def split: if_splits)
  from assms have s: "session_ok St_connected False (c_generation c) (xs @ filter is_flow (c_out c)) (sents (c_log c))"
    and fl: "flow_ok St_connected False (c_generation c) (xs @ filter is_flow (c_out c))"
    using cp True by (simp_all add: phase_inv_with_def)
  show ?thesis
  proof (cases "serializable p ?m")
    case True
    let ?d = "do_send_message p ?m False c2"
    have d: "c_state ?d = St_closing" "c_close_pending ?d = c_close_pending c" "(c_connect_op ?d \<noteq> None) = (c_connect_op c \<noteq> None)"
        "c_generation ?d = c_generation c" "cancels (c_out ?d) = cancels (c_out c)" "filter is_flow (c_out ?d) = filter is_flow (c_out c)"
        "sents (c_log ?d) = sents (c_log c) @ [(c_generation c, ?m)]"
      using True f by (simp_all add: do_send_message_def start_def act_def)
    have "session_ok St_closing False (c_generation c) (xs @ filter is_flow (c_out c)) (sents (c_log c) @ [(c_generation c, ?m)])"
      by (rule session_ok_send [OF s]) simp
    moreover have "flow_ok St_closing False (c_generation c) (xs @ filter is_flow (c_out c))" using fl by (simp add: flow_ok_def)
    ultimately show ?thesis unfolding eq phase_inv_with_def d(1,4,5,6,7) d(3) using d(2) cp cop cs by (simp add: phase_ok_def)
  next
    case False
    let ?e = "rstrm_ec Protocol_error"
    have "ec_failed ?e" by (simp add: rstrm_ec_def)
    then have eq2: "close_internal p ec c = on_close ?e c2" using False f by (simp add: eq do_send_message_def on_error_def)
    \<comment> \<open>the state between the change to closing and the end is that of a close from the connected state\<close>
    define d where "d = c2\<lparr>c_state := St_connected\<rparr>"
    have "phase_inv_with xs cs d"
      using s fl cop cs cp f by (simp add: phase_inv_with_def d_def phase_ok_def)
    then have "phase_inv_with xs cs (on_close ?e d)" by (rule on_close_phase)
    moreover have "phase_view (on_close ?e c2) = (case phase_view (on_close ?e d) of (st, cp, cop, g, cns, fl, ms) \<Rightarrow>
        (st, cp, cop, g, cancels (c_out c2) @ [(if ec_failed (c_error_code c2) then c_error_code c2 else ?e, St_closing,
          cb_on_disconnection (c_control_callbacks c2))], fl, ms))"
      using f cp \<open>ec_failed ?e\<close> by (simp add: d_def on_close_def Let_def phase_view_def start_def act_def set_state_def)
    moreover have "phase_view (on_close ?e d) = (St_closing, True, c_connect_op d \<noteq> None, Suc (c_generation d),
        cancels (c_out d) @ [(if ec_failed (c_error_code d) then c_error_code d else ?e, St_connected,
          cb_on_disconnection (c_control_callbacks d))], filter is_flow (c_out d), sents (c_log d))"
      using f cp \<open>ec_failed ?e\<close> by (simp add: d_def on_close_def Let_def phase_view_def start_def act_def set_state_def)
    ultimately show ?thesis using f cop cs
      by (simp add: eq2 phase_inv_with_def phase_view_def phase_ok_def d_def)
  qed
qed

end
