(* ===== verification/ClientRuns.thy ===== *)
theory ClientRuns
  imports ClientPhases
begin

text \<open>
  The remaining handlers keep the phase invariant, the timers of the heartbeat run only while the client
  is connected, and a client in the null state holds nothing. Together with the invariants of the
  operations this is the invariant of the client as a machine over its events.
\<close>

section \<open>Tunnels and streams\<close>

lemma do_create_tunnel_phase: "phase_inv_with xs cs c \<Longrightarrow> phase_inv_with xs cs (do_create_tunnel p r i c)"
  by (simp add: do_create_tunnel_def do_send_message_phase)

lemma emplace_request_phase: "phase_inv_with xs cs c \<Longrightarrow> phase_inv_with xs cs (emplace_request p ids a n i c)"
proof (induction p ids a n i c rule: emplace_request.induct)
  case (1 p ids a i c)
  then show ?case by (simp add: phase_inv_core)
next
  case (2 p ids a n i c)
  have "phase_inv_with xs cs (c\<lparr>c_create_tunnel_ops := ops\<rparr>)" for ops using 2(2) by (simp add: phase_inv_core)
  with 2 show ?case by (simp add: do_create_tunnel_phase)
qed

lemma async_create_tunnel_internal_phase:
  "phase_inv_with xs cs c \<Longrightarrow> phase_inv_with xs cs (async_create_tunnel_internal p ids i c)"
  using emplace_request_phase [of xs cs c] by (simp add: async_create_tunnel_internal_def Let_def phase_inv_core)

lemma close_tunnel_internal_phase:
  "phase_inv_with xs cs c \<Longrightarrow> phase_inv_with xs cs (close_tunnel_internal p t c)"
  using do_send_message_phase [of xs cs "put_tunnel t _ c"]
  by (simp add: close_tunnel_internal_def do_close_tunnel_def phase_inv_core split: option.splits)

lemma on_tunnel_response_phase:
  assumes "phase_inv_with xs cs c"
  shows "phase_inv_with xs cs (on_tunnel_response p r q ec c)"
proof -
  have "phase_inv_with xs cs (close_tunnel_internal p t d)" if "phase_view d = phase_view c" for t d
    using close_tunnel_internal_phase [of xs cs d] assms that by (simp add: phase_inv_core)
  then show ?thesis using assms by (simp add: on_tunnel_response_def Let_def phase_inv_core split: option.splits)
qed

lemma do_send_proxy_response_phase:
  "phase_inv_with xs cs c \<Longrightarrow> phase_inv_with xs cs (do_send_proxy_response p s ec c)"
  by (simp add: do_send_proxy_response_def do_send_message_phase)

lemma on_connect_stream_phase:
  assumes "phase_inv_with xs cs c"
  shows "phase_inv_with xs cs (on_connect_stream p g t s ec c)"
proof -
  have "phase_inv_with xs cs (do_send_proxy_response p s e d)" if "phase_view d = phase_view c" for e d
    using do_send_proxy_response_phase [of xs cs d] assms that by (simp add: phase_inv_core)
  then show ?thesis using assms by (simp add: on_connect_stream_def Let_def split: option.splits)
qed

lemma do_connect_stream_phase:
  assumes "phase_inv_with xs cs c"
  shows "phase_inv_with xs cs (do_connect_stream p se t s c)"
proof -
  have "phase_inv_with xs cs (on_connect_stream p g t s e d)" "phase_inv_with xs cs d" if "phase_view d = phase_view c" for g e d
    using on_connect_stream_phase [of xs cs d] assms that by (simp_all add: phase_inv_core)
  then show ?thesis using assms by (simp add: do_connect_stream_def Let_def split: option.splits)
qed

lemma on_proxy_request_phase:
  assumes "phase_inv_with xs cs c"
  shows "phase_inv_with xs cs (on_proxy_request p se t s x c)"
proof -
  have "phase_inv_with xs cs (do_connect_stream p se t s d)" if "phase_view d = phase_view c" for d
    using do_connect_stream_phase [of xs cs d] assms that by (simp add: phase_inv_core)
  then show ?thesis using assms by (simp add: on_proxy_request_def Let_def do_send_proxy_response_phase split: option.splits)
qed

lemma async_accept_tunnel_internal_phase:
  assumes "phase_inv_with xs cs c"
  shows "phase_inv_with xs cs (async_accept_tunnel_internal p im se t i c)"
proof -
  have "phase_inv_with xs cs (do_connect_stream p se t s d)" "phase_inv_with xs cs d" if "phase_view d = phase_view c" for d s
    using do_connect_stream_phase [of xs cs d] assms that by (simp_all add: phase_inv_core)
  then show ?thesis using assms by (simp add: async_accept_tunnel_internal_def Let_def split: option.splits prod.splits)
qed

section \<open>Connecting\<close>

lemma cancel_connect_phase:
  assumes "phase_inv_with xs cs c"
  shows "phase_inv_with xs cs (cancel_connect i c)"
proof (cases "c_connect_op c = Some i")
  case True
  with assms on_close_phase show ?thesis by (simp add: cancel_connect_def)
next
  case False
  have "c_connect_op (release_connect_reservation i c) = c_connect_op c"
    by (simp add: release_connect_reservation_def upd_connect_def)
  with False have "phase_view (complete_connect (Some i) asio_operation_aborted (release_connect_reservation i c)) = phase_view c"
    using phase_view_quiet(5) [of i c] by (simp add: complete_connect_def Let_def) (simp add: phase_view_def act_def upd_connect_def)
  with assms False show ?thesis by (simp add: cancel_connect_def phase_inv_core)
qed

lemma async_connect_internal_phase:
  assumes "phase_inv c" and "c_connect_op c \<noteq> Some i"
  shows "phase_inv (async_connect_internal p i c)"
proof -
  have rel: "phase_view (complete_connect (Some i) ec d) = phase_view c" if "phase_view d = phase_view c" "c_connect_op d = c_connect_op c" for ec d
    using that assms(2) by (simp add: complete_connect_def Let_def) (simp add: phase_view_def act_def upd_connect_def)
  have "c_connect_op (release_connect_reservation i c) = c_connect_op c"
    by (simp add: release_connect_reservation_def upd_connect_def)
  then have fails: "phase_inv (complete_connect (Some i) ec (release_connect_reservation i c))" "phase_inv (complete_connect (Some i) ec c)" for ec
    using assms(1) rel [of "release_connect_reservation i c"] rel [of c] by (simp_all add: phase_inv_core)
  have "phase_inv (do_resolve_host (arm_state_timer n (set_state St_connecting (c\<lparr>c_generation := Suc (c_generation c), c_connect_op := Some i\<rparr>))))"
    if null: "c_state c = St_null" for n
  proof -
    let ?g = "c_generation c"
    define d where "d = do_resolve_host (arm_state_timer n (set_state St_connecting (c\<lparr>c_generation := Suc ?g, c_connect_op := Some i\<rparr>)))"
    have f: "c_state d = St_connecting" "c_close_pending d = c_close_pending c" "c_connect_op d \<noteq> None" "c_generation d = Suc ?g"
        "cancels (c_out d) = cancels (c_out c)" "filter is_flow (c_out d) = filter is_flow (c_out c) @ [P_resolve (Suc ?g)]"
        "sents (c_log d) = sents (c_log c)"
      by (auto simp: d_def do_resolve_host_def arm_state_timer_def set_state_def start_def)
    from assms(1) null have p: "\<not> c_close_pending c" "cancels (c_out c) = []"
      by (auto simp: phase_inv_with_def phase_ok_def split: if_splits)
    from assms(1) have fl: "\<forall>x \<in> set (filter is_flow (c_out c)). flow_gen x \<le> ?g" and ms: "\<forall>x \<in> set (sents (c_log c)). fst x \<le> ?g"
        "\<And>h. session_run Session_idle (session_of h (sents (c_log c))) \<noteq> None"
      by (simp_all add: phase_inv_with_def flow_ok_def session_ok_def)
    have "flow (Suc ?g) (filter is_flow (c_out c)) = []" "session_of (Suc ?g) (sents (c_log c)) = []"
      using flow_later [OF fl] session_later [OF ms(1)] by simp_all
    with fl ms p f(3) show ?thesis unfolding d_def [symmetric] phase_inv_with_def f(1,2,4-7)
      by (simp add: phase_ok_def flow_ok_def session_ok_def le_SucI)
  qed
  with fails assms(1) show ?thesis by (simp add: async_connect_internal_def)
qed

lemma flow_single:
  assumes "phase_inv_with [x] cs c" and "c_state c = St_connecting" and "flow_gen x = c_generation c"
  shows "flow (c_generation c) (filter is_flow (c_out c)) = []"
  using assms by (auto simp: phase_inv_with_def flow_ok_def)

lemma stale_drop:
  "phase_inv_with [x] cs c \<Longrightarrow> flow_gen x \<noteq> c_generation c \<or> c_state c \<noteq> St_connecting \<Longrightarrow>
   \<not> (flow_gen x = c_generation c \<and> (c_state c = St_connected \<or> c_state c = St_closing \<and> \<not> c_close_pending c)) \<Longrightarrow> phase_inv_with [] cs c"
  by (rule phase_inv_drop) (auto intro: cstate.exhaust [of "c_state c"])

text \<open>A resolution or connection of the current generation belongs to a client that is connecting.\<close>

lemma flow_recv:
  assumes "phase_inv_with [x] cs c" and "flow_gen x = c_generation c" and "c_state c = St_connected \<or> c_state c = St_closing \<and> \<not> c_close_pending c"
  shows "x = P_recv (c_generation c)"
  using assms by (auto simp: phase_inv_with_def flow_ok_def)

lemma flow_replace:
  assumes "phase_inv_with [x] cs c" and "c_state c = St_connecting" and "flow_gen x = c_generation c" and "x \<noteq> P_recv (c_generation c)"
    and "flow_gen y = c_generation c" and "y \<noteq> P_recv (c_generation c)" and "is_flow y" and "cancels [y] = []"
  shows "phase_inv_with [] cs (start y c)"
proof -
  have fl: "flow (c_generation c) (filter is_flow (c_out c)) = []" by (rule flow_single [OF assms(1-3)])
  have f: "c_state (start y c) = c_state c" "c_close_pending (start y c) = c_close_pending c" "c_connect_op (start y c) = c_connect_op c"
      "c_generation (start y c) = c_generation c" "cancels (c_out (start y c)) = cancels (c_out c)"
      "filter is_flow (c_out (start y c)) = filter is_flow (c_out c) @ [y]" "c_log (start y c) = c_log c"
    using assms(7,8) by (simp_all add: start_def)
  have cp: "\<not> c_close_pending c" using assms(1,2) by (auto simp: phase_inv_with_def phase_ok_def)
  show ?thesis using assms fl cp unfolding phase_inv_with_def f by (simp add: flow_ok_def session_ok_def)
qed

lemma on_do_resolve_host_phase:
  assumes "phase_inv_with [P_resolve g] [] c"
  shows "phase_inv (on_do_resolve_host g ec em c)"
proof (cases "g = c_generation c \<and> c_state c = St_connecting")
  case False
  then have "phase_inv c" using stale_drop [OF assms] flow_recv [OF assms] by fastforce
  with False show ?thesis by (auto simp: on_do_resolve_host_def)
next
  case True
  have next_step: "phase_inv (start (P_connect (c_generation c)) c)"
    using True by (intro flow_replace [OF assms]) simp_all
  have fails: "phase_inv (on_error e c)" if "ec_failed e" for e by (rule on_error_drop [OF assms that])
  show ?thesis using True next_step fails by (simp add: on_do_resolve_host_def do_connect_def Let_def)
qed

lemma effective_client_details_error: "effective_client_details p c = Inl e \<Longrightarrow> ec_failed e"
  by (auto simp: effective_client_details_def split: if_splits)

text \<open>\<open>do_open\<close> either ends the connection with an error or sends the request to open the channel.\<close>

definition open_fails :: "client_params \<Rightarrow> bool \<Rightarrow> client \<Rightarrow> bool" where
  "open_fails p sec c =
     (case effective_client_details p c of
        Inl e \<Rightarrow> True
      | Inr details \<Rightarrow>
          let d = convert_client_details_to empty_proto_client_details details
          in pcd_token d \<noteq> None \<and> \<not> sec \<or> \<not> serializable p (Open_control_channel_req d None))"

lemma do_open_fails:
  assumes "c_state c \<noteq> St_null" and "open_fails p sec c"
  shows "\<exists>ec x. ec_failed ec \<and> do_open p sec c = on_error ec (c\<lparr>c_client_details := x\<rparr>)"
proof (cases "effective_client_details p c")
  case (Inl e)
  then have "do_open p sec c = on_error e (c\<lparr>c_client_details := c_client_details c\<rparr>)" by (simp add: do_open_def)
  with effective_client_details_error [OF Inl] show ?thesis by blast
next
  case (Inr details)
  have "ec_failed (rstrm_ec Protocol_error)" by (simp add: rstrm_ec_def)
  moreover have "do_open p sec c = on_error (rstrm_ec Protocol_error) (c\<lparr>c_client_details := Some details\<rparr>)"
    using Inr assms by (auto simp: do_open_def open_fails_def Let_def do_send_message_def)
  ultimately show ?thesis by blast
qed

lemma do_open_sends:
  assumes "c_state c \<noteq> St_null" and "\<not> open_fails p sec c"
  shows "\<exists>d x. (pcd_token d \<noteq> None \<longrightarrow> sec) \<and> do_open p sec c =
    start (P_send (c_generation c) False) (act (Sent (c_generation c) (Open_control_channel_req d None)) (c\<lparr>c_client_details := x\<rparr>))"
proof (cases "effective_client_details p c")
  case (Inl e)
  with assms(2) show ?thesis by (simp add: open_fails_def)
next
  case (Inr details)
  define d where "d = convert_client_details_to empty_proto_client_details details"
  have ok: "pcd_token d \<noteq> None \<longrightarrow> sec" "serializable p (Open_control_channel_req d None)"
    using assms(2) Inr by (auto simp: open_fails_def d_def Let_def)
  then have "do_open p sec c = start (P_send (c_generation c) False)
      (act (Sent (c_generation c) (Open_control_channel_req d None)) (c\<lparr>c_client_details := Some details\<rparr>))"
    using assms(1) Inr by (auto simp: do_open_def d_def [symmetric] do_send_message_def)
  with ok(1) show ?thesis by blast
qed

lemma on_connect_phase:
  assumes "phase_inv_with [P_connect g] [] c"
  shows "phase_inv (on_connect p g ec sec c)"
proof (cases "g = c_generation c \<and> c_state c = St_connecting")
  case False
  then have "phase_inv c" using stale_drop [OF assms] flow_recv [OF assms] by fastforce
  with False show ?thesis by (auto simp: on_connect_def)
next
  case True
  then have g: "g = c_generation c" and st: "c_state c = St_connecting" by simp_all
  have cp: "\<not> c_close_pending c" using assms st by (auto simp: phase_inv_with_def phase_ok_def)
  have fails: "phase_inv (on_error e c)" if "ec_failed e" for e by (rule on_error_drop [OF assms that])
  have read: "phase_inv (do_read p d)" if "phase_inv d" "c_close_pending d \<or> c_state d = St_null" for d
  proof -
    have "phase_view (do_read p d) = (if c_state d = St_null then phase_view d else
        (case phase_view d of (a, b, e, h, cns, fl, ms) \<Rightarrow> (a, b, e, h, cns, fl @ [P_recv h], ms)))"
      by (simp add: do_read_def do_read_incoming_message_def start_def phase_view_def)
    moreover have "session_abs (c_state d) (c_close_pending d) h fl = Session_idle" for h fl
      using that(2) by (cases "c_state d"; cases "c_close_pending d"; simp)
    ultimately show ?thesis using that
      by (auto simp: phase_inv_core phase_core_def phase_view_def flow_ok_def session_ok_def phase_ok_def)
  qed
  show ?thesis
  proof (cases "ec_failed ec \<or> open_fails p sec c")
    case True
    have "phase_inv (do_read p (do_open p sec c))" if f: "open_fails p sec c"
    proof -
      obtain e x where e: "ec_failed e" "do_open p sec c = on_error e (c\<lparr>c_client_details := x\<rparr>)"
        using do_open_fails [of c p sec] f st by auto
      have "phase_inv_with [P_connect g] [] (c\<lparr>c_client_details := x\<rparr>)" using assms by (simp add: phase_inv_core)
      from on_error_drop [OF this e(1)] have "phase_inv (do_open p sec c)" by (simp add: e(2))
      moreover have "c_close_pending (do_open p sec c)" using e st on_close_moves(2) [of "c\<lparr>c_client_details := x\<rparr>" e] by (simp add: on_error_def)
      ultimately show ?thesis by (intro read) simp_all
    qed
    with True fails g st show ?thesis by (auto simp: on_connect_def)
  next
    case False
    then obtain d x where d: "do_open p sec c =
        start (P_send (c_generation c) False) (act (Sent (c_generation c) (Open_control_channel_req d None)) (c\<lparr>c_client_details := x\<rparr>))"
      using do_open_sends [of c p sec] st by auto
    let ?e = "do_read p (do_open p sec c)"
    have v: "phase_view ?e = (St_connecting, False, c_connect_op c \<noteq> None, c_generation c, cancels (c_out c),
        filter is_flow (c_out c) @ [P_recv (c_generation c)], sents (c_log c) @ [(c_generation c, Open_control_channel_req d None)])"
      using st cp by (simp add: d do_read_def do_read_incoming_message_def start_def act_def phase_view_def)
    have fl: "flow (c_generation c) (filter is_flow (c_out c)) = []" by (rule flow_single [OF assms st]) (simp add: g)
    from assms have s: "session_ok St_connecting False (c_generation c) ([P_connect g] @ filter is_flow (c_out c)) (sents (c_log c))"
      and ok: "flow_ok St_connecting False (c_generation c) ([P_connect g] @ filter is_flow (c_out c))"
      and ph: "phase_ok St_connecting False (c_connect_op c \<noteq> None) (c_generation c) (cancels (c_out c))"
      using st cp by (simp_all add: phase_inv_with_def)
    have "session_ok St_connecting False (c_generation c) (filter is_flow (c_out c) @ [P_recv (c_generation c)])
        (sents (c_log c) @ [(c_generation c, Open_control_channel_req d None)])"
      by (rule session_ok_send [OF s]) (simp add: g fl)
    moreover have "flow_ok St_connecting False (c_generation c) (filter is_flow (c_out c) @ [P_recv (c_generation c)])"
      using ok fl by (simp add: flow_ok_def)
    ultimately have "phase_inv ?e" using ph unfolding phase_inv_core v phase_core_def by simp
    with False g st show ?thesis by (simp add: on_connect_def)
  qed
qed

section \<open>Messages\<close>

lemma on_open_phase:
  assumes "phase_inv_with [P_recv g] cs c" and "g = c_generation c" and "connect_inv c"
  shows "phase_inv_with [P_recv g] cs (on_open p c)"
proof (cases "c_state c = St_connecting")
  case False
  with assms(1) show ?thesis by (simp add: on_open_def)
next
  case st: True
  have cp: "\<not> c_close_pending c" using assms(1) st by (auto simp: phase_inv_with_def phase_ok_def)
  have cop: "c_connect_op c \<noteq> None" and cns: "cs @ cancels (c_out c) = []"
    using assms(1) st cp by (auto simp: phase_inv_with_def phase_ok_def)
  then obtain i where i: "c_connect_op c = Some i" by blast
  have nc: "\<not> co_completed (c_connects c ! i)" using connect_invD(3) [OF assms(3) i] by simp
  have fl: "flow (c_generation c) (filter is_flow (c_out c)) = []" by (rule flow_single [OF assms(1) st]) (simp add: assms(2))
  let ?d = "complete_connect (c_connect_op (set_state St_connected c)) ec_ok (set_state St_connected c)"
  have d: "phase_view ?d = (St_connected, False, False, c_generation c, cancels (c_out c), filter is_flow (c_out c), sents (c_log c))"
    using i nc cp by (simp add: complete_connect_def Let_def set_state_def act_def upd_connect_def phase_view_def)
  have eq: "phase_view (on_open p c) = phase_view ?d"
    using st by (simp add: on_open_def Let_def send_heartbeat_def split: option.splits)
  from assms(1,2) st cp fl cns show ?thesis
    unfolding phase_inv_core eq d by (simp add: phase_core_def phase_view_def phase_ok_def flow_ok_def session_ok_def)
qed

text \<open>Whatever a message makes the client do, the phase invariant holds with the read being handled.\<close>

lemma handle_message_phase:
  assumes "phase_inv_with [P_recv (c_generation c)] [] c" and "connect_inv c"
  shows "phase_inv_with [P_recv (c_generation c)] [] (snd (handle_message p se msg c))"
proof -
  let ?xs = "[P_recv (c_generation c)]"
  have opened: "phase_inv_with ?xs [] (on_open p d)" if "phase_view d = phase_view c" "connect_view d = connect_view c" for d
  proof (rule on_open_phase)
    show "phase_inv_with ?xs [] d" using assms(1) that(1) by (simp add: phase_inv_core)
    show "c_generation c = c_generation d" using that(1) by (simp add: phase_view_def)
    show "connect_inv d" using assms(2) that(2) by (simp add: connect_inv_def)
  qed
  have flt: "phase_inv_with ?xs [] (fault c)" using assms(1) by (simp add: phase_inv_core)
  have tunnel: "phase_inv_with ?xs [] (snd (open_tunnel_rsp p r rsp c))" for r rsp
    using assms(1) flt by (simp add: open_tunnel_rsp_def on_tunnel_response_phase split: tunnel_rsp.splits option.splits)
  have proxy: "phase_inv_with ?xs [] (snd (proxy_conn_request p se r c))" for r
    using assms(1) by (auto simp: proxy_conn_request_def do_send_proxy_response_phase on_proxy_request_phase split: sum.splits)
  have closed: "phase_inv_with ?xs [] (snd (close_tunnel_rsp t c))" for t
    using assms(1) by (simp add: close_tunnel_rsp_def phase_inv_core)
  have chan: "phase_inv_with ?xs [] (snd (open_control_channel_rsp p rsp c))" for rsp
    using assms(1) opened by (auto simp: open_control_channel_rsp_def split: open_rsp.splits option.splits)
  show ?thesis
    using assms(1) tunnel proxy closed chan on_close_phase [OF assms(1)] by (simp add: handle_message_def split: message.splits)
qed

lemma phase_inv_read:
  assumes "phase_inv_with [P_recv g] [] c" and "g = c_generation c"
  shows "phase_inv (do_read_incoming_message c)"
proof (cases "c_state c = St_null")
  case True
  with phase_inv_drop [OF assms(1)] show ?thesis by (simp add: do_read_incoming_message_def)
next
  case False
  let ?fl = "filter is_flow (c_out c)"
  have v: "phase_view (do_read_incoming_message c) = (c_state c, c_close_pending c, c_connect_op c \<noteq> None, c_generation c, cancels (c_out c),
      ?fl @ [P_recv g], sents (c_log c))"
    using False assms(2) by (simp add: do_read_incoming_message_def start_def phase_view_def)
  have "flow_ok st cp h (?fl @ [P_recv g]) = flow_ok st cp h ([P_recv g] @ ?fl)" for st cp h
    using flow_ok_mid [of st cp h ?fl "P_recv g" "[]"] by simp
  moreover have "session_ok st cp h (?fl @ [P_recv g]) ms = session_ok st cp h ([P_recv g] @ ?fl) ms" for st cp h ms
    using session_abs_mid [of st cp h ?fl "P_recv g" "[]"] by (simp add: session_ok_def del: flow_simps flow_append)
  ultimately show ?thesis using assms(1) unfolding phase_inv_core v by (simp add: phase_core_def phase_view_def)
qed

lemma on_read_incoming_message_phase:
  assumes "phase_inv_with [P_recv g] [] c" and "connect_inv c" and "g = c_generation c" and "c_state c \<noteq> St_null"
  shows "phase_inv (on_read_incoming_message p se g msg c)"
proof -
  obtain ex where ex: "is_message_expected (c_state c) msg = Some ex" using assms(4) by (cases "c_state c") auto
  define r where "r = (if ex then handle_message p se msg c else (rstrm_ec Protocol_error, c))"
  have inv: "phase_inv_with [P_recv g] [] (snd r)" using assms handle_message_phase [of c] by (simp add: r_def)
  have "phase_inv (if g \<noteq> c_generation (snd r) then snd r else if ec_failed (fst r) then on_error (fst r) (snd r)
      else do_read_incoming_message (snd r))"
    using phase_inv_drop [OF inv] on_error_drop [OF inv] phase_inv_read [OF inv] by simp
  then show ?thesis using assms(3,4) ex by (simp add: on_read_incoming_message_def r_def [symmetric] case_prod_beta)
qed

lemma on_read_incoming_data_phase:
  assumes "phase_inv_with [P_recv g] [] c" and "connect_inv c"
  shows "phase_inv (on_read_incoming_data p se g ec bs c)"
proof (cases "g \<noteq> c_generation c \<or> c_state c = St_null")
  case True
  with phase_inv_drop [OF assms(1)] show ?thesis by (auto simp: on_read_incoming_data_def)
next
  case False
  have fails: "phase_inv (on_error e c)" if "ec_failed e" for e by (rule on_error_drop [OF assms(1) that])
  have "phase_inv (on_read_incoming_message p se g msg c)" for msg
    using False by (intro on_read_incoming_message_phase assms) auto
  with False fails show ?thesis by (simp add: on_read_incoming_data_def rstrm_ec_def split: option.splits)
qed

section \<open>The end of a connection\<close>

lemma failed_final: "ec_failed (if ec_failed e then e else rstrm_ec Operation_aborted)"
  by (simp add: rstrm_ec_def)

lemma on_queue_cancelled_phase:
  assumes "phase_inv_with [] [(cause, prev, cb)] c"
  shows "phase_inv (on_queue_cancelled p ec cause prev cb c)"
proof -
  have cp: "c_close_pending c" and cns: "cancels (c_out c) = []" and state: "c_state c = St_closing"
    using assms by (auto simp: phase_inv_with_def phase_ok_def split: if_splits)
  define close_cause where "close_cause = (if \<not> ec_failed cause \<and> ec_failed ec then ec else cause)"
  define final where "final = (if ec_failed close_cause then close_cause else rstrm_ec Operation_aborted)"
  have fin: "ec_failed final" unfolding final_def by (rule failed_final)
  define c3 where "c3 = (set_state St_null ((act Socket_close c)\<lparr>c_buffer := [], c_error_code := ec_ok, c_client_details := None,
      c_status := empty_status\<rparr>))\<lparr>c_close_pending := False, c_is_state_non_null := False, c_server_address := empty_address,
      c_control_callbacks := \<lparr>cb_on_disconnection = None, cb_on_status = None\<rparr>\<rparr>"
  define c5 where "c5 = (let c4 = fail_creates p final (map fst (c_create_tunnel_ops c3)) c3 in close_tunnels (map fst (c_tunnels c4)) c4)"
  have v5: "phase_view c5 = phase_view c3" by (simp add: c5_def Let_def phase_view_fail_creates [OF fin])
  have v3: "phase_view c3 = (St_null, False, c_connect_op c \<noteq> None, c_generation c, [], filter is_flow (c_out c), sents (c_log c))"
    using cns by (simp add: c3_def phase_view_def set_state_def act_def)
  define c7 where "c7 = (if prev = St_connecting then complete_connect (c_connect_op c5) final c5 else c5)\<lparr>c_connect_op := None\<rparr>"
  have "phase_view (on_queue_cancelled p ec cause prev cb c) = phase_view c7"
    using cp by (simp add: on_queue_cancelled_def c7_def c5_def c3_def final_def close_cause_def Let_def split: option.splits)
  also have "phase_view c7 = (St_null, False, False, c_generation c, [], filter is_flow (c_out c), sents (c_log c))"
    using v5 v3 by (simp add: c7_def complete_connect_def Let_def act_def upd_connect_def phase_view_def split: option.splits)
  finally have v: "phase_view (on_queue_cancelled p ec cause prev cb c) =
    (St_null, False, False, c_generation c, [], filter is_flow (c_out c), sents (c_log c))" .
  from assms cp state show ?thesis
    unfolding phase_inv_core v by (simp add: phase_core_def phase_view_def phase_ok_def flow_ok_def session_ok_def)
qed

section \<open>Timers\<close>

fun timer_ids :: "pending list \<Rightarrow> (bool \<times> nat) list" where
  "timer_ids [] = []"
| "timer_ids (P_state_timer t g # xs) = (False, t) # timer_ids xs"
| "timer_ids (P_heartbeat_timer t g # xs) = (True, t) # timer_ids xs"
| "timer_ids (x # xs) = timer_ids xs"

lemma timer_ids_append [simp]: "timer_ids (xs @ ys) = timer_ids xs @ timer_ids ys"
  by (induction xs rule: timer_ids.induct) auto

text \<open>A timer that waits exists; a heartbeat timer that is not complete belongs to a connected client.\<close>

definition timer_inv :: "client \<Rightarrow> bool" where
  "timer_inv c \<longleftrightarrow>
     (\<forall>x \<in> set (timer_ids (c_out c)). snd x < length (c_timers c) \<and> (fst x \<longrightarrow> \<not> c_timers c ! snd x \<longrightarrow> c_state c = St_connected))"

lemma timer_inv_init: "timer_inv client_init"
  by (simp add: timer_inv_def client_init_def)

lemma timer_inv_take_out:
  assumes "timer_inv c" and "k < length (c_out c)"
  shows "timer_inv (take_out k c)"
    and "c_out c ! k = P_heartbeat_timer t g \<Longrightarrow> t < length (c_timers c) \<and> (\<not> c_timers c ! t \<longrightarrow> c_state c = St_connected)"
    and "c_out c ! k = P_state_timer t g \<Longrightarrow> t < length (c_timers c)"
proof -
  define u v x where "u = take k (c_out c)" and "v = drop (Suc k) (c_out c)" and "x = c_out c ! k"
  have eq: "c_out c = u @ [x] @ v" using out_split [OF assms(2)] by (simp add: u_def v_def x_def)
  have out: "c_out (take_out k c) = u @ v" by (simp add: take_out_def u_def v_def)
  have ids: "set (timer_ids [x]) \<subseteq> set (timer_ids (c_out c))" unfolding eq timer_ids_append by auto
  have "set (timer_ids (u @ v)) \<subseteq> set (timer_ids (u @ [x] @ v))" unfolding timer_ids_append by auto
  then show "timer_inv (take_out k c)" using assms(1) unfolding timer_inv_def out take_out_fields eq by blast
  show "c_out c ! k = P_heartbeat_timer t g \<Longrightarrow> t < length (c_timers c) \<and> (\<not> c_timers c ! t \<longrightarrow> c_state c = St_connected)"
    "c_out c ! k = P_state_timer t g \<Longrightarrow> t < length (c_timers c)"
    using ids assms(1) unfolding timer_inv_def x_def [symmetric] by auto
qed

lemma timer_inv_updates [simp]:
  "timer_inv (c\<lparr>c_client_details := cd\<rparr>) = timer_inv c" "timer_inv (c\<lparr>c_buffer := b\<rparr>) = timer_inv c"
  "timer_inv (c\<lparr>c_error_code := ec\<rparr>) = timer_inv c" "timer_inv (c\<lparr>c_status := st\<rparr>) = timer_inv c"
  "timer_inv (c\<lparr>c_control_callbacks := cb\<rparr>) = timer_inv c" "timer_inv (c\<lparr>c_is_state_non_null := x\<rparr>) = timer_inv c"
  "timer_inv (c\<lparr>c_server_address := a\<rparr>) = timer_inv c" "timer_inv (c\<lparr>c_create_tunnel_ops := ops\<rparr>) = timer_inv c"
  "timer_inv (c\<lparr>c_tunnels := tns\<rparr>) = timer_inv c" "timer_inv (c\<lparr>c_connects := cs\<rparr>) = timer_inv c"
  "timer_inv (c\<lparr>c_creates := rs\<rparr>) = timer_inv c" "timer_inv (c\<lparr>c_accepts := os\<rparr>) = timer_inv c"
  "timer_inv (c\<lparr>c_close_pending := x\<rparr>) = timer_inv c" "timer_inv (c\<lparr>c_generation := g\<rparr>) = timer_inv c"
  "timer_inv (c\<lparr>c_connect_op := i\<rparr>) = timer_inv c"
  by (simp_all add: timer_inv_def)

lemma timer_inv_primitives [simp]:
  "timer_inv (act a c) = timer_inv c" "timer_ids [x] = [] \<Longrightarrow> timer_inv (start x c) = timer_inv c" "timer_inv (fault c) = timer_inv c"
  "timer_inv (upd_connect i f c) = timer_inv c" "timer_inv (upd_create i fc c) = timer_inv c" "timer_inv (upd_accept i fa c) = timer_inv c"
  "timer_inv (put_tunnel t tn c) = timer_inv c"
  "timer_inv c \<Longrightarrow> timer_inv (set_state s c)" "timer_inv c \<Longrightarrow> timer_inv (arm_state_timer n c)"
  by (auto simp: timer_inv_def act_def start_def fault_def upd_connect_def upd_create_def upd_accept_def put_tunnel_def
      set_state_def arm_state_timer_def nth_append split: if_splits)

lemma timer_clean_timer [simp]: "timer_inv c \<Longrightarrow> timer_inv (timer_clean tm c)"
  unfolding timer_inv_def timer_clean_def by (cases "tm < length (c_timers c)") (auto simp: nth_list_update list_update_beyond)

lemma timer_inv_completes [simp]:
  "timer_inv (complete_connect op ec c) = timer_inv c" "timer_inv (complete_create_tunnel i ec tun c) = timer_inv c"
  "timer_inv (complete_accept_tunnel i ec c) = timer_inv c" "timer_inv (release_connect_reservation i c) = timer_inv c"
  "timer_inv (accept_stream t tn i s sc c) = timer_inv c"
  by (simp_all add: complete_connect_def complete_create_tunnel_def complete_accept_tunnel_def release_connect_reservation_def
      accept_stream_def Let_def split: option.splits)

lemma timer_inv_closing [simp]:
  "timer_inv c \<Longrightarrow> timer_inv (on_close ec c)" "timer_inv c \<Longrightarrow> timer_inv (on_error ec c)"
  "timer_inv c \<Longrightarrow> timer_inv (do_send_message p m hb c)" "timer_inv c \<Longrightarrow> timer_inv (close_internal p ec c)"
  by (simp_all add: on_close_def on_error_def do_send_message_def close_internal_def Let_def)

lemma do_send_heartbeat_timer [simp]: "timer_inv c \<Longrightarrow> timer_inv (do_send_heartbeat p c)"
  by (auto simp: do_send_heartbeat_def timer_inv_def start_def nth_append)

lemma timer_inv_handlers [simp]:
  "timer_inv c \<Longrightarrow> timer_inv (on_heartbeat_timer p t g ec c)" "timer_inv c \<Longrightarrow> timer_inv (on_state_timer t g ec c)"
  "timer_inv c \<Longrightarrow> timer_inv (on_send_message p g ec hb c)" "timer_inv c \<Longrightarrow> timer_inv (cancel_connect i c)"
  "timer_inv c \<Longrightarrow> timer_inv (async_connect_internal p i c)" "timer_inv c \<Longrightarrow> timer_inv (on_do_resolve_host g ec em c)"
  "timer_inv c \<Longrightarrow> timer_inv (do_open p sec c)" "timer_inv (do_read_incoming_message c) = timer_inv c"
  "timer_inv (do_read p c) = timer_inv c" "timer_inv c \<Longrightarrow> timer_inv (on_open p c)"
  by (simp_all add: on_heartbeat_timer_def on_state_timer_def on_send_message_def cancel_connect_def async_connect_internal_def
      do_resolve_host_def on_do_resolve_host_def do_connect_def do_open_def do_read_incoming_message_def do_read_def on_open_def
      send_heartbeat_def Let_def split: sum.splits option.splits)

lemma timer_inv_on_connect [simp]: "timer_inv c \<Longrightarrow> timer_inv (on_connect p g ec sec c)"
  by (simp add: on_connect_def)

lemma timer_inv_tunnels [simp]:
  "timer_inv c \<Longrightarrow> timer_inv (do_create_tunnel p r i c)" "timer_inv c \<Longrightarrow> timer_inv (close_tunnel_internal p t c)"
  "timer_inv c \<Longrightarrow> timer_inv (do_send_proxy_response p s ec c)" "timer_inv c \<Longrightarrow> timer_inv (cancel_create_tunnel i c)"
  "timer_inv c \<Longrightarrow> timer_inv (cancel_accept_tunnel t i c)"
  by (simp_all add: do_create_tunnel_def close_tunnel_internal_def do_close_tunnel_def do_send_proxy_response_def
      cancel_create_tunnel_def cancel_accept_tunnel_def Let_def split: option.splits)

lemma timer_inv_emplace [simp]: "timer_inv c \<Longrightarrow> timer_inv (emplace_request p ids a n i c)"
  by (induction p ids a n i c rule: emplace_request.induct) simp_all

lemma timer_inv_create [simp]:
  "timer_inv c \<Longrightarrow> timer_inv (async_create_tunnel_internal p ids i c)" "timer_inv c \<Longrightarrow> timer_inv (on_tunnel_response p r q ec c)"
  by (simp_all add: async_create_tunnel_internal_def on_tunnel_response_def Let_def split: option.splits)

lemma timer_inv_close_streams [simp]: "timer_inv (close_streams t ss c) = timer_inv c"
  by (induction t ss c rule: close_streams.induct) simp_all

lemma timer_inv_streams [simp]:
  "timer_inv (on_tunnel_close t c) = timer_inv c" "timer_inv c \<Longrightarrow> timer_inv (on_connect_stream p g t s ec c)"
  by (simp_all add: on_tunnel_close_def on_connect_stream_def Let_def split: option.splits)

lemma timer_inv_connect_stream [simp]: "timer_inv c \<Longrightarrow> timer_inv (do_connect_stream p se t s c)"
  by (simp add: do_connect_stream_def Let_def split: option.splits)

lemma timer_inv_accept [simp]:
  "timer_inv c \<Longrightarrow> timer_inv (on_proxy_request p se t s x c)" "timer_inv c \<Longrightarrow> timer_inv (async_accept_tunnel_internal p im se t i c)"
  by (simp_all add: on_proxy_request_def async_accept_tunnel_internal_def Let_def split: option.splits prod.splits)

lemma timer_inv_messages [simp]:
  "timer_inv c \<Longrightarrow> timer_inv (snd (handle_message p se msg c))"
  by (simp add: handle_message_def open_control_channel_rsp_def open_tunnel_rsp_def close_tunnel_rsp_def proxy_conn_request_def
      split: message.splits open_rsp.splits tunnel_rsp.splits option.splits sum.splits)

lemma timer_inv_read [simp]:
  "timer_inv c \<Longrightarrow> timer_inv (on_read_incoming_message p se g msg c)" "timer_inv c \<Longrightarrow> timer_inv (on_read_incoming_data p se g ec bs c)"
  using timer_inv_messages [of c p se]
  by (simp_all add: on_read_incoming_message_def on_read_incoming_data_def case_prod_beta split: option.splits)

lemma timer_inv_loops [simp]: "timer_inv c \<Longrightarrow> timer_inv (fail_creates p ec rs c)" "timer_inv (close_tunnels ts c) = timer_inv c"
proof -
  show "timer_inv c \<Longrightarrow> timer_inv (fail_creates p ec rs c)" by (induction p ec rs c rule: fail_creates.induct) simp_all
  show "timer_inv (close_tunnels ts c) = timer_inv c" by (induction ts c rule: close_tunnels.induct) simp_all
qed

lemma timer_inv_cancelled [simp]: "timer_inv c \<Longrightarrow> timer_inv (on_queue_cancelled p ec cause prev cb c)"
  by (simp add: on_queue_cancelled_def Let_def split: option.splits)

end
