(* ===== verification/ClientInv.thy ===== *)
theory ClientInv
  imports ClientRuns
begin

text \<open>
  The invariant of the client over all its events: the invariants of the three kinds of operations, of
  the phase, of the timers, of the streams of each tunnel, and that a client in the null state holds no
  tunnel, no request and no buffer.
\<close>

section \<open>The null state\<close>

definition null_inv :: "client \<Rightarrow> bool" where
  "null_inv c \<longleftrightarrow> (c_state c = St_null \<longrightarrow> c_create_tunnel_ops c = [] \<and> c_tunnels c = [] \<and> c_buffer c = [])"

definition holdings :: "client \<Rightarrow> (string, nat) omap \<times> (string, tunnel_type) omap \<times> nat list" where
  "holdings c = (c_create_tunnel_ops c, c_tunnels c, c_buffer c)"

lemma null_inv_holdings: "null_inv c \<longleftrightarrow> (c_state c = St_null \<longrightarrow> holdings c = ([], [], []))"
  by (simp add: null_inv_def holdings_def)

lemma null_inv_init: "null_inv client_init"
  by (simp add: null_inv_def client_init_def)

lemma holdings_primitives [simp]:
  "holdings (act a c) = holdings c" "holdings (start x c) = holdings c" "holdings (fault c) = holdings c"
  "holdings (upd_connect i f c) = holdings c" "holdings (upd_create i fc c) = holdings c" "holdings (upd_accept i fa c) = holdings c"
  "holdings (set_state s c) = holdings c" "holdings (arm_state_timer n c) = holdings c" "holdings (timer_clean tm c) = holdings c"
  by (simp_all add: holdings_def act_def start_def fault_def upd_connect_def upd_create_def upd_accept_def set_state_def
      arm_state_timer_def timer_clean_def)

lemma holdings_completes [simp]:
  "holdings (complete_connect op ec c) = holdings c" "holdings (complete_create_tunnel i ec tun c) = holdings c"
  "holdings (complete_accept_tunnel i ec c) = holdings c" "holdings (release_connect_reservation i c) = holdings c"
  by (simp_all add: complete_connect_def complete_create_tunnel_def complete_accept_tunnel_def release_connect_reservation_def Let_def
      split: option.splits) (simp_all add: holdings_def upd_connect_def act_def)

lemma holdings_connects [simp]:
  "holdings (on_close ec c) = holdings c" "holdings (cancel_connect i c) = holdings c" "holdings (async_connect_internal p i c) = holdings c"
proof -
  show close: "holdings (on_close ec c) = holdings c" for ec c
    by (simp add: on_close_def Let_def) (simp add: holdings_def act_def start_def set_state_def)
  show "holdings (cancel_connect i c) = holdings c" by (simp add: cancel_connect_def close)
  show "holdings (async_connect_internal p i c) = holdings c"
    by (simp add: async_connect_internal_def do_resolve_host_def) (simp add: holdings_def)
qed

lemma async_connect_internal_null: "c_state (async_connect_internal p i c) = St_null \<Longrightarrow> c_state c = St_null"
  by (simp add: async_connect_internal_def do_resolve_host_def release_fields split: if_splits)

text \<open>In the null state no answer changes what the client holds.\<close>

lemma answer_null:
  assumes "c_state c = St_null" and "null_inv c" and "\<nexists>cause prev cb. x = P_queue_cancel cause prev cb"
  shows "holdings (answer p r x c) = holdings c"
proof (cases x)
  case (P_job j)
  with assms(1,2) show ?thesis
    by (cases j) (simp_all add: async_create_tunnel_internal_def cancel_create_tunnel_def async_accept_tunnel_internal_def
        cancel_accept_tunnel_def close_tunnel_internal_def close_internal_def null_inv_def Let_def)
qed (use assms in \<open>simp_all add: on_do_resolve_host_def on_connect_def on_read_incoming_data_def on_send_message_def
      on_connect_stream_def on_state_timer_def on_heartbeat_timer_def do_send_message_def on_error_def\<close>)

section \<open>Streams\<close>

definition streams_ok :: "client_params \<Rightarrow> tunnel_type \<Rightarrow> bool" where
  "streams_ok p tn \<longleftrightarrow> omap_sorted (tn_streams tn)
     \<and> (cfg_max_ongoing_streams (cp_config p) > 0 \<longrightarrow> length (tn_streams tn) \<le> cfg_max_ongoing_streams (cp_config p))"

definition streams_inv :: "client_params \<Rightarrow> client \<Rightarrow> bool" where
  "streams_inv p c \<longleftrightarrow> omap_sorted (c_tunnels c) \<and> om.every (\<lambda>t. streams_ok p) (c_tunnels c)"

lemma streams_inv_init: "streams_inv p client_init"
  by (simp add: streams_inv_def client_init_def om.every_def)

lemma streams_inv_frame: "c_tunnels d = c_tunnels c \<Longrightarrow> streams_inv p d = streams_inv p c"
  by (simp add: streams_inv_def)

lemma streams_inv_put: "streams_inv p c \<Longrightarrow> streams_ok p tn \<Longrightarrow> streams_inv p (put_tunnel t tn c)"
  by (auto simp: streams_inv_def put_tunnel_def omap_put_sorted intro: om.every_put)

lemma streams_inv_del: "streams_inv p c \<Longrightarrow> streams_inv p (c\<lparr>c_tunnels := omap_del t (c_tunnels c)\<rparr>)"
  by (auto simp: streams_inv_def omap_del_sorted intro: om.every_del)

lemma streams_inv_lookup: "streams_inv p c \<Longrightarrow> map_of (c_tunnels c) t = Some tn \<Longrightarrow> streams_ok p tn"
  by (auto simp: streams_inv_def dest: om.every_lookup)

lemma streams_ok_changes [simp]:
  "streams_ok p (tn\<lparr>tn_closing := x\<rparr>) = streams_ok p tn" "streams_ok p (tn\<lparr>tn_accept_tunnel_op := y\<rparr>) = streams_ok p tn"
  "streams_ok p new_tunnel" "streams_ok p tn \<Longrightarrow> streams_ok p (tn\<lparr>tn_streams := omap_del s (tn_streams tn)\<rparr>)"
  "streams_ok p tn \<Longrightarrow> streams_ok p (tn\<lparr>tn_streams := omap_del s (tn_streams tn), tn_accept_tunnel_op := y\<rparr>)"
  using omap_length_del [of s "tn_streams tn"] by (auto simp: streams_ok_def new_tunnel_def omap_del_sorted)

lemma streams_ok_replace:
  "streams_ok p tn \<Longrightarrow> map_of (tn_streams tn) s = Some w \<Longrightarrow> streams_ok p (tn\<lparr>tn_streams := omap_put s v (tn_streams tn)\<rparr>)"
  by (simp add: streams_ok_def omap_put_sorted omap_length_put)

lemma streams_ok_add:
  assumes "streams_ok p tn" and "\<not> (cfg_max_ongoing_streams (cp_config p) > 0 \<and> length (tn_streams tn) \<ge> cfg_max_ongoing_streams (cp_config p))"
  shows "streams_ok p (tn\<lparr>tn_streams := omap_put s v (tn_streams tn)\<rparr>)"
  using assms by (auto simp: streams_ok_def omap_put_sorted omap_length_put)

text \<open>The tunnels are the third component of the view of the accept operations.\<close>

lemmas tunnels_same [simp] =
  on_close_views(3) [THEN accept_view_fields(3)] on_error_views(3) [THEN accept_view_fields(3)]
  do_send_message_views(3) [THEN accept_view_fields(3)] close_internal_views(3) [THEN accept_view_fields(3)]
  heartbeat_views(3) [THEN accept_view_fields(3)] heartbeat_views(6) [THEN accept_view_fields(3)]
  heartbeat_views(9) [THEN accept_view_fields(3)] heartbeat_views(12) [THEN accept_view_fields(3)]
  connecting_views(3) [THEN accept_view_fields(3)] connecting_views(6) [THEN accept_view_fields(3)]
  connecting_views(12) [THEN accept_view_fields(3)] connecting_views(18) [THEN accept_view_fields(3)]
  connect_ops_views(4) [THEN accept_view_fields(3)] connect_ops_views(6) [THEN accept_view_fields(3)] connect_ops_views(8) [THEN accept_view_fields(3)]
  do_create_tunnel_views(3) [THEN accept_view_fields(3)] create_ops_views(2) [THEN accept_view_fields(3)]
  create_ops_views(4) [THEN accept_view_fields(3)] close_streams_views(3) [THEN accept_view_fields(3)]
  stream_views(3) [THEN accept_view_fields(3)] complete_connect_views(2) [THEN accept_view_fields(3)]

lemma tunnels_primitives [simp]:
  "c_tunnels (act a c) = c_tunnels c" "c_tunnels (start x c) = c_tunnels c" "c_tunnels (fault c) = c_tunnels c"
  "c_tunnels (upd_accept i f c) = c_tunnels c" "c_tunnels (complete_accept_tunnel i ec c) = c_tunnels c" "c_tunnels (set_state s c) = c_tunnels c"
  by (simp_all add: act_def start_def fault_def upd_accept_def complete_accept_tunnel_def set_state_def)

lemma close_tunnel_internal_streams:
  assumes "streams_inv p c"
  shows "streams_inv p (close_tunnel_internal p t c)"
proof -
  have "streams_inv p (do_send_message p m hb (put_tunnel t (tn\<lparr>tn_closing := True\<rparr>) c))" if "map_of (c_tunnels c) t = Some tn" for tn m hb
    using streams_inv_put [OF assms, of "tn\<lparr>tn_closing := True\<rparr>" t] streams_inv_lookup [OF assms that]
    by (simp add: streams_inv_frame [OF do_send_message_views(3) [THEN accept_view_fields(3)]])
  with assms show ?thesis by (auto simp: close_tunnel_internal_def do_close_tunnel_def split: option.splits)
qed

lemma on_tunnel_response_streams:
  assumes "streams_inv p c"
  shows "streams_inv p (on_tunnel_response p r q ec c)"
proof -
  have same: "streams_inv p (d\<lparr>c_create_tunnel_ops := ops\<rparr>) = streams_inv p d" "streams_inv p (complete_create_tunnel i e tun d) = streams_inv p d"
      "streams_inv p (fault d) = streams_inv p d" for d ops i e tun
    by (simp_all add: streams_inv_def)
  have "streams_inv p (put_tunnel t new_tunnel c)" for t using assms by (intro streams_inv_put) simp_all
  then show ?thesis using assms
    by (simp add: on_tunnel_response_def Let_def same close_tunnel_internal_streams split: option.splits)
qed

lemma on_tunnel_close_streams: "streams_inv p c \<Longrightarrow> streams_inv p (on_tunnel_close t c)"
  by (auto simp: on_tunnel_close_def Let_def streams_inv_def omap_del_sorted intro: om.every_del split: option.splits)

lemma accept_stream_streams:
  assumes "streams_inv p c" and "streams_ok p tn"
  shows "streams_inv p (accept_stream t tn i s sc c)"
  unfolding accept_stream_def Let_def
  by (rule streams_inv_put) (use assms in \<open>simp_all add: streams_inv_def\<close>)

lemma on_connect_stream_streams:
  assumes "streams_inv p c"
  shows "streams_inv p (on_connect_stream p g t s ec c)"
proof -
  have rsp: "streams_inv p (do_send_proxy_response p s e d) = streams_inv p d" for e d by (simp add: streams_inv_def)
  have "streams_inv p (upd_accept i f c)" for i f using assms by (simp add: streams_inv_def)
  with assms show ?thesis
    by (auto simp: on_connect_stream_def Let_def rsp dest: streams_inv_lookup
        intro!: streams_inv_put accept_stream_streams streams_ok_replace split: option.splits)
qed

lemma do_connect_stream_streams:
  assumes "streams_inv p c"
  shows "streams_inv p (do_connect_stream p se t s c)"
proof -
  have same: "streams_inv p (upd_accept i f c)" "streams_inv p (start x (act a d)) = streams_inv p d" for i f x a d
    using assms by (simp_all add: streams_inv_def)
  show ?thesis using assms
    by (auto simp: do_connect_stream_def Let_def same intro!: on_connect_stream_streams split: option.splits)
qed

lemma on_proxy_request_streams:
  assumes "streams_inv p c"
  shows "streams_inv p (on_proxy_request p se t s x c)"
proof -
  have rsp: "streams_inv p (do_send_proxy_response p s e d) = streams_inv p d" for e d by (simp add: streams_inv_def)
  have add: "streams_inv p (put_tunnel t (tn\<lparr>tn_streams := omap_put s v (tn_streams tn)\<rparr>) c)"
    if "map_of (c_tunnels c) t = Some tn" "\<not> (cfg_max_ongoing_streams (cp_config p) > 0 \<and> length (tn_streams tn) \<ge> cfg_max_ongoing_streams (cp_config p))" for tn v
    by (rule streams_inv_put [OF assms streams_ok_add [OF streams_inv_lookup [OF assms that(1)] that(2)]])
  show ?thesis using assms
    by (simp add: on_proxy_request_def Let_def rsp do_connect_stream_streams add split: option.splits)
qed

lemma accept_ops_streams:
  assumes "streams_inv p c"
  shows "streams_inv p (cancel_accept_tunnel t i c)" and "streams_inv p (async_accept_tunnel_internal p im se t i c)"
proof -
  have same: "streams_inv p (complete_accept_tunnel i e d) = streams_inv p d" "streams_inv p (act a d) = streams_inv p d" for e a d
    by (simp_all add: streams_inv_def)
  have put: "streams_inv p (put_tunnel t (tn\<lparr>tn_accept_tunnel_op := y\<rparr>) d)" "streams_inv p (accept_stream t tn i s sc d)"
    if "map_of (c_tunnels c) t = Some tn" "streams_inv p d" for tn y d s sc
    using streams_inv_lookup [OF assms that(1)] that(2) by (simp_all add: streams_inv_put accept_stream_streams)
  show "streams_inv p (cancel_accept_tunnel t i c)"
    using assms by (simp add: cancel_accept_tunnel_def Let_def same put split: option.splits)
  show "streams_inv p (async_accept_tunnel_internal p im se t i c)"
    using assms by (simp add: async_accept_tunnel_internal_def Let_def same put do_connect_stream_streams split: option.splits prod.splits)
qed

lemma handle_message_streams:
  assumes "streams_inv p c"
  shows "streams_inv p (snd (handle_message p se msg c))"
proof -
  have same: "streams_inv p (c\<lparr>c_status := st\<rparr>)" "streams_inv p (on_open p d) = streams_inv p d" "streams_inv p (fault c)"
      "streams_inv p (on_close e c)" "streams_inv p (do_send_proxy_response p s e c)" for st d e s
    using assms by (simp_all add: streams_inv_def)
  show ?thesis using assms
    by (simp add: handle_message_def open_control_channel_rsp_def open_tunnel_rsp_def close_tunnel_rsp_def proxy_conn_request_def
        same on_tunnel_response_streams on_tunnel_close_streams on_proxy_request_streams
        split: message.splits open_rsp.splits tunnel_rsp.splits option.splits sum.splits)
qed

lemma on_read_streams:
  assumes "streams_inv p c"
  shows "streams_inv p (on_read_incoming_data p se g ec bs c)"
proof -
  have same: "streams_inv p (on_error e d) = streams_inv p d" "streams_inv p (do_read_incoming_message d) = streams_inv p d"
      "streams_inv p (fault d) = streams_inv p d" for e d
    by (simp_all add: streams_inv_def do_read_incoming_message_def)
  show ?thesis using assms handle_message_streams [OF assms]
    by (simp add: on_read_incoming_data_def on_read_incoming_message_def same case_prod_beta split: option.splits)
qed

lemma loops_streams: "streams_inv p c \<Longrightarrow> streams_inv p (close_tunnels ts c)" "streams_inv p c \<Longrightarrow> streams_inv p (fail_creates p ec rs c)"
proof -
  show "streams_inv p c \<Longrightarrow> streams_inv p (close_tunnels ts c)"
    by (induction ts c rule: close_tunnels.induct) (simp_all add: on_tunnel_close_streams)
  show "streams_inv p c \<Longrightarrow> streams_inv p (fail_creates p ec rs c)"
    by (induction p ec rs c rule: fail_creates.induct) (simp_all add: on_tunnel_response_streams)
qed

lemma on_queue_cancelled_streams:
  assumes "streams_inv p c"
  shows "streams_inv p (on_queue_cancelled p ec cause prev cb c)"
proof -
  have "streams_inv p (close_tunnels ts (fail_creates p e rs d))" if "c_tunnels d = c_tunnels c" for e rs ts d
    using assms that by (intro loops_streams) (simp add: streams_inv_def)
  then show ?thesis using assms
    by (simp add: on_queue_cancelled_def Let_def streams_inv_def split: option.splits)
qed

section \<open>Messages and the other invariants\<close>

lemma state_null_frame: "connect_view d = connect_view c \<Longrightarrow> (c_state d = St_null) = (c_state c = St_null)"
  by (simp add: connect_view_def)

lemma on_open_null: "c_state (on_open p c) = St_null \<Longrightarrow> c_state c = St_null"
  by (auto simp: on_open_def Let_def send_heartbeat_def do_send_heartbeat_def split: if_splits option.splits)

text \<open>All branches but the one that opens the channel leave the connects alone.\<close>

lemma handle_message_connects:
  "(\<exists>rsp. msg = Open_control_channel_rsp rsp) \<or> connect_view (snd (handle_message p se msg c)) = connect_view c"
  by (simp add: handle_message_def open_tunnel_rsp_def close_tunnel_rsp_def proxy_conn_request_def
      split: message.splits tunnel_rsp.splits option.splits sum.splits)

lemma open_rsp_cases:
  obtains (opens) st where "snd (open_control_channel_rsp p rsp c) = on_open p (c\<lparr>c_status := st\<rparr>)"
  | (same) "snd (open_control_channel_rsp p rsp c) = c"
proof (cases rsp)
  case (Open_ok ok)
  have "c\<lparr>c_status := c_status c\<rparr> = c" by simp
  then show thesis using Open_ok opens [of "c_status c"] opens [of "merge_status (the (ok_server_details ok)) (c_status c)"] same
    by (cases "ok_server_details ok"; cases "ok_client_id ok = []") (simp_all add: open_control_channel_rsp_def)
qed (use same in \<open>simp_all add: open_control_channel_rsp_def\<close>)

lemma handle_message_connect_inv:
  assumes "connect_inv c"
  shows "connect_inv (snd (handle_message p se msg c))" and "c_state (snd (handle_message p se msg c)) = St_null \<Longrightarrow> c_state c = St_null"
proof -
  have "connect_inv (snd (handle_message p se msg c)) \<and> (c_state (snd (handle_message p se msg c)) = St_null \<longrightarrow> c_state c = St_null)"
  proof (cases "\<exists>rsp. msg = Open_control_channel_rsp rsp")
    case True
    then obtain rsp where m: "handle_message p se msg c = open_control_channel_rsp p rsp c" by (auto simp: handle_message_def)
    have "connect_inv (c\<lparr>c_status := st\<rparr>)" for st using assms by (simp add: connect_inv_def)
    then show ?thesis
      using assms on_open_inv on_open_null by (cases rule: open_rsp_cases [of p rsp c]) (fastforce simp: m)+
  next
    case False
    with handle_message_connects have v: "connect_view (snd (handle_message p se msg c)) = connect_view c" by blast
    with assms state_null_frame [OF v] show ?thesis by (simp add: connect_inv_def)
  qed
  then show "connect_inv (snd (handle_message p se msg c))" "c_state (snd (handle_message p se msg c)) = St_null \<Longrightarrow> c_state c = St_null"
    by blast+
qed

lemma on_read_connect_inv:
  assumes "connect_inv c"
  shows "connect_inv (on_read_incoming_data p se g ec bs c)" and "c_state (on_read_incoming_data p se g ec bs c) = St_null \<Longrightarrow> c_state c = St_null"
proof -
  have ends: "connect_inv (on_error e d) = connect_inv d" "connect_inv (do_read_incoming_message d) = connect_inv d" "connect_inv (fault d) = connect_inv d"
      "(c_state (on_error e d) = St_null) = (c_state d = St_null)" "c_state (do_read_incoming_message d) = c_state d" for e d
    by (simp_all add: connect_inv_def state_null_frame [OF on_error_views(1)]) (simp add: do_read_incoming_message_def)
  note h = handle_message_connect_inv [OF assms]
  show "connect_inv (on_read_incoming_data p se g ec bs c)"
    using assms h(1) by (simp add: on_read_incoming_data_def on_read_incoming_message_def ends case_prod_beta split: option.splits)
  show "c_state (on_read_incoming_data p se g ec bs c) = St_null \<Longrightarrow> c_state c = St_null"
    using h(2) by (auto simp: on_read_incoming_data_def on_read_incoming_message_def ends case_prod_beta split: option.splits if_splits)
qed

lemma on_read_create_inv:
  assumes "create_inv c"
  shows "create_inv (on_read_incoming_data p se g ec bs c)"
proof -
  have ends: "create_inv (on_error e d) = create_inv d" "create_inv (do_read_incoming_message d) = create_inv d" "create_inv (fault d) = create_inv d"
      "create_inv (on_open p d) = create_inv d" "create_inv (d\<lparr>c_status := st\<rparr>) = create_inv d" "create_inv (on_close e d) = create_inv d"
      "create_inv (on_tunnel_close t d) = create_inv d" "create_inv (do_send_proxy_response p s e d) = create_inv d"
      "create_inv (on_proxy_request p se t s x d) = create_inv d" for e d st t s x
    by (simp_all add: create_inv_def)
  have "create_inv (snd (handle_message p se msg c))" for msg
    using assms by (simp add: handle_message_def open_control_channel_rsp_def open_tunnel_rsp_def close_tunnel_rsp_def proxy_conn_request_def
        ends on_tunnel_response_inv split: message.splits open_rsp.splits tunnel_rsp.splits option.splits sum.splits)
  with assms show ?thesis
    by (simp add: on_read_incoming_data_def on_read_incoming_message_def ends case_prod_beta split: option.splits)
qed

lemma on_read_accept_inv:
  assumes "accept_inv c"
  shows "accept_inv (on_read_incoming_data p se g ec bs c)"
proof -
  have ends: "accept_inv (on_error e d) = accept_inv d" "accept_inv (do_read_incoming_message d) = accept_inv d" "accept_inv (fault d) = accept_inv d"
      "accept_inv (on_open p d) = accept_inv d" "accept_inv (d\<lparr>c_status := st\<rparr>) = accept_inv d" "accept_inv (on_close e d) = accept_inv d"
      "accept_inv (do_send_proxy_response p s e d) = accept_inv d" for e d st s
    by (simp_all add: accept_inv_def)
  have "accept_inv (snd (handle_message p se msg c))" for msg
    using assms by (simp add: handle_message_def open_control_channel_rsp_def open_tunnel_rsp_def close_tunnel_rsp_def proxy_conn_request_def
        ends on_tunnel_response_accept_inv on_tunnel_close_inv on_proxy_request_inv
        split: message.splits open_rsp.splits tunnel_rsp.splits option.splits sum.splits)
  with assms show ?thesis
    by (simp add: on_read_incoming_data_def on_read_incoming_message_def ends case_prod_beta split: option.splits)
qed

lemma close_tunnels_empties: "fst ` set (c_tunnels c) \<subseteq> set ts \<Longrightarrow> c_tunnels (close_tunnels ts c) = []"
proof (induction ts c rule: close_tunnels.induct)
  case (2 t ts c)
  have "c_tunnels (on_tunnel_close t c) = omap_del t (c_tunnels c)"
    by (auto simp: on_tunnel_close_def Let_def omap_del_def map_of_eq_None_iff filter_id_conv intro!: sym [OF filter_True] split: option.splits)
  with 2 show ?case by (auto simp: omap_del_def)
qed simp

lemma close_tunnels_ops: "c_create_tunnel_ops (close_tunnels ts c) = c_create_tunnel_ops c"
proof -
  have "create_view (close_tunnels ts c) = create_view c" by simp
  then show ?thesis by (simp add: create_view_def)
qed

lemma on_tunnel_close_buffer: "c_buffer (on_tunnel_close t c) = c_buffer c"
proof -
  have "c_buffer (close_streams t ss d) = c_buffer d" for ss d
    by (induction t ss d rule: close_streams.induct) (simp_all add: act_def)
  then show ?thesis
    by (simp add: on_tunnel_close_def Let_def complete_accept_tunnel_def act_def upd_accept_def split: option.splits)
qed

lemma loops_buffer:
  "c_buffer (close_tunnels ts c) = c_buffer c" "ec_failed ec \<Longrightarrow> c_buffer (fail_creates p ec rs c) = c_buffer c"
proof -
  show "c_buffer (close_tunnels ts c) = c_buffer c"
    by (induction ts c rule: close_tunnels.induct) (simp_all add: on_tunnel_close_buffer)
  have "c_buffer (on_tunnel_response p r q ec d) = c_buffer d" if "ec_failed ec" for r q d
    using that by (simp add: on_tunnel_response_def Let_def complete_create_tunnel_def act_def upd_create_def split: option.splits)
  then show "ec_failed ec \<Longrightarrow> c_buffer (fail_creates p ec rs c) = c_buffer c"
    by (induction rs arbitrary: c) simp_all
qed

text \<open>After the end of a connection nothing is left.\<close>

lemma on_queue_cancelled_holdings:
  assumes "c_close_pending c"
  shows "holdings (on_queue_cancelled p ec cause prev cb c) = ([], [], [])"
proof -
  define close_cause where "close_cause = (if \<not> ec_failed cause \<and> ec_failed ec then ec else cause)"
  define final where "final = (if ec_failed close_cause then close_cause else rstrm_ec Operation_aborted)"
  have fin: "ec_failed final" unfolding final_def by (rule failed_final)
  define c3 where "c3 = (set_state St_null ((act Socket_close c)\<lparr>c_buffer := [], c_error_code := ec_ok, c_client_details := None,
      c_status := empty_status\<rparr>))\<lparr>c_close_pending := False, c_is_state_non_null := False, c_server_address := empty_address,
      c_control_callbacks := \<lparr>cb_on_disconnection = None, cb_on_status = None\<rparr>\<rparr>"
  define c4 where "c4 = fail_creates p final (map fst (c_create_tunnel_ops c3)) c3"
  define c5 where "c5 = close_tunnels (map fst (c_tunnels c4)) c4"
  have "c_create_tunnel_ops c4 = []" unfolding c4_def by (rule fail_creates_empties [OF fin]) simp
  then have "c_create_tunnel_ops c5 = []" by (simp add: c5_def close_tunnels_ops)
  moreover have "c_tunnels c5 = []" unfolding c5_def by (rule close_tunnels_empties) simp
  moreover have "c_buffer c5 = []" using fin by (simp add: c5_def c4_def loops_buffer) (simp add: c3_def set_state_def)
  ultimately have h5: "holdings c5 = ([], [], [])" by (simp add: holdings_def)
  have upd: "holdings (d\<lparr>c_connect_op := x\<rparr>) = holdings d" for d x by (simp add: holdings_def)
  have "holdings (on_queue_cancelled p ec cause prev cb c) = holdings c5"
    using assms by (simp add: on_queue_cancelled_def c5_def c4_def c3_def final_def close_cause_def Let_def upd split: option.splits)
  with h5 show ?thesis by simp
qed

section \<open>The machine\<close>

definition client_inv :: "client_params \<Rightarrow> client \<Rightarrow> bool" where
  "client_inv p c \<longleftrightarrow> connect_inv c \<and> create_inv c \<and> accept_inv c \<and> phase_inv c \<and> timer_inv c \<and> null_inv c \<and> streams_inv p c"

lemma client_inv_init: "client_inv p client_init"
  by (simp add: client_inv_def connect_inv_init create_inv_init accept_inv_init phase_inv_init timer_inv_init null_inv_init streams_inv_init)

lemma client_invD:
  assumes "client_inv p c"
  shows "connect_inv c" "create_inv c" "accept_inv c" "phase_inv c" "timer_inv c" "null_inv c" "streams_inv p c"
  using assms by (simp_all add: client_inv_def)

text \<open>An answer to an outstanding operation, one invariant at a time.\<close>

lemma answer_connect_inv:
  assumes inv: "client_inv p c" and k: "k < length (c_out c)"
  shows "connect_inv (answer p r (c_out c ! k) (take_out k c))"
proof (cases "c_out c ! k")
  case (P_job j)
  note t = connect_inv_take_out [OF client_invD(1) [OF inv] k]
  from P_job t show ?thesis
    by (cases j) (auto intro: async_connect_internal_inv cancel_connect_inv simp: connect_inv_def [of "async_create_tunnel_internal _ _ _ _"]
        connect_inv_def [of "cancel_create_tunnel _ _"] connect_inv_def [of "async_accept_tunnel_internal _ _ _ _ _ _"]
        connect_inv_def [of "cancel_accept_tunnel _ _ _"] connect_inv_def [of "close_tunnel_internal _ _ _"] connect_inv_def [of "close_internal _ _ _"]
        simp flip: connect_inv_def)
next
  case (P_recv g)
  with connect_inv_take_out(1) [OF client_invD(1) [OF inv] k] on_read_connect_inv(1) show ?thesis by simp
next
  case (P_queue_cancel cause prev cb)
  have ph: "phase_inv_with [] [(cause, prev, cb)] (take_out k c)" by (rule phase_inv_take_out(2) [OF client_invD(4) [OF inv] k P_queue_cancel])
  have "connect_inv (take_out k c)" using connect_inv_take_out(1) [OF client_invD(1) [OF inv] k] P_queue_cancel by simp
  then have "connect_inv (on_queue_cancelled p (re_error_code r) cause prev cb (take_out k c))"
    by (rule on_queue_cancelled_connect_inv) (use ph in \<open>auto simp: phase_inv_with_def phase_ok_def\<close>)
  with P_queue_cancel show ?thesis by simp
qed (use connect_inv_take_out(1) [OF client_invD(1) [OF inv] k] in \<open>simp_all add: connect_inv_def\<close>)

lemma answer_create_inv:
  assumes inv: "client_inv p c" and k: "k < length (c_out c)"
  shows "create_inv (answer p r (c_out c ! k) (take_out k c))"
proof (cases "c_out c ! k")
  case (P_job j)
  note t = create_inv_take_out [OF client_invD(2) [OF inv] k]
  from P_job t show ?thesis
    by (cases j) (auto intro: async_create_tunnel_internal_inv cancel_create_tunnel_inv simp: create_inv_def [of "async_connect_internal _ _ _"]
        create_inv_def [of "cancel_connect _ _"] create_inv_def [of "async_accept_tunnel_internal _ _ _ _ _ _"]
        create_inv_def [of "cancel_accept_tunnel _ _ _"] create_inv_def [of "close_tunnel_internal _ _ _"] create_inv_def [of "close_internal _ _ _"]
        simp flip: create_inv_def)
next
  case (P_recv g)
  with create_inv_take_out(1) [OF client_invD(2) [OF inv] k] on_read_create_inv show ?thesis by simp
next
  case (P_queue_cancel cause prev cb)
  with create_inv_take_out(1) [OF client_invD(2) [OF inv] k] on_queue_cancelled_create_inv show ?thesis by simp
qed (use create_inv_take_out(1) [OF client_invD(2) [OF inv] k] in \<open>simp_all add: create_inv_def\<close>)

lemma answer_accept_inv:
  assumes inv: "client_inv p c" and k: "k < length (c_out c)"
  shows "accept_inv (answer p r (c_out c ! k) (take_out k c))"
proof (cases "c_out c ! k")
  case (P_job j)
  note t = accept_inv_take_out [OF client_invD(3) [OF inv] k]
  from P_job t show ?thesis
    by (cases j) (auto intro: async_accept_tunnel_internal_inv cancel_accept_tunnel_inv close_tunnel_internal_inv
        simp: accept_inv_def [of "async_connect_internal _ _ _"] accept_inv_def [of "cancel_connect _ _"]
        accept_inv_def [of "async_create_tunnel_internal _ _ _ _"] accept_inv_def [of "cancel_create_tunnel _ _"]
        accept_inv_def [of "close_internal _ _ _"] simp flip: accept_inv_def)
next
  case (P_recv g)
  with accept_inv_take_out(1) [OF client_invD(3) [OF inv] k] on_read_accept_inv show ?thesis by simp
next
  case (P_stream g t s)
  with accept_inv_take_out(1) [OF client_invD(3) [OF inv] k] on_connect_stream_inv show ?thesis by simp
next
  case (P_queue_cancel cause prev cb)
  with accept_inv_take_out(1) [OF client_invD(3) [OF inv] k] on_queue_cancelled_accept_inv show ?thesis by simp
qed (use accept_inv_take_out(1) [OF client_invD(3) [OF inv] k] in \<open>simp_all add: accept_inv_def\<close>)

lemma answer_phase_inv:
  assumes inv: "client_inv p c" and k: "k < length (c_out c)"
  shows "phase_inv (answer p r (c_out c ! k) (take_out k c))"
proof -
  note ph = phase_inv_take_out [OF client_invD(4) [OF inv] k]
  note conn = connect_inv_take_out [OF client_invD(1) [OF inv] k]
  have other: "\<not> is_flow (c_out c ! k) \<Longrightarrow> cancels [c_out c ! k] = [] \<Longrightarrow> phase_inv (take_out k c)" by (rule ph(3))
  show ?thesis
  proof (cases "c_out c ! k")
    case (P_job j)
    have t: "phase_inv (take_out k c)" by (rule other) (simp_all add: P_job)
    show ?thesis
    proof (cases j)
      case (J_connect i)
      have "connect_inv_job i (take_out k c)" using conn(2) P_job J_connect by simp
      then have "c_connect_op (take_out k c) \<noteq> Some i" by (auto simp: connect_inv_job_def connect_ok_iff dest: ops_ok_parked)
      with t P_job J_connect async_connect_internal_phase show ?thesis by simp
    qed (use t P_job in \<open>simp_all add: cancel_connect_phase async_create_tunnel_internal_phase phase_inv_core [of _ _ "cancel_create_tunnel _ _"]
        async_accept_tunnel_internal_phase phase_inv_core [of _ _ "cancel_accept_tunnel _ _ _"] close_tunnel_internal_phase close_internal_phase
        flip: phase_inv_core\<close>)
  next
    case (P_resolve g)
    have "phase_inv_with [P_resolve g] [] (take_out k c)" using ph(1) P_resolve by simp
    from on_do_resolve_host_phase [OF this] show ?thesis by (simp add: P_resolve)
  next
    case (P_connect g)
    have "phase_inv_with [P_connect g] [] (take_out k c)" using ph(1) P_connect by simp
    from on_connect_phase [OF this] show ?thesis by (simp add: P_connect)
  next
    case (P_recv g)
    have "phase_inv_with [P_recv g] [] (take_out k c)" using ph(1) P_recv by simp
    from on_read_incoming_data_phase [OF this] conn(1) show ?thesis by (simp add: P_recv)
  next
    case (P_send g hb)
    have t: "phase_inv (take_out k c)" by (rule other) (simp_all add: P_send)
    have "phase_inv (do_send_heartbeat p (take_out k c))" using t by (simp add: phase_inv_core)
    with t on_error_phase [OF t] show ?thesis by (simp add: P_send on_send_message_def)
  next
    case (P_stream g t s)
    have t: "phase_inv (take_out k c)" by (rule other) (simp_all add: P_stream)
    from on_connect_stream_phase [OF t] show ?thesis by (simp add: P_stream)
  next
    case (P_state_timer t g)
    have i: "phase_inv (take_out k c)" by (rule other) (simp_all add: P_state_timer)
    have "phase_inv (timer_clean t d) = phase_inv d" for d by (simp add: phase_inv_core)
    with i on_error_phase [OF i] show ?thesis by (simp add: P_state_timer on_state_timer_def)
  next
    case (P_heartbeat_timer t g)
    have i: "phase_inv (take_out k c)" by (rule other) (simp_all add: P_heartbeat_timer)
    have cl: "phase_inv (timer_clean t d) = phase_inv d" for d by (simp add: phase_inv_core)
    have "phase_inv (do_send_message p (Heartbeat 0 0) True (take_out k c))" if "\<not> c_timers c ! t"
      using timer_inv_take_out(2) [OF client_invD(5) [OF inv] k P_heartbeat_timer] that by (intro do_send_message_phase [OF i]) simp_all
    with i show ?thesis by (simp add: P_heartbeat_timer on_heartbeat_timer_def cl)
  next
    case (P_queue_cancel cause prev cb)
    from on_queue_cancelled_phase [OF ph(2) [OF this]] show ?thesis by (simp add: P_queue_cancel)
  qed
qed

lemma answer_timer_inv:
  assumes inv: "client_inv p c" and k: "k < length (c_out c)"
  shows "timer_inv (answer p r (c_out c ! k) (take_out k c))"
proof -
  have t: "timer_inv (take_out k c)" by (rule timer_inv_take_out(1) [OF client_invD(5) [OF inv] k])
  show ?thesis
  proof (cases "c_out c ! k")
    case (P_job j)
    with t show ?thesis by (cases j) simp_all
  qed (use t in simp_all)
qed

lemma answer_null_inv:
  assumes inv: "client_inv p c" and k: "k < length (c_out c)"
  shows "null_inv (answer p r (c_out c ! k) (take_out k c))"
proof (cases "\<exists>cause prev cb. c_out c ! k = P_queue_cancel cause prev cb")
  case True
  then obtain cause prev cb where x: "c_out c ! k = P_queue_cancel cause prev cb" by blast
  have "c_close_pending (take_out k c)"
    using phase_inv_take_out(2) [OF client_invD(4) [OF inv] k x] by (auto simp: phase_inv_with_def phase_ok_def split: if_splits)
  from on_queue_cancelled_holdings [OF this] show ?thesis by (simp add: x null_inv_holdings)
next
  case False
  let ?c = "take_out k c" and ?x = "c_out c ! k"
  have n: "null_inv ?c" using client_invD(6) [OF inv] by (simp add: null_inv_def)
  have "c_state ?c = St_null" if "c_state (answer p r ?x ?c) = St_null"
  proof (cases ?x)
    case (P_job j)
    with that show ?thesis
    proof (cases j)
      case (J_connect i)
      with that P_job show ?thesis using async_connect_internal_null [of p i ?c] by simp
    next
      case (J_cancel_connect i)
      with that P_job show ?thesis
        by (simp add: cancel_connect_def release_fields state_null_frame [OF on_close_views(1)] split: if_splits)
    qed (use that P_job in \<open>simp_all add: state_null_frame [OF create_ops_views(1)] state_null_frame [OF create_ops_views(3)]
        state_null_frame [OF accepting_views(3)] state_null_frame [OF accepting_views(5)] state_null_frame [OF close_tunnel_views(1)]
        state_null_frame [OF close_internal_views(1)]\<close>)
  next
    case (P_recv g)
    have "connect_inv ?c" using connect_inv_take_out(1) [OF client_invD(1) [OF inv] k] P_recv by simp
    from on_read_connect_inv(2) [OF this, of p "re_settings r" g "re_error_code r" "re_bytes r"] that P_recv show ?thesis by simp
  qed (use that False in \<open>auto simp: state_null_frame [OF connecting_views(4)] state_null_frame [OF connecting_views(16)]
        state_null_frame [OF heartbeat_views(4)] state_null_frame [OF heartbeat_views(7)] state_null_frame [OF heartbeat_views(10)]
        state_null_frame [OF on_connect_stream_views(1)]\<close>)
  with answer_null [OF _ n False, of p r] n show ?thesis by (auto simp: null_inv_holdings)
qed

lemma answer_streams_inv:
  assumes inv: "client_inv p c" and k: "k < length (c_out c)"
  shows "streams_inv p (answer p r (c_out c ! k) (take_out k c))"
proof -
  have t: "streams_inv p (take_out k c)" using client_invD(7) [OF inv] by (simp add: streams_inv_def)
  show ?thesis
  proof (cases "c_out c ! k")
    case (P_job j)
    with t show ?thesis
      by (cases j) (simp_all add: accept_ops_streams close_tunnel_internal_streams, simp_all add: streams_inv_def)
  qed (use t in \<open>simp_all add: on_read_streams on_connect_stream_streams on_queue_cancelled_streams, simp_all add: streams_inv_def\<close>)
qed

lemma client_event_inv:
  assumes inv: "client_inv p c"
  shows "client_inv p (client_event p e c)"
proof -
  note d = client_invD [OF inv]
  have conn: "client_inv p (async_connect a c)" for a
  proof -
    have v: "create_view (async_connect a c) = create_view c" "accept_view (async_connect a c) = accept_view c"
        "phase_view (async_connect a c) = phase_view c" "timer_inv (async_connect a c) = timer_inv c" "holdings (async_connect a c) = holdings c"
        "c_state (async_connect a c) = c_state c"
      by (simp_all add: async_connect_def Let_def) (simp_all add: create_view_def accept_view_def phase_view_def holdings_def timer_inv_def start_def)
    with d async_connect_inv [OF d(1)] show ?thesis
      by (simp add: client_inv_def create_inv_def accept_inv_def phase_inv_core null_inv_holdings streams_inv_frame [OF v(2) [THEN accept_view_fields(3)]])
  qed
  have crea: "client_inv p (async_create_tunnel q c)" for q
  proof -
    have v: "connect_view (async_create_tunnel q c) = connect_view c" "accept_view (async_create_tunnel q c) = accept_view c"
        "phase_view (async_create_tunnel q c) = phase_view c" "timer_inv (async_create_tunnel q c) = timer_inv c"
        "holdings (async_create_tunnel q c) = holdings c" "c_state (async_create_tunnel q c) = c_state c"
      by (simp_all add: async_create_tunnel_def) (simp_all add: connect_view_def accept_view_def holdings_def)
    with d async_create_tunnel_inv [OF d(2)] show ?thesis
      by (simp add: client_inv_def connect_inv_def accept_inv_def phase_inv_core null_inv_holdings streams_inv_frame [OF v(2) [THEN accept_view_fields(3)]])
  qed
  have acc: "client_inv p (async_accept_tunnel t c)" for t
  proof -
    have v: "connect_view (async_accept_tunnel t c) = connect_view c" "create_view (async_accept_tunnel t c) = create_view c"
        "phase_view (async_accept_tunnel t c) = phase_view c" "timer_inv (async_accept_tunnel t c) = timer_inv c"
        "holdings (async_accept_tunnel t c) = holdings c" "c_state (async_accept_tunnel t c) = c_state c" "c_tunnels (async_accept_tunnel t c) = c_tunnels c"
      by (simp_all add: async_accept_tunnel_def) (simp_all add: connect_view_def create_view_def holdings_def)
    with d async_accept_tunnel_inv [OF d(3)] show ?thesis
      by (simp add: client_inv_def connect_inv_def create_inv_def phase_inv_core null_inv_holdings streams_inv_frame [OF v(7)])
  qed
  have same: "client_inv p d" if "connect_view d = connect_view c" "create_view d = create_view c" "accept_view d = accept_view c"
      "phase_view d = phase_view c" "timer_inv d" "holdings d = holdings c" "c_state d = c_state c" for d
    using d that by (simp add: client_inv_def connect_inv_def create_inv_def accept_inv_def phase_inv_core null_inv_holdings
        streams_inv_frame [OF that(3) [THEN accept_view_fields(3)]])
  have slots: "client_inv p (slot_connect i c)" "client_inv p (slot_create i c)" "client_inv p (slot_accept i c)" for i
  proof -
    show "client_inv p (slot_connect i c)"
      using d slot_connect_inv [OF d(1), of i] inv
      by (cases "i < length (c_connects c)") (simp_all add: slot_connect_def client_inv_def create_inv_def accept_inv_def phase_inv_core null_inv_holdings, simp_all add: streams_inv_def upd_connect_def)
    show "client_inv p (slot_create i c)"
      using d slot_create_inv [OF d(2), of i] inv
      by (cases "i < length (c_creates c)") (simp_all add: slot_create_def client_inv_def connect_inv_def accept_inv_def phase_inv_core null_inv_holdings, simp_all add: streams_inv_def upd_create_def)
    show "client_inv p (slot_accept i c)"
      using d slot_accept_inv [OF d(3), of i] inv
      by (cases "i < length (c_accepts c)") (simp_all add: slot_accept_def client_inv_def connect_inv_def create_inv_def phase_inv_core null_inv_holdings, simp_all add: streams_inv_def)
  qed
  have rep: "client_inv p (answer p r (c_out c ! k) (take_out k c))" if "k < length (c_out c)" for k r
    unfolding client_inv_def
    using answer_connect_inv [OF inv that] answer_create_inv [OF inv that] answer_accept_inv [OF inv that] answer_phase_inv [OF inv that]
      answer_timer_inv [OF inv that] answer_null_inv [OF inv that] answer_streams_inv [OF inv that] by blast
  have upd: "holdings (c\<lparr>c_control_callbacks := cbs\<rparr>) = holdings c" for cbs by (simp add: holdings_def)
  show ?thesis
    by (cases e) (use inv conn crea acc slots rep d(5) in \<open>auto simp: async_connect_default_def close_tunnel_def client_close_def
        set_control_callbacks_def upd split: option.splits intro!: same\<close>)
qed

end
