(* ===== verification/ClientSample.thy ===== *)
theory ClientSample
  imports Client
begin

text \<open>
  Concrete runs of the client on which the properties of its theories are evaluated: a connection that is
  opened, a tunnel that is requested on it, and a connection attempt that fails.
\<close>

section \<open>Parameters\<close>

definition w_ok :: message where
  "w_ok = Open_control_channel_rsp (Open_ok \<lparr>ok_client_id = ''c'', ok_server_details = None, ok_liveness = None\<rparr>)"

definition w_refused :: message where
  "w_refused = Open_tunnel_rsp ''r'' (Tunnel_error \<lparr>pe_code = 0, pe_message = None\<rparr>)"

definition w_params :: client_params where
  "w_params = \<lparr>cp_config = (config_client0 True)\<lparr>cfg_no_token := True\<rparr>, cp_build = w_build,
     cp_default_server_address = None, cp_default_server_error = ec_ok, cp_token = None, cp_token_error = ec_ok,
     cp_mtls_token = None, cp_mtls_token_error = ec_ok, cp_enc = (\<lambda>m. Some [1]),
     cp_dec = (\<lambda>bs. if bs = [1] then Some w_ok else if bs = [2] then Some w_refused else None),
     cp_parse = (\<lambda>_. None), cp_ec_message = (\<lambda>_. [])\<rparr>"

definition w_reply :: "error_code \<Rightarrow> byte list \<Rightarrow> reply" where
  "w_reply ec bs = \<lparr>re_error_code = ec, re_results_empty = False, re_is_secure = False, re_bytes = bs,
     re_request_id = (\<lambda>n. ''r''), re_peer_impl = False, re_settings = ec_ok\<rparr>"

lemma w_serializable [simp]: "serializable w_params m"
  by (simp add: serializable_def w_params_def is_protobuf_buffer_size_valid_def INT_MAX_def)

lemma w_dec [simp]:
  "parse_protobuf_message (cp_dec w_params) [1] = Some w_ok" "parse_protobuf_message (cp_dec w_params) [2] = Some w_refused"
  "parse_protobuf_message (cp_dec w_params) [] = None"
  by (simp_all add: w_params_def parse_protobuf_message_def is_protobuf_buffer_size_valid_def INT_MAX_def)

lemma w_config [simp]:
  "cfg_connection_timeout_ms (cp_config w_params) = 30000" "cfg_async_stream_operation (cp_config w_params)" "cfg_hearbeat (cp_config w_params)"
  "cfg_heartbeat_interval_ms (cp_config w_params) = 10000" "cfg_max_ongoing_streams (cp_config w_params) = 50"
  "cfg_max_buffer_size (cp_config w_params) = 65535"
  by (simp_all add: w_params_def config_client0_def)

lemma w_details [simp]: "effective_client_details w_params c = Inr (get_client_details_token w_build None)"
  by (simp add: effective_client_details_def w_params_def)

lemma details_token [simp]: "pcd_token (convert_client_details_to empty_proto_client_details (get_client_details_token b t)) = t"
  by (simp add: convert_client_details_to_def get_client_details_token_def empty_proto_client_details_def)

lemma w_reply_sel [simp]:
  "re_error_code (w_reply ec bs) = ec" "\<not> re_results_empty (w_reply ec bs)" "\<not> re_is_secure (w_reply ec bs)"
  "re_bytes (w_reply ec bs) = bs" "re_request_id (w_reply ec bs) = (\<lambda>n. ''r'')"
  by (simp_all add: w_reply_def)

section \<open>Runs\<close>

lemmas ev_primitives = client_step_def set_state_def arm_state_timer_def start_def act_def take_out_def upd_connect_def upd_create_def Let_def
lemmas ev_connect = async_connect_def async_connect_internal_def do_resolve_host_def on_do_resolve_host_def do_connect_def on_connect_def
  do_open_def do_read_def do_read_incoming_message_def do_send_message_def on_open_def complete_connect_def send_heartbeat_def
  do_send_heartbeat_def on_error_def on_close_def
lemmas ev_read = on_read_incoming_data_def on_read_incoming_message_def handle_message_def open_control_channel_rsp_def w_ok_def
lemmas ev_create = async_create_tunnel_def async_create_tunnel_internal_def max_request_id_attempts_def do_create_tunnel_def
  invalid_published_tcp_options_def normalize_tunnel_properties_def

lemma client_run_append: "client_run p (es @ fs) = fold (client_step p) fs (client_run p es)"
  by (simp add: client_run_def)

lemma emplace_fresh:
  "0 < n \<Longrightarrow> map_of (c_create_tunnel_ops c) (ids a) = None \<Longrightarrow> emplace_request p ids a n i c =
     do_create_tunnel p (ids a) i (c\<lparr>c_create_tunnel_ops := omap_put (ids a) i (c_create_tunnel_ops c)\<rparr>)"
  by (cases n) simp_all

definition w_open :: "cevent list" where
  "w_open = [C_connect empty_address, C_reply 0 (w_reply ec_ok []), C_reply 1 (w_reply ec_ok []), C_reply 1 (w_reply ec_ok []),
     C_reply 2 (w_reply ec_ok [1])]"

definition w_fail :: "cevent list" where
  "w_fail = [C_connect empty_address, C_reply 0 (w_reply ec_ok []), C_reply 1 (w_reply (rstrm_ec Operation_aborted) [])]"

definition w_create :: "cevent list" where
  "w_create = [C_create empty_tunnel_properties, C_reply 4 (w_reply ec_ok [])]"

definition w_open_req :: message where
  "w_open_req = Open_control_channel_req (convert_client_details_to empty_proto_client_details (get_client_details_token w_build None)) None"

lemma w_open_run:
  "client_run w_params w_open = client_init\<lparr>c_state := St_connected, c_generation := 1, c_is_state_non_null := True,
     c_buffer := [65535], c_client_details := Some (get_client_details_token w_build None),
     c_connects := [\<lparr>co_cancelled = False, co_completed = True, co_reserved = True\<rparr>], c_timers := [True, False],
     c_out := [P_state_timer 0 1, P_send 1 False, P_heartbeat_timer 1 1, P_recv 1],
     c_log := [Sent 1 w_open_req, Connect_done 0 ec_ok]\<rparr>"
  by (simp add: client_run_def w_open_def client_init_def ev_primitives ev_connect ev_read w_open_req_def)

lemma w_fail_run:
  "client_run w_params w_fail = client_init\<lparr>c_state := St_closing, c_generation := 2, c_is_state_non_null := True, c_close_pending := True,
     c_connect_op := Some 0, c_connects := [\<lparr>co_cancelled = False, co_completed = False, co_reserved = True\<rparr>], c_timers := [True],
     c_out := [P_state_timer 0 1, P_queue_cancel (rstrm_ec Operation_aborted) St_connecting None], c_log := [Resolver_cancel]\<rparr>"
  by (simp add: client_run_def w_fail_def client_init_def ev_primitives ev_connect rstrm_ec_def)

lemma w_create_run:
  "client_run w_params (w_open @ w_create) = (client_run w_params w_open)\<lparr>
     c_creates := [\<lparr>cr_properties = empty_tunnel_properties, cr_cancelled = False, cr_completed = False\<rparr>],
     c_create_tunnel_ops := [(''r'', 0)],
     c_out := [P_state_timer 0 1, P_send 1 False, P_heartbeat_timer 1 1, P_recv 1, P_send 1 False],
     c_log := [Sent 1 w_open_req, Connect_done 0 ec_ok,
       Sent 1 (Open_tunnel_req ''r'' (convert_tunnel_properties_to empty_proto_tunnel_properties empty_tunnel_properties))]\<rparr>"
  by (simp add: client_run_append w_create_def w_open_run client_init_def ev_primitives ev_connect ev_create
      empty_tunnel_properties_def emplace_fresh)

end
