(* ===== verification/ClientCorrect.thy ===== *)
theory ClientCorrect
  imports ClientInv ClientSample
begin

text \<open>
  What the invariant of the client means for its users: every operation is answered once and none is
  lost, the reservation of the client is honoured, the messages of a connection are those of a session,
  a client that is not in the null state always waits for something, and the streams stay within their limit.
\<close>

section \<open>The machine\<close>

interpretation ctl: invariant_machine "client_step p" "client_inv p" for p
  by unfold_locales (simp add: client_step_def client_event_inv)

lemma client_run_inv: "client_inv p (client_run p es)"
  unfolding client_run_def by (rule ctl.run_inv [OF client_inv_init])

lemmas run_invD = client_invD [OF client_run_inv]

section \<open>Operations\<close>

text \<open>
  C1: the completion handler of an operation is invoked at most once, and only that of an operation that
  was started, whatever the interleaving of calls, cancellations, answers of the network and timers.
\<close>

theorem client_operations_once:
  "distinct (connect_ids (c_log (client_run p es))) \<and> distinct (create_ids (c_log (client_run p es)))
   \<and> distinct (accept_ids (c_log (client_run p es)))
   \<and> set (connect_ids (c_log (client_run p es))) \<subseteq> {..<length (c_connects (client_run p es))}
   \<and> set (create_ids (c_log (client_run p es))) \<subseteq> {..<length (c_creates (client_run p es))}
   \<and> set (accept_ids (c_log (client_run p es))) \<subseteq> {..<length (c_accepts (client_run p es))}"
proof -
  have "ops_ok ds js W ids \<Longrightarrow> distinct ids \<and> set ids \<subseteq> {..<length ds}" for ds js W ids by (auto simp: ops_ok_def)
  from this [OF connect_invD(1) [OF run_invD(1)]] this [OF create_inv_iff [THEN iffD1, OF run_invD(2), THEN conjunct1]]
    this [OF accept_core_def [THEN iffD1, OF accept_inv_iff [THEN iffD1, OF run_invD(3), THEN conjunct1], THEN conjunct1]]
  show ?thesis by simp
qed

text \<open>
  C12: nothing is lost. Once the client is back in its null state and no call is waiting for the strand,
  every connect, every creation of a tunnel and every accept that was ever started has been answered.
\<close>

theorem client_nothing_lost:
  assumes "c_state (client_run p es) = St_null"
    and "connect_jobs (c_out (client_run p es)) = []" and "create_jobs (c_out (client_run p es)) = []" and "accept_jobs (c_out (client_run p es)) = []"
  shows "set (connect_ids (c_log (client_run p es))) = {..<length (c_connects (client_run p es))}
       \<and> set (create_ids (c_log (client_run p es))) = {..<length (c_creates (client_run p es))}
       \<and> set (accept_ids (c_log (client_run p es))) = {..<length (c_accepts (client_run p es))}"
proof -
  let ?c = "client_run p es"
  have null: "c_create_tunnel_ops ?c = []" "c_tunnels ?c = []" using run_invD(6) assms(1) by (simp_all add: null_inv_def)
  have "c_connect_op ?c = None" using connect_invD(3) [OF run_invD(1)] assms(1) by (cases "c_connect_op ?c") auto
  then have "set (connect_ids (c_log ?c)) = {..<length (c_connects ?c)}"
    using ops_ok_idle connect_invD(1) [OF run_invD(1), of p es] assms(2) by fastforce
  moreover have "set (create_ids (c_log ?c)) = {..<length (c_creates ?c)}"
    using ops_ok_idle create_inv_iff [THEN iffD1, OF run_invD(2), of p es] null assms(3) by fastforce
  moreover have "set (accept_ids (c_log ?c)) = {..<length (c_accepts ?c)}"
  proof -
    have "ran (slot_of []) = {}" by (simp add: slot_of_def ran_def)
    then have "ops_ok (map ao_completed (c_accepts ?c)) [] {} (accept_ids (c_log ?c))"
      using accept_inv_iff [THEN iffD1, OF run_invD(3), of p es] null assms(4) by (simp add: accept_core_def)
    from ops_ok_idle [OF this] show ?thesis by simp
  qed
  ultimately show ?thesis by blast
qed

lemma w_gone:
  "client_run w_params (w_fail @ [C_reply 1 (w_reply ec_ok [])]) = client_init\<lparr>c_generation := 2,
     c_connects := [\<lparr>co_cancelled = False, co_completed = True, co_reserved = True\<rparr>], c_timers := [True],
     c_out := [P_state_timer 0 1], c_log := [Resolver_cancel, Socket_close, Connect_done 0 (rstrm_ec Operation_aborted)]\<rparr>"
  by (simp add: client_run_append w_fail_run client_init_def ev_primitives on_queue_cancelled_def complete_connect_def rstrm_ec_def empty_status_def)

theorem client_nothing_lost_witness:
  "set (connect_ids (c_log (client_run w_params (w_fail @ [C_reply 1 (w_reply ec_ok [])])))) = {..<1}"
proof -
  let ?es = "w_fail @ [C_reply 1 (w_reply ec_ok [])]"
  have "c_state (client_run w_params ?es) = St_null" "connect_jobs (c_out (client_run w_params ?es)) = []"
      "create_jobs (c_out (client_run w_params ?es)) = []" "accept_jobs (c_out (client_run w_params ?es)) = []"
    by (simp_all only: w_gone) (simp_all add: client_init_def)
  from client_nothing_lost [OF this, THEN conjunct1] show ?thesis by (simp only: w_gone) simp
qed

text \<open>
  The reservation. The client answers with an address, and refuses new callbacks, exactly while it is
  connected to a server or about to be, and a connect that reserved the client is never refused because of
  its state: when its job runs and it was not cancelled, the client is free and starts to connect for it.
\<close>

theorem client_reservation:
  assumes "k < length (c_out (client_run p es))" and "c_out (client_run p es) ! k = P_job (J_connect i)"
    and "\<not> co_completed (c_connects (client_run p es) ! i)" and "\<not> co_cancelled (c_connects (client_run p es) ! i)"
    and "\<not> c_fault (client_run p es)"
  shows "if co_reserved (c_connects (client_run p es) ! i)
         then c_is_state_non_null (client_run p es) \<and> c_state (client_run p es) = St_null
           \<and> c_state (client_run p (es @ [C_reply k r])) = St_connecting
           \<and> c_connect_op (client_run p (es @ [C_reply k r])) = Some i
         else Connect_done i (rstrm_ec Invalid_state) \<in> set (c_log (client_run p (es @ [C_reply k r])))"
proof -
  let ?c = "client_run p es"
  have step: "client_run p (es @ [C_reply k r]) = async_connect_internal p i (take_out k ?c)"
    using assms(1,2,5) by (simp add: client_run_def client_step_def)
  have "i \<in> set (connect_jobs (c_out ?c))"
    using take_out_jobs(1) [OF assms(1)] assms(2) by auto
  then have "c_state ?c = St_null \<and> c_is_state_non_null ?c" if "co_reserved (c_connects ?c ! i)"
    using connect_invD(2) [OF run_invD(1), of p es] that assms(3) by (auto simp: reserve_ok_def holds_def split: if_splits)
  then show ?thesis
    using assms(3,4) unfolding step
    by (auto simp: async_connect_internal_def do_resolve_host_def arm_state_timer_def set_state_def start_def
        complete_connect_def act_def upd_connect_def Let_def)
qed

theorem client_reservation_witness:
  "c_state (client_run w_params [C_connect empty_address, C_reply 0 (w_reply ec_ok [])]) = St_connecting
   \<and> c_connect_op (client_run w_params [C_connect empty_address, C_reply 0 (w_reply ec_ok [])]) = Some 0"
proof -
  let ?c = "client_run w_params [C_connect empty_address]"
  have "0 < length (c_out ?c)" "c_out ?c ! 0 = P_job (J_connect 0)" "\<not> co_completed (c_connects ?c ! 0)"
      "\<not> co_cancelled (c_connects ?c ! 0)" "\<not> c_fault ?c" and reserved: "co_reserved (c_connects ?c ! 0)"
    by (simp_all add: client_run_def client_init_def ev_primitives async_connect_def)
  from client_reservation [OF this(1-5), of "w_reply ec_ok []"] reserved show ?thesis by simp
qed

section \<open>The session\<close>

text \<open>
  C2: refinement of the session protocol. In every run the messages of each connection are accepted by the
  session automaton: the request to open the control channel first, then only tunnel requests, proxy
  responses and heartbeats, and nothing after the request to close it; and for the current connection the
  automaton is in the state that the abstraction function computes from the client's state.
\<close>

theorem client_session_refinement:
  "session_run Session_idle (session_of g (sents (c_log (client_run p es)))) \<noteq> None
   \<and> session_run Session_idle (session_of (c_generation (client_run p es)) (sents (c_log (client_run p es))))
     = Some (session_abs (c_state (client_run p es)) (c_close_pending (client_run p es)) (c_generation (client_run p es))
              (flow (c_generation (client_run p es)) (filter is_flow (c_out (client_run p es)))))"
  using run_invD(4) [of p es] by (simp add: phase_inv_with_def session_ok_def)

text \<open>
  C20: no stalled connection. A client that is not in the null state waits for exactly one step of its own
  connection (a resolution, a connection attempt or a message from the server), or it is ending the
  connection and waits for the send queue to finish cancelling.
\<close>

theorem client_waits:
  "c_state (client_run p es) = St_null
   \<or> length (flow (c_generation (client_run p es)) (filter is_flow (c_out (client_run p es)))) = 1
   \<or> c_close_pending (client_run p es) \<and> length (cancels (c_out (client_run p es))) = 1"
  using run_invD(4) [of p es]
  by (cases "c_state (client_run p es)") (auto simp: phase_inv_with_def phase_ok_def flow_ok_def split: if_splits)

text \<open>
  C22: the limit on the streams of a tunnel. No run makes a tunnel hold more streams than
  \<open>m_max_ongoing_streams\<close>, unless that is zero (no limit).
\<close>

theorem client_stream_limit:
  "list_all (\<lambda>(t, tn). cfg_max_ongoing_streams (cp_config p) = 0 \<or> length (tn_streams tn) \<le> cfg_max_ongoing_streams (cp_config p))
     (c_tunnels (client_run p es))"
proof -
  have "cfg_max_ongoing_streams (cp_config p) = 0 \<or> length (tn_streams tn) \<le> cfg_max_ongoing_streams (cp_config p)"
    if "(t, tn) \<in> set (c_tunnels (client_run p es))" for t tn
  proof -
    have "map_of (c_tunnels (client_run p es)) t = Some tn"
      using that run_invD(7) [of p es] by (simp add: streams_inv_def omap_mem)
    from streams_inv_lookup [OF run_invD(7) this] show ?thesis by (auto simp: streams_ok_def)
  qed
  then show ?thesis by (auto simp: list_all_iff)
qed

section \<open>The end of a connection\<close>

definition end_view :: "client \<Rightarrow> cstate \<times> bool \<times> bool \<times> address \<times> pending list \<times> nat \<times> nat \<times> nat" where
  "end_view c = (c_state c, c_close_pending c, c_is_state_non_null c, c_server_address c, c_out c, length (c_connects c),
     length (c_creates c), length (c_accepts c))"

lemma end_view_completes:
  "end_view (complete_create_tunnel i ec tun c) = end_view c" "end_view (complete_accept_tunnel i ec c) = end_view c"
  "end_view (complete_connect op ec c) = end_view c" "end_view (act a c) = end_view c"
  by (simp_all add: end_view_def complete_create_tunnel_def complete_accept_tunnel_def complete_connect_def act_def
      upd_create_def upd_accept_def upd_connect_def Let_def split: option.splits)

lemma end_view_updates:
  "end_view (c\<lparr>c_create_tunnel_ops := ops\<rparr>) = end_view c" "end_view (c\<lparr>c_tunnels := tns\<rparr>) = end_view c" "end_view (c\<lparr>c_connect_op := op\<rparr>) = end_view c"
  by (simp_all add: end_view_def)

lemma end_view_loops:
  "ec_failed ec \<Longrightarrow> end_view (fail_creates p ec rs c) = end_view c" "end_view (close_tunnels ts c) = end_view c"
proof -
  have "end_view (on_tunnel_response p r q ec d) = end_view d" if "ec_failed ec" for r q d
    using that by (simp add: on_tunnel_response_def Let_def end_view_completes end_view_updates split: option.splits)
  then show "ec_failed ec \<Longrightarrow> end_view (fail_creates p ec rs c) = end_view c" by (induction rs arbitrary: c) simp_all
  have "end_view (close_streams t ss d) = end_view d" for t ss d
    by (induction t ss d rule: close_streams.induct) (simp_all add: end_view_completes)
  then have "end_view (on_tunnel_close t d) = end_view d" for t d
    by (simp add: on_tunnel_close_def Let_def end_view_completes end_view_updates split: option.splits)
  then show "end_view (close_tunnels ts c) = end_view c" by (induction ts arbitrary: c) simp_all
qed

lemma on_queue_cancelled_end:
  assumes "c_close_pending c"
  shows "end_view (on_queue_cancelled p ec cause prev cb c) =
    (St_null, False, False, empty_address, c_out c, length (c_connects c), length (c_creates c), length (c_accepts c))"
    and "c_connect_op (on_queue_cancelled p ec cause prev cb c) = None"
proof -
  define close_cause where "close_cause = (if \<not> ec_failed cause \<and> ec_failed ec then ec else cause)"
  define final where "final = (if ec_failed close_cause then close_cause else rstrm_ec Operation_aborted)"
  have fin: "ec_failed final" unfolding final_def by (rule failed_final)
  define c3 where "c3 = (set_state St_null ((act Socket_close c)\<lparr>c_buffer := [], c_error_code := ec_ok, c_client_details := None,
      c_status := empty_status\<rparr>))\<lparr>c_close_pending := False, c_is_state_non_null := False, c_server_address := empty_address,
      c_control_callbacks := \<lparr>cb_on_disconnection = None, cb_on_status = None\<rparr>\<rparr>"
  define c5 where "c5 = (let c4 = fail_creates p final (map fst (c_create_tunnel_ops c3)) c3 in close_tunnels (map fst (c_tunnels c4)) c4)"
  have "end_view c5 = end_view c3" by (simp add: c5_def Let_def end_view_loops fin)
  moreover have "end_view (on_queue_cancelled p ec cause prev cb c) = end_view c5"
    using assms by (simp add: on_queue_cancelled_def c5_def c3_def final_def close_cause_def Let_def end_view_completes end_view_updates split: option.splits)
  moreover have "end_view c3 = (St_null, False, False, empty_address, c_out c, length (c_connects c), length (c_creates c), length (c_accepts c))"
    by (simp add: c3_def end_view_def set_state_def act_def)
  ultimately show "end_view (on_queue_cancelled p ec cause prev cb c) =
    (St_null, False, False, empty_address, c_out c, length (c_connects c), length (c_creates c), length (c_accepts c))" by simp
  show "c_connect_op (on_queue_cancelled p ec cause prev cb c) = None"
    using assms by (simp add: on_queue_cancelled_def Let_def act_def split: option.splits)
qed

lemma answered:
  assumes "ops_ok ds js W ids" and "i \<in> W" and "ops_ok ds' js' {} ids'" and "set js' \<subseteq> set js" and "length ds' = length ds"
  shows "i \<in> set ids'"
proof -
  have "i < length ds" "i \<notin> set js" using ops_ok_parked [OF assms(1,2)] by auto
  with assms(4,5) have "i < length ds'" "i \<notin> set js'" by auto
  with assms(3) show ?thesis by (auto simp: ops_ok_def)
qed

text \<open>
  When a connection ends, everything goes with it. Once the send queue has been cancelled, the client
  is in the null state, without tunnels, requests, buffer, address or reservation, and every request for a
  tunnel, every accept and the connect that were waiting on the connection have been answered.
\<close>

theorem client_end:
  assumes "k < length (c_out (client_run p es))" and "c_out (client_run p es) ! k = P_queue_cancel cause prev cb"
    and "\<not> c_fault (client_run p es)" and "d = client_run p (es @ [C_reply k r])"
  shows "c_state d = St_null \<and> \<not> c_close_pending d \<and> \<not> c_is_state_non_null d \<and> c_server_address d = empty_address
     \<and> c_tunnels d = [] \<and> c_create_tunnel_ops d = [] \<and> c_buffer d = [] \<and> c_connect_op d = None
     \<and> snd ` set (c_create_tunnel_ops (client_run p es)) \<subseteq> set (create_ids (c_log d))
     \<and> ran (slot_of (c_tunnels (client_run p es))) \<subseteq> set (accept_ids (c_log d))
     \<and> set_option (c_connect_op (client_run p es)) \<subseteq> set (connect_ids (c_log d))"
proof -
  let ?c = "client_run p es"
  have d: "d = on_queue_cancelled p (re_error_code r) cause prev cb (take_out k ?c)"
    using assms by (simp add: client_run_def client_step_def)
  have "c_close_pending (take_out k ?c)"
    using phase_inv_take_out(2) [OF run_invD(4) assms(1,2)] by (auto simp: phase_inv_with_def phase_ok_def split: if_splits)
  note e = on_queue_cancelled_end [OF this] and h = on_queue_cancelled_holdings [OF this]
  have f: "c_state d = St_null" "\<not> c_close_pending d" "\<not> c_is_state_non_null d" "c_server_address d = empty_address" "c_out d = c_out (take_out k ?c)"
      "length (c_connects d) = length (c_connects ?c)" "length (c_creates d) = length (c_creates ?c)" "length (c_accepts d) = length (c_accepts ?c)"
      "c_connect_op d = None" "c_tunnels d = []" "c_create_tunnel_ops d = []" "c_buffer d = []"
    using e h unfolding d by (simp_all add: end_view_def holdings_def)
  have inv: "client_inv p d" using client_run_inv assms(4) by simp
  have js: "set (connect_jobs (c_out d)) \<subseteq> set (connect_jobs (c_out ?c))" "set (create_jobs (c_out d)) \<subseteq> set (create_jobs (c_out ?c))"
      "set (map snd (accept_jobs (c_out d))) \<subseteq> set (map snd (accept_jobs (c_out ?c)))"
    using take_out_jobs [OF assms(1)] unfolding f(5) by auto
  have "i \<in> set (create_ids (c_log d))" if "i \<in> snd ` set (c_create_tunnel_ops ?c)" for i
    by (rule answered [OF create_inv_iff [THEN iffD1, OF run_invD(2), THEN conjunct1] that _ js(2)])
      (use create_inv_iff [THEN iffD1, OF client_invD(2) [OF inv]] f in auto)
  moreover have "i \<in> set (accept_ids (c_log d))" if "i \<in> ran (slot_of (c_tunnels ?c))" for i
  proof -
    have "ran (slot_of []) = {}" by (simp add: slot_of_def ran_def)
    then have "ops_ok (map ao_completed (c_accepts d)) (map snd (accept_jobs (c_out d))) {} (accept_ids (c_log d))"
      using accept_inv_iff [THEN iffD1, OF client_invD(3) [OF inv]] f(10) by (simp add: accept_core_def)
    from answered [OF accept_core_def [THEN iffD1, OF accept_inv_iff [THEN iffD1, OF run_invD(3), THEN conjunct1], THEN conjunct1] that this js(3)] f(8)
    show ?thesis by simp
  qed
  moreover have "i \<in> set (connect_ids (c_log d))" if "i \<in> set_option (c_connect_op ?c)" for i
    by (rule answered [OF connect_invD(1) [OF run_invD(1)] that _ js(1)])
      (use connect_invD(1) [OF client_invD(1) [OF inv]] f in auto)
  ultimately show ?thesis using f by blast
qed

theorem client_end_witness:
  "c_state (client_run w_params (w_fail @ [C_reply 1 (w_reply ec_ok [])])) = St_null
   \<and> 0 \<in> set (connect_ids (c_log (client_run w_params (w_fail @ [C_reply 1 (w_reply ec_ok [])]))))"
proof -
  have "1 < length (c_out (client_run w_params w_fail))"
      "c_out (client_run w_params w_fail) ! 1 = P_queue_cancel (rstrm_ec Operation_aborted) St_connecting None"
      "\<not> c_fault (client_run w_params w_fail)" and op: "c_connect_op (client_run w_params w_fail) = Some 0"
    by (simp_all add: w_fail_run client_init_def)
  from client_end [OF this(1-3) refl, of "w_reply ec_ok []"] op show ?thesis by simp
qed

end
