(* ===== verification/ClientPolicy.thy ===== *)
theory ClientPolicy
  imports ClientCorrect
begin

text \<open>
  What the client may say. A policy on messages that allows everything but the request that opens the
  control channel is kept by every handler except the one that sends this request; the instance of interest
  is that no message carries an authentication token. The second part follows the undefined behaviour of
  the client to the two messages of the server that cause it.
\<close>

section \<open>Policies on messages\<close>

definition sent_all :: "(message \<Rightarrow> bool) \<Rightarrow> client \<Rightarrow> bool" where
  "sent_all Q c = list_all (\<lambda>x. Q (snd x)) (sents (c_log c))"

locale message_policy =
  fixes Q :: "message \<Rightarrow> bool"
  assumes session_ok: "session_message m \<Longrightarrow> Q m"
    and close_ok: "Q Close_control_channel_req"
begin

lemma frame: "phase_view d = phase_view c \<Longrightarrow> sent_all Q d = sent_all Q c"
  by (simp add: sent_all_def phase_view_def)

lemma set_state_sent [simp]: "sent_all Q (set_state s c) = sent_all Q c"
  by (simp add: sent_all_def set_state_def)

lemma act_sent [simp]: "sents [a] = [] \<Longrightarrow> sent_all Q (act a c) = sent_all Q c"
  by (simp add: sent_all_def act_def)

lemma start_sent [simp]: "sent_all Q (start x c) = sent_all Q c"
  by (simp add: sent_all_def start_def)

lemma complete_connect_sent [simp]: "sent_all Q (complete_connect op ec c) = sent_all Q c"
  by (simp add: sent_all_def complete_connect_def act_def upd_connect_def Let_def split: option.splits)

lemma updates_sent [simp]:
  "sent_all Q (c\<lparr>c_close_pending := x, c_generation := g\<rparr>) = sent_all Q c" "sent_all Q (c\<lparr>c_generation := g, c_connect_op := op\<rparr>) = sent_all Q c"
  "sent_all Q (c\<lparr>c_error_code := ec\<rparr>) = sent_all Q c" "sent_all Q (c\<lparr>c_client_details := cd\<rparr>) = sent_all Q c"
  "sent_all Q (c\<lparr>c_buffer := b\<rparr>) = sent_all Q c" "sent_all Q (c\<lparr>c_status := st\<rparr>) = sent_all Q c"
  "sent_all Q (c\<lparr>c_create_tunnel_ops := ops\<rparr>) = sent_all Q c" "sent_all Q (c\<lparr>c_tunnels := tns\<rparr>) = sent_all Q c"
  "sent_all Q (c\<lparr>c_connect_op := op\<rparr>) = sent_all Q c" "sent_all Q (c\<lparr>c_generation := g\<rparr>) = sent_all Q c"
  "sent_all Q (c\<lparr>c_close_pending := x\<rparr>) = sent_all Q c"
  by (simp_all add: sent_all_def)

lemma quiet_sent [simp]:
  "sent_all Q (arm_state_timer n c) = sent_all Q c" "sent_all Q (timer_clean t c) = sent_all Q c"
  "sent_all Q (release_connect_reservation i c) = sent_all Q c" "sent_all Q (do_send_heartbeat p c) = sent_all Q c"
  "sent_all Q (complete_create_tunnel i ec tun c) = sent_all Q c" "sent_all Q (complete_accept_tunnel i ec c) = sent_all Q c"
  "sent_all Q (put_tunnel t' tn c) = sent_all Q c" "sent_all Q (upd_accept i f c) = sent_all Q c" "sent_all Q (fault c) = sent_all Q c"
  "sent_all Q (accept_stream t' tn i s sc c) = sent_all Q c" "sent_all Q (on_tunnel_close t' c) = sent_all Q c"
  "sent_all Q (cancel_create_tunnel i c) = sent_all Q c" "sent_all Q (cancel_accept_tunnel t' i c) = sent_all Q c"
  by (rule frame, simp)+

lemma close_sent [simp]: "sent_all Q (on_close ec c) = sent_all Q c" "sent_all Q (on_error ec c) = sent_all Q c"
  by (simp_all add: on_close_def on_error_def Let_def)

lemma do_send_message_sent [simp]: "Q m \<Longrightarrow> sent_all Q c \<Longrightarrow> sent_all Q (do_send_message p m hb c)"
  by (simp add: do_send_message_def) (simp add: sent_all_def act_def)

lemma simple_sent [simp]:
  "sent_all Q c \<Longrightarrow> sent_all Q (close_internal p ec c)" "sent_all Q c \<Longrightarrow> sent_all Q (on_heartbeat_timer p t g ec c)"
  "sent_all Q (on_state_timer t g ec c) = sent_all Q c" "sent_all Q (on_send_message p g ec hb c) = sent_all Q c"
  "sent_all Q (cancel_connect i c) = sent_all Q c" "sent_all Q (async_connect_internal p i c) = sent_all Q c"
  "sent_all Q (on_do_resolve_host g ec em c) = sent_all Q c" "sent_all Q (do_read_incoming_message c) = sent_all Q c"
  "sent_all Q (do_read p c) = sent_all Q c" "sent_all Q (on_open p c) = sent_all Q c"
  by (simp_all add: close_internal_def on_heartbeat_timer_def on_state_timer_def on_send_message_def cancel_connect_def
      async_connect_internal_def do_resolve_host_def on_do_resolve_host_def do_connect_def do_read_incoming_message_def do_read_def
      on_open_def send_heartbeat_def session_ok close_ok Let_def split: option.splits)

lemma tunnels_sent [simp]:
  "sent_all Q c \<Longrightarrow> sent_all Q (do_create_tunnel p r i c)" "sent_all Q c \<Longrightarrow> sent_all Q (close_tunnel_internal p t c)"
  "sent_all Q c \<Longrightarrow> sent_all Q (do_send_proxy_response p s ec c)"
  by (simp_all add: do_create_tunnel_def close_tunnel_internal_def do_close_tunnel_def do_send_proxy_response_def session_ok split: option.splits)

lemma emplace_request_sent [simp]: "sent_all Q c \<Longrightarrow> sent_all Q (emplace_request p ids a n i c)"
  by (induction p ids a n i c rule: emplace_request.induct) simp_all

lemma create_sent [simp]:
  "sent_all Q c \<Longrightarrow> sent_all Q (async_create_tunnel_internal p ids i c)" "sent_all Q c \<Longrightarrow> sent_all Q (on_tunnel_response p r q ec c)"
  by (simp_all add: async_create_tunnel_internal_def on_tunnel_response_def Let_def split: option.splits)

lemma on_connect_stream_sent [simp]: "sent_all Q c \<Longrightarrow> sent_all Q (on_connect_stream p g t s ec c)"
  by (simp add: on_connect_stream_def Let_def split: option.splits)

lemma do_connect_stream_sent [simp]: "sent_all Q c \<Longrightarrow> sent_all Q (do_connect_stream p se t s c)"
  by (simp add: do_connect_stream_def Let_def split: option.splits)

lemma accept_sent [simp]:
  "sent_all Q c \<Longrightarrow> sent_all Q (on_proxy_request p se t s x c)" "sent_all Q c \<Longrightarrow> sent_all Q (async_accept_tunnel_internal p im se t i c)"
  by (simp_all add: on_proxy_request_def async_accept_tunnel_internal_def Let_def split: option.splits prod.splits)

lemma handle_message_sent: "sent_all Q c \<Longrightarrow> sent_all Q (snd (handle_message p se msg c))"
  by (simp add: handle_message_def open_control_channel_rsp_def open_tunnel_rsp_def close_tunnel_rsp_def proxy_conn_request_def
      split: message.splits open_rsp.splits tunnel_rsp.splits option.splits sum.splits)

lemma on_read_sent [simp]: "sent_all Q c \<Longrightarrow> sent_all Q (on_read_incoming_data p se g ec bs c)"
  using handle_message_sent [of c p se]
  by (simp add: on_read_incoming_data_def on_read_incoming_message_def case_prod_beta split: option.splits)

lemma on_queue_cancelled_sent [simp]: "sent_all Q c \<Longrightarrow> sent_all Q (on_queue_cancelled p ec cause prev cb c)"
proof -
  assume a: "sent_all Q c"
  have creates: "sent_all Q (fail_creates p e rs d) \<longleftrightarrow> sent_all Q d" if "ec_failed e" for e rs d
    by (rule frame [OF phase_view_fail_creates [OF that]])
  have tunnels: "sent_all Q (close_tunnels ts d) = sent_all Q d" for ts d by (rule frame) simp
  have reset: "sent_all Q (d\<lparr>c_close_pending := x, c_is_state_non_null := y, c_server_address := ad, c_control_callbacks := cbs\<rparr>) = sent_all Q d"
      "sent_all Q (d\<lparr>c_buffer := b, c_error_code := e, c_client_details := cd, c_status := st\<rparr>) = sent_all Q d" for d x y ad cbs b e cd st
    by (simp_all add: sent_all_def)
  have "ec_failed (rstrm_ec Operation_aborted)" by (simp add: rstrm_ec_def)
  with a show ?thesis by (simp add: on_queue_cancelled_def Let_def creates tunnels reset split: option.splits)
qed

text \<open>Only the request that opens the channel has to be looked at.\<close>

lemma on_connect_sent:
  assumes "sent_all Q c" and "\<And>d. (pcd_token d \<noteq> None \<Longrightarrow> sec) \<Longrightarrow> Q (Open_control_channel_req d None)"
  shows "sent_all Q (on_connect p g ec sec c)"
proof -
  have "sent_all Q (do_open p sec c)" if st: "c_state c = St_connecting"
  proof (cases "open_fails p sec c")
    case True
    then obtain e x where "do_open p sec c = on_error e (c\<lparr>c_client_details := x\<rparr>)" using do_open_fails [of c p sec] st by auto
    with assms(1) show ?thesis by simp
  next
    case False
    then obtain d x where d: "pcd_token d \<noteq> None \<longrightarrow> sec" "do_open p sec c =
        start (P_send (c_generation c) False) (act (Sent (c_generation c) (Open_control_channel_req d None)) (c\<lparr>c_client_details := x\<rparr>))"
      using do_open_sends [of c p sec] st by auto
    have "sent_all Q (act (Sent g' m) e) \<longleftrightarrow> sent_all Q e \<and> Q m" for g' m e by (simp add: sent_all_def act_def)
    with assms d show ?thesis by simp
  qed
  with assms(1) show ?thesis by (simp add: on_connect_def)
qed

lemma client_event_sent:
  assumes "sent_all Q c"
    and "\<And>k r d. e = C_reply k r \<Longrightarrow> (pcd_token d \<noteq> None \<Longrightarrow> re_is_secure r) \<Longrightarrow> Q (Open_control_channel_req d None)"
  shows "sent_all Q (client_event p e c)"
proof (cases e)
  case (C_reply k r)
  have t: "sent_all Q (take_out k c)" using assms(1) by (simp add: sent_all_def)
  have "sent_all Q (answer p r x (take_out k c))" for x
  proof (cases x)
    case (P_job j)
    with t show ?thesis by (cases j) simp_all
  next
    case (P_connect g)
    with on_connect_sent [OF t, of "re_is_secure r"] assms(2) [OF C_reply] show ?thesis by simp
  qed (use t in simp_all)
  with C_reply assms(1) show ?thesis by simp
qed (use assms(1) in \<open>auto simp: async_connect_def async_connect_default_def async_create_tunnel_def async_accept_tunnel_def close_tunnel_def
      client_close_def set_control_callbacks_def slot_connect_def slot_create_def slot_accept_def Let_def
      sent_all_def act_def start_def upd_connect_def upd_create_def upd_accept_def split: option.splits\<close>)

end

section \<open>Tokens\<close>

definition no_token :: "message \<Rightarrow> bool" where
  "no_token m \<longleftrightarrow> message_token m = None"

interpretation tok: message_policy no_token
proof unfold_locales
  fix m show "session_message m \<Longrightarrow> no_token m" by (cases m) (auto simp: no_token_def)
  show "no_token Close_control_channel_req" by (simp add: no_token_def)
qed

fun insecure_event :: "cevent \<Rightarrow> bool" where
  "insecure_event (C_reply k r) = (\<not> re_is_secure r)"
| "insecure_event _ = True"

text \<open>
  C18: the authentication token stays on secure connections. In a run in which no socket that gets connected
  is secure, no message that the client hands to its send queue carries a token, whatever is configured.
\<close>

theorem client_token_confidential:
  assumes "list_all insecure_event es"
  shows "list_all (\<lambda>(g, m). message_token m = None) (sents (c_log (client_run p es)))"
proof -
  have "sent_all no_token (client_step p e c)" if "sent_all no_token c" "insecure_event e" for e c
  proof -
    have "no_token (Open_control_channel_req d None)" if "e = C_reply k r" "pcd_token d \<noteq> None \<Longrightarrow> re_is_secure r" for k r d
      using that \<open>insecure_event e\<close> by (cases "pcd_token d") (auto simp: no_token_def)
    then show ?thesis using tok.client_event_sent [OF that(1), of e p] that(1) by (simp add: client_step_def)
  qed
  then have "sent_all no_token (fold (client_step p) es c)" if "sent_all no_token c" for c
    using that assms by (induction es arbitrary: c) auto
  from this [of client_init] show ?thesis
    by (simp add: sent_all_def client_run_def client_init_def no_token_def case_prod_unfold)
qed

theorem client_token_confidential_witness:
  "list_all (\<lambda>(g, m). message_token m = None) (sents (c_log (client_run w_params w_open))) \<and> sents (c_log (client_run w_params w_open)) \<noteq> []"
proof -
  have "list_all insecure_event w_open" by (simp add: w_open_def)
  from client_token_confidential [OF this, of w_params] show ?thesis by (simp add: w_open_run)
qed

section \<open>Undefined behaviour\<close>

lemma fault_primitives [simp]:
  "c_fault (act a c) = c_fault c" "c_fault (start x c) = c_fault c" "c_fault (set_state s c) = c_fault c"
  "c_fault (arm_state_timer n c) = c_fault c" "c_fault (timer_clean t c) = c_fault c" "c_fault (upd_connect i f c) = c_fault c"
  "c_fault (upd_create i fc c) = c_fault c" "c_fault (upd_accept i fa c) = c_fault c" "c_fault (put_tunnel t' tn c) = c_fault c"
  by (simp_all add: act_def start_def set_state_def arm_state_timer_def timer_clean_def upd_connect_def upd_create_def upd_accept_def put_tunnel_def)

lemma fault_completes [simp]:
  "c_fault (complete_connect op ec c) = c_fault c" "c_fault (complete_create_tunnel i ec tun c) = c_fault c"
  "c_fault (complete_accept_tunnel i ec c) = c_fault c" "c_fault (on_close ec c) = c_fault c" "c_fault (on_error ec c) = c_fault c"
  "c_fault (do_send_message p m hb c) = c_fault c" "c_fault (close_internal p ec c) = c_fault c" "c_fault (do_send_heartbeat p c) = c_fault c"
  by (simp_all add: complete_connect_def complete_create_tunnel_def complete_accept_tunnel_def on_close_def on_error_def do_send_message_def
      close_internal_def do_send_heartbeat_def Let_def split: option.splits)

lemma fault_connects [simp]:
  "c_fault (on_heartbeat_timer p t g ec c) = c_fault c" "c_fault (on_state_timer t g ec c) = c_fault c"
  "c_fault (on_send_message p g ec hb c) = c_fault c" "c_fault (release_connect_reservation i c) = c_fault c"
  "c_fault (on_do_resolve_host g ec em c) = c_fault c" "c_fault (do_open p sec c) = c_fault c"
  "c_fault (do_read_incoming_message c) = c_fault c" "c_fault (do_read p c) = c_fault c" "c_fault (on_open p c) = c_fault c"
  by (simp_all add: on_heartbeat_timer_def on_state_timer_def on_send_message_def release_connect_reservation_def on_do_resolve_host_def
      do_connect_def do_open_def do_read_incoming_message_def do_read_def on_open_def send_heartbeat_def Let_def split: sum.splits option.splits)

lemma fault_connecting [simp]:
  "c_fault (cancel_connect i c) = c_fault c" "c_fault (async_connect_internal p i c) = c_fault c" "c_fault (on_connect p g ec sec c) = c_fault c"
  by (simp_all add: cancel_connect_def async_connect_internal_def do_resolve_host_def on_connect_def)

lemma fault_tunnels [simp]:
  "c_fault (do_create_tunnel p r i c) = c_fault c" "c_fault (close_tunnel_internal p t c) = c_fault c"
  "c_fault (do_send_proxy_response p s ec c) = c_fault c" "c_fault (cancel_create_tunnel i c) = c_fault c"
  "c_fault (cancel_accept_tunnel t i c) = c_fault c" "c_fault (accept_stream t tn i s sc c) = c_fault c"
  by (simp_all add: do_create_tunnel_def close_tunnel_internal_def do_close_tunnel_def do_send_proxy_response_def cancel_create_tunnel_def
      cancel_accept_tunnel_def accept_stream_def Let_def split: option.splits)

lemma fault_emplace [simp]: "c_fault (emplace_request p ids a n i c) = c_fault c"
  by (induction p ids a n i c rule: emplace_request.induct) simp_all

lemma fault_streams [simp]:
  "c_fault (async_create_tunnel_internal p ids i c) = c_fault c" "c_fault (on_connect_stream p g t s ec c) = c_fault c"
  by (simp_all add: async_create_tunnel_internal_def on_connect_stream_def Let_def split: option.splits)

lemma fault_connect_stream [simp]: "c_fault (do_connect_stream p se t s c) = c_fault c"
  by (simp add: do_connect_stream_def Let_def split: option.splits)

lemma fault_accept [simp]:
  "c_fault (on_proxy_request p se t s x c) = c_fault c" "c_fault (async_accept_tunnel_internal p im se t i c) = c_fault c"
  by (simp_all add: on_proxy_request_def async_accept_tunnel_internal_def Let_def split: option.splits prod.splits)

lemma fault_close_streams [simp]: "c_fault (close_streams t ss c) = c_fault c"
  by (induction t ss c rule: close_streams.induct) simp_all

lemma fault_tunnel_close [simp]: "c_fault (on_tunnel_close t c) = c_fault c"
  by (simp add: on_tunnel_close_def Let_def split: option.splits)

lemma fault_response:
  "ec_failed ec \<or> m_id q \<noteq> None \<Longrightarrow> c_fault (on_tunnel_response p r q ec c) = c_fault c"
  by (auto simp: on_tunnel_response_def Let_def split: option.splits)

lemma fault_loops: "ec_failed ec \<Longrightarrow> c_fault (fail_creates p ec rs c) = c_fault c" "c_fault (close_tunnels ts c) = c_fault c"
proof -
  show "ec_failed ec \<Longrightarrow> c_fault (fail_creates p ec rs c) = c_fault c" by (induction rs arbitrary: c) (simp_all add: fault_response)
  show "c_fault (close_tunnels ts c) = c_fault c" by (induction ts arbitrary: c) simp_all
qed

lemma fault_cancelled [simp]: "c_fault (on_queue_cancelled p ec cause prev cb c) = c_fault c"
proof -
  have "ec_failed (rstrm_ec Operation_aborted)" by (simp add: rstrm_ec_def)
  then show ?thesis by (simp add: on_queue_cancelled_def Let_def fault_loops split: option.splits)
qed

text \<open>The messages that make the client run into undefined behaviour when a request for a tunnel is waiting.\<close>

fun harmful :: "message \<Rightarrow> bool" where
  "harmful (Open_tunnel_rsp r (Tunnel_error e)) = (pe_code e = 0)"
| "harmful (Open_tunnel_rsp r (Tunnel_ok q)) = (convert_tunnel_properties_from empty_tunnel_properties q = None)"
| "harmful _ = False"

lemma fault_handle: "\<not> harmful msg \<Longrightarrow> c_fault (snd (handle_message p se msg c)) = c_fault c"
  by (auto simp: handle_message_def open_control_channel_rsp_def open_tunnel_rsp_def close_tunnel_rsp_def proxy_conn_request_def
      fault_response make_error_code_def rstrm_ec_def split: message.splits open_rsp.splits tunnel_rsp.splits option.splits sum.splits)

fun harmless_event :: "client_params \<Rightarrow> cevent \<Rightarrow> bool" where
  "harmless_event p (C_reply k r) = (case parse_protobuf_message (cp_dec p) (re_bytes r) of None \<Rightarrow> True | Some m \<Rightarrow> \<not> harmful m)"
| "harmless_event p _ = True"

lemma is_message_expected_connected: "s \<noteq> St_null \<Longrightarrow> \<exists>b. is_message_expected s m = Some b"
  by (cases s) auto

lemma fault_read_message: "\<not> harmful m \<Longrightarrow> c_fault (on_read_incoming_message p se g m c) = c_fault c"
proof (cases "c_state c = St_null")
  case False
  assume h: "\<not> harmful m"
  obtain b where "is_message_expected (c_state c) m = Some b" using is_message_expected_connected [OF False] by blast
  then show ?thesis using h by (simp add: on_read_incoming_message_def case_prod_beta fault_handle)
qed (simp add: on_read_incoming_message_def)

lemma fault_read:
  assumes "case parse_protobuf_message (cp_dec p) bs of None \<Rightarrow> True | Some m \<Rightarrow> \<not> harmful m"
  shows "c_fault (on_read_incoming_data p se g ec bs c) = c_fault c"
  using assms by (simp add: on_read_incoming_data_def fault_read_message split: option.splits)

lemma fault_step: "harmless_event p e \<Longrightarrow> c_fault (client_step p e c) = c_fault c"
proof (cases e)
  case (C_reply k r)
  assume h: "harmless_event p e"
  have "c_fault (answer p r x d) = c_fault d" for x d
  proof (cases x)
    case (P_job j)
    then show ?thesis by (cases j) simp_all
  qed (use h C_reply in \<open>simp_all add: fault_read\<close>)
  with C_reply show ?thesis by (simp add: client_step_def)
qed (simp_all add: client_step_def async_connect_def async_connect_default_def async_create_tunnel_def async_accept_tunnel_def close_tunnel_def
      client_close_def set_control_callbacks_def slot_connect_def slot_create_def slot_accept_def Let_def split: option.splits)



text \<open>
  Such a response does reach the failing access: when a request waits for its response and the server
  answers with an error whose code is \<open>ERROR_CODE_UNSPECIFIED\<close> (zero), the error code converts to false
  and the identifier of properties that were never filled in is read.
\<close>

theorem client_zero_code_fault:
  assumes "c_state c = St_connected \<or> c_state c = St_closing" and "map_of (c_create_tunnel_ops c) request_id = Some i"
    and "parse_protobuf_message (cp_dec p) bs = Some (Open_tunnel_rsp request_id (Tunnel_error e))" and "pe_code e = 0"
  shows "c_fault (on_read_incoming_data p se (c_generation c) ec_ok bs c)"
  using assms
  by (auto simp: on_read_incoming_data_def on_read_incoming_message_def handle_message_def open_tunnel_rsp_def on_tunnel_response_def
      make_error_code_def empty_tunnel_properties_def fault_def do_read_incoming_message_def start_def)

theorem client_zero_code_fault_witness:
  "c_fault (on_read_incoming_data w_params ec_ok 1 ec_ok [2] (client_run w_params (w_open @ w_create)))"
proof -
  let ?c = "client_run w_params (w_open @ w_create)"
  have "c_state ?c = St_connected \<or> c_state ?c = St_closing" "map_of (c_create_tunnel_ops ?c) ''r'' = Some 0"
      "parse_protobuf_message (cp_dec w_params) [2] = Some (Open_tunnel_rsp ''r'' (Tunnel_error \<lparr>pe_code = 0, pe_message = None\<rparr>))"
      "pe_code \<lparr>pe_code = 0, pe_message = None\<rparr> = 0" and gen: "c_generation ?c = 1"
    by (simp_all add: w_create_run w_open_run w_refused_def)
  from client_zero_code_fault [OF this(1-4), of ec_ok] gen show ?thesis by simp
qed

end
