(* ===== verification/Handshake.thy ===== *)
theory Handshake
  imports Messages
begin

text \<open>
  Model of \<open>lib/rstream/io-rstrm/detail/handshake.hpp\<close>: the request that opens a stream (towards a
  tunnel) or a proxied connection (from the engine), its response, and the control callback that grows
  the receive buffer. The connection is the pair of a reader and a writer over a stream state, its
  security a flag; one run is the composition of the operation's completion handlers.
\<close>

datatype hs_type = Hs_stream_req | Hs_proxy_req

section \<open>The request\<close>

definition handshake_request ::
  "'a config_scheme \<Rightarrow> hs_type \<Rightarrow> string \<Rightarrow> proto_client_details \<Rightarrow> message" where
  "handshake_request cfg ty id_name d =
     (let r = \<lparr>rq_client_details = d, rq_id_name = id_name,
               rq_zero_rtt = (if cfg_zero_rtt cfg then Some True else None)\<rparr>
      in case ty of Hs_stream_req \<Rightarrow> Stream_req r | Hs_proxy_req \<Rightarrow> Proxy_req r)"

text \<open>The first part of \<open>do_write_request\<close>: the message, or the error that ends the handshake.\<close>

definition build_request ::
  "build_info \<Rightarrow> outside \<Rightarrow> 'a config_scheme \<Rightarrow> address \<Rightarrow> bool \<Rightarrow> hs_type \<Rightarrow> string \<Rightarrow> string option
     \<Rightarrow> error_code + message" where
  "build_request b os cfg server_address is_secure ty id_name token =
     (case (case token of
              Some t \<Rightarrow> Inr (get_client_details_token b (Some t))
            | None \<Rightarrow> get_client_details b os cfg server_address) of
        Inl ec \<Rightarrow> Inl ec
      | Inr details \<Rightarrow>
          (let d = convert_client_details_to empty_proto_client_details details in
           if pcd_token d \<noteq> None \<and> \<not> is_secure then Inl (rstrm_ec Protocol_error)
           else Inr (handshake_request cfg ty id_name d)))"

section \<open>The response\<close>

definition on_read_incoming_protobuf_message :: "hs_type \<Rightarrow> message \<Rightarrow> error_code" where
  "on_read_incoming_protobuf_message ty msg =
     (case (ty, msg) of
        (Hs_stream_req, Stream_rsp rsp) \<Rightarrow>
          (case rsp of
             Stream_error e \<Rightarrow> make_error_code (pe_code e)
           | Stream_not_set \<Rightarrow> rstrm_ec Protocol_error
           | Stream_id i \<Rightarrow> ec_ok)
      | (Hs_proxy_req, Proxy_rsp rsp) \<Rightarrow>
          (case rsp of Some e \<Rightarrow> make_error_code (pe_code e) | None \<Rightarrow> ec_ok)
      | _ \<Rightarrow> rstrm_ec Protocol_error)"

text \<open>
  \<open>payloader_control_cb\<close>: the buffer is reset and, when the announced message is longer than its
  capacity, extended by the missing bytes, at most \<open>m_max_buffer_size\<close> of them.
\<close>

definition payloader_control_cb :: "nat \<Rightarrow> control_cb" where
  "payloader_control_cb max_buffer_size st bl n =
     (let st1 = buffer_reset_size st bl in
      case get_size_full st1 bl of
        Inl e \<Rightarrow> (Some (Cb_system_error (core_ec e)), st1, bl)
      | Inr (_, _, maxsize) \<Rightarrow>
          if n > maxsize then
            (case make_memory_allocated st1 (min (n - maxsize) max_buffer_size) of
               (m, st2) \<Rightarrow>
                 (case buffer_append bl m of
                    Inl e \<Rightarrow> (Some (Cb_system_error (core_ec e)), st2, bl)
                  | Inr bl' \<Rightarrow> (None, st2, bl')))
          else (None, st1, bl))"

section \<open>A run\<close>

datatype hs_end = Hs_done error_code | Hs_throw core_error

definition run_read_response ::
  "nat \<Rightarrow> (byte list \<Rightarrow> message option) \<Rightarrow> 's reader \<Rightarrow> hs_type \<Rightarrow> store \<Rightarrow> blocks \<Rightarrow> 's \<Rightarrow> hs_end \<times> store \<times> blocks \<times> 's" where
  "run_read_response max_buffer_size dec rd ty st bl s =
     (case payloader_recv (Some (payloader_control_cb max_buffer_size)) rd st bl s of
        (Recv_throw e, st1, bl1, s1) \<Rightarrow> (Hs_throw e, st1, bl1, s1)
      | (Recv_done ec, st1, bl1, s1) \<Rightarrow>
          if ec_failed ec then (Hs_done ec, st1, bl1, s1)
          else
            (case buffer_map st1 bl1 Map_write of
               (Inl e, st2, bl2) \<Rightarrow> (Hs_throw e, st2, bl2, s1)
             | (Inr m, st2, bl2) \<Rightarrow>
                 (case get_size st2 bl2 of
                    Inl e \<Rightarrow> (Hs_throw e, st2, bl2, s1)
                  | Inr n \<Rightarrow>
                      (case parse_protobuf_message dec (read_ptr st2 (mem_get_const_data st2 m) n) of
                         Some msg \<Rightarrow> (Hs_done (on_read_incoming_protobuf_message ty msg), st2, bl2, s1)
                       | None \<Rightarrow> (Hs_done (rstrm_ec Protocol_error), st2, bl2, s1)))))"

type_synonym 's writer = "'s \<Rightarrow> byte list \<Rightarrow> error_code \<times> 's"

text \<open>The second result is what was handed to the transport.\<close>

definition handshake_run ::
  "build_info \<Rightarrow> outside \<Rightarrow> 'a config_scheme \<Rightarrow> address \<Rightarrow> bool \<Rightarrow> (message \<Rightarrow> byte list option) \<Rightarrow> (byte list \<Rightarrow> message option)
     \<Rightarrow> 's reader \<Rightarrow> 's writer \<Rightarrow> hs_type \<Rightarrow> string \<Rightarrow> string option \<Rightarrow> store \<Rightarrow> 's \<Rightarrow> hs_end \<times> byte list option \<times> store \<times> 's" where
  "handshake_run b os cfg server_address is_secure enc dec rd wr ty id_name token st s =
     (case build_request b os cfg server_address is_secure ty id_name token of
        Inl ec \<Rightarrow> (Hs_done ec, None, st, s)
      | Inr msg \<Rightarrow>
          (case serialize_protobuf_message enc st msg of
             (Inl e, st1) \<Rightarrow> (Hs_throw e, None, st1, s)
           | (Inr None, st1) \<Rightarrow> (Hs_done (rstrm_ec Protocol_error), None, st1, s)
           | (Inr (Some bl), st1) \<Rightarrow>
               (case payloader_send st1 bl of
                  (Inl (Send_throw e), st2) \<Rightarrow> (Hs_throw e, None, st2, s)
                | (Inl (Send_error ec), st2) \<Rightarrow> (Hs_done ec, None, st2, s)
                | (Inr out, st2) \<Rightarrow>
                    (case wr s out of
                       (ec, s1) \<Rightarrow>
                         if ec_failed ec then (Hs_done ec, Some out, st2, s1)
                         else if cfg_zero_rtt cfg then (Hs_done ec_ok, Some out, st2, s1)
                         else
                           (case run_read_response (cfg_max_buffer_size cfg) dec rd ty st2 [] s1 of
                              (e, st3, bl3, s2) \<Rightarrow> (e, Some out, st3, s2))))))"

section \<open>The control callback\<close>

lemma control_cb_ok:
  assumes r: "recv_ready st bl" and len: "length bl < INT_MAX" and n: "n \<le> UINT32_MAX"
  shows "\<exists>st' bl'. payloader_control_cb mx st bl n = (None, st', bl') \<and> recv_ready st' bl'
           \<and> buffer_total st' bl' = buffer_capacity st' bl'
           \<and> buffer_capacity st' bl' = max (buffer_capacity st bl) (min n (buffer_capacity st bl + mx))"
proof -
  define st1 where "st1 = buffer_reset_size st bl"
  note z = recv_ready_reset [OF r, folded st1_def]
  have ok: "buffer_ok st1 bl" using z(1) by (simp add: recv_ready_def)
  have full: "buffer_total st1 bl = buffer_capacity st1 bl" using z by simp
  note g = get_size_full_reset [OF ok full]
  show ?thesis
  proof (cases "n > buffer_capacity st bl")
    case False
    then show ?thesis using g z by (simp add: payloader_control_cb_def st1_def [symmetric])
  next
    case True
    define k where "k = min (n - buffer_capacity st bl) mx"
    obtain m st2 where al: "make_memory_allocated st1 k = (m, st2)" by fastforce
    have "UINT32_MAX \<le> SIZE_MAX" by (simp add: UINT32_MAX_def SIZE_MAX_def)
    then have cap: "buffer_capacity st1 bl + k \<le> SIZE_MAX" using True n z(3) by (auto simp: k_def)
    note a = recv_ready_append [OF z(1) full cap len al]
    have "buffer_append bl m = Inr (bl @ [m])"
      using make_memory_allocated_spec(1) [OF al] by (simp add: buffer_append_def insert_memory_def)
    then have "payloader_control_cb mx st bl n = (None, st2, bl @ [m])"
      using True g z(3) al by (simp add: payloader_control_cb_def st1_def [symmetric] k_def)
    with a z(3) True show ?thesis by (auto simp: k_def)
  qed
qed

lemma recv_growing_ok:
  assumes r: "recv_ready st bl" and len: "length bl < INT_MAX" and rd: "exact_reader rd content"
    and c: "content s = frame p @ rest" and p: "framable p" "length p \<le> buffer_capacity st bl + mx"
  shows "\<exists>st' bl' s'. payloader_recv (Some (payloader_control_cb mx)) rd st bl s = (Recv_done ec_ok, st', bl', s')
           \<and> buffer_bytes st' bl' = p \<and> content s' = rest \<and> recv_ready st' bl'
           \<and> buffer_capacity st' bl' = max (buffer_capacity st bl) (length p)"
proof -
  obtain s1 header where h: "rd s 4 = (htonl_bytes header, ec_ok, s1)" "content s1 = p @ rest" "unat header = length p"
    using exact_reader_header [OF rd c p(1)] by blast
  have "length p \<le> UINT32_MAX" using p(1) by (simp add: framable_def)
  from control_cb_ok [OF r len this, of mx] obtain st1 bl1 where
    cb: "payloader_control_cb mx st bl (length p) = (None, st1, bl1)" "recv_ready st1 bl1"
      "buffer_total st1 bl1 = buffer_capacity st1 bl1"
      "buffer_capacity st1 bl1 = max (buffer_capacity st bl) (min (length p) (buffer_capacity st bl + mx))" by blast
  have fit: "length p \<le> buffer_capacity st1 bl1" "buffer_capacity st1 bl1 = max (buffer_capacity st bl) (length p)"
    using cb(4) p(2) by auto
  from read_payload_into_ok [OF cb(2,3) rd h(2,3) fit(1)] fit(2) cb(1) h(1,3) show ?thesis
    by (auto simp: payloader_recv_def do_read_payload_def)
qed

lemma recv_growing_too_long:
  assumes r: "recv_ready st bl" and len: "length bl < INT_MAX" and rd: "exact_reader rd content"
    and c: "content s = frame p @ rest" and p: "framable p" "buffer_capacity st bl + mx < length p"
  shows "\<exists>st' bl' s'. payloader_recv (Some (payloader_control_cb mx)) rd st bl s
           = (Recv_done (io_ec Invalid_buffer_size), st', bl', s')
           \<and> content s' = p @ rest \<and> buffer_capacity st' bl' = buffer_capacity st bl + mx"
proof -
  obtain s1 header where h: "rd s 4 = (htonl_bytes header, ec_ok, s1)" "content s1 = p @ rest" "unat header = length p"
    using exact_reader_header [OF rd c p(1)] by blast
  have "length p \<le> UINT32_MAX" using p(1) by (simp add: framable_def)
  from control_cb_ok [OF r len this, of mx] obtain st1 bl1 where
    cb: "payloader_control_cb mx st bl (length p) = (None, st1, bl1)" "recv_ready st1 bl1"
      "buffer_total st1 bl1 = buffer_capacity st1 bl1"
      "buffer_capacity st1 bl1 = max (buffer_capacity st bl) (min (length p) (buffer_capacity st bl + mx))" by blast
  have "buffer_capacity st1 bl1 = buffer_capacity st bl + mx" using cb(4) p(2) by auto
  moreover from this have "buffer_capacity st1 bl1 < unat header" using h(3) p(2) by simp
  from read_payload_into_too_long [OF cb(2,3) this] cb(1) h(1,3)
  have "payloader_recv (Some (payloader_control_cb mx)) rd st bl s = (Recv_done (io_ec Invalid_buffer_size), st1, bl1, s1)"
    by (simp add: payloader_recv_def do_read_payload_def)
  ultimately show ?thesis using h(2) by blast
qed

section \<open>Runs\<close>

lemma INT_MAX_le_UINT32_MAX: "INT_MAX \<le> UINT32_MAX"
  by (simp add: INT_MAX_def UINT32_MAX_def)

lemma send_request_ok:
  assumes "wf_store st" and "enc msg = Some bs" and "length bs \<le> INT_MAX"
  shows "\<exists>bl st1 st2. serialize_protobuf_message enc st msg = (Inr (Some bl), st1)
           \<and> payloader_send st1 bl = (Inr (frame bs), st2) \<and> wf_store st2"
proof -
  obtain m st1 where s: "serialize_protobuf_message enc st msg = (Inr (Some [m]), st1)" "buffer_ok st1 [m]"
      "buffer_bytes st1 [m] = bs"
    using serialize_ok [where enc = enc, OF assms] by blast
  have "buffer_total st1 [m] = length bs"
    using s(2,3) length_buffer_bytes [of st1 "[m]"] by (auto simp: buffer_ok_def)
  then have "buffer_total st1 [m] \<le> UINT32_MAX" using assms(3) INT_MAX_le_UINT32_MAX by simp
  from payloader_send_ok [OF s(2) this] s(1,3) show ?thesis by auto
qed

lemma mapped_size:
  assumes "map_result st bl mode st' m" and "buffer_bytes st bl \<noteq> []"
  shows "get_size st' [m] = Inr (length (buffer_bytes st bl))"
    and "read_ptr st' (mem_get_const_data st' m) (length (buffer_bytes st bl)) = buffer_bytes st bl"
proof -
  have m: "wf_store st'" "wf_mem st' m" "mem_bytes st' m = buffer_bytes st bl"
    using assms(1) by (auto simp: map_result_def)
  then have "m \<noteq> None" using assms(2) by (cases m) (auto simp: mem_bytes_def)
  have size: "mem_get_size st' m = length (buffer_bytes st bl)" using length_mem_bytes [OF m(1,2)] m(3) by simp
  obtain a b c where "mem_get_size_full st' m = (a, b, c)" by (metis prod_cases3)
  with mem_get_size_full_wf(2) [OF m(1,2)] have "mem_capacity st' m \<le> SIZE_MAX" by (simp add: mem_capacity_def)
  with m \<open>m \<noteq> None\<close> have "buffer_ok st' [m]" by (simp add: buffer_ok_def INT_MAX_def)
  from get_size_ok [OF this] size show "get_size st' [m] = Inr (length (buffer_bytes st bl))" by simp
  show "read_ptr st' (mem_get_const_data st' m) (length (buffer_bytes st bl)) = buffer_bytes st bl"
    using m(3) size by (simp add: mem_bytes_def)
qed

lemma run_read_response_ok:
  assumes wf: "wf_store st" and rd: "exact_reader rd content" and c: "content s = frame p @ rest"
    and p: "p \<noteq> []" "length p \<le> INT_MAX" "length p \<le> mx" and d: "dec p = Some msg"
  shows "\<exists>st' bl' s'. run_read_response mx dec rd ty st [] s = (Hs_done (on_read_incoming_protobuf_message ty msg), st', bl', s')
           \<and> content s' = rest"
proof -
  have f: "framable p" using p(2) INT_MAX_le_UINT32_MAX by (simp add: framable_def)
  have r: "recv_ready st []" and cap: "buffer_capacity st [] = 0" using recv_ready_Nil [OF wf] by auto
  have "length ([] :: blocks) < INT_MAX" by (simp add: INT_MAX_def)
  moreover have "length p \<le> buffer_capacity st [] + mx" using cap p(3) by simp
  ultimately obtain st1 bl1 s1 where
    v: "payloader_recv (Some (payloader_control_cb mx)) rd st [] s = (Recv_done ec_ok, st1, bl1, s1)"
      "buffer_bytes st1 bl1 = p" "content s1 = rest" "recv_ready st1 bl1"
    using recv_growing_ok [OF r _ rd c f] by blast
  have "bl1 \<noteq> []" "buffer_ok st1 bl1" using v(2,4) p(1) by (auto simp: recv_ready_def)
  then obtain m st2 where m: "buffer_map st1 bl1 Map_write = (Inr m, st2, [m])" "map_result st1 bl1 Map_write st2 m"
    using buffer_map_ok by blast
  note sz = mapped_size [OF m(2), unfolded v(2), OF p(1)]
  have "parse_protobuf_message dec p = Some msg"
    using d p(2) by (simp add: parse_protobuf_message_def is_protobuf_buffer_size_valid_def)
  with v m(1) sz show ?thesis by (simp add: run_read_response_def)
qed

section \<open>A peer for the witnesses\<close>

definition w_config :: "bool \<Rightarrow> config_client" where
  "w_config zero_rtt = (config_client0 True)\<lparr>cfg_no_token := True, cfg_zero_rtt := zero_rtt\<rparr>"

definition w_enc :: "message \<Rightarrow> byte list option" where
  "w_enc m = Some [7]"

definition w_dec :: "byte list \<Rightarrow> message option" where
  "w_dec bs = Some (Stream_rsp (Stream_id ''s1''))"

definition w_writer :: "byte list writer" where
  "w_writer s out = (ec_ok, s)"

definition w_request :: message where
  "w_request = Stream_req \<lparr>rq_client_details = convert_client_details_to empty_proto_client_details
     (get_client_details_token w_build None), rq_id_name = ''t'', rq_zero_rtt = None\<rparr>"

lemma w_build_request:
  "build_request w_build w_os (w_config False) (w_address ''h'') False Hs_stream_req ''t'' None = Inr w_request"
  by (simp add: build_request_def get_client_details_def get_rstream_token_def w_config_def w_request_def
      get_client_details_token_def convert_client_details_to_def empty_proto_client_details_def handshake_request_def)

section \<open>Properties\<close>

text \<open>
  C25: a token never leaves over an insecure connection. Whatever a handshake hands to a transport that
  is not secure is the frame of a request that carries no authentication token.
\<close>

theorem handshake_token_confidential:
  assumes "wf_store st"
    and "handshake_run b os cfg sa False enc dec rd wr ty id_name token st s = (e, Some out, st', s')"
  shows "\<exists>msg bs. out = frame bs \<and> enc msg = Some bs \<and> message_token msg = None"
proof -
  from assms(2) obtain msg where m: "build_request b os cfg sa False ty id_name token = Inr msg"
    by (auto simp: handshake_run_def split: sum.splits)
  have tok: "message_token msg = None"
    using m by (auto simp: build_request_def handshake_request_def Let_def split: sum.splits if_splits option.splits hs_type.splits)
  obtain bs where bs: "enc msg = Some bs" "length bs \<le> INT_MAX"
    using assms(2) m by (auto simp: handshake_run_def serialize_protobuf_message_def is_protobuf_buffer_size_valid_def
        split: option.splits if_splits)
  obtain bl st1 st2 where "serialize_protobuf_message enc st msg = (Inr (Some bl), st1)"
      "payloader_send st1 bl = (Inr (frame bs), st2)"
    using send_request_ok [where enc = enc, OF assms(1) bs] by blast
  with assms(2) m have "out = frame bs"
    by (auto simp: handshake_run_def split: if_splits prod.splits)
  with bs(1) tok show ?thesis by blast
qed

theorem handshake_token_confidential_witness:
  "\<exists>e out st' s' msg bs. handshake_run w_build w_os (w_config False) (w_address ''h'') False w_enc w_dec list_reader w_writer
       Hs_stream_req ''t'' None empty_store (frame [9]) = (e, Some out, st', s')
     \<and> out = frame bs \<and> w_enc msg = Some bs \<and> message_token msg = None"
proof -
  have enc: "w_enc w_request = Some [7]" by (simp add: w_enc_def)
  obtain bl st1 st2 where s: "serialize_protobuf_message w_enc empty_store w_request = (Inr (Some bl), st1)"
      "payloader_send st1 bl = (Inr (frame [7]), st2)"
    using send_request_ok [where enc = w_enc, OF empty_store_wf enc] by (auto simp: INT_MAX_def)
  obtain e st3 bl3 s3 where "run_read_response 65535 w_dec list_reader Hs_stream_req st2 [] (frame [9]) = (e, st3, bl3, s3)"
    by (metis prod_cases4)
  then have "handshake_run w_build w_os (w_config False) (w_address ''h'') False w_enc w_dec list_reader w_writer
      Hs_stream_req ''t'' None empty_store (frame [9]) = (e, Some (frame [7]), st3, s3)"
    unfolding handshake_run_def w_build_request sum.case s prod.case option.case
    by (simp add: w_writer_def w_config_def config_client0_def)
  from this handshake_token_confidential [OF empty_store_wf this] show ?thesis by blast
qed

text \<open>
  C14: a handshake against an answering peer. When the request can be built and serialised, the write
  succeeds and the peer's next bytes are the frame of a non-empty response no longer than
  \<open>m_max_buffer_size\<close>, the handshake reads exactly that frame and completes with the code that
  the response stands for; with zero round trips it completes without reading at all.
\<close>

theorem handshake_completes:
  assumes wf: "wf_store st" and req: "build_request b os cfg sa sec ty id_name token = Inr msg"
    and enc: "enc msg = Some bs" "length bs \<le> INT_MAX" and wr: "wr s (frame bs) = (ec_ok, s1)"
    and rd: "exact_reader rd content" and c: "content s1 = frame p @ rest"
    and p: "p \<noteq> []" "length p \<le> INT_MAX" "length p \<le> cfg_max_buffer_size cfg" and d: "dec p = Some rmsg"
  shows "\<exists>st' s'. handshake_run b os cfg sa sec enc dec rd wr ty id_name token st s
           = (Hs_done (if cfg_zero_rtt cfg then ec_ok else on_read_incoming_protobuf_message ty rmsg), Some (frame bs), st', s')
         \<and> content s' = (if cfg_zero_rtt cfg then frame p @ rest else rest)"
proof -
  obtain bl st1 st2 where s: "serialize_protobuf_message enc st msg = (Inr (Some bl), st1)"
      "payloader_send st1 bl = (Inr (frame bs), st2)" "wf_store st2"
    using send_request_ok [where enc = enc, OF wf enc] by blast
  show ?thesis
  proof (cases "cfg_zero_rtt cfg")
    case True
    with s req wr c show ?thesis by (simp add: handshake_run_def)
  next
    case False
    from run_read_response_ok [where dec = dec and content = content, OF s(3) rd c p d, of ty] s(1,2) req wr False show ?thesis
      by (auto simp: handshake_run_def)
  qed
qed

theorem handshake_completes_witness:
  "\<exists>st' s'. handshake_run w_build w_os (w_config False) (w_address ''h'') False w_enc w_dec list_reader w_writer
       Hs_stream_req ''t'' None empty_store (frame [9] @ [1]) = (Hs_done ec_ok, Some (frame [7]), st', s') \<and> s' = [1]"
proof -
  have "w_enc w_request = Some [7]" "w_writer (frame [9] @ [1]) (frame [7]) = (ec_ok, frame [9] @ [1])"
      "w_dec [9] = Some (Stream_rsp (Stream_id ''s1''))" "\<not> cfg_zero_rtt (w_config False)"
      "length [9 :: byte] \<le> cfg_max_buffer_size (w_config False)" "length [7 :: byte] \<le> INT_MAX" "length [9 :: byte] \<le> INT_MAX"
    by (simp_all add: w_enc_def w_writer_def w_dec_def w_config_def config_client0_def INT_MAX_def)
  with handshake_completes [OF empty_store_wf w_build_request, of w_enc "[7]" w_writer "frame [9] @ [1]" "frame [9] @ [1]"
      list_reader id "[9]" "[1]" w_dec "Stream_rsp (Stream_id ''s1'')"] exact_list_reader
  show ?thesis by (simp add: on_read_incoming_protobuf_message_def)
qed

text \<open>
  C40: which responses a handshake takes for success. For a stream it is a response with a stream
  identifier, for a proxied connection one without error; but in both cases an error whose code is
  \<open>ERROR_CODE_UNSPECIFIED\<close> (zero) is taken for success too, because the code becomes an error code
  with value zero.
\<close>

theorem handshake_accepts:
  "\<not> ec_failed (on_read_incoming_protobuf_message ty msg) \<longleftrightarrow>
     (ty = Hs_stream_req \<and> (\<exists>i. msg = Stream_rsp (Stream_id i)))
   \<or> (ty = Hs_proxy_req \<and> msg = Proxy_rsp None)
   \<or> (ty = Hs_stream_req \<and> (\<exists>e. msg = Stream_rsp (Stream_error e) \<and> pe_code e = 0))
   \<or> (ty = Hs_proxy_req \<and> (\<exists>e. msg = Proxy_rsp (Some e) \<and> pe_code e = 0))"
  unfolding on_read_incoming_protobuf_message_def
  by (cases ty; cases msg) (auto simp: make_error_code_def split: stream_rsp.splits option.splits)

text \<open>
  C36: how far the receive buffer of a handshake can grow. A framed message is accepted and delivered
  exactly when it fits into the buffer's capacity plus \<open>m_max_buffer_size\<close>; a longer one is refused
  with \<open>invalid_buffer_size\<close> before any byte of it is read, and the buffer has grown by at most
  \<open>m_max_buffer_size\<close>.
\<close>

theorem control_callback_bound:
  assumes "recv_ready st bl" and "length bl < INT_MAX" and "exact_reader rd content"
    and "content s = frame p @ rest" and "length p \<le> UINT32_MAX"
  shows "\<exists>ec st' bl' s'. payloader_recv (Some (payloader_control_cb mx)) rd st bl s = (Recv_done ec, st', bl', s')
           \<and> buffer_capacity st' bl' \<le> buffer_capacity st bl + mx
           \<and> (if length p \<le> buffer_capacity st bl + mx
              then ec = ec_ok \<and> buffer_bytes st' bl' = p \<and> content s' = rest
              else ec = io_ec Invalid_buffer_size \<and> content s' = p @ rest)"
proof (cases "length p \<le> buffer_capacity st bl + mx")
  case True
  with recv_growing_ok [OF assms(1-4) _ True] assms(5) show ?thesis by (fastforce simp: framable_def)
next
  case False
  with recv_growing_too_long [OF assms(1-4), of mx] assms(5) show ?thesis by (fastforce simp: framable_def)
qed

theorem control_callback_bound_witness:
  "\<exists>st' bl'. payloader_recv (Some (payloader_control_cb 8)) list_reader empty_store [] (frame [1, 2, 3]) = (Recv_done ec_ok, st', bl', [])
     \<and> buffer_bytes st' bl' = [1, 2, 3]"
proof -
  have "recv_ready empty_store []" "buffer_capacity empty_store [] = 0" using recv_ready_Nil [OF empty_store_wf] by auto
  moreover have "length ([] :: blocks) < INT_MAX" "length [1, 2, 3 :: byte] \<le> UINT32_MAX"
    by (simp_all add: INT_MAX_def UINT32_MAX_def)
  ultimately show ?thesis
    using control_callback_bound [OF _ _ exact_list_reader, of empty_store "[]" "frame [1, 2, 3]" "[1, 2, 3]" "[]" 8]
    by auto
qed

end
