(* ===== verification/Socket.thy ===== *)
theory Socket
  imports Handshake Endpoint Operations
begin

text \<open>
  Model of \<open>lib/rstream/io-rstrm/socket.cpp\<close>: the stream socket of a tunnel. A connect resolves the
  server, connects the transport and runs the handshake; transfers are passed on to the transport while
  the socket is connected. The state is the record \<open>sock\<close>; connects and transfers are heap objects and
  therefore lists indexed by the order of the calls. What has been started and not been answered
  (jobs dispatched to the strand, resolver, transport, handshake) is the list \<open>sk_out\<close>; an interleaving is
  a sequence of calls and of answers to any entry of it. What the socket does to the outside is appended
  to a log. A call with an empty handler has no effect and is not an event.
\<close>

section \<open>Types\<close>

datatype socket_state = Sk_null | Sk_connecting | Sk_connected

datatype socket_type = Sk_client | Sk_server

record sk_connect_op =
  sc_cancelled :: bool
  sc_completed :: bool
  sc_started :: bool
  sc_reserved :: bool
  sc_initiation_error :: error_code
  sc_terminal_error :: error_code

record sk_transfer_op =
  sx_cancelled :: bool
  sx_completed :: bool
  sx_started :: bool

text \<open>What is transferred: the bytes of a sequence of constant buffers, or the sizes of mutable ones; the
  overloads for a single buffer are sequences of length one.\<close>

datatype sk_transfer = Write_some "byte list list" | Read_some "nat list"

datatype socket_job =
    Sj_connect socket_type endpoint nat
  | Sj_cancel_connect nat
  | Sj_transfer sk_transfer nat
  | Sj_cancel_transfer nat
  | Sj_close

datatype sk_pending =
    Sp_job socket_job
  | Sp_resolve nat
  | Sp_connect nat
  | Sp_handshake nat
  | Sp_transfer nat

datatype sk_action =
    Sk_resolve nat address
  | Sk_connect_start nat
  | Sk_handshake nat hs_type address config string "string option"
  | Sk_transfer_start nat sk_transfer
  | Sk_cancel_emit nat
  | Sk_connect_done nat error_code
  | Sk_transfer_done nat error_code nat
  | Sk_close

record sock =
  sk_settings :: config
  sk_state :: socket_state
  sk_type :: socket_type
  sk_endpoint :: endpoint
  sk_connect_op :: "nat option"
  sk_is_state_non_null :: bool
  sk_remote_endpoint :: "endpoint option"
  sk_connects :: "sk_connect_op list"
  sk_transfers :: "sk_transfer_op list"
  sk_out :: "sk_pending list"
  sk_fault :: bool
  sk_log :: "sk_action list"

text \<open>\<open>m_type\<close> is not initialised by the constructor; it is read only after a connect has set it.\<close>

definition sk_init :: "config \<Rightarrow> sock" where
  "sk_init cfg =
     \<lparr>sk_settings = cfg, sk_state = Sk_null, sk_type = Sk_client, sk_endpoint = empty_endpoint, sk_connect_op = None,
      sk_is_state_non_null = False, sk_remote_endpoint = None, sk_connects = [], sk_transfers = [], sk_out = [],
      sk_fault = False, sk_log = []\<rparr>"

section \<open>Primitives\<close>

definition sk_act :: "sk_action \<Rightarrow> sock \<Rightarrow> sock" where
  "sk_act a s = s\<lparr>sk_log := sk_log s @ [a]\<rparr>"

definition sk_start :: "sk_pending \<Rightarrow> sock \<Rightarrow> sock" where
  "sk_start x s = s\<lparr>sk_out := sk_out s @ [x]\<rparr>"

definition sk_upd_connect :: "nat \<Rightarrow> (sk_connect_op \<Rightarrow> sk_connect_op) \<Rightarrow> sock \<Rightarrow> sock" where
  "sk_upd_connect i f s = s\<lparr>sk_connects := (sk_connects s)[i := f (sk_connects s ! i)]\<rparr>"

definition sk_upd_transfer :: "nat \<Rightarrow> (sk_transfer_op \<Rightarrow> sk_transfer_op) \<Rightarrow> sock \<Rightarrow> sock" where
  "sk_upd_transfer i f s = s\<lparr>sk_transfers := (sk_transfers s)[i := f (sk_transfers s ! i)]\<rparr>"

section \<open>Calls from outside\<close>

definition sk_set_settings :: "config \<Rightarrow> sock \<Rightarrow> error_code \<times> sock" where
  "sk_set_settings cfg s =
     (if sk_is_state_non_null s then (rstrm_ec Invalid_state, s) else (ec_ok, s\<lparr>sk_settings := cfg\<rparr>))"

definition sk_get_remote_endpoint :: "sock \<Rightarrow> error_code \<times> endpoint" where
  "sk_get_remote_endpoint s =
     (case sk_remote_endpoint s of Some e \<Rightarrow> (ec_ok, e) | None \<Rightarrow> (rstrm_ec Invalid_state, empty_endpoint))"

text \<open>The checks of \<open>async_connect\<close> under the mutex.\<close>

definition sk_initiation_error :: "endpoint \<Rightarrow> sock \<Rightarrow> error_code" where
  "sk_initiation_error ep s =
     (if sk_is_state_non_null s then rstrm_ec Invalid_state
      else if ep_server_address_from_uri_param ep \<and> \<not> cfg_no_token (sk_settings s) \<and> \<not> cfg_token_from_uri_param (sk_settings s)
      then rstrm_ec Invalid_configuration
      else if ep_id_name ep = None then rstrm_ec Invalid_endpoint
      else ec_ok)"

definition sk_async_connect :: "socket_type \<Rightarrow> endpoint \<Rightarrow> sock \<Rightarrow> sock" where
  "sk_async_connect ty ep s =
     (let ec = sk_initiation_error ep s;
          op = \<lparr>sc_cancelled = False, sc_completed = False, sc_started = False, sc_reserved = (\<not> ec_failed ec),
                sc_initiation_error = ec, sc_terminal_error = ec_ok\<rparr>;
          s1 = s\<lparr>sk_connects := sk_connects s @ [op]\<rparr>;
          s2 = (if ec_failed ec then s1 else s1\<lparr>sk_is_state_non_null := True\<rparr>)
      in sk_start (Sp_job (Sj_connect ty ep (length (sk_connects s)))) s2)"

text \<open>\<open>async_write_some\<close> and \<open>async_read_some\<close>.\<close>

definition sk_async_transfer :: "sk_transfer \<Rightarrow> sock \<Rightarrow> sock" where
  "sk_async_transfer x s =
     sk_start (Sp_job (Sj_transfer x (length (sk_transfers s))))
       (s\<lparr>sk_transfers := sk_transfers s @ [\<lparr>sx_cancelled = False, sx_completed = False, sx_started = False\<rparr>]\<rparr>)"

definition sk_slot_connect :: "nat \<Rightarrow> sock \<Rightarrow> sock" where
  "sk_slot_connect i s =
     (if i < length (sk_connects s)
      then sk_start (Sp_job (Sj_cancel_connect i)) (sk_upd_connect i (\<lambda>x. x\<lparr>sc_cancelled := True\<rparr>) s) else s)"

definition sk_slot_transfer :: "nat \<Rightarrow> sock \<Rightarrow> sock" where
  "sk_slot_transfer i s =
     (if i < length (sk_transfers s)
      then sk_start (Sp_job (Sj_cancel_transfer i)) (sk_upd_transfer i (\<lambda>x. x\<lparr>sx_cancelled := True\<rparr>) s) else s)"

definition sk_close :: "sock \<Rightarrow> sock" where
  "sk_close s = sk_start (Sp_job Sj_close) s"

section \<open>Completion\<close>

definition sk_complete_connect :: "nat option \<Rightarrow> error_code \<Rightarrow> sock \<Rightarrow> sock" where
  "sk_complete_connect op ec s =
     (case op of
        None \<Rightarrow> s
      | Some i \<Rightarrow>
          if sc_completed (sk_connects s ! i) then s
          else
            let s1 = sk_act (Sk_connect_done i ec) (sk_upd_connect i (\<lambda>x. x\<lparr>sc_completed := True\<rparr>) s)
            in if sk_connect_op s1 = Some i then s1\<lparr>sk_connect_op := None\<rparr> else s1)"

definition sk_complete_transfer :: "nat \<Rightarrow> error_code \<Rightarrow> nat \<Rightarrow> sock \<Rightarrow> sock" where
  "sk_complete_transfer i ec n s =
     (if sx_completed (sk_transfers s ! i) then s
      else sk_act (Sk_transfer_done i ec n) (sk_upd_transfer i (\<lambda>x. x\<lparr>sx_completed := True\<rparr>) s))"

section \<open>Closing\<close>

definition sk_on_close :: "error_code \<Rightarrow> sock \<Rightarrow> sock" where
  "sk_on_close ec s =
     (let connect_error = (if \<not> ec_failed ec \<and> sk_connect_op s \<noteq> None then asio_operation_aborted else ec);
          s1 = (case sk_connect_op s of
                  Some i \<Rightarrow>
                    if sc_started (sk_connects s ! i)
                    then sk_upd_connect i (\<lambda>x. x\<lparr>sc_terminal_error := connect_error\<rparr>) s
                    else sk_complete_connect (Some i) connect_error (s\<lparr>sk_state := Sk_null\<rparr>)
                | None \<Rightarrow> s\<lparr>sk_state := Sk_null\<rparr>)
      in sk_act Sk_close (s1\<lparr>sk_endpoint := empty_endpoint, sk_is_state_non_null := False, sk_remote_endpoint := None\<rparr>))"

definition sk_on_error :: "error_code \<Rightarrow> sock \<Rightarrow> sock" where
  "sk_on_error ec s = (if \<not> ec_failed ec then s else sk_on_close ec s)"

definition sk_close_internal :: "sock \<Rightarrow> sock" where
  "sk_close_internal s = (if sk_state s \<noteq> Sk_null then sk_on_close ec_ok s else s)"

section \<open>Connecting\<close>

definition sk_release_connect_reservation :: "nat \<Rightarrow> sock \<Rightarrow> sock" where
  "sk_release_connect_reservation i s =
     (if \<not> sc_reserved (sk_connects s ! i) \<or> sk_state s \<noteq> Sk_null then s
      else if sk_is_state_non_null s
      then sk_upd_connect i (\<lambda>x. x\<lparr>sc_reserved := False\<rparr>) (s\<lparr>sk_is_state_non_null := False\<rparr>)
      else s)"

definition sk_cancel_connect :: "nat \<Rightarrow> sock \<Rightarrow> sock" where
  "sk_cancel_connect i s =
     (if \<not> i < length (sk_connects s) \<or> \<not> sc_cancelled (sk_connects s ! i) \<or> sc_completed (sk_connects s ! i) then s
      else if sk_connect_op s = Some i then sk_on_close asio_operation_aborted s
      else sk_complete_connect (Some i) asio_operation_aborted (sk_release_connect_reservation i s))"

text \<open>\<open>do_resolve_host\<close>, \<open>do_connect\<close> and \<open>do_handshake\<close> dereference \<open>m_connect_op\<close>, and the last one the
  identifier of the endpoint: where these are absent the behaviour is undefined.\<close>

definition sk_begin :: "(nat \<Rightarrow> sock \<Rightarrow> sock) \<Rightarrow> sock \<Rightarrow> sock" where
  "sk_begin f s =
     (case sk_connect_op s of
        None \<Rightarrow> s\<lparr>sk_fault := True\<rparr>
      | Some i \<Rightarrow> f i (sk_upd_connect i (\<lambda>x. x\<lparr>sc_started := True\<rparr>) s))"

definition sk_do_resolve_host :: "sock \<Rightarrow> sock" where
  "sk_do_resolve_host s =
     sk_begin (\<lambda>i s1. sk_start (Sp_resolve i) (sk_act (Sk_resolve i (ep_server_address (sk_endpoint s1))) s1)) s"

definition sk_async_connect_internal :: "socket_type \<Rightarrow> endpoint \<Rightarrow> nat \<Rightarrow> sock \<Rightarrow> sock" where
  "sk_async_connect_internal ty ep i s =
     (let op = sk_connects s ! i in
      if sc_cancelled op then sk_complete_connect (Some i) asio_operation_aborted (sk_release_connect_reservation i s)
      else if ec_failed (sc_initiation_error op) then sk_complete_connect (Some i) (sc_initiation_error op) s
      else if \<not> sc_reserved op \<or> sk_state s \<noteq> Sk_null then sk_complete_connect (Some i) (rstrm_ec Invalid_state) s
      else sk_do_resolve_host
             (s\<lparr>sk_type := ty, sk_endpoint := ep, sk_connect_op := Some i, sk_state := Sk_connecting\<rparr>))"

definition sk_do_connect :: "sock \<Rightarrow> sock" where
  "sk_do_connect s = sk_begin (\<lambda>i s1. sk_start (Sp_connect i) (sk_act (Sk_connect_start i) s1)) s"

definition sk_do_handshake :: "sock \<Rightarrow> sock" where
  "sk_do_handshake s =
     sk_begin (\<lambda>i s1.
       case ep_id_name (sk_endpoint s1) of
         None \<Rightarrow> s1\<lparr>sk_fault := True\<rparr>
       | Some id_name \<Rightarrow>
           sk_start (Sp_handshake i)
             (sk_act (Sk_handshake i (case sk_type s1 of Sk_client \<Rightarrow> Hs_stream_req | Sk_server \<Rightarrow> Hs_proxy_req)
                (ep_server_address (sk_endpoint s1)) (sk_settings s1) id_name (ep_secret (sk_endpoint s1))) s1)) s"

definition sk_on_started :: "sock \<Rightarrow> sock" where
  "sk_on_started s =
     (let s1 = s\<lparr>sk_state := Sk_connected, sk_endpoint := (sk_endpoint s)\<lparr>ep_secret := None\<rparr>\<rparr>;
          s2 = s1\<lparr>sk_remote_endpoint := Some (sk_endpoint s1)\<rparr>
      in sk_complete_connect (sk_connect_op s2) ec_ok s2)"

text \<open>The common shape of the three handlers: a terminal error first, then an operation that is no longer
  current, then the error of the step.\<close>

definition sk_on_step :: "nat \<Rightarrow> error_code \<Rightarrow> (sock \<Rightarrow> sock) \<Rightarrow> sock \<Rightarrow> sock" where
  "sk_on_step i cause next s =
     (let s1 = sk_upd_connect i (\<lambda>x. x\<lparr>sc_started := False\<rparr>) s;
          terminal = sc_terminal_error (sk_connects s1 ! i)
      in if ec_failed terminal then sk_on_error terminal s1
         else if sk_state s1 \<noteq> Sk_connecting \<or> sk_connect_op s1 \<noteq> Some i
         then sk_complete_connect (Some i) asio_operation_aborted s1
         else if ec_failed cause then sk_on_error cause s1
         else next s1)"

definition sk_on_do_resolve_host :: "nat \<Rightarrow> error_code \<Rightarrow> bool \<Rightarrow> sock \<Rightarrow> sock" where
  "sk_on_do_resolve_host i ec results_empty s =
     sk_on_step i (if \<not> ec_failed ec \<and> results_empty then rstrm_ec No_valid_endpoint else ec) sk_do_connect s"

definition sk_on_connect :: "nat \<Rightarrow> error_code \<Rightarrow> sock \<Rightarrow> sock" where
  "sk_on_connect i ec s = sk_on_step i ec sk_do_handshake s"

definition sk_on_handshake :: "nat \<Rightarrow> error_code \<Rightarrow> sock \<Rightarrow> sock" where
  "sk_on_handshake i ec s = sk_on_step i ec sk_on_started s"

section \<open>Transfers\<close>

text \<open>\<open>async_write_some_internal\<close> and \<open>async_read_some_internal\<close>, each for one buffer and for a sequence.\<close>

definition sk_async_transfer_internal :: "sk_transfer \<Rightarrow> nat \<Rightarrow> sock \<Rightarrow> sock" where
  "sk_async_transfer_internal x i s =
     (if sx_cancelled (sk_transfers s ! i) then sk_complete_transfer i asio_operation_aborted 0 s
      else if sk_state s = Sk_connected
      then sk_start (Sp_transfer i) (sk_act (Sk_transfer_start i x) (sk_upd_transfer i (\<lambda>y. y\<lparr>sx_started := True\<rparr>) s))
      else sk_complete_transfer i (rstrm_ec Invalid_state) 0 s)"

definition sk_cancel_transfer :: "nat \<Rightarrow> sock \<Rightarrow> sock" where
  "sk_cancel_transfer i s =
     (if \<not> i < length (sk_transfers s) \<or> \<not> sx_cancelled (sk_transfers s ! i) \<or> sx_completed (sk_transfers s ! i) then s
      else if sx_started (sk_transfers s ! i) then sk_act (Sk_cancel_emit i) s
      else sk_complete_transfer i asio_operation_aborted 0 s)"

definition sk_on_transfer :: "nat \<Rightarrow> error_code \<Rightarrow> nat \<Rightarrow> sock \<Rightarrow> sock" where
  "sk_on_transfer i ec n s =
     (let s1 = sk_upd_transfer i (\<lambda>y. y\<lparr>sx_started := False\<rparr>) s in
      if sx_cancelled (sk_transfers s1 ! i) then sk_complete_transfer i asio_operation_aborted n s1
      else sk_complete_transfer i ec n s1)"

section \<open>Events\<close>

fun sk_job :: "socket_job \<Rightarrow> sock \<Rightarrow> sock" where
  "sk_job (Sj_connect ty ep i) s = sk_async_connect_internal ty ep i s"
| "sk_job (Sj_cancel_connect i) s = sk_cancel_connect i s"
| "sk_job (Sj_transfer x i) s = sk_async_transfer_internal x i s"
| "sk_job (Sj_cancel_transfer i) s = sk_cancel_transfer i s"
| "sk_job Sj_close s = sk_close_internal s"

text \<open>What the outside answers: an error code, whether the resolver found nothing, and the bytes transferred.\<close>

record sk_reply =
  sr_error_code :: error_code
  sr_results_empty :: bool
  sr_transferred :: nat

fun sk_answer :: "sk_reply \<Rightarrow> sk_pending \<Rightarrow> sock \<Rightarrow> sock" where
  "sk_answer r (Sp_job j) s = sk_job j s"
| "sk_answer r (Sp_resolve i) s = sk_on_do_resolve_host i (sr_error_code r) (sr_results_empty r) s"
| "sk_answer r (Sp_connect i) s = sk_on_connect i (sr_error_code r) s"
| "sk_answer r (Sp_handshake i) s = sk_on_handshake i (sr_error_code r) s"
| "sk_answer r (Sp_transfer i) s = sk_on_transfer i (sr_error_code r) (sr_transferred r) s"

datatype socket_event =
    Se_settings config
  | Se_connect socket_type endpoint
  | Se_transfer sk_transfer
  | Se_slot_connect nat
  | Se_slot_transfer nat
  | Se_close
  | Se_reply nat sk_reply

fun sk_event :: "socket_event \<Rightarrow> sock \<Rightarrow> sock" where
  "sk_event (Se_settings cfg) s = snd (sk_set_settings cfg s)"
| "sk_event (Se_connect ty ep) s = sk_async_connect ty ep s"
| "sk_event (Se_transfer x) s = sk_async_transfer x s"
| "sk_event (Se_slot_connect i) s = sk_slot_connect i s"
| "sk_event (Se_slot_transfer i) s = sk_slot_transfer i s"
| "sk_event Se_close s = sk_close s"
| "sk_event (Se_reply k r) s =
     (if k < length (sk_out s) then sk_answer r (sk_out s ! k) (s\<lparr>sk_out := remove_at k (sk_out s)\<rparr>) else s)"

definition sk_run :: "config \<Rightarrow> socket_event list \<Rightarrow> sock" where
  "sk_run cfg es = fold sk_event es (sk_init cfg)"

end
