(* ===== verification/SocketCorrect.thy ===== *)
theory SocketCorrect
  imports Socket
begin

text \<open>
  The socket keeps its promises. One invariant follows the connects: the current one has exactly one step in
  flight, the others wait for the strand or are answered. A second one follows the transfers. Every event
  keeps both, whatever the order in which the strand, the resolver, the transport and the handshake answer.
\<close>

section \<open>What waits and what has been answered\<close>

fun sk_connect_job :: "sk_pending \<Rightarrow> nat list" where
  "sk_connect_job (Sp_job (Sj_connect ty ep i)) = [i]"
| "sk_connect_job _ = []"

fun sk_transfer_job :: "sk_pending \<Rightarrow> nat list" where
  "sk_transfer_job (Sp_job (Sj_transfer x i)) = [i]"
| "sk_transfer_job _ = []"

fun sk_flow :: "sk_pending \<Rightarrow> nat list" where
  "sk_flow (Sp_resolve i) = [i]"
| "sk_flow (Sp_connect i) = [i]"
| "sk_flow (Sp_handshake i) = [i]"
| "sk_flow _ = []"

fun sk_flight :: "sk_pending \<Rightarrow> nat list" where
  "sk_flight (Sp_transfer i) = [i]"
| "sk_flight _ = []"

fun sk_connect_id :: "sk_action \<Rightarrow> nat list" where
  "sk_connect_id (Sk_connect_done i ec) = [i]"
| "sk_connect_id _ = []"

fun sk_transfer_id :: "sk_action \<Rightarrow> nat list" where
  "sk_transfer_id (Sk_transfer_done i ec n) = [i]"
| "sk_transfer_id _ = []"

section \<open>Connects\<close>

text \<open>A job that was answered before it ran has been cancelled; one that reserved the socket has an identifier;
  no step of it has been started.\<close>

fun sk_job_ok :: "sk_connect_op list \<Rightarrow> sk_pending \<Rightarrow> bool" where
  "sk_job_ok cs (Sp_job (Sj_connect ty ep i)) \<longleftrightarrow>
     (sc_completed (cs ! i) \<longrightarrow> sc_cancelled (cs ! i)) \<and> (sc_reserved (cs ! i) \<longrightarrow> ep_id_name ep \<noteq> None)
     \<and> \<not> sc_started (cs ! i) \<and> \<not> ec_failed (sc_terminal_error (cs ! i))"
| "sk_job_ok cs _ \<longleftrightarrow> True"

text \<open>\<open>b\<close>: the step of the current connect is in flight; \<open>js\<close>: jobs that are being run.\<close>

definition sk_current :: "bool \<Rightarrow> sock \<Rightarrow> bool" where
  "sk_current b s \<longleftrightarrow>
     (case sk_connect_op s of
        None \<Rightarrow> sk_state s \<noteq> Sk_connecting \<and> over sk_flow (sk_out s) = []
      | Some i \<Rightarrow> sk_state s = Sk_connecting \<and> over sk_flow (sk_out s) = (if b then [i] else [])
          \<and> sc_started (sk_connects s ! i) = b \<and> \<not> sc_completed (sk_connects s ! i)
          \<and> (ec_failed (sc_terminal_error (sk_connects s ! i)) \<or> ep_id_name (sk_endpoint s) \<noteq> None))"

definition sk_remote :: "sock \<Rightarrow> bool" where
  "sk_remote s \<longleftrightarrow> sk_remote_endpoint s = (if sk_state s = Sk_connected then Some (sk_endpoint s) else None)
     \<and> (sk_state s = Sk_connected \<longrightarrow> ep_secret (sk_endpoint s) = None)"

definition sk_connects_ok :: "bool \<Rightarrow> nat list \<Rightarrow> sock \<Rightarrow> bool" where
  "sk_connects_ok b js s \<longleftrightarrow>
     ops_ok (map sc_completed (sk_connects s)) (js @ over sk_connect_job (sk_out s)) (set_option (sk_connect_op s))
       (over sk_connect_id (sk_log s))
     \<and> sk_current b s \<and> sk_remote s \<and> list_all (sk_job_ok (sk_connects s)) (sk_out s) \<and> \<not> sk_fault s"

lemma job_ok_update:
  assumes "list_all (sk_job_ok cs) out" and "sc_reserved y \<Longrightarrow> sc_reserved (cs ! i)"
    and "i \<in> set (over sk_connect_job out) \<Longrightarrow> (sc_completed y \<longrightarrow> sc_cancelled y) \<and> (sc_started y \<longrightarrow> sc_started (cs ! i))
      \<and> (ec_failed (sc_terminal_error y) \<longrightarrow> ec_failed (sc_terminal_error (cs ! i)))"
  shows "list_all (sk_job_ok (cs[i := y])) out"
proof -
  have "sk_job_ok (cs[i := y]) x" if "x \<in> set out" for x
  proof (cases "\<exists>ty ep j. x = Sp_job (Sj_connect ty ep j)")
    case True
    then obtain ty ep j where x: "x = Sp_job (Sj_connect ty ep j)" by blast
    have ok: "sk_job_ok cs x" using that assms(1) by (simp add: list_all_iff)
    have "j \<in> set (over sk_connect_job out)" using that x by force
    with ok assms(2,3) x show ?thesis by (auto simp: nth_update_if)
  next
    case False
    then show ?thesis by (cases "(cs[i := y], x)" rule: sk_job_ok.cases) auto
  qed
  then show ?thesis by (simp add: list_all_iff)
qed

lemma sk_connects_ok_init: "sk_connects_ok True [] (sk_init cfg)"
  by (simp add: sk_connects_ok_def sk_init_def ops_ok_init sk_current_def sk_remote_def)

text \<open>Completing an operation whose job runs, or one whose job still waits.\<close>

lemma complete_connect_job:
  assumes "sk_connects_ok b [i] s"
  shows "sk_connects_ok b [] (sk_complete_connect (Some i) ec s)"
proof (cases "sc_completed (sk_connects s ! i)")
  case True
  have "i < length (sk_connects s)" using assms by (auto simp: sk_connects_ok_def ops_ok_def)
  with True assms show ?thesis
    using ops_ok_done [of "map sc_completed (sk_connects s)" i] by (simp add: sk_complete_connect_def sk_connects_ok_def)
next
  case False
  have i: "i < length (sk_connects s)" "sk_connect_op s \<noteq> Some i" "i \<notin> set (over sk_connect_job (sk_out s))"
    using assms by (auto simp: sk_connects_ok_def ops_ok_def)
  have "ops_ok (map sc_completed ((sk_connects s)[i := (sk_connects s ! i)\<lparr>sc_completed := True\<rparr>])) (over sk_connect_job (sk_out s))
      (set_option (sk_connect_op s)) (over sk_connect_id (sk_log s) @ [i])"
    using ops_ok_complete_job [of "map sc_completed (sk_connects s)" i "over sk_connect_job (sk_out s)"] assms False i(1)
    by (simp add: sk_connects_ok_def map_update)
  moreover have "list_all (sk_job_ok ((sk_connects s)[i := (sk_connects s ! i)\<lparr>sc_completed := True\<rparr>])) (sk_out s)"
    by (rule job_ok_update) (use assms i in \<open>auto simp: sk_connects_ok_def\<close>)
  ultimately show ?thesis using assms False i
    by (auto simp: sk_complete_connect_def sk_connects_ok_def sk_act_def sk_upd_connect_def sk_current_def sk_remote_def
        nth_list_update split: option.splits)
qed

lemma complete_connect_waiting:
  assumes "sk_connects_ok b [] s" and "i < length (sk_connects s)" and "sc_cancelled (sk_connects s ! i)" and "sk_connect_op s \<noteq> Some i"
  shows "sk_connects_ok b [] (sk_complete_connect (Some i) ec s)"
proof (cases "sc_completed (sk_connects s ! i)")
  case True
  with assms show ?thesis by (simp add: sk_complete_connect_def)
next
  case False
  have "ops_ok (map sc_completed ((sk_connects s)[i := (sk_connects s ! i)\<lparr>sc_completed := True\<rparr>])) (over sk_connect_job (sk_out s))
      (set_option (sk_connect_op s)) (over sk_connect_id (sk_log s) @ [i])"
    using ops_ok_complete [of "map sc_completed (sk_connects s)" _ "set_option (sk_connect_op s)"] assms(1,2) False
    by (simp add: sk_connects_ok_def map_update)
  moreover have "list_all (sk_job_ok ((sk_connects s)[i := (sk_connects s ! i)\<lparr>sc_completed := True\<rparr>])) (sk_out s)"
    by (rule job_ok_update) (use assms in \<open>auto simp: sk_connects_ok_def\<close>)
  ultimately show ?thesis using assms False
    by (auto simp: sk_complete_connect_def sk_connects_ok_def sk_act_def sk_upd_connect_def sk_current_def sk_remote_def
        nth_list_update split: option.splits)
qed

text \<open>Closing: a step in flight keeps the operation and gives it a terminal error, otherwise it is answered.\<close>

lemma on_close_connects:
  assumes "sk_connects_ok b [] s" and "ec_failed ec \<or> b"
  shows "sk_connects_ok True [] (sk_on_close ec s)"
proof (cases "sk_connect_op s")
  case None
  with assms show ?thesis
    by (auto simp: sk_on_close_def sk_connects_ok_def sk_act_def sk_current_def sk_remote_def)
next
  case (Some i)
  have i: "i < length (sk_connects s)" "i \<notin> set (over sk_connect_job (sk_out s))"
    using ops_ok_parked [OF sk_connects_ok_def [THEN iffD1, OF assms(1), THEN conjunct1], of i] Some by simp_all
  have cur: "sk_current b s" and jobs: "list_all (sk_job_ok (sk_connects s)) (sk_out s)" using assms(1) by (simp_all add: sk_connects_ok_def)
  define e where "e = (if \<not> ec_failed ec then asio_operation_aborted else ec)"
  have e: "ec_failed e" by (simp add: e_def asio_operation_aborted_def)
  show ?thesis
  proof (cases b)
    case True
    have "list_all (sk_job_ok ((sk_connects s)[i := (sk_connects s ! i)\<lparr>sc_terminal_error := e\<rparr>])) (sk_out s)"
      by (rule job_ok_update [OF jobs]) (use i in auto)
    moreover have "map sc_completed ((sk_connects s)[i := (sk_connects s ! i)\<lparr>sc_terminal_error := e\<rparr>]) = map sc_completed (sk_connects s)"
      by (simp add: map_update_same)
    ultimately show ?thesis using assms(1) Some True cur i e
      by (auto simp: sk_on_close_def sk_connects_ok_def sk_act_def sk_upd_connect_def sk_current_def sk_remote_def e_def [symmetric])
  next
    case False
    have "ops_ok (map sc_completed ((sk_connects s)[i := (sk_connects s ! i)\<lparr>sc_completed := True\<rparr>])) (over sk_connect_job (sk_out s))
        {} (over sk_connect_id (sk_log s) @ [i])"
      using ops_ok_complete [of "map sc_completed (sk_connects s)" _ "set_option (sk_connect_op s)" _ i "{}"] assms(1) Some cur i
      by (auto simp: sk_connects_ok_def map_update sk_current_def)
    moreover have "list_all (sk_job_ok ((sk_connects s)[i := (sk_connects s ! i)\<lparr>sc_completed := True\<rparr>])) (sk_out s)"
      by (rule job_ok_update [OF jobs]) (use i in auto)
    ultimately show ?thesis using assms(1) Some False cur
      by (auto simp: sk_on_close_def sk_complete_connect_def sk_connects_ok_def sk_act_def sk_upd_connect_def sk_current_def sk_remote_def
          e_def [symmetric] Let_def)
  qed
qed

text \<open>Starting a step of the current connect.\<close>

lemma sk_begin_current:
  assumes "sk_connects_ok False [] s" and "sk_connect_op s = Some i" and "\<not> ec_failed (sc_terminal_error (sk_connects s ! i))"
    and f: "\<And>t. sk_connects_ok True [] (t\<lparr>sk_out := sk_out t @ [Sp_resolve i]\<rparr>) \<Longrightarrow> ep_id_name (sk_endpoint t) \<noteq> None \<Longrightarrow> sk_connects_ok True [] (f i t)"
  shows "sk_connects_ok True [] (sk_begin f s)"
proof -
  have i: "i < length (sk_connects s)" "i \<notin> set (over sk_connect_job (sk_out s))"
    using ops_ok_parked [OF sk_connects_ok_def [THEN iffD1, OF assms(1), THEN conjunct1], of i] assms(2) by simp_all
  have cur: "sk_current False s" and jobs: "list_all (sk_job_ok (sk_connects s)) (sk_out s)" using assms(1) by (simp_all add: sk_connects_ok_def)
  have "list_all (sk_job_ok ((sk_connects s)[i := (sk_connects s ! i)\<lparr>sc_started := True\<rparr>])) (sk_out s)"
    by (rule job_ok_update [OF jobs]) (use i in auto)
  moreover have "map sc_completed ((sk_connects s)[i := (sk_connects s ! i)\<lparr>sc_started := True\<rparr>]) = map sc_completed (sk_connects s)"
    by (simp add: map_update_same)
  ultimately have "sk_connects_ok True [] ((sk_upd_connect i (\<lambda>x. x\<lparr>sc_started := True\<rparr>) s)\<lparr>sk_out := sk_out s @ [Sp_resolve i]\<rparr>)"
    using assms(1,2,3) cur i(1) by (auto simp: sk_connects_ok_def sk_upd_connect_def sk_current_def sk_remote_def)
  moreover have "ep_id_name (sk_endpoint s) \<noteq> None" using cur assms(2,3) by (simp add: sk_current_def)
  ultimately show ?thesis using f [of "sk_upd_connect i (\<lambda>x. x\<lparr>sc_started := True\<rparr>) s"] assms(2) by (simp add: sk_begin_def sk_upd_connect_def)
qed

lemma sk_begin_steps:
  assumes "sk_connects_ok False [] s" and "sk_connect_op s = Some i" and "\<not> ec_failed (sc_terminal_error (sk_connects s ! i))"
  shows "sk_connects_ok True [] (sk_do_resolve_host s)" and "sk_connects_ok True [] (sk_do_connect s)"
    and "sk_connects_ok True [] (sk_do_handshake s)"
  unfolding sk_do_resolve_host_def sk_do_connect_def sk_do_handshake_def
  by (rule sk_begin_current [OF assms];
      auto simp: sk_connects_ok_def sk_current_def sk_remote_def sk_start_def sk_act_def split: option.splits)+

lemma on_started_connects:
  assumes "sk_connects_ok False [] s" and "sk_connect_op s = Some i"
  shows "sk_connects_ok True [] (sk_on_started s)"
proof -
  have i: "i < length (sk_connects s)" "i \<notin> set (over sk_connect_job (sk_out s))"
    using ops_ok_parked [OF sk_connects_ok_def [THEN iffD1, OF assms(1), THEN conjunct1], of i] assms(2) by simp_all
  have cur: "sk_current False s" and jobs: "list_all (sk_job_ok (sk_connects s)) (sk_out s)" using assms(1) by (simp_all add: sk_connects_ok_def)
  have "ops_ok (map sc_completed ((sk_connects s)[i := (sk_connects s ! i)\<lparr>sc_completed := True\<rparr>])) (over sk_connect_job (sk_out s))
      {} (over sk_connect_id (sk_log s) @ [i])"
    using ops_ok_complete [of "map sc_completed (sk_connects s)" _ "set_option (sk_connect_op s)" _ i "{}"] assms cur i
    by (auto simp: sk_connects_ok_def map_update sk_current_def)
  moreover have "list_all (sk_job_ok ((sk_connects s)[i := (sk_connects s ! i)\<lparr>sc_completed := True\<rparr>])) (sk_out s)"
    by (rule job_ok_update [OF jobs]) (use i in auto)
  ultimately show ?thesis using assms cur
    by (auto simp: sk_on_started_def sk_complete_connect_def sk_connects_ok_def sk_act_def sk_upd_connect_def sk_current_def sk_remote_def Let_def)
qed

text \<open>The answer of a step belongs to the current connect.\<close>

lemma on_step_connects:
  assumes "sk_connects_ok True [] s" and "k < length (sk_out s)" and "sk_flow (sk_out s ! k) = [i]"
    and "\<And>t. sk_connects_ok False [] t \<Longrightarrow> sk_connect_op t = Some i \<Longrightarrow> \<not> ec_failed (sc_terminal_error (sk_connects t ! i)) \<Longrightarrow>
      sk_connects_ok True [] (next t)"
  shows "sk_connects_ok True [] (sk_on_step i cause next (s\<lparr>sk_out := remove_at k (sk_out s)\<rparr>))"
proof -
  let ?out = "remove_at k (sk_out s)"
  have "sk_connect_job (sk_out s ! k) = []" using assms(3) by (cases "sk_out s ! k") (auto elim: sk_flow.elims)
  then have jobs: "over sk_connect_job ?out = over sk_connect_job (sk_out s)" using remove_at_project [OF assms(2), of sk_connect_job] by auto
  obtain as bs where "over sk_flow (sk_out s) = as @ [i] @ bs" "over sk_flow ?out = as @ bs"
    using remove_at_project [OF assms(2), of sk_flow] assms(3) by auto
  then have cur: "sk_connect_op s = Some i" "over sk_flow ?out = []" "sk_state s = Sk_connecting" "sc_started (sk_connects s ! i)"
      "\<not> sc_completed (sk_connects s ! i)" "ec_failed (sc_terminal_error (sk_connects s ! i)) \<or> ep_id_name (sk_endpoint s) \<noteq> None"
    using assms(1) by (auto simp: sk_connects_ok_def sk_current_def Cons_eq_append_conv append_eq_Cons_conv split: option.splits)
  have i: "i < length (sk_connects s)" "i \<notin> set (over sk_connect_job (sk_out s))"
    using ops_ok_parked [OF sk_connects_ok_def [THEN iffD1, OF assms(1), THEN conjunct1], of i] cur(1) by simp_all
  define t where "t = sk_upd_connect i (\<lambda>x. x\<lparr>sc_started := False\<rparr>) (s\<lparr>sk_out := ?out\<rparr>)"
  have "set ?out \<subseteq> set (sk_out s)" by (auto simp: remove_at_def dest: in_set_takeD in_set_dropD)
  then have "list_all (sk_job_ok (sk_connects s)) ?out" using assms(1) by (auto simp: sk_connects_ok_def list_all_iff)
  then have "list_all (sk_job_ok ((sk_connects s)[i := (sk_connects s ! i)\<lparr>sc_started := False\<rparr>])) ?out"
    by (rule job_ok_update) (use i jobs in auto)
  moreover have "map sc_completed ((sk_connects s)[i := (sk_connects s ! i)\<lparr>sc_started := False\<rparr>]) = map sc_completed (sk_connects s)"
    by (simp add: map_update_same)
  ultimately have t: "sk_connects_ok False [] t" "sk_connect_op t = Some i" "sk_state t = Sk_connecting"
    using assms(1) jobs cur i(1) by (auto simp: t_def sk_connects_ok_def sk_upd_connect_def sk_current_def sk_remote_def)
  then show ?thesis
    using on_close_connects [OF t(1)] assms(4) [OF t(1,2)]
    by (simp add: sk_on_step_def t_def [symmetric] sk_on_error_def Let_def)
qed

lemma release_connects:
  assumes "sk_connects_ok b js s" and "i < length (sk_connects s)"
    and "i \<in> set (over sk_connect_job (sk_out s)) \<Longrightarrow> sc_completed (sk_connects s ! i) \<Longrightarrow> sc_cancelled (sk_connects s ! i)"
  shows "sk_connects_ok b js (sk_release_connect_reservation i s)"
proof -
  have "list_all (sk_job_ok ((sk_connects s)[i := (sk_connects s ! i)\<lparr>sc_reserved := False\<rparr>])) (sk_out s)"
    by (rule job_ok_update) (use assms in \<open>auto simp: sk_connects_ok_def\<close>)
  moreover have "map sc_completed ((sk_connects s)[i := (sk_connects s ! i)\<lparr>sc_reserved := False\<rparr>]) = map sc_completed (sk_connects s)"
    by (simp add: map_update_same)
  ultimately show ?thesis using assms(1,2)
    by (auto simp: sk_release_connect_reservation_def sk_connects_ok_def sk_upd_connect_def sk_current_def sk_remote_def nth_list_update
        split: option.splits)
qed

lemma sk_release_fields [simp]:
  "length (sk_connects (sk_release_connect_reservation i s)) = length (sk_connects s)"
  "sk_connect_op (sk_release_connect_reservation i s) = sk_connect_op s"
  "i < length (sk_connects s) \<Longrightarrow> sc_cancelled (sk_connects (sk_release_connect_reservation i s) ! i) = sc_cancelled (sk_connects s ! i)"
  by (simp_all add: sk_release_connect_reservation_def sk_upd_connect_def)

lemma async_connect_internal_connects:
  assumes "sk_connects_ok True [i] s" and "sk_job_ok (sk_connects s) (Sp_job (Sj_connect ty ep i))"
  shows "sk_connects_ok True [] (sk_async_connect_internal ty ep i s)"
proof -
  have i: "i < length (sk_connects s)" "i \<notin> set (over sk_connect_job (sk_out s))" "i \<notin> set_option (sk_connect_op s)"
    using assms(1) by (auto simp: sk_connects_ok_def ops_ok_def)
  let ?t = "s\<lparr>sk_type := ty, sk_endpoint := ep, sk_connect_op := Some i, sk_state := Sk_connecting\<rparr>"
  have "sk_connects_ok True [] (sk_do_resolve_host ?t)"
    if "\<not> sc_cancelled (sk_connects s ! i)" "sc_reserved (sk_connects s ! i)" "sk_state s = Sk_null"
  proof (rule sk_begin_steps(1))
    have "sk_connect_op s = None" using assms(1) that(3) by (auto simp: sk_connects_ok_def sk_current_def split: option.splits)
    with that assms ops_ok_park [of "map sc_completed (sk_connects s)" i] i show "sk_connects_ok False [] ?t"
      by (auto simp: sk_connects_ok_def sk_current_def sk_remote_def)
  qed (use assms(2) in auto)
  then show ?thesis
    using complete_connect_job [OF assms(1)] complete_connect_job [OF release_connects [OF assms(1) i(1)]] i(2)
    by (auto simp: sk_async_connect_internal_def Let_def)
qed

lemma cancel_connect_connects:
  assumes "sk_connects_ok True [] s"
  shows "sk_connects_ok True [] (sk_cancel_connect i s)"
proof (cases "i < length (sk_connects s) \<and> sc_cancelled (sk_connects s ! i) \<and> sk_connect_op s \<noteq> Some i")
  case True
  then have "sk_connects_ok True [] (sk_release_connect_reservation i s)" by (intro release_connects [OF assms]) simp_all
  from complete_connect_waiting [OF this] True assms show ?thesis by (simp add: sk_cancel_connect_def)
next
  case False
  then show ?thesis using assms on_close_connects [OF assms, of asio_operation_aborted]
    by (auto simp: sk_cancel_connect_def asio_operation_aborted_def)
qed

lemma async_connect_connects:
  assumes "sk_connects_ok True [] s"
  shows "sk_connects_ok True [] (sk_async_connect ty ep s)"
proof -
  define op where "op = \<lparr>sc_cancelled = False, sc_completed = False, sc_started = False, sc_reserved = (\<not> ec_failed (sk_initiation_error ep s)),
                sc_initiation_error = sk_initiation_error ep s, sc_terminal_error = ec_ok\<rparr>"
  have ops: "ops_ok (map sc_completed (sk_connects s)) (over sk_connect_job (sk_out s)) (set_option (sk_connect_op s)) (over sk_connect_id (sk_log s))"
    using assms by (simp add: sk_connects_ok_def)
  have "sk_job_ok (sk_connects s @ [op]) x" if "x \<in> set (sk_out s)" for x
  proof -
    have "sk_job_ok (sk_connects s) x" using assms that by (auto simp: sk_connects_ok_def list_all_iff)
    moreover have "i < length (sk_connects s)" if "x = Sp_job (Sj_connect ty' ep' i)" for ty' ep' i
      using ops_ok_job [OF ops, of i] \<open>x \<in> set (sk_out s)\<close> that by force
    ultimately show ?thesis by (cases "(sk_connects s, x)" rule: sk_job_ok.cases) (auto simp: nth_append)
  qed
  then have jobs: "list_all (sk_job_ok (sk_connects s @ [op])) (sk_out s)" by (simp add: list_all_iff)
  have new: "sk_job_ok (sk_connects s @ [op]) (Sp_job (Sj_connect ty ep (length (sk_connects s))))"
    by (auto simp: op_def sk_initiation_error_def split: if_splits)
  have "i < length (sk_connects s)" if "sk_connect_op s = Some i" for i using ops_ok_parked [OF ops, of i] that by simp
  with jobs new ops_ok_new [OF ops] assms show ?thesis
    by (auto simp: sk_async_connect_def op_def [symmetric] sk_connects_ok_def sk_current_def sk_remote_def sk_start_def nth_append Let_def
        split: option.splits) (simp_all add: op_def)
qed

lemma slot_connect_connects:
  assumes "sk_connects_ok True [] s"
  shows "sk_connects_ok True [] (sk_slot_connect i s)"
proof (cases "i < length (sk_connects s)")
  case True
  have "list_all (sk_job_ok ((sk_connects s)[i := (sk_connects s ! i)\<lparr>sc_cancelled := True\<rparr>])) (sk_out s)"
    by (rule job_ok_update) (use assms in \<open>auto simp: sk_connects_ok_def\<close>)
  moreover have "map sc_completed ((sk_connects s)[i := (sk_connects s ! i)\<lparr>sc_cancelled := True\<rparr>]) = map sc_completed (sk_connects s)"
    by (simp add: map_update_same)
  ultimately show ?thesis using assms True
    by (auto simp: sk_slot_connect_def sk_connects_ok_def sk_upd_connect_def sk_current_def sk_remote_def sk_start_def nth_list_update
        split: option.splits)
qed (simp add: sk_slot_connect_def assms)

text \<open>Transfers leave the connects alone.\<close>

lemma transfers_connects:
  assumes "sk_connects_ok b js s"
  shows "sk_connects_ok b js (sk_async_transfer x s)" "sk_connects_ok b js (sk_slot_transfer i s)"
    "sk_connects_ok b js (sk_async_transfer_internal x i s)" "sk_connects_ok b js (sk_cancel_transfer i s)"
    "sk_connects_ok b js (sk_on_transfer i ec n s)"
  using assms
  by (auto simp: sk_async_transfer_def sk_slot_transfer_def sk_async_transfer_internal_def sk_cancel_transfer_def sk_on_transfer_def
      sk_complete_transfer_def sk_connects_ok_def sk_upd_transfer_def sk_start_def sk_act_def sk_current_def sk_remote_def Let_def
      split: option.splits)

lemma remove_at_connects:
  assumes "sk_connects_ok True [] s" and "k < length (sk_out s)" and "sk_flow (sk_out s ! k) = []"
  shows "sk_connects_ok True (sk_connect_job (sk_out s ! k)) (s\<lparr>sk_out := remove_at k (sk_out s)\<rparr>)" and "sk_job_ok (sk_connects s) (sk_out s ! k)"
proof -
  obtain as bs where p: "over sk_connect_job (sk_out s) = as @ sk_connect_job (sk_out s ! k) @ bs" "over sk_connect_job (remove_at k (sk_out s)) = as @ bs"
    using remove_at_project [OF assms(2), of sk_connect_job] by blast
  obtain cs ds where q: "over sk_flow (sk_out s) = cs @ ds" "over sk_flow (remove_at k (sk_out s)) = cs @ ds"
    using remove_at_project [OF assms(2), of sk_flow] assms(3) by auto
  have "set (remove_at k (sk_out s)) \<subseteq> set (sk_out s)" by (auto simp: remove_at_def dest: in_set_takeD in_set_dropD)
  then have "list_all (sk_job_ok (sk_connects s)) (remove_at k (sk_out s))" using assms(1) by (auto simp: sk_connects_ok_def list_all_iff)
  moreover have one: "length (sk_connect_job x) \<le> 1" for x by (cases x rule: sk_connect_job.cases) simp_all
  ultimately show "sk_connects_ok True (sk_connect_job (sk_out s ! k)) (s\<lparr>sk_out := remove_at k (sk_out s)\<rparr>)"
    using assms(1) p q by (simp add: sk_connects_ok_def sk_current_def sk_remote_def ops_ok_swap [OF one] split: option.splits)
  show "sk_job_ok (sk_connects s) (sk_out s ! k)" using assms(1,2) by (simp add: sk_connects_ok_def list_all_length)
qed

section \<open>Transfers\<close>

text \<open>\<open>js\<close>: jobs that are being run; \<open>fs\<close>: transfers whose answer is being handled.\<close>

definition sk_transfers_ok :: "nat list \<Rightarrow> nat list \<Rightarrow> sock \<Rightarrow> bool" where
  "sk_transfers_ok js fs s \<longleftrightarrow>
     ops_ok (map sx_completed (sk_transfers s)) (js @ over sk_transfer_job (sk_out s)) (set (fs @ over sk_flight (sk_out s)))
       (over sk_transfer_id (sk_log s))
     \<and> distinct (fs @ over sk_flight (sk_out s))
     \<and> (\<forall>i \<in> set (fs @ over sk_flight (sk_out s)). \<not> sx_completed (sk_transfers s ! i))
     \<and> (\<forall>i \<in> set (over sk_flight (sk_out s)). sx_started (sk_transfers s ! i))
     \<and> (\<forall>i \<in> set (js @ over sk_transfer_job (sk_out s)). sx_completed (sk_transfers s ! i) \<longrightarrow> sx_cancelled (sk_transfers s ! i))"

definition transfer_view :: "sock \<Rightarrow> sk_transfer_op list \<times> nat list \<times> nat list \<times> nat list" where
  "transfer_view s = (sk_transfers s, over sk_transfer_job (sk_out s), over sk_flight (sk_out s), over sk_transfer_id (sk_log s))"

lemma transfers_frame: "transfer_view s = transfer_view t \<Longrightarrow> sk_transfers_ok js fs s = sk_transfers_ok js fs t"
  by (simp add: sk_transfers_ok_def transfer_view_def)

lemma transfer_view_basic [simp]:
  "transfer_view (sk_upd_connect i f s) = transfer_view s" "sk_transfer_id a = [] \<Longrightarrow> transfer_view (sk_act a s) = transfer_view s"
  "sk_transfer_job x = [] \<Longrightarrow> sk_flight x = [] \<Longrightarrow> transfer_view (sk_start x s) = transfer_view s"
  "transfer_view (s\<lparr>sk_connect_op := op\<rparr>) = transfer_view s" "transfer_view (s\<lparr>sk_state := st\<rparr>) = transfer_view s"
  "transfer_view (s\<lparr>sk_endpoint := ep\<rparr>) = transfer_view s" "transfer_view (s\<lparr>sk_type := ty\<rparr>) = transfer_view s"
  "transfer_view (s\<lparr>sk_is_state_non_null := nn\<rparr>) = transfer_view s" "transfer_view (s\<lparr>sk_fault := f'\<rparr>) = transfer_view s"
  "transfer_view (s\<lparr>sk_remote_endpoint := r\<rparr>) = transfer_view s"
  "transfer_view (s\<lparr>sk_connects := cs\<rparr>) = transfer_view s" "transfer_view (s\<lparr>sk_settings := cfg\<rparr>) = transfer_view s"
  by (simp_all add: transfer_view_def sk_upd_connect_def sk_act_def sk_start_def)

lemma transfer_view_closing [simp]:
  "transfer_view (sk_complete_connect op ec s) = transfer_view s" "transfer_view (sk_on_close ec s) = transfer_view s"
  "transfer_view (sk_on_error ec s) = transfer_view s" "transfer_view (sk_close_internal s) = transfer_view s"
  "transfer_view (sk_release_connect_reservation i s) = transfer_view s"
proof -
  show complete: "transfer_view (sk_complete_connect op ec s) = transfer_view s" for op ec s
    by (simp add: sk_complete_connect_def Let_def split: option.splits)
  show close: "transfer_view (sk_on_close ec s) = transfer_view s" for ec s
    by (simp add: sk_on_close_def complete Let_def split: option.splits)
  show "transfer_view (sk_on_error ec s) = transfer_view s" "transfer_view (sk_close_internal s) = transfer_view s"
    by (simp_all add: sk_on_error_def sk_close_internal_def close)
  show "transfer_view (sk_release_connect_reservation i s) = transfer_view s" by (simp add: sk_release_connect_reservation_def)
qed

lemma transfer_view_steps [simp]:
  "transfer_view (sk_do_resolve_host s) = transfer_view s" "transfer_view (sk_do_connect s) = transfer_view s"
  "transfer_view (sk_do_handshake s) = transfer_view s" "transfer_view (sk_on_started s) = transfer_view s"
  by (simp_all add: sk_do_resolve_host_def sk_do_connect_def sk_do_handshake_def sk_begin_def sk_on_started_def Let_def split: option.splits)

lemma transfer_view_handlers [simp]:
  "transfer_view (sk_cancel_connect i s) = transfer_view s" "transfer_view (sk_async_connect_internal ty ep i s) = transfer_view s"
  "transfer_view (sk_on_do_resolve_host i ec em s) = transfer_view s" "transfer_view (sk_on_connect i ec s) = transfer_view s"
  "transfer_view (sk_on_handshake i ec s) = transfer_view s"
  "transfer_view (sk_async_connect ty ep s) = transfer_view s" "transfer_view (sk_slot_connect i s) = transfer_view s"
  "transfer_view (sk_close s) = transfer_view s" "transfer_view (snd (sk_set_settings cfg s)) = transfer_view s"
  by (simp_all add: sk_cancel_connect_def sk_async_connect_internal_def sk_on_do_resolve_host_def sk_on_connect_def sk_on_handshake_def sk_on_step_def
      sk_async_connect_def sk_slot_connect_def sk_close_def sk_set_settings_def Let_def)

abbreviation set_transferred :: "nat \<Rightarrow> sk_transfer_op list \<Rightarrow> sk_transfer_op list" where
  "set_transferred i ts \<equiv> ts[i := (ts ! i)\<lparr>sx_completed := True\<rparr>]"

lemma complete_transfer_job:
  assumes "sk_transfers_ok [i] [] s"
  shows "sk_transfers_ok [] [] (sk_complete_transfer i ec n s)"
proof -
  have i: "i < length (sk_transfers s)" "i \<notin> set (over sk_flight (sk_out s))" "i \<notin> set (over sk_transfer_job (sk_out s))"
    using assms by (auto simp: sk_transfers_ok_def ops_ok_def)
  have "ops_ok (map sx_completed (set_transferred i (sk_transfers s))) (over sk_transfer_job (sk_out s)) (set (over sk_flight (sk_out s)))
      (over sk_transfer_id (sk_log s) @ [i])" if "\<not> sx_completed (sk_transfers s ! i)"
    using ops_ok_complete_job [of "map sx_completed (sk_transfers s)" i] assms that i(1) by (simp add: sk_transfers_ok_def map_update)
  with assms i ops_ok_done [of "map sx_completed (sk_transfers s)" i] show ?thesis
    by (auto simp: sk_complete_transfer_def sk_transfers_ok_def sk_act_def sk_upd_transfer_def nth_list_update)
qed

lemma complete_transfer_waiting:
  assumes "sk_transfers_ok [] [] s" and "i < length (sk_transfers s)" and "sx_cancelled (sk_transfers s ! i)" and "\<not> sx_started (sk_transfers s ! i)"
  shows "sk_transfers_ok [] [] (sk_complete_transfer i ec n s)"
proof -
  have i: "i \<notin> set (over sk_flight (sk_out s))" using assms by (auto simp: sk_transfers_ok_def)
  have "ops_ok (map sx_completed (set_transferred i (sk_transfers s))) (over sk_transfer_job (sk_out s)) (set (over sk_flight (sk_out s)))
      (over sk_transfer_id (sk_log s) @ [i])" if "\<not> sx_completed (sk_transfers s ! i)"
    using ops_ok_complete [of "map sx_completed (sk_transfers s)" _ "set (over sk_flight (sk_out s))"] assms(1,2) that
    by (simp add: sk_transfers_ok_def map_update)
  with assms i show ?thesis
    by (auto simp: sk_complete_transfer_def sk_transfers_ok_def sk_act_def sk_upd_transfer_def nth_list_update)
qed

lemma on_transfer_transfers:
  assumes "sk_transfers_ok [] [i] s"
  shows "sk_transfers_ok [] [] (sk_on_transfer i ec n s)"
proof -
  have i: "i < length (sk_transfers s)" "i \<notin> set (over sk_flight (sk_out s))" "\<not> sx_completed (sk_transfers s ! i)"
      "i \<notin> set (over sk_transfer_job (sk_out s))"
    using assms by (auto simp: sk_transfers_ok_def ops_ok_def)
  have "ops_ok ((map sx_completed (sk_transfers s))[i := True]) (over sk_transfer_job (sk_out s)) (set (over sk_flight (sk_out s)))
      (over sk_transfer_id (sk_log s) @ [i])"
    by (rule ops_ok_complete [where W = "insert i (set (over sk_flight (sk_out s)))"]) (use assms i in \<open>auto simp: sk_transfers_ok_def\<close>)
  with assms i show ?thesis
    by (auto simp: sk_on_transfer_def sk_complete_transfer_def sk_transfers_ok_def sk_act_def sk_upd_transfer_def nth_list_update map_update Let_def)
qed

lemma async_transfer_internal_transfers:
  assumes "sk_transfers_ok [i] [] s"
  shows "sk_transfers_ok [] [] (sk_async_transfer_internal x i s)"
proof -
  have i: "i < length (sk_transfers s)" "i \<notin> set (over sk_flight (sk_out s))" "i \<notin> set (over sk_transfer_job (sk_out s))"
    using assms by (auto simp: sk_transfers_ok_def ops_ok_def)
  have "sk_transfers_ok [] [] (sk_start (Sp_transfer i) (sk_act (Sk_transfer_start i x) (sk_upd_transfer i (\<lambda>y. y\<lparr>sx_started := True\<rparr>) s)))"
    if "\<not> sx_cancelled (sk_transfers s ! i)"
    using assms that i ops_ok_park [of "map sx_completed (sk_transfers s)" i]
    by (auto simp: sk_transfers_ok_def sk_start_def sk_act_def sk_upd_transfer_def nth_list_update map_update_same)
  then show ?thesis using complete_transfer_job [OF assms] by (simp add: sk_async_transfer_internal_def)
qed

lemma calls_transfers:
  assumes "sk_transfers_ok [] [] s"
  shows "sk_transfers_ok [] [] (sk_async_transfer x s)" and "sk_transfers_ok [] [] (sk_slot_transfer i s)" and "sk_transfers_ok [] [] (sk_cancel_transfer i s)"
proof -
  have ops: "ops_ok (map sx_completed (sk_transfers s)) (over sk_transfer_job (sk_out s)) (set (over sk_flight (sk_out s))) (over sk_transfer_id (sk_log s))"
    using assms by (simp add: sk_transfers_ok_def)
  have "i < length (sk_transfers s)" if "i \<in> set (over sk_flight (sk_out s))" for i using ops_ok_parked [OF ops that] by simp
  moreover have "i < length (sk_transfers s)" if "i \<in> set (over sk_transfer_job (sk_out s))" for i using ops_ok_job [OF ops that] by simp
  ultimately show "sk_transfers_ok [] [] (sk_async_transfer x s)" using assms ops_ok_new [OF ops]
    by (simp add: sk_async_transfer_def sk_transfers_ok_def sk_start_def) (auto simp: nth_append)
  show "sk_transfers_ok [] [] (sk_slot_transfer i s)" using assms
    by (auto simp: sk_slot_transfer_def sk_transfers_ok_def sk_start_def sk_upd_transfer_def nth_list_update map_update_same)
  show "sk_transfers_ok [] [] (sk_cancel_transfer i s)"
    using assms complete_transfer_waiting [OF assms, of i]
    by (simp add: sk_cancel_transfer_def) (simp add: sk_transfers_ok_def sk_act_def)
qed

section \<open>The machine\<close>

definition sk_inv :: "sock \<Rightarrow> bool" where
  "sk_inv s \<longleftrightarrow> sk_connects_ok True [] s \<and> sk_transfers_ok [] [] s"

lemma sk_inv_init: "sk_inv (sk_init cfg)"
  by (simp add: sk_inv_def sk_connects_ok_init) (simp add: sk_transfers_ok_def sk_init_def ops_ok_init)

lemma answer_connects:
  assumes "sk_connects_ok True [] s" and "k < length (sk_out s)"
  shows "sk_connects_ok True [] (sk_answer r (sk_out s ! k) (s\<lparr>sk_out := remove_at k (sk_out s)\<rparr>))"
proof (cases "sk_flow (sk_out s ! k) = []")
  case False
  note step = on_step_connects [OF assms]
  show ?thesis
    by (cases "sk_out s ! k")
      (use False step [OF _ sk_begin_steps(2)] step [OF _ sk_begin_steps(3)] step [OF _ on_started_connects] in
        \<open>auto simp: sk_on_do_resolve_host_def sk_on_connect_def sk_on_handshake_def\<close>)
next
  case True
  note t = remove_at_connects [OF assms True]
  show ?thesis
  proof (cases "sk_out s ! k")
    case (Sp_job j)
    then show ?thesis
    proof (cases j)
      case (Sj_connect ty ep i)
      with Sp_job t async_connect_internal_connects show ?thesis by simp
    next
      case Sj_close
      with Sp_job t on_close_connects [OF t(1) [unfolded Sp_job Sj_close, simplified], of ec_ok] show ?thesis
        by (simp add: sk_close_internal_def)
    qed (use Sp_job t cancel_connect_connects transfers_connects in simp_all)
  qed (use True t transfers_connects(5) in simp_all)
qed

lemma answer_transfers:
  assumes "sk_transfers_ok [] [] s" and "k < length (sk_out s)"
  shows "sk_transfers_ok [] [] (sk_answer r (sk_out s ! k) (s\<lparr>sk_out := remove_at k (sk_out s)\<rparr>))"
proof -
  let ?t = "s\<lparr>sk_out := remove_at k (sk_out s)\<rparr>" and ?x = "sk_out s ! k"
  obtain as bs where p: "over sk_transfer_job (sk_out s) = as @ sk_transfer_job ?x @ bs" "over sk_transfer_job (remove_at k (sk_out s)) = as @ bs"
    using remove_at_project [OF assms(2), of sk_transfer_job] by blast
  obtain cs ds where q: "over sk_flight (sk_out s) = cs @ sk_flight ?x @ ds" "over sk_flight (remove_at k (sk_out s)) = cs @ ds"
    using remove_at_project [OF assms(2), of sk_flight] by blast
  have sets: "set (over sk_transfer_job (sk_out s)) = set (sk_transfer_job ?x @ as @ bs)" "set (over sk_flight (sk_out s)) = set (sk_flight ?x @ cs @ ds)"
    by (simp_all only: p q set_append) blast+
  have one: "length (sk_transfer_job x) \<le> 1" for x by (cases x rule: sk_transfer_job.cases) simp_all
  then have t: "sk_transfers_ok (sk_transfer_job ?x) (sk_flight ?x) ?t"
    using assms(1) unfolding sk_transfers_ok_def sets
    by (simp only: p(1) q(1)) (simp add: p(2) q(2) ball_Un Un_ac ops_ok_swap [OF one], blast)
  have frame: "sk_transfers_ok [] [] (sk_answer r ?x ?t)" if "transfer_view (sk_answer r ?x ?t) = transfer_view ?t" "sk_transfer_job ?x = []" "sk_flight ?x = []"
    using t transfers_frame [OF that(1)] that(2,3) by simp
  show ?thesis
  proof (cases ?x)
    case (Sp_job j)
    then show ?thesis
      using t frame async_transfer_internal_transfers calls_transfers(3) by (cases j) simp_all
  next
    case (Sp_transfer i)
    with t on_transfer_transfers show ?thesis by simp
  qed (use frame in simp_all)
qed

lemma sk_event_inv:
  assumes "sk_inv s"
  shows "sk_inv (sk_event e s)"
proof -
  have c: "sk_connects_ok True [] s" and t: "sk_transfers_ok [] [] s" using assms by (simp_all add: sk_inv_def)
  have "sk_connects_ok True [] (snd (sk_set_settings cfg s))" "sk_connects_ok True [] (sk_close s)" for cfg
    using c by (simp_all add: sk_set_settings_def sk_close_def sk_start_def sk_connects_ok_def sk_current_def sk_remote_def split: option.splits)
  then have "sk_connects_ok True [] (sk_event e s)"
    using c answer_connects [OF c] async_connect_connects [OF c] slot_connect_connects [OF c] transfers_connects [OF c] by (cases e) simp_all
  moreover have "sk_transfers_ok [] [] (sk_event e s)"
  proof -
    have frame: "sk_transfers_ok [] [] (sk_event e s)" if "transfer_view (sk_event e s) = transfer_view s"
      using t transfers_frame [OF that] by simp
    show ?thesis using t frame answer_transfers [OF t] calls_transfers [OF t] by (cases e) simp_all
  qed
  ultimately show ?thesis by (simp add: sk_inv_def)
qed

interpretation skm: invariant_machine sk_event sk_inv
  by unfold_locales (rule sk_event_inv)

lemma sk_run_inv: "sk_inv (sk_run cfg es)"
  unfolding sk_run_def by (rule skm.run_inv [OF sk_inv_init])

section \<open>Properties\<close>

text \<open>
  C8: every operation of a socket is answered exactly once or still under way. In every interleaving the
  handlers of connects and of transfers are invoked at most once each, and every operation that was started
  has been answered, waits for the strand, or has a step in flight; at most one connect has one.
\<close>

theorem socket_operations:
  "distinct (over sk_connect_id (sk_log (sk_run cfg es))) \<and> distinct (over sk_transfer_id (sk_log (sk_run cfg es)))
   \<and> length (over sk_flow (sk_out (sk_run cfg es))) \<le> 1
   \<and> set (over sk_connect_id (sk_log (sk_run cfg es))) \<union> set (over sk_connect_job (sk_out (sk_run cfg es)))
       \<union> set (over sk_flow (sk_out (sk_run cfg es))) = {..<length (sk_connects (sk_run cfg es))}
   \<and> set (over sk_transfer_id (sk_log (sk_run cfg es))) \<union> set (over sk_transfer_job (sk_out (sk_run cfg es)))
       \<union> set (over sk_flight (sk_out (sk_run cfg es))) = {..<length (sk_transfers (sk_run cfg es))}"
proof -
  have all: "distinct ids \<and> set ids \<union> set js \<union> W = {..<length ds}" if "ops_ok ds js W ids" for ds js W ids
    using that by (auto simp: ops_ok_def)
  let ?s = "sk_run cfg es"
  have c: "sk_connects_ok True [] ?s" and t: "sk_transfers_ok [] [] ?s" using sk_run_inv [of cfg es] by (simp_all add: sk_inv_def)
  have "over sk_flow (sk_out ?s) = (case sk_connect_op ?s of None \<Rightarrow> [] | Some i \<Rightarrow> [i])"
    using c by (auto simp: sk_connects_ok_def sk_current_def split: option.splits)
  then have "set_option (sk_connect_op ?s) = set (over sk_flow (sk_out ?s)) \<and> length (over sk_flow (sk_out ?s)) \<le> 1"
    by (cases "sk_connect_op ?s") (simp_all only: option.case option.set list.size list.set, simp_all)
  with all [OF sk_connects_ok_def [THEN iffD1, OF c, THEN conjunct1]] all [OF sk_transfers_ok_def [THEN iffD1, OF t, THEN conjunct1]]
  show ?thesis by simp
qed

text \<open>
  The remote endpoint of a socket is known exactly while it is connected, and it never carries the secret
  of the stream; and no step of the socket uses an endpoint without identifier or a missing operation.
\<close>

theorem socket_remote_endpoint:
  "(sk_remote_endpoint (sk_run cfg es) = (if sk_state (sk_run cfg es) = Sk_connected then Some (sk_endpoint (sk_run cfg es)) else None))
   \<and> ep_secret (snd (sk_get_remote_endpoint (sk_run cfg es))) = None
   \<and> (ec_failed (fst (sk_get_remote_endpoint (sk_run cfg es))) \<longleftrightarrow> sk_state (sk_run cfg es) \<noteq> Sk_connected)
   \<and> \<not> sk_fault (sk_run cfg es)"
  using sk_run_inv [of cfg es]
  by (auto simp: sk_inv_def sk_connects_ok_def sk_remote_def sk_get_remote_endpoint_def empty_endpoint_def)

end
