(* ===== verification/SocketPolicy.thy ===== *)
theory SocketPolicy
  imports SocketCorrect
begin

text \<open>
  Which servers a socket talks to. A server that was named by a parameter of the URL is contacted only when
  no token of the user can go there: tokens are switched off, or the token was given in the same URL. The
  invariant follows the endpoints from the call to the resolver and the handshake; it rests on the settings
  being unchanged, and the last section shows that the reservation which is to guarantee this can be lost.
\<close>

section \<open>The policy\<close>

text \<open>\<open>T\<close>: the addresses that may be contacted.\<close>

fun contact_ok :: "config \<Rightarrow> (address \<Rightarrow> bool) \<Rightarrow> sk_action \<Rightarrow> bool" where
  "contact_ok cfg T (Sk_resolve i a) \<longleftrightarrow> T a"
| "contact_ok cfg T (Sk_handshake i ty a c id_name secret) \<longleftrightarrow> T a \<and> c = cfg"
| "contact_ok cfg T _ \<longleftrightarrow> True"

fun job_trusted :: "(address \<Rightarrow> bool) \<Rightarrow> sk_connect_op list \<Rightarrow> sk_pending \<Rightarrow> bool" where
  "job_trusted T cs (Sp_job (Sj_connect ty ep i)) \<longleftrightarrow> i < length cs \<and> (sc_reserved (cs ! i) \<longrightarrow> T (ep_server_address ep))"
| "job_trusted T cs _ \<longleftrightarrow> True"

definition sk_trust :: "config \<Rightarrow> (address \<Rightarrow> bool) \<Rightarrow> sock \<Rightarrow> bool" where
  "sk_trust cfg T s \<longleftrightarrow> sk_settings s = cfg \<and> list_all (job_trusted T (sk_connects s)) (sk_out s) \<and> list_all (contact_ok cfg T) (sk_log s)
     \<and> (\<forall>i. sk_connect_op s = Some i \<longrightarrow> i < length (sk_connects s)
         \<and> (ec_failed (sc_terminal_error (sk_connects s ! i)) \<or> T (ep_server_address (sk_endpoint s))))"

lemma job_trusted_update:
  assumes "list_all (job_trusted T cs) out" and "sc_reserved y \<longrightarrow> sc_reserved (cs ! i)"
  shows "list_all (job_trusted T (cs[i := y])) out"
proof -
  have "job_trusted T (cs[i := y]) x" if "job_trusted T cs x" for x
    using that assms(2) by (cases "(T, cs, x)" rule: job_trusted.cases) (auto simp: nth_update_if)
  with assms(1) show ?thesis by (auto simp: list_all_iff)
qed

text \<open>An update of an operation that keeps its terminal error, and one that reports a failure.\<close>

lemma trust_upd_connect:
  assumes "sk_trust cfg T s" and "\<And>x. sc_reserved (f x) \<Longrightarrow> sc_reserved x" and "\<And>x. ec_failed (sc_terminal_error x) \<Longrightarrow> ec_failed (sc_terminal_error (f x))"
  shows "sk_trust cfg T (sk_upd_connect i f s)"
  using assms job_trusted_update [of T "sk_connects s" "sk_out s" "f (sk_connects s ! i)" i]
  by (auto simp: sk_trust_def sk_upd_connect_def nth_update_if)

lemma trust_basic:
  assumes "sk_trust cfg T s"
  shows "contact_ok cfg T a \<Longrightarrow> sk_trust cfg T (sk_act a s)" "(\<And>cs. job_trusted T cs x) \<Longrightarrow> sk_trust cfg T (sk_start x s)"
    "sk_trust cfg T (s\<lparr>sk_state := st\<rparr>)" "sk_trust cfg T (s\<lparr>sk_is_state_non_null := nn\<rparr>)" "sk_trust cfg T (s\<lparr>sk_remote_endpoint := re\<rparr>)"
    "sk_trust cfg T (s\<lparr>sk_connect_op := None\<rparr>)" "sk_trust cfg T (s\<lparr>sk_fault := ft\<rparr>)"
  using assms by (auto simp: sk_trust_def sk_act_def sk_start_def)

lemma trust_complete:
  assumes "sk_trust cfg T s"
  shows "sk_trust cfg T (sk_complete_connect op ec s)"
proof (cases op)
  case (Some i)
  have "sk_trust cfg T (sk_act (Sk_connect_done i ec) (sk_upd_connect i (\<lambda>x. x\<lparr>sc_completed := True\<rparr>) s))"
    by (rule trust_basic(1) [OF trust_upd_connect [OF assms]]) simp_all
  with assms trust_basic(6) [OF this] Some show ?thesis by (simp add: sk_complete_connect_def Let_def)
qed (simp add: sk_complete_connect_def assms)

lemma trust_complete_none: "sk_connect_op s = Some i \<Longrightarrow> sk_connect_op (sk_complete_connect (Some i) ec s) = (if sc_completed (sk_connects s ! i) then Some i else None)"
  by (simp add: sk_complete_connect_def sk_act_def sk_upd_connect_def)

lemma trust_close:
  assumes "sk_trust cfg T s" and "\<And>i. sk_connect_op s = Some i \<Longrightarrow> \<not> sc_completed (sk_connects s ! i)"
  shows "sk_trust cfg T (sk_on_close ec s)"
proof -
  have forget: "sk_trust cfg T (t\<lparr>sk_endpoint := empty_endpoint\<rparr>)"
    if "sk_trust cfg T t" "\<And>i. sk_connect_op t = Some i \<Longrightarrow> ec_failed (sc_terminal_error (sk_connects t ! i))" for t
    using that by (auto simp: sk_trust_def)
  define e where "e = (if \<not> ec_failed ec \<and> sk_connect_op s \<noteq> None then asio_operation_aborted else ec)"
  have "sk_trust cfg T ((case sk_connect_op s of
          Some i \<Rightarrow> if sc_started (sk_connects s ! i) then sk_upd_connect i (\<lambda>x. x\<lparr>sc_terminal_error := e\<rparr>) s
            else sk_complete_connect (Some i) e (s\<lparr>sk_state := Sk_null\<rparr>)
        | None \<Rightarrow> s\<lparr>sk_state := Sk_null\<rparr>)\<lparr>sk_endpoint := empty_endpoint\<rparr>)" (is "sk_trust cfg T (?t\<lparr>sk_endpoint := empty_endpoint\<rparr>)")
  proof (rule forget)
    have e: "sk_connect_op s = Some i \<Longrightarrow> ec_failed e" for i by (simp add: e_def asio_operation_aborted_def)
    show "sk_trust cfg T ?t"
      using assms(1) e trust_complete [OF trust_basic(3) [OF assms(1)]] trust_basic(3) [OF assms(1)]
        trust_upd_connect [OF assms(1), of "\<lambda>x. x\<lparr>sc_terminal_error := e\<rparr>"]
      by (auto split: option.splits)
    show "ec_failed (sc_terminal_error (sk_connects ?t ! i))" if "sk_connect_op ?t = Some i" for i
      using that assms e trust_complete_none [of "s\<lparr>sk_state := Sk_null\<rparr>" _ e]
      by (auto simp: sk_trust_def sk_upd_connect_def split: option.splits if_splits)
  qed
  from trust_basic(1) [OF trust_basic(5) [OF trust_basic(4) [OF this]], of Sk_close] show ?thesis
    unfolding sk_on_close_def Let_def e_def [symmetric] by simp
qed

lemma trust_begin:
  assumes "sk_trust cfg T s" and "T (ep_server_address (sk_endpoint s))"
    and "\<And>i t. sk_trust cfg T t \<Longrightarrow> sk_endpoint t = sk_endpoint s \<Longrightarrow> sk_settings t = sk_settings s \<Longrightarrow> sk_trust cfg T (f i t)"
  shows "sk_trust cfg T (sk_begin f s)"
proof (cases "sk_connect_op s")
  case (Some i)
  have "sk_trust cfg T (sk_upd_connect i (\<lambda>x. x\<lparr>sc_started := True\<rparr>) s)" by (rule trust_upd_connect [OF assms(1)]) simp_all
  with Some assms(3) [OF this] show ?thesis by (simp add: sk_begin_def sk_upd_connect_def)
qed (simp add: sk_begin_def trust_basic(7) [OF assms(1)])

lemma trust_steps:
  assumes "sk_trust cfg T s" and "T (ep_server_address (sk_endpoint s))"
  shows "sk_trust cfg T (sk_do_resolve_host s)" and "sk_trust cfg T (sk_do_connect s)" and "sk_trust cfg T (sk_do_handshake s)"
    and "sk_trust cfg T (sk_on_started s)"
proof -
  have settings: "sk_settings s = cfg" using assms(1) by (simp add: sk_trust_def)
  show "sk_trust cfg T (sk_do_resolve_host s)" "sk_trust cfg T (sk_do_connect s)" "sk_trust cfg T (sk_do_handshake s)"
    unfolding sk_do_resolve_host_def sk_do_connect_def sk_do_handshake_def
    by (rule trust_begin [OF assms]; use assms(2) settings in \<open>auto intro!: trust_basic split: option.splits\<close>)+
  have "sk_trust cfg T (s\<lparr>sk_state := Sk_connected, sk_endpoint := (sk_endpoint s)\<lparr>ep_secret := None\<rparr>, sk_remote_endpoint := r\<rparr>)" for r
    using assms by (simp add: sk_trust_def)
  then show "sk_trust cfg T (sk_on_started s)" by (simp add: sk_on_started_def Let_def trust_complete)
qed

text \<open>Handlers of the strand; the current operation is not completed, as the invariant of the connects says.\<close>

abbreviation open_op :: "sock \<Rightarrow> bool" where
  "open_op s \<equiv> (\<forall>i. sk_connect_op s = Some i \<longrightarrow> \<not> sc_completed (sk_connects s ! i))"

lemma trust_on_step:
  assumes "sk_trust cfg T s" and "open_op s" and "\<And>t. sk_trust cfg T t \<Longrightarrow> T (ep_server_address (sk_endpoint t)) \<Longrightarrow> sk_trust cfg T (next t)"
  shows "sk_trust cfg T (sk_on_step i cause next s)"
proof -
  define t where "t = sk_upd_connect i (\<lambda>x. x\<lparr>sc_started := False\<rparr>) s"
  have t: "sk_trust cfg T t" unfolding t_def by (rule trust_upd_connect [OF assms(1)]) simp_all
  have "open_op t" using assms(2) by (simp add: t_def sk_upd_connect_def nth_update_if)
  then have "sk_trust cfg T (sk_on_close ec t)" for ec by (intro trust_close [OF t]) simp
  moreover have "T (ep_server_address (sk_endpoint t))" if "sk_connect_op t = Some i" "\<not> ec_failed (sc_terminal_error (sk_connects t ! i))"
    using t that by (simp add: sk_trust_def)
  ultimately show ?thesis using t assms(3) [OF t] trust_complete [OF t]
    by (simp add: sk_on_step_def t_def [symmetric] sk_on_error_def Let_def)
qed

lemma trust_release: "sk_trust cfg T s \<Longrightarrow> sk_trust cfg T (sk_release_connect_reservation i s)"
  unfolding sk_release_connect_reservation_def by (auto intro!: trust_upd_connect trust_basic(4))

lemma trust_transfers:
  assumes "sk_trust cfg T s"
  shows "sk_trust cfg T (sk_async_transfer x s)" "sk_trust cfg T (sk_slot_transfer i s)" "sk_trust cfg T (sk_async_transfer_internal x i s)"
    "sk_trust cfg T (sk_cancel_transfer i s)" "sk_trust cfg T (sk_on_transfer i ec n s)"
  using assms
  by (auto simp: sk_async_transfer_def sk_slot_transfer_def sk_async_transfer_internal_def sk_cancel_transfer_def sk_on_transfer_def
      sk_complete_transfer_def sk_upd_transfer_def sk_start_def sk_act_def sk_trust_def Let_def)

lemma trust_answer:
  assumes "sk_trust cfg T s" and "open_op s" and "job_trusted T (sk_connects s) x"
  shows "sk_trust cfg T (sk_answer r x s)"
proof (cases x)
  case (Sp_job j)
  show ?thesis
  proof (cases j)
    case (Sj_connect ty ep i)
    let ?t = "s\<lparr>sk_type := ty, sk_endpoint := ep, sk_connect_op := Some i, sk_state := Sk_connecting\<rparr>"
    have "sk_trust cfg T (sk_do_resolve_host ?t)" if "sc_reserved (sk_connects s ! i)"
      using assms(1,3) that Sp_job Sj_connect by (intro trust_steps(1)) (auto simp: sk_trust_def)
    with Sp_job Sj_connect trust_complete [OF assms(1)] trust_complete [OF trust_release [OF assms(1)]] show ?thesis
      by (simp add: sk_async_connect_internal_def Let_def)
  next
    case (Sj_cancel_connect i)
    with Sp_job assms(1) trust_complete [OF trust_release [OF assms(1)]] trust_close [OF assms(1)] assms(2) show ?thesis
      by (simp add: sk_cancel_connect_def)
  next
    case Sj_close
    with Sp_job assms(1,2) trust_close [OF assms(1)] show ?thesis by (simp add: sk_close_internal_def)
  qed (use Sp_job trust_transfers [OF assms(1)] in simp_all)
qed (use trust_on_step [OF assms(1,2)] trust_steps trust_transfers(5) [OF assms(1)] in
    \<open>simp_all add: sk_on_do_resolve_host_def sk_on_connect_def sk_on_handshake_def\<close>)

fun contact_event :: "config \<Rightarrow> (address \<Rightarrow> bool) \<Rightarrow> socket_event \<Rightarrow> bool" where
  "contact_event cfg T (Se_settings c) \<longleftrightarrow> False"
| "contact_event cfg T (Se_connect ty ep) \<longleftrightarrow> (trusted_endpoint cfg ep \<longrightarrow> T (ep_server_address ep))"
| "contact_event cfg T _ \<longleftrightarrow> True"

lemma trust_async_connect:
  assumes "sk_trust cfg T s" and "trusted_endpoint cfg ep \<longrightarrow> T (ep_server_address ep)"
  shows "sk_trust cfg T (sk_async_connect ty ep s)"
proof -
  have "job_trusted T (sk_connects s @ [op]) x" if "job_trusted T (sk_connects s) x" for op x
    using that by (cases "(T, sk_connects s, x)" rule: job_trusted.cases) (auto simp: nth_append)
  then have "list_all (job_trusted T (sk_connects s @ [op])) (sk_out s)" for op
    using assms(1) by (auto simp: sk_trust_def list_all_iff)
  moreover have "trusted_endpoint cfg ep" if "\<not> ec_failed (sk_initiation_error ep s)"
    using assms(1) that by (auto simp: sk_initiation_error_def trusted_endpoint_def sk_trust_def split: if_splits)
  ultimately show ?thesis using assms
    by (auto simp: sk_async_connect_def sk_start_def sk_trust_def nth_append Let_def)
qed

lemma trust_event:
  assumes "sk_trust cfg T s" and "sk_inv s" and "contact_event cfg T e"
  shows "sk_trust cfg T (sk_event e s)"
proof -
  have op: "open_op s" using assms(2) by (auto simp: sk_inv_def sk_connects_ok_def sk_current_def)
  show ?thesis
  proof (cases e)
    case (Se_reply k r)
    have "sk_trust cfg T (s\<lparr>sk_out := remove_at k (sk_out s)\<rparr>)"
      using assms(1) by (auto simp: sk_trust_def list_all_iff remove_at_def dest: in_set_takeD in_set_dropD)
    moreover have "job_trusted T (sk_connects s) (sk_out s ! k)" if "k < length (sk_out s)"
      using assms(1) that by (simp add: sk_trust_def list_all_length)
    ultimately show ?thesis using trust_answer [of cfg T "s\<lparr>sk_out := remove_at k (sk_out s)\<rparr>"] Se_reply assms(1) op by simp
  qed (use assms trust_async_connect [OF assms(1)] trust_transfers [OF assms(1)] in
      \<open>auto simp: sk_slot_connect_def sk_close_def intro!: trust_basic(2) trust_upd_connect\<close>)
qed


section \<open>Sample runs\<close>

definition w_server :: address where
  "w_server = \<lparr>a_str = None, a_host = ''engine'', a_port = ''443'', a_params = []\<rparr>"

definition w_named :: "bool \<Rightarrow> endpoint" where
  "w_named from_uri = \<lparr>ep_id_name = Some ''t'', ep_server_address = w_server, ep_server_address_from_uri_param = from_uri,
     ep_secret = Some ''s'', ep_source_ip = None\<rparr>"

definition w_socket_config :: config where
  "w_socket_config = \<lparr>cfg_max_buffer_size = 8, cfg_zero_rtt = False, cfg_no_token = False, cfg_token = None,
     cfg_token_from_uri_param = False, cfg_config_path = None\<rparr>"

definition w_yes :: sk_reply where
  "w_yes = \<lparr>sr_error_code = ec_ok, sr_results_empty = False, sr_transferred = 0\<rparr>"

lemmas sk_eval = sk_run_def sk_init_def w_named_def w_server_def w_socket_config_def w_yes_def sk_async_connect_def sk_initiation_error_def
  sk_start_def sk_act_def sk_upd_connect_def remove_at_def sk_async_connect_internal_def sk_do_resolve_host_def sk_begin_def sk_on_do_resolve_host_def
  sk_on_step_def sk_do_connect_def sk_on_connect_def sk_do_handshake_def sk_on_handshake_def sk_on_started_def sk_complete_connect_def sk_on_close_def
  sk_on_error_def sk_close_internal_def sk_close_def sk_set_settings_def asio_operation_aborted_def rstrm_ec_def empty_endpoint_def Let_def

definition w_socket_run :: "socket_event list" where
  "w_socket_run = [Se_connect Sk_client (w_named False), Se_reply 0 w_yes, Se_connect Sk_client (w_named True), Se_reply 0 w_yes,
     Se_reply 0 w_yes, Se_reply 0 w_yes, Se_reply 0 w_yes]"


text \<open>
  The settings are protected by \<open>m_is_state_non_null\<close>. It is cleared when a connection that is being closed
  has its last step answered, even when a new connect has reserved the socket in the meantime: the new
  connect then goes on with settings that were not those it was checked with. In the run below the second
  connect is allowed because tokens are switched off, and its handshake uses settings with tokens.
\<close>

definition w_race :: "socket_event list" where
  "w_race = [Se_connect Sk_client (w_named False), Se_reply 0 w_yes, Se_close, Se_reply 1 w_yes, Se_connect Sk_client (w_named True),
     Se_reply 0 w_yes, Se_settings w_socket_config, Se_reply 0 w_yes, Se_reply 0 w_yes, Se_reply 0 w_yes]"

lemma socket_reservation_lost:
  "Sk_handshake 1 Hs_stream_req w_server w_socket_config ''t'' (Some ''s'')
     \<in> set (sk_log (sk_run (w_socket_config\<lparr>cfg_no_token := True\<rparr>) w_race))
   \<and> \<not> trusted_endpoint w_socket_config (w_named True) \<and> trusted_endpoint (w_socket_config\<lparr>cfg_no_token := True\<rparr>) (w_named True)"
  by (simp add: w_race_def trusted_endpoint_def sk_eval)

end
