(* ===== verification/Acceptor.thy ===== *)
theory Acceptor
  imports Client
begin

text \<open>
  Model of \<open>lib/rstream/io-rstrm/acceptor.cpp\<close>: the acceptor keeps a control-channel client connected,
  keeps a tunnel open on it and hands the streams of the tunnel to accept operations, reconnecting and
  recreating the tunnel after failures. The client is reached through its calls: what has been asked of it
  and not been answered, the jobs of the strand and the waits of the timer are the list \<open>ac_out\<close>, and an
  interleaving is a sequence of calls and of answers to any entry. The client answers a request for a
  tunnel without an error only with a tunnel, as \<open>on_tunnel_response\<close> does. A callback of the user runs on
  the strand, where \<open>dispatch\<close> runs its argument at once: a reply says whether the callback closes the
  acceptor. A wait of the timer that has not been cancelled ends without an error.
\<close>

section \<open>Types\<close>

datatype acceptor_state = Ac_null | Ac_idle | Ac_connecting | Ac_connected

record accept_op =
  op_cancelled :: bool
  op_completed :: bool
  op_accepting :: bool
  op_reserved :: bool
  op_initiation_error :: error_code
  op_initial_endpoint :: endpoint

record status_extd =
  sd_status :: status
  sd_text :: "string option"
  sd_tunnel_id :: "string option"
  sd_forwarding :: "string option"

definition empty_status_extd :: status_extd where
  "empty_status_extd = \<lparr>sd_status = empty_status, sd_text = None, sd_tunnel_id = None, sd_forwarding = None\<rparr>"

record acceptor_callbacks =
  ab_on_status :: "nat option"
  ab_on_tunnel_properties :: "nat option"

definition no_acceptor_callbacks :: acceptor_callbacks where
  "no_acceptor_callbacks = \<lparr>ab_on_status = None, ab_on_tunnel_properties = None\<rparr>"

datatype acceptor_job =
    Aj_accept nat
  | Aj_cancel nat
  | Aj_close
  | Aj_disconnection error_code
  | Aj_status status

datatype ac_pending =
    Ap_job acceptor_job
  | Ap_connect
  | Ap_create
  | Ap_accept nat
  | Ap_timer nat

datatype ac_action =
    Aa_client_new config_client
  | Aa_client_callbacks
  | Aa_connect address
  | Aa_create tunnel_properties
  | Aa_accept nat tunnel
  | Aa_cancel_emit nat
  | Aa_client_close
  | Aa_timer nat
  | Aa_status nat status_extd
  | Aa_tunnel_properties nat tunnel_properties
  | Aa_done nat error_code

record acceptor =
  ac_settings :: settings_acceptor
  ac_state :: acceptor_state
  ac_closing :: bool
  ac_client :: bool
  ac_tunnel :: "tunnel option"
  ac_endpoint :: endpoint
  ac_accept_op :: "nat option"
  ac_is_state_non_null :: bool
  ac_start_pending :: bool
  ac_callbacks :: acceptor_callbacks
  ac_local_endpoint :: "endpoint option"
  ac_generated_stable_domain :: "string option"
  ac_server_status :: status
  ac_status :: status_extd
  ac_ops :: "accept_op list"
  ac_wait :: "nat option"
  ac_waits :: nat
  ac_out :: "ac_pending list"
  ac_fault :: bool
  ac_log :: "ac_action list"

text \<open>The texts of error codes and the test for an IP address are parameters.\<close>

record acceptor_params =
  ap_ec_message :: "error_code \<Rightarrow> string"
  ap_is_ip :: "string \<Rightarrow> bool"

record ac_reply =
  ar_error_code :: error_code
  ar_tunnel :: tunnel
  ar_callbacks_error :: error_code
  ar_random :: "byte list"
  ar_close_first :: bool
  ar_close_second :: bool

definition ac_init :: "settings_acceptor \<Rightarrow> acceptor" where
  "ac_init settings =
     \<lparr>ac_settings = settings, ac_state = Ac_null, ac_closing = False, ac_client = False, ac_tunnel = None,
      ac_endpoint = empty_endpoint, ac_accept_op = None, ac_is_state_non_null = False, ac_start_pending = False,
      ac_callbacks = no_acceptor_callbacks, ac_local_endpoint = None, ac_generated_stable_domain = None,
      ac_server_status = empty_status, ac_status = empty_status_extd, ac_ops = [], ac_wait = None, ac_waits = 0,
      ac_out = [], ac_fault = False, ac_log = []\<rparr>"

section \<open>Stable domains\<close>

text \<open>The second result is \<open>generated_stable_domain\<close> after the call.\<close>

definition maybe_set_generated_stable_domain ::
  "acceptor_params \<Rightarrow> byte list \<Rightarrow> tunnel_properties \<Rightarrow> address \<Rightarrow> string option \<Rightarrow> tunnel_properties \<times> string option" where
  "maybe_set_generated_stable_domain p rs q server_address generated =
     (if m_hostname q \<noteq> None \<or> m_host q \<noteq> None then (q, generated)
      else if m_publish q \<noteq> Some True then (q, generated)
      else if m_protocol q = Some ''tcp'' then (q, generated)
      else
        let g = (case generated of None \<Rightarrow> generate_stable_domain (ap_is_ip p) rs server_address | Some d \<Rightarrow> Some d)
        in (case g of None \<Rightarrow> q | Some d \<Rightarrow> q\<lparr>m_hostname := Some d\<rparr>, g))"

section \<open>Primitives\<close>

definition ac_act :: "ac_action \<Rightarrow> acceptor \<Rightarrow> acceptor" where
  "ac_act a s = s\<lparr>ac_log := ac_log s @ [a]\<rparr>"

definition ac_begin :: "ac_pending \<Rightarrow> acceptor \<Rightarrow> acceptor" where
  "ac_begin x s = s\<lparr>ac_out := ac_out s @ [x]\<rparr>"

definition ac_upd :: "nat \<Rightarrow> (accept_op \<Rightarrow> accept_op) \<Rightarrow> acceptor \<Rightarrow> acceptor" where
  "ac_upd i f s = s\<lparr>ac_ops := (ac_ops s)[i := f (ac_ops s ! i)]\<rparr>"

text \<open>A call through \<open>m_client\<close>; a null pointer there is undefined behaviour.\<close>

definition ac_call :: "ac_action \<Rightarrow> acceptor \<Rightarrow> acceptor" where
  "ac_call a s = (if ac_client s then ac_act a s else s\<lparr>ac_fault := True\<rparr>)"

text \<open>\<open>expires_after\<close> cancels the wait that is under way and \<open>async_wait\<close> starts the next one.\<close>

definition ac_start_timer :: "nat \<Rightarrow> acceptor \<Rightarrow> acceptor" where
  "ac_start_timer ms s =
     ac_begin (Ap_timer (ac_waits s)) (ac_act (Aa_timer ms) (s\<lparr>ac_wait := Some (ac_waits s), ac_waits := Suc (ac_waits s)\<rparr>))"

section \<open>Closing\<close>

definition ac_complete_accept :: "nat \<Rightarrow> error_code \<Rightarrow> acceptor \<Rightarrow> acceptor" where
  "ac_complete_accept i ec s =
     (if op_completed (ac_ops s ! i) then s
      else ac_act (Aa_done i ec) (ac_upd i (\<lambda>x. x\<lparr>op_completed := True\<rparr>) s))"

definition ac_on_close :: "error_code \<Rightarrow> acceptor \<Rightarrow> acceptor" where
  "ac_on_close ec s =
     (if ac_state s = Ac_null then s
      else
        let s1 = s\<lparr>ac_state := Ac_null, ac_closing := False, ac_tunnel := None, ac_status := empty_status_extd, ac_wait := None\<rparr>;
            s2 = (ac_call Aa_client_close s1)\<lparr>ac_client := False\<rparr>;
            s3 = s2\<lparr>ac_local_endpoint := None, ac_is_state_non_null := False, ac_start_pending := False,
                    ac_callbacks := no_acceptor_callbacks\<rparr>
        in case ac_accept_op s3 of
             None \<Rightarrow> s3
           | Some i \<Rightarrow> (ac_complete_accept i (if ec_failed ec then ec else rstrm_ec Operation_aborted) s3)\<lparr>ac_accept_op := None\<rparr>)"

definition ac_on_error :: "error_code \<Rightarrow> acceptor \<Rightarrow> acceptor" where
  "ac_on_error ec s = (if \<not> ec_failed ec then s else ac_on_close ec s)"

definition ac_close_internal :: "acceptor \<Rightarrow> acceptor" where
  "ac_close_internal s =
     (if ac_state s = Ac_null then s\<lparr>ac_closing := False\<rparr>
      else if ac_state s = Ac_idle then ac_on_close ec_ok s
      else ac_call Aa_client_close s)"

text \<open>A callback of the user, which may call \<open>close\<close> on the strand.\<close>

definition ac_reenter :: "bool \<Rightarrow> acceptor \<Rightarrow> acceptor" where
  "ac_reenter closes s = (if closes \<and> \<not> ac_closing s then ac_close_internal (s\<lparr>ac_closing := True\<rparr>) else s)"

definition ac_notify_status :: "bool \<Rightarrow> acceptor \<Rightarrow> acceptor" where
  "ac_notify_status closes s =
     (case ab_on_status (ac_callbacks s) of None \<Rightarrow> s | Some k \<Rightarrow> ac_reenter closes (ac_act (Aa_status k (ac_status s)) s))"

section \<open>Connecting\<close>

definition ac_do_connect :: "ac_reply \<Rightarrow> acceptor \<Rightarrow> acceptor" where
  "ac_do_connect r s =
     (if ac_state s \<noteq> Ac_idle then s
      else
        let s1 = ac_call Aa_client_callbacks (s\<lparr>ac_state := Ac_connecting\<rparr>)
        in if ec_failed (ar_callbacks_error r) then ac_on_error (ar_callbacks_error r) s1
           else ac_begin Ap_connect (ac_call (Aa_connect (ep_server_address (ac_endpoint s1))) s1))"

definition ac_do_reconnect :: "acceptor \<Rightarrow> acceptor" where
  "ac_do_reconnect s =
     (if ac_state s \<noteq> Ac_idle then s else ac_start_timer (sa_reconnect_timeout_ms (ac_settings s)) s)"

section \<open>Tunnels\<close>

definition ac_do_create_tunnel :: "acceptor_params \<Rightarrow> ac_reply \<Rightarrow> acceptor \<Rightarrow> acceptor" where
  "ac_do_create_tunnel p r s =
     (if ac_state s \<noteq> Ac_connected then s
      else if ac_closing s then s
      else
        let q = sa_tunnel_properties (ac_settings s);
            q1 = (if ep_id_name (ac_endpoint s) \<noteq> None then q\<lparr>m_name := ep_id_name (ac_endpoint s)\<rparr> else q)
        in case maybe_set_generated_stable_domain p (ar_random r) q1 (ep_server_address (ac_endpoint s)) (ac_generated_stable_domain s) of
             (q2, g) \<Rightarrow> ac_begin Ap_create (ac_call (Aa_create q2) (s\<lparr>ac_generated_stable_domain := g\<rparr>)))"

definition ac_do_recreate_tunnel :: "acceptor \<Rightarrow> acceptor" where
  "ac_do_recreate_tunnel s =
     (if ac_state s \<noteq> Ac_connected \<or> ac_closing s then s
      else ac_start_timer (sa_recreate_tunnel_timeout_ms (ac_settings s)) s)"

definition ac_text :: "string \<Rightarrow> acceptor \<Rightarrow> status_extd" where
  "ac_text t s = \<lparr>sd_status = ac_server_status s, sd_text = Some t, sd_tunnel_id = None, sd_forwarding = None\<rparr>"

definition ac_failed_text :: "acceptor_params \<Rightarrow> string \<Rightarrow> error_code \<Rightarrow> string" where
  "ac_failed_text p what ec = what @ '' ('' @ map to_lower (ap_ec_message p ec) @ '')''"

definition ac_on_connect :: "acceptor_params \<Rightarrow> ac_reply \<Rightarrow> error_code \<Rightarrow> acceptor \<Rightarrow> acceptor" where
  "ac_on_connect p r ec s =
     (if ac_state s \<noteq> Ac_connecting then s
      else if ac_closing s then ac_on_close ec_ok s
      else if ec_failed ec then
        (if sa_auto_reconnect (ac_settings s) then
           ac_do_reconnect (ac_notify_status (ar_close_first r)
             (s\<lparr>ac_state := Ac_idle, ac_status := ac_text (ac_failed_text p ''connection failed'' ec) s\<rparr>))
         else ac_on_error ec s)
      else
        ac_do_create_tunnel p r (ac_notify_status (ar_close_first r)
          (s\<lparr>ac_state := Ac_connected, ac_status := ac_text ''connected'' s\<rparr>)))"

text \<open>\<open>m_tunnel.async_accept\<close> on a null tunnel is undefined behaviour.\<close>

definition ac_do_accept :: "acceptor \<Rightarrow> acceptor" where
  "ac_do_accept s =
     (case ac_accept_op s of
        None \<Rightarrow> s
      | Some i \<Rightarrow>
          if ac_state s \<noteq> Ac_connected \<or> ac_closing s \<or> op_completed (ac_ops s ! i) \<or> op_accepting (ac_ops s ! i) then s
          else case ac_tunnel s of
                 None \<Rightarrow> s\<lparr>ac_fault := True\<rparr>
               | Some t \<Rightarrow> ac_begin (Ap_accept i) (ac_act (Aa_accept i t) (ac_upd i (\<lambda>x. x\<lparr>op_accepting := True\<rparr>) s)))"

definition ac_online :: "acceptor_params \<Rightarrow> ac_reply \<Rightarrow> tunnel_properties \<Rightarrow> acceptor \<Rightarrow> acceptor" where
  "ac_online p r q s =
     (if ac_state s \<noteq> Ac_connected \<or> ac_closing s then s
      else
        let s1 = s\<lparr>ac_status := \<lparr>sd_status = ac_server_status s, sd_text = Some ''online'', sd_tunnel_id = m_id q,
                     sd_forwarding = (case format_forwarding_address q of Inl _ \<Rightarrow> None | Inr f \<Rightarrow> Some f)\<rparr>\<rparr>;
            s2 = ac_notify_status (ar_close_second r) s1
        in if ac_state s2 \<noteq> Ac_connected \<or> ac_closing s2 then s2
           else if ac_accept_op s2 \<noteq> None then ac_do_accept s2 else s2)"

definition ac_on_create_tunnel :: "acceptor_params \<Rightarrow> ac_reply \<Rightarrow> error_code \<Rightarrow> tunnel \<Rightarrow> acceptor \<Rightarrow> acceptor" where
  "ac_on_create_tunnel p r ec t s =
     (if ac_state s \<noteq> Ac_connected then s
      else if ec_failed ec then
        let s1 = ac_notify_status (ar_close_first r) (s\<lparr>ac_status := ac_text (ac_failed_text p ''tunnel creation failed'' ec) s\<rparr>)
        in if ac_state s1 \<noteq> Ac_connected \<or> ac_closing s1 then s1
           else if sa_auto_recreate_tunnel (ac_settings s1) then ac_do_recreate_tunnel s1
           else ac_on_error ec s1
      else
        let q = tu_properties t;
            s1 = s\<lparr>ac_tunnel := Some t\<rparr>;
            s2 = (if m_id q = None then s1
                  else case ab_on_tunnel_properties (ac_callbacks s1) of
                         None \<Rightarrow> s1
                       | Some k \<Rightarrow> ac_reenter (ar_close_first r) (ac_act (Aa_tunnel_properties k q) s1))
        in ac_online p r q s2)"

definition ac_on_accept :: "ac_reply \<Rightarrow> nat \<Rightarrow> error_code \<Rightarrow> acceptor \<Rightarrow> acceptor" where
  "ac_on_accept r i ec s =
     (let s1 = ac_upd i (\<lambda>x. x\<lparr>op_accepting := False\<rparr>) s;
          leave = (\<lambda>t. if ac_accept_op t = Some i then t\<lparr>ac_accept_op := None\<rparr> else t)
      in if op_cancelled (ac_ops s1 ! i) then ac_complete_accept i asio_operation_aborted (leave s1)
         else if ac_state s1 \<noteq> Ac_connected then s1
         else if ac_closing s1 then s1
         else if ec_failed ec then
           let s2 = s1\<lparr>ac_tunnel := None\<rparr>
           in if sa_auto_recreate_tunnel (ac_settings s2)
              then ac_do_recreate_tunnel (ac_notify_status (ar_close_first r) (s2\<lparr>ac_status := ac_text ''connected'' s2\<rparr>))
              else ac_on_error ec s2
         else ac_complete_accept i ec (leave s1))"

definition ac_on_timer_cb :: "acceptor_params \<Rightarrow> ac_reply \<Rightarrow> error_code \<Rightarrow> acceptor \<Rightarrow> acceptor" where
  "ac_on_timer_cb p r ec s =
     (if ec_failed ec \<or> ac_closing s then s
      else if ac_state s = Ac_idle then ac_do_connect r s
      else if ac_state s = Ac_connected then ac_do_create_tunnel p r s
      else s)"

definition ac_on_client_disconnection :: "acceptor_params \<Rightarrow> ac_reply \<Rightarrow> error_code \<Rightarrow> acceptor \<Rightarrow> acceptor" where
  "ac_on_client_disconnection p r ec s =
     (if ac_state s \<noteq> Ac_connected then s
      else if ac_closing s \<or> \<not> ec_failed ec then ac_on_close ec s
      else if sa_auto_reconnect (ac_settings s) then
        ac_do_reconnect (ac_notify_status (ar_close_first r)
          (s\<lparr>ac_state := Ac_idle, ac_wait := None, ac_tunnel := None,
             ac_status := ac_text (ac_failed_text p ''disconnected'' ec) s\<rparr>))
      else ac_on_error ec s)"

definition overlay_status :: "status \<Rightarrow> status \<Rightarrow> status" where
  "overlay_status new old =
     \<lparr>ss_update = opt_set (ss_update new) (ss_update old), ss_plan = opt_set (ss_plan new) (ss_plan old),
      ss_provider = opt_set (ss_provider new) (ss_provider old), ss_region = opt_set (ss_region new) (ss_region old)\<rparr>"

definition ac_on_client_status :: "ac_reply \<Rightarrow> status \<Rightarrow> acceptor \<Rightarrow> acceptor" where
  "ac_on_client_status r st s =
     (let s1 = s\<lparr>ac_server_status := overlay_status st (ac_server_status s)\<rparr>
      in if ac_state s1 \<noteq> Ac_connected then s1
         else ac_notify_status (ar_close_first r) (s1\<lparr>ac_status := (ac_status s1)\<lparr>sd_status := ac_server_status s1\<rparr>\<rparr>))"

section \<open>Accepting\<close>

definition ac_release_accept_reservation :: "nat \<Rightarrow> acceptor \<Rightarrow> acceptor" where
  "ac_release_accept_reservation i s =
     (if \<not> op_reserved (ac_ops s ! i) \<or> ac_state s \<noteq> Ac_null then s
      else if ac_start_pending s
      then ac_upd i (\<lambda>x. x\<lparr>op_reserved := False\<rparr>) (s\<lparr>ac_start_pending := False, ac_is_state_non_null := False\<rparr>)
      else s)"

definition ac_async_accept_internal :: "ac_reply \<Rightarrow> nat \<Rightarrow> acceptor \<Rightarrow> acceptor" where
  "ac_async_accept_internal r i s =
     (let op = ac_ops s ! i in
      if op_cancelled op then ac_complete_accept i asio_operation_aborted (ac_release_accept_reservation i s)
      else if ec_failed (op_initiation_error op) then ac_complete_accept i (op_initiation_error op) s
      else if ac_accept_op s \<noteq> None then ac_complete_accept i (rstrm_ec Operation_in_progress) s
      else if ac_state s = Ac_null \<and> \<not> op_reserved op then ac_complete_accept i (rstrm_ec Invalid_state) s
      else
        let s1 = (if ac_state s = Ac_null
                  then s\<lparr>ac_start_pending := False, ac_endpoint := op_initial_endpoint op, ac_state := Ac_idle\<rparr> else s);
            s2 = (if \<not> ac_client s1 then ac_act (Aa_client_new (sa_config (ac_settings s1))) (s1\<lparr>ac_client := True\<rparr>) else s1);
            s3 = s2\<lparr>ac_accept_op := Some i\<rparr>
        in if ac_state s3 = Ac_idle then ac_do_connect r s3
           else if ac_tunnel s3 \<noteq> None then ac_do_accept s3
           else s3)"

definition ac_cancel_accept :: "nat \<Rightarrow> acceptor \<Rightarrow> acceptor" where
  "ac_cancel_accept i s =
     (if \<not> i < length (ac_ops s) \<or> \<not> op_cancelled (ac_ops s ! i) \<or> op_completed (ac_ops s ! i) then s
      else if ac_accept_op s \<noteq> Some i then ac_complete_accept i asio_operation_aborted (ac_release_accept_reservation i s)
      else if op_accepting (ac_ops s ! i) then ac_act (Aa_cancel_emit i) s
      else ac_complete_accept i asio_operation_aborted (s\<lparr>ac_accept_op := None\<rparr>))"

section \<open>Calls from outside\<close>

definition ac_set_control_callbacks :: "acceptor_callbacks \<Rightarrow> acceptor \<Rightarrow> error_code \<times> acceptor" where
  "ac_set_control_callbacks cbs s =
     (if ac_is_state_non_null s then (rstrm_ec Invalid_state, s) else (ec_ok, s\<lparr>ac_callbacks := cbs\<rparr>))"

definition ac_set_settings :: "settings_acceptor \<Rightarrow> acceptor \<Rightarrow> error_code \<times> acceptor" where
  "ac_set_settings st s =
     (if ac_is_state_non_null s then (rstrm_ec Invalid_state, s) else (ec_ok, s\<lparr>ac_settings := st\<rparr>))"

definition ac_bind :: "endpoint \<Rightarrow> acceptor \<Rightarrow> error_code \<times> acceptor" where
  "ac_bind ep s =
     (if ac_is_state_non_null s then (rstrm_ec Invalid_state, s) else (ec_ok, s\<lparr>ac_local_endpoint := Some ep\<rparr>))"

definition ac_get_local_endpoint :: "acceptor \<Rightarrow> error_code \<times> endpoint" where
  "ac_get_local_endpoint s =
     (case ac_local_endpoint s of Some e \<Rightarrow> (ec_ok, e) | None \<Rightarrow> (rstrm_ec Invalid_state, empty_endpoint))"

definition ac_close :: "acceptor \<Rightarrow> acceptor" where
  "ac_close s = (if ac_closing s then s else ac_begin (Ap_job Aj_close) (s\<lparr>ac_closing := True\<rparr>))"

text \<open>The new operation and whether it reserves the acceptor.\<close>

definition ac_new_op :: "acceptor \<Rightarrow> accept_op" where
  "ac_new_op s =
     (let op = \<lparr>op_cancelled = False, op_completed = False, op_accepting = False, op_reserved = False,
                op_initiation_error = ec_ok, op_initial_endpoint = empty_endpoint\<rparr>
      in if ac_start_pending s then op\<lparr>op_initiation_error := rstrm_ec Operation_in_progress\<rparr>
         else if ac_is_state_non_null s then op
         else case ac_local_endpoint s of
                None \<Rightarrow> op\<lparr>op_initiation_error := rstrm_ec No_valid_endpoint\<rparr>
              | Some ep \<Rightarrow>
                  let op1 = op\<lparr>op_initial_endpoint := ep\<rparr>; cfg = sa_config (ac_settings s)
                  in if ep_server_address_from_uri_param ep \<and> \<not> cfg_no_token cfg \<and> \<not> cfg_token_from_uri_param cfg
                     then op1\<lparr>op_initiation_error := rstrm_ec Invalid_configuration\<rparr>
                     else op1\<lparr>op_reserved := True\<rparr>)"

definition ac_async_accept :: "acceptor \<Rightarrow> acceptor" where
  "ac_async_accept s =
     (let op = ac_new_op s;
          s1 = s\<lparr>ac_ops := ac_ops s @ [op]\<rparr>;
          s2 = (if op_reserved op then s1\<lparr>ac_is_state_non_null := True, ac_start_pending := True\<rparr> else s1)
      in ac_begin (Ap_job (Aj_accept (length (ac_ops s)))) s2)"

definition ac_slot_accept :: "nat \<Rightarrow> acceptor \<Rightarrow> acceptor" where
  "ac_slot_accept i s =
     (if i < length (ac_ops s) then ac_begin (Ap_job (Aj_cancel i)) (ac_upd i (\<lambda>x. x\<lparr>op_cancelled := True\<rparr>) s) else s)"

section \<open>Events\<close>

fun ac_job :: "acceptor_params \<Rightarrow> ac_reply \<Rightarrow> acceptor_job \<Rightarrow> acceptor \<Rightarrow> acceptor" where
  "ac_job p r (Aj_accept i) s = ac_async_accept_internal r i s"
| "ac_job p r (Aj_cancel i) s = ac_cancel_accept i s"
| "ac_job p r Aj_close s = ac_close_internal s"
| "ac_job p r (Aj_disconnection ec) s = ac_on_client_disconnection p r ec s"
| "ac_job p r (Aj_status st) s = ac_on_client_status r st s"

fun ac_answer :: "acceptor_params \<Rightarrow> ac_reply \<Rightarrow> ac_pending \<Rightarrow> acceptor \<Rightarrow> acceptor" where
  "ac_answer p r (Ap_job j) s = ac_job p r j s"
| "ac_answer p r Ap_connect s = ac_on_connect p r (ar_error_code r) s"
| "ac_answer p r Ap_create s = ac_on_create_tunnel p r (ar_error_code r) (ar_tunnel r) s"
| "ac_answer p r (Ap_accept i) s = ac_on_accept r i (ar_error_code r) s"
| "ac_answer p r (Ap_timer n) s =
     (if ac_wait s = Some n then ac_on_timer_cb p r ec_ok (s\<lparr>ac_wait := None\<rparr>) else ac_on_timer_cb p r (ar_error_code r) s)"

datatype acceptor_event =
    Ae_settings settings_acceptor
  | Ae_callbacks acceptor_callbacks
  | Ae_bind endpoint
  | Ae_accept
  | Ae_slot nat
  | Ae_close
  | Ae_disconnection error_code
  | Ae_status status
  | Ae_reply nat ac_reply

text \<open>The control callbacks of the client dispatch to the strand of the acceptor.\<close>

fun ac_event :: "acceptor_params \<Rightarrow> acceptor_event \<Rightarrow> acceptor \<Rightarrow> acceptor" where
  "ac_event p (Ae_settings st) s = snd (ac_set_settings st s)"
| "ac_event p (Ae_callbacks cbs) s = snd (ac_set_control_callbacks cbs s)"
| "ac_event p (Ae_bind ep) s = snd (ac_bind ep s)"
| "ac_event p Ae_accept s = ac_async_accept s"
| "ac_event p (Ae_slot i) s = ac_slot_accept i s"
| "ac_event p Ae_close s = ac_close s"
| "ac_event p (Ae_disconnection ec) s = ac_begin (Ap_job (Aj_disconnection ec)) s"
| "ac_event p (Ae_status st) s = ac_begin (Ap_job (Aj_status st)) s"
| "ac_event p (Ae_reply k r) s =
     (if k < length (ac_out s) then ac_answer p r (ac_out s ! k) (s\<lparr>ac_out := remove_at k (ac_out s)\<rparr>) else s)"

definition ac_run :: "acceptor_params \<Rightarrow> settings_acceptor \<Rightarrow> acceptor_event list \<Rightarrow> acceptor" where
  "ac_run p st es = fold (ac_event p) es (ac_init st)"

end
