(* ===== verification/AcceptorCorrect.thy ===== *)
theory AcceptorCorrect
  imports Acceptor
begin

text \<open>
  The acceptor keeps its promises. The first invariant follows the accept operations, the reservation
  \<open>m_start_pending\<close> and the endpoint; the second one says what the acceptor waits for in each state, so that
  an accept that is not answered is never forgotten. Every event keeps both, for every order of the answers
  and also when a callback of the user closes the acceptor.
\<close>

section \<open>What waits and what has been answered\<close>

fun ac_accept_job :: "ac_pending \<Rightarrow> nat list" where
  "ac_accept_job (Ap_job (Aj_accept i)) = [i]"
| "ac_accept_job _ = []"

fun ac_flight :: "ac_pending \<Rightarrow> nat list" where
  "ac_flight (Ap_accept i) = [i]"
| "ac_flight _ = []"

fun ac_conn :: "ac_pending \<Rightarrow> unit list" where
  "ac_conn Ap_connect = [()]"
| "ac_conn _ = []"

fun ac_done_id :: "ac_action \<Rightarrow> nat list" where
  "ac_done_id (Aa_done i ec) = [i]"
| "ac_done_id _ = []"

section \<open>Operations and the reservation\<close>

definition ac_holds :: "accept_op list \<Rightarrow> nat \<Rightarrow> bool" where
  "ac_holds os i \<longleftrightarrow> op_reserved (os ! i) \<and> \<not> op_completed (os ! i)"

text \<open>\<open>js\<close>: jobs that are being run.\<close>

definition ac_ops_inv :: "nat list \<Rightarrow> acceptor \<Rightarrow> bool" where
  "ac_ops_inv js s \<longleftrightarrow>
     ops_ok (map op_completed (ac_ops s)) (js @ over ac_accept_job (ac_out s)) (set_option (ac_accept_op s)) (over ac_done_id (ac_log s))
     \<and> (\<forall>i. ac_accept_op s = Some i \<longrightarrow> \<not> op_completed (ac_ops s ! i))
     \<and> (\<forall>i \<in> set (js @ over ac_accept_job (ac_out s)). op_completed (ac_ops s ! i) \<longrightarrow> op_cancelled (ac_ops s ! i))"

definition ac_held :: "nat list \<Rightarrow> acceptor \<Rightarrow> nat list" where
  "ac_held js s = filter (ac_holds (ac_ops s)) (js @ over ac_accept_job (ac_out s))"

definition ac_reserve_inv :: "nat list \<Rightarrow> acceptor \<Rightarrow> bool" where
  "ac_reserve_inv js s \<longleftrightarrow>
     length (ac_held js s) = (if ac_start_pending s then 1 else 0)
     \<and> (ac_start_pending s \<longrightarrow> ac_state s = Ac_null) \<and> (ac_is_state_non_null s \<longleftrightarrow> ac_state s \<noteq> Ac_null \<or> ac_start_pending s)
     \<and> (ac_client s \<longleftrightarrow> ac_state s \<noteq> Ac_null) \<and> (ac_state s = Ac_null \<longrightarrow> ac_accept_op s = None)
     \<and> (ac_state s \<noteq> Ac_null \<longrightarrow> trusted_endpoint (sa_config (ac_settings s)) (ac_endpoint s))
     \<and> (\<forall>i \<in> set (ac_held js s). trusted_endpoint (sa_config (ac_settings s)) (op_initial_endpoint (ac_ops s ! i)))
     \<and> (\<forall>i \<in> set (js @ over ac_accept_job (ac_out s)). op_completed (ac_ops s ! i) \<or> ec_failed (op_initiation_error (ac_ops s ! i))
         \<longrightarrow> \<not> op_reserved (ac_ops s ! i))"

definition ac_keep :: "nat list \<Rightarrow> acceptor \<Rightarrow> bool" where
  "ac_keep js s \<longleftrightarrow> ac_ops_inv js s \<and> ac_reserve_inv js s"

text \<open>Everything these invariants look at.\<close>

definition keep_view where
  "keep_view s = (ac_ops s, over ac_accept_job (ac_out s), ac_accept_op s, over ac_done_id (ac_log s), ac_start_pending s, ac_state s = Ac_null,
     ac_is_state_non_null s, ac_client s, ac_settings s, ac_endpoint s)"

lemma keep_frame: "keep_view s = keep_view t \<Longrightarrow> ac_keep js s = ac_keep js t"
  unfolding keep_view_def ac_keep_def ac_ops_inv_def ac_reserve_inv_def ac_held_def by simp

lemma keep_view_basic [simp]:
  "ac_done_id a = [] \<Longrightarrow> keep_view (ac_act a s) = keep_view s" "ac_accept_job x = [] \<Longrightarrow> keep_view (ac_begin x s) = keep_view s"
  "keep_view (s\<lparr>ac_closing := b\<rparr>) = keep_view s" "keep_view (s\<lparr>ac_tunnel := t\<rparr>) = keep_view s" "keep_view (s\<lparr>ac_status := st\<rparr>) = keep_view s"
  "keep_view (s\<lparr>ac_wait := w\<rparr>) = keep_view s" "keep_view (s\<lparr>ac_waits := n\<rparr>) = keep_view s" "keep_view (s\<lparr>ac_callbacks := cb\<rparr>) = keep_view s"
  "keep_view (s\<lparr>ac_local_endpoint := ep\<rparr>) = keep_view s" "keep_view (s\<lparr>ac_generated_stable_domain := g\<rparr>) = keep_view s"
  "keep_view (s\<lparr>ac_server_status := ss\<rparr>) = keep_view s" "keep_view (s\<lparr>ac_fault := f\<rparr>) = keep_view s"
  "ac_state s \<noteq> Ac_null \<Longrightarrow> st' \<noteq> Ac_null \<Longrightarrow> keep_view (s\<lparr>ac_state := st'\<rparr>) = keep_view s"
  by (simp_all add: keep_view_def ac_act_def ac_begin_def)

lemma keep_view_calls [simp]:
  "ac_done_id a = [] \<Longrightarrow> keep_view (ac_call a s) = keep_view s" "keep_view (ac_start_timer ms s) = keep_view s"
  "keep_view (ac_do_reconnect s) = keep_view s" "keep_view (ac_do_recreate_tunnel s) = keep_view s" "keep_view (ac_do_create_tunnel p r s) = keep_view s"
  by (simp_all add: ac_call_def ac_start_timer_def ac_do_reconnect_def ac_do_recreate_tunnel_def ac_do_create_tunnel_def Let_def split: prod.splits)

lemma keep_init: "ac_keep [] (ac_init st)"
  by (simp add: ac_keep_def ac_ops_inv_def ac_reserve_inv_def ac_held_def ac_init_def ops_ok_init)

abbreviation ac_set_accepted :: "nat \<Rightarrow> accept_op list \<Rightarrow> accept_op list" where
  "ac_set_accepted i os \<equiv> os[i := (os ! i)\<lparr>op_completed := True\<rparr>]"

lemma holds_completed: "ac_holds (ac_set_accepted i os) j \<longleftrightarrow> ac_holds os j \<and> \<not> (j = i \<and> i < length os)"
  by (auto simp: ac_holds_def nth_update_if)

text \<open>Completing an operation whose job runs.\<close>

lemma complete_job:
  assumes "ac_ops_inv [i] s"
  shows "ac_ops_inv [] (ac_complete_accept i ec s)"
proof -
  have i: "i < length (ac_ops s)" "ac_accept_op s \<noteq> Some i" "i \<notin> set (over ac_accept_job (ac_out s))"
    using assms by (auto simp: ac_ops_inv_def ops_ok_def)
  have "ops_ok (map op_completed (ac_set_accepted i (ac_ops s))) (over ac_accept_job (ac_out s)) (set_option (ac_accept_op s))
      (over ac_done_id (ac_log s) @ [i])" if "\<not> op_completed (ac_ops s ! i)"
    using ops_ok_complete_job [of "map op_completed (ac_ops s)" i] assms that i(1) by (simp add: ac_ops_inv_def map_update)
  with assms i ops_ok_done [of "map op_completed (ac_ops s)" i] show ?thesis
    by (auto simp: ac_complete_accept_def ac_ops_inv_def ac_act_def ac_upd_def nth_update_if)
qed

text \<open>Completing an operation that waits for its job and has been cancelled.\<close>

lemma complete_waiting:
  assumes "ac_ops_inv [] s" and "i < length (ac_ops s)" and "op_cancelled (ac_ops s ! i)" and "ac_accept_op s \<noteq> Some i"
  shows "ac_ops_inv [] (ac_complete_accept i ec s)"
proof -
  have "ops_ok (map op_completed (ac_set_accepted i (ac_ops s))) (over ac_accept_job (ac_out s)) (set_option (ac_accept_op s))
      (over ac_done_id (ac_log s) @ [i])" if "\<not> op_completed (ac_ops s ! i)"
    using ops_ok_complete [of "map op_completed (ac_ops s)" _ "set_option (ac_accept_op s)"] assms(1,2) that
    by (simp add: ac_ops_inv_def map_update)
  with assms show ?thesis
    by (auto simp: ac_complete_accept_def ac_ops_inv_def ac_act_def ac_upd_def nth_update_if)
qed

text \<open>Completing the current operation.\<close>

lemma complete_current:
  assumes "ac_ops_inv [] s" and "ac_accept_op s = Some i"
  shows "ac_ops_inv [] ((ac_complete_accept i ec s)\<lparr>ac_accept_op := None\<rparr>)" and "ac_ops_inv [] (ac_complete_accept i ec (s\<lparr>ac_accept_op := None\<rparr>))"
proof -
  have i: "i < length (ac_ops s)" "i \<notin> set (over ac_accept_job (ac_out s))"
    using ops_ok_parked [OF ac_ops_inv_def [THEN iffD1, OF assms(1), THEN conjunct1], of i] assms(2) by simp_all
  have "ops_ok (map op_completed (ac_set_accepted i (ac_ops s))) (over ac_accept_job (ac_out s)) {} (over ac_done_id (ac_log s) @ [i])"
    using ops_ok_complete [of "map op_completed (ac_ops s)" _ "set_option (ac_accept_op s)" _ i "{}"] assms i(1)
    by (auto simp: ac_ops_inv_def map_update)
  with assms i show "ac_ops_inv [] ((ac_complete_accept i ec s)\<lparr>ac_accept_op := None\<rparr>)" "ac_ops_inv [] (ac_complete_accept i ec (s\<lparr>ac_accept_op := None\<rparr>))"
    by (auto simp: ac_complete_accept_def ac_ops_inv_def ac_act_def ac_upd_def nth_update_if)
qed

text \<open>How a completion changes who holds the reservation.\<close>

lemma held_complete: "ac_held js (ac_complete_accept i ec s) = filter (\<lambda>j. \<not> (j = i \<and> i < length (ac_ops s))) (ac_held js s)"
proof (cases "op_completed (ac_ops s ! i)")
  case True
  then have "\<not> ac_holds (ac_ops s) i" by (simp add: ac_holds_def)
  with True show ?thesis unfolding ac_held_def filter_filter by (intro filter_cong) (auto simp: ac_complete_accept_def)
next
  case False
  then show ?thesis unfolding ac_held_def filter_filter
    by (intro filter_cong) (auto simp: ac_complete_accept_def ac_act_def ac_upd_def holds_completed)
qed

lemma complete_fields [simp]:
  "ac_state (ac_complete_accept i ec s) = ac_state s" "ac_start_pending (ac_complete_accept i ec s) = ac_start_pending s"
  "ac_is_state_non_null (ac_complete_accept i ec s) = ac_is_state_non_null s" "ac_client (ac_complete_accept i ec s) = ac_client s"
  "ac_accept_op (ac_complete_accept i ec s) = ac_accept_op s" "ac_settings (ac_complete_accept i ec s) = ac_settings s"
  "ac_endpoint (ac_complete_accept i ec s) = ac_endpoint s" "ac_out (ac_complete_accept i ec s) = ac_out s"
  "ac_closing (ac_complete_accept i ec s) = ac_closing s" "ac_tunnel (ac_complete_accept i ec s) = ac_tunnel s"
  "ac_wait (ac_complete_accept i ec s) = ac_wait s" "ac_fault (ac_complete_accept i ec s) = ac_fault s"
  "op_initial_endpoint (ac_ops (ac_complete_accept i ec s) ! j) = op_initial_endpoint (ac_ops s ! j)"
  "op_accepting (ac_ops (ac_complete_accept i ec s) ! j) = op_accepting (ac_ops s ! j)"
  "length (ac_ops (ac_complete_accept i ec s)) = length (ac_ops s)"
  by (simp_all add: ac_complete_accept_def ac_act_def ac_upd_def nth_update_if)

text \<open>The reservation of an operation whose job waits or runs is released before the operation is answered.\<close>

lemma holds_pending:
  assumes "ac_keep js s" and "i \<in> set (js @ over ac_accept_job (ac_out s))" and "op_reserved (ac_ops s ! i)"
  shows "ac_held js s = [i] \<and> ac_start_pending s \<and> ac_state s = Ac_null"
proof -
  have "ac_holds (ac_ops s) i" using assms by (auto simp: ac_keep_def ac_reserve_inv_def ac_holds_def)
  then have "i \<in> set (ac_held js s)" using assms(2) by (auto simp: ac_held_def)
  moreover have "length (ac_held js s) = (if ac_start_pending s then 1 else 0)" "ac_start_pending s \<longrightarrow> ac_state s = Ac_null"
    using assms(1) by (simp_all add: ac_keep_def ac_reserve_inv_def)
  ultimately show ?thesis by (cases "ac_held js s") (auto split: if_splits)
qed

lemma release_keep:
  assumes "ac_keep js s" and "i \<in> set (js @ over ac_accept_job (ac_out s))"
  shows "ac_keep js (ac_release_accept_reservation i s)" and "\<not> op_reserved (ac_ops (ac_release_accept_reservation i s) ! i)"
proof -
  have i: "i < length (ac_ops s)"
    using ops_ok_job [OF ac_ops_inv_def [THEN iffD1, OF ac_keep_def [THEN iffD1, OF assms(1), THEN conjunct1], THEN conjunct1] assms(2)] by simp
  show "\<not> op_reserved (ac_ops (ac_release_accept_reservation i s) ! i)"
    using holds_pending [OF assms] i by (auto simp: ac_release_accept_reservation_def ac_upd_def)
  show "ac_keep js (ac_release_accept_reservation i s)"
  proof (cases "op_reserved (ac_ops s ! i)")
    case True
    note h = holds_pending [OF assms True]
    define os where "os = (ac_ops s)[i := (ac_ops s ! i)\<lparr>op_reserved := False\<rparr>]"
    have eq: "ac_release_accept_reservation i s = s\<lparr>ac_ops := os, ac_start_pending := False, ac_is_state_non_null := False\<rparr>"
      using True h by (simp add: ac_release_accept_reservation_def ac_upd_def os_def)
    have fields: "map op_completed os = map op_completed (ac_ops s)" "op_completed (os ! j) = op_completed (ac_ops s ! j)"
        "op_cancelled (os ! j) = op_cancelled (ac_ops s ! j)" "op_initiation_error (os ! j) = op_initiation_error (ac_ops s ! j)"
        "op_reserved (os ! j) \<longleftrightarrow> op_reserved (ac_ops s ! j) \<and> j \<noteq> i" for j
      using i by (auto simp: os_def map_update_same nth_update_if)
    have "ac_held js (ac_release_accept_reservation i s) = filter (\<lambda>j. j \<noteq> i) (ac_held js s)"
      unfolding eq ac_held_def filter_filter by (intro filter_cong) (auto simp: ac_holds_def fields)
    then have held: "ac_held js (s\<lparr>ac_ops := os, ac_start_pending := False, ac_is_state_non_null := False\<rparr>) = []" using h eq by simp
    show ?thesis using assms(1) h unfolding eq ac_keep_def ac_ops_inv_def ac_reserve_inv_def held by (auto simp: fields)
  next
    case False
    with assms(1) show ?thesis by (simp add: ac_release_accept_reservation_def)
  qed
qed

lemma ac_release_fields [simp]:
  "length (ac_ops (ac_release_accept_reservation i s)) = length (ac_ops s)" "ac_out (ac_release_accept_reservation i s) = ac_out s"
  "ac_accept_op (ac_release_accept_reservation i s) = ac_accept_op s" "ac_state (ac_release_accept_reservation i s) = ac_state s"
  "ac_closing (ac_release_accept_reservation i s) = ac_closing s" "ac_tunnel (ac_release_accept_reservation i s) = ac_tunnel s"
  "ac_wait (ac_release_accept_reservation i s) = ac_wait s" "ac_fault (ac_release_accept_reservation i s) = ac_fault s"
  "op_accepting (ac_ops (ac_release_accept_reservation i s) ! j) = op_accepting (ac_ops s ! j)"
  "op_cancelled (ac_ops (ac_release_accept_reservation i s) ! j) = op_cancelled (ac_ops s ! j)"
  by (simp_all add: ac_release_accept_reservation_def ac_upd_def nth_update_if)

lemma ac_reserve_complete:
  assumes "ac_reserve_inv js s" and "i \<in> set (js @ over ac_accept_job (ac_out s)) \<Longrightarrow> \<not> op_reserved (ac_ops s ! i)"
    and "set js' \<subseteq> set js" and "filter (\<lambda>j. ac_holds (ac_ops s) j) js' = filter (\<lambda>j. ac_holds (ac_ops s) j) js"
  shows "ac_reserve_inv js' (ac_complete_accept i ec s)"
proof -
  have "ac_held js' s = ac_held js s" using assms(4) by (simp add: ac_held_def)
  moreover have "i \<notin> set (ac_held js s)" using assms(2) by (auto simp: ac_held_def ac_holds_def)
  ultimately have held: "ac_held js' (ac_complete_accept i ec s) = ac_held js s"
    unfolding held_complete by (metis (mono_tags, lifting) filter_True)
  have fields: "op_completed (ac_ops (ac_complete_accept i ec s) ! j) \<longrightarrow> j = i \<or> op_completed (ac_ops s ! j)"
      "op_reserved (ac_ops (ac_complete_accept i ec s) ! j) = op_reserved (ac_ops s ! j)"
      "op_initiation_error (ac_ops (ac_complete_accept i ec s) ! j) = op_initiation_error (ac_ops s ! j)" for j
    by (auto simp: ac_complete_accept_def ac_act_def ac_upd_def nth_update_if split: if_splits)
  have "op_completed (ac_ops (ac_complete_accept i ec s) ! j) \<or> ec_failed (op_initiation_error (ac_ops s ! j)) \<longrightarrow> \<not> op_reserved (ac_ops s ! j)"
    if "j \<in> set (js' @ over ac_accept_job (ac_out s))" for j
    using assms(1,2,3) that fields(1) [of j] by (auto simp: ac_reserve_inv_def)
  then show ?thesis using assms(1) unfolding ac_reserve_inv_def held by (simp add: fields(2,3))
qed

lemma keep_complete_job:
  assumes "ac_keep [i] s" and "\<not> op_reserved (ac_ops s ! i)"
  shows "ac_keep [] (ac_complete_accept i ec s)"
  using complete_job [of i s] ac_reserve_complete [of "[i]" s i "[]"] assms by (auto simp: ac_keep_def ac_ops_inv_def ops_ok_def ac_holds_def)

lemma keep_complete_current:
  assumes "ac_keep [] s" and "ac_accept_op s = Some i"
  shows "ac_keep [] ((ac_complete_accept i ec s)\<lparr>ac_accept_op := None\<rparr>)" and "ac_keep [] (ac_complete_accept i ec (s\<lparr>ac_accept_op := None\<rparr>))"
proof -
  have "i \<notin> set (over ac_accept_job (ac_out s))"
    using assms ops_ok_parked [of "map op_completed (ac_ops s)"] by (fastforce simp: ac_keep_def ac_ops_inv_def)
  then have "ac_reserve_inv [] (ac_complete_accept i ec s)" using ac_reserve_complete [of "[]" s i "[]" ec] assms(1) by (simp add: ac_keep_def)
  then have "ac_reserve_inv [] ((ac_complete_accept i ec s)\<lparr>ac_accept_op := None\<rparr>)" by (simp add: ac_reserve_inv_def ac_held_def)
  moreover have "ac_complete_accept i ec (s\<lparr>ac_accept_op := None\<rparr>) = (ac_complete_accept i ec s)\<lparr>ac_accept_op := None\<rparr>"
    by (simp add: ac_complete_accept_def ac_act_def ac_upd_def)
  ultimately show "ac_keep [] ((ac_complete_accept i ec s)\<lparr>ac_accept_op := None\<rparr>)" "ac_keep [] (ac_complete_accept i ec (s\<lparr>ac_accept_op := None\<rparr>))"
    using complete_current [of s i] assms by (simp_all add: ac_keep_def)
qed

lemma keep_null:
  assumes "ac_keep [] u" and "ac_accept_op u = None" and "ac_state u \<noteq> Ac_null"
    and "keep_view v = (ac_ops u, over ac_accept_job (ac_out u), None, over ac_done_id (ac_log u), False, True, False, False, ac_settings u, e)"
  shows "ac_keep [] v"
proof -
  have none: "ac_held [] u = []" using assms(1,3) by (auto simp: ac_keep_def ac_reserve_inv_def split: if_splits)
  moreover have "ac_held [] v = ac_held [] u" using assms(4) by (simp add: ac_held_def keep_view_def)
  ultimately show ?thesis using assms by (simp add: ac_keep_def ac_ops_inv_def ac_reserve_inv_def keep_view_def)
qed

lemma keep_on_close:
  assumes "ac_keep [] s"
  shows "ac_keep [] (ac_on_close ec s)"
proof (cases "ac_state s = Ac_null")
  case True
  with assms show ?thesis by (simp add: ac_on_close_def)
next
  case False
  then have client: "ac_client s" using assms by (simp add: ac_keep_def ac_reserve_inv_def)
  show ?thesis
  proof (cases "ac_accept_op s")
    case None
    with False client show ?thesis
      by (intro keep_null [OF assms None False]) (simp add: ac_on_close_def ac_call_def ac_act_def keep_view_def Let_def)
  next
    case (Some i)
    define e where "e = (if ec_failed ec then ec else rstrm_ec Operation_aborted)"
    show ?thesis
      by (rule keep_null [OF keep_complete_current(1) [OF assms Some, of e]])
        (use False client Some in \<open>simp_all add: ac_on_close_def ac_call_def ac_act_def keep_view_def ac_complete_accept_def ac_upd_def e_def [symmetric] Let_def\<close>)
  qed
qed

lemma keep_simple:
  assumes "ac_keep [] s"
  shows "ac_keep [] (ac_on_error ec s)" "ac_keep [] (ac_close_internal s)" "ac_keep [] (ac_reenter b s)" "ac_keep [] (ac_notify_status b s)"
proof -
  have frame: "keep_view t = keep_view s \<Longrightarrow> ac_keep [] t" for t using keep_frame assms by blast
  show "ac_keep [] (ac_on_error ec s)" using keep_on_close [OF assms] assms by (simp add: ac_on_error_def)
  have close: "ac_keep [] (ac_close_internal t)" if "ac_keep [] t" for t
  proof -
    have "ac_keep [] u" if "keep_view u = keep_view t" for u using keep_frame \<open>ac_keep [] t\<close> that by blast
    then show ?thesis using keep_on_close [OF that] by (simp add: ac_close_internal_def)
  qed
  then show "ac_keep [] (ac_close_internal s)" using assms .
  have reenter: "ac_keep [] (ac_reenter b t)" if "ac_keep [] t" for b t
  proof -
    have "ac_keep [] (t\<lparr>ac_closing := True\<rparr>)" using keep_frame [of "t\<lparr>ac_closing := True\<rparr>" t] that by simp
    from close [OF this] that show ?thesis by (simp add: ac_reenter_def)
  qed
  then show "ac_keep [] (ac_reenter b s)" using assms .
  show "ac_keep [] (ac_notify_status b s)" using assms reenter [OF frame] by (simp add: ac_notify_status_def split: option.splits)
qed

lemma keep_accepting: "ac_keep js (ac_upd i (\<lambda>x. x\<lparr>op_accepting := b\<rparr>) s) = ac_keep js s"
proof -
  define os where "os = (ac_ops s)[i := (ac_ops s ! i)\<lparr>op_accepting := b\<rparr>]"
  have fields: "map op_completed os = map op_completed (ac_ops s)" "op_completed (os ! j) = op_completed (ac_ops s ! j)"
      "op_cancelled (os ! j) = op_cancelled (ac_ops s ! j)" "op_initiation_error (os ! j) = op_initiation_error (ac_ops s ! j)"
      "op_reserved (os ! j) = op_reserved (ac_ops s ! j)" "op_initial_endpoint (os ! j) = op_initial_endpoint (ac_ops s ! j)" for j
    by (auto simp: os_def map_update_same nth_update_if)
  have "ac_holds os = ac_holds (ac_ops s)" by (simp add: ac_holds_def fields fun_eq_iff)
  then show ?thesis by (simp add: ac_upd_def os_def [symmetric] ac_keep_def ac_ops_inv_def ac_reserve_inv_def ac_held_def fields)
qed

lemma keep_do_connect: "ac_keep [] s \<Longrightarrow> ac_keep [] (ac_do_connect r s)"
proof (cases "ac_state s = Ac_idle")
  case True
  assume k: "ac_keep [] s"
  let ?t = "ac_call Aa_client_callbacks (s\<lparr>ac_state := Ac_connecting\<rparr>)"
  have view: "keep_view ?t = keep_view s" using True by simp
  then have "ac_keep [] ?t" using k keep_frame by blast
  moreover from this have "ac_keep [] (ac_begin Ap_connect (ac_call (Aa_connect a) ?t))" for a
    using keep_frame [of "ac_begin Ap_connect (ac_call (Aa_connect a) ?t)" ?t] by simp
  ultimately show ?thesis using True keep_simple(1) by (simp add: ac_do_connect_def Let_def)
qed (simp add: ac_do_connect_def)

lemma keep_do_accept: "ac_keep [] s \<Longrightarrow> ac_keep [] (ac_do_accept s)"
proof -
  assume k: "ac_keep [] s"
  have "ac_keep [] (ac_begin (Ap_accept i) (ac_act (Aa_accept i t) (ac_upd i (\<lambda>x. x\<lparr>op_accepting := True\<rparr>) s)))" for i t
    using k keep_accepting [of "[]" i True s] keep_frame [of "ac_begin (Ap_accept i) (ac_act (Aa_accept i t) (ac_upd i (\<lambda>x. x\<lparr>op_accepting := True\<rparr>) s))"
      "ac_upd i (\<lambda>x. x\<lparr>op_accepting := True\<rparr>) s"] by simp
  moreover have "ac_keep [] (s\<lparr>ac_fault := True\<rparr>)" using k keep_frame [of "s\<lparr>ac_fault := True\<rparr>" s] by simp
  ultimately show ?thesis using k by (simp add: ac_do_accept_def split: option.splits)
qed

lemma keep_then:
  assumes "ac_keep [] s" and "keep_view t = keep_view s"
  shows "ac_keep [] t"
  using assms keep_frame by blast

lemma keep_after_notify:
  assumes "ac_keep [] s" and "keep_view t = keep_view s"
  shows "ac_keep [] (ac_do_reconnect (ac_notify_status b t))" "ac_keep [] (ac_do_create_tunnel p r (ac_notify_status b t))"
    "ac_keep [] (ac_do_recreate_tunnel (ac_notify_status b t))" "ac_keep [] (ac_notify_status b t)"
    "ac_keep [] (ac_on_error ec (ac_notify_status b t))" "ac_keep [] (ac_do_accept (ac_notify_status b t))"
proof -
  show k: "ac_keep [] (ac_notify_status b t)" by (rule keep_simple(4) [OF keep_then [OF assms]])
  show "ac_keep [] (ac_do_reconnect (ac_notify_status b t))" "ac_keep [] (ac_do_create_tunnel p r (ac_notify_status b t))"
    "ac_keep [] (ac_do_recreate_tunnel (ac_notify_status b t))" by (rule keep_then [OF k], simp)+
  show "ac_keep [] (ac_on_error ec (ac_notify_status b t))" "ac_keep [] (ac_do_accept (ac_notify_status b t))"
    by (rule keep_simple(1) [OF k], rule keep_do_accept [OF k])
qed

lemma keep_client_answers:
  assumes "ac_keep [] s"
  shows "ac_keep [] (ac_on_connect p r ec s)" "ac_keep [] (ac_on_client_disconnection p r ec s)" "ac_keep [] (ac_on_client_status r st s)"
    "ac_keep [] (ac_on_timer_cb p r ec s)" "ac_keep [] (ac_online p r q s)"
proof -
  have view: "ac_state s \<noteq> Ac_null \<Longrightarrow> keep_view (s\<lparr>ac_state := x, ac_status := y\<rparr>) = keep_view s" if "x \<noteq> Ac_null" for x y
    using that by (simp add: keep_view_def)
  show "ac_keep [] (ac_on_connect p r ec s)"
    using keep_after_notify(1,2) [OF assms view] keep_on_close [OF assms] keep_simple(1) [OF assms] assms by (simp add: ac_on_connect_def)
  have "keep_view (s\<lparr>ac_state := Ac_idle, ac_wait := None, ac_tunnel := None, ac_status := y\<rparr>) = keep_view s" if "ac_state s = Ac_connected" for y
    using that by (simp add: keep_view_def)
  then show "ac_keep [] (ac_on_client_disconnection p r ec s)"
    using keep_after_notify(1) [OF assms] keep_on_close [OF assms] keep_simple(1) [OF assms] assms by (simp add: ac_on_client_disconnection_def)
  show "ac_keep [] (ac_on_client_status r st s)"
    using keep_after_notify(4) [OF assms] keep_then [OF assms] by (simp add: ac_on_client_status_def Let_def)
  show "ac_keep [] (ac_on_timer_cb p r ec s)"
    using assms keep_do_connect [OF assms] keep_then [OF assms, of "ac_do_create_tunnel p r s"] by (simp add: ac_on_timer_cb_def)
  show "ac_keep [] (ac_online p r q s)"
    unfolding ac_online_def Let_def by (auto intro!: keep_after_notify(4,6) [OF assms] assms)
qed

lemma keep_on_create_tunnel:
  assumes "ac_keep [] s"
  shows "ac_keep [] (ac_on_create_tunnel p r ec t s)"
proof -
  have "ac_keep [] (ac_act (Aa_tunnel_properties k q) (s\<lparr>ac_tunnel := Some t\<rparr>))" for k q by (rule keep_then [OF assms]) simp
  note props = keep_client_answers(5) [OF keep_simple(3) [OF this]]
  have "ac_keep [] (s\<lparr>ac_tunnel := Some t\<rparr>)" by (rule keep_then [OF assms]) simp
  note plain = keep_client_answers(5) [OF this]
  show ?thesis using assms props plain keep_after_notify(3,4,5) [OF assms]
    by (simp add: ac_on_create_tunnel_def Let_def split: option.splits)
qed

lemma keep_on_accept:
  assumes "ac_keep [] s" and "i < length (ac_ops s)" and "op_completed (ac_ops s ! i) \<or> ac_accept_op s = Some i"
  shows "ac_keep [] (ac_on_accept r i ec s)"
proof -
  define t where "t = ac_upd i (\<lambda>x. x\<lparr>op_accepting := False\<rparr>) s"
  have t: "ac_keep [] t" using assms(1) keep_accepting [of "[]" i False s] by (simp add: t_def)
  have "ac_keep [] (ac_complete_accept i e (if ac_accept_op t = Some i then t\<lparr>ac_accept_op := None\<rparr> else t))" for e
  proof (cases "ac_accept_op t = Some i")
    case True
    from keep_complete_current(2) [OF t True] True show ?thesis by simp
  next
    case False
    then have "op_completed (ac_ops t ! i)" using assms(2,3) by (auto simp: t_def ac_upd_def)
    with t False show ?thesis by (simp add: ac_complete_accept_def)
  qed
  moreover have "ac_keep [] (ac_on_error ec (t\<lparr>ac_tunnel := None\<rparr>))" by (rule keep_simple(1) [OF keep_then [OF t]]) simp
  ultimately show ?thesis using t keep_after_notify(3) [OF t] by (simp add: ac_on_accept_def t_def [symmetric] Let_def)
qed

lemma keep_start:
  assumes "ac_keep [i] s" and "\<not> op_cancelled (ac_ops s ! i)" and "ac_accept_op s = None" and "ac_state s = Ac_null \<longrightarrow> op_reserved (ac_ops s ! i)"
    and "t = (if ac_state s = Ac_null then s\<lparr>ac_start_pending := False, ac_endpoint := op_initial_endpoint (ac_ops s ! i), ac_state := Ac_idle\<rparr> else s)"
  shows "ac_keep [] (t\<lparr>ac_client := True, ac_accept_op := Some i\<rparr>)"
proof -
  have ops: "ac_ops_inv [i] s" and res: "ac_reserve_inv [i] s" using assms(1) by (simp_all add: ac_keep_def)
  have open_i: "\<not> op_completed (ac_ops s ! i)" using ops assms(2) by (auto simp: ac_ops_inv_def)
  have "ac_ops_inv [] (t\<lparr>ac_client := True, ac_accept_op := Some i\<rparr>)"
    using ops ops_ok_park [of "map op_completed (ac_ops s)" i] open_i assms(3,5) by (auto simp: ac_ops_inv_def)
  moreover have held: "ac_held [] s = [] \<and> (ac_state s = Ac_null \<longrightarrow> trusted_endpoint (sa_config (ac_settings s)) (op_initial_endpoint (ac_ops s ! i)))"
  proof (cases "ac_state s = Ac_null")
    case True
    with holds_pending [OF assms(1), of i] assms(4) have h: "ac_held [i] s = [i]" by simp
    have "ac_held [i] s = filter (ac_holds (ac_ops s)) [i] @ ac_held [] s" by (simp add: ac_held_def)
    with h assms(4) True open_i have "ac_held [] s = []" by (simp add: ac_holds_def)
    then show ?thesis using res h by (auto simp: ac_reserve_inv_def)
  next
    case False
    then have "ac_held [i] s = []" using res by (auto simp: ac_reserve_inv_def split: if_splits)
    then show ?thesis using False by (simp add: ac_held_def split: if_splits)
  qed
  moreover have "ac_held [] (t\<lparr>ac_client := True, ac_accept_op := Some i\<rparr>) = ac_held [] s" using assms(5) by (simp add: ac_held_def)
  moreover have "ac_state s = Ac_null \<Longrightarrow> ac_start_pending s" using holds_pending [OF assms(1), of i] assms(4) by simp
  ultimately show ?thesis using res assms(5) by (auto simp: ac_keep_def ac_reserve_inv_def)
qed

lemma keep_async_accept_internal:
  assumes "ac_keep [i] s"
  shows "ac_keep [] (ac_async_accept_internal r i s)"
proof -
  have busy: "\<not> op_reserved (ac_ops s ! i)" if "ac_accept_op s \<noteq> None \<or> ec_failed (op_initiation_error (ac_ops s ! i))"
    using that assms holds_pending [OF assms, of i] by (auto simp: ac_keep_def ac_reserve_inv_def)
  have client: "ac_client s \<longleftrightarrow> ac_state s \<noteq> Ac_null" using assms by (simp add: ac_keep_def ac_reserve_inv_def)
  define t where "t = (if ac_state s = Ac_null then s\<lparr>ac_start_pending := False, ac_endpoint := op_initial_endpoint (ac_ops s ! i), ac_state := Ac_idle\<rparr> else s)"
  define u where "u = (if \<not> ac_client t then ac_act (Aa_client_new (sa_config (ac_settings t))) (t\<lparr>ac_client := True\<rparr>) else t)\<lparr>ac_accept_op := Some i\<rparr>"
  have "ac_keep [] u" if "\<not> op_cancelled (ac_ops s ! i)" "ac_accept_op s = None" "ac_state s = Ac_null \<longrightarrow> op_reserved (ac_ops s ! i)"
  proof (rule keep_then [OF keep_start [OF assms that t_def]])
    have "ac_client t = ac_client s" by (simp add: t_def)
    then show "keep_view u = keep_view (t\<lparr>ac_client := True, ac_accept_op := Some i\<rparr>)" by (simp add: u_def keep_view_def ac_act_def)
  qed
  then have "ac_keep [] (if ac_state u = Ac_idle then ac_do_connect r u else if ac_tunnel u \<noteq> None then ac_do_accept u else u)"
    if "\<not> op_cancelled (ac_ops s ! i)" "ac_accept_op s = None" "ac_state s = Ac_null \<longrightarrow> op_reserved (ac_ops s ! i)"
    using that keep_do_connect keep_do_accept by simp
  then show ?thesis
    using keep_complete_job [OF release_keep(1) [OF assms] release_keep(2) [OF assms]] keep_complete_job [OF assms] busy
    unfolding ac_async_accept_internal_def Let_def t_def [symmetric] u_def [symmetric] by simp
qed

lemma keep_cancel_accept:
  assumes "ac_keep [] s" and "\<And>i. ac_accept_op s \<noteq> Some i \<Longrightarrow> i < length (ac_ops s) \<Longrightarrow> \<not> op_completed (ac_ops s ! i) \<Longrightarrow>
      i \<in> set (over ac_accept_job (ac_out s))"
  shows "ac_keep [] (ac_cancel_accept i s)"
proof -
  let ?t = "ac_release_accept_reservation i s"
  have "ac_keep [] (ac_complete_accept i asio_operation_aborted ?t)"
    if "ac_accept_op s \<noteq> Some i" "i < length (ac_ops s)" "op_cancelled (ac_ops s ! i)" "\<not> op_completed (ac_ops s ! i)"
  proof -
    have i: "i \<in> set ([] @ over ac_accept_job (ac_out s))" using assms(2) that by simp
    note t = release_keep [OF assms(1) i]
    then have "ac_ops_inv [] (ac_complete_accept i asio_operation_aborted ?t)" using that by (intro complete_waiting) (simp_all add: ac_keep_def)
    moreover have "ac_reserve_inv [] (ac_complete_accept i asio_operation_aborted ?t)"
      by (rule ac_reserve_complete [where js = "[]"]) (use t in \<open>simp_all add: ac_keep_def\<close>)
    ultimately show ?thesis by (simp add: ac_keep_def)
  qed
  moreover have "ac_keep [] (ac_act (Aa_cancel_emit i) s)" by (rule keep_then [OF assms(1)]) simp
  ultimately show ?thesis using assms(1) keep_complete_current(2) [OF assms(1)] by (simp add: ac_cancel_accept_def)
qed

text \<open>Calls from outside, and taking an entry from the list of what waits.\<close>

lemma keep_async_accept:
  assumes "ac_keep [] s"
  shows "ac_keep [] (ac_async_accept s)"
proof -
  define op where "op = ac_new_op s"
  have op: "\<not> op_completed op" "ec_failed (op_initiation_error op) \<longrightarrow> \<not> op_reserved op"
      "op_reserved op \<longrightarrow> \<not> ac_is_state_non_null s \<and> \<not> ac_start_pending s \<and> trusted_endpoint (sa_config (ac_settings s)) (op_initial_endpoint op)"
    by (auto simp: op_def ac_new_op_def trusted_endpoint_def rstrm_ec_def Let_def split: option.splits)
  have ops: "ops_ok (map op_completed (ac_ops s)) (over ac_accept_job (ac_out s)) (set_option (ac_accept_op s)) (over ac_done_id (ac_log s))"
    using assms by (simp add: ac_keep_def ac_ops_inv_def)
  have old: "(ac_ops s @ [op]) ! i = ac_ops s ! i" if "i \<in> set (over ac_accept_job (ac_out s)) \<or> ac_accept_op s = Some i" for i
    using ops_ok_job [OF ops, of i] ops_ok_parked [OF ops, of i] that by (auto simp: nth_append)
  define t where "t = (let s1 = s\<lparr>ac_ops := ac_ops s @ [op]\<rparr>;
      s2 = (if op_reserved op then s1\<lparr>ac_is_state_non_null := True, ac_start_pending := True\<rparr> else s1) in ac_begin (Ap_job (Aj_accept (length (ac_ops s)))) s2)"
  have f: "ac_ops t = ac_ops s @ [op]" "over ac_accept_job (ac_out t) = over ac_accept_job (ac_out s) @ [length (ac_ops s)]" "ac_accept_op t = ac_accept_op s"
      "over ac_done_id (ac_log t) = over ac_done_id (ac_log s)" "ac_start_pending t = (op_reserved op \<or> ac_start_pending s)" "ac_state t = ac_state s"
      "ac_is_state_non_null t = (op_reserved op \<or> ac_is_state_non_null s)" "ac_client t = ac_client s" "ac_settings t = ac_settings s" "ac_endpoint t = ac_endpoint s"
    by (simp_all add: t_def ac_begin_def Let_def)
  have holds: "ac_holds (ac_ops s @ [op]) i = ac_holds (ac_ops s) i" if "i \<in> set (over ac_accept_job (ac_out s))" for i
    using old that by (simp add: ac_holds_def)
  have "filter (ac_holds (ac_ops s @ [op])) (over ac_accept_job (ac_out s)) = filter (ac_holds (ac_ops s)) (over ac_accept_job (ac_out s))"
    by (rule filter_cong [OF refl holds])
  then have held: "ac_held [] t = ac_held [] s @ (if op_reserved op then [length (ac_ops s)] else [])"
    using op(1) by (simp add: ac_held_def f ac_holds_def)
  have jobs: "(i = length (ac_ops s) \<and> ac_ops t ! i = op) \<or> (i \<in> set (over ac_accept_job (ac_out s)) \<and> ac_ops t ! i = ac_ops s ! i)"
    if "i \<in> set (over ac_accept_job (ac_out t))" for i
    using that old [of i] unfolding f by auto
  have "ac_ops_inv [] t"
  proof -
    have "ops_ok (map op_completed (ac_ops t)) (over ac_accept_job (ac_out t)) (set_option (ac_accept_op t)) (over ac_done_id (ac_log t))"
      using ops_ok_new [OF ops] op(1) by (simp add: f)
    moreover have "\<not> op_completed (ac_ops t ! i)" if "ac_accept_op t = Some i" for i
      using that assms old by (simp add: f ac_keep_def ac_ops_inv_def)
    moreover have "op_cancelled (ac_ops t ! i)" if "i \<in> set (over ac_accept_job (ac_out t))" "op_completed (ac_ops t ! i)" for i
      using jobs [OF that(1)] that(2) assms op(1) by (auto simp: ac_keep_def ac_ops_inv_def)
    ultimately show ?thesis by (simp add: ac_ops_inv_def)
  qed
  moreover have "ac_reserve_inv [] t"
  proof -
    have res: "ac_reserve_inv [] s" using assms by (simp add: ac_keep_def)
    have "trusted_endpoint (sa_config (ac_settings s)) (op_initial_endpoint (ac_ops t ! i))" if "i \<in> set (ac_held [] t)" for i
    proof -
      have i: "i \<in> set (over ac_accept_job (ac_out t))" "ac_holds (ac_ops t) i" using that by (simp_all add: ac_held_def)
      from jobs [OF i(1)] show ?thesis
      proof (elim disjE conjE)
        assume "ac_ops t ! i = op"
        with i(2) op(3) show ?thesis by (simp add: ac_holds_def)
      next
        assume o: "i \<in> set (over ac_accept_job (ac_out s))" "ac_ops t ! i = ac_ops s ! i"
        with i(2) have "i \<in> set (ac_held [] s)" by (simp add: ac_held_def ac_holds_def)
        with res o(2) show ?thesis by (simp add: ac_reserve_inv_def)
      qed
    qed
    moreover have "\<not> op_reserved (ac_ops t ! i)"
      if "i \<in> set (over ac_accept_job (ac_out t))" "op_completed (ac_ops t ! i) \<or> ec_failed (op_initiation_error (ac_ops t ! i))" for i
      using jobs [OF that(1)] that(2) res op by (auto simp: ac_reserve_inv_def)
    moreover have "length (ac_held [] t) = (if ac_start_pending t then 1 else 0)" using res op(3) by (simp add: held f ac_reserve_inv_def)
    moreover have "ac_start_pending t \<longrightarrow> ac_state t = Ac_null" "ac_is_state_non_null t \<longleftrightarrow> ac_state t \<noteq> Ac_null \<or> ac_start_pending t"
      using res op(3) by (auto simp: ac_reserve_inv_def f(5-7))
    ultimately show ?thesis using res unfolding ac_reserve_inv_def append_Nil f(3,6,8-10) by blast
  qed
  moreover have "ac_async_accept s = t" by (simp add: t_def ac_async_accept_def op_def Let_def)
  ultimately show ?thesis by (simp add: ac_keep_def)
qed

lemma keep_slot_accept: "ac_keep [] s \<Longrightarrow> ac_keep [] (ac_slot_accept i s)"
proof -
  assume k: "ac_keep [] s"
  define os where "os = (ac_ops s)[i := (ac_ops s ! i)\<lparr>op_cancelled := True\<rparr>]"
  have fields: "map op_completed os = map op_completed (ac_ops s)" "op_completed (os ! j) = op_completed (ac_ops s ! j)"
      "op_cancelled (ac_ops s ! j) \<longrightarrow> op_cancelled (os ! j)" "op_initiation_error (os ! j) = op_initiation_error (ac_ops s ! j)"
      "op_reserved (os ! j) = op_reserved (ac_ops s ! j)" "op_initial_endpoint (os ! j) = op_initial_endpoint (ac_ops s ! j)" for j
    by (auto simp: os_def map_update_same nth_update_if)
  have "ac_holds os = ac_holds (ac_ops s)" by (simp add: ac_holds_def fields fun_eq_iff)
  then have "ac_keep [] (s\<lparr>ac_ops := os\<rparr>)" using k fields by (auto simp: ac_keep_def ac_ops_inv_def ac_reserve_inv_def ac_held_def)
  from keep_then [OF this] k show ?thesis by (simp add: ac_slot_accept_def ac_upd_def os_def)
qed

lemma keep_calls:
  assumes "ac_keep [] s"
  shows "ac_keep [] (snd (ac_set_settings st s))" "ac_keep [] (snd (ac_set_control_callbacks cbs s))" "ac_keep [] (snd (ac_bind ep s))"
    "ac_keep [] (ac_close s)"
proof -
  have "ac_keep [] (s\<lparr>ac_settings := st\<rparr>)" if "\<not> ac_is_state_non_null s"
  proof -
    have "ac_state s = Ac_null" "\<not> ac_start_pending s" using assms that by (auto simp: ac_keep_def ac_reserve_inv_def)
    moreover from this have "ac_held [] s = []" using assms by (simp add: ac_keep_def ac_reserve_inv_def)
    moreover have "ac_held [] (s\<lparr>ac_settings := st\<rparr>) = ac_held [] s" by (simp add: ac_held_def)
    ultimately show ?thesis using assms by (auto simp: ac_keep_def ac_ops_inv_def ac_reserve_inv_def)
  qed
  with assms show "ac_keep [] (snd (ac_set_settings st s))" by (simp add: ac_set_settings_def)
  show "ac_keep [] (snd (ac_set_control_callbacks cbs s))" "ac_keep [] (snd (ac_bind ep s))" "ac_keep [] (ac_close s)"
    using assms keep_then [OF assms] by (simp_all add: ac_set_control_callbacks_def ac_bind_def ac_close_def)
qed

lemma keep_jobs:
  assumes "js @ over ac_accept_job (ac_out s) = L"
  shows "ac_ops_inv js s \<longleftrightarrow>
       ops_ok (map op_completed (ac_ops s)) L (set_option (ac_accept_op s)) (over ac_done_id (ac_log s))
       \<and> (\<forall>i. ac_accept_op s = Some i \<longrightarrow> \<not> op_completed (ac_ops s ! i))
       \<and> (\<forall>i \<in> set L. op_completed (ac_ops s ! i) \<longrightarrow> op_cancelled (ac_ops s ! i))"
    and "ac_reserve_inv js s \<longleftrightarrow>
       length (filter (ac_holds (ac_ops s)) L) = (if ac_start_pending s then 1 else 0)
       \<and> (ac_start_pending s \<longrightarrow> ac_state s = Ac_null) \<and> (ac_is_state_non_null s \<longleftrightarrow> ac_state s \<noteq> Ac_null \<or> ac_start_pending s)
       \<and> (ac_client s \<longleftrightarrow> ac_state s \<noteq> Ac_null) \<and> (ac_state s = Ac_null \<longrightarrow> ac_accept_op s = None)
       \<and> (ac_state s \<noteq> Ac_null \<longrightarrow> trusted_endpoint (sa_config (ac_settings s)) (ac_endpoint s))
       \<and> (\<forall>i \<in> set (filter (ac_holds (ac_ops s)) L). trusted_endpoint (sa_config (ac_settings s)) (op_initial_endpoint (ac_ops s ! i)))
       \<and> (\<forall>i \<in> set L. op_completed (ac_ops s ! i) \<or> ec_failed (op_initiation_error (ac_ops s ! i)) \<longrightarrow> \<not> op_reserved (ac_ops s ! i))"
  unfolding ac_ops_inv_def ac_reserve_inv_def ac_held_def assms by (rule refl)+

lemma keep_remove:
  assumes "ac_keep [] s" and "k < length (ac_out s)"
  shows "ac_keep (ac_accept_job (ac_out s ! k)) (s\<lparr>ac_out := remove_at k (ac_out s)\<rparr>)"
proof -
  let ?x = "ac_accept_job (ac_out s ! k)" and ?t = "s\<lparr>ac_out := remove_at k (ac_out s)\<rparr>"
  obtain as bs where p: "[] @ over ac_accept_job (ac_out s) = as @ ?x @ bs" "?x @ over ac_accept_job (ac_out ?t) = ?x @ as @ bs"
    using remove_at_project [OF assms(2), of ac_accept_job] by auto
  have one: "length ?x \<le> 1" by (cases "ac_out s ! k" rule: ac_accept_job.cases) simp_all
  have "ac_ops_inv ?x ?t"
    using assms(1) unfolding ac_keep_def keep_jobs(1) [OF p(1)] keep_jobs(1) [OF p(2)] ops_ok_swap [OF one] by (auto simp del: append_assoc)
  moreover have "ac_reserve_inv ?x ?t"
    using assms(1) unfolding ac_keep_def keep_jobs(2) [OF p(1)] keep_jobs(2) [OF p(2)] by auto
  ultimately show ?thesis by (simp add: ac_keep_def)
qed

end
