(* ===== verification/AcceptorWaits.thy ===== *)
theory AcceptorWaits
  imports AcceptorCorrect
begin

text \<open>
  What the acceptor waits for. In the idle state a wait of the timer is under way, in the connecting state
  exactly one connect of the client, and in the connected state the creation of a tunnel, a wait of the
  timer or an accept on the tunnel; only an acceptor that is being closed is exempt.
\<close>

section \<open>The invariant\<close>

text \<open>\<open>fs\<close>: accepts whose answer is being handled.\<close>

definition ac_base :: "nat list \<Rightarrow> acceptor \<Rightarrow> bool" where
  "ac_base fs s \<longleftrightarrow>
     distinct (fs @ over ac_flight (ac_out s)) \<and> set (fs @ over ac_flight (ac_out s)) = {i. i < length (ac_ops s) \<and> op_accepting (ac_ops s ! i)}
     \<and> (\<forall>i. i < length (ac_ops s) \<and> op_accepting (ac_ops s ! i) \<longrightarrow> op_completed (ac_ops s ! i) \<or> ac_accept_op s = Some i)
     \<and> (\<forall>n. ac_wait s = Some n \<longrightarrow> Ap_timer n \<in> set (ac_out s)) \<and> (ac_tunnel s \<noteq> None \<longrightarrow> ac_state s = Ac_connected) \<and> \<not> ac_fault s"

definition ac_idle_ok :: "acceptor \<Rightarrow> bool" where
  "ac_idle_ok s \<longleftrightarrow> (ac_state s = Ac_idle \<longrightarrow> \<not> ac_closing s \<and> ac_wait s \<noteq> None \<or> Ap_job Aj_close \<in> set (ac_out s))"

definition ac_create_ok :: "acceptor \<Rightarrow> bool" where
  "ac_create_ok s \<longleftrightarrow> (ac_state s = Ac_connected \<and> \<not> ac_closing s \<and> ac_tunnel s = None \<longrightarrow> Ap_create \<in> set (ac_out s) \<or> ac_wait s \<noteq> None)"

definition ac_accept_ok :: "acceptor \<Rightarrow> bool" where
  "ac_accept_ok s \<longleftrightarrow> (ac_state s = Ac_connected \<and> \<not> ac_closing s \<and> ac_tunnel s \<noteq> None \<longrightarrow>
     (\<forall>i. ac_accept_op s = Some i \<longrightarrow> op_accepting (ac_ops s ! i)))"

definition ac_conn_ok :: "acceptor \<Rightarrow> bool" where
  "ac_conn_ok s \<longleftrightarrow> over ac_conn (ac_out s) = (if ac_state s = Ac_connecting then [()] else [])"

definition ac_busy :: "acceptor \<Rightarrow> bool" where
  "ac_busy s \<longleftrightarrow> ac_base [] s \<and> ac_conn_ok s \<and> ac_idle_ok s \<and> ac_create_ok s \<and> ac_accept_ok s"

lemmas busy_defs = ac_busy_def ac_base_def ac_conn_ok_def ac_idle_ok_def ac_create_ok_def ac_accept_ok_def

lemma busy_init: "ac_busy (ac_init st)"
  by (simp add: busy_defs ac_init_def)

lemma keep_client: "ac_keep js s \<Longrightarrow> ac_client s \<longleftrightarrow> ac_state s \<noteq> Ac_null"
  by (simp add: ac_keep_def ac_reserve_inv_def)

lemma keep_current: "ac_keep js s \<Longrightarrow> ac_accept_op s = Some i \<Longrightarrow> i < length (ac_ops s) \<and> \<not> op_completed (ac_ops s ! i)"
  using ops_ok_parked [of "map op_completed (ac_ops s)"] by (fastforce simp: ac_keep_def ac_ops_inv_def)

section \<open>Closing and callbacks\<close>

lemma complete_completed: "j < length (ac_ops s) \<Longrightarrow> op_completed (ac_ops (ac_complete_accept i ec s) ! j) \<longleftrightarrow> op_completed (ac_ops s ! j) \<or> j = i"
  by (auto simp: ac_complete_accept_def ac_act_def ac_upd_def nth_update_if)

lemma complete_busy: "ac_base fs s \<Longrightarrow> ac_base fs (ac_complete_accept i ec s)" "ac_busy s \<Longrightarrow> ac_busy (ac_complete_accept i ec s)"
proof -
  show b: "ac_base fs s \<Longrightarrow> ac_base fs (ac_complete_accept i ec s)" for fs by (auto simp: ac_base_def complete_completed)
  show "ac_busy s \<Longrightarrow> ac_busy (ac_complete_accept i ec s)"
    using b [of "[]"] by (simp add: ac_busy_def ac_conn_ok_def ac_idle_ok_def ac_create_ok_def ac_accept_ok_def)
qed

lemma on_close_fields [simp]:
  "ac_state (ac_on_close ec s) = Ac_null" "ac_out (ac_on_close ec s) = ac_out s"
  by (simp_all add: ac_on_close_def ac_call_def ac_act_def Let_def split: option.splits)

lemma on_close_base:
  assumes "ac_keep [] s" and "ac_base fs s"
  shows "ac_base fs (ac_on_close ec s)"
proof (cases "ac_state s = Ac_null")
  case False
  define t where "t = (ac_act Aa_client_close (s\<lparr>ac_state := Ac_null, ac_closing := False, ac_tunnel := None, ac_status := empty_status_extd, ac_wait := None\<rparr>))
      \<lparr>ac_client := False, ac_local_endpoint := None, ac_is_state_non_null := False, ac_start_pending := False, ac_callbacks := no_acceptor_callbacks\<rparr>"
  have "ac_client s" using keep_client [OF assms(1)] False by simp
  then have eq: "ac_on_close ec s = (case ac_accept_op s of None \<Rightarrow> t
      | Some i \<Rightarrow> (ac_complete_accept i (if ec_failed ec then ec else rstrm_ec Operation_aborted) t)\<lparr>ac_accept_op := None\<rparr>)"
    using False by (simp add: ac_on_close_def ac_call_def ac_act_def t_def Let_def split: option.splits)
  have t: "ac_base fs t" using assms(2) by (auto simp: ac_base_def t_def ac_act_def)
  show ?thesis
  proof (cases "ac_accept_op s")
    case None
    with t eq show ?thesis by simp
  next
    case (Some i)
    have "ac_accept_op t = Some i" using Some by (simp add: t_def ac_act_def)
    with complete_busy(1) [OF t, of i] show ?thesis unfolding eq Some by (auto simp: ac_base_def complete_completed)
  qed
qed (simp add: ac_on_close_def assms(2))

lemma on_close_busy: "ac_keep [] s \<Longrightarrow> ac_base [] s \<Longrightarrow> over ac_conn (ac_out s) = [] \<Longrightarrow> ac_busy (ac_on_close ec s)"
  using on_close_base [of s "[]"] by (simp add: ac_busy_def ac_conn_ok_def ac_idle_ok_def ac_create_ok_def ac_accept_ok_def)

text \<open>A callback changes the log and may set the closing flag; in the idle state it may close the acceptor.\<close>

lemma reenter_running:
  assumes "ac_client s" and "ac_state s \<noteq> Ac_null" and "ac_state s \<noteq> Ac_idle"
  shows "\<exists>l cl. ac_reenter b s = s\<lparr>ac_log := l, ac_closing := cl\<rparr> \<and> (ac_closing s \<longrightarrow> cl)"
proof (cases "b \<and> \<not> ac_closing s")
  case True
  then have "ac_reenter b s = s\<lparr>ac_log := ac_log s @ [Aa_client_close], ac_closing := True\<rparr>"
    using assms by (simp add: ac_reenter_def ac_close_internal_def ac_call_def ac_act_def)
  with True show ?thesis by blast
next
  case False
  then have "ac_reenter b s = s\<lparr>ac_log := ac_log s, ac_closing := ac_closing s\<rparr>" by (auto simp: ac_reenter_def)
  then show ?thesis by blast
qed

lemma notify_running:
  assumes "ac_client s" and "ac_state s \<noteq> Ac_null" and "ac_state s \<noteq> Ac_idle"
  shows "\<exists>l cl. ac_notify_status b s = s\<lparr>ac_log := l, ac_closing := cl\<rparr> \<and> (ac_closing s \<longrightarrow> cl)"
proof (cases "ab_on_status (ac_callbacks s)")
  case None
  then have "ac_notify_status b s = s\<lparr>ac_log := ac_log s, ac_closing := ac_closing s\<rparr>" by (simp add: ac_notify_status_def)
  then show ?thesis by blast
next
  case (Some k)
  let ?t = "ac_act (Aa_status k (ac_status s)) s"
  obtain l cl where "ac_reenter b ?t = ?t\<lparr>ac_log := l, ac_closing := cl\<rparr>" "ac_closing s \<longrightarrow> cl"
    using reenter_running [of ?t b] assms by (auto simp: ac_act_def)
  with Some have "ac_notify_status b s = s\<lparr>ac_log := l, ac_closing := cl\<rparr> \<and> (ac_closing s \<longrightarrow> cl)" by (simp add: ac_notify_status_def ac_act_def)
  then show ?thesis by blast
qed

lemma notify_idle:
  assumes "ac_client s" and "ac_state s = Ac_idle"
  shows "\<exists>l. keep_view (s\<lparr>ac_log := l\<rparr>) = keep_view s \<and>
    (ac_notify_status b s = s\<lparr>ac_log := l\<rparr> \<or> ac_notify_status b s = ac_on_close ec_ok (s\<lparr>ac_log := l, ac_closing := True\<rparr>))"
proof (cases "ab_on_status (ac_callbacks s)")
  case None
  then have "ac_notify_status b s = s\<lparr>ac_log := ac_log s\<rparr>" by (simp add: ac_notify_status_def)
  then show ?thesis by (metis acceptor.surjective acceptor.update_convs(20))
next
  case (Some k)
  define l where "l = ac_log s @ [Aa_status k (ac_status s)]"
  have "keep_view (s\<lparr>ac_log := l\<rparr>) = keep_view s" by (simp add: keep_view_def l_def)
  moreover have "ac_notify_status b s = s\<lparr>ac_log := l\<rparr> \<or> ac_notify_status b s = ac_on_close ec_ok (s\<lparr>ac_log := l, ac_closing := True\<rparr>)"
    using Some assms by (auto simp: ac_notify_status_def ac_act_def ac_reenter_def ac_close_internal_def l_def)
  ultimately show ?thesis by blast
qed

lemma base_log: "ac_base fs (s\<lparr>ac_log := l\<rparr>) = ac_base fs s" "ac_base fs (s\<lparr>ac_closing := cl\<rparr>) = ac_base fs s"
    "ac_base fs (s\<lparr>ac_status := x\<rparr>) = ac_base fs s"
  by (simp_all add: ac_base_def)

text \<open>The parts of the invariant that look at the flag, before and after a callback.\<close>

definition ac_rest :: "acceptor \<Rightarrow> bool" where
  "ac_rest s \<longleftrightarrow> ac_base [] s \<and> ac_conn_ok s \<and> ac_idle_ok s \<and> ac_accept_ok s"

lemma busy_rest: "ac_busy s \<longleftrightarrow> ac_rest s \<and> ac_create_ok s"
  by (auto simp: ac_busy_def ac_rest_def)

lemma closing_weakens:
  assumes "ac_state s \<noteq> Ac_idle" and "ac_closing s \<longrightarrow> cl"
  shows "ac_rest s \<Longrightarrow> ac_rest (s\<lparr>ac_log := l, ac_closing := cl\<rparr>)" "ac_create_ok s \<Longrightarrow> ac_create_ok (s\<lparr>ac_log := l, ac_closing := cl\<rparr>)"
  using assms by (auto simp: ac_rest_def base_log ac_conn_ok_def ac_idle_ok_def ac_create_ok_def ac_accept_ok_def)

lemma start_timer_base: "ac_base fs s \<Longrightarrow> ac_base fs (ac_start_timer ms s) \<and> ac_wait (ac_start_timer ms s) \<noteq> None"
  by (auto simp: ac_base_def ac_start_timer_def ac_begin_def ac_act_def)

lemma start_timer_fields [simp]:
  "ac_state (ac_start_timer ms s) = ac_state s" "ac_closing (ac_start_timer ms s) = ac_closing s" "ac_tunnel (ac_start_timer ms s) = ac_tunnel s"
  "ac_accept_op (ac_start_timer ms s) = ac_accept_op s" "ac_ops (ac_start_timer ms s) = ac_ops s"
  "over ac_conn (ac_out (ac_start_timer ms s)) = over ac_conn (ac_out s)" "x \<in> set (ac_out s) \<Longrightarrow> x \<in> set (ac_out (ac_start_timer ms s))"
  by (simp_all add: ac_start_timer_def ac_begin_def ac_act_def)

section \<open>Steps towards a tunnel\<close>

lemma do_reconnect_busy:
  assumes "ac_base [] s" and "over ac_conn (ac_out s) = []" and "ac_state s = Ac_idle \<and> \<not> ac_closing s \<or> ac_state s = Ac_null"
  shows "ac_busy (ac_do_reconnect s)"
  using assms start_timer_base [OF assms(1)]
  by (auto simp: ac_do_reconnect_def ac_busy_def ac_conn_ok_def ac_idle_ok_def ac_create_ok_def ac_accept_ok_def)

lemma do_recreate_busy: "ac_rest s \<Longrightarrow> ac_busy (ac_do_recreate_tunnel s)"
  using start_timer_base [of "[]" s "sa_recreate_tunnel_timeout_ms (ac_settings s)"]
  by (auto simp: ac_do_recreate_tunnel_def busy_rest ac_rest_def ac_conn_ok_def ac_idle_ok_def ac_create_ok_def ac_accept_ok_def)

lemma do_create_busy:
  assumes "ac_rest s" and "ac_client s"
  shows "ac_busy (ac_do_create_tunnel p r s)"
proof -
  have "ac_busy (ac_begin Ap_create (ac_call a (s\<lparr>ac_generated_stable_domain := g\<rparr>)))" for a g
    using assms by (auto simp: busy_rest ac_rest_def busy_defs ac_begin_def ac_call_def ac_act_def)
  moreover have "ac_state s \<noteq> Ac_connected \<or> ac_closing s \<Longrightarrow> ac_busy s" using assms(1) by (auto simp: busy_rest ac_create_ok_def)
  ultimately show ?thesis by (auto simp: ac_do_create_tunnel_def Let_def split: prod.splits)
qed

lemma do_accept_busy:
  assumes "ac_keep [] s" and "ac_base [] s" and "ac_conn_ok s" and "ac_idle_ok s" and "ac_create_ok s" and "ac_state s = Ac_connected \<longrightarrow> ac_tunnel s \<noteq> None"
  shows "ac_busy (ac_do_accept s)"
proof (cases "\<exists>i. ac_accept_op s = Some i \<and> ac_state s = Ac_connected \<and> \<not> ac_closing s \<and> \<not> op_accepting (ac_ops s ! i)")
  case False
  then have "ac_do_accept s = s" by (auto simp: ac_do_accept_def split: option.splits)
  with False assms show ?thesis by (auto simp: ac_busy_def ac_accept_ok_def)
next
  case True
  then obtain i t where i: "ac_accept_op s = Some i" "ac_state s = Ac_connected" "\<not> ac_closing s" "\<not> op_accepting (ac_ops s ! i)" "ac_tunnel s = Some t"
    using assms(6) by blast
  note cur = keep_current [OF assms(1) i(1)]
  define u where "u = ac_begin (Ap_accept i) (ac_act (Aa_accept i t) (ac_upd i (\<lambda>x. x\<lparr>op_accepting := True\<rparr>) s))"
  have eq: "ac_do_accept s = u" using i cur by (simp add: ac_do_accept_def u_def)
  have fields: "length (ac_ops u) = length (ac_ops s)" "op_completed (ac_ops u ! j) = op_completed (ac_ops s ! j)"
      "j < length (ac_ops s) \<Longrightarrow> op_accepting (ac_ops u ! j) \<longleftrightarrow> op_accepting (ac_ops s ! j) \<or> j = i"
      "ac_out u = ac_out s @ [Ap_accept i]" "ac_accept_op u = Some i" "ac_wait u = ac_wait s" "ac_tunnel u = Some t" "ac_state u = Ac_connected"
      "ac_fault u = ac_fault s" for j
    using cur i by (auto simp: u_def ac_begin_def ac_act_def ac_upd_def nth_update_if)
  have "i \<notin> set (over ac_flight (ac_out s))" using assms(2) i(4) by (auto simp: ac_base_def)
  moreover have "{j. j < length (ac_ops s) \<and> op_accepting (ac_ops u ! j)} = insert i {j. j < length (ac_ops s) \<and> op_accepting (ac_ops s ! j)}"
    using fields(3) cur by auto
  ultimately have "ac_base [] u" using assms(2) i(1) fields(3) unfolding ac_base_def fields(1,2,4-9) by auto
  then show ?thesis using assms(3) fields cur unfolding eq by (auto simp: ac_busy_def ac_conn_ok_def ac_idle_ok_def ac_create_ok_def ac_accept_ok_def i(2))
qed

lemma do_connect_busy:
  assumes "ac_keep [] s" and "ac_base [] s" and "ac_state s = Ac_idle" and "over ac_conn (ac_out s) = []"
  shows "ac_busy (ac_do_connect r s)"
proof -
  have client: "ac_client s" using keep_client [OF assms(1)] assms(3) by simp
  define t where "t = ac_call Aa_client_callbacks (s\<lparr>ac_state := Ac_connecting\<rparr>)"
  have t: "ac_base [] t" "over ac_conn (ac_out t) = []" "ac_state t = Ac_connecting" "ac_client t"
    using assms client by (auto simp: t_def ac_call_def ac_act_def ac_base_def)
  have "ac_keep [] t" by (rule keep_then [OF assms(1)]) (use assms(3) in \<open>simp add: t_def\<close>)
  then have "ac_busy (ac_on_error ec t)" if "ec_failed ec" for ec using on_close_busy t that by (simp add: ac_on_error_def)
  moreover have "ac_busy (ac_begin Ap_connect (ac_call a t))" for a
    using t by (simp add: busy_defs ac_begin_def ac_call_def ac_act_def)
  ultimately show ?thesis using assms(3) by (simp add: ac_do_connect_def t_def [symmetric] Let_def)
qed

section \<open>Answers\<close>

lemma idle_after_notify:
  assumes "ac_keep [] s" and "ac_base [] s" and "over ac_conn (ac_out s) = []" and "ac_state s = Ac_idle" and "\<not> ac_closing s"
  shows "ac_busy (ac_do_reconnect (ac_notify_status b s))"
proof -
  obtain l where l: "keep_view (s\<lparr>ac_log := l\<rparr>) = keep_view s"
      "ac_notify_status b s = s\<lparr>ac_log := l\<rparr> \<or> ac_notify_status b s = ac_on_close ec_ok (s\<lparr>ac_log := l, ac_closing := True\<rparr>)"
    using notify_idle [of s b] keep_client [OF assms(1)] assms(4) by auto
  from l(2) show ?thesis
  proof
    assume eq: "ac_notify_status b s = s\<lparr>ac_log := l\<rparr>"
    show ?thesis unfolding eq by (rule do_reconnect_busy) (use assms in \<open>simp_all add: base_log\<close>)
  next
    let ?t = "s\<lparr>ac_log := l, ac_closing := True\<rparr>"
    assume eq: "ac_notify_status b s = ac_on_close ec_ok ?t"
    have "ac_keep [] ?t" by (rule keep_then [OF assms(1)]) (use l(1) in simp)
    then have "ac_base [] (ac_on_close ec_ok ?t)" by (rule on_close_base) (use assms in \<open>simp add: base_log\<close>)
    then show ?thesis unfolding eq by (rule do_reconnect_busy) (use assms in simp_all)
  qed
qed

lemma notify_parts:
  assumes "ac_client s" and "ac_state s = Ac_connected" and "ac_rest s"
  shows "ac_rest (ac_notify_status b s)" "ac_client (ac_notify_status b s)" "ac_create_ok s \<Longrightarrow> ac_create_ok (ac_notify_status b s)"
    "ac_state (ac_notify_status b s) = Ac_connected" "ac_tunnel (ac_notify_status b s) = ac_tunnel s" "ac_base [] (ac_notify_status b s)"
    "ac_conn_ok (ac_notify_status b s)"
proof -
  obtain l cl where eq: "ac_notify_status b s = s\<lparr>ac_log := l, ac_closing := cl\<rparr>" "ac_closing s \<longrightarrow> cl"
    using notify_running [of s b] assms by auto
  show "ac_rest (ac_notify_status b s)" "ac_client (ac_notify_status b s)" "ac_create_ok s \<Longrightarrow> ac_create_ok (ac_notify_status b s)"
      "ac_state (ac_notify_status b s) = Ac_connected" "ac_tunnel (ac_notify_status b s) = ac_tunnel s" "ac_base [] (ac_notify_status b s)"
      "ac_conn_ok (ac_notify_status b s)"
    using closing_weakens [OF _ eq(2), of l] assms unfolding eq(1) by (auto simp: ac_rest_def ac_conn_ok_def)
qed

lemma on_connect_busy:
  assumes "ac_keep [] s" and "ac_base [] s" and "over ac_conn (ac_out s) = []" and "ac_state s = Ac_connecting"
  shows "ac_busy (ac_on_connect p r ec s)"
proof -
  have client: "ac_client s" using keep_client [OF assms(1)] assms(4) by simp
  have tunnel: "ac_tunnel s = None" using assms(2,4) by (auto simp: ac_base_def)
  have view: "keep_view (s\<lparr>ac_state := x, ac_status := y\<rparr>) = keep_view s" if "x \<noteq> Ac_null" for x y
    using that assms(4) by (simp add: keep_view_def)
  have "ac_busy (ac_do_reconnect (ac_notify_status b (s\<lparr>ac_state := Ac_idle, ac_status := y\<rparr>)))" if "\<not> ac_closing s" for b y
    by (rule idle_after_notify [OF keep_then [OF assms(1) view]]) (use assms that tunnel in \<open>simp_all add: ac_base_def\<close>)
  moreover have "ac_busy (ac_do_create_tunnel p r (ac_notify_status b (s\<lparr>ac_state := Ac_connected, ac_status := y\<rparr>)))" for b y
  proof -
    have "ac_rest (s\<lparr>ac_state := Ac_connected, ac_status := y\<rparr>)"
      using assms tunnel by (simp add: ac_rest_def ac_base_def ac_conn_ok_def ac_idle_ok_def ac_accept_ok_def)
    then show ?thesis using do_create_busy notify_parts(1,2) client by simp
  qed
  moreover have "ac_busy (ac_on_close e s)" for e by (rule on_close_busy [OF assms(1-3)])
  ultimately show ?thesis using assms(4) by (simp add: ac_on_connect_def ac_on_error_def)
qed

lemma online_busy:
  assumes "ac_keep [] s" and "ac_base [] s" and "ac_conn_ok s" and "ac_state s = Ac_connected" and "ac_tunnel s \<noteq> None"
  shows "ac_busy (ac_online p r q s)"
proof (cases "ac_closing s")
  case True
  with assms show ?thesis by (simp add: ac_online_def ac_busy_def ac_idle_ok_def ac_create_ok_def ac_accept_ok_def)
next
  case False
  define t where "t = ac_notify_status (ar_close_second r) (s\<lparr>ac_status := \<lparr>sd_status = ac_server_status s, sd_text = Some ''online'', sd_tunnel_id = m_id q,
      sd_forwarding = (case format_forwarding_address q of Inl _ \<Rightarrow> None | Inr f \<Rightarrow> Some f)\<rparr>\<rparr>)"
  obtain l cl where eq: "t = s\<lparr>ac_status := \<lparr>sd_status = ac_server_status s, sd_text = Some ''online'', sd_tunnel_id = m_id q,
      sd_forwarding = (case format_forwarding_address q of Inl _ \<Rightarrow> None | Inr f \<Rightarrow> Some f)\<rparr>, ac_log := l, ac_closing := cl\<rparr>"
    using notify_running [of "s\<lparr>ac_status := \<lparr>sd_status = ac_server_status s, sd_text = Some ''online'', sd_tunnel_id = m_id q,
      sd_forwarding = (case format_forwarding_address q of Inl _ \<Rightarrow> None | Inr f \<Rightarrow> Some f)\<rparr>\<rparr>" "ar_close_second r"] keep_client [OF assms(1)] assms(4)
    by (auto simp: t_def)
  have t: "ac_base [] t" "ac_conn_ok t" "ac_idle_ok t" "ac_create_ok t" "ac_state t = Ac_connected" "ac_tunnel t \<noteq> None"
    using assms unfolding eq by (auto simp: base_log ac_conn_ok_def ac_idle_ok_def ac_create_ok_def)
  have "ac_keep [] t" unfolding t_def by (rule keep_simple(4) [OF keep_then [OF assms(1)]]) simp
  then have accept: "ac_busy (ac_do_accept t)" using t by (intro do_accept_busy) simp_all
  have "ac_busy t" if "ac_closing t \<or> ac_accept_op t = None" using t that by (auto simp: ac_busy_def ac_accept_ok_def)
  with accept show ?thesis using assms(4) False t(5) by (simp add: ac_online_def t_def [symmetric] Let_def)
qed

lemma on_create_busy:
  assumes "ac_keep [] s" and "ac_rest s"
  shows "ac_busy (ac_on_create_tunnel p r ec t s)"
proof (cases "ac_state s = Ac_connected")
  case False
  with assms show ?thesis by (simp add: ac_on_create_tunnel_def busy_rest ac_create_ok_def)
next
  case True
  have client: "ac_client s" using keep_client [OF assms(1)] True by simp
  show ?thesis
  proof (cases "ec_failed ec")
    case failed: True
    define u where "u = ac_notify_status (ar_close_first r) (s\<lparr>ac_status := ac_text (ac_failed_text p ''tunnel creation failed'' ec) s\<rparr>)"
    have "ac_rest (s\<lparr>ac_status := y\<rparr>)" for y using assms(2) by (simp add: ac_rest_def base_log ac_conn_ok_def ac_idle_ok_def ac_accept_ok_def)
    from notify_parts [OF _ _ this] have u: "ac_rest u" "ac_base [] u" "ac_conn_ok u" "ac_state u = Ac_connected" using client True by (simp_all add: u_def)
    have k: "ac_keep [] u" unfolding u_def by (rule keep_simple(4) [OF keep_then [OF assms(1)]]) simp
    have "ac_busy u" if "ac_closing u" using u that by (simp add: busy_rest ac_create_ok_def)
    moreover have "ac_busy (ac_on_error ec u)" using on_close_busy [OF k] u failed by (simp add: ac_on_error_def ac_conn_ok_def)
    ultimately show ?thesis using True failed u(4) do_recreate_busy [OF u(1)] by (simp add: ac_on_create_tunnel_def u_def [symmetric] Let_def)
  next
    case ok: False
    let ?t = "s\<lparr>ac_tunnel := Some t\<rparr>"
    have online: "ac_busy (ac_online p r q v)" if "keep_view v = keep_view s" "v = ?t\<lparr>ac_log := l, ac_closing := cl\<rparr>" for q v l cl
      by (rule online_busy [OF keep_then [OF assms(1) that(1)]])
        (use assms(2) True in \<open>simp_all add: that(2) base_log ac_rest_def ac_base_def ac_conn_ok_def\<close>)
    have plain: "ac_busy (ac_online p r q ?t)" for q by (rule online [where l = "ac_log s" and cl = "ac_closing s"]) simp_all
    have "ac_busy (ac_online p r q (ac_reenter b (ac_act (Aa_tunnel_properties k q) ?t)))" for q b k
    proof -
      let ?a = "ac_act (Aa_tunnel_properties k q) ?t"
      have "ac_reenter b ?a = (if b \<and> \<not> ac_closing s then ac_act Aa_client_close (?a\<lparr>ac_closing := True\<rparr>) else ?a)"
        using client True by (simp add: ac_reenter_def ac_close_internal_def ac_call_def ac_act_def)
      moreover have "ac_busy (ac_online p r q (ac_act Aa_client_close (?a\<lparr>ac_closing := True\<rparr>)))"
        by (rule online [where l = "ac_log s @ [Aa_tunnel_properties k q, Aa_client_close]" and cl = True]) (simp_all add: ac_act_def keep_view_def)
      moreover have "ac_busy (ac_online p r q ?a)"
        by (rule online [where l = "ac_log s @ [Aa_tunnel_properties k q]" and cl = "ac_closing s"]) (simp_all add: ac_act_def keep_view_def)
      ultimately show ?thesis by simp
    qed
    with plain show ?thesis using True ok by (simp add: ac_on_create_tunnel_def Let_def split: option.splits)
  qed
qed

lemma on_accept_busy:
  assumes "ac_keep [] s" and "ac_base [i] s" and "ac_conn_ok s" and "ac_idle_ok s" and "ac_create_ok s" and "ac_accept_ok s"
  shows "ac_busy (ac_on_accept r i ec s)"
proof -
  have i: "i < length (ac_ops s)" "op_completed (ac_ops s ! i) \<or> ac_accept_op s = Some i" "i \<notin> set (over ac_flight (ac_out s))"
    using assms(2) by (auto simp: ac_base_def)
  define t where "t = ac_upd i (\<lambda>x. x\<lparr>op_accepting := False\<rparr>) s"
  have fields: "length (ac_ops t) = length (ac_ops s)" "op_completed (ac_ops t ! j) = op_completed (ac_ops s ! j)"
      "op_accepting (ac_ops t ! j) \<longleftrightarrow> op_accepting (ac_ops s ! j) \<and> j \<noteq> i" "ac_out t = ac_out s" "ac_accept_op t = ac_accept_op s"
      "ac_wait t = ac_wait s" "ac_tunnel t = ac_tunnel s" "ac_state t = ac_state s" "ac_fault t = ac_fault s" "ac_closing t = ac_closing s"
      "ac_client t = ac_client s" for j
    using i by (auto simp: t_def ac_upd_def nth_update_if)
  have "{j. j < length (ac_ops s) \<and> op_accepting (ac_ops t ! j)} = {j. j < length (ac_ops s) \<and> op_accepting (ac_ops s ! j)} - {i}"
    by (auto simp: fields)
  then have base: "ac_base [] t" using assms(2) i(3) unfolding ac_base_def fields(1,2,4-9) by (auto simp: fields(3))
  have parts: "ac_conn_ok t" "ac_idle_ok t" "ac_create_ok t" using assms(3-5) by (simp_all add: ac_conn_ok_def ac_idle_ok_def ac_create_ok_def fields)
  have k: "ac_keep [] t" using assms(1) keep_accepting [of "[]" i False s] by (simp add: t_def)
  have leave: "ac_busy (ac_complete_accept i e (if ac_accept_op t = Some i then t\<lparr>ac_accept_op := None\<rparr> else t))" for e
  proof -
    have "\<not> op_accepting (ac_ops t ! i)" by (simp add: fields)
    then have base': "ac_base [] (t\<lparr>ac_accept_op := None\<rparr>)" if "ac_accept_op t = Some i" using base that by (auto simp: ac_base_def)
    have "ac_accept_ok t" if "ac_accept_op t \<noteq> Some i" using assms(6) that by (auto simp: ac_accept_ok_def fields)
    with base base' parts show ?thesis
      by (intro complete_busy(2), cases "ac_accept_op t = Some i")
        (simp_all add: ac_busy_def ac_conn_ok_def ac_idle_ok_def ac_create_ok_def ac_accept_ok_def)
  qed
  have off: "ac_busy t" if "ac_state t \<noteq> Ac_connected \<or> ac_closing t" using that base parts by (auto simp: ac_busy_def ac_accept_ok_def)
  have lost: "ac_busy (ac_do_recreate_tunnel (ac_notify_status b (t\<lparr>ac_tunnel := None, ac_status := y\<rparr>)))" "ac_busy (ac_on_close ec (t\<lparr>ac_tunnel := None\<rparr>))"
    if "ac_state t = Ac_connected" for b y
  proof -
    have "ac_rest (t\<lparr>ac_tunnel := None, ac_status := y\<rparr>)"
      using base parts that by (auto simp: ac_rest_def ac_base_def ac_conn_ok_def ac_idle_ok_def ac_accept_ok_def)
    then show "ac_busy (ac_do_recreate_tunnel (ac_notify_status b (t\<lparr>ac_tunnel := None, ac_status := y\<rparr>)))"
      using do_recreate_busy notify_parts(1) keep_client [OF k] that by simp
    have "ac_keep [] (t\<lparr>ac_tunnel := None\<rparr>)" by (rule keep_then [OF k]) simp
    then show "ac_busy (ac_on_close ec (t\<lparr>ac_tunnel := None\<rparr>))"
      by (rule on_close_busy) (use base parts that in \<open>auto simp: ac_base_def ac_conn_ok_def\<close>)
  qed
  show ?thesis using leave off lost by (simp add: ac_on_accept_def t_def [symmetric] ac_on_error_def Let_def)
qed

lemma on_timer_busy:
  assumes "ac_keep [] s" and "ac_base [] s" and "ac_conn_ok s" and "ac_accept_ok s"
    and "ac_state s = Ac_idle \<and> ac_closing s \<longrightarrow> Ap_job Aj_close \<in> set (ac_out s)" and "ec_failed ec \<longrightarrow> ac_busy s"
  shows "ac_busy (ac_on_timer_cb p r ec s)"
proof -
  have "ac_busy (ac_do_connect r s)" if "ac_state s = Ac_idle" using do_connect_busy [OF assms(1,2)] assms(3) that by (simp add: ac_conn_ok_def)
  moreover have "ac_busy (ac_do_create_tunnel p r s)" if "ac_state s = Ac_connected"
    using do_create_busy keep_client [OF assms(1)] assms(2-4) that by (simp add: ac_rest_def ac_idle_ok_def)
  moreover have "ac_busy s" if "ac_closing s \<or> ac_state s \<notin> {Ac_idle, Ac_connected}"
    using assms that by (auto simp: ac_busy_def ac_idle_ok_def ac_create_ok_def)
  ultimately show ?thesis using assms(6) by (simp add: ac_on_timer_cb_def)
qed

lemma on_disconnection_busy:
  assumes "ac_keep [] s" and "ac_busy s"
  shows "ac_busy (ac_on_client_disconnection p r ec s)"
proof (cases "ac_state s = Ac_connected")
  case True
  have close: "ac_busy (ac_on_close e s)" for e
    by (rule on_close_busy [OF assms(1)]) (use assms(2) True in \<open>auto simp: ac_busy_def ac_conn_ok_def\<close>)
  let ?t = "\<lambda>y. s\<lparr>ac_state := Ac_idle, ac_wait := None, ac_tunnel := None, ac_status := y\<rparr>"
  have "keep_view (?t y) = keep_view s" for y using True by (simp add: keep_view_def)
  then have "ac_keep [] (?t y)" for y by (rule keep_then [OF assms(1)])
  then have "ac_busy (ac_do_reconnect (ac_notify_status b (?t y)))" if "\<not> ac_closing s" for b y
    by (rule idle_after_notify) (use assms(2) True that in \<open>auto simp: ac_busy_def ac_base_def ac_conn_ok_def\<close>)
  with close show ?thesis using True by (simp add: ac_on_client_disconnection_def ac_on_error_def)
qed (simp add: ac_on_client_disconnection_def assms(2))

lemma on_status_busy:
  assumes "ac_keep [] s" and "ac_busy s"
  shows "ac_busy (ac_on_client_status r st s)"
proof -
  have "ac_busy (s\<lparr>ac_server_status := x\<rparr>)" for x using assms(2) by (simp add: busy_defs)
  moreover have "ac_busy (ac_notify_status b (s\<lparr>ac_server_status := x, ac_status := y\<rparr>))" if "ac_state s = Ac_connected" for b x y
  proof -
    have "ac_busy (s\<lparr>ac_server_status := x, ac_status := y\<rparr>)" using assms(2) by (simp add: busy_defs)
    then show ?thesis using notify_parts(1,3) keep_client [OF assms(1)] that by (simp add: busy_rest)
  qed
  ultimately show ?thesis by (simp add: ac_on_client_status_def Let_def)
qed

section \<open>Jobs and calls\<close>

lemma ac_release_completed [simp]: "op_completed (ac_ops (ac_release_accept_reservation i s) ! j) = op_completed (ac_ops s ! j)"
  by (simp add: ac_release_accept_reservation_def ac_upd_def nth_update_if)

lemma release_busy: "ac_busy (ac_release_accept_reservation i s) = ac_busy s"
  by (simp add: busy_defs)

lemma accept_internal_busy:
  assumes "ac_keep [i] s" and "ac_busy s"
  shows "ac_busy (ac_async_accept_internal r i s)"
proof -
  have client: "ac_client s \<longleftrightarrow> ac_state s \<noteq> Ac_null" using keep_client [OF assms(1)] .
  define t where "t = (if ac_state s = Ac_null then s\<lparr>ac_start_pending := False, ac_endpoint := op_initial_endpoint (ac_ops s ! i), ac_state := Ac_idle\<rparr> else s)"
  define u where "u = (if \<not> ac_client t then ac_act (Aa_client_new (sa_config (ac_settings t))) (t\<lparr>ac_client := True\<rparr>) else t)\<lparr>ac_accept_op := Some i\<rparr>"
  have "ac_busy (if ac_state u = Ac_idle then ac_do_connect r u else if ac_tunnel u \<noteq> None then ac_do_accept u else u)"
    if c: "\<not> op_cancelled (ac_ops s ! i)" "ac_accept_op s = None" "ac_state s = Ac_null \<longrightarrow> op_reserved (ac_ops s ! i)"
  proof -
    have tc: "ac_client t = ac_client s" by (simp add: t_def)
    have k: "ac_keep [] u"
      by (rule keep_then [OF keep_start [OF assms(1) c t_def]]) (simp add: u_def keep_view_def ac_act_def tc)
    have b: "ac_base [] u" using assms(2) c(2) by (auto simp: ac_busy_def ac_base_def u_def t_def ac_act_def)
    have f: "ac_out u = ac_out s" "ac_state u = (if ac_state s = Ac_null then Ac_idle else ac_state s)" "ac_tunnel u = ac_tunnel s" "ac_closing u = ac_closing s"
        "ac_wait u = ac_wait s"
      by (simp_all add: u_def t_def ac_act_def)
    have conn: "over ac_conn (ac_out u) = []" if "ac_state u = Ac_idle" using assms(2) that by (auto simp: ac_busy_def ac_conn_ok_def f split: if_splits)
    have parts: "ac_conn_ok u" "ac_idle_ok u" "ac_create_ok u" if "ac_state u \<noteq> Ac_idle"
      using assms(2) that by (auto simp: ac_busy_def ac_conn_ok_def ac_idle_ok_def ac_create_ok_def f split: if_splits)
    have "ac_busy u" if "ac_state u \<noteq> Ac_idle" "ac_tunnel u = None" using parts [OF that(1)] b that by (simp add: ac_busy_def ac_accept_ok_def)
    then show ?thesis using do_connect_busy [OF k b _ conn] do_accept_busy [OF k b parts] by simp
  qed
  then show ?thesis using complete_busy(2) [OF assms(2)] complete_busy(2) release_busy assms(2)
    unfolding ac_async_accept_internal_def Let_def t_def [symmetric] u_def [symmetric] by simp
qed

lemma cancel_accept_busy:
  assumes "ac_keep [] s" and "ac_busy s"
  shows "ac_busy (ac_cancel_accept i s)"
proof -
  have "ac_busy (ac_act (Aa_cancel_emit i) s)" using assms(2) by (simp add: busy_defs ac_act_def)
  moreover have "ac_busy (s\<lparr>ac_accept_op := None\<rparr>)" if "ac_accept_op s = Some i" "\<not> op_accepting (ac_ops s ! i)"
  proof -
    have "ac_base [] (s\<lparr>ac_accept_op := None\<rparr>)" using assms(2) that by (auto simp: ac_busy_def ac_base_def)
    then show ?thesis using assms(2) by (simp add: ac_busy_def ac_conn_ok_def ac_idle_ok_def ac_create_ok_def ac_accept_ok_def)
  qed
  ultimately show ?thesis using assms(2) complete_busy(2) release_busy by (simp add: ac_cancel_accept_def)
qed

lemma close_internal_busy:
  assumes "ac_keep [] s" and "ac_base [] s" and "ac_conn_ok s" and "ac_create_ok s" and "ac_accept_ok s"
  shows "ac_busy (ac_close_internal s)"
proof -
  have "ac_busy (ac_on_close ec_ok s)" if "ac_state s = Ac_idle" by (rule on_close_busy [OF assms(1,2)]) (use assms(3) that in \<open>simp add: ac_conn_ok_def\<close>)
  moreover have "ac_busy (ac_call Aa_client_close s)" if "ac_state s \<noteq> Ac_null" "ac_state s \<noteq> Ac_idle"
    using assms keep_client [OF assms(1)] that by (simp add: busy_defs ac_call_def ac_act_def)
  moreover have "ac_busy (s\<lparr>ac_closing := False\<rparr>)" if "ac_state s = Ac_null" using assms that by (simp add: busy_defs)
  ultimately show ?thesis by (simp add: ac_close_internal_def)
qed

lemma calls_busy:
  assumes "ac_busy s"
  shows "ac_busy (snd (ac_set_settings st s))" "ac_busy (snd (ac_set_control_callbacks cbs s))" "ac_busy (snd (ac_bind ep s))"
    "ac_busy (ac_close s)" "ac_busy (ac_begin (Ap_job j) s)" "ac_busy (ac_slot_accept i s)"
proof -
  show "ac_busy (snd (ac_set_settings st s))" "ac_busy (snd (ac_set_control_callbacks cbs s))" "ac_busy (snd (ac_bind ep s))"
    using assms by (simp_all add: ac_set_settings_def ac_set_control_callbacks_def ac_bind_def busy_defs)
  have job: "ac_busy (ac_begin (Ap_job j) s)" if "ac_busy s" for s j using that by (auto simp: busy_defs ac_begin_def)
  then show "ac_busy (ac_begin (Ap_job j) s)" using assms .
  show "ac_busy (ac_close s)" using assms by (auto simp: ac_close_def busy_defs ac_begin_def)
  have "op_completed ((ac_ops s)[i := (ac_ops s ! i)\<lparr>op_cancelled := True\<rparr>] ! j) = op_completed (ac_ops s ! j)"
      "op_accepting ((ac_ops s)[i := (ac_ops s ! i)\<lparr>op_cancelled := True\<rparr>] ! j) = op_accepting (ac_ops s ! j)" for j
    by (auto simp: nth_update_if)
  then have "ac_busy (ac_upd i (\<lambda>x. x\<lparr>op_cancelled := True\<rparr>) s)" using assms by (simp add: busy_defs ac_upd_def)
  then show "ac_busy (ac_slot_accept i s)" using assms job by (simp add: ac_slot_accept_def)
qed

lemma async_accept_busy:
  assumes "ac_keep [] s" and "ac_busy s"
  shows "ac_busy (ac_async_accept s)"
proof -
  define op where "op = ac_new_op s"
  have op: "\<not> op_accepting op" by (simp add: op_def ac_new_op_def Let_def split: option.splits)
  then have "{j. j < Suc (length (ac_ops s)) \<and> op_accepting ((ac_ops s @ [op]) ! j)} = {j. j < length (ac_ops s) \<and> op_accepting (ac_ops s ! j)}"
    by (auto simp: nth_append less_Suc_eq)
  then have base: "ac_base [] (s\<lparr>ac_ops := ac_ops s @ [op]\<rparr>)" using assms(2) op by (auto simp: ac_busy_def ac_base_def nth_append less_Suc_eq)
  have "ac_accept_ok (s\<lparr>ac_ops := ac_ops s @ [op]\<rparr>)"
    using assms(2) keep_current [OF assms(1)] by (auto simp: ac_busy_def ac_accept_ok_def nth_append)
  with base have busy: "ac_busy (s\<lparr>ac_ops := ac_ops s @ [op]\<rparr>)" using assms(2) by (simp add: ac_busy_def ac_conn_ok_def ac_idle_ok_def ac_create_ok_def)
  then have "ac_busy (s\<lparr>ac_ops := ac_ops s @ [op], ac_is_state_non_null := x, ac_start_pending := y\<rparr>)" for x y by (simp add: busy_defs)
  with busy calls_busy(5) show ?thesis by (simp add: ac_async_accept_def op_def [symmetric] Let_def)
qed

section \<open>Every event keeps the invariants\<close>

lemma remove_at_keeps: "k < length xs \<Longrightarrow> x \<in> set xs \<Longrightarrow> x \<noteq> xs ! k \<Longrightarrow> x \<in> set (remove_at k xs)"
proof -
  assume "k < length xs" "x \<in> set xs" "x \<noteq> xs ! k"
  then have "x \<in> set (take k xs @ xs ! k # drop (Suc k) xs)" using out_split [of k xs] by simp
  then show ?thesis using \<open>x \<noteq> xs ! k\<close> by (simp add: remove_at_def)
qed

lemma base_remove:
  assumes "ac_base [] s" and "k < length (ac_out s)" and "\<And>n. ac_out s ! k = Ap_timer n \<Longrightarrow> w \<noteq> Some n" and "w = None \<or> w = ac_wait s"
  shows "ac_base (ac_flight (ac_out s ! k)) (s\<lparr>ac_out := remove_at k (ac_out s), ac_wait := w\<rparr>)"
proof -
  let ?x = "ac_flight (ac_out s ! k)"
  obtain as bs where p: "over ac_flight (ac_out s) = as @ ?x @ bs" "?x @ over ac_flight (remove_at k (ac_out s)) = ?x @ as @ bs"
    using remove_at_project [OF assms(2), of ac_flight] by auto
  have "Ap_timer n \<in> set (remove_at k (ac_out s))" if "w = Some n" for n
  proof (rule remove_at_keeps [OF assms(2)])
    show "Ap_timer n \<in> set (ac_out s)" using assms(1,4) that by (auto simp: ac_base_def)
    show "Ap_timer n \<noteq> ac_out s ! k" using assms(3) [of n] that by metis
  qed
  moreover have "distinct (?x @ as @ bs)" "set (?x @ as @ bs) = set (as @ ?x @ bs)"
    using assms(1) unfolding ac_base_def append_Nil p(1) by auto
  moreover obtain t where t: "t = s\<lparr>ac_out := remove_at k (ac_out s), ac_wait := w\<rparr>" by blast
  moreover have "ac_out t = remove_at k (ac_out s)" "ac_wait t = w" "ac_ops t = ac_ops s" "ac_accept_op t = ac_accept_op s" "ac_tunnel t = ac_tunnel s"
      "ac_state t = ac_state s" "ac_fault t = ac_fault s" by (simp_all add: t)
  ultimately show ?thesis using assms(1) unfolding t [symmetric] ac_base_def append_Nil by (simp only: p) simp
qed

lemma parts_remove:
  assumes "ac_busy s" and "k < length (ac_out s)" and "t = s\<lparr>ac_out := remove_at k (ac_out s)\<rparr>" and "x = ac_out s ! k"
  shows "(\<And>n. x = Ap_timer n \<Longrightarrow> ac_wait s \<noteq> Some n) \<Longrightarrow> ac_base (ac_flight x) t" "ac_conn x = [] \<Longrightarrow> ac_conn_ok t"
    "x = Ap_connect \<Longrightarrow> ac_state t = Ac_connecting \<and> over ac_conn (ac_out t) = []" "x \<noteq> Ap_job Aj_close \<Longrightarrow> ac_idle_ok t"
    "x \<noteq> Ap_create \<Longrightarrow> ac_create_ok t" "ac_accept_ok t"
proof -
  note keeps = remove_at_keeps [OF assms(2)]
  show "ac_base (ac_flight x) t" if "\<And>n. x = Ap_timer n \<Longrightarrow> ac_wait s \<noteq> Some n"
    using base_remove [of s k "ac_wait s"] assms that by (simp add: ac_busy_def)
  obtain as bs where p: "over ac_conn (ac_out s) = as @ ac_conn x @ bs" "over ac_conn (ac_out t) = as @ bs"
    using remove_at_project [OF assms(2), of ac_conn] assms(3,4) by auto
  have st: "ac_state t = ac_state s" using assms(3) by simp
  have conn: "over ac_conn (ac_out s) = (if ac_state s = Ac_connecting then [()] else [])" using assms(1) by (simp add: ac_busy_def ac_conn_ok_def)
  show "ac_conn x = [] \<Longrightarrow> ac_conn_ok t" using conn unfolding ac_conn_ok_def p st by simp
  show "x = Ap_connect \<Longrightarrow> ac_state t = Ac_connecting \<and> over ac_conn (ac_out t) = []"
    using conn unfolding p st by (auto simp: append_eq_Cons_conv split: if_splits)
  show "x \<noteq> Ap_job Aj_close \<Longrightarrow> ac_idle_ok t" using assms(1,3,4) keeps [of "Ap_job Aj_close"] by (auto simp: ac_busy_def ac_idle_ok_def)
  show "x \<noteq> Ap_create \<Longrightarrow> ac_create_ok t" using assms(1,3,4) keeps [of Ap_create] by (auto simp: ac_busy_def ac_create_ok_def)
  show "ac_accept_ok t" using assms(1,3) by (simp add: ac_busy_def ac_accept_ok_def)
qed

lemma timer_busy:
  assumes "ac_keep [] s" and "ac_busy s" and "k < length (ac_out s)" and "ac_out s ! k = Ap_timer n" and "t = s\<lparr>ac_out := remove_at k (ac_out s)\<rparr>"
  shows "ac_keep [] (ac_answer p r (Ap_timer n) t)" "ac_busy (ac_answer p r (Ap_timer n) t)"
proof -
  have k: "ac_keep [] t" using keep_remove [OF assms(1,3)] assms(4,5) by simp
  have k': "ac_keep [] (t\<lparr>ac_wait := None\<rparr>)" by (rule keep_then [OF k]) simp
  show "ac_keep [] (ac_answer p r (Ap_timer n) t)" using keep_client_answers(4) [OF k] keep_client_answers(4) [OF k'] by simp
  note parts = parts_remove [OF assms(2,3,5) refl, unfolded assms(4)]
  have closing: "ac_state t = Ac_idle \<and> ac_closing t \<longrightarrow> Ap_job Aj_close \<in> set (ac_out t)" using parts(4) by (auto simp: ac_idle_ok_def)
  have wait: "ac_wait t = ac_wait s" using assms(5) by simp
  show "ac_busy (ac_answer p r (Ap_timer n) t)"
  proof (cases "ac_wait s = Some n")
    case True
    have "ac_base [] (t\<lparr>ac_wait := None\<rparr>)" using base_remove [of s k None] assms(2-5) by (simp add: ac_busy_def)
    then have "ac_busy (ac_on_timer_cb p r ec_ok (t\<lparr>ac_wait := None\<rparr>))"
      by (intro on_timer_busy [OF k']) (use parts(2,6) closing in \<open>simp_all add: ac_conn_ok_def ac_accept_ok_def ec_ok_def\<close>)
    with True wait show ?thesis by simp
  next
    case False
    then have "ac_base [] t" using parts(1) by simp
    moreover from this have "ac_busy t" using parts by (simp add: ac_busy_def)
    ultimately have "ac_busy (ac_on_timer_cb p r ec t)" for ec by (intro on_timer_busy [OF k]) (use parts(2,6) closing in simp_all)
    with False wait show ?thesis by simp
  qed
qed

definition ac_inv :: "acceptor \<Rightarrow> bool" where
  "ac_inv s \<longleftrightarrow> ac_keep [] s \<and> ac_busy s"

lemma job_inv:
  assumes "ac_inv s" and "k < length (ac_out s)" and "ac_out s ! k = Ap_job j" and "t = s\<lparr>ac_out := remove_at k (ac_out s)\<rparr>"
  shows "ac_inv (ac_job p r j t)"
proof -
  have s: "ac_keep [] s" "ac_busy s" using assms(1) by (simp_all add: ac_inv_def)
  note k = keep_remove [OF s(1) assms(2), folded assms(4), unfolded assms(3)]
  note parts = parts_remove [OF s(2) assms(2,4) refl, unfolded assms(3)]
  have base: "ac_base [] t" "ac_conn_ok t" using parts(1,2) by simp_all
  have busy: "ac_busy t" if "j \<noteq> Aj_close" using base parts that by (simp add: ac_busy_def)
  show ?thesis
  proof (cases j)
    case (Aj_accept i)
    with k busy show ?thesis using keep_async_accept_internal accept_internal_busy by (simp add: ac_inv_def)
  next
    case (Aj_cancel i)
    then have kt: "ac_keep [] t" using k by simp
    have "i \<in> set (over ac_accept_job (ac_out t))" if "ac_accept_op t \<noteq> Some i" "i < length (ac_ops t)" "\<not> op_completed (ac_ops t ! i)" for i
      using ops_ok_waits [of "map op_completed (ac_ops t)" "over ac_accept_job (ac_out t)" "set_option (ac_accept_op t)" _ i] kt that
      unfolding ac_keep_def ac_ops_inv_def by auto
    then have "ac_keep [] (ac_cancel_accept i t)" by (rule keep_cancel_accept [OF kt])
    with Aj_cancel cancel_accept_busy [OF kt busy] show ?thesis by (simp add: ac_inv_def)
  next
    case Aj_close
    with k have "ac_keep [] t" by simp
    with Aj_close show ?thesis using keep_simple(2) close_internal_busy base parts(5,6) by (simp add: ac_inv_def)
  next
    case (Aj_disconnection ec)
    with k busy show ?thesis using keep_client_answers(2) on_disconnection_busy by (simp add: ac_inv_def)
  next
    case (Aj_status st)
    with k busy show ?thesis using keep_client_answers(3) on_status_busy by (simp add: ac_inv_def)
  qed
qed

lemma answer_inv:
  assumes "ac_inv s" and "k < length (ac_out s)"
  shows "ac_inv (ac_answer p r (ac_out s ! k) (s\<lparr>ac_out := remove_at k (ac_out s)\<rparr>))"
proof -
  have s: "ac_keep [] s" "ac_busy s" using assms(1) by (simp_all add: ac_inv_def)
  define t where "t = s\<lparr>ac_out := remove_at k (ac_out s)\<rparr>"
  note k = keep_remove [OF s(1) assms(2), folded t_def]
  note parts = parts_remove [OF s(2) assms(2) t_def refl]
  show ?thesis unfolding t_def [symmetric]
  proof (cases "ac_out s ! k")
    case (Ap_job j)
    with job_inv [OF assms Ap_job t_def] show "ac_inv (ac_answer p r (ac_out s ! k) t)" by simp
  next
    case Ap_connect
    with k parts(1,3) show "ac_inv (ac_answer p r (ac_out s ! k) t)" using keep_client_answers(1) on_connect_busy by (simp add: ac_inv_def)
  next
    case Ap_create
    with k parts show "ac_inv (ac_answer p r (ac_out s ! k) t)" using keep_on_create_tunnel on_create_busy by (simp add: ac_inv_def ac_rest_def)
  next
    case (Ap_accept i)
    with parts have b: "ac_base [i] t" "ac_conn_ok t" "ac_idle_ok t" "ac_create_ok t" "ac_accept_ok t" by simp_all
    then have "i < length (ac_ops t) \<and> (op_completed (ac_ops t ! i) \<or> ac_accept_op t = Some i)" by (auto simp: ac_base_def)
    with Ap_accept k b show "ac_inv (ac_answer p r (ac_out s ! k) t)" using keep_on_accept on_accept_busy by (simp add: ac_inv_def)
  next
    case (Ap_timer n)
    show "ac_inv (ac_answer p r (ac_out s ! k) t)" unfolding Ap_timer ac_inv_def by (intro conjI timer_busy [OF s assms(2) Ap_timer t_def])
  qed
qed

lemma ac_event_inv: "ac_inv s \<Longrightarrow> ac_inv (ac_event p e s)"
proof (cases e)
  case (Ae_reply k r)
  then show "ac_inv s \<Longrightarrow> ac_inv (ac_event p e s)" using answer_inv by simp
qed (use keep_calls keep_async_accept keep_slot_accept calls_busy async_accept_busy keep_then in \<open>auto simp: ac_inv_def\<close>)

interpretation acm: invariant_machine "ac_event p" ac_inv for p
  by unfold_locales (rule ac_event_inv)

lemma ac_run_inv: "ac_inv (ac_run p st es)"
  unfolding ac_run_def by (rule acm.run_inv) (simp add: ac_inv_def keep_init busy_init)

end
