(* ===== verification/AcceptorPolicy.thy ===== *)
theory AcceptorPolicy
  imports AcceptorWaits
begin

text \<open>
  The properties of the acceptor over every interleaving: each accept is answered exactly once, an accept
  that has not been answered is always a few answers of the client away from its own, and the settings and
  the endpoint that were checked are those in use while the acceptor runs. At the end a run that shows how
  a wait of the timer outlives the state it was started in.
\<close>

section \<open>Progress\<close>

text \<open>An accept can be answered within \<open>n\<close> answers of the client, the timer and the strand.\<close>

definition ac_reaches :: "acceptor_params \<Rightarrow> nat \<Rightarrow> nat \<Rightarrow> acceptor \<Rightarrow> bool" where
  "ac_reaches p n i s \<longleftrightarrow>
     (\<exists>rs. length rs \<le> n \<and> i \<in> set (over ac_done_id (ac_log (fold (ac_event p) (map (\<lambda>(k, r). Ae_reply k r) rs) s))))"

lemma reaches_done: "i \<in> set (over ac_done_id (ac_log s)) \<Longrightarrow> ac_reaches p n i s"
  unfolding ac_reaches_def by (rule exI [of _ "[]"]) simp

lemma reaches_mono: "ac_reaches p n i s \<Longrightarrow> n \<le> m \<Longrightarrow> ac_reaches p m i s"
  unfolding ac_reaches_def using le_trans by blast

lemma reaches_step: "ac_reaches p n i (ac_event p (Ae_reply k r) s) \<Longrightarrow> ac_reaches p (Suc n) i s"
  unfolding ac_reaches_def
proof (elim exE conjE)
  fix rs
  assume "length rs \<le> n" "i \<in> set (over ac_done_id (ac_log (fold (ac_event p) (map (\<lambda>(k, r). Ae_reply k r) rs) (ac_event p (Ae_reply k r) s))))"
  then show "\<exists>rs. length rs \<le> Suc n \<and> i \<in> set (over ac_done_id (ac_log (fold (ac_event p) (map (\<lambda>(k, r). Ae_reply k r) rs) s)))"
    by (intro exI [of _ "(k, r) # rs"]) (simp only: list.size list.map fold_Cons prod.case o_apply, simp)
qed

text \<open>Every entry of the list of what waits can be answered next.\<close>

lemma reaches_reply:
  assumes "ac_inv s" and "x \<in> set (ac_out s)"
    and "\<And>k t. t = s\<lparr>ac_out := remove_at k (ac_out s)\<rparr> \<Longrightarrow> ac_inv (ac_answer p r x t) \<Longrightarrow> ac_reaches p n i (ac_answer p r x t)"
  shows "ac_reaches p (Suc n) i s"
proof -
  obtain k where k: "k < length (ac_out s)" "ac_out s ! k = x" using assms(2) by (auto simp: in_set_conv_nth)
  from answer_inv [OF assms(1) k(1), of p r] assms(3) [OF refl, of k] k show ?thesis by (intro reaches_step [of _ _ _ k r]) simp
qed

definition ac_fine :: "tunnel \<Rightarrow> ac_reply" where
  "ac_fine t = \<lparr>ar_error_code = ec_ok, ar_tunnel = t, ar_callbacks_error = ec_ok, ar_random = [], ar_close_first = False, ar_close_second = False\<rparr>"

lemma fine_simps [simp]:
  "ar_error_code (ac_fine t) = ec_ok" "ar_tunnel (ac_fine t) = t" "ar_callbacks_error (ac_fine t) = ec_ok" "\<not> ar_close_first (ac_fine t)"
  "\<not> ar_close_second (ac_fine t)" "\<not> ec_failed ec_ok"
  by (simp_all add: ac_fine_def ec_ok_def)

lemma quiet_notify [simp]:
  "ac_state (ac_notify_status False s) = ac_state s" "ac_closing (ac_notify_status False s) = ac_closing s" "ac_tunnel (ac_notify_status False s) = ac_tunnel s"
  "ac_accept_op (ac_notify_status False s) = ac_accept_op s" "ac_wait (ac_notify_status False s) = ac_wait s" "ac_out (ac_notify_status False s) = ac_out s"
  by (simp_all add: ac_notify_status_def ac_reenter_def ac_act_def split: option.splits)

lemma do_accept_fields [simp]:
  "ac_state (ac_do_accept s) = ac_state s" "ac_closing (ac_do_accept s) = ac_closing s" "ac_tunnel (ac_do_accept s) = ac_tunnel s"
  "ac_accept_op (ac_do_accept s) = ac_accept_op s"
  by (simp_all add: ac_do_accept_def ac_begin_def ac_act_def ac_upd_def split: option.splits)

lemma do_create_fields [simp]:
  "ac_state (ac_do_create_tunnel p r s) = ac_state s" "ac_closing (ac_do_create_tunnel p r s) = ac_closing s"
  "ac_tunnel (ac_do_create_tunnel p r s) = ac_tunnel s" "ac_accept_op (ac_do_create_tunnel p r s) = ac_accept_op s"
  "ac_state s = Ac_connected \<Longrightarrow> \<not> ac_closing s \<Longrightarrow> Ap_create \<in> set (ac_out (ac_do_create_tunnel p r s))"
  by (simp_all add: ac_do_create_tunnel_def ac_begin_def ac_act_def ac_call_def Let_def split: prod.splits)

lemma do_connect_fields:
  "ac_state s = Ac_idle \<Longrightarrow> \<not> ec_failed (ar_callbacks_error r) \<Longrightarrow> ac_state (ac_do_connect r s) = Ac_connecting \<and>
     ac_closing (ac_do_connect r s) = ac_closing s \<and> ac_accept_op (ac_do_connect r s) = ac_accept_op s"
  by (simp add: ac_do_connect_def ac_begin_def ac_act_def ac_call_def Let_def)

lemma current_open: "ac_inv s \<Longrightarrow> ac_accept_op s = Some i \<Longrightarrow> i < length (ac_ops s) \<and> \<not> op_completed (ac_ops s ! i)"
  using keep_current by (auto simp: ac_inv_def)

lemma ac_flight_in: "i \<in> set (ac_flight x) \<Longrightarrow> (x = Ap_accept i \<Longrightarrow> P) \<Longrightarrow> P"
  by (cases x rule: ac_flight.cases) simp_all

lemma online_fields:
  assumes "ac_state s = Ac_connected" and "\<not> ac_closing s" and "\<not> ar_close_second r"
  shows "ac_state (ac_online p r q s) = Ac_connected" "\<not> ac_closing (ac_online p r q s)" "ac_tunnel (ac_online p r q s) = ac_tunnel s"
    "ac_accept_op (ac_online p r q s) = ac_accept_op s"
proof -
  define y where "y = \<lparr>sd_status = ac_server_status s, sd_text = Some ''online'', sd_tunnel_id = m_id q,
      sd_forwarding = (case format_forwarding_address q of Inl _ \<Rightarrow> None | Inr f \<Rightarrow> Some f)\<rparr>"
  have eq: "ac_online p r q s = (let t = ac_notify_status False (s\<lparr>ac_status := y\<rparr>) in
      if ac_state t \<noteq> Ac_connected \<or> ac_closing t then t else if ac_accept_op t \<noteq> None then ac_do_accept t else t)"
    using assms unfolding ac_online_def y_def by (simp add: Let_def)
  show "ac_state (ac_online p r q s) = Ac_connected" "\<not> ac_closing (ac_online p r q s)" "ac_tunnel (ac_online p r q s) = ac_tunnel s"
    "ac_accept_op (ac_online p r q s) = ac_accept_op s"
    unfolding eq Let_def using assms by simp_all
qed

lemma reach_tunnel:
  assumes "ac_inv s" and "ac_accept_op s = Some i" and "\<not> ac_closing s" and "ac_state s = Ac_connected" and "ac_tunnel s \<noteq> None"
  shows "ac_reaches p 1 i s"
proof -
  note cur = current_open [OF assms(1,2)]
  have "op_accepting (ac_ops s ! i)" using assms by (simp add: ac_inv_def ac_busy_def ac_accept_ok_def)
  then have "i \<in> set (over ac_flight (ac_out s))" using assms(1) cur unfolding ac_inv_def ac_busy_def ac_base_def by simp
  then have x: "Ap_accept i \<in> set (ac_out s)" by (auto elim!: ac_flight_in)
  have "ac_reaches p 0 i (ac_answer p (ac_fine t) (Ap_accept i) u)" if "u = s\<lparr>ac_out := remove_at k (ac_out s)\<rparr>" for k t u
    using assms cur that by (intro reaches_done) (simp add: ac_on_accept_def ac_upd_def ac_complete_accept_def ac_act_def Let_def)
  from reaches_reply [OF assms(1) x, where n = 0, OF this] show ?thesis by simp
qed

lemma reach_create:
  assumes "ac_inv s" and "ac_accept_op s = Some i" and "\<not> ac_closing s" and "ac_state s = Ac_connected" and "Ap_create \<in> set (ac_out s)"
  shows "ac_reaches p 2 i s"
proof -
  have "ac_reaches p 1 i (ac_answer p (ac_fine t) Ap_create u)"
    if u: "u = s\<lparr>ac_out := remove_at k (ac_out s)\<rparr>" and inv: "ac_inv (ac_answer p (ac_fine t) Ap_create u)" for k t u
  proof (rule reach_tunnel [OF inv])
    define v where "v = (if m_id (tu_properties t) = None then u\<lparr>ac_tunnel := Some t\<rparr>
        else case ab_on_tunnel_properties (ac_callbacks u) of None \<Rightarrow> u\<lparr>ac_tunnel := Some t\<rparr>
             | Some k \<Rightarrow> ac_act (Aa_tunnel_properties k (tu_properties t)) (u\<lparr>ac_tunnel := Some t\<rparr>))"
    have v: "ac_state v = Ac_connected" "\<not> ac_closing v" "ac_tunnel v = Some t" "ac_accept_op v = Some i"
      using assms u by (simp_all add: v_def ac_act_def split: option.splits)
    have eq: "ac_answer p (ac_fine t) Ap_create u = ac_online p (ac_fine t) (tu_properties t) v"
      using assms(4) u by (simp add: ac_on_create_tunnel_def v_def ac_reenter_def Let_def split: option.splits)
    show "ac_accept_op (ac_answer p (ac_fine t) Ap_create u) = Some i" "\<not> ac_closing (ac_answer p (ac_fine t) Ap_create u)"
        "ac_state (ac_answer p (ac_fine t) Ap_create u) = Ac_connected" "ac_tunnel (ac_answer p (ac_fine t) Ap_create u) \<noteq> None"
      unfolding eq using online_fields [OF v(1,2)] v(3,4) by simp_all
  qed
  from reaches_reply [OF assms(1,5) this] show ?thesis by (simp only: Suc_1)
qed

lemma reach_after_create:
  assumes "ac_inv s" and "x \<in> set (ac_out s)"
    and "\<And>k. \<exists>u. ac_answer p (ac_fine t) x (s\<lparr>ac_out := remove_at k (ac_out s)\<rparr>) = ac_do_create_tunnel p (ac_fine t) u
      \<and> ac_state u = Ac_connected \<and> \<not> ac_closing u \<and> ac_accept_op u = Some i"
  shows "ac_reaches p 3 i s"
proof -
  have "ac_reaches p 2 i (ac_answer p (ac_fine t) x v)"
    if v: "v = s\<lparr>ac_out := remove_at k (ac_out s)\<rparr>" and inv: "ac_inv (ac_answer p (ac_fine t) x v)" for k v
  proof -
    obtain u where u: "ac_answer p (ac_fine t) x v = ac_do_create_tunnel p (ac_fine t) u" "ac_state u = Ac_connected" "\<not> ac_closing u" "ac_accept_op u = Some i"
      using assms(3) [of k] v by auto
    show ?thesis unfolding u(1) by (rule reach_create) (use inv u in simp_all)
  qed
  from reaches_reply [OF assms(1,2) this] show ?thesis by (simp only: numeral_nat)
qed

lemma reach_running:
  assumes "ac_inv s" and "ac_accept_op s = Some i" and "\<not> ac_closing s" and "ac_state s \<noteq> Ac_idle"
  shows "ac_reaches p 3 i s"
proof -
  fix t :: tunnel
  have null: "ac_state s \<noteq> Ac_null" using assms(1,2) by (auto simp: ac_inv_def ac_keep_def ac_reserve_inv_def)
  have busy: "ac_base [] s" "ac_conn_ok s" "ac_create_ok s" using assms(1) by (simp_all add: ac_inv_def ac_busy_def)
  show ?thesis
  proof (cases "ac_state s")
    case Ac_connecting
    then have "() \<in> set (over ac_conn (ac_out s))" using busy(2) unfolding ac_conn_ok_def by simp
    then obtain x where x: "x \<in> set (ac_out s)" "ac_conn x \<noteq> []" by fastforce
    then have "x = Ap_connect" by (cases x rule: ac_conn.cases) simp_all
    with x(1) show ?thesis
      by (intro reach_after_create [OF assms(1), of Ap_connect p t])
        (use Ac_connecting assms in \<open>auto simp: ac_on_connect_def\<close>)
  next
    case Ac_connected
    consider (tunnel) "ac_tunnel s \<noteq> None" | (create) "Ap_create \<in> set (ac_out s)" | (wait) n where "ac_wait s = Some n"
      using busy(3) Ac_connected assms(3) by (auto simp: ac_create_ok_def)
    then show ?thesis
    proof cases
      case tunnel
      from reach_tunnel [OF assms(1-3) Ac_connected tunnel] show ?thesis by (rule reaches_mono) simp
    next
      case create
      from reach_create [OF assms(1-3) Ac_connected create] show ?thesis by (rule reaches_mono) simp
    next
      case wait
      then have "Ap_timer n \<in> set (ac_out s)" using busy(1) by (simp add: ac_base_def)
      then show ?thesis
        by (intro reach_after_create [OF assms(1), of "Ap_timer n" p t])
          (use Ac_connected wait assms in \<open>auto simp: ac_on_timer_cb_def\<close>)
    qed
  qed (use null assms(4) in simp_all)
qed

lemma reach_current:
  assumes "ac_inv s" and "ac_accept_op s = Some i" and "\<not> ac_closing s"
  shows "ac_reaches p 4 i s"
proof (cases "ac_state s = Ac_idle")
  case False
  from reach_running [OF assms this] show ?thesis by (rule reaches_mono) simp
next
  case True
  fix t :: tunnel
  note cur = current_open [OF assms(1,2)]
  have four: "(4::nat) = Suc 3" by simp
  have busy: "ac_base [] s" "ac_idle_ok s" using assms(1) by (simp_all add: ac_inv_def ac_busy_def)
  show ?thesis
  proof (cases "Ap_job Aj_close \<in> set (ac_out s)")
    case close: True
    have "ac_client s" using keep_client assms(1) True by (auto simp: ac_inv_def)
    then have "ac_reaches p 3 i (ac_answer p (ac_fine t) (Ap_job Aj_close) u)" if "u = s\<lparr>ac_out := remove_at k (ac_out s)\<rparr>" for k u
      using True assms cur that by (intro reaches_done) (simp add: ac_close_internal_def ac_on_close_def ac_call_def ac_act_def ac_complete_accept_def ac_upd_def Let_def)
    from reaches_reply [OF assms(1) close, where n = 3, OF this] show ?thesis unfolding four .
  next
    case False
    then obtain n where n: "ac_wait s = Some n" using busy(2) True by (auto simp: ac_idle_ok_def)
    then have x: "Ap_timer n \<in> set (ac_out s)" using busy(1) by (simp add: ac_base_def)
    have "ac_reaches p 3 i (ac_answer p (ac_fine t) (Ap_timer n) u)"
      if "u = s\<lparr>ac_out := remove_at k (ac_out s)\<rparr>" "ac_inv (ac_answer p (ac_fine t) (Ap_timer n) u)" for k u
    proof -
      have eq: "ac_answer p (ac_fine t) (Ap_timer n) u = ac_do_connect (ac_fine t) (u\<lparr>ac_wait := None\<rparr>)"
        using that(1) n True assms(3) by (simp add: ac_on_timer_cb_def)
      show ?thesis using that(2) do_connect_fields [of "u\<lparr>ac_wait := None\<rparr>" "ac_fine t"] True assms(2,3) that(1)
        unfolding eq by (intro reach_running) simp_all
    qed
    from reaches_reply [OF assms(1) x, where n = 3, OF this] show ?thesis unfolding four .
  qed
qed

lemma reach_job:
  assumes "ac_inv s" and "i \<in> set (over ac_accept_job (ac_out s))" and "\<not> op_completed (ac_ops s ! i)" and "\<not> ac_closing s"
  shows "ac_reaches p 4 i s"
proof -
  fix t :: tunnel
  have four: "(4::nat) = Suc 3" by simp
  from assms(2) obtain x where "x \<in> set (ac_out s)" "i \<in> set (ac_accept_job x)" by auto
  moreover from this(2) have "x = Ap_job (Aj_accept i)" by (cases x rule: ac_accept_job.cases) simp_all
  ultimately have x: "Ap_job (Aj_accept i) \<in> set (ac_out s)" by simp
  have "ac_reaches p 3 i (ac_answer p (ac_fine t) (Ap_job (Aj_accept i)) u)"
    if u: "u = s\<lparr>ac_out := remove_at k (ac_out s)\<rparr>" and inv: "ac_inv (ac_answer p (ac_fine t) (Ap_job (Aj_accept i)) u)" for k u
  proof (cases "i \<in> set (over ac_done_id (ac_log (ac_answer p (ac_fine t) (Ap_job (Aj_accept i)) u)))")
    case True
    then show ?thesis by (rule reaches_done)
  next
    case False
    have open_i: "\<not> op_completed (ac_ops v ! i)" if "v = u \<or> v = ac_release_accept_reservation i u" for v
      using that u assms(3) by auto
    define v where "v = (if ac_state u = Ac_null then u\<lparr>ac_start_pending := False, ac_endpoint := op_initial_endpoint (ac_ops u ! i), ac_state := Ac_idle\<rparr> else u)"
    define w where "w = (if \<not> ac_client v then ac_act (Aa_client_new (sa_config (ac_settings v))) (v\<lparr>ac_client := True\<rparr>) else v)\<lparr>ac_accept_op := Some i\<rparr>"
    have eq: "ac_answer p (ac_fine t) (Ap_job (Aj_accept i)) u =
        (if ac_state w = Ac_idle then ac_do_connect (ac_fine t) w else if ac_tunnel w \<noteq> None then ac_do_accept w else w)"
      using False open_i unfolding ac_answer.simps ac_job.simps ac_async_accept_internal_def Let_def v_def [symmetric] w_def [symmetric]
      by (auto simp: ac_complete_accept_def ac_act_def split: if_splits)
    have w: "ac_accept_op w = Some i" "\<not> ac_closing w" using u assms(4) by (simp_all add: w_def v_def ac_act_def)
    show ?thesis unfolding eq
      by (rule reach_running) (use inv [unfolded eq] w do_connect_fields [of w "ac_fine t"] in auto)
  qed
  from reaches_reply [OF assms(1) x this] show ?thesis unfolding four .
qed

section \<open>Properties\<close>

text \<open>
  C10: every accept is answered exactly once. In every interleaving the handlers of accepts are invoked at
  most once each, every accept that was started has been answered, waits for the strand or is the current
  one, and the accepts in flight on a tunnel are distinct operations.
\<close>

theorem acceptor_operations:
  "distinct (over ac_done_id (ac_log (ac_run p st es))) \<and> distinct (over ac_flight (ac_out (ac_run p st es)))
   \<and> set (over ac_done_id (ac_log (ac_run p st es))) \<union> set (over ac_accept_job (ac_out (ac_run p st es)))
       \<union> set_option (ac_accept_op (ac_run p st es)) = {..<length (ac_ops (ac_run p st es))}
   \<and> set_option (ac_accept_op (ac_run p st es)) \<inter> set (over ac_done_id (ac_log (ac_run p st es))) = {}
   \<and> \<not> ac_fault (ac_run p st es)"
proof -
  let ?s = "ac_run p st es"
  have inv: "ac_ops_inv [] ?s" "ac_base [] ?s" using ac_run_inv [of p st es] by (simp_all add: ac_inv_def ac_keep_def ac_busy_def)
  have ok: "ops_ok (map op_completed (ac_ops ?s)) (over ac_accept_job (ac_out ?s)) (set_option (ac_accept_op ?s)) (over ac_done_id (ac_log ?s))"
    using inv(1) unfolding ac_ops_inv_def by simp
  have "set_option (ac_accept_op ?s) \<inter> set (over ac_done_id (ac_log ?s)) = {}"
    using ok inv(1) unfolding ops_ok_def ac_ops_inv_def by auto
  moreover have "set (over ac_done_id (ac_log ?s)) \<union> set (over ac_accept_job (ac_out ?s)) \<union> set_option (ac_accept_op ?s) = {..<length (ac_ops ?s)}"
    using ok unfolding ops_ok_def by auto
  moreover have "distinct (over ac_flight (ac_out ?s))" "\<not> ac_fault ?s" using inv(2) unfolding ac_base_def append_Nil by blast+
  ultimately show ?thesis using ops_ok_once [OF ok] by blast
qed

text \<open>
  C4: the acceptor never gets stuck. In every reachable state of an acceptor that is not being closed, every
  accept has been answered or four answers, of the strand, the timer or the client, are enough for it to be
  answered: the acceptor waits for the event that brings it forward in each of its states, also after failed
  connections, failed tunnels, disconnections and cancellations.
\<close>

theorem acceptor_progress:
  assumes "i < length (ac_ops (ac_run p st es))" and "\<not> ac_closing (ac_run p st es)"
  shows "\<exists>rs. length rs \<le> 4 \<and> i \<in> set (over ac_done_id (ac_log (fold (ac_event p) (map (\<lambda>(k, r). Ae_reply k r) rs) (ac_run p st es))))"
proof -
  let ?s = "ac_run p st es"
  have inv: "ac_inv ?s" by (rule ac_run_inv)
  then have "ac_ops_inv [] ?s" by (simp add: ac_inv_def ac_keep_def)
  then have ok: "ops_ok (map op_completed (ac_ops ?s)) (over ac_accept_job (ac_out ?s)) (set_option (ac_accept_op ?s)) (over ac_done_id (ac_log ?s))"
    unfolding ac_ops_inv_def by simp
  consider (answered) "op_completed (ac_ops ?s ! i)" | (current) "ac_accept_op ?s = Some i"
    | (job) "\<not> op_completed (ac_ops ?s ! i)" "i \<in> set (over ac_accept_job (ac_out ?s))"
    using ops_ok_waits [OF ok, of i] assms(1) by (cases "op_completed (ac_ops ?s ! i)") auto
  then have "ac_reaches p 4 i ?s"
  proof cases
    case answered
    then have "i \<in> set (over ac_done_id (ac_log ?s))" using ok assms(1) unfolding ops_ok_def by simp
    then show ?thesis by (rule reaches_done)
  next
    case current
    from reach_current [OF inv current assms(2)] show ?thesis .
  next
    case job
    from reach_job [OF inv job(2,1) assms(2)] show ?thesis .
  qed
  then show ?thesis unfolding ac_reaches_def .
qed

text \<open>
  While an accept has reserved the acceptor or the acceptor runs, its settings, its endpoint and its
  callbacks cannot be changed, and it contacts only a server that may see its credentials: the endpoint in use
  does not take the server from the URL, unless tokens are switched off or the token comes from the URL too.
\<close>

theorem acceptor_settings_fixed:
  assumes "ac_state (ac_run p st es) \<noteq> Ac_null \<or> ac_start_pending (ac_run p st es)"
  shows "ac_set_settings st' (ac_run p st es) = (rstrm_ec Invalid_state, ac_run p st es)
    \<and> ac_bind ep (ac_run p st es) = (rstrm_ec Invalid_state, ac_run p st es)
    \<and> ac_set_control_callbacks cbs (ac_run p st es) = (rstrm_ec Invalid_state, ac_run p st es)
    \<and> (if ac_state (ac_run p st es) = Ac_null then \<not> ac_client (ac_run p st es)
       else trusted_endpoint (sa_config (ac_settings (ac_run p st es))) (ac_endpoint (ac_run p st es)))"
proof -
  have "ac_reserve_inv [] (ac_run p st es)" using ac_run_inv [of p st es] by (simp add: ac_inv_def ac_keep_def)
  with assms show ?thesis by (auto simp: ac_reserve_inv_def ac_set_settings_def ac_bind_def ac_set_control_callbacks_def)
qed

section \<open>Sample runs\<close>

definition w_acceptor_params :: acceptor_params where
  "w_acceptor_params = \<lparr>ap_ec_message = (\<lambda>_. ''error''), ap_is_ip = (\<lambda>_. False)\<rparr>"

definition w_bound :: endpoint where
  "w_bound = \<lparr>ep_id_name = Some ''t'', ep_server_address = \<lparr>a_str = None, a_host = ''engine'', a_port = ''443'', a_params = []\<rparr>,
     ep_server_address_from_uri_param = False, ep_secret = None, ep_source_ip = None\<rparr>"

definition w_tunnel :: tunnel where
  "w_tunnel = \<lparr>tu_tunnel_id = ''1'', tu_local_endpoint = w_bound, tu_properties = empty_tunnel_properties\<rparr>"

definition w_fails :: ac_reply where
  "w_fails = (ac_fine w_tunnel)\<lparr>ar_error_code := rstrm_ec Invalid_state\<rparr>"

text \<open>The connection fails and the acceptor waits for the timer.\<close>

definition w_waiting :: "acceptor_event list" where
  "w_waiting = [Ae_bind w_bound, Ae_accept, Ae_reply 0 (ac_fine w_tunnel), Ae_reply 0 w_fails]"

lemmas ac_eval = ac_run_def ac_init_def w_acceptor_params_def w_bound_def w_tunnel_def w_fails_def w_waiting_def ac_fine_def ac_bind_def ac_async_accept_def
  ac_new_op_def ac_begin_def ac_act_def ac_upd_def ac_call_def ac_start_timer_def ac_complete_accept_def ac_on_close_def ac_on_error_def ac_close_internal_def
  ac_reenter_def ac_notify_status_def ac_do_connect_def ac_do_reconnect_def ac_do_create_tunnel_def ac_do_recreate_tunnel_def ac_text_def ac_failed_text_def
  ac_on_connect_def ac_do_accept_def ac_online_def ac_on_create_tunnel_def ac_on_accept_def ac_on_timer_cb_def ac_async_accept_internal_def
  ac_cancel_accept_def ac_slot_accept_def ac_release_accept_reservation_def remove_at_def settings_acceptor0_def config_client0_def
  empty_endpoint_def no_acceptor_callbacks_def empty_status_extd_def ec_ok_def rstrm_ec_def asio_operation_aborted_def
  maybe_set_generated_stable_domain_def empty_tunnel_properties_def Let_def

theorem acceptor_progress_witness:
  "0 < length (ac_ops (ac_run w_acceptor_params (settings_acceptor0 True) w_waiting))
   \<and> \<not> ac_closing (ac_run w_acceptor_params (settings_acceptor0 True) w_waiting)
   \<and> ac_accept_op (ac_run w_acceptor_params (settings_acceptor0 True) w_waiting) = Some 0
   \<and> (\<exists>rs. length rs \<le> 4 \<and> 0 \<in> set (over ac_done_id (ac_log (fold (ac_event w_acceptor_params)
         (map (\<lambda>(k, r). Ae_reply k r) rs) (ac_run w_acceptor_params (settings_acceptor0 True) w_waiting)))))"
proof -
  let ?s = "ac_run w_acceptor_params (settings_acceptor0 True) w_waiting"
  have s: "0 < length (ac_ops ?s)" "\<not> ac_closing ?s" "ac_accept_op ?s = Some 0" by (simp_all add: ac_eval)
  from acceptor_progress [OF s(1,2)] s show ?thesis by blast
qed

theorem acceptor_settings_fixed_witness:
  "ac_state (ac_run w_acceptor_params (settings_acceptor0 True) w_waiting) = Ac_idle
   \<and> ac_set_settings (settings_acceptor0 False) (ac_run w_acceptor_params (settings_acceptor0 True) w_waiting)
       = (rstrm_ec Invalid_state, ac_run w_acceptor_params (settings_acceptor0 True) w_waiting)"
proof -
  let ?s = "ac_run w_acceptor_params (settings_acceptor0 True) w_waiting"
  have s: "ac_state ?s = Ac_idle" by (simp add: ac_eval)
  then have "ac_state ?s \<noteq> Ac_null \<or> ac_start_pending ?s" by simp
  from acceptor_settings_fixed [OF this, of "settings_acceptor0 False" w_bound no_acceptor_callbacks] s show ?thesis by blast
qed

text \<open>
  An accept that starts a connection in the idle state leaves the wait of the timer under way. In the run
  below the first accept is cancelled while the acceptor waits to reconnect and a second one connects at
  once; when the timer then fires, the acceptor, connected and with a tunnel being created, asks for a
  second tunnel with the same properties.
\<close>

definition w_second_tunnel :: "acceptor_event list" where
  "w_second_tunnel = w_waiting @ [Ae_slot 0, Ae_reply 1 (ac_fine w_tunnel), Ae_accept, Ae_reply 1 (ac_fine w_tunnel),
     Ae_reply 1 (ac_fine w_tunnel), Ae_reply 0 (ac_fine w_tunnel)]"

lemma acceptor_second_tunnel:
  "ac_out (ac_run w_acceptor_params (settings_acceptor0 True) w_second_tunnel) = [Ap_create, Ap_create]"
  by (simp add: w_second_tunnel_def ac_eval)

end
