(* ===== verification/StunAttribute.thy ===== *)
theory StunAttribute
  imports Payloader
begin

unbundle bit_operations_syntax

text \<open>
  Model of \<open>demo/stun/lib/rstream/stun/attribute.cpp\<close> and of the templates of \<open>helpers/message.hpp\<close>: the
  values of STUN attributes, their sizes, how they are written into a message and read back. A destination
  is a list of bytes of fixed length with an offset, a write outside of it is the error \<open>Out_of_bounds\<close>;
  a source is the content of the memory with an offset. Strings are lists of bytes. Values that the code
  copies without \<open>htons\<close> or \<open>htonl\<close> are written in the order of a little-endian host. The digests of OpenSSL
  and the checksum of Boost are parameters.
\<close>

section \<open>Results\<close>

datatype stun_error =
    Deserialization_error
  | Invalid_stun_attribute
  | Unknown_stun_attribute
  | Unknown_stun_class
  | Unknown_stun_method
  | Invalid_integrity
  | Length_error
  | Runtime_error
  | Out_of_bounds

definition st_then :: "'e + 'a \<Rightarrow> ('a \<Rightarrow> 'e + 'b) \<Rightarrow> 'e + 'b" where
  "st_then r f = (case r of Inl e \<Rightarrow> Inl e | Inr x \<Rightarrow> f x)"

lemma st_then_simps [simp]: "st_then (Inl e) f = Inl e" "st_then (Inr x) f = f x"
  by (simp_all add: st_then_def)

lemma st_then_Inr: "st_then r f = Inr y \<longleftrightarrow> (\<exists>x. r = Inr x \<and> f x = Inr y)"
  by (cases r) (simp_all add: st_then_def)

lemma st_then_cong [fundef_cong]: "r = r' \<Longrightarrow> (\<And>x. r' = Inr x \<Longrightarrow> f x = g x) \<Longrightarrow> st_then r f = st_then r' g"
  by (cases r') (simp_all add: st_then_def)

record stun_params =
  sp_HMAC :: "byte list \<Rightarrow> byte list \<Rightarrow> byte list option"
  sp_md5 :: "byte list \<Rightarrow> byte list option"
  sp_crc32 :: "byte list \<Rightarrow> 32 word"

section \<open>Writing and reading\<close>

type_synonym sink = "byte list \<times> nat"

definition st_put :: "byte list \<Rightarrow> sink \<Rightarrow> stun_error + sink" where
  "st_put bs k = (case k of (dst, offset) \<Rightarrow>
     if offset + length bs \<le> length dst then Inr (write_at offset bs dst, offset + length bs) else Inl Out_of_bounds)"

definition st_get :: "nat \<Rightarrow> byte list \<Rightarrow> nat \<Rightarrow> stun_error + byte list \<times> nat" where
  "st_get diff memory offset =
     (if offset > length memory \<or> diff > length memory - offset then Inl Deserialization_error
      else Inr (take diff (drop offset memory), offset + diff))"

definition checked_length :: "nat \<Rightarrow> 16 word \<Rightarrow> stun_error + 16 word" where
  "checked_length len previous =
     (if len > 2 ^ 16 - 1 - unat previous then Inl Length_error else Inr (of_nat (len + unat previous)))"

text \<open>The memory of \<open>htons(w)\<close>, and that of integers in host order.\<close>

definition htons_bytes :: "16 word \<Rightarrow> byte list" where
  "htons_bytes w = [ucast (drop_bit 8 w), ucast w]"

fun ntohs_bytes :: "byte list \<Rightarrow> 16 word" where
  "ntohs_bytes [a, b] = push_bit 8 (ucast a) OR ucast b"
| "ntohs_bytes _ = 0"

definition host16 :: "16 word \<Rightarrow> byte list" where
  "host16 w = rev (htons_bytes w)"

definition host32 :: "32 word \<Rightarrow> byte list" where
  "host32 w = rev (htonl_bytes w)"

definition host64 :: "64 word \<Rightarrow> byte list" where
  "host64 w = host32 (ucast w) @ host32 (ucast (drop_bit 32 w))"

definition of_host16 :: "byte list \<Rightarrow> 16 word" where
  "of_host16 bs = ntohs_bytes (rev bs)"

definition of_host32 :: "byte list \<Rightarrow> 32 word" where
  "of_host32 bs = ntohl_bytes (rev bs)"

definition of_host64 :: "byte list \<Rightarrow> 64 word" where
  "of_host64 bs = ucast (of_host32 (take 4 bs)) OR push_bit 32 (ucast (of_host32 (drop 4 bs)))"

section \<open>Attributes\<close>

datatype attribute_type =
    T_mapped_address | T_xor_mapped_address | T_username | T_message_integrity | T_fingerprint | T_error_code | T_realm
  | T_nonce | T_unknown_attributes | T_software | T_alternate_server | T_priority | T_use_candidate | T_ice_controlled
  | T_ice_controlling | T_change_request | T_response_port | T_padding | T_cache_timeout | T_response_origin | T_other_address

definition attribute_types :: "attribute_type list" where
  "attribute_types = [T_mapped_address, T_xor_mapped_address, T_username, T_message_integrity, T_fingerprint, T_error_code, T_realm,
     T_nonce, T_unknown_attributes, T_software, T_alternate_server, T_priority, T_use_candidate, T_ice_controlled,
     T_ice_controlling, T_change_request, T_response_port, T_padding, T_cache_timeout, T_response_origin, T_other_address]"

fun get_attribute_msg_type :: "attribute_type \<Rightarrow> 16 word" where
  "get_attribute_msg_type T_mapped_address = 0x0001"
| "get_attribute_msg_type T_xor_mapped_address = 0x0020"
| "get_attribute_msg_type T_username = 0x0006"
| "get_attribute_msg_type T_message_integrity = 0x0008"
| "get_attribute_msg_type T_fingerprint = 0x8028"
| "get_attribute_msg_type T_error_code = 0x0009"
| "get_attribute_msg_type T_realm = 0x0014"
| "get_attribute_msg_type T_nonce = 0x0015"
| "get_attribute_msg_type T_unknown_attributes = 0x000A"
| "get_attribute_msg_type T_software = 0x8022"
| "get_attribute_msg_type T_alternate_server = 0x8023"
| "get_attribute_msg_type T_priority = 0x0024"
| "get_attribute_msg_type T_use_candidate = 0x0025"
| "get_attribute_msg_type T_ice_controlled = 0x8029"
| "get_attribute_msg_type T_ice_controlling = 0x802A"
| "get_attribute_msg_type T_change_request = 0x0003"
| "get_attribute_msg_type T_response_port = 0x0027"
| "get_attribute_msg_type T_padding = 0x0026"
| "get_attribute_msg_type T_cache_timeout = 0x8027"
| "get_attribute_msg_type T_response_origin = 0x802b"
| "get_attribute_msg_type T_other_address = 0x802c"

text \<open>The search of the table in the order of the keys of the map.\<close>

definition get_attribute_type :: "16 word \<Rightarrow> stun_error + attribute_type" where
  "get_attribute_type type =
     (case find (\<lambda>t. get_attribute_msg_type t = type) attribute_types of None \<Rightarrow> Inl Unknown_stun_attribute | Some t \<Rightarrow> Inr t)"

datatype stun_address_family = IPV4 | IPV6

record mapped_address =
  ma_padding :: byte
  ma_family :: stun_address_family
  ma_port :: "16 word"
  ma_address :: "byte list"

datatype message_integrity = Mi_undefined | Mi_input "byte list" | Mi_output "byte list"

record error_code_value =
  ev_code_class :: byte
  ev_code_number :: byte
  ev_reason :: "byte list"

datatype attribute_value =
    Mapped_address mapped_address
  | Xor_mapped_address mapped_address
  | Username "byte list"
  | Message_integrity message_integrity
  | Fingerprint "32 word option"
  | Error_code error_code_value
  | Realm "byte list"
  | Nonce "byte list"
  | Unknown_attributes "16 word list"
  | Software "byte list"
  | Alternate_server mapped_address
  | Priority "32 word"
  | Use_candidate
  | Ice_controlled "64 word"
  | Ice_controlling "64 word"
  | Change_request "32 word"
  | Response_port "16 word"
  | Padding "byte list"
  | Cache_timeout
  | Response_origin mapped_address
  | Other_address mapped_address

text \<open>The type that the table gives for the class of a value.\<close>

fun value_type :: "attribute_value \<Rightarrow> attribute_type" where
  "value_type (Mapped_address _) = T_mapped_address"
| "value_type (Xor_mapped_address _) = T_xor_mapped_address"
| "value_type (Username _) = T_username"
| "value_type (Message_integrity _) = T_message_integrity"
| "value_type (Fingerprint _) = T_fingerprint"
| "value_type (Error_code _) = T_error_code"
| "value_type (Realm _) = T_realm"
| "value_type (Nonce _) = T_nonce"
| "value_type (Unknown_attributes _) = T_unknown_attributes"
| "value_type (Software _) = T_software"
| "value_type (Alternate_server _) = T_alternate_server"
| "value_type (Priority _) = T_priority"
| "value_type Use_candidate = T_use_candidate"
| "value_type (Ice_controlled _) = T_ice_controlled"
| "value_type (Ice_controlling _) = T_ice_controlling"
| "value_type (Change_request _) = T_change_request"
| "value_type (Response_port _) = T_response_port"
| "value_type (Padding _) = T_padding"
| "value_type Cache_timeout = T_cache_timeout"
| "value_type (Response_origin _) = T_response_origin"
| "value_type (Other_address _) = T_other_address"

section \<open>Addresses\<close>

datatype stun_ip = Ip_v4 "32 word" | Ip_v6 "byte list"

definition get_address :: "mapped_address \<Rightarrow> stun_error + stun_ip" where
  "get_address a =
     (if ma_family a = IPV4
      then if 4 \<le> length (ma_address a) then Inr (Ip_v4 (ntohl_bytes (take 4 (ma_address a)))) else Inl Out_of_bounds
      else if 16 \<le> length (ma_address a) then Inr (Ip_v6 (take 16 (ma_address a))) else Inl Out_of_bounds)"

definition set_address :: "stun_ip \<Rightarrow> mapped_address \<Rightarrow> mapped_address" where
  "set_address address a =
     (case address of
        Ip_v4 w \<Rightarrow> a\<lparr>ma_family := IPV4, ma_address := htonl_bytes w\<rparr>
      | Ip_v6 bs \<Rightarrow> a\<lparr>ma_family := IPV6, ma_address := bs\<rparr>)"

text \<open>The mask: the magic and the transaction identifier of the header of the message.\<close>

definition read_mask :: "byte list \<Rightarrow> stun_error + byte list" where
  "read_mask memory = (if 20 \<le> length memory then Inr (take 16 (drop 4 memory)) else Inl Out_of_bounds)"

definition apply_mask :: "byte list \<Rightarrow> mapped_address \<Rightarrow> stun_error + mapped_address" where
  "apply_mask msk a =
     (let port = ntohs_bytes (map2 (XOR) (htons_bytes (ma_port a)) (take 2 msk));
          address_length = (if ma_family a = IPV4 then 4 else 16)
      in if length (ma_address a) < address_length then Inl Out_of_bounds
         else Inr (a\<lparr>ma_port := port,
                     ma_address := map2 (XOR) (take address_length (ma_address a)) (take address_length msk) @ drop address_length (ma_address a)\<rparr>))"

section \<open>Other operations on values\<close>

definition username_parse_string :: "byte \<Rightarrow> byte list \<Rightarrow> stun_error + byte list \<times> byte list" where
  "username_parse_string separator v =
     (if separator \<in> set v then Inr (takeWhile (\<lambda>c. c \<noteq> separator) v, tl (dropWhile (\<lambda>c. c \<noteq> separator) v)) else Inl Invalid_stun_attribute)"

definition hmac_sha1 :: "stun_params \<Rightarrow> byte list \<Rightarrow> byte list \<Rightarrow> stun_error + byte list" where
  "hmac_sha1 p data key =
     (if length key > INT_MAX then Inl Length_error
      else case sp_HMAC p key data of
             None \<Rightarrow> Inl Runtime_error
           | Some digest \<Rightarrow> if length digest \<noteq> 20 then Inl Runtime_error else Inr digest)"

definition md5_sum :: "stun_params \<Rightarrow> byte list \<Rightarrow> stun_error + byte list" where
  "md5_sum p data =
     (case sp_md5 p data of None \<Rightarrow> Inl Runtime_error | Some digest \<Rightarrow> if length digest \<noteq> 16 then Inl Runtime_error else Inr digest)"

definition compute_long_term_credentials :: "stun_params \<Rightarrow> byte list \<Rightarrow> byte list \<Rightarrow> byte list \<Rightarrow> stun_error + byte list" where
  "compute_long_term_credentials p username realm password = md5_sum p (username @ [58] @ realm @ [58] @ password)"

definition fingerprint_crc32 :: "stun_params \<Rightarrow> byte list \<Rightarrow> 32 word" where
  "fingerprint_crc32 p data = sp_crc32 p data XOR 0x5354554E"

definition get_error_code :: "error_code_value \<Rightarrow> nat" where
  "get_error_code e = unat (ev_code_class e AND 0x07) * 100 + unat (ev_code_number e)"

text \<open>The texts of the error codes, and an error code as an attribute.\<close>

definition st_bytes :: "string \<Rightarrow> byte list" where
  "st_bytes t = map of_char t"

definition stun_error_text :: "nat \<Rightarrow> string" where
  "stun_error_text c =
     (if c = 300 then ''try alternate''
      else if c = 400 then ''bad request''
      else if c = 401 then ''unauthenticated''
      else if c = 420 then ''unknown attribute''
      else if c = 438 then ''stale nonce''
      else if c = 500 then ''server error''
      else if c = 487 then ''role conflict''
      else if c = 403 then ''forbidden''
      else if c = 437 then ''allocation_mismatch''
      else if c = 440 then ''address family not supported''
      else if c = 441 then ''wrong credentials''
      else if c = 442 then ''unsupported transport protocol''
      else if c = 443 then ''peer address family mismatch''
      else if c = 486 then ''allocation quota reached''
      else if c = 508 then ''insufficient capacity''
      else ''undefined / unknown error'')"

definition set_error_code :: "nat \<Rightarrow> error_code_value" where
  "set_error_code c =
     \<lparr>ev_code_class = of_nat (c div 100) AND 0x07, ev_code_number = of_nat (c mod 100), ev_reason = st_bytes (stun_error_text c)\<rparr>"

section \<open>Sizes\<close>

definition mapped_address_size :: "mapped_address \<Rightarrow> nat" where
  "mapped_address_size a = 1 + 1 + 2 + length (ma_address a)"

fun byte_size_value :: "attribute_value \<Rightarrow> nat" where
  "byte_size_value (Mapped_address a) = mapped_address_size a"
| "byte_size_value (Xor_mapped_address a) = mapped_address_size a"
| "byte_size_value (Username v) = length v"
| "byte_size_value (Message_integrity _) = 20"
| "byte_size_value (Fingerprint _) = 4"
| "byte_size_value (Error_code e) = 1 + 1 + length (ev_reason e)"
| "byte_size_value (Realm v) = length v"
| "byte_size_value (Nonce v) = length v"
| "byte_size_value (Unknown_attributes vs) = 2 * length vs"
| "byte_size_value (Software v) = length v"
| "byte_size_value (Alternate_server a) = mapped_address_size a"
| "byte_size_value (Priority _) = 4"
| "byte_size_value Use_candidate = 0"
| "byte_size_value (Ice_controlled _) = 8"
| "byte_size_value (Ice_controlling _) = 8"
| "byte_size_value (Change_request _) = 4"
| "byte_size_value (Response_port _) = 2"
| "byte_size_value (Padding v) = length v"
| "byte_size_value Cache_timeout = 0"
| "byte_size_value (Response_origin a) = mapped_address_size a"
| "byte_size_value (Other_address a) = mapped_address_size a"

section \<open>Serialization\<close>

definition family_byte :: "stun_address_family \<Rightarrow> byte" where
  "family_byte f = (case f of IPV4 \<Rightarrow> 0x01 | IPV6 \<Rightarrow> 0x02)"

definition serialize_mapped :: "mapped_address \<Rightarrow> sink \<Rightarrow> stun_error + sink" where
  "serialize_mapped a k =
     st_then (st_put [ma_padding a] k) (\<lambda>k. st_then (st_put [family_byte (ma_family a)] k) (\<lambda>k.
       st_then (st_put (htons_bytes (ma_port a)) k) (st_put (ma_address a))))"

definition serialize_xor_mapped :: "mapped_address \<Rightarrow> sink \<Rightarrow> stun_error + sink" where
  "serialize_xor_mapped a k =
     st_then (read_mask (fst k)) (\<lambda>msk. st_then (apply_mask msk a) (\<lambda>tmp. serialize_mapped tmp k))"

text \<open>What precedes the header of the attribute whose value starts at the offset.\<close>

definition st_before :: "byte list \<Rightarrow> nat \<Rightarrow> stun_error + byte list" where
  "st_before dst offset = (if offset < 4 \<or> offset - 4 > length dst then Inl Out_of_bounds else Inr (take (offset - 4) dst))"

definition serialize_integrity :: "stun_params \<Rightarrow> message_integrity \<Rightarrow> sink \<Rightarrow> stun_error + sink" where
  "serialize_integrity p v k =
     (case v of
        Mi_input password \<Rightarrow> st_then (st_before (fst k) (snd k)) (\<lambda>data. st_then (hmac_sha1 p data password) (\<lambda>digest. st_put digest k))
      | Mi_output bs \<Rightarrow> st_put bs k
      | Mi_undefined \<Rightarrow> Inr k)"

definition serialize_fingerprint :: "stun_params \<Rightarrow> 32 word option \<Rightarrow> sink \<Rightarrow> stun_error + sink" where
  "serialize_fingerprint p v k =
     (case v of
        Some w \<Rightarrow> st_put (host32 w) k
      | None \<Rightarrow> st_then (st_before (fst k) (snd k)) (\<lambda>data. st_put (htonl_bytes (fingerprint_crc32 p data)) k))"

definition serialize_error_code :: "error_code_value \<Rightarrow> sink \<Rightarrow> stun_error + sink" where
  "serialize_error_code e k =
     st_then (st_put [ev_code_class e] k) (\<lambda>k. st_then (st_put [ev_code_number e] k) (st_put (ev_reason e)))"

fun serialize_unknown :: "16 word list \<Rightarrow> sink \<Rightarrow> stun_error + sink" where
  "serialize_unknown [] k = Inr k"
| "serialize_unknown (v # vs) k = st_then (st_put (host16 v) k) (serialize_unknown vs)"

fun serialize_value :: "stun_params \<Rightarrow> attribute_value \<Rightarrow> sink \<Rightarrow> stun_error + sink" where
  "serialize_value p (Mapped_address a) k = serialize_mapped a k"
| "serialize_value p (Xor_mapped_address a) k = serialize_xor_mapped a k"
| "serialize_value p (Username v) k = st_put v k"
| "serialize_value p (Message_integrity v) k = serialize_integrity p v k"
| "serialize_value p (Fingerprint v) k = serialize_fingerprint p v k"
| "serialize_value p (Error_code e) k = serialize_error_code e k"
| "serialize_value p (Realm v) k = st_put v k"
| "serialize_value p (Nonce v) k = st_put v k"
| "serialize_value p (Unknown_attributes vs) k = serialize_unknown vs k"
| "serialize_value p (Software v) k = st_put v k"
| "serialize_value p (Alternate_server a) k = serialize_mapped a k"
| "serialize_value p (Priority w) k = st_put (host32 w) k"
| "serialize_value p Use_candidate k = Inr k"
| "serialize_value p (Ice_controlled w) k = st_put (host64 w) k"
| "serialize_value p (Ice_controlling w) k = st_put (host64 w) k"
| "serialize_value p (Change_request w) k = st_put (host32 w) k"
| "serialize_value p (Response_port w) k = st_put (htons_bytes w) k"
| "serialize_value p (Padding v) k = st_put v k"
| "serialize_value p Cache_timeout k = Inr k"
| "serialize_value p (Response_origin a) k = serialize_mapped a k"
| "serialize_value p (Other_address a) k = serialize_mapped a k"

section \<open>Parsing\<close>

text \<open>A string takes everything up to the end of the memory.\<close>

definition parse_string :: "byte list \<Rightarrow> nat \<Rightarrow> stun_error + byte list \<times> nat" where
  "parse_string memory offset = (if offset > length memory then Inl Out_of_bounds else Inr (drop offset memory, length memory))"

definition parse_family :: "byte list \<Rightarrow> nat \<Rightarrow> stun_error + stun_address_family \<times> nat" where
  "parse_family memory offset =
     st_then (st_get 1 memory offset) (\<lambda>(bs, o1).
       if bs = [0x01] then Inr (IPV4, o1) else if bs = [0x02] then Inr (IPV6, o1) else Inl Deserialization_error)"

definition parse_mapped :: "byte list \<Rightarrow> nat \<Rightarrow> stun_error + mapped_address \<times> nat" where
  "parse_mapped memory offset =
     st_then (st_get 1 memory offset) (\<lambda>(pad, o1). st_then (parse_family memory o1) (\<lambda>(family, o2).
       st_then (st_get 2 memory o2) (\<lambda>(port, o3).
         let address_length = length memory - o3
         in if address_length \<noteq> (if family = IPV4 then 4 else 16) then Inl Runtime_error
            else Inr (\<lparr>ma_padding = hd pad, ma_family = family, ma_port = ntohs_bytes port, ma_address = drop o3 memory\<rparr>, o3 + address_length))))"

definition parse_xor_mapped :: "byte list \<Rightarrow> nat \<Rightarrow> stun_error + mapped_address \<times> nat" where
  "parse_xor_mapped memory offset =
     st_then (read_mask memory) (\<lambda>msk. st_then (parse_mapped memory offset) (\<lambda>(a, o1). st_then (apply_mask msk a) (\<lambda>a'. Inr (a', o1))))"

definition parse_error_code :: "byte list \<Rightarrow> nat \<Rightarrow> stun_error + error_code_value \<times> nat" where
  "parse_error_code memory offset =
     st_then (st_get 2 memory offset) (\<lambda>(pad, o1). if of_host16 pad \<noteq> 0 then Inl Deserialization_error
       else st_then (st_get 1 memory o1) (\<lambda>(code_class, o2). if hd code_class AND 0xF8 \<noteq> 0 then Inl Deserialization_error
         else st_then (st_get 1 memory o2) (\<lambda>(number, o3). st_then (parse_string memory o3) (\<lambda>(reason, o4).
           Inr (\<lparr>ev_code_class = hd code_class AND 0x07, ev_code_number = hd number, ev_reason = reason\<rparr>, o4)))))"

function parse_unknown_loop :: "byte list \<Rightarrow> nat \<Rightarrow> 16 word list \<Rightarrow> stun_error + 16 word list \<times> nat" where
  "parse_unknown_loop memory offset vs =
     (if offset < length memory
      then st_then (st_get 2 memory offset) (\<lambda>(bs, o1). parse_unknown_loop memory o1 (vs @ [of_host16 bs]))
      else Inr (vs, offset))"
  by pat_completeness auto

termination parse_unknown_loop
  by (relation "measure (\<lambda>(memory, offset, vs). length memory - offset)") (auto simp: st_get_def split: if_splits)

declare parse_unknown_loop.simps [simp del]

definition parse_unknown :: "byte list \<Rightarrow> nat \<Rightarrow> stun_error + 16 word list \<times> nat" where
  "parse_unknown memory offset = (if length memory mod 4 \<noteq> 0 then Inl Deserialization_error else parse_unknown_loop memory offset [])"

text \<open>A value read with the constructor of its class.\<close>

definition st_map :: "('a \<Rightarrow> 'b) \<Rightarrow> stun_error + 'a \<times> nat \<Rightarrow> stun_error + 'b \<times> nat" where
  "st_map f r = st_then r (\<lambda>(x, k). Inr (f x, k))"

fun parse_value :: "attribute_type \<Rightarrow> byte list \<Rightarrow> nat \<Rightarrow> stun_error + attribute_value \<times> nat" where
  "parse_value T_mapped_address m k = st_map Mapped_address (parse_mapped m k)"
| "parse_value T_xor_mapped_address m k = st_map Xor_mapped_address (parse_xor_mapped m k)"
| "parse_value T_username m k = st_map Username (parse_string m k)"
| "parse_value T_message_integrity m k = st_map (\<lambda>bs. Message_integrity (Mi_output bs)) (st_get 20 m k)"
| "parse_value T_fingerprint m k = st_map (\<lambda>bs. Fingerprint (Some (ntohl_bytes bs))) (st_get 4 m k)"
| "parse_value T_error_code m k = st_map Error_code (parse_error_code m k)"
| "parse_value T_realm m k = st_map Realm (parse_string m k)"
| "parse_value T_nonce m k = st_map Nonce (parse_string m k)"
| "parse_value T_unknown_attributes m k = st_map Unknown_attributes (parse_unknown m k)"
| "parse_value T_software m k = st_map Software (parse_string m k)"
| "parse_value T_alternate_server m k = st_map Alternate_server (parse_mapped m k)"
| "parse_value T_priority m k = st_map (\<lambda>bs. Priority (of_host32 bs)) (st_get 4 m k)"
| "parse_value T_use_candidate m k = Inr (Use_candidate, k)"
| "parse_value T_ice_controlled m k = st_map (\<lambda>bs. Ice_controlled (of_host64 bs)) (st_get 8 m k)"
| "parse_value T_ice_controlling m k = st_map (\<lambda>bs. Ice_controlling (of_host64 bs)) (st_get 8 m k)"
| "parse_value T_change_request m k = st_map (\<lambda>bs. Change_request (of_host32 bs)) (st_get 4 m k)"
| "parse_value T_response_port m k = st_map (\<lambda>bs. Response_port (ntohs_bytes bs)) (st_get 2 m k)"
| "parse_value T_padding m k = st_map Padding (parse_string m k)"
| "parse_value T_cache_timeout m k = Inr (Cache_timeout, k)"
| "parse_value T_response_origin m k = st_map Response_origin (parse_mapped m k)"
| "parse_value T_other_address m k = st_map Other_address (parse_mapped m k)"

text \<open>\<open>message_base::parse\<close>: the value has to end where the memory ends.\<close>

definition parse_exact :: "(byte list \<Rightarrow> nat \<Rightarrow> stun_error + 'a \<times> nat) \<Rightarrow> byte list \<Rightarrow> nat \<Rightarrow> stun_error + 'a" where
  "parse_exact parse memory offset =
     st_then (parse memory offset) (\<lambda>(v, tmp). if tmp \<noteq> length memory then Inl Deserialization_error else Inr v)"

end
