(* ===== verification/StunMessage.thy ===== *)
theory StunMessage
  imports StunAttribute
begin

text \<open>
  Model of \<open>demo/stun/lib/rstream/stun/message.cpp\<close>: the header of a STUN message, its attributes, how a
  message is built, sized, written and read, and the checks of its fingerprint and of its integrity. The
  memory in which a message is written is allocated with arbitrary content, which is the argument \<open>fill\<close>.
\<close>

section \<open>Message types\<close>

datatype stun_class = Request | Indication | Response_success | Response_error

datatype stun_method = Binding

definition STUN_MAGIC :: "32 word" where
  "STUN_MAGIC = 0x2112A442"

fun class_type :: "stun_class \<Rightarrow> 16 word" where
  "class_type Request = 0x0000"
| "class_type Indication = 0x0010"
| "class_type Response_success = 0x0100"
| "class_type Response_error = 0x0110"

fun method_type :: "stun_method \<Rightarrow> 16 word" where
  "method_type Binding = 0x0001"

definition encode_msg_type :: "stun_class \<Rightarrow> stun_method \<Rightarrow> 16 word" where
  "encode_msg_type c m = class_type c OR method_type m"

definition STUN_GET_CLASS :: "16 word \<Rightarrow> 16 word" where
  "STUN_GET_CLASS t = t AND 0x0110"

definition STUN_GET_METHOD :: "16 word \<Rightarrow> 16 word" where
  "STUN_GET_METHOD t = t AND NOT 0x0110"

definition parse_stun_class :: "16 word \<Rightarrow> stun_error + stun_class" where
  "parse_stun_class t =
     (case find (\<lambda>c. class_type c = STUN_GET_CLASS t) [Request, Indication, Response_success, Response_error] of
        None \<Rightarrow> Inl Unknown_stun_class | Some c \<Rightarrow> Inr c)"

definition parse_stun_method :: "16 word \<Rightarrow> stun_error + stun_method" where
  "parse_stun_method t =
     (case find (\<lambda>m. method_type m = STUN_GET_METHOD t) [Binding] of None \<Rightarrow> Inl Unknown_stun_method | Some m \<Rightarrow> Inr m)"

section \<open>Messages\<close>

record stun_header =
  h_type :: "16 word"
  h_payload_length :: "16 word"
  h_magic :: "32 word"
  h_transaction_id :: "byte list"

definition is_response :: "stun_header \<Rightarrow> bool" where
  "is_response h \<longleftrightarrow> STUN_GET_CLASS (h_type h) AND 0x0100 \<noteq> 0"

text \<open>A serialized attribute refers to the memory of the message, an offset and a size.\<close>

datatype attribute_data = At_undefined | At_serialized "byte list" nat nat | At_parsed attribute_value

record stun_attribute =
  at_type :: "16 word"
  at_length :: "16 word"
  at_data :: attribute_data

record stun_message =
  sm_header :: stun_header
  sm_attributes :: "stun_attribute list"

text \<open>\<open>attribute::make\<close> for a value.\<close>

definition make_attribute :: "attribute_value \<Rightarrow> stun_error + stun_attribute" where
  "make_attribute v =
     st_then (checked_length (byte_size_value v) 0) (\<lambda>n.
       Inr \<lparr>at_type = get_attribute_msg_type (value_type v), at_length = n, at_data = At_parsed v\<rparr>)"

definition get_data_serialized :: "stun_attribute \<Rightarrow> stun_error + byte list \<times> nat \<times> nat" where
  "get_data_serialized a = (case at_data a of At_serialized m off n \<Rightarrow> Inr (m, off, n) | _ \<Rightarrow> Inl Invalid_stun_attribute)"

text \<open>\<open>attribute::parse\<close> cuts the memory at the end of the value.\<close>

definition parse_data :: "attribute_type \<Rightarrow> byte list \<Rightarrow> nat \<Rightarrow> nat \<Rightarrow> stun_error + attribute_value" where
  "parse_data t memory offset n = parse_exact (parse_value t) (take (offset + n) memory) offset"

text \<open>\<open>attribute::get\<close>; the cast of a parsed value to another class is undefined behaviour.\<close>

definition attribute_get :: "attribute_type \<Rightarrow> stun_attribute \<Rightarrow> stun_error + attribute_value" where
  "attribute_get t a =
     (case at_data a of
        At_undefined \<Rightarrow> Inl Runtime_error
      | At_serialized m off n \<Rightarrow> parse_data t m off n
      | At_parsed v \<Rightarrow> if value_type v = t then Inr v else Inl Out_of_bounds)"

section \<open>Sizes\<close>

text \<open>\<open>while (size & 0x03) ++size\<close>.\<close>

function align4 :: "nat \<Rightarrow> nat" where
  "align4 n = (if n mod 4 \<noteq> 0 then align4 (Suc n) else n)"
  by pat_completeness auto

termination align4
proof (relation "measure (\<lambda>n. (4 - n mod 4) mod 4)")
  fix n :: nat
  assume "n mod 4 \<noteq> 0"
  moreover have "n mod 4 < 4" by simp
  ultimately consider "n mod 4 = 1" | "n mod 4 = 2" | "n mod 4 = 3" by linarith
  then show "(Suc n, n) \<in> measure (\<lambda>n. (4 - n mod 4) mod 4)" by cases (simp_all add: mod_Suc)
qed simp

declare align4.simps [simp del]

definition byte_size_attribute :: "stun_attribute \<Rightarrow> stun_error + nat" where
  "byte_size_attribute a =
     (case at_data a of
        At_undefined \<Rightarrow> Inl Invalid_stun_attribute
      | At_serialized m off n \<Rightarrow> Inr (align4 n + 4)
      | At_parsed v \<Rightarrow> Inr (align4 (byte_size_value v) + 4))"

fun byte_size_attributes :: "stun_attribute list \<Rightarrow> stun_error + nat" where
  "byte_size_attributes [] = Inr 0"
| "byte_size_attributes (a # as) = st_then (byte_size_attribute a) (\<lambda>n. st_then (byte_size_attributes as) (\<lambda>k. Inr (n + k)))"

definition byte_size_message :: "stun_message \<Rightarrow> stun_error + nat" where
  "byte_size_message m = st_then (byte_size_attributes (sm_attributes m)) (\<lambda>n. Inr (20 + n))"

section \<open>Serialization\<close>

definition serialize_header :: "stun_header \<Rightarrow> sink \<Rightarrow> stun_error + sink" where
  "serialize_header h k =
     st_then (st_put (htons_bytes (h_type h)) k) (\<lambda>k. st_then (st_put (htons_bytes (h_payload_length h)) k) (\<lambda>k.
       st_then (st_put (htonl_bytes (h_magic h)) k) (st_put (h_transaction_id h))))"

definition serialize_attribute_header :: "stun_attribute \<Rightarrow> sink \<Rightarrow> stun_error + sink" where
  "serialize_attribute_header a k = st_then (st_put (htons_bytes (at_type a)) k) (st_put (htons_bytes (at_length a)))"

text \<open>The loop that pads an attribute: the offset is increased first.\<close>

function pad_loop :: "nat \<Rightarrow> sink \<Rightarrow> stun_error + sink" where
  "pad_loop stop (dst, offset) =
     (if offset < stop
      then if Suc offset < length dst then pad_loop stop (dst[Suc offset := 0], Suc offset) else Inl Out_of_bounds
      else Inr (dst, offset))"
  by pat_completeness auto

termination pad_loop
  by (relation "measure (\<lambda>(stop, dst, offset). stop - offset)") auto

declare pad_loop.simps [simp del]

definition serialize_attribute :: "stun_params \<Rightarrow> stun_attribute \<Rightarrow> sink \<Rightarrow> stun_error + sink" where
  "serialize_attribute p a k =
     st_then (byte_size_attribute a) (\<lambda>n. st_then (serialize_attribute_header a k) (\<lambda>k1.
       st_then (case at_data a of
                  At_undefined \<Rightarrow> Inl Invalid_stun_attribute
                | At_serialized m off len \<Rightarrow> if off + len \<le> length m then st_put (take len (drop off m)) k1 else Inl Out_of_bounds
                | At_parsed v \<Rightarrow> serialize_value p v k1) (pad_loop (snd k + n))))"

definition set_message_header_payload_length :: "byte list \<Rightarrow> 16 word \<Rightarrow> stun_error + byte list" where
  "set_message_header_payload_length dst n = (if 4 \<le> length dst then Inr (write_at 2 (htons_bytes n) dst) else Inl Out_of_bounds)"

definition get_message_header_payload_length :: "byte list \<Rightarrow> stun_error + 16 word" where
  "get_message_header_payload_length src = (if 4 \<le> length src then Inr (ntohs_bytes (take 2 (drop 2 src))) else Inl Out_of_bounds)"

fun serialize_attributes :: "stun_params \<Rightarrow> stun_attribute list \<Rightarrow> 16 word \<Rightarrow> sink \<Rightarrow> stun_error + sink" where
  "serialize_attributes p [] n k = Inr k"
| "serialize_attributes p (a # as) n k =
     st_then (byte_size_attribute a) (\<lambda>len. st_then (checked_length len n) (\<lambda>n'.
       st_then (set_message_header_payload_length (fst k) n') (\<lambda>dst.
         st_then (serialize_attribute p a (dst, snd k)) (serialize_attributes p as n'))))"

definition serialize_message :: "stun_params \<Rightarrow> stun_message \<Rightarrow> sink \<Rightarrow> stun_error + sink" where
  "serialize_message p m k = st_then (serialize_header (sm_header m) k) (serialize_attributes p (sm_attributes m) 0)"

definition serialize_to_memory :: "stun_params \<Rightarrow> (nat \<Rightarrow> byte) \<Rightarrow> stun_message \<Rightarrow> stun_error + byte list" where
  "serialize_to_memory p fill m =
     st_then (byte_size_message m) (\<lambda>n. st_then (serialize_message p m (map fill [0..<n], 0)) (\<lambda>k. Inr (fst k)))"

section \<open>Parsing\<close>

definition parse_header :: "byte list \<Rightarrow> nat \<Rightarrow> stun_error + stun_header \<times> nat" where
  "parse_header memory offset =
     (let n = length memory - offset in
      if n < 20 then Inl Deserialization_error
      else if memory ! 0 AND 0xC0 \<noteq> 0 then Inl Deserialization_error
      else st_then (st_get 2 memory offset) (\<lambda>(type, o1). st_then (st_get 2 memory o1) (\<lambda>(len, o2). st_then (st_get 4 memory o2) (\<lambda>(magic, o3).
        let h = \<lparr>h_type = ntohs_bytes type, h_payload_length = ntohs_bytes len, h_magic = ntohl_bytes magic,
                 h_transaction_id = take 12 (drop o3 memory)\<rparr>
        in if h_magic h \<noteq> STUN_MAGIC then Inl Deserialization_error
           else if h_payload_length h AND 0x03 \<noteq> 0 then Inl Deserialization_error
           else if n \<noteq> 20 + unat (h_payload_length h) then Inl Deserialization_error
           else st_then (parse_stun_class (h_type h)) (\<lambda>_. st_then (parse_stun_method (h_type h)) (\<lambda>_. Inr (h, o3 + 12)))))))"

definition parse_attribute_header :: "byte list \<Rightarrow> nat \<Rightarrow> stun_error + (16 word \<times> 16 word) \<times> nat" where
  "parse_attribute_header memory offset =
     (let n = length memory - offset in
      if n < 4 then Inl Deserialization_error
      else st_then (st_get 2 memory offset) (\<lambda>(type, o1). st_then (st_get 2 memory o1) (\<lambda>(len, o2).
        if n < 4 + unat (ntohs_bytes len) then Inl Deserialization_error else Inr ((ntohs_bytes type, ntohs_bytes len), o2))))"

definition parse_attribute :: "byte list \<Rightarrow> nat \<Rightarrow> stun_error + stun_attribute \<times> nat" where
  "parse_attribute memory offset =
     st_then (parse_attribute_header memory offset) (\<lambda>((type, len), o1).
       Inr (\<lparr>at_type = type, at_length = len, at_data = At_serialized memory o1 (unat len)\<rparr>, o1 + align4 (unat len)))"

lemma parse_attribute_advances: "parse_attribute memory offset = Inr (a, o1) \<Longrightarrow> offset < o1"
  by (auto simp: parse_attribute_def parse_attribute_header_def st_then_Inr st_get_def Let_def split: if_splits prod.splits)

function parse_attributes :: "byte list \<Rightarrow> nat \<Rightarrow> stun_attribute list \<Rightarrow> stun_error + stun_attribute list \<times> nat" where
  "parse_attributes memory offset dst =
     (if offset < length memory
      then st_then (parse_attribute memory offset) (\<lambda>(a, o1). parse_attributes memory o1 (dst @ [a]))
      else if offset \<noteq> length memory then Inl Deserialization_error
      else Inr (dst, offset))"
  by pat_completeness auto

termination parse_attributes
  by (relation "measure (\<lambda>(memory, offset, dst). length memory - offset)") (auto dest: parse_attribute_advances intro: diff_less_mono2)

declare parse_attributes.simps [simp del]

definition parse_message :: "byte list \<Rightarrow> nat \<Rightarrow> stun_error + stun_message \<times> nat" where
  "parse_message memory offset =
     st_then (parse_header memory offset) (\<lambda>(h, o1). st_then (parse_attributes memory o1 []) (\<lambda>(as, o2).
       Inr (\<lparr>sm_header = h, sm_attributes = as\<rparr>, o2)))"

definition message_parse :: "byte list \<Rightarrow> stun_error + stun_message" where
  "message_parse memory = parse_exact parse_message memory 0"

section \<open>Looking into a message\<close>

definition find_attribute :: "stun_message \<Rightarrow> 16 word \<Rightarrow> stun_attribute option" where
  "find_attribute m type = find (\<lambda>a. at_type a = type) (sm_attributes m)"

definition get_attribute :: "stun_message \<Rightarrow> 16 word \<Rightarrow> stun_error + stun_attribute" where
  "get_attribute m type = (case find_attribute m type of Some a \<Rightarrow> Inr a | None \<Rightarrow> Inl Unknown_stun_attribute)"

definition has_attribute :: "stun_message \<Rightarrow> 16 word \<Rightarrow> bool" where
  "has_attribute m type \<longleftrightarrow> find_attribute m type \<noteq> None"

definition has_integrity :: "stun_message \<Rightarrow> bool" where
  "has_integrity m \<longleftrightarrow> find_attribute m (get_attribute_msg_type T_message_integrity) \<noteq> None"

definition get_priority :: "stun_message \<Rightarrow> stun_error + 32 word" where
  "get_priority m =
     (case find_attribute m (get_attribute_msg_type T_priority) of
        None \<Rightarrow> Inr 0
      | Some a \<Rightarrow> st_then (attribute_get T_priority a) (\<lambda>v. case v of Priority w \<Rightarrow> Inr w | _ \<Rightarrow> Inl Out_of_bounds))"

definition is_stun_datagram_error :: "byte list \<Rightarrow> stun_error option" where
  "is_stun_datagram_error memory = (case parse_header memory 0 of Inl e \<Rightarrow> Some e | Inr _ \<Rightarrow> None)"

definition is_stun_datagram :: "byte list \<Rightarrow> bool" where
  "is_stun_datagram memory \<longleftrightarrow> is_stun_datagram_error memory \<noteq> None"

section \<open>Checks\<close>

definition check_fingerprint :: "stun_params \<Rightarrow> stun_message \<Rightarrow> stun_error + unit" where
  "check_fingerprint p m =
     st_then (get_attribute m (get_attribute_msg_type T_fingerprint)) (\<lambda>a. st_then (attribute_get T_fingerprint a) (\<lambda>v.
       case v of
         Fingerprint (Some current) \<Rightarrow>
           st_then (get_data_serialized a) (\<lambda>(memory, off, n). st_then (st_before memory off) (\<lambda>data.
             if current \<noteq> fingerprint_crc32 p data then Inl Invalid_integrity else Inr ()))
       | Fingerprint None \<Rightarrow> Inl Invalid_stun_attribute
       | _ \<Rightarrow> Inl Out_of_bounds))"

text \<open>The loop over the attributes: the length up to the integrity attribute, and the attribute.\<close>

fun find_integrity :: "stun_attribute list \<Rightarrow> nat \<Rightarrow> stun_error + nat \<times> stun_attribute" where
  "find_integrity [] n = Inl Unknown_stun_attribute"
| "find_integrity (a # as) n =
     st_then (byte_size_attribute a) (\<lambda>len.
       if at_type a = get_attribute_msg_type T_message_integrity then Inr (n + len, a) else find_integrity as (n + len))"

text \<open>
  The digest is computed with the length of the message set to the end of the integrity attribute; the
  result carries the memory of the message after the call, where a writable memory has been changed and
  changed back.
\<close>

definition check_message_integrity :: "stun_params \<Rightarrow> bool \<Rightarrow> byte list \<Rightarrow> stun_message \<Rightarrow> stun_error + byte list" where
  "check_message_integrity p writable password m =
     st_then (find_integrity (sm_attributes m) 0) (\<lambda>(tmp_payload_length, a). st_then (attribute_get T_message_integrity a) (\<lambda>v.
       case v of
         Message_integrity (Mi_output current) \<Rightarrow>
           st_then (get_data_serialized a) (\<lambda>(memory, off, n). st_then (get_message_header_payload_length memory) (\<lambda>old.
             st_then (set_message_header_payload_length memory (of_nat tmp_payload_length)) (\<lambda>tmp.
               st_then (st_before tmp off) (\<lambda>data. st_then (hmac_sha1 p data password) (\<lambda>expected.
                 st_then (if writable then set_message_header_payload_length tmp old else Inr memory) (\<lambda>memory'.
                   if current \<noteq> expected then Inl Invalid_integrity else Inr memory'))))))
       | Message_integrity _ \<Rightarrow> Inl Invalid_stun_attribute
       | _ \<Rightarrow> Inl Out_of_bounds))"

section \<open>Building messages\<close>

definition message_builder :: "16 word \<Rightarrow> byte list \<Rightarrow> stun_message" where
  "message_builder type transaction_id =
     \<lparr>sm_header = \<lparr>h_type = type, h_payload_length = 0, h_magic = STUN_MAGIC, h_transaction_id = transaction_id\<rparr>, sm_attributes = []\<rparr>"

definition add_attribute :: "attribute_value \<Rightarrow> stun_message \<Rightarrow> stun_error + stun_message" where
  "add_attribute v m = st_then (make_attribute v) (\<lambda>a. Inr (m\<lparr>sm_attributes := sm_attributes m @ [a]\<rparr>))"

definition add_software :: "stun_message \<Rightarrow> stun_error + stun_message" where
  "add_software = add_attribute (Software (st_bytes ''rstream STUN client''))"

definition add_message_integrity :: "byte list \<Rightarrow> stun_message \<Rightarrow> stun_error + stun_message" where
  "add_message_integrity password = add_attribute (Message_integrity (Mi_input password))"

definition add_fingerprint :: "stun_message \<Rightarrow> stun_error + stun_message" where
  "add_fingerprint = add_attribute (Fingerprint None)"

definition build :: "stun_message \<Rightarrow> stun_error + stun_message" where
  "build m =
     st_then (byte_size_attributes (sm_attributes m)) (\<lambda>n. st_then (checked_length n 0) (\<lambda>len.
       Inr (m\<lparr>sm_header := (sm_header m)\<lparr>h_payload_length := len\<rparr>\<rparr>)))"

end
