(* ===== verification/StunWire.thy ===== *)
theory StunWire
  imports StunMessage
begin

unbundle bit_operations_syntax

text \<open>
  Facts on the wire format of STUN: byte orders, sizes, what the serialization of a value, of its padding
  and of a list of attributes writes and leaves alone, and what reading it gives.
\<close>

section \<open>Byte orders and sizes\<close>

lemma htons_simps [simp]: "length (htons_bytes w) = 2" "ntohs_bytes (htons_bytes w) = w"
proof -
  show "length (htons_bytes w) = 2" by (simp add: htons_bytes_def)
  show "ntohs_bytes (htons_bytes w) = w"
  proof (rule bit_word_eqI)
    fix n
    assume "n < LENGTH(16)"
    then consider "n < 8" | "8 \<le> n" "n < 16" by fastforce
    then show "bit (ntohs_bytes (htons_bytes w)) n = bit w n" by cases (auto simp: htons_bytes_def bit_simps)
  qed
qed

lemma host_lengths [simp]: "length (host16 w) = 2" "length (host32 v) = 4" "length (host64 u) = 8"
  by (simp_all add: host16_def host32_def host64_def)

lemma of_host [simp]: "of_host16 (host16 w) = w" "of_host32 (host32 v) = v" "of_host64 (host64 u) = u"
proof -
  show "of_host16 (host16 w) = w" "of_host32 (host32 v) = v" by (simp_all add: of_host16_def host16_def of_host32_def host32_def)
  show "of_host64 (host64 u) = u"
  proof (rule bit_word_eqI)
    fix n
    assume "n < LENGTH(64)"
    then consider "n < 32" | "32 \<le> n" "n < 64" by fastforce
    then show "bit (of_host64 (host64 u)) n = bit u n"
      by cases (auto simp: of_host64_def host64_def of_host32_def host32_def bit_simps)
  qed
qed

lemma htons_split: "length bs = 2 \<Longrightarrow> htons_bytes (ntohs_bytes bs) = bs"
proof -
  assume "length bs = 2"
  then obtain a b where "bs = [a, b]" by (auto simp: numeral_2_eq_2 length_Suc_conv)
  moreover have "\<not> bit b (8 + n)" for n using bit_imp_le_length [of b "8 + n"] by auto
  ultimately show ?thesis by (auto simp: htons_bytes_def bit_simps intro!: bit_word_eqI)
qed

lemma htonl_split: "length bs = 4 \<Longrightarrow> htonl_bytes (ntohl_bytes bs) = bs"
proof -
  assume "length bs = 4"
  then obtain a b c d where bs: "bs = [a, b, c, d]" by (auto simp: numeral_eq_Suc length_Suc_conv)
  have no: "\<not> bit x n" if "8 \<le> n" for x :: byte and n using bit_imp_le_length [of x n] that by auto
  define w where "w = ntohl_bytes bs"
  have w: "bit w n \<longleftrightarrow> 24 \<le> n \<and> n < 32 \<and> bit a (n - 24) \<or> 16 \<le> n \<and> n < 32 \<and> bit b (n - 16) \<or> 8 \<le> n \<and> n < 32 \<and> bit c (n - 8) \<or> n < 32 \<and> bit d n" for n
    by (auto simp: w_def bs bit_simps)
  have "ucast (drop_bit 24 w) = a" "ucast (drop_bit 16 w) = b" "ucast (drop_bit 8 w) = c" "ucast w = d"
    by (rule bit_word_eqI, simp add: bit_simps w no)+
  then show ?thesis by (simp add: htonl_bytes_def w_def [symmetric]) (simp add: bs)
qed

lemma align4_facts: "n \<le> align4 n" "align4 n < n + 4" "align4 n mod 4 = 0"
proof -
  have "n \<le> align4 n \<and> align4 n < n + 4 \<and> align4 n mod 4 = 0"
  proof -
    consider "n mod 4 = 0" | "n mod 4 = 1" | "n mod 4 = 2" | "n mod 4 = 3" by linarith
    then show ?thesis by cases (simp_all add: align4.simps [of n] align4.simps [of "Suc n"] align4.simps [of "Suc (Suc n)"] align4.simps [of "Suc (Suc (Suc n))"] mod_Suc)
  qed
  then show "n \<le> align4 n" "align4 n < n + 4" "align4 n mod 4 = 0" by simp_all
qed

lemma align4_id: "n mod 4 = 0 \<Longrightarrow> align4 n = n"
  by (simp add: align4.simps)

lemma st_put_Inr: "st_put bs (dst, off) = Inr k \<longleftrightarrow> off + length bs \<le> length dst \<and> k = (write_at off bs dst, off + length bs)"
  by (auto simp: st_put_def)

lemma put_twice:
  assumes "off + length xs + length ys \<le> length dst"
  shows "write_at (off + length xs) ys (write_at off xs dst) = write_at off (xs @ ys) dst"
  using assms by (simp add: write_at_def ac_simps)

text \<open>Several writes in a row are one write.\<close>

lemma put_put: "st_then (st_put xs (dst, off)) (st_put ys) = st_put (xs @ ys) (dst, off)"
  by (auto simp: st_put_def put_twice)

lemma put_assoc: "st_then (st_then r f) g = st_then r (\<lambda>x. st_then (f x) g)"
  by (cases r) simp_all

lemma put_then: "st_then (st_put xs k) (\<lambda>k. st_then (st_put ys k) f) = st_then (st_put (xs @ ys) k) f"
  using put_put [of xs "fst k" "snd k" ys] by (simp add: put_assoc [symmetric])

section \<open>Padding\<close>

lemma pad_loop_Inr:
  assumes "pad_loop stop (dst, off) = Inr (dst', off')" and "off \<le> stop"
  shows "off' = stop \<and> length dst' = length dst \<and> (\<forall>i \<le> off. i < length dst \<longrightarrow> dst' ! i = dst ! i) \<and> (off < stop \<longrightarrow> stop < length dst)"
  using assms
proof (induction stop "(dst, off)" arbitrary: dst off rule: pad_loop.induct)
  case (1 stop dst off)
  show ?case
  proof (cases "off < stop")
    case True
    with 1(2) have k: "Suc off < length dst" "pad_loop stop (dst[Suc off := 0], Suc off) = Inr (dst', off')"
      by (subst (asm) pad_loop.simps, simp split: if_splits)+
    have "Suc off \<le> stop" using True by simp
    from 1(1) [OF True k(1,2) this] k(1) True show ?thesis
      by (auto simp: nth_list_update)
  next
    case False
    with 1 show ?thesis by (subst (asm) (2) pad_loop.simps) auto
  qed
qed

section \<open>Values\<close>

text \<open>
  The values that are read as they were written. The others are an error code, whose 16 reserved bits are
  expected and not written, a fingerprint that has been processed, which is written in host order and read
  in network order, a list of unknown attributes of odd length, and an integrity without data.
\<close>

definition address_ok :: "mapped_address \<Rightarrow> bool" where
  "address_ok a \<longleftrightarrow> length (ma_address a) = (if ma_family a = IPV4 then 4 else 16)"

fun wire_ok :: "attribute_value \<Rightarrow> bool" where
  "wire_ok (Mapped_address a) = address_ok a"
| "wire_ok (Xor_mapped_address a) = address_ok a"
| "wire_ok (Alternate_server a) = address_ok a"
| "wire_ok (Response_origin a) = address_ok a"
| "wire_ok (Other_address a) = address_ok a"
| "wire_ok (Message_integrity v) = (case v of Mi_undefined \<Rightarrow> False | Mi_input _ \<Rightarrow> True | Mi_output bs \<Rightarrow> length bs = 20)"
| "wire_ok (Fingerprint v) = (v = None)"
| "wire_ok (Error_code e) = False"
| "wire_ok (Unknown_attributes vs) = even (length vs)"
| "wire_ok _ = True"

text \<open>What a receiver reads: the digests have been filled in. \<open>data\<close>: what precedes the attribute.\<close>

fun read_back :: "stun_params \<Rightarrow> byte list \<Rightarrow> attribute_value \<Rightarrow> attribute_value" where
  "read_back p data (Message_integrity (Mi_input password)) =
     (case hmac_sha1 p data password of Inr digest \<Rightarrow> Message_integrity (Mi_output digest) | Inl _ \<Rightarrow> Message_integrity (Mi_input password))"
| "read_back p data (Fingerprint None) = Fingerprint (Some (fingerprint_crc32 p data))"
| "read_back p data v = v"

lemma get_tail: "length pre = off \<Longrightarrow> length bs = n \<Longrightarrow> st_get n (pre @ bs) off = Inr (bs, off + n)"
  by (simp add: st_get_def)

lemma get_front: "length pre = off \<Longrightarrow> length bs = n \<Longrightarrow> st_get n (pre @ bs @ rest) off = Inr (bs, off + n)"
  by (simp add: st_get_def)

lemma xor_twice: "length ys = length xs \<Longrightarrow> map2 (XOR) (map2 (XOR) xs ys) ys = (xs :: byte list)"
proof (rule nth_equalityI)
  fix i
  assume "length ys = length xs" "i < length (map2 (XOR) (map2 (XOR) xs ys) ys)"
  then show "map2 (XOR) (map2 (XOR) xs ys) ys ! i = xs ! i" by (simp add: xor.assoc)
qed simp

lemma apply_mask_twice:
  assumes "address_ok a" and "length msk = 16"
  shows "\<exists>b. apply_mask msk a = Inr b \<and> apply_mask msk b = Inr a \<and> address_ok b"
proof -
  define n :: nat where "n = (if ma_family a = IPV4 then 4 else 16)"
  define b where "b = a\<lparr>ma_port := ntohs_bytes (map2 (XOR) (htons_bytes (ma_port a)) (take 2 msk)), ma_address := map2 (XOR) (ma_address a) (take n msk)\<rparr>"
  have n: "length (ma_address a) = n" "length (take n msk) = n" using assms by (simp_all add: address_ok_def n_def)
  then have "apply_mask msk a = Inr b" by (simp add: apply_mask_def b_def n_def [symmetric])
  moreover have "htons_bytes (ma_port b) = map2 (XOR) (htons_bytes (ma_port a)) (take 2 msk)" using assms(2) by (simp add: b_def htons_split)
  then have "ntohs_bytes (map2 (XOR) (htons_bytes (ma_port b)) (take 2 msk)) = ma_port a" using assms(2) by (simp add: xor_twice)
  moreover have "ma_family b = ma_family a" "length (ma_address b) = n" using n by (simp_all add: b_def)
  ultimately show ?thesis using n by (intro exI [of _ b]) (simp add: apply_mask_def b_def n_def [symmetric] xor_twice address_ok_def)
qed

definition mapped_bytes :: "mapped_address \<Rightarrow> byte list" where
  "mapped_bytes a = [ma_padding a, family_byte (ma_family a)] @ htons_bytes (ma_port a) @ ma_address a"

lemma serialize_mapped_put: "serialize_mapped a k = st_put (mapped_bytes a) k"
  using put_put [of _ "fst k" "snd k"] by (simp add: serialize_mapped_def mapped_bytes_def put_then)

lemma length_mapped_bytes [simp]: "length (mapped_bytes a) = mapped_address_size a"
  by (simp add: mapped_bytes_def mapped_address_size_def)

lemma parse_mapped_bytes:
  assumes "length pre = off" and "address_ok a"
  shows "parse_mapped (pre @ mapped_bytes a) off = Inr (a, off + mapped_address_size a)"
proof -
  let ?m = "pre @ [ma_padding a, family_byte (ma_family a)] @ htons_bytes (ma_port a) @ ma_address a"
  have "st_get 1 ?m off = Inr ([ma_padding a], off + 1)" using get_front [OF assms(1), of "[ma_padding a]" 1] by simp
  moreover have "st_get 1 ?m (off + 1) = Inr ([family_byte (ma_family a)], off + 2)"
    using get_front [of "pre @ [ma_padding a]" "off + 1" "[family_byte (ma_family a)]" 1] assms(1) by simp
  then have "parse_family ?m (off + 1) = Inr (ma_family a, off + 2)" by (cases "ma_family a") (simp_all add: parse_family_def family_byte_def)
  moreover have "st_get 2 ?m (off + 2) = Inr (htons_bytes (ma_port a), off + 4)"
    using get_front [of "pre @ [ma_padding a, family_byte (ma_family a)]" "off + 2" "htons_bytes (ma_port a)" 2] assms(1) by simp
  moreover have "drop (off + 4) ?m = ma_address a" "length ?m - (off + 4) = length (ma_address a)"
    using assms(1) drop_append [of "off + 4" "pre @ [ma_padding a, family_byte (ma_family a)] @ htons_bytes (ma_port a)" "ma_address a"] by simp_all
  ultimately show ?thesis using assms(2) unfolding mapped_bytes_def by (simp add: parse_mapped_def address_ok_def mapped_address_size_def Let_def)
qed

lemma serialize_unknown_put: "snd k \<le> length (fst k) \<Longrightarrow> serialize_unknown vs k = st_put (concat (map host16 vs)) k"
proof (induction vs arbitrary: k)
  case Nil
  then show ?case by (cases k) (simp add: st_put_def)
next
  case (Cons v vs)
  obtain dst off where k: "k = (dst, off)" by (cases k)
  have "st_then (st_put (host16 v) k) (serialize_unknown vs) = st_then (st_put (host16 v) k) (st_put (concat (map host16 vs)))"
    using Cons.IH by (auto simp: k st_put_def)
  then show ?case using k put_put by simp
qed

lemma length_host16s [simp]: "length (concat (map host16 vs)) = 2 * length vs"
  by (induction vs) simp_all

lemma parse_unknown_bytes:
  "length pre = off \<Longrightarrow> parse_unknown_loop (pre @ concat (map host16 vs)) off us = Inr (us @ vs, off + 2 * length vs)"
proof (induction vs arbitrary: pre off us)
  case Nil
  then show ?case by (simp add: parse_unknown_loop.simps)
next
  case (Cons v vs)
  have "st_get 2 (pre @ host16 v @ concat (map host16 vs)) off = Inr (host16 v, off + 2)" using get_front [OF Cons.prems, of "host16 v" 2] by simp
  with Cons.IH [of "pre @ host16 v" "off + 2"] Cons.prems show ?case by (subst parse_unknown_loop.simps) simp
qed

text \<open>\<open>bs\<close>: what a value at an offset of a destination is written as.\<close>

definition carries :: "stun_params \<Rightarrow> byte list \<Rightarrow> nat \<Rightarrow> attribute_value \<Rightarrow> byte list \<Rightarrow> bool" where
  "carries p dst off v bs \<longleftrightarrow>
     serialize_value p v (dst, off) = st_put bs (dst, off) \<and> length bs = byte_size_value v
     \<and> (\<forall>pre. length pre = off \<and> take 16 (drop 4 pre) = take 16 (drop 4 dst) \<longrightarrow>
          parse_exact (parse_value (value_type v)) (pre @ bs) off = Inr (read_back p (take (off - 4) dst) v))"

lemma carries_xor:
  assumes "address_ok a" and "20 \<le> length dst" and "20 \<le> off"
  shows "\<exists>bs. carries p dst off (Xor_mapped_address a) bs"
proof -
  define msk where "msk = take 16 (drop 4 dst)"
  have msk: "length msk = 16" "read_mask dst = Inr msk" using assms(2) by (simp_all add: msk_def read_mask_def)
  obtain b where b: "apply_mask msk a = Inr b" "apply_mask msk b = Inr a" "address_ok b" using apply_mask_twice [OF assms(1) msk(1)] by blast
  have size: "mapped_address_size b = mapped_address_size a"
    using b(1) assms(1) b(3) msk(1) by (auto simp: apply_mask_def mapped_address_size_def address_ok_def Let_def split: if_splits)
  have "parse_exact (parse_value T_xor_mapped_address) (pre @ mapped_bytes b) off = Inr (Xor_mapped_address a)"
    if "length pre = off" "take 16 (drop 4 pre) = msk" for pre
    using that parse_mapped_bytes [OF that(1) b(3)] b size assms(3)
    by (simp add: parse_exact_def parse_xor_mapped_def st_map_def read_mask_def)
  moreover have "serialize_value p (Xor_mapped_address a) (dst, off) = st_put (mapped_bytes b) (dst, off)"
    using msk b by (simp add: serialize_xor_mapped_def serialize_mapped_put)
  ultimately show ?thesis using size unfolding carries_def msk_def [symmetric] by (intro exI [of _ "mapped_bytes b"]) simp
qed

lemma carries_integrity:
  assumes "serialize_value p (Message_integrity v) (dst, off) = Inr k" and "wire_ok (Message_integrity v)"
  shows "\<exists>bs. carries p dst off (Message_integrity v) bs"
proof (cases v)
  case (Mi_input password)
  with assms obtain data digest where d: "st_before dst off = Inr data" "hmac_sha1 p data password = Inr digest"
    by (auto simp: serialize_integrity_def st_then_Inr)
  then have "length digest = 20" "data = take (off - 4) dst" by (auto simp: hmac_sha1_def st_before_def split: if_splits option.splits)
  with d Mi_input show ?thesis
    by (intro exI [of _ digest]) (simp add: carries_def serialize_integrity_def parse_exact_def st_map_def get_tail)
next
  case (Mi_output bs)
  with assms show ?thesis by (intro exI [of _ bs]) (simp add: carries_def serialize_integrity_def parse_exact_def st_map_def get_tail)
qed (use assms in simp)

lemma carries_fingerprint:
  assumes "serialize_value p (Fingerprint None) (dst, off) = Inr k"
  shows "\<exists>bs. carries p dst off (Fingerprint None) bs"
proof -
  from assms obtain data where d: "st_before dst off = Inr data" by (auto simp: serialize_fingerprint_def st_then_Inr)
  then have "data = take (off - 4) dst" by (auto simp: st_before_def split: if_splits)
  with d show ?thesis
    by (intro exI [of _ "htonl_bytes (fingerprint_crc32 p data)"])
      (simp add: carries_def serialize_fingerprint_def parse_exact_def st_map_def get_tail)
qed

lemma carries_unknown:
  assumes "even (length vs)" and "off \<le> length dst" and "off mod 4 = 0"
  shows "\<exists>bs. carries p dst off (Unknown_attributes vs) bs"
proof -
  have "(off + 2 * length vs) mod 4 = 0" using assms(1,3) by presburger
  then show ?thesis using assms(2)
    by (intro exI [of _ "concat (map host16 vs)"])
      (simp add: carries_def serialize_unknown_put parse_exact_def st_map_def parse_unknown_def parse_unknown_bytes)
qed

lemmas carries_simps = carries_def parse_exact_def st_map_def get_tail parse_string_def serialize_mapped_put parse_mapped_bytes

lemma carries_value:
  assumes "serialize_value p v (dst, off) = Inr k" and "wire_ok v" and "off \<le> length dst" and "20 \<le> off" and "off mod 4 = 0"
  shows "\<exists>bs. carries p dst off v bs"
proof -
  show ?thesis
  proof (cases v)
    case (Xor_mapped_address a)
    with carries_xor assms show ?thesis by simp
  next
    case (Message_integrity i)
    with carries_integrity assms show ?thesis by simp
  next
    case (Fingerprint w)
    with carries_fingerprint assms show ?thesis by simp
  next
    case (Unknown_attributes vs)
    with carries_unknown assms show ?thesis by simp
  next
    case (Error_code e)
    with assms(2) show ?thesis by simp
  next
    case (Mapped_address a)
    with assms(2) show ?thesis by (intro exI [of _ "mapped_bytes a"]) (simp add: carries_simps)
  next
    case (Alternate_server a)
    with assms(2) show ?thesis by (intro exI [of _ "mapped_bytes a"]) (simp add: carries_simps)
  next
    case (Response_origin a)
    with assms(2) show ?thesis by (intro exI [of _ "mapped_bytes a"]) (simp add: carries_simps)
  next
    case (Other_address a)
    with assms(2) show ?thesis by (intro exI [of _ "mapped_bytes a"]) (simp add: carries_simps)
  next
    case (Username w)
    then show ?thesis by (intro exI [of _ w]) (simp add: carries_simps)
  next
    case (Realm w)
    then show ?thesis by (intro exI [of _ w]) (simp add: carries_simps)
  next
    case (Nonce w)
    then show ?thesis by (intro exI [of _ w]) (simp add: carries_simps)
  next
    case (Software w)
    then show ?thesis by (intro exI [of _ w]) (simp add: carries_simps)
  next
    case (Padding w)
    then show ?thesis by (intro exI [of _ w]) (simp add: carries_simps)
  next
    case (Priority w)
    then show ?thesis by (intro exI [of _ "host32 w"]) (simp add: carries_simps)
  next
    case (Ice_controlled w)
    then show ?thesis by (intro exI [of _ "host64 w"]) (simp add: carries_simps)
  next
    case (Ice_controlling w)
    then show ?thesis by (intro exI [of _ "host64 w"]) (simp add: carries_simps)
  next
    case (Change_request w)
    then show ?thesis by (intro exI [of _ "host32 w"]) (simp add: carries_simps)
  next
    case (Response_port w)
    then show ?thesis by (intro exI [of _ "htons_bytes w"]) (simp add: carries_simps)
  next
    case Use_candidate
    with assms(3) show ?thesis by (intro exI [of _ "[]"]) (simp add: st_put_def carries_simps)
  next
    case Cache_timeout
    with assms(3) show ?thesis by (intro exI [of _ "[]"]) (simp add: st_put_def carries_simps)
  qed
qed

section \<open>Attributes\<close>

text \<open>Two messages that differ in the length field only, up to an offset.\<close>

definition agree :: "nat \<Rightarrow> byte list \<Rightarrow> byte list \<Rightarrow> bool" where
  "agree k x y \<longleftrightarrow> length x = length y \<and> take 2 x = take 2 y \<and> drop 4 (take k x) = drop 4 (take k y)"

lemma agree_refl: "agree k x x"
  by (simp add: agree_def)

lemma agree_trans: "agree k x y \<Longrightarrow> agree j y z \<Longrightarrow> j \<le> k \<Longrightarrow> agree j x z"
proof -
  assume a: "agree k x y" "agree j y z" "j \<le> k"
  have "drop 4 (take j x) = take (j - 4) (drop 4 (take k x))" "drop 4 (take j y) = take (j - 4) (drop 4 (take k y))" using a(3) by (simp_all add: drop_take min_def)
  with a show ?thesis by (simp add: agree_def)
qed

lemma agree_le: "agree k x y \<Longrightarrow> j \<le> k \<Longrightarrow> agree j x y"
  using agree_trans agree_refl by blast

lemma agree_take: "length x = length y \<Longrightarrow> take k x = take k y \<Longrightarrow> 2 \<le> k \<Longrightarrow> agree k x y"
proof -
  assume a: "length x = length y" "take k x = take k y" "2 \<le> k"
  have "take 2 z = take 2 (take k z)" for z :: "byte list" using a(3) by (simp add: min_def)
  with a show ?thesis unfolding agree_def by metis
qed

lemma agree_length: "length w = 2 \<Longrightarrow> 4 \<le> length x \<Longrightarrow> agree k (write_at 2 w x) x"
proof -
  assume a: "length w = 2" "4 \<le> length x"
  have "drop 4 (write_at 2 w x) = drop 4 x" "take 2 (write_at 2 w x) = take 2 x" using a by (simp_all add: write_at_def)
  then show ?thesis using a unfolding agree_def drop_take by simp
qed

lemma agree_write: "agree k x y \<Longrightarrow> length w = 2 \<Longrightarrow> write_at 2 w (take k x) = write_at 2 w (take k y)"
proof -
  assume a: "agree k x y" "length w = 2"
  have "take 2 (take k x) = take k (take 2 x)" "take 2 (take k y) = take k (take 2 y)" by (simp_all add: min.commute)
  with a show ?thesis by (simp add: agree_def write_at_def)
qed

lemma agree_drop: "agree k x y \<Longrightarrow> 4 \<le> j \<Longrightarrow> drop j (take k x) = drop j (take k y)"
proof -
  assume a: "agree k x y" "4 \<le> j"
  have "drop j (take k z) = drop (j - 4) (drop 4 (take k z))" for z :: "byte list" using a(2) by simp
  with a(1) show ?thesis unfolding agree_def by metis
qed

lemma agree_mask: "agree k x y \<Longrightarrow> 20 \<le> k \<Longrightarrow> take 16 (drop 4 x) = take 16 (drop 4 y)"
proof -
  assume a: "agree k x y" "20 \<le> k"
  have "take 16 (drop 4 z) = take 16 (drop 4 (take k z))" for z :: "byte list" using a(2) by (simp add: drop_take min_def)
  with a(1) show ?thesis unfolding agree_def by metis
qed

lemma agree_front: "agree k x y \<Longrightarrow> take 2 (drop 2 x) = take 2 (drop 2 y) \<Longrightarrow> 4 \<le> k \<Longrightarrow> take k x = take k y"
proof -
  assume a: "agree k x y" "take 2 (drop 2 x) = take 2 (drop 2 y)" "4 \<le> k"
  have "take k z = take 2 z @ take 2 (drop 2 z) @ drop 4 (take k z)" for z :: "byte list"
  proof -
    have "take k z = take 4 (take k z) @ drop 4 (take k z)" by (rule append_take_drop_id [symmetric])
    also have "take 4 (take k z) = take 4 z" using a(3) by (simp add: min_def)
    also have "take 4 z = take 2 z @ take 2 (drop 2 z)" using take_add [of 2 2 z] by simp
    finally show ?thesis by simp
  qed
  with a show ?thesis unfolding agree_def by metis
qed

definition attribute_bytes :: "stun_attribute \<Rightarrow> byte list" where
  "attribute_bytes a = htons_bytes (at_type a) @ htons_bytes (at_length a)"

lemma length_attribute_bytes [simp]: "length (attribute_bytes a) = 4"
  by (simp add: attribute_bytes_def)

lemma made_attribute:
  assumes "make_attribute v = Inr a"
  shows "at_type a = get_attribute_msg_type (value_type v)" "unat (at_length a) = byte_size_value v" "at_data a = At_parsed v"
    "byte_size_attribute a = Inr (align4 (byte_size_value v) + 4)"
proof -
  have "byte_size_value v \<le> 2 ^ 16 - 1" "at_length a = of_nat (byte_size_value v)" "at_data a = At_parsed v"
      "at_type a = get_attribute_msg_type (value_type v)"
    using assms by (auto simp: make_attribute_def checked_length_def st_then_Inr split: if_splits)
  then show "at_type a = get_attribute_msg_type (value_type v)" "unat (at_length a) = byte_size_value v" "at_data a = At_parsed v"
      "byte_size_attribute a = Inr (align4 (byte_size_value v) + 4)"
    by (simp_all add: unat_of_nat byte_size_attribute_def)
qed

lemma attribute_written:
  assumes a: "make_attribute v = Inr a" and ok: "wire_ok v" and run: "serialize_attribute p a (dst, off) = Inr (dst', off')"
    and off: "20 \<le> off" "off mod 4 = 0" "off \<le> length dst"
  shows "\<exists>bs. length bs = byte_size_value v \<and> off' = off + 4 + align4 (byte_size_value v) \<and> off' \<le> length dst \<and> length dst' = length dst
    \<and> take (off + 4 + length bs) dst' = take off dst @ attribute_bytes a @ bs \<and> (byte_size_value v mod 4 \<noteq> 0 \<longrightarrow> off' < length dst)
    \<and> (\<forall>pre. length pre = off + 4 \<and> take 16 (drop 4 pre) = take 16 (drop 4 dst) \<longrightarrow>
         parse_exact (parse_value (value_type v)) (pre @ bs) (off + 4) = Inr (read_back p (take off dst) v))"
proof -
  note made = made_attribute [OF a]
  let ?n = "byte_size_value v"
  define dst1 where "dst1 = write_at off (attribute_bytes a) dst"
  obtain k1 where k1: "serialize_attribute_header a (dst, off) = Inr k1" using run by (auto simp: serialize_attribute_def st_then_Inr made)
  then have h: "k1 = (dst1, off + 4)" "off + 4 \<le> length dst"
    by (auto simp: serialize_attribute_header_def put_put attribute_bytes_def [symmetric] st_put_Inr dst1_def)
  obtain k2 where k2: "serialize_value p v (dst1, off + 4) = Inr k2" "pad_loop (off + (align4 ?n + 4)) k2 = Inr (dst', off')"
    using run k1 h by (auto simp: serialize_attribute_def st_then_Inr made)
  have len1: "length dst1 = length dst" using h by (simp add: dst1_def)
  obtain bs where bs: "carries p dst1 (off + 4) v bs" using carries_value [OF k2(1) ok] off h(2) len1 by auto
  then have size: "length bs = ?n" and put: "st_put bs (dst1, off + 4) = Inr k2" using k2(1) by (simp_all add: carries_def)
  then have k2': "k2 = (write_at (off + 4) bs dst1, off + 4 + ?n)" "off + 4 + ?n \<le> length dst" by (auto simp: st_put_Inr len1)
  have pad: "off' = off + (align4 ?n + 4)" "length dst' = length dst" "\<forall>i < off + 4 + ?n. dst' ! i = write_at (off + 4) bs dst1 ! i"
      "?n < align4 ?n \<longrightarrow> off + (align4 ?n + 4) < length dst"
    using pad_loop_Inr [of "off + (align4 ?n + 4)" "write_at (off + 4) bs dst1"] k2(2) k2' align4_facts(1) [of ?n] size len1 by auto
  have "off' \<le> length dst" using pad(1,4) k2'(2) align4_facts(1) [of ?n] by (cases "?n = align4 ?n") auto
  moreover have "off' < length dst" if "?n mod 4 \<noteq> 0"
    using pad(1,4) align4_facts [of ?n] that by (metis le_neq_implies_less)
  moreover have "take (off + 4 + ?n) dst' = take (off + 4 + ?n) (write_at (off + 4) bs dst1)"
    using pad(2,3) k2'(2) size len1 by (intro nth_equalityI) simp_all
  moreover have "write_at (off + 4) bs dst1 = write_at off (attribute_bytes a @ bs) dst"
    using put_twice [of off "attribute_bytes a" bs dst] k2'(2) size by (simp add: dst1_def)
  moreover have "take (off + 4 + ?n) (write_at off (attribute_bytes a @ bs) dst) = take off dst @ attribute_bytes a @ bs"
    using k2'(2) size off(3) by (simp add: write_at_def)
  moreover have "take off dst1 = take off dst" "take 16 (drop 4 dst1) = take 16 (drop 4 dst)"
    using off window_write_at_disjoint [of off "attribute_bytes a" dst 4 16] h(2) by (simp_all add: dst1_def write_at_def)
  ultimately show ?thesis using bs size pad(1,2) by (intro exI [of _ bs]) (simp add: carries_def)
qed

section \<open>Lists of attributes\<close>

text \<open>The attributes of a message that carries the values \<open>vs\<close> from an offset on, as a receiver sees them.\<close>

definition seen :: "byte list \<Rightarrow> nat \<Rightarrow> attribute_value \<Rightarrow> stun_attribute" where
  "seen m off v = \<lparr>at_type = get_attribute_msg_type (value_type v), at_length = of_nat (byte_size_value v), at_data = At_serialized m (off + 4) (byte_size_value v)\<rparr>"

fun layout :: "byte list \<Rightarrow> nat \<Rightarrow> attribute_value list \<Rightarrow> stun_attribute list" where
  "layout m off [] = []"
| "layout m off (v # vs) = seen m off v # layout m (off + 4 + align4 (byte_size_value v)) vs"

text \<open>What precedes an attribute when it is written: the length field counts up to its end.\<close>

definition so_far :: "byte list \<Rightarrow> nat \<Rightarrow> attribute_value \<Rightarrow> byte list" where
  "so_far m off v = write_at 2 (htons_bytes (of_nat (off + 4 + align4 (byte_size_value v) - 20))) (take off m)"

fun reads :: "stun_params \<Rightarrow> byte list \<Rightarrow> nat \<Rightarrow> attribute_value list \<Rightarrow> bool" where
  "reads p m off [] = True"
| "reads p m off (v # vs) =
     (attribute_get (value_type v) (seen m off v) = Inr (read_back p (so_far m off v) v) \<and> reads p m (off + 4 + align4 (byte_size_value v)) vs)"

fun extent :: "nat \<Rightarrow> attribute_value list \<Rightarrow> nat" where
  "extent off [] = off"
| "extent off (v # vs) = extent (off + 4 + align4 (byte_size_value v)) vs"

definition made :: "attribute_value list \<Rightarrow> stun_attribute list \<Rightarrow> bool" where
  "made vs as \<longleftrightarrow> list_all2 (\<lambda>v a. make_attribute v = Inr a \<and> wire_ok v) vs as"

lemma parse_seen:
  assumes "take (off + 4 + length bs) m = pre @ attribute_bytes a @ bs" and "length pre = off" and "make_attribute v = Inr a"
    and "length bs = byte_size_value v" and "off + 4 + byte_size_value v \<le> length m"
  shows "parse_attribute m off = Inr (seen m off v, off + 4 + align4 (byte_size_value v))"
proof -
  note made = made_attribute [OF assms(3)]
  have m: "m = pre @ htons_bytes (at_type a) @ htons_bytes (at_length a) @ bs @ drop (off + 4 + length bs) m"
    using append_take_drop_id [of "off + 4 + length bs" m] unfolding assms(1) attribute_bytes_def by simp
  have "st_get 2 m off = Inr (htons_bytes (at_type a), off + 2)" by (subst m) (rule get_front [OF assms(2)], simp)
  moreover have "st_get 2 m (off + 2) = Inr (htons_bytes (at_length a), off + 4)"
    using get_front [of "pre @ htons_bytes (at_type a)" "off + 2" "htons_bytes (at_length a)" 2 "bs @ drop (off + 4 + length bs) m"] assms(2) m by simp
  moreover have "at_length a = of_nat (byte_size_value v)" using made(2) by (metis of_nat_unat ucast_id)
  ultimately show ?thesis using made assms(5)
    by (simp add: parse_attribute_def parse_attribute_header_def seen_def Let_def)
qed

text \<open>One round of the loop: the length field, then the attribute.\<close>

lemma serialize_step:
  assumes "make_attribute v = Inr a" and "serialize_attributes p (a # as) (of_nat (off - 20)) (dst, off) = Inr r"
    and "20 \<le> off" and "off \<le> length dst" and "off - 20 < 2 ^ 16" and off1: "off1 = off + 4 + align4 (byte_size_value v)"
  shows "off1 - 20 < 2 ^ 16" and "\<exists>k. serialize_attribute p a (write_at 2 (htons_bytes (of_nat (off1 - 20))) dst, off) = Inr k
      \<and> serialize_attributes p as (of_nat (off1 - 20)) k = Inr r"
proof -
  let ?n = "byte_size_value v"
  note att = made_attribute [OF assms(1)]
  have un: "unat (of_nat (off - 20) :: 16 word) = off - 20" using assms(5) by (simp add: unat_of_nat)
  have sum: "align4 ?n + 4 + (off - 20) = off1 - 20" using assms(3) by (simp add: off1)
  have le: "align4 ?n + 4 \<le> 2 ^ 16 - 1 - (off - 20)"
    using assms(2) by (auto simp: att st_then_Inr checked_length_def un split: if_splits)
  then show "off1 - 20 < 2 ^ 16" using sum assms(5) by simp
  from le have "checked_length (align4 ?n + 4) (of_nat (off - 20)) = Inr (of_nat (off1 - 20))"
    by (simp only: checked_length_def un sum) simp
  with assms(2-4) show "\<exists>k. serialize_attribute p a (write_at 2 (htons_bytes (of_nat (off1 - 20))) dst, off) = Inr k
      \<and> serialize_attributes p as (of_nat (off1 - 20)) k = Inr r"
    by (simp add: att st_then_Inr set_message_header_payload_length_def)
qed

text \<open>
  An attribute that has been written into \<open>dst1\<close> after the length field of \<open>dst\<close>, seen in a later state \<open>m\<close>
  of the message that differs from \<open>dst1\<close> in the length field and behind the attribute.
\<close>

lemma attribute_kept:
  assumes a: "make_attribute v = Inr a" "wire_ok v" and off1: "off1 = off + 4 + align4 (byte_size_value v)"
    and w: "w = htons_bytes (of_nat (off1 - 20))" and run: "serialize_attribute p a (write_at 2 w dst, off) = Inr (dst1, k)"
    and off: "20 \<le> off" "off mod 4 = 0" "off \<le> length dst" and m: "agree off1 m dst1"
  shows "agree off m dst" "attribute_get (value_type v) (seen m off v) = Inr (read_back p (so_far m off v) v)"
    "parse_attribute m off = Inr (seen m off v, off1)" "take 2 (drop 2 dst1) = w"
proof -
  let ?n = "byte_size_value v"
  define dst0 where "dst0 = write_at 2 w dst"
  have lw: "length w = 2" by (simp add: w)
  have len0: "length dst0 = length dst" using off lw by (simp add: dst0_def)
  obtain bs where bs: "length bs = ?n" "k = off1" "off1 \<le> length dst" "length dst1 = length dst"
      "take (off + 4 + ?n) dst1 = take off dst0 @ attribute_bytes a @ bs"
      "\<And>pre. length pre = off + 4 \<Longrightarrow> take 16 (drop 4 pre) = take 16 (drop 4 dst0) \<Longrightarrow>
         parse_exact (parse_value (value_type v)) (pre @ bs) (off + 4) = Inr (read_back p (take off dst0) v)"
    using attribute_written [OF a run] off len0 by (auto simp: off1 dst0_def)
  have le: "off + 4 + ?n \<le> off1" "off \<le> off1" using align4_facts [of ?n] by (simp_all add: off1)
  have pre: "take off dst1 = take off dst0" using arg_cong [OF bs(5), of "take off"] off(3) len0 by simp
  then have "agree off dst1 dst0" using agree_take len0 bs(4) off(1) by simp
  then have ag0: "agree off m dst0" by (rule agree_trans [OF agree_le [OF m le(2)]]) simp
  moreover have "agree off dst0 dst" unfolding dst0_def using agree_length lw off by simp
  ultimately show ag: "agree off m dst" by (rule agree_trans) simp
  have lenm: "length m = length dst" using ag by (simp add: agree_def)
  have tail: "take (off + 4 + ?n) m = take off m @ attribute_bytes a @ bs"
  proof -
    have "drop off (take (off + 4 + ?n) m) = drop off (take (off + 4 + ?n) dst1)"
      by (rule agree_drop [OF agree_le [OF m le(1)]]) (use off in simp)
    also have "\<dots> = attribute_bytes a @ bs" unfolding bs(5) using off len0 by simp
    finally have "drop off (take (off + 4 + ?n) m) = attribute_bytes a @ bs" .
    moreover have "take off (take (off + 4 + ?n) m) = take off m" by simp
    ultimately show ?thesis by (metis append_take_drop_id)
  qed
  have lenoff: "length (take off m) = off" using off lenm by simp
  have "take off dst0 = write_at 2 w (take off dst)" using off lw by (simp add: dst0_def write_at_def drop_take)
  then have data: "take off dst0 = so_far m off v" using agree_write [OF ag lw] by (simp add: so_far_def w off1)
  have "take 16 (drop 4 (take off m @ attribute_bytes a)) = take 16 (drop 4 m)" using off lenoff by (simp add: drop_take)
  also have "\<dots> = take 16 (drop 4 dst0)" by (rule agree_mask [OF ag0 off(1)])
  finally have "parse_exact (parse_value (value_type v)) ((take off m @ attribute_bytes a) @ bs) (off + 4) = Inr (read_back p (take off dst0) v)"
    by (intro bs(6)) (use lenoff in simp_all)
  then show "attribute_get (value_type v) (seen m off v) = Inr (read_back p (so_far m off v) v)"
    using tail by (simp add: attribute_get_def seen_def parse_data_def data add.assoc)
  show "parse_attribute m off = Inr (seen m off v, off1)" unfolding off1
    by (rule parse_seen [OF _ lenoff a(1) bs(1)]) (use tail bs lenm le in simp_all)
  have "take 2 (drop 2 dst1) = take 2 (drop 2 (take off dst1))" using off by (simp add: drop_take min_def)
  then show "take 2 (drop 2 dst1) = w" unfolding pre using off lw by (simp add: dst0_def write_at_def)
qed

lemma attributes_written:
  assumes "made vs as" and "serialize_attributes p as (of_nat (off - 20)) (dst, off) = Inr (dst', off')"
    and "20 \<le> off" and "off mod 4 = 0" and "off \<le> length dst" and "off - 20 < 2 ^ 16"
  shows "length dst' = length dst \<and> off' = extent off vs \<and> off \<le> off' \<and> off' \<le> length dst \<and> off' - 20 < 2 ^ 16 \<and> agree off dst' dst
    \<and> (vs \<noteq> [] \<longrightarrow> take 2 (drop 2 dst') = htons_bytes (of_nat (off' - 20))) \<and> reads p dst' off vs
    \<and> (off' = length dst' \<longrightarrow> (\<forall>us. parse_attributes dst' off us = Inr (us @ layout dst' off vs, off')))"
  using assms
proof (induction vs arbitrary: as off dst)
  case Nil
  then show ?case by (auto simp: made_def agree_refl parse_attributes.simps)
next
  case (Cons v vs)
  then obtain a as' where as: "as = a # as'" "make_attribute v = Inr a" "wire_ok v" "made vs as'" by (auto simp: made_def list_all2_Cons1)
  define off1 where "off1 = off + 4 + align4 (byte_size_value v)"
  define w where "w = htons_bytes (of_nat (off1 - 20))"
  note step = serialize_step [OF as(2) Cons.prems(2) [unfolded as(1)] Cons.prems(3,5,6) off1_def]
  obtain dst1 k where k: "serialize_attribute p a (write_at 2 w dst, off) = Inr (dst1, k)" "serialize_attributes p as' (of_nat (off1 - 20)) (dst1, k) = Inr (dst', off')"
    using step(2) by (auto simp: w_def)
  have len: "length (write_at 2 w dst) = length dst" using Cons.prems(3,5) by (simp add: w_def)
  have bs: "k = off1" "off1 \<le> length dst" "length dst1 = length dst"
    using attribute_written [OF as(2,3) k(1)] Cons.prems(3-5) len by (auto simp: off1_def)
  have off1: "20 \<le> off1" "off1 mod 4 = 0" "off < off1" using Cons.prems(3,4) align4_facts [of "byte_size_value v"] by (auto simp: off1_def mod_simps)
  have ih: "length dst' = length dst" "off' = extent off1 vs" "off1 \<le> off'" "off' \<le> length dst" "off' - 20 < 2 ^ 16" "agree off1 dst' dst1"
      "vs \<noteq> [] \<longrightarrow> take 2 (drop 2 dst') = htons_bytes (of_nat (off' - 20))" "reads p dst' off1 vs"
      "off' = length dst' \<longrightarrow> (\<forall>us. parse_attributes dst' off1 us = Inr (us @ layout dst' off1 vs, off'))"
    using Cons.IH [OF as(4) k(2) [unfolded bs(1)] off1(1,2) bs(2) [folded bs(3)] step(1)] bs(3) by auto
  note kept = attribute_kept [OF as(2,3) off1_def w_def k(1) Cons.prems(3-5) ih(6)]
  have "take 2 (drop 2 dst') = htons_bytes (of_nat (off' - 20))"
    using ih(7) kept(4) k(2) bs(1) as(4) by (cases vs) (simp_all add: made_def w_def)
  moreover have "parse_attributes dst' off us = Inr (us @ layout dst' off (v # vs), off')" if "off' = length dst'" for us
    using ih(9) kept(3) that off1(3) ih(3) by (subst parse_attributes.simps) (simp add: off1_def)
  moreover have "reads p dst' off (v # vs)" "off' = extent off (v # vs)" using kept(2) ih(2,8) by (simp_all add: off1_def)
  moreover have "off \<le> off'" using ih(3) off1 by simp
  ultimately show ?case using ih(1,4,5) kept(1) by blast
qed

end
