(* ===== verification/StunCorrect.thy ===== *)
theory StunCorrect
  imports StunWire
begin

unbundle bit_operations_syntax

text \<open>
  The STUN codec keeps its promises: what is built, serialized and parsed is the message that was built, and
  a message that carries an integrity attribute or a fingerprint passes the check of its receiver.
\<close>

section \<open>A message that was built\<close>

fun add_attributes :: "attribute_value list \<Rightarrow> stun_message \<Rightarrow> stun_error + stun_message" where
  "add_attributes [] m = Inr m"
| "add_attributes (v # vs) m = st_then (add_attribute v m) (add_attributes vs)"

definition stun_message_of :: "16 word \<Rightarrow> byte list \<Rightarrow> attribute_value list \<Rightarrow> stun_error + stun_message" where
  "stun_message_of type tid vs = st_then (add_attributes vs (message_builder type tid)) build"

lemma add_attributes_made:
  "add_attributes vs m = Inr m' \<Longrightarrow> list_all wire_ok vs \<Longrightarrow>
     \<exists>as. sm_attributes m' = sm_attributes m @ as \<and> made vs as \<and> sm_header m' = sm_header m"
proof (induction vs arbitrary: m)
  case Nil
  then show ?case by (simp add: made_def)
next
  case (Cons v vs)
  then obtain a where a: "make_attribute v = Inr a" "add_attributes vs (m\<lparr>sm_attributes := sm_attributes m @ [a]\<rparr>) = Inr m'"
    by (auto simp: add_attribute_def st_then_Inr)
  from Cons.IH [OF a(2)] Cons.prems(2) obtain as where "sm_attributes m' = (sm_attributes m @ [a]) @ as" "made vs as" "sm_header m' = sm_header m" by auto
  with a(1) Cons.prems(2) show ?case by (intro exI [of _ "a # as"]) (simp add: made_def)
qed

lemma extent_plus: "extent off vs = off + extent 0 vs"
proof (induction vs arbitrary: off)
  case (Cons v vs)
  show ?case using Cons [of "off + 4 + align4 (byte_size_value v)"] Cons [of "4 + align4 (byte_size_value v)"] by simp
qed simp

lemma extent_mod: "off mod 4 = 0 \<Longrightarrow> extent off vs mod 4 = 0"
proof (induction vs arbitrary: off)
  case (Cons v vs)
  then have "(off + 4 + align4 (byte_size_value v)) mod 4 = 0" using align4_facts(3) [of "byte_size_value v"] by presburger
  with Cons.IH show ?case by simp
qed simp

lemma made_size: "made vs as \<Longrightarrow> byte_size_attributes as = Inr (extent 0 vs)"
proof (induction vs arbitrary: as)
  case Nil
  then show ?case by (simp add: made_def)
next
  case (Cons v vs)
  then obtain a as' where "as = a # as'" "make_attribute v = Inr a" "made vs as'" by (auto simp: made_def list_all2_Cons1)
  with Cons.IH [of as'] made_attribute(4) [of v a] extent_plus [of "4 + align4 (byte_size_value v)" vs] show ?case by simp
qed

lemma and3: "(w :: 16 word) AND 3 = 0 \<longleftrightarrow> unat w mod 4 = 0"
proof -
  have "w AND 3 = take_bit 2 w" by (simp add: take_bit_eq_mask mask_eq_exp_minus_1)
  moreover have "unat (take_bit 2 w) = unat w mod 4" by (simp add: unsigned_take_bit_eq take_bit_eq_mod unat_mod_distrib)
  ultimately show ?thesis by (metis unat_eq_0)
qed

definition header_bytes :: "stun_header \<Rightarrow> byte list" where
  "header_bytes h = htons_bytes (h_type h) @ htons_bytes (h_payload_length h) @ htonl_bytes (h_magic h) @ h_transaction_id h"

lemma serialize_header_put: "serialize_header h k = st_put (header_bytes h) k"
  using put_put [of _ "fst k" "snd k"] by (simp add: serialize_header_def header_bytes_def put_then)

lemma parse_header_bytes:
  assumes "take 20 m = header_bytes h" and "length (h_transaction_id h) = 12" and "h_type h = encode_msg_type c Binding" and "h_magic h = STUN_MAGIC"
    and "length m = 20 + unat (h_payload_length h)" and "unat (h_payload_length h) mod 4 = 0"
  shows "parse_header m 0 = Inr (h, 20)"
proof -
  have m: "m = htons_bytes (h_type h) @ htons_bytes (h_payload_length h) @ htonl_bytes (h_magic h) @ h_transaction_id h @ drop 20 m"
    using append_take_drop_id [of 20 m] unfolding assms(1) header_bytes_def by simp
  have "m ! 0 = ucast (drop_bit 8 (h_type h))" by (subst m) (simp add: htons_bytes_def)
  then have start: "m ! 0 AND 0xC0 = 0" using assms(3) by (cases c) (simp_all add: encode_msg_type_def)
  have "st_get 2 m 0 = Inr (htons_bytes (h_type h), 2)" by (subst m) (simp add: st_get_def)
  moreover have "st_get 2 m 2 = Inr (htons_bytes (h_payload_length h), 4)"
    using get_front [of "htons_bytes (h_type h)" 2 "htons_bytes (h_payload_length h)" 2 "htonl_bytes (h_magic h) @ h_transaction_id h @ drop 20 m"] m by simp
  moreover have "st_get 4 m 4 = Inr (htonl_bytes (h_magic h), 8)"
    using get_front [of "htons_bytes (h_type h) @ htons_bytes (h_payload_length h)" 4 "htonl_bytes (h_magic h)" 4 "h_transaction_id h @ drop 20 m"] m by simp
  moreover have "take 12 (drop 8 m) = h_transaction_id h"
    using assms(2) by (subst m) simp
  moreover have "parse_stun_class (h_type h) = Inr c" "parse_stun_method (h_type h) = Inr Binding"
    using assms(3) by (cases c; simp add: encode_msg_type_def parse_stun_class_def parse_stun_method_def STUN_GET_CLASS_def STUN_GET_METHOD_def)+
  ultimately show ?thesis using assms(4-6) start by (simp add: parse_header_def and3 Let_def)
qed

text \<open>A message that has been written is read back with its header and its attributes.\<close>

lemma message_written:
  assumes "stun_message_of (encode_msg_type c Binding) tid vs = Inr m" and "serialize_to_memory p fill m = Inr bytes"
    and "length tid = 12" and "list_all wire_ok vs"
  shows "message_parse bytes = Inr \<lparr>sm_header = sm_header m, sm_attributes = layout bytes 20 vs\<rparr>" "reads p bytes 20 vs"
    "length bytes = extent 20 vs" "unat (h_payload_length (sm_header m)) = extent 0 vs"
    "take 2 (drop 2 bytes) = htons_bytes (h_payload_length (sm_header m))" "h_transaction_id (sm_header m) = tid"
    "h_type (sm_header m) = encode_msg_type c Binding"
proof -
  obtain m0 where m0: "add_attributes vs (message_builder (encode_msg_type c Binding) tid) = Inr m0" "build m0 = Inr m"
    using assms(1) by (auto simp: stun_message_of_def st_then_Inr)
  obtain as where as: "sm_attributes m0 = as" "made vs as" "sm_header m0 = sm_header (message_builder (encode_msg_type c Binding) tid)"
    using add_attributes_made [OF m0(1) assms(4)] by (auto simp: message_builder_def)
  define n where "n = extent 0 vs"
  have size: "byte_size_attributes as = Inr n" using made_size [OF as(2)] by (simp add: n_def)
  then have small: "n < 2 ^ 16" and m: "m = m0\<lparr>sm_header := (sm_header m0)\<lparr>h_payload_length := of_nat n\<rparr>\<rparr>"
    using m0(2) as(1) by (auto simp: build_def checked_length_def st_then_Inr split: if_splits)
  define h where "h = sm_header m"
  have h: "h_type h = encode_msg_type c Binding" "h_magic h = STUN_MAGIC" "h_transaction_id h = tid" "h_payload_length h = of_nat n" "sm_attributes m = as"
    using as by (simp_all add: h_def m message_builder_def)
  have un: "unat (h_payload_length h) = n" using small h(4) by (simp add: unat_of_nat)
  define dst where "dst = write_at 0 (header_bytes h) (map fill [0..<20 + n])"
  have lh: "length (header_bytes h) = 20" using h assms(3) by (simp add: header_bytes_def)
  have "serialize_header h (map fill [0..<20 + n], 0) = Inr (dst, 20)"
    using lh by (simp add: serialize_header_put st_put_def dst_def)
  moreover obtain k where "serialize_message p m (map fill [0..<20 + n], 0) = Inr k" "bytes = fst k"
    using assms(2) size h(5) by (auto simp: serialize_to_memory_def byte_size_message_def st_then_Inr)
  ultimately obtain k where run: "serialize_attributes p as (of_nat (20 - 20)) (dst, 20) = Inr (bytes, k)"
    by (cases k) (auto simp: serialize_message_def h_def [symmetric] h(5))
  have ld: "length dst = 20 + n" using lh by (simp add: dst_def)
  have ext: "extent 20 vs = 20 + n" using extent_plus [of 20 vs] by (simp add: n_def)
  note written = attributes_written [OF as(2) run]
  then have w: "length bytes = 20 + n" "agree 20 bytes dst" "vs \<noteq> [] \<longrightarrow> take 2 (drop 2 bytes) = htons_bytes (of_nat n)" "reads p bytes 20 vs"
      "parse_attributes bytes 20 [] = Inr (layout bytes 20 vs, 20 + n)"
    using ld ext by simp_all
  have dst20: "take 20 dst = header_bytes h" using lh by (simp add: dst_def write_at_def)
  have "take 2 (drop 2 dst) = take 2 (drop 2 (take 20 dst))" by (simp add: drop_take)
  then have fd: "take 2 (drop 2 dst) = htons_bytes (h_payload_length h)" unfolding dst20 by (simp add: header_bytes_def)
  have field: "take 2 (drop 2 bytes) = htons_bytes (h_payload_length h)"
    using w(3) fd h(4) run as(2) by (cases vs) (simp_all add: made_def)
  then have front: "take 20 bytes = header_bytes h" using agree_front [OF w(2)] fd dst20 by simp
  have "parse_header bytes 0 = Inr (h, 20)"
    by (rule parse_header_bytes [OF front]) (use h assms(3) w(1) un extent_mod [of 0 vs] in \<open>simp_all add: n_def\<close>)
  then show "message_parse bytes = Inr \<lparr>sm_header = sm_header m, sm_attributes = layout bytes 20 vs\<rparr>"
    using w(1,5) by (simp add: message_parse_def parse_exact_def parse_message_def h_def)
  show "reads p bytes 20 vs" "length bytes = extent 20 vs" "unat (h_payload_length (sm_header m)) = extent 0 vs"
    "take 2 (drop 2 bytes) = htons_bytes (h_payload_length (sm_header m))" "h_transaction_id (sm_header m) = tid"
    "h_type (sm_header m) = encode_msg_type c Binding"
    using w ext un field h by (simp_all add: h_def [symmetric] n_def)
qed

section \<open>Round trips\<close>

text \<open>Values whose bytes do not depend on the rest of the message.\<close>

fun plain_value :: "attribute_value \<Rightarrow> bool" where
  "plain_value (Message_integrity (Mi_input _)) = False"
| "plain_value (Fingerprint None) = False"
| "plain_value v = True"

lemma plain_read_back: "plain_value v \<Longrightarrow> read_back p data v = v"
  by (cases "(p, data, v)" rule: read_back.cases) auto

lemma reads_all2:
  "reads p m off vs \<Longrightarrow> list_all2 (\<lambda>v a. at_type a = get_attribute_msg_type (value_type v)
     \<and> (plain_value v \<longrightarrow> attribute_get (value_type v) a = Inr v)) vs (layout m off vs)"
  by (induction vs arbitrary: off) (simp_all add: seen_def plain_read_back)


section \<open>Fingerprints and integrity\<close>

lemma layout_append: "layout m off (us @ vs) = layout m off us @ layout m (extent off us) vs"
  by (induction us arbitrary: off) simp_all

lemma reads_append: "reads p m off (us @ vs) \<longleftrightarrow> reads p m off us \<and> reads p m (extent off us) vs"
  by (induction us arbitrary: off) auto

lemma extent_append: "extent off (us @ vs) = extent (extent off us) vs"
  by (induction us arbitrary: off) simp_all

lemma extent_le: "off \<le> extent off vs"
  using extent_plus [of off vs] by simp

lemma msg_type_inject: "get_attribute_msg_type s = get_attribute_msg_type t \<longleftrightarrow> s = t"
  by (cases s; cases t; simp)

lemma layout_other: "\<forall>v \<in> set vs. value_type v \<noteq> t \<Longrightarrow> a \<in> set (layout m off vs) \<Longrightarrow> at_type a \<noteq> get_attribute_msg_type t"
  by (induction vs arbitrary: off) (auto simp: seen_def msg_type_inject)

lemma find_skip: "(\<And>x. x \<in> set xs \<Longrightarrow> \<not> P x) \<Longrightarrow> P y \<Longrightarrow> find P (xs @ y # ys) = Some y"
  by (induction xs) auto

lemma write_same: "take 2 (drop 2 (m :: byte list)) = w \<Longrightarrow> 4 \<le> e \<Longrightarrow> e \<le> length m \<Longrightarrow> write_at 2 w (take e m) = take e m"
proof -
  assume a: "take 2 (drop 2 m) = w" "4 \<le> e" "e \<le> length m"
  then have "length w = 2" by auto
  then have "agree e (write_at 2 w (take e m)) (take e m)" using agree_length [of w "take e m"] a by simp
  moreover have "take 2 (drop 2 (write_at 2 w (take e m))) = take 2 (drop 2 (take e m))"
    using a \<open>length w = 2\<close> by (simp add: write_at_def drop_take)
  ultimately have "take e (write_at 2 w (take e m)) = take e (take e m)" using agree_front a(2) by blast
  with a \<open>length w = 2\<close> show ?thesis by simp
qed

lemma fingerprint_checked:
  assumes "stun_message_of (encode_msg_type c Binding) tid (vs @ [Fingerprint None]) = Inr m" and "serialize_to_memory p fill m = Inr bytes"
    and "length tid = 12" and "list_all wire_ok vs" and "T_fingerprint \<notin> value_type ` set vs"
  shows "st_then (message_parse bytes) (check_fingerprint p) = Inr ()"
proof -
  have ok: "list_all wire_ok (vs @ [Fingerprint None])" using assms(4) by simp
  note w = message_written [OF assms(1-3) ok]
  define e where "e = extent 20 vs"
  have four: "align4 4 = 4" by (rule align4_id) simp
  have e: "20 \<le> e" "length bytes = e + 8" using extent_le [of 20 vs] w(3) four by (simp_all add: e_def extent_append)
  let ?a = "seen bytes e (Fingerprint None)"
  have find: "find (\<lambda>a. at_type a = get_attribute_msg_type T_fingerprint) (layout bytes 20 vs @ [?a]) = Some ?a"
  proof (rule find_skip)
    show "at_type a \<noteq> get_attribute_msg_type T_fingerprint" if "a \<in> set (layout bytes 20 vs)" for a
      by (rule layout_other [OF _ that]) (use assms(5) in \<open>auto simp: image_iff\<close>)
  qed (simp add: seen_def)
  have "extent 0 (vs @ [Fingerprint None]) = e + 8 - 20" using extent_plus [of 20 "vs @ [Fingerprint None]"] w(3) e by simp
  then have "take 2 (drop 2 bytes) = htons_bytes (of_nat (e + 8 - 20))" using w(4,5) by (metis of_nat_unat ucast_id)
  then have "so_far bytes e (Fingerprint None) = take e bytes" using e write_same [of bytes _ e] four by (simp add: so_far_def)
  moreover have "attribute_get T_fingerprint ?a = Inr (read_back p (so_far bytes e (Fingerprint None)) (Fingerprint None))"
    using w(2) by (simp add: reads_append e_def)
  ultimately have get: "attribute_get T_fingerprint ?a = Inr (Fingerprint (Some (fingerprint_crc32 p (take e bytes))))" by simp
  have data: "get_data_serialized ?a = Inr (bytes, e + 4, 4)" "st_before bytes (e + 4) = Inr (take e bytes)"
    using e by (simp_all add: get_data_serialized_def seen_def st_before_def)
  have parse: "message_parse bytes = Inr \<lparr>sm_header = sm_header m, sm_attributes = layout bytes 20 vs @ [?a]\<rparr>"
    using w(1) by (simp add: layout_append e_def)
  show ?thesis unfolding parse
    by (simp add: check_fingerprint_def get_attribute_def find_attribute_def find get data del: get_attribute_msg_type.simps)
qed

text \<open>
  A message that is built with a fingerprint as its last attribute passes the check of the fingerprint
  when it has been serialized and parsed.
\<close>

theorem stun_fingerprint_checked:
  assumes "stun_message_of (encode_msg_type c Binding) tid (vs @ [Fingerprint None]) = Inr m" and "serialize_to_memory p fill m = Inr bytes"
    and "length tid = 12" and "list_all wire_ok vs" and "T_fingerprint \<notin> value_type ` set vs"
  shows "st_then (message_parse bytes) (check_fingerprint p) = Inr ()"
  by (rule fingerprint_checked [OF assms])

lemma find_integrity_skip:
  "T_message_integrity \<notin> value_type ` set vs \<Longrightarrow> find_integrity (layout m off vs @ as) n = find_integrity as (n + extent 0 vs)"
proof (induction vs arbitrary: off n)
  case (Cons v vs)
  have "at_type (seen m off v) \<noteq> get_attribute_msg_type T_message_integrity" using Cons.prems by (auto simp: seen_def msg_type_inject simp del: get_attribute_msg_type.simps)
  moreover have "byte_size_attribute (seen m off v) = Inr (align4 (byte_size_value v) + 4)" by (simp add: seen_def byte_size_attribute_def)
  ultimately show ?case using Cons.IH Cons.prems extent_plus [of "4 + align4 (byte_size_value v)" vs] by (simp add: add.commute add.left_commute)
qed simp

lemma integrity_checked:
  assumes "stun_message_of (encode_msg_type c Binding) tid (us @ Message_integrity (Mi_input password) # vs) = Inr m"
    and "serialize_to_memory p fill m = Inr bytes" and "length tid = 12" and "list_all wire_ok us" and "list_all wire_ok vs"
    and "T_message_integrity \<notin> value_type ` set us"
  shows "st_then (message_parse bytes) (check_message_integrity p writable password) = Inr bytes"
proof -
  let ?v = "Message_integrity (Mi_input password)"
  have ok: "list_all wire_ok (us @ ?v # vs)" using assms(4,5) by simp
  note w = message_written [OF assms(1-3) ok]
  define e where "e = extent 20 us"
  have twenty: "align4 20 = 20" by (rule align4_id) simp
  have e: "20 \<le> e" "e + 24 \<le> length bytes"
    using extent_le [of 20 us] w(3) twenty extent_le [of "e + 24" vs] by (simp_all add: e_def extent_append add.commute)
  let ?a = "seen bytes e ?v"
  have "attribute_get T_message_integrity ?a = Inr (read_back p (so_far bytes e ?v) ?v)" using w(2) by (simp add: reads_append e_def)
  moreover have "attribute_get T_message_integrity ?a \<noteq> Inr ?v"
    by (auto simp: attribute_get_def seen_def parse_data_def parse_exact_def st_map_def st_then_Inr)
  ultimately obtain digest where d: "hmac_sha1 p (so_far bytes e ?v) password = Inr digest" "attribute_get T_message_integrity ?a = Inr (Message_integrity (Mi_output digest))"
    by (auto split: sum.splits)
  have sum: "extent 0 us + 24 = e + 24 - 20" using extent_plus [of 20 us] by (simp add: e_def)
  define x where "x = htons_bytes (of_nat (e + 24 - 20))"
  have x: "length x = 2" by (simp add: x_def)
  have so: "take e (write_at 2 x bytes) = so_far bytes e ?v"
    using e x twenty by (simp add: so_far_def x_def write_at_def drop_take)
  have old: "get_message_header_payload_length bytes = Inr (ntohs_bytes (take 2 (drop 2 bytes)))"
    using e by (simp add: get_message_header_payload_length_def)
  have "write_at 2 (take 2 (drop 2 bytes)) (write_at 2 x bytes) = write_at 2 (take 2 (drop 2 bytes)) bytes"
    using e x by (simp add: write_at_def)
  then have restored: "write_at 2 (htons_bytes (ntohs_bytes (take 2 (drop 2 bytes)))) (write_at 2 x bytes) = bytes"
    using write_same [of bytes _ "length bytes"] e by (simp add: htons_split)
  have parse: "message_parse bytes = Inr \<lparr>sm_header = sm_header m, sm_attributes = layout bytes 20 us @ ?a # layout bytes (e + 4 + align4 20) vs\<rparr>"
    using w(1) by (simp add: layout_append e_def)
  have find: "find_integrity (layout bytes 20 us @ ?a # layout bytes (e + 4 + align4 20) vs) 0 = Inr (e + 24 - 20, ?a)"
    unfolding find_integrity_skip [OF assms(6)] using sum twenty by (simp add: seen_def byte_size_attribute_def)
  have data: "get_data_serialized ?a = Inr (bytes, e + 4, 20)" by (simp add: get_data_serialized_def seen_def)
  have set: "set_message_header_payload_length bytes (of_nat (e + 24 - 20)) = Inr (write_at 2 x bytes)"
      "set_message_header_payload_length (write_at 2 x bytes) (ntohs_bytes (take 2 (drop 2 bytes))) = Inr bytes"
    using e x restored by (simp_all add: set_message_header_payload_length_def x_def)
  have before: "st_before (write_at 2 x bytes) (e + 4) = Inr (so_far bytes e ?v)" using e x so by (simp add: st_before_def)
  show ?thesis unfolding parse st_then_simps check_message_integrity_def stun_message.simps find prod.case d(2) attribute_value.case
      message_integrity.case data old set before d(1) by (simp add: set)
qed

text \<open>
  A message that is built with an integrity attribute under a password passes the check of the integrity
  under this password when it has been serialized and parsed, whatever attributes follow; and the check
  leaves the memory of the message as it was, in writable memory too.
\<close>

theorem stun_integrity_checked:
  assumes "stun_message_of (encode_msg_type c Binding) tid (us @ Message_integrity (Mi_input password) # vs) = Inr m"
    and "serialize_to_memory p fill m = Inr bytes" and "length tid = 12" and "list_all wire_ok us" and "list_all wire_ok vs"
    and "T_message_integrity \<notin> value_type ` set us"
  shows "st_then (message_parse bytes) (check_message_integrity p writable password) = Inr bytes"
  by (rule integrity_checked [OF assms])

end
