(* ===== verification/StunSafe.thy ===== *)
theory StunSafe
  imports StunCorrect
begin

unbundle bit_operations_syntax

text \<open>
  What a receiver can rely on for bytes of any origin: the attributes of a message that parses tile it from
  the end of the header to its last byte, reading one of them never leaves the message, and the integrity
  check accepts nothing but the digest under the password.
\<close>

section \<open>Attributes tile the message\<close>

fun tiled :: "byte list \<Rightarrow> nat \<Rightarrow> stun_attribute list \<Rightarrow> bool" where
  "tiled m off [] = (off = length m)"
| "tiled m off (a # as) =
     (at_data a = At_serialized m (off + 4) (unat (at_length a)) \<and> take 4 (drop off m) = attribute_bytes a
      \<and> off + 4 + unat (at_length a) \<le> length m \<and> tiled m (off + 4 + align4 (unat (at_length a))) as)"

lemma get_Inr: "st_get n m off = Inr (bs, o1) \<Longrightarrow> off + n \<le> length m \<and> bs = take n (drop off m) \<and> length bs = n \<and> o1 = off + n"
  by (auto simp: st_get_def split: if_splits)

lemma parse_attribute_Inr:
  assumes "parse_attribute m off = Inr (a, o1)"
  shows "at_data a = At_serialized m (off + 4) (unat (at_length a)) \<and> take 4 (drop off m) = attribute_bytes a
    \<and> off + 4 + unat (at_length a) \<le> length m \<and> o1 = off + 4 + align4 (unat (at_length a))"
proof -
  obtain t ot l ol where g: "st_get 2 m off = Inr (t, ot)" "st_get 2 m ot = Inr (l, ol)" "\<not> length m - off < 4 + unat (ntohs_bytes l)"
      "a = \<lparr>at_type = ntohs_bytes t, at_length = ntohs_bytes l, at_data = At_serialized m ol (unat (ntohs_bytes l))\<rparr>"
      "o1 = ol + align4 (unat (ntohs_bytes l))"
    using assms by (auto simp: parse_attribute_def parse_attribute_header_def st_then_Inr Let_def split: if_splits)
  note t = get_Inr [OF g(1)]
  note l = get_Inr [OF g(2)]
  have "take 4 (drop off m) = take 2 (drop off m) @ take 2 (drop (off + 2) m)" using take_add [of 2 2 "drop off m"] by (simp add: add.commute)
  with t l g(3-5) show ?thesis by (simp add: attribute_bytes_def htons_split)
qed

lemma parse_tiled: "parse_attributes m off us = Inr (us', e) \<Longrightarrow> \<exists>as. us' = us @ as \<and> tiled m off as \<and> e = length m"
proof (induction m off us rule: parse_attributes.induct)
  case (1 m off us)
  show ?case
  proof (cases "off < length m")
    case True
    with 1(2) obtain a o1 where a: "parse_attribute m off = Inr (a, o1)" "parse_attributes m o1 (us @ [a]) = Inr (us', e)"
      by (subst (asm) parse_attributes.simps) (auto simp: st_then_Inr)
    from 1(1) [OF True a(1) refl a(2)] obtain as where "us' = (us @ [a]) @ as" "tiled m o1 as" "e = length m" by auto
    with parse_attribute_Inr [OF a(1)] show ?thesis by (intro exI [of _ "a # as"]) simp
  next
    case False
    with 1(2) show ?thesis by (subst (asm) parse_attributes.simps) (simp split: if_splits)
  qed
qed

lemma tiled_size: "tiled m off as \<Longrightarrow> byte_size_attributes as = Inr (length m - off) \<and> off \<le> length m"
proof (induction as arbitrary: off)
  case (Cons a as)
  from Cons.prems have "tiled m (off + 4 + align4 (unat (at_length a))) as" "at_data a = At_serialized m (off + 4) (unat (at_length a))" by simp_all
  with Cons.IH [of "off + 4 + align4 (unat (at_length a))"] show ?case by (auto simp: byte_size_attribute_def)
qed simp

lemma tiled_within: "tiled m off as \<Longrightarrow> a \<in> set as \<Longrightarrow> \<exists>o1. off \<le> o1 \<and> at_data a = At_serialized m (o1 + 4) (unat (at_length a)) \<and> o1 + 4 + unat (at_length a) \<le> length m"
proof (induction as arbitrary: off)
  case (Cons b as)
  show ?case
  proof (cases "a = b")
    case True
    with Cons.prems show ?thesis by auto
  next
    case False
    with Cons.prems have "a \<in> set as" "tiled m (off + 4 + align4 (unat (at_length b))) as" by simp_all
    from Cons.IH [OF this(2,1)] show ?thesis by (meson add_leD1)
  qed
qed simp

text \<open>Reading a value stays within the memory it is given.\<close>

lemma then_Out: "st_then r f = Inl e \<longleftrightarrow> r = Inl e \<or> (\<exists>x. r = Inr x \<and> f x = Inl e)"
  by (cases r) auto

lemma get_not_Out [simp]: "st_get n m off \<noteq> Inl Out_of_bounds"
  by (simp add: st_get_def)

lemma parse_mapped_not_Out: "parse_mapped m off \<noteq> Inl Out_of_bounds"
  by (auto simp: parse_mapped_def then_Out parse_family_def Let_def split: if_splits)

lemma parse_unknown_not_Out: "parse_unknown_loop m off us \<noteq> Inl Out_of_bounds"
proof (induction m off us rule: parse_unknown_loop.induct)
  case (1 m off us)
  then show ?case by (subst parse_unknown_loop.simps) (auto simp: then_Out)
qed

lemma parse_mapped_address: "parse_mapped m off = Inr (a, o1) \<Longrightarrow> address_ok a"
  by (auto simp: parse_mapped_def st_then_Inr address_ok_def Let_def dest!: get_Inr split: if_splits)

lemma parse_string_not_Out: "off \<le> length m \<Longrightarrow> parse_string m off \<noteq> Inl Out_of_bounds"
  by (simp add: parse_string_def)

lemma parse_error_code_not_Out: "parse_error_code m off \<noteq> Inl Out_of_bounds"
  by (auto simp: parse_error_code_def then_Out parse_string_def dest!: get_Inr split: if_splits)

lemma parse_xor_not_Out: "20 \<le> length m \<Longrightarrow> parse_xor_mapped m off \<noteq> Inl Out_of_bounds"
proof
  assume m: "20 \<le> length m" and "parse_xor_mapped m off = Inl Out_of_bounds"
  then obtain a o1 where "parse_mapped m off = Inr (a, o1)" "apply_mask (take 16 (drop 4 m)) a = Inl Out_of_bounds"
    using parse_mapped_not_Out by (auto simp: parse_xor_mapped_def then_Out read_mask_def)
  with apply_mask_twice [OF parse_mapped_address, of m off a o1 "take 16 (drop 4 m)"] m show False by auto
qed

lemma map_not_Out: "r \<noteq> Inl Out_of_bounds \<Longrightarrow> st_map f r \<noteq> Inl Out_of_bounds"
  by (auto simp: st_map_def then_Out)

lemma parse_value_not_Out: "off \<le> length m \<Longrightarrow> 20 \<le> length m \<Longrightarrow> parse_value t m off \<noteq> Inl Out_of_bounds"
  by (cases t) (simp_all add: map_not_Out parse_mapped_not_Out parse_xor_not_Out parse_string_not_Out parse_error_code_not_Out parse_unknown_def
      parse_unknown_not_Out)

lemma st_then_E: "st_then r f = Inr y \<Longrightarrow> (\<And>x. r = Inr x \<Longrightarrow> f x = Inr y \<Longrightarrow> P) \<Longrightarrow> P"
  by (cases r) auto

lemma parse_header_Inr:
  assumes "parse_header m 0 = Inr (h, o1)"
  shows "o1 = 20 \<and> length m = 20 + unat (h_payload_length h) \<and> h_magic h = STUN_MAGIC \<and> unat (h_payload_length h) mod 4 = 0
    \<and> take 20 m = header_bytes h"
proof -
  have n: "20 \<le> length m" using assms by (simp add: parse_header_def Let_def split: if_splits)
  obtain t ot l ol g og where get: "st_get 2 m 0 = Inr (t, ot)" "st_get 2 m ot = Inr (l, ol)" "st_get 4 m ol = Inr (g, og)"
      and h: "h = \<lparr>h_type = ntohs_bytes t, h_payload_length = ntohs_bytes l, h_magic = ntohl_bytes g, h_transaction_id = take 12 (drop og m)\<rparr>"
      "ntohl_bytes g = STUN_MAGIC" "ntohs_bytes l AND 0x03 = 0" "length m = 20 + unat (ntohs_bytes l)" "o1 = og + 12"
    using assms unfolding parse_header_def Let_def by (auto elim!: st_then_E split: if_splits)
  note t = get_Inr [OF get(1)]
  note l = get_Inr [OF get(2)]
  note g = get_Inr [OF get(3)]
  have "take 20 m = take 2 m @ take 2 (drop 2 m) @ take 4 (drop 4 m) @ take 12 (drop 8 m)"
    using take_add [of 2 18 m] take_add [of 2 16 "drop 2 m"] take_add [of 4 12 "drop 4 m"] by simp
  moreover have at: "ot = 2" "ol = 4" "og = 8" using t l g by linarith+
  ultimately have "take 20 m = t @ l @ g @ h_transaction_id h" using t l g h(1) by (simp only: at drop0 stun_header.simps)
  moreover have "htons_bytes (h_type h) = t" "htons_bytes (h_payload_length h) = l" "htonl_bytes (h_magic h) = g"
    using t l g htons_split [of t] htons_split [of l] htonl_split [of g] unfolding h(1) stun_header.simps by blast+
  ultimately have "take 20 m = header_bytes h" by (simp only: header_bytes_def)
  moreover have "h_magic h = STUN_MAGIC" and len: "h_payload_length h = ntohs_bytes l" using h(2) unfolding h(1) stun_header.simps by blast+
  moreover have "o1 = 20" using h(5) at(3) by linarith
  ultimately show ?thesis unfolding len using h(3) [unfolded and3] h(4) by blast
qed

lemma message_parse_Inr:
  assumes "message_parse bytes = Inr m"
  shows "parse_header bytes 0 = Inr (sm_header m, 20)" and "tiled bytes 20 (sm_attributes m)"
proof -
  obtain h o1 as e where h: "parse_header bytes 0 = Inr (h, o1)" "parse_attributes bytes o1 [] = Inr (as, e)" "m = \<lparr>sm_header = h, sm_attributes = as\<rparr>"
    using assms unfolding message_parse_def parse_exact_def parse_message_def by (auto elim!: st_then_E split: if_splits)
  then have "o1 = 20" using parse_header_Inr by blast
  with h parse_tiled [OF h(2)] show "parse_header bytes 0 = Inr (sm_header m, 20)" "tiled bytes 20 (sm_attributes m)" by auto
qed

text \<open>
  C29: parsing a datagram of any origin is safe. When it succeeds, the length of the message is that of its
  header plus the length field, the attributes follow each other without gaps from the end of the header to
  the last byte, each with the type, the length and the bytes found there, and reading any of them as a value
  of any type does not leave the message; the message then has the size that was received.
\<close>

theorem stun_parse_in_bounds:
  assumes "message_parse bytes = Inr m"
  shows "length bytes = 20 + unat (h_payload_length (sm_header m)) \<and> take 20 bytes = header_bytes (sm_header m)
    \<and> tiled bytes 20 (sm_attributes m) \<and> byte_size_message m = Inr (length bytes) \<and> 4 * length (sm_attributes m) \<le> unat (h_payload_length (sm_header m))
    \<and> list_all (\<lambda>a. attribute_get t a \<noteq> Inl Out_of_bounds) (sm_attributes m)"
proof -
  note head = parse_header_Inr [OF message_parse_Inr(1) [OF assms]] and tiles = message_parse_Inr(2) [OF assms]
  have count: "tiled bytes off as \<Longrightarrow> 4 * length as + off \<le> length bytes" for off as
    by (induction as arbitrary: off) fastforce+
  have "attribute_get t a \<noteq> Inl Out_of_bounds" if a: "a \<in> set (sm_attributes m)" for a
  proof -
    obtain o1 where o1: "20 \<le> o1" "at_data a = At_serialized bytes (o1 + 4) (unat (at_length a))" "o1 + 4 + unat (at_length a) \<le> length bytes"
      using tiled_within [OF tiles a] by blast
    then show ?thesis
      using parse_value_not_Out [of "o1 + 4" "take (o1 + 4 + unat (at_length a)) bytes" t]
      by (auto simp: attribute_get_def parse_data_def parse_exact_def then_Out split: if_splits)
  qed
  then show ?thesis using head tiles tiled_size [OF tiles] count [OF tiles] by (simp add: byte_size_message_def list_all_iff)
qed

section \<open>Soundness of the integrity check\<close>

lemma find_tiled:
  "tiled m off as \<Longrightarrow> 20 \<le> off \<Longrightarrow> find_integrity as (off - 20) = Inr (n, a) \<Longrightarrow>
     \<exists>o1. 20 \<le> o1 \<and> at_data a = At_serialized m (o1 + 4) (unat (at_length a)) \<and> o1 + 4 + unat (at_length a) \<le> length m
       \<and> take 4 (drop o1 m) = attribute_bytes a \<and> at_type a = get_attribute_msg_type T_message_integrity \<and> n = o1 + 4 + align4 (unat (at_length a)) - 20"
proof (induction as arbitrary: off)
  case (Cons b as)
  have size: "byte_size_attribute b = Inr (align4 (unat (at_length b)) + 4)" using Cons.prems(1) by (simp add: byte_size_attribute_def)
  show ?case
  proof (cases "at_type b = get_attribute_msg_type T_message_integrity")
    case True
    with Cons.prems size show ?thesis by (intro exI [of _ off]) auto
  next
    case False
    have "off - 20 + (align4 (unat (at_length b)) + 4) = off + 4 + align4 (unat (at_length b)) - 20" using Cons.prems(2) by simp
    with False Cons.prems size Cons.IH [of "off + 4 + align4 (unat (at_length b))"] show ?thesis
      by (simp del: get_attribute_msg_type.simps)
  qed
qed simp

text \<open>
  C26: the integrity check accepts only what the holder of the password has signed. When a message parsed from
  bytes of any origin passes, the bytes hold an integrity attribute whose 20 bytes are the HMAC, under the
  password, of everything before the attribute with the length field set to the end of the attribute; and
  the memory of the message is unchanged.
\<close>

theorem stun_integrity_sound:
  assumes "message_parse bytes = Inr m" and "check_message_integrity p writable password m = Inr r"
  shows "r = bytes \<and> (\<exists>off. 20 \<le> off \<and> off + 24 \<le> length bytes \<and> take 4 (drop off bytes) = htons_bytes 0x0008 @ htons_bytes 20
    \<and> sp_HMAC p password (write_at 2 (htons_bytes (of_nat (off + 4))) (take off bytes)) = Some (take 20 (drop (off + 4) bytes)))"
proof -
  note tiles = message_parse_Inr(2) [OF assms(1)]
  obtain n a where f: "find_integrity (sm_attributes m) 0 = Inr (n, a)" using assms(2) by (auto simp: check_message_integrity_def st_then_Inr)
  obtain o1 where o1: "20 \<le> o1" "at_data a = At_serialized bytes (o1 + 4) (unat (at_length a))" "o1 + 4 + unat (at_length a) \<le> length bytes"
      "take 4 (drop o1 bytes) = attribute_bytes a" "at_type a = 0x0008" "n = o1 + 4 + align4 (unat (at_length a)) - 20"
    using find_tiled [OF tiles _ f [folded diff_self_eq_0 [of 20]]] by auto
  obtain u where "attribute_get T_message_integrity a = Inr u" using assms(2) f by (auto simp: check_message_integrity_def elim: st_then_E)
  then obtain current where v: "attribute_get T_message_integrity a = Inr (Message_integrity (Mi_output current))"
    using o1(2) by (auto simp: attribute_get_def parse_data_def parse_exact_def st_map_def st_then_Inr split: if_splits)
  then have len: "unat (at_length a) = 20" and cur: "current = take 20 (drop (o1 + 4) bytes)"
    using o1(2,3) by (auto simp: attribute_get_def parse_data_def parse_exact_def st_map_def st_then_Inr drop_take dest!: get_Inr split: if_splits)
  have alen: "at_length a = 20" using len by (metis of_nat_numeral of_nat_unat ucast_id)
  have n: "n = o1 + 4" using o1(1,6) len align4_id [of 20] by simp
  define x where "x = htons_bytes (of_nat (o1 + 4))"
  have long: "4 \<le> length bytes" using o1 by simp
  have run: "hmac_sha1 p (take o1 (write_at 2 x bytes)) password = Inr current \<and>
      (if writable then write_at 2 (htons_bytes (ntohs_bytes (take 2 (drop 2 bytes)))) (write_at 2 x bytes) else bytes) = r"
    using assms(2) f v o1(1-3) long
    by (auto simp: check_message_integrity_def st_then_Inr get_data_serialized_def get_message_header_payload_length_def
        set_message_header_payload_length_def st_before_def n x_def split: if_splits)
  have "take o1 (write_at 2 x bytes) = write_at 2 x (take o1 bytes)" using o1(1,3) by (simp add: write_at_def drop_take x_def)
  then have "sp_HMAC p password (write_at 2 x (take o1 bytes)) = Some (take 20 (drop (o1 + 4) bytes))"
    using run cur by (auto simp: hmac_sha1_def split: if_splits option.splits)
  moreover have "r = bytes"
  proof -
    have "write_at 2 (take 2 (drop 2 bytes)) (write_at 2 x bytes) = write_at 2 (take 2 (drop 2 bytes)) bytes"
      using long by (simp add: write_at_def x_def)
    then show ?thesis using run write_same [of bytes _ "length bytes"] long by (auto simp: htons_split)
  qed
  ultimately show ?thesis using o1 len alen by (intro conjI exI [of _ o1]) (simp_all add: x_def attribute_bytes_def)
qed

end
