(* ===== verification/StunTotal.thy ===== *)
theory StunTotal
  imports StunCorrect
begin

text \<open>
  When the serialization of a STUN message succeeds. The digests of OpenSSL are assumed to be available, and
  then it depends on nothing but the size of the last attribute: its padding is written one byte too far.
\<close>

definition digests_ok :: "stun_params \<Rightarrow> attribute_value \<Rightarrow> bool" where
  "digests_ok p v \<longleftrightarrow> (case v of
     Message_integrity (Mi_input password) \<Rightarrow> length password \<le> INT_MAX \<and> (\<forall>data. map_option length (sp_HMAC p password data) = Some 20)
   | _ \<Rightarrow> True)"

section \<open>Success\<close>

lemma put_succeeds: "off + length bs \<le> length dst \<Longrightarrow> st_put bs (dst, off) = Inr (write_at off bs dst, off + length bs)"
  by (simp add: st_put_def)

lemma value_succeeds:
  assumes "wire_ok v" and "digests_ok p v" and "20 \<le> off" and "off + byte_size_value v \<le> length dst"
  shows "\<exists>bs. serialize_value p v (dst, off) = Inr (write_at off bs dst, off + byte_size_value v) \<and> length bs = byte_size_value v"
proof (cases v)
  case (Message_integrity i)
  show ?thesis
  proof (cases i)
    case (Mi_input password)
    with Message_integrity assms(2) have "map_option length (sp_HMAC p password (take (off - 4) dst)) = Some 20" "length password \<le> INT_MAX" by (auto simp: digests_ok_def)
    then obtain d where "hmac_sha1 p (take (off - 4) dst) password = Inr d" "length d = 20" by (auto simp: hmac_sha1_def)
    then show ?thesis using Message_integrity Mi_input assms(3,4)
      by (intro exI [of _ d]) (simp add: serialize_integrity_def st_before_def put_succeeds)
  next
    case (Mi_output bs)
    with Message_integrity assms show ?thesis by (intro exI [of _ bs]) (simp add: serialize_integrity_def put_succeeds)
  qed (use Message_integrity assms(1) in simp)
next
  case (Fingerprint w)
  with assms show ?thesis
    by (intro exI [of _ "htonl_bytes (fingerprint_crc32 p (take (off - 4) dst))"]) (simp add: serialize_fingerprint_def st_before_def put_succeeds)
next
  case (Xor_mapped_address a)
  with assms have "20 \<le> length dst" "address_ok a" by simp_all
  from carries_xor [OF this(2,1) assms(3)] obtain bs where "carries p dst off v bs" using Xor_mapped_address by blast
  then show ?thesis using assms(4) by (intro exI [of _ bs]) (simp add: carries_def put_succeeds)
next
  case (Unknown_attributes vs)
  with assms show ?thesis by (intro exI [of _ "concat (map host16 vs)"]) (simp add: serialize_unknown_put put_succeeds)
next
  case (Error_code e)
  with assms show ?thesis by simp
qed (use assms in \<open>force simp: serialize_mapped_put put_succeeds\<close>)+

lemma pad_loop_succeeds:
  "off \<le> stop \<Longrightarrow> (off < stop \<longrightarrow> stop < length dst) \<Longrightarrow> \<exists>k. pad_loop stop (dst, off) = Inr k"
proof (induction stop "(dst, off)" arbitrary: dst off rule: pad_loop.induct)
  case (1 stop dst off)
  show ?case
  proof (cases "off < stop")
    case True
    with 1(3) have "Suc off < length dst" by simp
    with 1(1) [OF True this] True 1(3) show ?thesis by (subst pad_loop.simps) simp
  qed (simp add: pad_loop.simps)
qed

lemma attribute_header_put: "serialize_attribute_header a k = st_put (attribute_bytes a) k"
  by (cases k) (simp only: serialize_attribute_header_def put_put attribute_bytes_def)

lemma attribute_succeeds:
  assumes "make_attribute v = Inr a" and "wire_ok v" and "digests_ok p v" and "20 \<le> off"
    and "off + 4 + align4 (byte_size_value v) \<le> length dst" and "byte_size_value v mod 4 \<noteq> 0 \<longrightarrow> off + 4 + align4 (byte_size_value v) < length dst"
  shows "\<exists>k. serialize_attribute p a (dst, off) = Inr k"
proof -
  let ?n = "byte_size_value v"
  note al = align4_facts [of ?n]
  note att = made_attribute [OF assms(1)]
  define dst1 where "dst1 = write_at off (attribute_bytes a) dst"
  have h: "serialize_attribute_header a (dst, off) = Inr (dst1, off + 4)"
    using assms(5) by (simp add: attribute_header_put put_succeeds dst1_def)
  have len: "length dst1 = length dst" using assms(5) by (simp add: dst1_def)
  obtain bs where bs: "serialize_value p v (dst1, off + 4) = Inr (write_at (off + 4) bs dst1, off + 4 + ?n)" "length bs = ?n"
    using value_succeeds [OF assms(2,3), of "off + 4" dst1] assms(4,5) al len by auto
  obtain k where "pad_loop (off + (align4 ?n + 4)) (write_at (off + 4) bs dst1, off + 4 + ?n) = Inr k"
    using pad_loop_succeeds [of "off + 4 + ?n" "off + (align4 ?n + 4)" "write_at (off + 4) bs dst1"] al align4_id [of ?n] assms(5,6) bs(2) len by fastforce
  with h bs(1) show ?thesis by (simp add: serialize_attribute_def att)
qed

lemma attributes_succeed:
  assumes "made vs as" and "list_all (digests_ok p) vs" and "20 \<le> off" and "off mod 4 = 0" and "extent off vs \<le> length dst" and "extent off vs - 20 < 2 ^ 16"
    and "vs \<noteq> [] \<longrightarrow> byte_size_value (last vs) mod 4 = 0 \<or> extent off vs < length dst"
  shows "\<exists>k. serialize_attributes p as (of_nat (off - 20)) (dst, off) = Inr k"
  using assms
proof (induction vs arbitrary: as off dst)
  case Nil
  then show ?case by (simp add: made_def)
next
  case (Cons v vs)
  then obtain a as' where as: "as = a # as'" "make_attribute v = Inr a" "wire_ok v" "made vs as'" by (auto simp: made_def list_all2_Cons1)
  define off1 where "off1 = off + 4 + align4 (byte_size_value v)"
  have off1: "off1 \<le> extent off1 vs" "20 \<le> off1" "off1 mod 4 = 0" "extent off (v # vs) = extent off1 vs"
    using extent_le [of off1 vs] Cons.prems(3,4) align4_facts [of "byte_size_value v"] by (auto simp: off1_def mod_simps)
  have un: "unat (of_nat (off - 20) :: 16 word) = off - 20" using Cons.prems(6) off1 by (simp add: unat_of_nat off1_def)
  have sum: "align4 (byte_size_value v) + 4 + (off - 20) = off1 - 20" using Cons.prems(3) by (simp add: off1_def)
  have "align4 (byte_size_value v) + 4 \<le> 2 ^ 16 - 1 - (off - 20)" using Cons.prems(6) off1(1,4) sum by linarith
  then have check: "checked_length (align4 (byte_size_value v) + 4) (of_nat (off - 20)) = Inr (of_nat (off1 - 20))"
    by (simp only: checked_length_def un sum) simp
  define dst0 where "dst0 = write_at 2 (htons_bytes (of_nat (off1 - 20))) dst"
  have long: "4 \<le> length dst" "off1 \<le> length dst" using Cons.prems(5) off1 by simp_all
  have len: "length dst0 = length dst" using long by (simp add: dst0_def)
  have grow: "off1 < extent off1 vs" if "vs \<noteq> []"
    using that extent_le [of "off1 + 4 + align4 (byte_size_value (hd vs))" "tl vs"] by (cases vs) simp_all
  have "byte_size_value v mod 4 \<noteq> 0 \<longrightarrow> off1 < length dst"
  proof (cases "vs = []")
    case True
    with Cons.prems(7) off1(4) show ?thesis by (auto simp: off1_def)
  next
    case False
    with grow Cons.prems(5) off1(4) show ?thesis by simp
  qed
  then obtain dst1 k where k: "serialize_attribute p a (dst0, off) = Inr (dst1, k)"
    using attribute_succeeds [OF as(2,3), of p off dst0] Cons.prems(2,3) long len by (auto simp: off1_def)
  have "k = off1" "length dst1 = length dst"
    using attribute_written [OF as(2,3) k] Cons.prems(3,4) long len by (auto simp: off1_def)
  moreover have "\<exists>k. serialize_attributes p as' (of_nat (off1 - 20)) (dst1, off1) = Inr k"
    by (rule Cons.IH [OF as(4)]) (use Cons.prems off1 \<open>length dst1 = length dst\<close> in \<open>auto split: if_splits\<close>)
  ultimately show ?case using k check long made_attribute(4) [OF as(2)] by (auto simp: as(1) set_message_header_payload_length_def dst0_def)
qed

section \<open>Failure\<close>

text \<open>With an unaligned last attribute the message ends before the memory does.\<close>

lemma attributes_short:
  assumes "made vs as" and "serialize_attributes p as (of_nat (off - 20)) (dst, off) = Inr (dst', off')"
    and "20 \<le> off" and "off mod 4 = 0" and "off \<le> length dst" and "off - 20 < 2 ^ 16" and "vs \<noteq> []" and "byte_size_value (last vs) mod 4 \<noteq> 0"
  shows "off' < length dst"
  using assms
proof (induction vs arbitrary: as off dst)
  case (Cons v vs)
  then obtain a as' where as: "as = a # as'" "make_attribute v = Inr a" "wire_ok v" "made vs as'" by (auto simp: made_def list_all2_Cons1)
  define off1 where "off1 = off + 4 + align4 (byte_size_value v)"
  define w where "w = htons_bytes (of_nat (off1 - 20))"
  note step = serialize_step [OF as(2) Cons.prems(2) [unfolded as(1)] Cons.prems(3,5,6) off1_def]
  obtain dst1 k where k: "serialize_attribute p a (write_at 2 w dst, off) = Inr (dst1, k)" "serialize_attributes p as' (of_nat (off1 - 20)) (dst1, k) = Inr (dst', off')"
    using step(2) by (auto simp: w_def)
  have len: "length (write_at 2 w dst) = length dst" using Cons.prems(3,5) by (simp add: w_def)
  have bs: "k = off1" "off1 \<le> length dst" "length dst1 = length dst" "byte_size_value v mod 4 \<noteq> 0 \<longrightarrow> off1 < length dst"
    using attribute_written [OF as(2,3) k(1)] Cons.prems(3-5) len by (auto simp: off1_def)
  have off1: "20 \<le> off1" "off1 mod 4 = 0" using Cons.prems(3,4) align4_facts [of "byte_size_value v"] by (auto simp: off1_def mod_simps)
  show ?case
  proof (cases vs)
    case Nil
    with as(4) k(2) bs Cons.prems(8) show ?thesis by (simp add: made_def)
  next
    case (Cons u us)
    with Cons.IH [OF as(4) k(2) [unfolded bs(1)] off1 bs(2) [folded bs(3)] step(1)] Cons.prems(8) bs(3) show ?thesis by simp
  qed
qed simp

lemma serialize_iff:
  assumes "stun_message_of (encode_msg_type c Binding) tid vs = Inr m" and "length tid = 12" and "list_all wire_ok vs" and "list_all (digests_ok p) vs"
  shows "(\<exists>bytes. serialize_to_memory p fill m = Inr bytes) \<longleftrightarrow> (if vs = [] then True else byte_size_value (last vs) mod 4 = 0)"
proof -
  obtain m0 where m0: "add_attributes vs (message_builder (encode_msg_type c Binding) tid) = Inr m0" "build m0 = Inr m"
    using assms(1) by (auto simp: stun_message_of_def st_then_Inr)
  obtain as where as: "sm_attributes m0 = as" "made vs as" "sm_header m0 = sm_header (message_builder (encode_msg_type c Binding) tid)"
    using add_attributes_made [OF m0(1) assms(3)] by (auto simp: message_builder_def)
  define n where "n = extent 0 vs"
  have size: "byte_size_attributes as = Inr n" using made_size [OF as(2)] by (simp add: n_def)
  then have small: "n < 2 ^ 16" and m: "sm_attributes m = as" "h_transaction_id (sm_header m) = tid"
    using m0(2) as by (auto simp: build_def checked_length_def st_then_Inr message_builder_def split: if_splits)
  define dst where "dst = write_at 0 (header_bytes (sm_header m)) (map fill [0..<20 + n])"
  have lh: "length (header_bytes (sm_header m)) = 20" using m assms(2) by (simp add: header_bytes_def)
  have ld: "length dst = 20 + n" using lh by (simp add: dst_def)
  have ext: "extent 20 vs = 20 + n" using extent_plus [of 20 vs] by (simp add: n_def)
  have run: "serialize_to_memory p fill m = st_then (serialize_attributes p as (of_nat (20 - 20)) (dst, 20)) (\<lambda>k. Inr (fst k))"
    using lh m(1) size by (simp add: serialize_to_memory_def byte_size_message_def serialize_message_def serialize_header_put put_succeeds dst_def)
  show ?thesis
  proof (cases "vs = [] \<or> byte_size_value (last vs) mod 4 = 0")
    case True
    then have "\<exists>k. serialize_attributes p as (of_nat (20 - 20)) (dst, 20) = Inr k"
      by (intro attributes_succeed [OF as(2) assms(4)]) (use ext ld small in auto)
    with True show ?thesis unfolding run by auto
  next
    case False
    have "serialize_attributes p as (of_nat (20 - 20)) (dst, 20) \<noteq> Inr (dst', off')" for dst' off'
    proof
      assume s: "serialize_attributes p as (of_nat (20 - 20)) (dst, 20) = Inr (dst', off')"
      then have "off' < length dst" by (rule attributes_short [OF as(2)]) (use False ld in auto)
      moreover have "off' = extent 20 vs" using attributes_written [OF as(2) s] ld by simp
      ultimately show False using ext ld by simp
    qed
    with False show ?thesis unfolding run by (auto simp: st_then_Inr)
  qed
qed

text \<open>
  C32: exactly the messages whose last attribute needs no padding can be serialized. The padding of an
  attribute is written one byte behind its place, so that a message whose last attribute has a size that is
  not a multiple of four writes behind its memory; every other message of readable values is serialized
  completely.
\<close>

theorem stun_serialize_iff:
  assumes "stun_message_of (encode_msg_type c Binding) tid vs = Inr m" and "length tid = 12" and "list_all wire_ok vs" and "list_all (digests_ok p) vs"
  shows "(\<exists>bytes. serialize_to_memory p fill m = Inr bytes) \<longleftrightarrow> (if vs = [] then True else byte_size_value (last vs) mod 4 = 0)"
  by (rule serialize_iff [OF assms])

end
