(* ===== verification/StunServer.thy ===== *)
theory StunServer
  imports StunMessage Operations
begin

text \<open>
  Model of \<open>demo/stun/lib/rstream/stun/server.cpp\<close>: a STUN server over UDP that answers binding requests with
  the address they come from. The resolver and the socket are reached through the list of what waits for an
  answer, and an interleaving is a sequence of calls and of answers. The attribute of the response is built
  without its padding byte being set, which is part of a reply, as is the content of the memory the response
  is written to. Logging formats the message with a JSON library, which throws for strings that are not
  valid UTF-8: the parameter \<open>sp_dump_throws\<close>. Metrics and the GeoIP lookup are left out.
\<close>

datatype server_state = Sv_null | Sv_running | Sv_stopped

type_synonym udp_endpoint = "stun_ip \<times> 16 word"

record server_config =
  sc_inet4 :: bool
  sc_inet6 :: bool

record server_params = stun_params +
  sp_is_v4_mapped :: "byte list \<Rightarrow> bool"
  sp_v4_mapped :: "byte list \<Rightarrow> 32 word"
  sp_dump_throws :: "stun_message \<Rightarrow> bool"

datatype server_job = Sj_run "nat option" | Sj_cancel

datatype server_pending = Vp_job server_job | Vp_resolve | Vp_receive | Vp_send

datatype server_action =
    Va_resolve
  | Va_bind udp_endpoint bool
  | Va_send udp_endpoint "byte list"
  | Va_resolver_cancel
  | Va_socket_close
  | Va_done nat error_code

record stun_server =
  sv_state :: server_state
  sv_handler :: "nat option"
  sv_handlers :: nat
  sv_out :: "server_pending list"
  sv_escaped :: bool
  sv_log :: "server_action list"

record server_reply =
  vr_error_code :: error_code
  vr_results :: "udp_endpoint list"
  vr_open_error :: error_code
  vr_option_error :: error_code
  vr_bind_error :: error_code
  vr_data :: "byte list"
  vr_source :: udp_endpoint
  vr_padding :: byte
  vr_fill :: "nat \<Rightarrow> byte"

definition stun_ec :: "nat \<Rightarrow> error_code" where
  "stun_ec v = EC Stun_cat (int v)"

definition sv_init :: stun_server where
  "sv_init = \<lparr>sv_state = Sv_null, sv_handler = None, sv_handlers = 0, sv_out = [], sv_escaped = False, sv_log = []\<rparr>"

definition sv_act :: "server_action \<Rightarrow> stun_server \<Rightarrow> stun_server" where
  "sv_act a s = s\<lparr>sv_log := sv_log s @ [a]\<rparr>"

definition sv_begin :: "server_pending \<Rightarrow> stun_server \<Rightarrow> stun_server" where
  "sv_begin x s = s\<lparr>sv_out := sv_out s @ [x]\<rparr>"

section \<open>Closing\<close>

definition sv_do_close :: "error_code \<Rightarrow> stun_server \<Rightarrow> stun_server" where
  "sv_do_close ec s =
     (if sv_state s \<noteq> Sv_running then s
      else
        let s1 = s\<lparr>sv_state := Sv_stopped\<rparr>;
            s2 = (case sv_handler s1 of None \<Rightarrow> s1 | Some h \<Rightarrow> sv_act (Va_done h ec) s1)
        in sv_act Va_socket_close (sv_act Va_resolver_cancel (s2\<lparr>sv_handler := None\<rparr>)))"

definition sv_on_error :: "error_code \<Rightarrow> stun_server \<Rightarrow> stun_server" where
  "sv_on_error ec s = (if \<not> ec_failed ec then s else sv_do_close ec s)"

section \<open>Starting\<close>

definition sv_do_resolve_host :: "stun_server \<Rightarrow> stun_server" where
  "sv_do_resolve_host s = sv_begin Vp_resolve (sv_act Va_resolve s)"

definition sv_async_run_internal :: "nat option \<Rightarrow> stun_server \<Rightarrow> stun_server" where
  "sv_async_run_internal handler s =
     (if sv_state s \<noteq> Sv_null then (case handler of None \<Rightarrow> s | Some h \<Rightarrow> sv_act (Va_done h (stun_ec 2)) s)
      else sv_do_resolve_host (s\<lparr>sv_handler := handler, sv_state := Sv_running\<rparr>))"

definition sv_do_read_stun_message :: "stun_server \<Rightarrow> stun_server" where
  "sv_do_read_stun_message s = sv_begin Vp_receive s"

definition sv_do_configure_socket :: "server_config \<Rightarrow> server_reply \<Rightarrow> udp_endpoint \<Rightarrow> stun_server \<Rightarrow> stun_server" where
  "sv_do_configure_socket cfg r ep s =
     (if ec_failed (vr_open_error r) then sv_on_error (vr_open_error r) s
      else
        let v6 = (case fst ep of Ip_v6 _ \<Rightarrow> True | Ip_v4 _ \<Rightarrow> False)
        in if v6 \<and> ec_failed (vr_option_error r) then sv_on_error (vr_option_error r) s
           else if ec_failed (vr_bind_error r) then sv_on_error (vr_bind_error r) (sv_act (Va_bind ep (v6 \<and> sc_inet6 cfg)) s)
           else sv_do_read_stun_message (sv_act (Va_bind ep (v6 \<and> sc_inet6 cfg)) s))"

definition sv_selects :: "server_config \<Rightarrow> udp_endpoint \<Rightarrow> bool" where
  "sv_selects cfg ep \<longleftrightarrow> (case fst ep of Ip_v6 _ \<Rightarrow> \<not> sc_inet4 cfg | Ip_v4 _ \<Rightarrow> \<not> sc_inet6 cfg)"

definition sv_on_do_resolve_host :: "server_config \<Rightarrow> server_reply \<Rightarrow> stun_server \<Rightarrow> stun_server" where
  "sv_on_do_resolve_host cfg r s =
     (if sv_state s \<noteq> Sv_running then s
      else if ec_failed (vr_error_code r) then sv_on_error (vr_error_code r) s
      else case find (sv_selects cfg) (vr_results r) of
             None \<Rightarrow> sv_on_error (stun_ec 4) s
           | Some ep \<Rightarrow> sv_do_configure_socket cfg r ep s)"

section \<open>Serving\<close>

definition binding_response :: "server_params \<Rightarrow> byte \<Rightarrow> udp_endpoint \<Rightarrow> byte list \<Rightarrow> stun_error + stun_message" where
  "binding_response p pad src transaction_id =
     (let address = (case fst src of Ip_v6 bs \<Rightarrow> if sp_is_v4_mapped p bs then Ip_v4 (sp_v4_mapped p bs) else Ip_v6 bs | a \<Rightarrow> a);
          a = (set_address address \<lparr>ma_padding = pad, ma_family = IPV4, ma_port = 0, ma_address = []\<rparr>)\<lparr>ma_port := snd src\<rparr>
      in st_then (add_attribute (Xor_mapped_address a) (message_builder (encode_msg_type Response_success Binding) transaction_id)) (\<lambda>b.
           st_then (add_software b) (\<lambda>b. st_then (add_fingerprint b) build)))"

text \<open>An exception that is not caught leaves the handler before the next read is started.\<close>

definition sv_send_stun_message :: "server_params \<Rightarrow> server_reply \<Rightarrow> udp_endpoint \<Rightarrow> stun_message \<Rightarrow> stun_server \<Rightarrow> stun_server" where
  "sv_send_stun_message p r dst m s =
     (case serialize_to_memory (stun_params.truncate p) (vr_fill r) m of
        Inl e \<Rightarrow> s\<lparr>sv_escaped := True\<rparr>
      | Inr bytes \<Rightarrow> if sp_dump_throws p m then s\<lparr>sv_escaped := True\<rparr> else sv_begin Vp_send (sv_act (Va_send dst bytes) s))"

definition sv_process_stun_binding_request :: "server_params \<Rightarrow> server_reply \<Rightarrow> udp_endpoint \<Rightarrow> stun_message \<Rightarrow> stun_server \<Rightarrow> stun_server" where
  "sv_process_stun_binding_request p r src m s =
     (case binding_response p (vr_padding r) src (h_transaction_id (sm_header m)) of
        Inl e \<Rightarrow> sv_do_read_stun_message s
      | Inr response \<Rightarrow> sv_send_stun_message p r src response s)"

definition sv_process_stun_message :: "server_params \<Rightarrow> server_reply \<Rightarrow> udp_endpoint \<Rightarrow> stun_message \<Rightarrow> stun_server \<Rightarrow> stun_server" where
  "sv_process_stun_message p r src m s =
     (if parse_stun_class (h_type (sm_header m)) = Inr Request \<and> parse_stun_method (h_type (sm_header m)) = Inr Binding
      then sv_process_stun_binding_request p r src m s
      else sv_do_read_stun_message s)"

definition sv_on_stun_message :: "server_params \<Rightarrow> server_reply \<Rightarrow> udp_endpoint \<Rightarrow> stun_message \<Rightarrow> stun_server \<Rightarrow> stun_server" where
  "sv_on_stun_message p r src m s = (if sp_dump_throws p m then s\<lparr>sv_escaped := True\<rparr> else sv_process_stun_message p r src m s)"

definition sv_on_message :: "server_params \<Rightarrow> server_reply \<Rightarrow> stun_server \<Rightarrow> stun_server" where
  "sv_on_message p r s =
     (if sv_state s \<noteq> Sv_running then s
      else if ec_failed (vr_error_code r) then sv_on_error (vr_error_code r) s
      else case is_stun_datagram_error (vr_data r) of
             Some e \<Rightarrow> sv_do_read_stun_message s
           | None \<Rightarrow> (case message_parse (vr_data r) of
                        Inl e \<Rightarrow> sv_do_read_stun_message s
                      | Inr m \<Rightarrow> sv_on_stun_message p r (vr_source r) m s))"

definition sv_on_send_stun_message :: "error_code \<Rightarrow> stun_server \<Rightarrow> stun_server" where
  "sv_on_send_stun_message ec s = (if ec_failed ec then sv_on_error ec s else sv_do_read_stun_message s)"

section \<open>Events\<close>

text \<open>\<open>async_run\<close> may be called without a handler.\<close>

definition sv_async_run :: "bool \<Rightarrow> stun_server \<Rightarrow> stun_server" where
  "sv_async_run has_handler s =
     (if has_handler then sv_begin (Vp_job (Sj_run (Some (sv_handlers s)))) (s\<lparr>sv_handlers := Suc (sv_handlers s)\<rparr>)
      else sv_begin (Vp_job (Sj_run None)) s)"

definition sv_cancel :: "stun_server \<Rightarrow> stun_server" where
  "sv_cancel s = sv_begin (Vp_job Sj_cancel) s"

fun sv_answer :: "server_params \<Rightarrow> server_config \<Rightarrow> server_reply \<Rightarrow> server_pending \<Rightarrow> stun_server \<Rightarrow> stun_server" where
  "sv_answer p cfg r (Vp_job (Sj_run handler)) s = sv_async_run_internal handler s"
| "sv_answer p cfg r (Vp_job Sj_cancel) s = sv_do_close ec_ok s"
| "sv_answer p cfg r Vp_resolve s = sv_on_do_resolve_host cfg r s"
| "sv_answer p cfg r Vp_receive s = sv_on_message p r s"
| "sv_answer p cfg r Vp_send s = sv_on_send_stun_message (vr_error_code r) s"

datatype server_event = Ve_run bool | Ve_cancel | Ve_reply nat server_reply

fun sv_event :: "server_params \<Rightarrow> server_config \<Rightarrow> server_event \<Rightarrow> stun_server \<Rightarrow> stun_server" where
  "sv_event p cfg (Ve_run has_handler) s = sv_async_run has_handler s"
| "sv_event p cfg Ve_cancel s = sv_cancel s"
| "sv_event p cfg (Ve_reply k r) s =
     (if k < length (sv_out s) then sv_answer p cfg r (sv_out s ! k) (s\<lparr>sv_out := remove_at k (sv_out s)\<rparr>) else s)"

definition sv_run :: "server_params \<Rightarrow> server_config \<Rightarrow> server_event list \<Rightarrow> stun_server" where
  "sv_run p cfg es = fold (sv_event p cfg) es sv_init"

end
