(* ===== verification/StunServing.thy ===== *)
theory StunServing
  imports StunTotal StunServer "HOL-Library.Multiset"
begin

text \<open>
  The STUN server answers every binding request with the address it came from, keeps exactly one operation
  of the network under way while it runs, and invokes each completion handler once.
\<close>

section \<open>The response\<close>

definition mapped_source :: "server_params \<Rightarrow> stun_ip \<Rightarrow> stun_ip" where
  "mapped_source p a = (case a of Ip_v6 bs \<Rightarrow> if sp_is_v4_mapped p bs then Ip_v4 (sp_v4_mapped p bs) else Ip_v6 bs | Ip_v4 w \<Rightarrow> Ip_v4 w)"

fun ip_ok :: "stun_ip \<Rightarrow> bool" where
  "ip_ok (Ip_v4 w) = True"
| "ip_ok (Ip_v6 bs) = (length bs = 16)"

definition source_attribute :: "server_params \<Rightarrow> byte \<Rightarrow> udp_endpoint \<Rightarrow> mapped_address" where
  "source_attribute p pad src =
     (set_address (mapped_source p (fst src)) \<lparr>ma_padding = pad, ma_family = IPV4, ma_port = 0, ma_address = []\<rparr>)\<lparr>ma_port := snd src\<rparr>"

definition response_values :: "server_params \<Rightarrow> byte \<Rightarrow> udp_endpoint \<Rightarrow> attribute_value list" where
  "response_values p pad src = [Xor_mapped_address (source_attribute p pad src), Software (st_bytes ''rstream STUN client''), Fingerprint None]"

lemma response_as_message: "binding_response p pad src tid = stun_message_of (encode_msg_type Response_success Binding) tid (response_values p pad src)"
proof -
  have "(case fst src of Ip_v6 bs \<Rightarrow> if sp_is_v4_mapped p bs then Ip_v4 (sp_v4_mapped p bs) else Ip_v6 bs | a \<Rightarrow> a) = mapped_source p (fst src)"
    by (simp add: mapped_source_def split: stun_ip.splits)
  then show ?thesis
    by (simp add: binding_response_def stun_message_of_def response_values_def source_attribute_def add_software_def add_fingerprint_def put_assoc Let_def)
qed

lemma source_attribute_ok:
  assumes "ip_ok (fst src)"
  shows "address_ok (source_attribute p pad src)" "get_address (source_attribute p pad src) = Inr (mapped_source p (fst src))" "ma_port (source_attribute p pad src) = snd src"
  using assms by (auto simp: source_attribute_def mapped_source_def set_address_def address_ok_def get_address_def split: stun_ip.splits)

lemma align4_19: "align4 19 = 20"
  using align4_facts [of 19] by presburger

lemma response_built:
  assumes "ip_ok (fst src)" and "length tid = 12"
  shows "\<exists>m bytes. binding_response p pad src tid = Inr m \<and> serialize_to_memory q fill m = Inr bytes"
proof -
  let ?a = "source_attribute p pad src"
  have size: "byte_size_value (Xor_mapped_address ?a) \<le> 20" using source_attribute_ok(1) [OF assms(1), of p pad]
    by (simp add: mapped_address_size_def address_ok_def split: if_splits)
  have soft: "byte_size_value (Software (st_bytes ''rstream STUN client'')) = 19" by (simp add: st_bytes_def)
  have "\<exists>m. binding_response p pad src tid = Inr m"
    using size align4_facts(2) [of "byte_size_value (Xor_mapped_address ?a)"] soft align4_19 align4_id [of 4]
    unfolding response_as_message stun_message_of_def response_values_def
    by (simp add: add_attribute_def make_attribute_def checked_length_def build_def message_builder_def byte_size_attribute_def)
  then obtain m where m: "binding_response p pad src tid = Inr m" by blast
  have "list_all wire_ok (response_values p pad src)" "list_all (digests_ok q) (response_values p pad src)"
    using source_attribute_ok(1) [OF assms(1)] by (simp_all add: response_values_def digests_ok_def)
  from serialize_iff [OF m [unfolded response_as_message] assms(2) this] m show ?thesis by (auto simp: response_values_def)
qed

text \<open>
  C27: the answer of the STUN server tells a client its own address. For every source, with an IPv4 address
  mapped into IPv6 taken back out, and every transaction identifier the response is built and serialized,
  whatever the memory held; and the client that parses the bytes finds a success response to its own
  transaction, the address and the port it sent from, and a fingerprint that passes the check.
\<close>

theorem binding_response_tells_source:
  assumes "ip_ok (fst src)" and "length tid = 12"
  shows "\<exists>m bytes m' a. binding_response p pad src tid = Inr m \<and> serialize_to_memory q fill m = Inr bytes \<and> message_parse bytes = Inr m'
    \<and> parse_stun_class (h_type (sm_header m')) = Inr Response_success \<and> h_transaction_id (sm_header m') = tid
    \<and> attribute_get T_xor_mapped_address (hd (sm_attributes m')) = Inr (Xor_mapped_address a)
    \<and> get_address a = Inr (mapped_source p (fst src)) \<and> ma_port a = snd src \<and> check_fingerprint q m' = Inr ()"
proof -
  obtain m bytes where m: "binding_response p pad src tid = Inr m" "serialize_to_memory q fill m = Inr bytes" using response_built [OF assms] by blast
  let ?v = "Xor_mapped_address (source_attribute p pad src)" and ?s = "Software (st_bytes ''rstream STUN client'')"
  have built: "stun_message_of (encode_msg_type Response_success Binding) tid ([?v, ?s] @ [Fingerprint None]) = Inr m"
    using m(1) by (simp add: response_as_message response_values_def)
  have ok: "list_all wire_ok [?v, ?s]" "list_all wire_ok ([?v, ?s] @ [Fingerprint None])" using source_attribute_ok(1) [OF assms(1)] by simp_all
  note w = message_written [OF built m(2) assms(2) ok(2)]
  have "st_then (message_parse bytes) (check_fingerprint q) = Inr ()" by (rule fingerprint_checked [OF built m(2) assms(2) ok(1)]) simp
  then have "check_fingerprint q \<lparr>sm_header = sm_header m, sm_attributes = layout bytes 20 ([?v, ?s] @ [Fingerprint None])\<rparr> = Inr ()" using w(1) by simp
  moreover have "attribute_get T_xor_mapped_address (hd (layout bytes 20 ([?v, ?s] @ [Fingerprint None]))) = Inr ?v" using w(2) by simp
  moreover have "parse_stun_class (h_type (sm_header m)) = Inr Response_success"
    using w(7) by (simp add: parse_stun_class_def STUN_GET_CLASS_def encode_msg_type_def)
  ultimately show ?thesis using m w(1,6) source_attribute_ok(2,3) [OF assms(1), of p pad] by (metis stun_message.select_convs)
qed

section \<open>The machine\<close>

fun sv_io :: "server_pending \<Rightarrow> unit list" where
  "sv_io (Vp_job j) = []"
| "sv_io _ = [()]"

fun sv_run_job :: "server_pending \<Rightarrow> nat list" where
  "sv_run_job (Vp_job (Sj_run (Some h))) = [h]"
| "sv_run_job _ = []"

fun sv_done_id :: "server_action \<Rightarrow> nat list" where
  "sv_done_id (Va_done h ec) = [h]"
| "sv_done_id _ = []"

lemma sv_run_job_handler: "sv_run_job (Vp_job (Sj_run handler)) = (case handler of None \<Rightarrow> [] | Some h \<Rightarrow> [h])"
  by (cases handler) simp_all

text \<open>\<open>js\<close>: handlers whose job runs. \<open>d\<close>: an operation has just been answered.\<close>

definition sv_ids :: "nat list \<Rightarrow> stun_server \<Rightarrow> nat list" where
  "sv_ids js s = over sv_done_id (sv_log s) @ js @ over sv_run_job (sv_out s) @ (case sv_handler s of None \<Rightarrow> [] | Some h \<Rightarrow> [h])"

definition sv_ok :: "nat list \<Rightarrow> bool \<Rightarrow> stun_server \<Rightarrow> bool" where
  "sv_ok js d s \<longleftrightarrow>
     mset (sv_ids js s) = mset [0..<sv_handlers s] \<and> (sv_state s \<noteq> Sv_running \<longrightarrow> sv_handler s = None)
     \<and> (case sv_state s of
          Sv_null \<Rightarrow> \<not> d \<and> \<not> sv_escaped s \<and> over sv_io (sv_out s) = []
        | Sv_running \<Rightarrow> over sv_io (sv_out s) = (if d \<or> sv_escaped s then [] else [()]) \<and> (d \<longrightarrow> \<not> sv_escaped s)
        | Sv_stopped \<Rightarrow> over sv_io (sv_out s) = [] \<or> over sv_io (sv_out s) = [()] \<and> \<not> d)"

lemma sv_ok_basic:
  "sv_done_id a = [] \<Longrightarrow> sv_ok js d (sv_act a s) = sv_ok js d s"
  "sv_ok js True s \<Longrightarrow> sv_ok js False (sv_do_read_stun_message s)"
  "sv_ok js True s \<Longrightarrow> sv_ok js False (sv_begin Vp_send s)"
  "sv_ok js True s \<Longrightarrow> sv_state s = Sv_running \<Longrightarrow> sv_ok js False (s\<lparr>sv_escaped := True\<rparr>)"
  by (auto simp: sv_ok_def sv_ids_def sv_act_def sv_begin_def sv_do_read_stun_message_def split: server_state.splits)

lemma sv_ok_close: "sv_ok js d s \<Longrightarrow> sv_ok js False (sv_do_close ec s)"
  by (cases "sv_handler s") (auto simp: sv_ok_def sv_ids_def sv_act_def sv_do_close_def Let_def split: server_state.splits if_splits)

lemma sv_ok_error: "sv_ok js d s \<Longrightarrow> ec_failed ec \<Longrightarrow> sv_ok js False (sv_on_error ec s)"
  by (simp add: sv_on_error_def sv_ok_close)

lemma sv_ok_stopped: "sv_ok js True s \<Longrightarrow> sv_state s \<noteq> Sv_running \<Longrightarrow> sv_ok js False s"
  by (auto simp: sv_ok_def split: server_state.splits)

lemma sv_ok_serve:
  assumes "sv_ok [] True s" and "sv_state s = Sv_running"
  shows "sv_ok [] False (sv_on_stun_message p r src m s)"
proof -
  have "sv_ok [] False (sv_send_stun_message p r dst m' s)" for dst m'
    using sv_ok_basic(3,4) [of "[]" s] sv_ok_basic(3) [of "[]" "sv_act (Va_send dst _) s"] sv_ok_basic(1) [of "Va_send dst _" "[]" True s] assms
    by (auto simp: sv_send_stun_message_def split: sum.splits)
  then show ?thesis using sv_ok_basic(2,4) [OF assms(1)] assms(2)
    by (auto simp: sv_on_stun_message_def sv_process_stun_message_def sv_process_stun_binding_request_def split: sum.splits)
qed

lemma sv_ok_answers:
  assumes "sv_ok [] True s"
  shows "sv_ok [] False (sv_on_do_resolve_host cfg r s)" "sv_ok [] False (sv_on_message p r s)" "sv_ok [] False (sv_on_send_stun_message ec s)"
proof -
  have bound: "sv_ok [] True (sv_act (Va_bind ep v) s)" for ep v using sv_ok_basic(1) [of "Va_bind ep v"] assms by simp
  have "sv_ok [] False (sv_do_configure_socket cfg r ep s)" for ep
    using sv_ok_error [OF assms] sv_ok_error [OF bound] sv_ok_basic(2) [OF bound] by (simp add: sv_do_configure_socket_def Let_def)
  then show "sv_ok [] False (sv_on_do_resolve_host cfg r s)"
    using sv_ok_error [OF assms] sv_ok_stopped [OF assms] by (simp add: sv_on_do_resolve_host_def stun_ec_def split: option.splits)
  show "sv_ok [] False (sv_on_message p r s)"
    using sv_ok_error [OF assms] sv_ok_stopped [OF assms] sv_ok_basic(2) [OF assms] sv_ok_serve [OF assms]
    by (simp add: sv_on_message_def split: option.splits sum.splits)
  show "sv_ok [] False (sv_on_send_stun_message ec s)"
    using sv_ok_error [OF assms] sv_ok_basic(2) [OF assms] by (simp add: sv_on_send_stun_message_def)
qed

lemma sv_ok_run: "sv_ok (case handler of None \<Rightarrow> [] | Some h \<Rightarrow> [h]) False s \<Longrightarrow> sv_ok [] False (sv_async_run_internal handler s)"
  by (cases handler) (auto simp: sv_ok_def sv_ids_def sv_act_def sv_begin_def sv_async_run_internal_def sv_do_resolve_host_def split: server_state.splits)

lemma sv_ok_remove:
  assumes "sv_ok [] False s" and "k < length (sv_out s)"
  shows "sv_ok (sv_run_job (sv_out s ! k)) (sv_io (sv_out s ! k) \<noteq> []) (s\<lparr>sv_out := remove_at k (sv_out s)\<rparr>)"
proof -
  let ?x = "sv_out s ! k"
  obtain as bs where j: "over sv_run_job (sv_out s) = as @ sv_run_job ?x @ bs" "over sv_run_job (remove_at k (sv_out s)) = as @ bs"
    using remove_at_project [OF assms(2), of sv_run_job] by auto
  obtain cs ds where i: "over sv_io (sv_out s) = cs @ sv_io ?x @ ds" "over sv_io (remove_at k (sv_out s)) = cs @ ds"
    using remove_at_project [OF assms(2), of sv_io] by auto
  have "mset (sv_ids (sv_run_job ?x) (s\<lparr>sv_out := remove_at k (sv_out s)\<rparr>)) = mset (sv_ids [] s)"
    unfolding sv_ids_def stun_server.simps by (simp add: j)
  moreover have "sv_io ?x = [] \<or> sv_io ?x = [()]" by (cases ?x) simp_all
  ultimately show ?thesis using assms(1) unfolding sv_ok_def
    by (auto simp: i append_eq_Cons_conv split: server_state.splits if_splits)
qed

lemma mset_Suc: "mset_set {0..<Suc n} = add_mset n (mset_set {0..<n})"
  by (simp add: atLeast0_lessThan_Suc)

lemma sv_event_ok: "sv_ok [] False s \<Longrightarrow> sv_ok [] False (sv_event p cfg e s)"
proof (cases e)
  case (Ve_reply k r)
  assume ok: "sv_ok [] False s"
  show ?thesis
  proof (cases "k < length (sv_out s)")
    case True
    note rem = sv_ok_remove [OF ok True]
    show ?thesis
    proof (cases "sv_out s ! k")
      case (Vp_job j)
      with rem True Ve_reply sv_ok_run sv_ok_close show ?thesis by (cases j) (auto simp: sv_run_job_handler)
    qed (use rem True Ve_reply sv_ok_answers in auto)
  qed (simp add: Ve_reply ok)
qed (auto simp: sv_ok_def sv_ids_def sv_begin_def sv_async_run_def sv_cancel_def mset_Suc split: server_state.splits)

interpretation svm: invariant_machine "sv_event p cfg" "sv_ok [] False" for p cfg
  by unfold_locales (rule sv_event_ok)

text \<open>
  C35: the STUN server never stops serving on its own and never serves twice. In every interleaving a server
  that runs has exactly one operation under way, its resolution, its read or its answer, unless an exception
  has left a handler; a server that has not been started has none and one that has been stopped at most one.
  And every completion handler has been invoked exactly once, waits for the strand or is that of the run.
\<close>

theorem stun_server_serves:
  "(case sv_state (sv_run p cfg es) of
      Sv_null \<Rightarrow> over sv_io (sv_out (sv_run p cfg es)) = []
    | Sv_running \<Rightarrow> over sv_io (sv_out (sv_run p cfg es)) = (if sv_escaped (sv_run p cfg es) then [] else [()])
    | Sv_stopped \<Rightarrow> length (over sv_io (sv_out (sv_run p cfg es))) \<le> 1)
   \<and> mset (over sv_done_id (sv_log (sv_run p cfg es)) @ over sv_run_job (sv_out (sv_run p cfg es))
       @ (case sv_handler (sv_run p cfg es) of None \<Rightarrow> [] | Some h \<Rightarrow> [h])) = mset [0..<sv_handlers (sv_run p cfg es)]"
proof -
  have "sv_ok [] False (sv_run p cfg es)" unfolding sv_run_def by (rule svm.run_inv) (simp add: sv_ok_def sv_ids_def sv_init_def)
  then show ?thesis by (auto simp: sv_ok_def sv_ids_def simp del: concat_eq_Nil_conv split: server_state.splits)
qed

end
