(* ===== verification/StunSample.thy ===== *)
theory StunSample
  imports StunSafe StunServing
begin

unbundle bit_operations_syntax

text \<open>
  Sample messages for the properties of the STUN codec, and two places where it does not do what it means
  to: the test for a STUN datagram and the error code attribute.
\<close>

section \<open>Sample messages\<close>

definition w_digests :: stun_params where
  "w_digests = \<lparr>sp_HMAC = (\<lambda>key data. Some (replicate 20 (of_nat (length data)))), sp_md5 = (\<lambda>data. None), sp_crc32 = (\<lambda>data. of_nat (length data))\<rparr>"

definition w_tid :: "byte list" where
  "w_tid = replicate 12 5"

definition w_xor :: attribute_value where
  "w_xor = Xor_mapped_address \<lparr>ma_padding = 0, ma_family = IPV4, ma_port = 81, ma_address = [1, 2, 3, 4]\<rparr>"

lemma w_tid_length: "length w_tid = 12"
  by (simp add: w_tid_def)

lemma align4_small: "align4 2 = 4" "align4 4 = 4" "align4 8 = 8" "align4 20 = 20"
  using align4_facts [of 2] by (presburger, simp_all add: align4_id)

lemma w_xor_size: "byte_size_value w_xor = 8"
  by (simp add: w_xor_def mapped_address_size_def)

lemmas w_build = stun_message_of_def add_attribute_def make_attribute_def checked_length_def build_def message_builder_def byte_size_attribute_def
  w_xor_size align4_small

text \<open>A message of values of known sizes is built and written.\<close>

lemma w_written:
  assumes "stun_message_of (encode_msg_type Request Binding) w_tid (vs @ [v]) \<in> range Inr" and "list_all wire_ok (vs @ [v])"
    and "list_all (digests_ok w_digests) (vs @ [v])" and "byte_size_value v mod 4 = 0"
  obtains m bytes where "stun_message_of (encode_msg_type Request Binding) w_tid (vs @ [v]) = Inr m" "serialize_to_memory w_digests (\<lambda>_. 1) m = Inr bytes"
  using serialize_iff [OF _ w_tid_length assms(2,3), of Request _ "\<lambda>_. 1"] assms(1,4) by fastforce

definition w_signed :: "attribute_value list" where
  "w_signed = [Response_port 80, Message_integrity (Mi_input [1, 2]), Fingerprint None]"

lemma w_plain:
  obtains m bytes where "stun_message_of (encode_msg_type Request Binding) w_tid [Response_port 80, w_xor] = Inr m" "serialize_to_memory w_digests (\<lambda>_. 1) m = Inr bytes"
proof -
  have "stun_message_of (encode_msg_type Request Binding) w_tid ([Response_port 80] @ [w_xor]) \<in> range Inr" by (simp add: w_build)
  from w_written [OF this] that show ?thesis by (auto simp: w_xor_size digests_ok_def) (auto simp: w_xor_def address_ok_def)
qed

lemma w_secured:
  obtains m bytes where "stun_message_of (encode_msg_type Request Binding) w_tid w_signed = Inr m" "serialize_to_memory w_digests (\<lambda>_. 1) m = Inr bytes"
proof -
  have "stun_message_of (encode_msg_type Request Binding) w_tid ([Response_port 80, Message_integrity (Mi_input [1, 2])] @ [Fingerprint None]) \<in> range Inr"
    by (simp add: w_build)
  from w_written [OF this] that show ?thesis by (auto simp: w_signed_def digests_ok_def w_digests_def INT_MAX_def)
qed

section \<open>Witnesses\<close>


theorem stun_fingerprint_checked_witness:
  "\<exists>m bytes. stun_message_of (encode_msg_type Request Binding) w_tid w_signed = Inr m \<and> serialize_to_memory w_digests (\<lambda>_. 1) m = Inr bytes
     \<and> st_then (message_parse bytes) (check_fingerprint w_digests) = Inr ()"
proof -
  obtain m bytes where m: "stun_message_of (encode_msg_type Request Binding) w_tid w_signed = Inr m" "serialize_to_memory w_digests (\<lambda>_. 1) m = Inr bytes"
    by (rule w_secured)
  have "stun_message_of (encode_msg_type Request Binding) w_tid ([Response_port 80, Message_integrity (Mi_input [1, 2])] @ [Fingerprint None]) = Inr m"
    using m(1) by (simp add: w_signed_def)
  from stun_fingerprint_checked [OF this m(2) w_tid_length] m show ?thesis by auto
qed

theorem stun_integrity_checked_witness:
  "\<exists>m bytes. stun_message_of (encode_msg_type Request Binding) w_tid w_signed = Inr m \<and> serialize_to_memory w_digests (\<lambda>_. 1) m = Inr bytes
     \<and> st_then (message_parse bytes) (check_message_integrity w_digests True [1, 2]) = Inr bytes"
proof -
  obtain m bytes where m: "stun_message_of (encode_msg_type Request Binding) w_tid w_signed = Inr m" "serialize_to_memory w_digests (\<lambda>_. 1) m = Inr bytes"
    by (rule w_secured)
  have "stun_message_of (encode_msg_type Request Binding) w_tid ([Response_port 80] @ Message_integrity (Mi_input [1, 2]) # [Fingerprint None]) = Inr m"
    using m(1) by (simp add: w_signed_def)
  from stun_integrity_checked [OF this m(2) w_tid_length, of True] m show ?thesis by auto
qed

theorem stun_integrity_sound_witness:
  "\<exists>m bytes r. message_parse bytes = Inr m \<and> check_message_integrity w_digests False [1, 2] m = Inr r \<and> r = bytes
     \<and> (\<exists>off. sp_HMAC w_digests [1, 2] (write_at 2 (htons_bytes (of_nat (off + 4))) (take off bytes)) = Some (take 20 (drop (off + 4) bytes)))"
proof -
  obtain m bytes where m: "stun_message_of (encode_msg_type Request Binding) w_tid w_signed = Inr m" "serialize_to_memory w_digests (\<lambda>_. 1) m = Inr bytes"
    by (rule w_secured)
  have "stun_message_of (encode_msg_type Request Binding) w_tid ([Response_port 80] @ Message_integrity (Mi_input [1, 2]) # [Fingerprint None]) = Inr m"
    using m(1) by (simp add: w_signed_def)
  from integrity_checked [OF this m(2) w_tid_length, of False] obtain m' where m': "message_parse bytes = Inr m'"
      "check_message_integrity w_digests False [1, 2] m' = Inr bytes" by (auto simp: st_then_Inr)
  from stun_integrity_sound [OF m'] m' show ?thesis by blast
qed

theorem stun_parse_in_bounds_witness:
  "\<exists>m bytes. message_parse bytes = Inr m \<and> length (sm_attributes m) = 2 \<and> tiled bytes 20 (sm_attributes m)
     \<and> list_all (\<lambda>a. attribute_get T_other_address a \<noteq> Inl Out_of_bounds) (sm_attributes m)"
proof -
  obtain m bytes where m: "stun_message_of (encode_msg_type Request Binding) w_tid [Response_port 80, w_xor] = Inr m"
      "serialize_to_memory w_digests (\<lambda>_. 1) m = Inr bytes" by (rule w_plain)
  have "list_all wire_ok [Response_port 80, w_xor]" by (simp add: w_xor_def address_ok_def)
  note p = message_written(1) [OF m w_tid_length this]
  from stun_parse_in_bounds [OF p, of T_other_address] p show ?thesis by fastforce
qed

theorem stun_serialize_iff_witness:
  "\<exists>m. stun_message_of (encode_msg_type Request Binding) w_tid [w_xor, Response_port 80] = Inr m
     \<and> (\<forall>bytes. serialize_to_memory w_digests (\<lambda>_. 1) m \<noteq> Inr bytes)"
proof -
  obtain m where m: "stun_message_of (encode_msg_type Request Binding) w_tid [w_xor, Response_port 80] = Inr m"
    by (simp add: w_build)
  have "list_all wire_ok [w_xor, Response_port 80]" "list_all (digests_ok w_digests) [w_xor, Response_port 80]"
    by (simp_all add: w_xor_def address_ok_def digests_ok_def)
  from stun_serialize_iff [OF m w_tid_length this, of "\<lambda>_. 1"] m show ?thesis by simp
qed

definition w_server_params :: server_params where
  "w_server_params = \<lparr>sp_HMAC = sp_HMAC w_digests, sp_md5 = sp_md5 w_digests, sp_crc32 = sp_crc32 w_digests, sp_is_v4_mapped = (\<lambda>_. False),
     sp_v4_mapped = (\<lambda>_. 0), sp_dump_throws = (\<lambda>_. False)\<rparr>"

theorem binding_response_tells_source_witness:
  "\<exists>bytes m' a. message_parse bytes = Inr m' \<and> attribute_get T_xor_mapped_address (hd (sm_attributes m')) = Inr (Xor_mapped_address a)
     \<and> get_address a = Inr (Ip_v4 0x0A000001) \<and> ma_port a = 4000"
  using binding_response_tells_source [of "(Ip_v4 0x0A000001, 4000)" w_tid w_server_params 0 w_digests "\<lambda>_. 1"] w_tid_length
  by (auto simp: mapped_source_def)

section \<open>What the code does not do\<close>

text \<open>The test for a STUN datagram answers yes when the header cannot be parsed.\<close>

lemma is_stun_datagram_inverted: "message_parse bytes = Inr m \<Longrightarrow> \<not> is_stun_datagram bytes"
  using message_parse_Inr(1) by (auto simp: is_stun_datagram_def is_stun_datagram_error_def)

text \<open>
  An error code attribute is written without the reserved bits that are expected when it is read: what the
  library writes for an error code of any class but zero cannot be read by it.
\<close>

lemma error_code_not_read:
  assumes "ev_code_class e \<noteq> 0" and "serialize_value p (Error_code e) (dst, off) = Inr (dst', off')"
  shows "parse_value T_error_code (take off' dst') off = Inl Deserialization_error"
proof -
  let ?bs = "[ev_code_class e] @ [ev_code_number e] @ ev_reason e"
  have "serialize_value p (Error_code e) (dst, off) = st_put ?bs (dst, off)" by (simp add: serialize_error_code_def put_put put_then)
  then have w: "off + length ?bs \<le> length dst" "dst' = write_at off ?bs dst" "off' = off + length ?bs" using assms(2) by (auto simp: st_put_Inr)
  then have "take off' dst' = take off dst @ ?bs" by (simp add: write_at_def)
  moreover have "st_get 2 (take off dst @ [ev_code_class e, ev_code_number e] @ ev_reason e) off = Inr ([ev_code_class e, ev_code_number e], off + 2)"
    using w(1) by (intro get_front) simp_all
  moreover have "of_host16 [ev_code_class e, ev_code_number e] \<noteq> 0"
  proof
    assume "of_host16 [ev_code_class e, ev_code_number e] = 0"
    then have "host16 (of_host16 [ev_code_class e, ev_code_number e]) = [0, 0]" by (simp add: host16_def htons_bytes_def)
    then show False using assms(1) htons_split [of "[ev_code_number e, ev_code_class e]"] by (simp add: host16_def of_host16_def)
  qed
  ultimately show ?thesis by (simp add: parse_error_code_def st_map_def)
qed

end
