(* ===== verification/WebttyCrypto.thy ===== *)
theory WebttyCrypto
  imports Prelude
begin

unbundle bit_operations_syntax

text \<open>
  Model of \<open>bin/webtty/lib/rstream/webtty/payload_crypto.cpp\<close>: end-to-end encryption of a terminal session.
  A client draws a payload key and wraps it for every recipient (HPKE over X25519); a server that holds the
  private key of a recipient unwraps it; both then encrypt and decrypt payloads with AES-GCM. The
  \<open>std::error_code&\<close> that the functions share is threaded through explicitly, since some of them clear it and
  some go on with it set: a function takes the error it finds and returns its result and the error it leaves.
  OpenSSL is the record \<open>openssl\<close>; the type variable stands for its key handles. What is drawn at random is
  an argument.
\<close>

section \<open>Types\<close>

datatype webtty_error =
    Client_error | Webtty_invalid_state | Crypto_error | Not_a_tty | Webtty_operation_aborted | Webtty_operation_timeout
  | Webtty_protocol_error | Server_error | E2e_session_key_grant_required | Known_server_required
  | Server_endpoint_identity_mismatch | Server_proof_invalid | Client_identity_required | Client_proof_required
  | Client_proof_invalid | Client_unauthorized | Managed_attach_unsupported | Unsupported_execution_mode
  | Login_user_required | Client_user_disabled | Unexpected_message | Unknown_undefined_error | Termination_unsupported

type_synonym werr = "webtty_error option"

type_synonym bytes = "byte list"

text \<open>The enumerations are filled by casts from the integers of a message, so they may hold other values.\<close>

datatype payload_cipher_suite = Ps_unspecified | Aes_256_gcm | Chacha20_poly1305 | Ps_other int

datatype key_envelope_suite = Ks_unspecified | Hpke_aes_256_gcm | Hpke_chacha20_poly1305 | Ks_other int

datatype payload_stream = Std_in | Std_out | Std_err

record key_envelope =
  ke_recipient_key_id :: bytes
  ke_encapsulated_key :: bytes
  ke_wrapped_key :: bytes

record session_key_grant =
  sg_payload_suite :: payload_cipher_suite
  sg_payload_key_id :: bytes
  sg_key_envelopes :: "key_envelope list"
  sg_key_context :: bytes
  sg_key_envelope_suite :: key_envelope_suite

record payload_crypto_metadata =
  pm_payload_suite :: payload_cipher_suite
  pm_payload_key_id :: bytes
  pm_nonce :: bytes
  pm_aad_context :: bytes

record encrypted_payload =
  ep_ciphertext :: bytes
  ep_plaintext_length :: "32 word"
  ep_payload_crypto :: payload_crypto_metadata

record e2e_identity =
  ei_key_id :: bytes
  ei_public_key :: bytes
  ei_private_key :: bytes

record e2e_recipient =
  er_key_id :: bytes
  er_public_key :: bytes

record e2e_config =
  ec_payload_suite :: payload_cipher_suite
  ec_payload_key :: bytes
  ec_payload_key_id :: bytes
  ec_key_context :: bytes
  ec_key_envelope_suite :: key_envelope_suite
  ec_recipients :: "e2e_recipient list"

record payload_crypto =
  pc_payload_suite :: payload_cipher_suite
  pc_payload_key :: bytes
  pc_payload_key_id :: bytes
  pc_key_context :: bytes
  pc_key_envelope_suite :: key_envelope_suite
  pc_key_envelopes :: "key_envelope list"

text \<open>
  OpenSSL: digests, key handles, key agreement and AES-256-GCM. \<open>os_aad_outl\<close> is what \<open>EVP_EncryptUpdate\<close> and
  \<open>EVP_DecryptUpdate\<close> store as output length when they are given associated data.
\<close>

record 'k openssl =
  os_sha256 :: "bytes \<Rightarrow> bytes"
  os_hmac_sha256 :: "bytes \<Rightarrow> bytes \<Rightarrow> bytes option"
  os_new_raw_private_key :: "bytes \<Rightarrow> 'k option"
  os_new_raw_public_key :: "bytes \<Rightarrow> 'k option"
  os_get_raw_private_key :: "'k \<Rightarrow> bytes option"
  os_get_raw_public_key :: "'k \<Rightarrow> bytes option"
  os_derive :: "'k \<Rightarrow> 'k \<Rightarrow> bytes option"
  os_gcm_encrypt :: "bytes \<Rightarrow> bytes \<Rightarrow> bytes \<Rightarrow> bytes \<Rightarrow> (bytes \<times> bytes) option"
  os_gcm_decrypt :: "bytes \<Rightarrow> bytes \<Rightarrow> bytes \<Rightarrow> bytes \<Rightarrow> bytes \<Rightarrow> bytes option"
  os_aad_outl :: "bytes \<Rightarrow> nat"

text \<open>What \<open>RAND_bytes\<close> writes, or that it fails.\<close>

type_synonym random = "(nat \<Rightarrow> byte) option"

section \<open>Bytes\<close>

definition set_crypto_error :: "werr \<Rightarrow> werr" where
  "set_crypto_error e = (if e = None then Some Crypto_error else e)"

definition bytes_from_string :: "string \<Rightarrow> bytes" where
  "bytes_from_string value = map of_char value"

definition be16 :: "16 word \<Rightarrow> bytes" where
  "be16 value = [ucast (drop_bit 8 value AND 0xff), ucast (value AND 0xff)]"

definition be32 :: "32 word \<Rightarrow> bytes" where
  "be32 value =
     [ucast (drop_bit 24 value AND 0xff), ucast (drop_bit 16 value AND 0xff), ucast (drop_bit 8 value AND 0xff), ucast (value AND 0xff)]"

definition length_prefixed :: "bytes \<Rightarrow> bytes" where
  "length_prefixed value = be32 (of_nat (length value)) @ value"

definition random_bytes :: "nat \<Rightarrow> random \<Rightarrow> werr \<Rightarrow> bytes \<times> werr" where
  "random_bytes n r e =
     (if n = 0 then ([], e)
      else case r of Some b \<Rightarrow> (map b [0..<n], e) | None \<Rightarrow> ([], set_crypto_error e))"

section \<open>Key derivation\<close>

definition hmac_sha256 :: "'k openssl \<Rightarrow> bytes \<Rightarrow> bytes \<Rightarrow> bytes \<Rightarrow> werr \<Rightarrow> bytes \<times> werr" where
  "hmac_sha256 os dst key input e =
     (if length key > INT_MAX then (dst, set_crypto_error e)
      else case os_hmac_sha256 os key input of
             None \<Rightarrow> (dst, set_crypto_error e)
           | Some digest \<Rightarrow> if length digest \<noteq> 32 then (dst, set_crypto_error e) else (digest, e))"

definition hkdf_extract :: "'k openssl \<Rightarrow> bytes \<Rightarrow> bytes \<Rightarrow> bytes \<Rightarrow> werr \<Rightarrow> bytes \<times> werr" where
  "hkdf_extract os dst salt ikm e = hmac_sha256 os dst (if salt = [] then replicate 32 0 else salt) ikm e"

lemma hmac_sha256_None: "hmac_sha256 os dst key input e = (d, None) \<Longrightarrow> length d = 32 \<and> e = None \<and> os_hmac_sha256 os key input = Some d"
  by (auto simp: hmac_sha256_def set_crypto_error_def split: if_splits option.splits)

function hkdf_loop :: "'k openssl \<Rightarrow> bytes \<Rightarrow> bytes \<Rightarrow> nat \<Rightarrow> bytes \<Rightarrow> byte \<Rightarrow> bytes \<Rightarrow> werr \<Rightarrow> bytes \<times> werr" where
  "hkdf_loop os prk info len previous counter dst e =
     (if length dst < len then
        (case hmac_sha256 os previous prk (previous @ info @ [counter]) e of
           (previous', Some x) \<Rightarrow> (dst, Some x)
         | (previous', None) \<Rightarrow> hkdf_loop os prk info len previous' (counter + 1) (dst @ previous') None)
      else (take len dst, e))"
  by pat_completeness auto

termination hkdf_loop
  by (relation "measure (\<lambda>(os, prk, info, len, previous, counter, dst, e). len - length dst)")
     (auto dest!: hmac_sha256_None [OF sym])

declare hkdf_loop.simps [simp del]

definition hkdf_expand :: "'k openssl \<Rightarrow> bytes \<Rightarrow> bytes \<Rightarrow> nat \<Rightarrow> werr \<Rightarrow> bytes \<times> werr" where
  "hkdf_expand os prk info len e =
     (if len = 0 then ([], e)
      else if len > 255 * 32 then ([], set_crypto_error e)
      else hkdf_loop os prk info len [] 1 [] e)"

definition dhkem_suite_id :: bytes where
  "dhkem_suite_id = bytes_from_string ''KEM'' @ be16 0x0020"

definition hpke_suite_id :: bytes where
  "hpke_suite_id = bytes_from_string ''HPKE'' @ be16 0x0020 @ be16 0x0001 @ be16 0x0002"

definition hpke_version_label :: bytes where
  "hpke_version_label = bytes_from_string ''HPKE-v1''"

definition labeled_extract :: "'k openssl \<Rightarrow> bytes \<Rightarrow> bytes \<Rightarrow> bytes \<Rightarrow> string \<Rightarrow> bytes \<Rightarrow> werr \<Rightarrow> bytes \<times> werr" where
  "labeled_extract os dst suite_id salt label ikm e =
     hkdf_extract os dst salt (hpke_version_label @ suite_id @ bytes_from_string label @ ikm) e"

definition labeled_expand :: "'k openssl \<Rightarrow> bytes \<Rightarrow> bytes \<Rightarrow> string \<Rightarrow> bytes \<Rightarrow> nat \<Rightarrow> werr \<Rightarrow> bytes \<times> werr" where
  "labeled_expand os suite_id prk label info len e =
     hkdf_expand os prk (be16 (of_nat len) @ hpke_version_label @ suite_id @ bytes_from_string label @ info) len e"

section \<open>Suites and contexts\<close>

definition validate_payload_suite :: "payload_cipher_suite \<Rightarrow> werr \<Rightarrow> werr" where
  "validate_payload_suite suite e = (if suite \<noteq> Aes_256_gcm then Some Crypto_error else e)"

definition validate_key_envelope_suite :: "key_envelope_suite \<Rightarrow> werr \<Rightarrow> werr" where
  "validate_key_envelope_suite suite e = (if suite \<noteq> Hpke_aes_256_gcm then Some Crypto_error else e)"

fun payload_suite_code :: "payload_cipher_suite \<Rightarrow> werr \<Rightarrow> 32 word \<times> werr" where
  "payload_suite_code Aes_256_gcm e = (1, e)"
| "payload_suite_code Chacha20_poly1305 e = (2, e)"
| "payload_suite_code _ e = (0, Some Crypto_error)"

fun key_envelope_suite_code :: "key_envelope_suite \<Rightarrow> werr \<Rightarrow> 32 word \<times> werr" where
  "key_envelope_suite_code Hpke_aes_256_gcm e = (1, e)"
| "key_envelope_suite_code Hpke_chacha20_poly1305 e = (2, e)"
| "key_envelope_suite_code _ e = (0, Some Crypto_error)"

definition hpke_info :: "payload_cipher_suite \<Rightarrow> bytes \<Rightarrow> bytes \<Rightarrow> key_envelope_suite \<Rightarrow> werr \<Rightarrow> bytes \<times> werr" where
  "hpke_info payload_suite payload_key_id key_context envelope_suite e =
     (let (p, e1) = payload_suite_code payload_suite e;
          (k, e2) = key_envelope_suite_code envelope_suite e1;
          out = length_prefixed (bytes_from_string ''rstream-webtty-e2e-key/v1'') @ be32 p @ be32 k
                @ length_prefixed payload_key_id @ length_prefixed key_context
      in (if e2 = None then out else [], e2))"

definition hpke_aad :: "bytes \<Rightarrow> payload_cipher_suite \<Rightarrow> bytes \<Rightarrow> bytes \<Rightarrow> key_envelope_suite \<Rightarrow> werr \<Rightarrow> bytes \<times> werr" where
  "hpke_aad recipient_key_id payload_suite payload_key_id key_context envelope_suite e =
     (let (p, e1) = payload_suite_code payload_suite e;
          (k, e2) = key_envelope_suite_code envelope_suite e1;
          out = length_prefixed (bytes_from_string ''key-wrap'') @ be32 p @ be32 k
                @ length_prefixed recipient_key_id @ length_prefixed payload_key_id @ length_prefixed key_context
      in (if e2 = None then out else [], e2))"

fun payload_stream_name :: "payload_stream \<Rightarrow> string" where
  "payload_stream_name Std_in = ''stdin''"
| "payload_stream_name Std_out = ''stdout''"
| "payload_stream_name Std_err = ''stderr''"

definition payload_aad :: "payload_stream \<Rightarrow> payload_cipher_suite \<Rightarrow> bytes \<Rightarrow> bytes \<Rightarrow> bytes \<Rightarrow> 32 word \<Rightarrow> werr \<Rightarrow> bytes \<times> werr" where
  "payload_aad stream suite payload_key_id key_context nonce plaintext_length e =
     (if payload_stream_name stream = [] then ([], Some Crypto_error)
      else
        let (p, e1) = payload_suite_code suite e;
            out = length_prefixed (bytes_from_string ''rstream-webtty-e2e-payload/v1'')
                  @ length_prefixed (bytes_from_string (payload_stream_name stream)) @ be32 p
                  @ length_prefixed payload_key_id @ length_prefixed key_context @ length_prefixed nonce @ be32 plaintext_length
        in (if e1 = None then out else [], e1))"

section \<open>Keys\<close>

definition x25519_private_key :: "'k openssl \<Rightarrow> bytes \<Rightarrow> werr \<Rightarrow> 'k option \<times> werr" where
  "x25519_private_key os private_key e =
     (if length private_key \<noteq> 32 then (None, Some Crypto_error) else (os_new_raw_private_key os private_key, e))"

definition x25519_public_key :: "'k openssl \<Rightarrow> bytes \<Rightarrow> werr \<Rightarrow> 'k option \<times> werr" where
  "x25519_public_key os public_key e =
     (if length public_key \<noteq> 32 then (None, Some Crypto_error) else (os_new_raw_public_key os public_key, e))"

definition raw_key :: "bytes option \<Rightarrow> werr \<Rightarrow> bytes \<times> werr" where
  "raw_key r e = (case r of Some b \<Rightarrow> if length b = 32 then (b, e) else ([], set_crypto_error e) | None \<Rightarrow> ([], set_crypto_error e))"

definition x25519_get_raw_public_key :: "'k openssl \<Rightarrow> 'k \<Rightarrow> werr \<Rightarrow> bytes \<times> werr" where
  "x25519_get_raw_public_key os key e = raw_key (os_get_raw_public_key os key) e"

definition x25519_get_raw_private_key :: "'k openssl \<Rightarrow> 'k \<Rightarrow> werr \<Rightarrow> bytes \<times> werr" where
  "x25519_get_raw_private_key os key e = raw_key (os_get_raw_private_key os key) e"

definition x25519_public_from_private :: "'k openssl \<Rightarrow> bytes \<Rightarrow> bytes \<Rightarrow> werr \<Rightarrow> bytes \<times> werr" where
  "x25519_public_from_private os dst private_key e =
     (case x25519_private_key os private_key e of
        (Some k, None) \<Rightarrow> x25519_get_raw_public_key os k None
      | (_, e1) \<Rightarrow> (dst, e1))"

definition e2e_key_id :: "'k openssl \<Rightarrow> bytes \<Rightarrow> bytes \<Rightarrow> bytes \<times> werr" where
  "e2e_key_id os dst public_key =
     (if length public_key \<noteq> 32 then (dst, Some Crypto_error)
      else (take 16 (os_sha256 os (bytes_from_string ''rstream-webtty-e2e-key-id/v1'' @ public_key)), None))"

definition normalize_identity :: "'k openssl \<Rightarrow> e2e_identity \<Rightarrow> werr \<Rightarrow> e2e_identity \<times> werr" where
  "normalize_identity os src e =
     (if length (ei_private_key src) \<noteq> 32 then (src, Some Crypto_error)
      else
        let (pub, e1) = (if ei_public_key src = [] then x25519_public_from_private os [] (ei_private_key src) e else (ei_public_key src, e));
            dst = src\<lparr>ei_public_key := pub\<rparr>
        in if ei_public_key src = [] \<and> e1 \<noteq> None then (dst, e1)
           else if length pub \<noteq> 32 then (dst, Some Crypto_error)
           else if ei_key_id src = []
                then (let (kid, e2) = e2e_key_id os [] pub in (dst\<lparr>ei_key_id := kid\<rparr>, e2))
           else if length (ei_key_id src) \<noteq> 16 then (dst, Some Crypto_error)
           else (dst, e1))"

definition empty_identity :: e2e_identity where
  "empty_identity = \<lparr>ei_key_id = [], ei_public_key = [], ei_private_key = []\<rparr>"

definition e2e_identity_from_private_key :: "'k openssl \<Rightarrow> bytes \<Rightarrow> e2e_identity \<times> werr" where
  "e2e_identity_from_private_key os private_key = normalize_identity os (empty_identity\<lparr>ei_private_key := private_key\<rparr>) None"

text \<open>\<open>key\<close>: what the key generation of OpenSSL returned. \<open>e2e_key_id\<close> clears the error that it finds.\<close>

definition generate_e2e_identity :: "'k openssl \<Rightarrow> 'k option \<Rightarrow> e2e_identity \<Rightarrow> e2e_identity \<times> werr" where
  "generate_e2e_identity os key dst =
     (case key of
        None \<Rightarrow> (dst, Some Crypto_error)
      | Some k \<Rightarrow>
          let (priv, e1) = x25519_get_raw_private_key os k None;
              (pub, e2) = x25519_get_raw_public_key os k e1;
              (kid, e3) = e2e_key_id os (ei_key_id dst) pub
          in (\<lparr>ei_key_id = kid, ei_public_key = pub, ei_private_key = priv\<rparr>, e3))"

definition x25519_dh :: "'k openssl \<Rightarrow> bytes \<Rightarrow> bytes \<Rightarrow> werr \<Rightarrow> bytes \<times> werr" where
  "x25519_dh os private_key peer_public_key e =
     (let (k1, e1) = x25519_private_key os private_key e;
          (k2, e2) = x25519_public_key os peer_public_key e1
      in case (k1, k2, e2) of
           (Some priv, Some pub, None) \<Rightarrow>
             (case os_derive os priv pub of
                None \<Rightarrow> ([], set_crypto_error None)
              | Some out \<Rightarrow>
                  if length out \<noteq> 32 then ([], set_crypto_error None)
                  else if list_all (\<lambda>b. b = 0) out then ([], set_crypto_error None)
                  else (out, None))
         | _ \<Rightarrow> ([], e2))"

section \<open>Key schedule\<close>

definition dhkem_extract_and_expand :: "'k openssl \<Rightarrow> bytes \<Rightarrow> bytes \<Rightarrow> werr \<Rightarrow> bytes \<times> werr" where
  "dhkem_extract_and_expand os dh kem_context e =
     (case labeled_extract os [] dhkem_suite_id [] ''eae_prk'' dh e of
        (eae_prk, Some x) \<Rightarrow> ([], Some x)
      | (eae_prk, None) \<Rightarrow> labeled_expand os dhkem_suite_id eae_prk ''shared_secret'' kem_context 32 None)"

text \<open>The key and the base nonce.\<close>

definition hpke_key_schedule :: "'k openssl \<Rightarrow> bytes \<Rightarrow> bytes \<Rightarrow> werr \<Rightarrow> (bytes \<times> bytes) \<times> werr" where
  "hpke_key_schedule os shared_secret info e =
     (let (psk_id_hash, e1) = labeled_extract os [] hpke_suite_id [] ''psk_id_hash'' [] e;
          (info_hash, e2) = labeled_extract os [] hpke_suite_id [] ''info_hash'' info e1
      in if e2 \<noteq> None then (([], []), e2)
         else
           let context = [0] @ psk_id_hash @ info_hash;
               (secret, e3) = labeled_extract os [] hpke_suite_id shared_secret ''secret'' [] e2
           in if e3 \<noteq> None then (([], []), e3)
              else
                let (base_nonce, e4) = labeled_expand os hpke_suite_id secret ''base_nonce'' context 12 e3;
                    (key, e5) = labeled_expand os hpke_suite_id secret ''key'' context 32 e4
                in ((key, base_nonce), e5))"

section \<open>AES-GCM\<close>

text \<open>
  \<open>out_len\<close> keeps the value of the call for the associated data when the text is empty and the next call is
  skipped.
\<close>

definition gcm_total :: "'k openssl \<Rightarrow> bytes \<Rightarrow> bytes \<Rightarrow> bytes \<Rightarrow> nat" where
  "gcm_total os aad input output = (if input \<noteq> [] then length output else if aad \<noteq> [] then os_aad_outl os aad else 0)"

text \<open>\<open>vector::resize\<close>\<close>

definition resize_to :: "nat \<Rightarrow> bytes \<Rightarrow> bytes" where
  "resize_to n xs = take n xs @ replicate (n - length xs) 0"

definition aes_gcm_encrypt :: "'k openssl \<Rightarrow> bytes \<Rightarrow> bytes \<Rightarrow> bytes \<Rightarrow> bytes \<Rightarrow> werr \<Rightarrow> bytes \<times> werr" where
  "aes_gcm_encrypt os key nonce plaintext aad e =
     (if length key \<noteq> 32 \<or> length nonce \<noteq> 12 \<or> length plaintext > INT_MAX then ([], Some Crypto_error)
      else case os_gcm_encrypt os key nonce aad plaintext of
             None \<Rightarrow> ([], set_crypto_error e)
           | Some (out, tag) \<Rightarrow>
               (let total = gcm_total os aad plaintext out
                in (write_at total tag (resize_to (total + 16) (out @ replicate 16 0)), e)))"

definition aes_gcm_decrypt :: "'k openssl \<Rightarrow> bytes \<Rightarrow> bytes \<Rightarrow> bytes \<Rightarrow> bytes \<Rightarrow> werr \<Rightarrow> bytes \<times> werr" where
  "aes_gcm_decrypt os key nonce ciphertext aad e =
     (if length key \<noteq> 32 \<or> length nonce \<noteq> 12 \<or> length ciphertext < 16 \<or> length ciphertext > INT_MAX then ([], Some Crypto_error)
      else
        let encrypted_size = length ciphertext - 16
        in case os_gcm_decrypt os key nonce aad (take encrypted_size ciphertext) (drop encrypted_size ciphertext) of
             None \<Rightarrow> ([], set_crypto_error e)
           | Some out \<Rightarrow> (resize_to (gcm_total os aad (take encrypted_size ciphertext) out) out, e))"

section \<open>Wrapping the payload key\<close>

definition hpke_seal :: "'k openssl \<Rightarrow> 'k option \<Rightarrow> bytes \<Rightarrow> bytes \<Rightarrow> bytes \<Rightarrow> bytes \<Rightarrow> bytes \<Rightarrow> key_envelope option \<times> werr" where
  "hpke_seal os key recipient_key_id recipient_public_key info aad plaintext =
     (case generate_e2e_identity os key empty_identity of
        (ephemeral, Some x) \<Rightarrow> (None, Some x)
      | (ephemeral, None) \<Rightarrow>
          let (dh, e1) = x25519_dh os (ei_private_key ephemeral) recipient_public_key None;
              (shared_secret, e2) = dhkem_extract_and_expand os dh (ei_public_key ephemeral @ recipient_public_key) e1;
              ((k, n), e3) = hpke_key_schedule os shared_secret info e2;
              (wrapped_key, e4) = aes_gcm_encrypt os k n plaintext aad e3
          in if e4 \<noteq> None then (None, e4)
             else (Some \<lparr>ke_recipient_key_id = recipient_key_id, ke_encapsulated_key = ei_public_key ephemeral, ke_wrapped_key = wrapped_key\<rparr>, None))"

definition hpke_open :: "'k openssl \<Rightarrow> e2e_identity \<Rightarrow> key_envelope \<Rightarrow> bytes \<Rightarrow> bytes \<Rightarrow> werr \<Rightarrow> bytes \<times> werr" where
  "hpke_open os identity envelope info aad e =
     (let (dh, e1) = x25519_dh os (ei_private_key identity) (ke_encapsulated_key envelope) e;
          (shared_secret, e2) = dhkem_extract_and_expand os dh (ke_encapsulated_key envelope @ ei_public_key identity) e1;
          ((k, n), e3) = hpke_key_schedule os shared_secret info e2
      in aes_gcm_decrypt os k n (ke_wrapped_key envelope) aad e3)"

section \<open>The payload cipher\<close>

definition get_session_key_grant :: "payload_crypto \<Rightarrow> session_key_grant" where
  "get_session_key_grant c =
     \<lparr>sg_payload_suite = pc_payload_suite c, sg_payload_key_id = pc_payload_key_id c, sg_key_envelopes = pc_key_envelopes c,
      sg_key_context = pc_key_context c, sg_key_envelope_suite = pc_key_envelope_suite c\<rparr>"

definition payload_encrypt :: "'k openssl \<Rightarrow> random \<Rightarrow> payload_crypto \<Rightarrow> payload_stream \<Rightarrow> bytes \<Rightarrow> encrypted_payload option \<times> werr" where
  "payload_encrypt os r c stream plaintext =
     (if length plaintext > UINT32_MAX then (None, Some Crypto_error)
      else
        let (nonce, e1) = random_bytes 12 r None;
            plain_length = of_nat (length plaintext);
            (aad, e2) = payload_aad stream (pc_payload_suite c) (pc_payload_key_id c) (pc_key_context c) nonce plain_length e1;
            (ct, e3) = aes_gcm_encrypt os (pc_payload_key c) nonce plaintext aad e2
        in (Some \<lparr>ep_ciphertext = ct, ep_plaintext_length = plain_length,
                  ep_payload_crypto = \<lparr>pm_payload_suite = pc_payload_suite c, pm_payload_key_id = pc_payload_key_id c,
                                       pm_nonce = nonce, pm_aad_context = pc_key_context c\<rparr>\<rparr>, e3))"

definition payload_decrypt :: "'k openssl \<Rightarrow> payload_crypto \<Rightarrow> payload_stream \<Rightarrow> encrypted_payload \<Rightarrow> bytes \<times> werr" where
  "payload_decrypt os c stream src =
     (let m = ep_payload_crypto src in
      if pm_payload_suite m \<noteq> pc_payload_suite c \<or> pm_payload_key_id m \<noteq> pc_payload_key_id c \<or> pm_aad_context m \<noteq> pc_key_context c
         \<or> length (pm_nonce m) \<noteq> 12
      then ([], Some Crypto_error)
      else
        let (aad, e1) = payload_aad stream (pm_payload_suite m) (pm_payload_key_id m) (pm_aad_context m) (pm_nonce m) (ep_plaintext_length src) None;
            (plaintext, e2) = aes_gcm_decrypt os (pc_payload_key c) (pm_nonce m) (ep_ciphertext src) aad e1
        in if e2 = None \<and> length plaintext \<noteq> unat (ep_plaintext_length src) then ([], Some Crypto_error) else (plaintext, e2))"

section \<open>Client and server\<close>

text \<open>One turn of the loop over the recipients; \<open>key\<close> is the ephemeral key of this turn.\<close>

definition seal_for :: "'k openssl \<Rightarrow> e2e_config \<Rightarrow> bytes \<Rightarrow> bytes \<Rightarrow> 'k option \<Rightarrow> e2e_recipient \<Rightarrow> werr \<Rightarrow> key_envelope option \<times> werr" where
  "seal_for os cfg payload_key payload_key_id key recipient e =
     (if length (er_public_key recipient) \<noteq> 32 then (None, Some Crypto_error)
      else
        let (kid, e1) = (if er_key_id recipient = [] then e2e_key_id os [] (er_public_key recipient) else (er_key_id recipient, e))
        in if er_key_id recipient = [] \<and> e1 \<noteq> None then (None, e1)
           else if length kid \<noteq> 16 then (None, Some Crypto_error)
           else
             let (info, e2) = hpke_info (ec_payload_suite cfg) payload_key_id (ec_key_context cfg) (ec_key_envelope_suite cfg) e1;
                 (aad, e3) = hpke_aad kid (ec_payload_suite cfg) payload_key_id (ec_key_context cfg) (ec_key_envelope_suite cfg) e2
             in if e3 \<noteq> None then (None, e3)
                else hpke_seal os key kid (er_public_key recipient) info aad payload_key)"

fun seal_all :: "'k openssl \<Rightarrow> e2e_config \<Rightarrow> bytes \<Rightarrow> bytes \<Rightarrow> (nat \<Rightarrow> 'k option) \<Rightarrow> e2e_recipient list \<Rightarrow> nat \<Rightarrow> werr \<Rightarrow> key_envelope list option \<times> werr" where
  "seal_all os cfg pk kid keys [] i e = (Some [], e)"
| "seal_all os cfg pk kid keys (r # rs) i e =
     (case seal_for os cfg pk kid (keys i) r e of
        (Some env, None) \<Rightarrow>
          (case seal_all os cfg pk kid keys rs (Suc i) None of
             (Some envs, e2) \<Rightarrow> (Some (env # envs), e2)
           | (None, e2) \<Rightarrow> (None, e2))
      | (_, e1) \<Rightarrow> (None, e1))"

definition make_e2e_client_payload_crypto ::
  "'k openssl \<Rightarrow> random \<Rightarrow> random \<Rightarrow> (nat \<Rightarrow> 'k option) \<Rightarrow> e2e_config \<Rightarrow> payload_crypto option \<times> werr" where
  "make_e2e_client_payload_crypto os r1 r2 keys cfg =
     (let e1 = validate_key_envelope_suite (ec_key_envelope_suite cfg) (validate_payload_suite (ec_payload_suite cfg) None) in
      if e1 \<noteq> None then (None, e1)
      else
        let (payload_key, e2) = (if ec_payload_key cfg = [] then random_bytes 32 r1 e1 else (ec_payload_key cfg, e1)) in
        if length payload_key \<noteq> 32 then (None, Some Crypto_error)
        else
          let (payload_key_id, e3) = (if ec_payload_key_id cfg = [] then random_bytes 16 r2 e2 else (ec_payload_key_id cfg, e2)) in
          if length payload_key_id \<noteq> 16 \<or> ec_recipients cfg = [] then (None, Some Crypto_error)
          else
            case seal_all os cfg payload_key payload_key_id keys (ec_recipients cfg) 0 e3 of
              (Some envs, e4) \<Rightarrow>
                (Some \<lparr>pc_payload_suite = ec_payload_suite cfg, pc_payload_key = payload_key, pc_payload_key_id = payload_key_id,
                       pc_key_context = ec_key_context cfg, pc_key_envelope_suite = ec_key_envelope_suite cfg, pc_key_envelopes = envs\<rparr>, e4)
            | (None, e4) \<Rightarrow> (None, e4))"

definition make_e2e_server_payload_crypto :: "'k openssl \<Rightarrow> session_key_grant \<Rightarrow> e2e_identity \<Rightarrow> payload_crypto option \<times> werr" where
  "make_e2e_server_payload_crypto os grant identity =
     (let e1 = validate_key_envelope_suite (sg_key_envelope_suite grant) (validate_payload_suite (sg_payload_suite grant) None) in
      if length (sg_payload_key_id grant) \<noteq> 16 then (None, Some Crypto_error)
      else
        let (ident, e2) = normalize_identity os identity e1 in
        if e2 \<noteq> None then (None, e2)
        else
          case find (\<lambda>env. ke_recipient_key_id env = ei_key_id ident) (sg_key_envelopes grant) of
            None \<Rightarrow> (None, Some Crypto_error)
          | Some matched \<Rightarrow>
              let (info, e3) = hpke_info (sg_payload_suite grant) (sg_payload_key_id grant) (sg_key_context grant) (sg_key_envelope_suite grant) e2;
                  (aad, e4) = hpke_aad (ke_recipient_key_id matched) (sg_payload_suite grant) (sg_payload_key_id grant) (sg_key_context grant)
                                (sg_key_envelope_suite grant) e3;
                  (payload_key, e5) = hpke_open os ident matched info aad e4
              in if e5 \<noteq> None \<or> length payload_key \<noteq> 32 then (None, Some Crypto_error)
                 else (Some \<lparr>pc_payload_suite = sg_payload_suite grant, pc_payload_key = payload_key, pc_payload_key_id = sg_payload_key_id grant,
                             pc_key_context = sg_key_context grant, pc_key_envelope_suite = sg_key_envelope_suite grant, pc_key_envelopes = []\<rparr>, None))"

end
