(* ===== verification/WebttyBytes.thy ===== *)
theory WebttyBytes
  imports WebttyCrypto Payloader
begin

text \<open>
  Byte strings of the WebTTY protocols. Length-prefixed fields are the frames of the payloader, so that a
  sequence of fields can be taken apart in one way only; and the expansion of keys is that of RFC 5869.
\<close>

section \<open>Fields\<close>

lemma be32_htonl: "be32 w = htonl_bytes w"
proof -
  have "(0xff :: 32 word) = mask 8" by (simp add: mask_eq_exp_minus_1)
  moreover have "ucast (v AND mask 8) = (ucast v :: byte)" for v :: "32 word"
    by (auto intro!: bit_word_eqI simp: bit_simps)
  ultimately have "ucast (v AND 0xff) = (ucast v :: byte)" for v :: "32 word" by metis
  then show ?thesis by (simp add: be32_def htonl_bytes_def)
qed

lemma length_prefixed_frame: "length_prefixed = frame"
  by (rule ext) (simp add: length_prefixed_def frame_def be32_htonl)

lemma be32_inj: "be32 v @ r = be32 w @ s \<longleftrightarrow> v = w \<and> r = s"
  by (auto simp: be32_htonl dest: arg_cong [of _ _ ntohl_bytes])

lemma length_prefixed_inj:
  assumes "length p \<le> UINT32_MAX" and "length q \<le> UINT32_MAX"
  shows "length_prefixed p @ r = length_prefixed q @ s \<longleftrightarrow> p = q \<and> r = s"
  using wire.prefix_free [of p q r s] assms by (auto simp: framable_def length_prefixed_frame)

lemma be32_eq [simp]: "be32 v = be32 w \<longleftrightarrow> v = w"
  using be32_inj [of v "[]" w "[]"] by simp

lemma length_be32 [simp]: "length (be32 v) = 4"
  by (simp add: be32_def)

lemma length_bytes_from_string [simp]: "length (bytes_from_string s) = length s"
  by (simp add: bytes_from_string_def)

lemma inj_of_char: "inj (of_char :: char \<Rightarrow> byte)"
proof (rule injI)
  fix c d :: char
  assume "(of_char c :: byte) = of_char d"
  then have "(of_nat (of_char c) :: byte) = of_nat (of_char d)" by (simp only: of_nat_of_char)
  then have "unat (of_nat (of_char c) :: byte) = unat (of_nat (of_char d) :: byte)" by simp
  then have "(of_char c :: nat) mod 256 = of_char d mod 256" by (simp add: unat_of_nat)
  then show "c = d" by simp
qed

lemma bytes_from_string_eq [simp]: "bytes_from_string s = bytes_from_string t \<longleftrightarrow> s = t"
  unfolding bytes_from_string_def using inj_map_eq_map [OF inj_of_char] .

section \<open>Key expansion\<close>

text \<open>The blocks \<open>T(0)\<close>, \<open>T(1)\<close>, \<dots> of RFC 5869 and the output keying material.\<close>

fun rfc5869_T :: "(bytes \<Rightarrow> bytes \<Rightarrow> bytes) \<Rightarrow> bytes \<Rightarrow> bytes \<Rightarrow> nat \<Rightarrow> bytes" where
  "rfc5869_T h prk info 0 = []"
| "rfc5869_T h prk info (Suc i) = h prk (rfc5869_T h prk info i @ info @ [of_nat (Suc i)])"

definition rfc5869_expand :: "(bytes \<Rightarrow> bytes \<Rightarrow> bytes) \<Rightarrow> bytes \<Rightarrow> bytes \<Rightarrow> nat \<Rightarrow> bytes" where
  "rfc5869_expand h prk info len = take len (concat (map (rfc5869_T h prk info) [1..<Suc ((len + 31) div 32)]))"

definition hmac_ok :: "'k openssl \<Rightarrow> (bytes \<Rightarrow> bytes \<Rightarrow> bytes) \<Rightarrow> bool" where
  "hmac_ok os h \<longleftrightarrow> (\<forall>k d. os_hmac_sha256 os k d = Some (h k d) \<and> length (h k d) = 32)"

lemma hmac_works:
  assumes "hmac_ok os h" and "length key \<le> INT_MAX"
  shows "hmac_sha256 os dst key input e = (h key input, e)"
  using assms by (simp add: hmac_ok_def hmac_sha256_def)

lemma T_length: "hmac_ok os h \<Longrightarrow> 0 < i \<Longrightarrow> length (rfc5869_T h prk info i) = 32"
  by (cases i) (simp_all add: hmac_ok_def)

lemma T_concat_length:
  assumes "hmac_ok os h"
  shows "length (concat (map (rfc5869_T h prk info) [1..<Suc i])) = 32 * i"
  by (induction i) (simp_all add: T_length [OF assms] del: rfc5869_T.simps)

lemma hkdf_loop_blocks:
  assumes h: "hmac_ok os h" and key: "length prk \<le> INT_MAX" and "n = (len + 31) div 32" and "i \<le> n"
  shows "hkdf_loop os prk info len (rfc5869_T h prk info i) (of_nat (Suc i)) (concat (map (rfc5869_T h prk info) [1..<Suc i])) None
    = (rfc5869_expand h prk info len, None)"
  using assms(4)
proof (induction "n - i" arbitrary: i)
  case 0
  then have "i = n" by simp
  moreover have "len \<le> 32 * n" unfolding assms(3) by linarith
  ultimately show ?case
    using T_concat_length [OF h, of prk info i] by (subst hkdf_loop.simps) (simp add: rfc5869_expand_def assms(3))
next
  case (Suc k)
  then have i: "Suc i \<le> n" by simp
  then have "32 * i < len" unfolding assms(3) by linarith
  moreover have "k = n - Suc i" using Suc.hyps(2) by simp
  note Suc.hyps(1) [OF this i]
  ultimately show ?case
    using T_concat_length [OF h, of prk info i] hmac_works [OF h key]
    by (subst hkdf_loop.simps) (simp add: add.commute)
qed

text \<open>
  C9: the expansion of keys is HKDF-Expand of RFC 5869. For every pseudorandom key, every information string
  and every length that the standard allows, the loop of the code returns the first bytes of the blocks
  \<open>T(1)\<close>, \<open>T(2)\<close>, and so on, with the block number as last byte of each input; a longer output is refused.
\<close>

theorem hkdf_expand_rfc5869:
  assumes "hmac_ok os h" and "length prk \<le> INT_MAX"
  shows "hkdf_expand os prk info len None = (if len \<le> 255 * 32 then (rfc5869_expand h prk info len, None) else ([], Some Crypto_error))"
  using hkdf_loop_blocks [OF assms refl, of 0 len info]
  by (simp add: hkdf_expand_def rfc5869_expand_def set_crypto_error_def)

section \<open>A cipher on which the properties are evaluated\<close>

text \<open>
  A stand-in for OpenSSL: digests are sums, a key handle is the raw key, the public key of a key is the key
  itself, the agreement adds the keys byte by byte, the cipher adds nothing and its tag is the digest of the
  key, the nonce, the data and the text.
\<close>

definition w_digest :: "nat \<Rightarrow> bytes \<Rightarrow> bytes" where
  "w_digest n d = replicate n (1 + sum_list d)"

definition w_tag :: "bytes \<Rightarrow> bytes \<Rightarrow> bytes \<Rightarrow> bytes \<Rightarrow> bytes" where
  "w_tag k n a p = w_digest 16 (k @ n @ a @ p)"

definition w_openssl :: "bytes openssl" where
  "w_openssl = \<lparr>os_sha256 = w_digest 32, os_hmac_sha256 = (\<lambda>k d. Some (w_digest 32 (k @ d))),
     os_new_raw_private_key = Some, os_new_raw_public_key = Some, os_get_raw_private_key = Some, os_get_raw_public_key = Some,
     os_derive = (\<lambda>a b. Some (map2 (+) a b)),
     os_gcm_encrypt = (\<lambda>k n a p. Some (p, w_tag k n a p)),
     os_gcm_decrypt = (\<lambda>k n a c t. if t = w_tag k n a c then Some c else None),
     os_aad_outl = length\<rparr>"

lemma w_hmac_ok: "hmac_ok w_openssl (\<lambda>k d. w_digest 32 (k @ d))"
  by (simp add: hmac_ok_def w_openssl_def w_digest_def)

theorem hkdf_expand_rfc5869_witness:
  "hkdf_expand w_openssl [1] [2] 40 None = (replicate 32 5 @ replicate 8 166, None)"
proof -
  have "hkdf_expand w_openssl [1] [2] 40 None = (rfc5869_expand (\<lambda>k d. w_digest 32 (k @ d)) [1] [2] 40, None)"
    using hkdf_expand_rfc5869 [OF w_hmac_ok, of "[1]" "[2]" 40] by (simp add: INT_MAX_def)
  also have "rfc5869_expand (\<lambda>k d. w_digest 32 (k @ d)) [1] [2] 40 = replicate 32 5 @ replicate 8 166"
    unfolding rfc5869_expand_def by code_simp
  finally show ?thesis .
qed

end
