(* ===== verification/WebttyCryptoCorrect.thy ===== *)
theory WebttyCryptoCorrect
  imports WebttyBytes
begin

text \<open>
  What the end-to-end encryption of a terminal session promises: a server that holds the key of a recipient
  gets the payload key of the client, and each side reads what the other encrypted on the same stream; what is
  read was authenticated together with the stream, the suite, the key, the session and the length.
\<close>

section \<open>What is assumed of OpenSSL\<close>

definition key_pair :: "'k openssl \<Rightarrow> bytes \<Rightarrow> bytes \<Rightarrow> bool" where
  "key_pair os a A \<longleftrightarrow> length a = 32 \<and> length A = 32 \<and> (\<exists>k. os_new_raw_private_key os a = Some k \<and> os_get_raw_public_key os k = Some A)"

text \<open>Raw keys can be exported and imported again; and both sides of a key agreement derive the same secret.\<close>

definition agreement_ok :: "'k openssl \<Rightarrow> bool" where
  "agreement_ok os \<longleftrightarrow>
     (\<forall>k a A. os_get_raw_private_key os k = Some a \<longrightarrow> os_get_raw_public_key os k = Some A \<longrightarrow> length a = 32 \<longrightarrow> length A = 32 \<longrightarrow> key_pair os a A)
     \<and> (\<forall>a A b B. key_pair os a A \<longrightarrow> key_pair os b B \<longrightarrow>
          (\<exists>ka kb kA kB. os_new_raw_private_key os a = Some ka \<and> os_new_raw_private_key os b = Some kb
            \<and> os_new_raw_public_key os A = Some kA \<and> os_new_raw_public_key os B = Some kB \<and> os_derive os ka kB = os_derive os kb kA))"

text \<open>AES-GCM keeps the length, has tags of sixteen bytes and decrypts what it encrypted.\<close>

definition gcm_ok :: "'k openssl \<Rightarrow> bool" where
  "gcm_ok os \<longleftrightarrow>
     (\<forall>k n a p c t. os_gcm_encrypt os k n a p = Some (c, t) \<longrightarrow> length c = length p \<and> length t = 16 \<and> os_gcm_decrypt os k n a c t = Some p)
     \<and> (\<forall>k n a c t p. os_gcm_decrypt os k n a c t = Some p \<longrightarrow> length p = length c)"

section \<open>An error is not forgotten\<close>

lemma extract_None: "labeled_extract os dst sid salt lab ikm e = (d, None) \<Longrightarrow> e = None"
  by (auto simp: labeled_extract_def hkdf_extract_def dest: hmac_sha256_None)

lemma hkdf_loop_None: "hkdf_loop os prk info len prev n dst e = (d, None) \<Longrightarrow> e = None"
  by (induction os prk info len prev n dst e rule: hkdf_loop.induct)
     (subst (asm) (2) hkdf_loop.simps, auto split: if_splits prod.splits option.splits dest: hmac_sha256_None)

lemma expand_None: "labeled_expand os sid prk lab info len e = (d, None) \<Longrightarrow> e = None"
  by (auto simp: labeled_expand_def hkdf_expand_def set_crypto_error_def dest: hkdf_loop_None split: if_splits)

lemma dhkem_None: "dhkem_extract_and_expand os dh ctx e = (d, None) \<Longrightarrow> e = None"
  by (auto simp: dhkem_extract_and_expand_def dest: extract_None split: prod.splits option.splits)

lemma schedule_None: "hpke_key_schedule os s info e = (x, None) \<Longrightarrow> e = None"
  by (auto simp: hpke_key_schedule_def Let_def dest!: extract_None expand_None split: prod.splits if_splits)

lemma dh_None: "x25519_dh os a B e = (d, None) \<Longrightarrow> e = None \<and> length a = 32 \<and> length B = 32"
  by (auto simp: x25519_dh_def x25519_private_key_def x25519_public_key_def set_crypto_error_def split: if_splits option.splits)

lemma encrypt_None:
  "aes_gcm_encrypt os k n p aad e = (c, None) \<Longrightarrow>
   e = None \<and> length k = 32 \<and> length n = 12 \<and> (\<exists>out tag. os_gcm_encrypt os k n aad p = Some (out, tag)
     \<and> c = write_at (gcm_total os aad p out) tag (resize_to (gcm_total os aad p out + 16) (out @ replicate 16 0)))"
  by (auto simp: aes_gcm_encrypt_def set_crypto_error_def Let_def split: if_splits option.splits)

section \<open>Encryption and decryption\<close>

lemma gcm_roundtrip:
  assumes ok: "gcm_ok os" and enc: "aes_gcm_encrypt os k n p aad None = (c, None)" and p: "p \<noteq> []" "length p + 16 \<le> INT_MAX"
  shows "aes_gcm_decrypt os k n c aad None = (p, None)"
proof -
  obtain out tag where o: "length k = 32" "length n = 12" "os_gcm_encrypt os k n aad p = Some (out, tag)"
      and c: "c = write_at (gcm_total os aad p out) tag (resize_to (gcm_total os aad p out + 16) (out @ replicate 16 0))"
    using encrypt_None [OF enc] by blast
  have g: "length out = length p" "length tag = 16" "os_gcm_decrypt os k n aad out tag = Some p" using ok o(3) by (auto simp: gcm_ok_def)
  have "c = out @ tag" using p(1) g(1,2) by (simp add: c gcm_total_def resize_to_def write_at_def)
  then show ?thesis using o(1,2) g p by (auto simp: aes_gcm_decrypt_def gcm_total_def resize_to_def Let_def)
qed

lemma dh_agrees:
  assumes "agreement_ok os" and "key_pair os a A" and "key_pair os b B"
  shows "x25519_dh os a B None = x25519_dh os b A None"
proof -
  obtain ka kb kA kB where "os_new_raw_private_key os a = Some ka" "os_new_raw_private_key os b = Some kb"
      "os_new_raw_public_key os A = Some kA" "os_new_raw_public_key os B = Some kB" "os_derive os ka kB = os_derive os kb kA"
    using assms unfolding agreement_ok_def by blast
  then show ?thesis using assms(2,3) by (simp add: x25519_dh_def x25519_private_key_def x25519_public_key_def key_pair_def)
qed

lemma ephemeral_pair:
  assumes "agreement_ok os" and "generate_e2e_identity os key dst = (eph, None)" and "length (ei_private_key eph) = 32"
  shows "key_pair os (ei_private_key eph) (ei_public_key eph)"
proof -
  obtain k where k: "key = Some k" using assms(2) by (cases key) (simp_all add: generate_e2e_identity_def)
  have "length (ei_public_key eph) = 32"
    using assms(2) by (auto simp: k generate_e2e_identity_def e2e_key_id_def Let_def split: prod.splits if_splits)
  then have "os_get_raw_private_key os k = Some (ei_private_key eph)" "os_get_raw_public_key os k = Some (ei_public_key eph)"
    using assms(2,3)
    by (auto simp: k generate_e2e_identity_def x25519_get_raw_private_key_def x25519_get_raw_public_key_def raw_key_def Let_def
        split: prod.splits option.splits if_splits)
  then show ?thesis using assms(1,3) \<open>length (ei_public_key eph) = 32\<close> unfolding agreement_ok_def by blast
qed

lemma open_seal:
  assumes ok: "agreement_ok os" "gcm_ok os" and seal: "hpke_seal os key kid B info aad pk = (Some env, None)"
    and pk: "pk \<noteq> []" "length pk + 16 \<le> INT_MAX" and b: "key_pair os (ei_private_key ident) B" "ei_public_key ident = B"
  shows "hpke_open os ident env info aad None = (pk, None) \<and> ke_recipient_key_id env = kid"
proof -
  obtain eph where eph: "generate_e2e_identity os key empty_identity = (eph, None)"
    using seal by (auto simp: hpke_seal_def split: prod.splits option.splits)
  obtain dh e1 where dh: "x25519_dh os (ei_private_key eph) B None = (dh, e1)" by fastforce
  obtain ss e2 where ss: "dhkem_extract_and_expand os dh (ei_public_key eph @ B) e1 = (ss, e2)" by fastforce
  obtain k n e3 where sch: "hpke_key_schedule os ss info e2 = ((k, n), e3)" by (metis prod.exhaust)
  obtain w e4 where w: "aes_gcm_encrypt os k n pk aad e3 = (w, e4)" by fastforce
  from seal have "e4 = None" and env: "env = \<lparr>ke_recipient_key_id = kid, ke_encapsulated_key = ei_public_key eph, ke_wrapped_key = w\<rparr>"
    by (auto simp: hpke_seal_def eph dh ss sch w split: if_splits)
  with w have e: "e3 = None" "e2 = None" "e1 = None" using encrypt_None schedule_None sch dhkem_None ss by blast+
  have pair: "key_pair os (ei_private_key eph) (ei_public_key eph)" using ephemeral_pair [OF ok(1) eph] dh_None dh e(3) by blast
  have "x25519_dh os (ei_private_key ident) (ei_public_key eph) None = (dh, None)" using dh_agrees [OF ok(1) pair b(1)] dh e(3) by simp
  then show ?thesis
    using ss sch gcm_roundtrip [OF ok(2) _ pk] w e \<open>e4 = None\<close> by (simp add: hpke_open_def env b(2))
qed

lemma seal_kid: "hpke_seal os key kid B info aad pk = (Some env, None) \<Longrightarrow> ke_recipient_key_id env = kid"
  unfolding hpke_seal_def Let_def by (auto split: prod.splits option.splits if_splits)

lemma payload_roundtrip:
  assumes ok: "gcm_ok os" and enc: "payload_encrypt os r c stream p = (Some x, None)" and p: "p \<noteq> []" "length p + 16 \<le> INT_MAX"
    and same: "pc_payload_suite s = pc_payload_suite c" "pc_payload_key s = pc_payload_key c" "pc_payload_key_id s = pc_payload_key_id c"
      "pc_key_context s = pc_key_context c"
  shows "payload_decrypt os s stream x = (p, None)"
proof -
  obtain nonce e1 where n: "random_bytes 12 r None = (nonce, e1)" by fastforce
  define l where "l = (of_nat (length p) :: 32 word)"
  obtain aad e2 where a: "payload_aad stream (pc_payload_suite c) (pc_payload_key_id c) (pc_key_context c) nonce l e1 = (aad, e2)" by fastforce
  obtain ct where ct: "aes_gcm_encrypt os (pc_payload_key c) nonce p aad e2 = (ct, None)"
      and x: "x = \<lparr>ep_ciphertext = ct, ep_plaintext_length = l, ep_payload_crypto = \<lparr>pm_payload_suite = pc_payload_suite c,
        pm_payload_key_id = pc_payload_key_id c, pm_nonce = nonce, pm_aad_context = pc_key_context c\<rparr>\<rparr>"
    using enc n a by (auto simp: payload_encrypt_def l_def Let_def split: if_splits prod.splits)
  have e: "e2 = None" "length nonce = 12" using encrypt_None [OF ct] by blast+
  then have e1: "e1 = None" using a by (cases "pc_payload_suite c") (auto simp: payload_aad_def Let_def split: if_splits)
  have l: "unat l = length p" using p(2) unfolding l_def by (simp add: unat_of_nat INT_MAX_def)
  have "aes_gcm_decrypt os (pc_payload_key c) nonce ct aad None = (p, None)" using gcm_roundtrip [OF ok _ p] ct e(1) by simp
  then show ?thesis using a e e1 l by (simp add: payload_decrypt_def x same Let_def)
qed

section \<open>The key of the session\<close>

definition recipient_kid :: "'k openssl \<Rightarrow> bytes \<Rightarrow> bytes \<Rightarrow> bytes" where
  "recipient_kid os kid pub = (if kid = [] then fst (e2e_key_id os [] pub) else kid)"

lemma seal_for_Some:
  assumes "seal_for os cfg pk pkid key r e = (Some env, None)"
  shows "\<exists>info aad. hpke_info (ec_payload_suite cfg) pkid (ec_key_context cfg) (ec_key_envelope_suite cfg) None = (info, None)
    \<and> hpke_aad (recipient_kid os (er_key_id r) (er_public_key r)) (ec_payload_suite cfg) pkid (ec_key_context cfg) (ec_key_envelope_suite cfg) None = (aad, None)
    \<and> hpke_seal os key (recipient_kid os (er_key_id r) (er_public_key r)) (er_public_key r) info aad pk = (Some env, None)"
proof -
  obtain kid e1 where k: "(if er_key_id r = [] then e2e_key_id os [] (er_public_key r) else (er_key_id r, e)) = (kid, e1)" by fastforce
  then have kid: "kid = recipient_kid os (er_key_id r) (er_public_key r)" by (auto simp: recipient_kid_def split: if_splits)
  obtain info e2 where i: "hpke_info (ec_payload_suite cfg) pkid (ec_key_context cfg) (ec_key_envelope_suite cfg) e1 = (info, e2)" by fastforce
  obtain aad e3 where a: "hpke_aad kid (ec_payload_suite cfg) pkid (ec_key_context cfg) (ec_key_envelope_suite cfg) e2 = (aad, e3)" by fastforce
  have s: "e3 = None" "hpke_seal os key kid (er_public_key r) info aad pk = (Some env, None)"
    using assms by (auto simp: seal_for_def k i a Let_def split: if_splits)
  moreover have "e2 = None" using a s(1)
    by (cases "ec_payload_suite cfg"; cases "ec_key_envelope_suite cfg") (auto simp: hpke_aad_def Let_def split: if_splits)
  moreover have "e1 = None" using i \<open>e2 = None\<close>
    by (cases "ec_payload_suite cfg"; cases "ec_key_envelope_suite cfg") (auto simp: hpke_info_def Let_def split: if_splits)
  ultimately show ?thesis using i a kid by blast
qed

lemma seal_all_nth:
  "seal_all os cfg pk pkid keys rs i e = (Some envs, e') \<Longrightarrow>
   length envs = length rs \<and> (\<forall>j < length rs. \<exists>e. seal_for os cfg pk pkid (keys (i + j)) (rs ! j) e = (Some (envs ! j), None))"
proof (induction rs arbitrary: i e envs e')
  case (Cons r rs)
  obtain env envs' where s: "seal_for os cfg pk pkid (keys i) r e = (Some env, None)" "seal_all os cfg pk pkid keys rs (Suc i) None = (Some envs', e')"
      "envs = env # envs'"
    using Cons.prems by (auto split: prod.splits option.splits)
  from Cons.IH [OF s(2)] s(1,3) show ?case by (auto simp: nth_Cons' less_Suc_eq_0_disj)
qed simp

lemma client_made:
  assumes "make_e2e_client_payload_crypto os r1 r2 keys cfg = (Some c, None)"
  shows "\<exists>e. seal_all os cfg (pc_payload_key c) (pc_payload_key_id c) keys (ec_recipients cfg) 0 e = (Some (pc_key_envelopes c), None)"
    and "length (pc_payload_key c) = 32" "length (pc_payload_key_id c) = 16" "pc_payload_suite c = Aes_256_gcm" "pc_key_envelope_suite c = Hpke_aes_256_gcm"
    "pc_payload_suite c = ec_payload_suite cfg" "pc_key_envelope_suite c = ec_key_envelope_suite cfg" "pc_key_context c = ec_key_context cfg"
  using assms
  by (auto simp: make_e2e_client_payload_crypto_def validate_payload_suite_def validate_key_envelope_suite_def Let_def
      split: if_splits prod.splits option.splits)

lemma normalized:
  assumes "key_pair os (ei_private_key ident) B" and "ei_public_key ident \<in> {[], B}" and "ei_key_id ident = [] \<or> length (ei_key_id ident) = 16"
  shows "normalize_identity os ident None = (ident\<lparr>ei_public_key := B, ei_key_id := recipient_kid os (ei_key_id ident) B\<rparr>, None)"
proof -
  obtain k where k: "os_new_raw_private_key os (ei_private_key ident) = Some k" "os_get_raw_public_key os k = Some B"
      and len: "length (ei_private_key ident) = 32" "length B = 32"
    using assms(1) unfolding key_pair_def by blast
  have "x25519_public_from_private os [] (ei_private_key ident) None = (B, None)"
    using k len by (simp add: x25519_public_from_private_def x25519_private_key_def x25519_get_raw_public_key_def raw_key_def)
  moreover have "B \<noteq> []" using len(2) by auto
  ultimately show ?thesis
    using assms(2,3) len by (auto simp: normalize_identity_def recipient_kid_def e2e_key_id_def Let_def)
qed

lemma server_resolves:
  assumes "agreement_ok os" and "gcm_ok os" and made: "make_e2e_client_payload_crypto os r1 r2 keys cfg = (Some c, None)"
    and i: "i < length (ec_recipients cfg)" "er_public_key (ec_recipients cfg ! i) = B"
    and ident: "key_pair os (ei_private_key ident) B" "ei_public_key ident \<in> {[], B}" "ei_key_id ident = [] \<or> length (ei_key_id ident) = 16"
    and kid: "recipient_kid os (ei_key_id ident) B = recipient_kid os (er_key_id (ec_recipients cfg ! i)) B"
    and first: "list_all (\<lambda>r. recipient_kid os (er_key_id r) (er_public_key r) \<noteq> recipient_kid os (ei_key_id ident) B) (take i (ec_recipients cfg))"
  shows "make_e2e_server_payload_crypto os (get_session_key_grant c) ident = (Some (c\<lparr>pc_key_envelopes := []\<rparr>), None)"
proof -
  note c = client_made [OF made]
  let ?kid = "recipient_kid os (ei_key_id ident) B" and ?rs = "ec_recipients cfg" and ?envs = "pc_key_envelopes c"
  obtain e where "seal_all os cfg (pc_payload_key c) (pc_payload_key_id c) keys ?rs 0 e = (Some ?envs, None)" using c(1) by blast
  note all = seal_all_nth [OF this]
  have ids: "ke_recipient_key_id (?envs ! j) = recipient_kid os (er_key_id (?rs ! j)) (er_public_key (?rs ! j))" if j: "j < length ?rs" for j
  proof -
    obtain e where "seal_for os cfg (pc_payload_key c) (pc_payload_key_id c) (keys (0 + j)) (?rs ! j) e = (Some (?envs ! j), None)" using all j by blast
    from seal_for_Some [OF this] show ?thesis using seal_kid by blast
  qed
  obtain e where "seal_for os cfg (pc_payload_key c) (pc_payload_key_id c) (keys (0 + i)) (?rs ! i) e = (Some (?envs ! i), None)" using all i(1) by blast
  from seal_for_Some [OF this] obtain info aad where
    ia: "hpke_info (ec_payload_suite cfg) (pc_payload_key_id c) (ec_key_context cfg) (ec_key_envelope_suite cfg) None = (info, None)"
      "hpke_aad ?kid (ec_payload_suite cfg) (pc_payload_key_id c) (ec_key_context cfg) (ec_key_envelope_suite cfg) None = (aad, None)"
      "hpke_seal os (keys (0 + i)) ?kid B info aad (pc_payload_key c) = (Some (?envs ! i), None)"
    unfolding kid i(2) by blast
  have nonempty: "pc_payload_key c \<noteq> []" using c(2) by auto
  define ident' where "ident' = ident\<lparr>ei_public_key := B, ei_key_id := ?kid\<rparr>"
  have "find (\<lambda>env. ke_recipient_key_id env = ?kid) ?envs = Some (?envs ! i)"
    unfolding find_Some_iff using all i ids kid first by (intro exI [of _ i]) (auto simp: list_all_length)
  moreover have "hpke_open os ident' (?envs ! i) info aad None = (pc_payload_key c, None) \<and> ke_recipient_key_id (?envs ! i) = ?kid"
    using open_seal [OF assms(1,2) ia(3) nonempty, of ident'] ident(1) c(2) by (simp add: ident'_def INT_MAX_def)
  moreover have "normalize_identity os ident None = (ident', None)" unfolding ident'_def by (rule normalized [OF ident])
  ultimately show ?thesis
    using c(2-8) ia(1,2) by (simp add: make_e2e_server_payload_crypto_def get_session_key_grant_def validate_payload_suite_def
        validate_key_envelope_suite_def ident'_def)
qed

text \<open>
  C3: client and server of a session agree on its key, and each reads what the other writes. When a client
  has set up its cipher for some recipients, a server that holds the private key of one of them, and is not
  preceded by a recipient with the same key identifier, accepts the grant and obtains the key of the client;
  and every payload that one of the two encrypts for a stream is decrypted by the other for that stream, as
  long as it is not empty and fits the lengths of OpenSSL.
\<close>

theorem e2e_session_agrees:
  assumes "agreement_ok os" and "gcm_ok os" and made: "make_e2e_client_payload_crypto os r1 r2 keys cfg = (Some c, None)"
    and i: "i < length (ec_recipients cfg)" "er_public_key (ec_recipients cfg ! i) = B"
    and ident: "key_pair os (ei_private_key ident) B" "ei_public_key ident \<in> {[], B}" "ei_key_id ident = [] \<or> length (ei_key_id ident) = 16"
    and kid: "recipient_kid os (ei_key_id ident) B = recipient_kid os (er_key_id (ec_recipients cfg ! i)) B"
    and first: "list_all (\<lambda>r. recipient_kid os (er_key_id r) (er_public_key r) \<noteq> recipient_kid os (ei_key_id ident) B) (take i (ec_recipients cfg))"
  shows "\<exists>s. make_e2e_server_payload_crypto os (get_session_key_grant c) ident = (Some s, None)
    \<and> pc_payload_key s = pc_payload_key c
    \<and> (\<forall>r stream p x. p \<noteq> [] \<longrightarrow> length p + 16 \<le> INT_MAX \<longrightarrow>
         (payload_encrypt os r c stream p = (Some x, None) \<longrightarrow> payload_decrypt os s stream x = (p, None))
         \<and> (payload_encrypt os r s stream p = (Some x, None) \<longrightarrow> payload_decrypt os c stream x = (p, None)))"
  using server_resolves [OF assms] payload_roundtrip [OF assms(2)] by fastforce

section \<open>Sample session\<close>

lemma extract_works:
  assumes "hmac_ok os h" and "length salt \<le> INT_MAX"
  shows "\<exists>d. labeled_extract os dst sid salt lab ikm None = (d, None) \<and> length d = 32"
  using assms hmac_works [OF assms(1), of "if salt = [] then replicate 32 0 else salt" dst]
  by (auto simp: labeled_extract_def hkdf_extract_def hmac_ok_def INT_MAX_def)

lemma expand_works:
  assumes h: "hmac_ok os h" and "length prk \<le> INT_MAX" and "0 < len" "len \<le> 32"
  shows "\<exists>d. labeled_expand os sid prk lab info len None = (d, None) \<and> length d = len"
proof -
  have "length (rfc5869_expand h prk i len) = len" for i
    using T_concat_length [OF h, of prk i "(len + 31) div 32"] assms(3,4) by (simp add: rfc5869_expand_def)
  then show ?thesis using hkdf_loop_blocks [OF h assms(2) refl, of 0 len] assms(3,4) by (auto simp: labeled_expand_def hkdf_expand_def)
qed

lemma schedule_works:
  assumes "hmac_ok os h" and "length ss \<le> INT_MAX"
  shows "\<exists>k n. hpke_key_schedule os ss info None = ((k, n), None) \<and> length k = 32 \<and> length n = 12"
proof -
  have i: "32 \<le> INT_MAX" "length ([] :: bytes) \<le> INT_MAX" by (simp_all add: INT_MAX_def)
  obtain p q where "labeled_extract os [] hpke_suite_id [] ''psk_id_hash'' [] None = (p, None)" "labeled_extract os [] hpke_suite_id [] ''info_hash'' info None = (q, None)"
    using extract_works [OF assms(1) i(2)] by meson
  moreover obtain s where "labeled_extract os [] hpke_suite_id ss ''secret'' [] None = (s, None)" "length s = 32"
    using extract_works [OF assms] by meson
  moreover from this i(1) have "length s \<le> INT_MAX" by simp
  note x = expand_works [OF assms(1) this]
  obtain n where "labeled_expand os hpke_suite_id s ''base_nonce'' ([0] @ p @ q) 12 None = (n, None)" "length n = 12"
    using x [of 12 hpke_suite_id "''base_nonce''" "[0] @ p @ q"] by auto
  moreover obtain k where "labeled_expand os hpke_suite_id s ''key'' ([0] @ p @ q) 32 None = (k, None)" "length k = 32"
    using x [of 32 hpke_suite_id "''key''" "[0] @ p @ q"] by auto
  ultimately show ?thesis by (simp add: hpke_key_schedule_def)
qed

lemma w_agreement: "agreement_ok w_openssl"
proof -
  have "map2 (+) a b = map2 (+) b a" for a b :: bytes by (induction a b rule: list_induct2') (simp_all add: add.commute)
  then show ?thesis by (simp add: agreement_ok_def key_pair_def w_openssl_def)
qed

lemma w_gcm: "gcm_ok w_openssl"
  by (auto simp: gcm_ok_def w_openssl_def w_tag_def w_digest_def split: if_splits)

definition w_e2e_config :: e2e_config where
  "w_e2e_config = \<lparr>ec_payload_suite = Aes_256_gcm, ec_payload_key = [], ec_payload_key_id = replicate 16 3, ec_key_context = [7],
     ec_key_envelope_suite = Hpke_aes_256_gcm, ec_recipients = [\<lparr>er_key_id = replicate 16 4, er_public_key = replicate 32 1\<rparr>]\<rparr>"

definition w_identity :: e2e_identity where
  "w_identity = \<lparr>ei_key_id = replicate 16 4, ei_public_key = [], ei_private_key = replicate 32 1\<rparr>"

lemma w_seal: "\<exists>env. hpke_seal w_openssl (Some (replicate 32 2)) kid (replicate 32 1) info aad (replicate 32 5) = (Some env, None)"
proof -
  have gen: "generate_e2e_identity w_openssl (Some (replicate 32 2)) empty_identity
      = (\<lparr>ei_key_id = take 16 (w_digest 32 (bytes_from_string ''rstream-webtty-e2e-key-id/v1'' @ replicate 32 2)),
          ei_public_key = replicate 32 2, ei_private_key = replicate 32 2\<rparr>, None)"
    by (simp add: generate_e2e_identity_def x25519_get_raw_private_key_def x25519_get_raw_public_key_def raw_key_def e2e_key_id_def w_openssl_def)
  have dh: "x25519_dh w_openssl (replicate 32 2) (replicate 32 1) None = (replicate 32 3, None)"
    by (simp add: x25519_dh_def x25519_private_key_def x25519_public_key_def w_openssl_def zip_replicate list_all_iff)
  have i: "32 \<le> INT_MAX" "length ([] :: bytes) \<le> INT_MAX" by (simp_all add: INT_MAX_def)
  obtain prk where p: "labeled_extract w_openssl [] dhkem_suite_id [] ''eae_prk'' (replicate 32 3) None = (prk, None)" "length prk = 32"
    using extract_works [OF w_hmac_ok i(2)] by meson
  obtain ss where ss: "labeled_expand w_openssl dhkem_suite_id prk ''shared_secret'' (replicate 32 2 @ replicate 32 1) 32 None = (ss, None)" "length ss = 32"
    using expand_works [OF w_hmac_ok, of prk 32 dhkem_suite_id "''shared_secret''"] p(2) i(1) by auto
  obtain k n where "hpke_key_schedule w_openssl ss info None = ((k, n), None)" "length k = 32" "length n = 12"
    using schedule_works [OF w_hmac_ok, of ss info] ss(2) i(1) by auto
  moreover from this have "snd (aes_gcm_encrypt w_openssl k n (replicate 32 5) aad None) = None"
    by (simp add: aes_gcm_encrypt_def w_openssl_def INT_MAX_def Let_def)
  ultimately show ?thesis using p ss by (auto simp: hpke_seal_def gen dh dhkem_extract_and_expand_def split: prod.splits)
qed

lemma w_client:
  "\<exists>c. make_e2e_client_payload_crypto w_openssl (Some (\<lambda>_. 5)) None (\<lambda>_. Some (replicate 32 2)) w_e2e_config = (Some c, None)"
proof -
  have "map (\<lambda>_. 5) [0..<32] = (replicate 32 5 :: bytes)" by (simp add: map_replicate_const)
  moreover have "\<exists>env. seal_for w_openssl w_e2e_config (replicate 32 5) (replicate 16 3) (Some (replicate 32 2))
      \<lparr>er_key_id = replicate 16 4, er_public_key = replicate 32 1\<rparr> None = (Some env, None)"
    using w_seal by (simp add: seal_for_def w_e2e_config_def hpke_info_def hpke_aad_def Let_def)
  ultimately show ?thesis
    by (auto simp: make_e2e_client_payload_crypto_def w_e2e_config_def validate_payload_suite_def validate_key_envelope_suite_def random_bytes_def Let_def)
qed

theorem e2e_session_agrees_witness:
  "\<exists>c s. make_e2e_client_payload_crypto w_openssl (Some (\<lambda>_. 5)) None (\<lambda>_. Some (replicate 32 2)) w_e2e_config = (Some c, None)
    \<and> make_e2e_server_payload_crypto w_openssl (get_session_key_grant c) w_identity = (Some s, None) \<and> pc_payload_key s = pc_payload_key c"
proof -
  obtain c where c: "make_e2e_client_payload_crypto w_openssl (Some (\<lambda>_. 5)) None (\<lambda>_. Some (replicate 32 2)) w_e2e_config = (Some c, None)"
    using w_client by blast
  have "key_pair w_openssl (ei_private_key w_identity) (replicate 32 1)" by (simp add: key_pair_def w_openssl_def w_identity_def)
  then show ?thesis
    using e2e_session_agrees [OF w_agreement w_gcm c, of 0 "replicate 32 1" w_identity] c
    by (auto simp: w_e2e_config_def w_identity_def recipient_kid_def)
qed

end
