(* ===== verification/WebttyPayload.thy ===== *)
theory WebttyPayload
  imports WebttyCryptoCorrect
begin

text \<open>
  What is authenticated with a payload, and three places where the cipher does not do what it means to: empty
  payloads, unsupported suites, and a key agreement that fails without an error.
\<close>

section \<open>Associated data\<close>

text \<open>The fields whose lengths are written with four bytes.\<close>

definition fits :: "bytes \<Rightarrow> bool" where
  "fits b \<longleftrightarrow> length b \<le> UINT32_MAX"

lemma stream_name_eq [simp]: "payload_stream_name s = payload_stream_name t \<longleftrightarrow> s = t"
  by (cases s; cases t) simp_all

lemma stream_name_fits: "fits (bytes_from_string (payload_stream_name s))"
  by (cases s) (simp_all add: fits_def UINT32_MAX_def)

lemma suite_code_eq:
  assumes "payload_suite_code p e = (w, None)" and "payload_suite_code q f = (w, None)"
  shows "p = q"
  using assms by (cases p; cases q) auto

lemma field_eq: "fits p \<Longrightarrow> fits q \<Longrightarrow> length_prefixed p = length_prefixed q \<longleftrightarrow> p = q"
  using length_prefixed_inj [of p q "[]" "[]"] by (simp add: fits_def)

lemma field_inj: "fits p \<Longrightarrow> fits q \<Longrightarrow> length_prefixed p @ r = length_prefixed q @ s \<longleftrightarrow> p = q \<and> r = s"
  by (simp add: fits_def length_prefixed_inj)

lemma payload_aad_None:
  assumes "payload_aad stream suite kid ctx nonce len e = (aad, None)"
  obtains w where "payload_suite_code suite e = (w, None)"
    "aad = length_prefixed (bytes_from_string ''rstream-webtty-e2e-payload/v1'')
       @ length_prefixed (bytes_from_string (payload_stream_name stream)) @ be32 w
       @ length_prefixed kid @ length_prefixed ctx @ length_prefixed nonce @ be32 len"
  using assms by (auto simp: payload_aad_def Let_def split: if_splits prod.splits)

lemma payload_aad_inj:
  assumes "payload_aad stream suite kid ctx nonce len e = (aad, None)" and "payload_aad stream' suite' kid' ctx' nonce' len' e' = (aad, None)"
    and "fits kid" "fits kid'" "fits ctx" "fits ctx'" "fits nonce" "fits nonce'"
  shows "stream' = stream \<and> suite' = suite \<and> kid' = kid \<and> ctx' = ctx \<and> nonce' = nonce \<and> len' = len"
proof -
  obtain w where w: "payload_suite_code suite e = (w, None)" "aad = length_prefixed (bytes_from_string ''rstream-webtty-e2e-payload/v1'')
       @ length_prefixed (bytes_from_string (payload_stream_name stream)) @ be32 w @ length_prefixed kid @ length_prefixed ctx @ length_prefixed nonce @ be32 len"
    using payload_aad_None [OF assms(1)] .
  obtain v where v: "payload_suite_code suite' e' = (v, None)" "aad = length_prefixed (bytes_from_string ''rstream-webtty-e2e-payload/v1'')
       @ length_prefixed (bytes_from_string (payload_stream_name stream')) @ be32 v @ length_prefixed kid' @ length_prefixed ctx' @ length_prefixed nonce' @ be32 len'"
    using payload_aad_None [OF assms(2)] .
  from w(2) v(2) have "stream = stream' \<and> w = v \<and> kid = kid' \<and> ctx = ctx' \<and> nonce = nonce' \<and> len = len'"
    using assms(3-) by (simp add: field_inj field_eq stream_name_fits be32_inj)
  with suite_code_eq w(1) v(1) show ?thesis by blast
qed

text \<open>
  C11: what is decrypted was authenticated as what it is taken for. When a payload is accepted for a stream,
  AES-GCM has accepted its bytes under the key of the session and the nonce of the payload, with associated
  data that no other stream, suite, key identifier, session context, nonce or length shares; the suite, the
  key identifier and the context are those of the session, and the text has the announced length.
\<close>

theorem payload_authenticated:
  assumes "payload_decrypt os c stream x = (p, None)" and "length (ep_ciphertext x) \<noteq> 16"
    and "fits (pc_payload_key_id c)" "fits (pc_key_context c)"
  shows "\<exists>aad. payload_aad stream (pc_payload_suite c) (pc_payload_key_id c) (pc_key_context c) (pm_nonce (ep_payload_crypto x)) (ep_plaintext_length x) None = (aad, None)
    \<and> os_gcm_decrypt os (pc_payload_key c) (pm_nonce (ep_payload_crypto x)) aad
        (take (length (ep_ciphertext x) - 16) (ep_ciphertext x)) (drop (length (ep_ciphertext x) - 16) (ep_ciphertext x)) = Some p
    \<and> length p = unat (ep_plaintext_length x)
    \<and> (\<forall>stream' suite' kid' ctx' nonce' len'. fits kid' \<longrightarrow> fits ctx' \<longrightarrow> fits nonce' \<longrightarrow>
         payload_aad stream' suite' kid' ctx' nonce' len' None = (aad, None) \<longrightarrow>
         stream' = stream \<and> suite' = pc_payload_suite c \<and> kid' = pc_payload_key_id c \<and> ctx' = pc_key_context c
         \<and> nonce' = pm_nonce (ep_payload_crypto x) \<and> len' = ep_plaintext_length x)"
proof -
  let ?m = "ep_payload_crypto x" and ?n = "length (ep_ciphertext x) - 16"
  have same: "pm_payload_suite ?m = pc_payload_suite c" "pm_payload_key_id ?m = pc_payload_key_id c" "pm_aad_context ?m = pc_key_context c" "length (pm_nonce ?m) = 12"
    using assms(1) by (auto simp: payload_decrypt_def Let_def split: if_splits)
  obtain aad e1 where aad: "payload_aad stream (pc_payload_suite c) (pc_payload_key_id c) (pc_key_context c) (pm_nonce ?m) (ep_plaintext_length x) None = (aad, e1)" by fastforce
  have dec: "aes_gcm_decrypt os (pc_payload_key c) (pm_nonce ?m) (ep_ciphertext x) aad e1 = (p, None)" and len: "length p = unat (ep_plaintext_length x)"
    using assms(1) same aad by (auto simp: payload_decrypt_def Let_def split: if_splits prod.splits)
  obtain out where e1: "e1 = None" and out: "os_gcm_decrypt os (pc_payload_key c) (pm_nonce ?m) aad (take ?n (ep_ciphertext x)) (drop ?n (ep_ciphertext x)) = Some out"
      and p: "p = resize_to (gcm_total os aad (take ?n (ep_ciphertext x)) out) out"
    using dec by (auto simp: aes_gcm_decrypt_def set_crypto_error_def Let_def split: if_splits option.splits)
  have nonce: "fits (pm_nonce ?m)" using same(4) by (simp add: fits_def UINT32_MAX_def)
  have "16 \<le> length (ep_ciphertext x)" using dec by (auto simp: aes_gcm_decrypt_def split: if_splits)
  then have "take ?n (ep_ciphertext x) \<noteq> []" using assms(2) by auto
  then have "out = p" by (simp add: p gcm_total_def resize_to_def)
  then show ?thesis using aad e1 out len payload_aad_inj [OF _ _ assms(3) _ assms(4) _ nonce] by blast
qed

section \<open>Sample payload\<close>

definition w_session :: payload_crypto where
  "w_session = \<lparr>pc_payload_suite = Aes_256_gcm, pc_payload_key = replicate 32 1, pc_payload_key_id = [2], pc_key_context = [],
     pc_key_envelope_suite = Hpke_aes_256_gcm, pc_key_envelopes = []\<rparr>"

lemma w_encrypts: "\<exists>x. payload_encrypt w_openssl (Some (\<lambda>_. 1)) w_session Std_in [5] = (Some x, None) \<and> length (ep_ciphertext x) = 17"
  by (simp add: payload_encrypt_def w_session_def random_bytes_def payload_aad_def aes_gcm_encrypt_def w_openssl_def w_tag_def w_digest_def
      gcm_total_def resize_to_def UINT32_MAX_def INT_MAX_def Let_def)

theorem payload_authenticated_witness:
  "\<exists>x aad. payload_decrypt w_openssl w_session Std_in x = ([5], None)
    \<and> os_gcm_decrypt w_openssl (pc_payload_key w_session) (pm_nonce (ep_payload_crypto x)) aad
        (take (length (ep_ciphertext x) - 16) (ep_ciphertext x)) (drop (length (ep_ciphertext x) - 16) (ep_ciphertext x)) = Some [5]"
proof -
  obtain x where x: "payload_encrypt w_openssl (Some (\<lambda>_. 1)) w_session Std_in [5] = (Some x, None)" "length (ep_ciphertext x) = 17"
    using w_encrypts by blast
  have d: "payload_decrypt w_openssl w_session Std_in x = ([5], None)"
    using payload_roundtrip [OF w_gcm x(1), of w_session] by (simp add: INT_MAX_def)
  have f: "fits (pc_payload_key_id w_session)" "fits (pc_key_context w_session)" by (simp_all add: fits_def w_session_def UINT32_MAX_def)
  have "length (ep_ciphertext x) \<noteq> 16" using x(2) by simp
  from payload_authenticated [OF d this f] d show ?thesis by blast
qed

section \<open>Where the cipher fails\<close>

text \<open>
  An empty payload: the output length of the associated data is taken for that of the text, so that the
  ciphertext grows by the size of the associated data, and no receiver accepts it.
\<close>

theorem empty_payload_not_decrypted:
  assumes "gcm_ok os" and "os_aad_outl os = length" and "payload_encrypt os r c stream [] = (Some x, None)"
    and "pc_payload_key s = pc_payload_key c" "pc_payload_suite s = pc_payload_suite c" "pc_payload_key_id s = pc_payload_key_id c" "pc_key_context s = pc_key_context c"
  shows "snd (payload_decrypt os s stream x) = Some Crypto_error"
proof -
  obtain nonce e1 where n: "random_bytes 12 r None = (nonce, e1)" by fastforce
  obtain aad e2 where a: "payload_aad stream (pc_payload_suite c) (pc_payload_key_id c) (pc_key_context c) nonce 0 e1 = (aad, e2)" by fastforce
  obtain ct where ct: "aes_gcm_encrypt os (pc_payload_key c) nonce [] aad e2 = (ct, None)"
      and x: "x = \<lparr>ep_ciphertext = ct, ep_plaintext_length = 0, ep_payload_crypto = \<lparr>pm_payload_suite = pc_payload_suite c,
        pm_payload_key_id = pc_payload_key_id c, pm_nonce = nonce, pm_aad_context = pc_key_context c\<rparr>\<rparr>"
    using assms(3) n a by (auto simp: payload_encrypt_def Let_def split: if_splits prod.splits)
  obtain out tag where e: "e2 = None" "length nonce = 12" and o: "os_gcm_encrypt os (pc_payload_key c) nonce aad [] = Some (out, tag)"
      and c: "ct = write_at (gcm_total os aad [] out) tag (resize_to (gcm_total os aad [] out + 16) (out @ replicate 16 0))"
    using encrypt_None [OF ct] by blast
  have e1: "e1 = None" using a e(1) by (cases "pc_payload_suite c") (auto simp: payload_aad_def Let_def split: if_splits)
  have aad: "aad \<noteq> []" using payload_aad_None [OF a [unfolded e(1)]] by (metis append_is_Nil_conv length_prefixed_def length_be32 list.size(3) zero_neq_numeral)
  have g: "out = []" "length tag = 16" using assms(1) o unfolding gcm_ok_def by fastforce+
  have "length ct = length aad + 16" using g aad by (simp add: c gcm_total_def assms(2) resize_to_def)
  then have t: "take (length ct - 16) ct \<noteq> []" "length (take (length ct - 16) ct) = length aad" using aad by auto
  have "aes_gcm_decrypt os (pc_payload_key c) nonce ct aad None = ([], Some Crypto_error)
      \<or> (\<exists>p. aes_gcm_decrypt os (pc_payload_key c) nonce ct aad None = (p, None) \<and> length p = length aad)"
  proof (cases "os_gcm_decrypt os (pc_payload_key c) nonce aad (take (length ct - 16) ct) (drop (length ct - 16) ct)")
    case None
    then show ?thesis unfolding aes_gcm_decrypt_def set_crypto_error_def Let_def by simp
  next
    case (Some p)
    then have "length p = length aad" using assms(1) t(2) unfolding gcm_ok_def by metis
    moreover have "resize_to (gcm_total os aad (take (length ct - 16) ct) p) p = p" using t(1) by (simp add: gcm_total_def resize_to_def)
    ultimately show ?thesis using Some unfolding aes_gcm_decrypt_def Let_def by simp
  qed
  then show ?thesis using a aad e e1 unfolding payload_decrypt_def x assms(4-) Let_def by auto
qed

text \<open>
  The check of the suites is undone: when the identity of the server has a public key but no key identifier,
  computing the identifier clears the error that the check has left.
\<close>

theorem unsupported_suite_forgotten:
  assumes "length (ei_private_key ident) = 32" and "length (ei_public_key ident) = 32" and "ei_key_id ident = []"
  shows "snd (normalize_identity os ident (validate_payload_suite Chacha20_poly1305 None)) = None"
proof -
  have "ei_public_key ident \<noteq> []" using assms(2) by auto
  then show ?thesis using assms by (simp add: normalize_identity_def validate_payload_suite_def e2e_key_id_def Let_def)
qed

text \<open>
  When OpenSSL does not return a handle for a public key of the right size, the key agreement reports no error
  and an empty secret, so that the wrapping key follows from public values alone.
\<close>

theorem agreement_fails_silently:
  assumes "length a = 32" and "length B = 32" and "os_new_raw_public_key os B = None"
  shows "x25519_dh os a B None = ([], None)"
  using assms by (simp add: x25519_dh_def x25519_private_key_def x25519_public_key_def split: option.splits)

end
