(* ===== verification/WebttyTime.thy ===== *)
theory WebttyTime
  imports Prelude "HOL-Library.Signed_Division"
begin

text \<open>
  Model of the date functions of \<open>bin/webtty/lib/rstream/webtty/server.cpp\<close> and \<open>client.cpp\<close>, which are the same
  in both files: the validity of a proof is a pair of dates in the format of RFC 3339. Times are counted in
  nanoseconds in a signed integer of 64 bits. The client prints dates with \<open>gmtime_r\<close> and \<open>strftime\<close>, which
  follow the calendar day by day.
\<close>

section \<open>Model\<close>

definition is_digit_char :: "char \<Rightarrow> bool" where
  "is_digit_char c \<longleftrightarrow> 48 \<le> (of_char c :: nat) \<and> (of_char c :: nat) \<le> 57"

definition parse_digit :: "string \<Rightarrow> nat \<Rightarrow> int option" where
  "parse_digit value offset =
     (if offset \<ge> length value \<or> \<not> is_digit_char (value ! offset) then None else Some (int (of_char (value ! offset)) - 48))"

fun parse_digits_from :: "int \<Rightarrow> string \<Rightarrow> nat \<Rightarrow> nat \<Rightarrow> int option" where
  "parse_digits_from dst value offset 0 = Some dst"
| "parse_digits_from dst value offset (Suc n) =
     (case parse_digit value offset of None \<Rightarrow> None | Some digit \<Rightarrow> parse_digits_from (dst * 10 + digit) value (Suc offset) n)"

definition parse_fixed_digits :: "string \<Rightarrow> nat \<Rightarrow> nat \<Rightarrow> int option" where
  "parse_fixed_digits value offset n = parse_digits_from 0 value offset n"

definition is_leap_year :: "int \<Rightarrow> bool" where
  "is_leap_year year \<longleftrightarrow> (year mod 4 = 0 \<and> year mod 100 \<noteq> 0) \<or> year mod 400 = 0"

definition days_in_month :: "int \<Rightarrow> int \<Rightarrow> int" where
  "days_in_month year month =
     (if month = 2 \<and> is_leap_year year then 29
      else [31, 28, 31, 30, 31, 30, 31, 31, 30, 31, 30, 31] ! nat (month - 1))"

text \<open>Division truncates towards zero.\<close>

definition days_from_civil :: "int \<Rightarrow> int \<Rightarrow> int \<Rightarrow> int" where
  "days_from_civil year0 month day =
     (let year = year0 - (if month \<le> 2 then 1 else 0);
          era = (if year \<ge> 0 then year else year - 399) sdiv 400;
          yoe = year - era * 400;
          doy = (153 * (month + (if month > 2 then -3 else 9)) + 2) sdiv 5 + day - 1;
          doe = yoe * 365 + yoe sdiv 4 - yoe sdiv 100 + doy
      in era * 146097 + doe - 719468)"

text \<open>A number of nanoseconds in 64 bits.\<close>

definition wrap64 :: "int \<Rightarrow> int" where
  "wrap64 x = sint (of_int x :: 64 word)"

definition parse_rfc3339_utc :: "string \<Rightarrow> int option" where
  "parse_rfc3339_utc value =
     (if length value \<noteq> 20 \<or> value ! 4 \<noteq> CHR ''-'' \<or> value ! 7 \<noteq> CHR ''-'' \<or> value ! 10 \<noteq> CHR ''T'' \<or> value ! 13 \<noteq> CHR '':''
         \<or> value ! 16 \<noteq> CHR '':'' \<or> value ! 19 \<noteq> CHR ''Z'' then None
      else
        case (parse_fixed_digits value 0 4, parse_fixed_digits value 5 2, parse_fixed_digits value 8 2,
              parse_fixed_digits value 11 2, parse_fixed_digits value 14 2, parse_fixed_digits value 17 2) of
          (Some year, Some month, Some day, Some hour, Some minute, Some second) \<Rightarrow>
            if month < 1 \<or> month > 12 \<or> day < 1 \<or> day > days_in_month year month \<or> hour < 0 \<or> hour > 23 \<or> minute < 0 \<or> minute > 59
               \<or> second < 0 \<or> second > 59 then None
            else Some (wrap64 ((days_from_civil year month day * 86400 + hour * 3600 + minute * 60 + second) * 10 ^ 9))
        | _ \<Rightarrow> None)"

section \<open>The calendar\<close>

fun next_day :: "int \<times> int \<times> int \<Rightarrow> int \<times> int \<times> int" where
  "next_day (y, m, d) =
     (if d < days_in_month y m then (y, m, d + 1) else if m < 12 then (y, m + 1, 1) else (y + 1, 1, 1))"

fun prev_day :: "int \<times> int \<times> int \<Rightarrow> int \<times> int \<times> int" where
  "prev_day (y, m, d) =
     (if d > 1 then (y, m, d - 1) else if m > 1 then (y, m - 1, days_in_month y (m - 1)) else (y - 1, 12, 31))"

definition gmtime_date :: "int \<Rightarrow> int \<times> int \<times> int" where
  "gmtime_date n = (if n \<ge> 0 then (next_day ^^ nat n) (1970, 1, 1) else (prev_day ^^ nat (- n)) (1970, 1, 1))"

text \<open>Two and four digits as \<open>strftime\<close> prints them.\<close>

definition digit_char :: "int \<Rightarrow> char" where
  "digit_char d = char_of (nat d + 48)"

definition print2 :: "int \<Rightarrow> string" where
  "print2 n = [digit_char (n div 10 mod 10), digit_char (n mod 10)]"

definition print4 :: "int \<Rightarrow> string" where
  "print4 n = [digit_char (n div 1000 mod 10), digit_char (n div 100 mod 10), digit_char (n div 10 mod 10), digit_char (n mod 10)]"

text \<open>A time in seconds since the epoch; the year has four digits in the range of \<open>system_clock\<close>.\<close>

definition utc_rfc3339 :: "int \<Rightarrow> string" where
  "utc_rfc3339 t =
     (case gmtime_date (t div 86400) of
        (y, m, d) \<Rightarrow>
          let s = t mod 86400
          in print4 y @ ''-'' @ print2 m @ ''-'' @ print2 d @ ''T'' @ print2 (s div 3600) @ '':'' @ print2 (s div 60 mod 60) @ '':''
             @ print2 (s mod 60) @ ''Z'')"

text \<open>\<open>to_time_t\<close> truncates the nanoseconds.\<close>

definition add_seconds_rfc3339 :: "string \<Rightarrow> int \<Rightarrow> string" where
  "add_seconds_rfc3339 value seconds =
     (case parse_rfc3339_utc value of
        None \<Rightarrow> []
      | Some parsed \<Rightarrow> utc_rfc3339 (wrap64 (parsed + seconds * 10 ^ 9) sdiv 10 ^ 9))"

section \<open>Days are counted as the calendar goes\<close>

lemma sdiv_div: "0 \<le> a \<Longrightarrow> 0 < b \<Longrightarrow> a sdiv b = a div b" for a b :: int
  by (simp add: signed_divide_int_def sgn_if)

lemma sdiv_exact: "0 < k \<Longrightarrow> x * k sdiv k = x" for x k :: int
  by (simp add: signed_divide_int_def abs_mult sgn_mult sgn_if zero_less_mult_iff)

lemma era_div: "(if y \<ge> 0 then y else y - 399) sdiv 400 = y div 400" for y :: int
proof (cases "y \<ge> 0")
  case False
  have "- ((399 - y) div 400) = y div 400" by linarith
  with False show ?thesis by (simp add: signed_divide_int_def sgn_if)
qed (simp add: sdiv_div)

lemma div_400:
  "y div 4 = 100 * (y div 400) + y mod 400 div 4" "y div 100 = 4 * (y div 400) + y mod 400 div 100" for y :: int
proof -
  have y: "y = y mod 400 + y div 400 * 400" by simp
  have "(y mod 400 + (100 * (y div 400)) * 4) div 4 = 100 * (y div 400) + y mod 400 div 4"
    "(y mod 400 + (4 * (y div 400)) * 100) div 100 = 4 * (y div 400) + y mod 400 div 100"
    by (subst div_mult_self1, simp, simp)+
  then show "y div 4 = 100 * (y div 400) + y mod 400 div 4" "y div 100 = 4 * (y div 400) + y mod 400 div 100"
    using y by (simp_all add: algebra_simps)
qed

definition leap_days :: "int \<Rightarrow> int" where
  "leap_days y = y div 4 - y div 100 + y div 400"

lemma days_div:
  assumes "1 \<le> month" "month \<le> 12"
  shows "days_from_civil year month day =
    (let y = (if month \<le> 2 then year - 1 else year); mp = (if month > 2 then month - 3 else month + 9)
     in 365 * y + leap_days y + (153 * mp + 2) div 5 + day - 1 - 719468)"
proof -
  define y where "y = year - (if month \<le> 2 then 1 else 0)"
  have yoe: "y - y div 400 * 400 = y mod 400" by (simp add: minus_div_mult_eq_mod)
  have sum: "y div 400 * 146097 + (y mod 400 * 365 + y mod 400 div 4 - y mod 400 div 100) = 365 * y + leap_days y"
    using mult_div_mod_eq[of 400 y] unfolding leap_days_def div_400[of y] by linarith
  have m: "(153 * (month + (if month > 2 then -3 else 9)) + 2) sdiv 5 = (153 * (if month > 2 then month - 3 else month + 9) + 2) div 5"
    using assms by (auto simp: sdiv_div)
  have "days_from_civil year month day =
      y div 400 * 146097 + (y mod 400 * 365 + y mod 400 div 4 - y mod 400 div 100)
      + ((153 * (if month > 2 then month - 3 else month + 9) + 2) div 5 + day - 1) - 719468"
    unfolding days_from_civil_def Let_def y_def[symmetric] era_div m by (simp add: yoe sdiv_div)
  then show ?thesis
    unfolding sum by (simp add: Let_def y_def)
qed

definition valid_date :: "int \<times> int \<times> int \<Rightarrow> bool" where
  "valid_date x \<longleftrightarrow> (case x of (y, m, d) \<Rightarrow> 1 \<le> m \<and> m \<le> 12 \<and> 1 \<le> d \<and> d \<le> days_in_month y m)"

lemma div_pred: "x div k = (x - 1) div k + (if x mod k = 0 then 1 else 0)" if "0 < k" for x k :: int
proof -
  have x: "x = k * (x div k) + x mod k" by simp
  have "0 \<le> x mod k" "x mod k < k" using that by simp_all
  show ?thesis
  proof (cases "x mod k = 0")
    case True
    with x have "x - 1 = k * (x div k - 1) + (k - 1)" by (simp add: algebra_simps)
    with True that show ?thesis using int_div_pos_eq[of "x - 1" k "x div k - 1" "k - 1"] by simp
  next
    case False
    from x have "x - 1 = k * (x div k) + (x mod k - 1)" by simp
    with False \<open>0 \<le> x mod k\<close> \<open>x mod k < k\<close> show ?thesis
      using int_div_pos_eq[of "x - 1" k "x div k" "x mod k - 1"] by simp
  qed
qed

lemma leap_days_pred: "leap_days y = leap_days (y - 1) + (if is_leap_year y then 1 else 0)"
proof -
  have "y mod 100 = 0 \<Longrightarrow> y mod 4 = 0" "y mod 400 = 0 \<Longrightarrow> y mod 100 = 0"
    using mod_mod_cancel[of 4 100 y] mod_mod_cancel[of 100 400 y] by auto
  moreover have "leap_days y = leap_days (y - 1) + (if y mod 4 = 0 then 1 else 0) - (if y mod 100 = 0 then 1 else 0)
      + (if y mod 400 = 0 then 1 else 0)"
    unfolding leap_days_def div_pred[of 4 y, simplified] div_pred[of 100 y, simplified] div_pred[of 400 y, simplified]
    by (simp only: algebra_simps)
  ultimately show ?thesis unfolding is_leap_year_def by presburger
qed

lemma month_cases:
  assumes "1 \<le> m" "m \<le> (12 :: int)"
  obtains "m = 1" | "m = 2" | "m = 3" | "m = 4" | "m = 5" | "m = 6" | "m = 7" | "m = 8" | "m = 9" | "m = 10" | "m = 11" | "m = 12"
proof -
  have "m \<in> set [1..12]" using assms by simp
  also have "[1..12] = [1, 2, 3, 4, 5, 6, 7, 8, 9, 10, 11, (12 :: int)]" by (simp add: upto.simps)
  finally show ?thesis using that by auto
qed

lemma days_next:
  assumes "valid_date (y, m, d)"
  shows "valid_date (next_day (y, m, d))"
    and "(case next_day (y, m, d) of (y', m', d') \<Rightarrow> days_from_civil y' m' d') = days_from_civil y m d + 1"
proof -
  from assms have m: "1 \<le> m" "m \<le> 12" and d: "1 \<le> d" "d \<le> days_in_month y m" by (auto simp: valid_date_def)
  from m show "valid_date (next_day (y, m, d))"
    using d by (cases rule: month_cases) (auto simp: valid_date_def days_in_month_def)
  from m show "(case next_day (y, m, d) of (y', m', d') \<Rightarrow> days_from_civil y' m' d') = days_from_civil y m d + 1"
    using d leap_days_pred[of y] by (cases rule: month_cases) (simp_all add: days_div days_in_month_def split: if_splits)
qed

lemma next_prev:
  assumes "valid_date x"
  shows "valid_date (prev_day x)" "next_day (prev_day x) = x"
proof -
  obtain y m d where x: "x = (y, m, d)" by (cases x)
  from assms have m: "1 \<le> m" "m \<le> 12" and d: "1 \<le> d" "d \<le> days_in_month y m" by (auto simp: valid_date_def x)
  from m show "valid_date (prev_day x)" "next_day (prev_day x) = x"
    using d by (cases rule: month_cases; auto simp: x valid_date_def days_in_month_def)+
qed

lemma days_prev:
  assumes "valid_date x"
  shows "(case prev_day x of (y, m, d) \<Rightarrow> days_from_civil y m d) = (case x of (y, m, d) \<Rightarrow> days_from_civil y m d) - 1"
proof -
  obtain y m d where p: "prev_day x = (y, m, d)" by (cases "prev_day x")
  have "valid_date (y, m, d)" "next_day (y, m, d) = x" using next_prev[OF assms] p by simp_all
  then show ?thesis using days_next(2)[of y m d] p by simp
qed

lemma iterated_days:
  assumes "valid_date x"
  shows "valid_date ((next_day ^^ n) x) \<and> (case (next_day ^^ n) x of (y, m, d) \<Rightarrow> days_from_civil y m d)
      = (case x of (y, m, d) \<Rightarrow> days_from_civil y m d) + int n"
    and "valid_date ((prev_day ^^ n) x) \<and> (case (prev_day ^^ n) x of (y, m, d) \<Rightarrow> days_from_civil y m d)
      = (case x of (y, m, d) \<Rightarrow> days_from_civil y m d) - int n"
proof (induction n)
  case (Suc n)
  obtain y m d where x: "(next_day ^^ n) x = (y, m, d)" by (cases "(next_day ^^ n) x")
  show "valid_date ((next_day ^^ Suc n) x) \<and> (case (next_day ^^ Suc n) x of (y, m, d) \<Rightarrow> days_from_civil y m d)
      = (case x of (y, m, d) \<Rightarrow> days_from_civil y m d) + int (Suc n)"
    using Suc.IH(1) days_next[of y m d] by (simp add: x del: next_day.simps)
  show "valid_date ((prev_day ^^ Suc n) x) \<and> (case (prev_day ^^ Suc n) x of (y, m, d) \<Rightarrow> days_from_civil y m d)
      = (case x of (y, m, d) \<Rightarrow> days_from_civil y m d) - int (Suc n)"
    using Suc.IH(2) days_prev next_prev(1) by (simp del: prev_day.simps)
qed (use assms in simp_all)

lemma gmtime_days:
  assumes "gmtime_date n = (y, m, d)"
  shows "valid_date (y, m, d)" "days_from_civil y m d = n"
proof -
  have epoch: "valid_date (1970, 1, 1)" "days_from_civil 1970 1 1 = 0"
    by (simp_all add: valid_date_def days_in_month_def days_div leap_days_def)
  have "valid_date (y, m, d) \<and> days_from_civil y m d = n"
    using iterated_days[OF epoch(1), of "nat n"] iterated_days[OF epoch(1), of "nat (- n)"] assms
    by (auto simp: gmtime_date_def epoch(2) split: if_splits)
  then show "valid_date (y, m, d)" "days_from_civil y m d = n" by simp_all
qed

lemma leap_days_range: "400 * leap_days z \<le> 97 * z + 800" "97 * z - 800 \<le> 400 * leap_days z"
proof -
  have r: "z = 4 * (z div 4) + z mod 4" "z = 100 * (z div 100) + z mod 100" "z = 400 * (z div 400) + z mod 400" by simp_all
  have "0 \<le> z mod 4" "z mod 4 < 4" "0 \<le> z mod 100" "z mod 100 < 100" "0 \<le> z mod 400" "z mod 400 < 400" by simp_all
  moreover define a b c where "a = z div 4" and "b = z div 100" and "c = z div 400"
  ultimately show "400 * leap_days z \<le> 97 * z + 800" "97 * z - 800 \<le> 400 * leap_days z"
    using r unfolding leap_days_def a_def[symmetric] b_def[symmetric] c_def[symmetric] by (smt (verit))+
qed

lemma days_in_month_range: "1 \<le> m \<Longrightarrow> m \<le> 12 \<Longrightarrow> days_in_month y m \<le> 31"
  by (cases rule: month_cases[of m]) (simp_all add: days_in_month_def)

text \<open>In the range of a clock of nanoseconds in 64 bits the year has four digits.\<close>

lemma year_range:
  assumes "valid_date (y, m, d)" "- 106753 \<le> days_from_civil y m d" "days_from_civil y m d \<le> 106752"
  shows "1000 \<le> y" "y \<le> 9999"
proof -
  from assms(1) have m: "1 \<le> m" "m \<le> 12" and d: "1 \<le> d" "d \<le> 31"
    using days_in_month_range[of m y] by (auto simp: valid_date_def)
  define z where "z = (if m \<le> 2 then y - 1 else y)"
  have l: "400 * leap_days z \<le> 97 * z + 800" "97 * z - 800 \<le> 400 * leap_days z"
    using leap_days_range by simp_all
  from m have k: "0 \<le> (153 * (if m > 2 then m - 3 else m + 9) + 2) div 5"
    "(153 * (if m > 2 then m - 3 else m + 9) + 2) div 5 \<le> 337"
    by (cases rule: month_cases; simp)+
  have z: "days_from_civil y m d = 365 * z + leap_days z + (153 * (if m > 2 then m - 3 else m + 9) + 2) div 5 + d - 1 - 719468"
    using days_div[OF m] by (simp add: Let_def z_def)
  from assms(2,3) l k d have "1000 \<le> z" "z < 9999" unfolding z by linarith+
  then show "1000 \<le> y" "y \<le> 9999" by (auto simp: z_def split: if_splits)
qed

section \<open>Printing and parsing\<close>

lemma digit_char_parse:
  assumes "0 \<le> d" "d \<le> 9"
  shows "is_digit_char (digit_char d)" "int (of_char (digit_char d)) = d + 48"
  using assms by (auto simp: is_digit_char_def digit_char_def of_char_of)

lemma parse_print2:
  assumes "value ! i = digit_char (n div 10 mod 10)" "value ! Suc i = digit_char (n mod 10)" "Suc i < length value" "0 \<le> n" "n \<le> 99"
  shows "parse_fixed_digits value i 2 = Some n"
proof -
  have "n div 10 mod 10 = n div 10" using assms(4,5) by (simp add: pos_imp_zdiv_nonneg_iff)
  then have "n div 10 mod 10 * 10 + n mod 10 = n" by simp
  then show ?thesis
    using assms digit_char_parse[of "n div 10 mod 10"] digit_char_parse[of "n mod 10"]
    by (simp add: parse_fixed_digits_def parse_digit_def numeral_2_eq_2)
qed

lemma parse_four:
  assumes "value ! i = digit_char a" "value ! Suc i = digit_char b" "value ! Suc (Suc i) = digit_char c"
    "value ! Suc (Suc (Suc i)) = digit_char e" "Suc (Suc (Suc i)) < length value"
    "0 \<le> a" "a \<le> 9" "0 \<le> b" "b \<le> 9" "0 \<le> c" "c \<le> 9" "0 \<le> e" "e \<le> 9"
  shows "parse_fixed_digits value i 4 = Some (((a * 10 + b) * 10 + c) * 10 + e)"
  using assms digit_char_parse[of a] digit_char_parse[of b] digit_char_parse[of c] digit_char_parse[of e]
  by (simp add: parse_fixed_digits_def parse_digit_def eval_nat_numeral)

lemma parse_print4:
  assumes "value ! i = digit_char (n div 1000 mod 10)" "value ! Suc i = digit_char (n div 100 mod 10)"
    "value ! Suc (Suc i) = digit_char (n div 10 mod 10)" "value ! Suc (Suc (Suc i)) = digit_char (n mod 10)"
    "Suc (Suc (Suc i)) < length value" "0 \<le> n" "n \<le> 9999"
  shows "parse_fixed_digits value i 4 = Some n"
proof -
  have top: "n div 1000 mod 10 = n div 1000" using assms(6,7) by (simp add: pos_imp_zdiv_nonneg_iff)
  have digits: "n div 1000 * 10 + n div 100 mod 10 = n div 100" "n div 100 * 10 + n div 10 mod 10 = n div 10"
    using zdiv_zmult2_eq[of 10 n 100] zdiv_zmult2_eq[of 10 n 10] by simp_all
  have "((n div 1000 mod 10 * 10 + n div 100 mod 10) * 10 + n div 10 mod 10) * 10 + n mod 10 = n"
    unfolding top digits by simp
  moreover have "parse_fixed_digits value i 4 =
      Some (((n div 1000 mod 10 * 10 + n div 100 mod 10) * 10 + n div 10 mod 10) * 10 + n mod 10)"
    using assms(1-5) by (intro parse_four) simp_all
  ultimately show ?thesis by (simp only:)
qed

lemma wrap64_same: "- (2 ^ 63) \<le> x \<Longrightarrow> x < 2 ^ 63 \<Longrightarrow> wrap64 x = x"
  by (simp add: wrap64_def sint_sbintrunc' signed_take_bit_int_eq_self)

lemma parse_printed:
  assumes "v = print4 y @ ''-'' @ print2 m @ ''-'' @ print2 d @ ''T'' @ print2 h @ '':'' @ print2 i @ '':'' @ print2 s @ ''Z''"
  shows "0 \<le> y \<Longrightarrow> y \<le> 9999 \<Longrightarrow> parse_fixed_digits v 0 4 = Some y"
    "0 \<le> m \<Longrightarrow> m \<le> 99 \<Longrightarrow> parse_fixed_digits v 5 2 = Some m"
    "0 \<le> d \<Longrightarrow> d \<le> 99 \<Longrightarrow> parse_fixed_digits v 8 2 = Some d"
    "0 \<le> h \<Longrightarrow> h \<le> 99 \<Longrightarrow> parse_fixed_digits v 11 2 = Some h"
    "0 \<le> i \<Longrightarrow> i \<le> 99 \<Longrightarrow> parse_fixed_digits v 14 2 = Some i"
    "0 \<le> s \<Longrightarrow> s \<le> 99 \<Longrightarrow> parse_fixed_digits v 17 2 = Some s"
    "length v = 20" "v ! 4 = CHR ''-''" "v ! 7 = CHR ''-''" "v ! 10 = CHR ''T''" "v ! 13 = CHR '':''" "v ! 16 = CHR '':''"
    "v ! 19 = CHR ''Z''"
  unfolding assms
  by (rule parse_print4 parse_print2; simp add: print4_def print2_def)+ (simp_all add: print4_def print2_def)

lemma clock_split:
  "0 \<le> t mod 86400 div 3600" "t mod 86400 div 3600 \<le> 23" "0 \<le> t mod 86400 div 60 mod 60" "t mod 86400 div 60 mod 60 \<le> 59"
  "0 \<le> t mod 86400 mod 60" "t mod 86400 mod 60 \<le> 59"
  "t div 86400 * 86400 + t mod 86400 div 3600 * 3600 + t mod 86400 div 60 mod 60 * 60 + t mod 86400 mod 60 = t" for t :: int
proof -
  define s where "s = t mod 86400"
  have s: "0 \<le> s" "s < 86400" by (simp_all add: s_def)
  have "0 \<le> s div 3600" "s div 3600 \<le> 23" "0 \<le> s div 60 mod 60" "s div 60 mod 60 \<le> 59" "0 \<le> s mod 60" "s mod 60 \<le> 59"
    using s by linarith+
  then show "0 \<le> t mod 86400 div 3600" "t mod 86400 div 3600 \<le> 23" "0 \<le> t mod 86400 div 60 mod 60" "t mod 86400 div 60 mod 60 \<le> 59"
    "0 \<le> t mod 86400 mod 60" "t mod 86400 mod 60 \<le> 59"
    by (simp_all only: s_def)
  have "s div 3600 * 60 + s div 60 mod 60 = s div 60" using zdiv_zmult2_eq[of 60 s 60] by simp
  then have "s div 3600 * 3600 + s div 60 mod 60 * 60 = s div 60 * 60" by simp
  then have "s div 3600 * 3600 + s div 60 mod 60 * 60 + s mod 60 = s" unfolding div_mult_mod_eq by (simp only: div_mult_mod_eq)
  then show "t div 86400 * 86400 + t mod 86400 div 3600 * 3600 + t mod 86400 div 60 mod 60 * 60 + t mod 86400 mod 60 = t"
    using div_mult_mod_eq[of t 86400] unfolding s_def[symmetric] by (simp only: add.assoc)
qed

lemma parse_utc_rfc3339:
  assumes "- (2 ^ 63) \<le> t * 10 ^ 9" "t * 10 ^ 9 < 2 ^ 63"
  shows "parse_rfc3339_utc (utc_rfc3339 t) = Some (t * 10 ^ 9)"
proof -
  obtain y m d where g: "gmtime_date (t div 86400) = (y, m, d)" by (cases "gmtime_date (t div 86400)")
  note days = gmtime_days[OF g]
  have t: "- 106753 \<le> t div 86400" "t div 86400 \<le> 106752" using assms by simp_all
  have y: "1000 \<le> y" "y \<le> 9999" using year_range[OF days(1)] days(2) t by simp_all
  have m: "1 \<le> m" "m \<le> 12" and d: "1 \<le> d" "d \<le> days_in_month y m" "d \<le> 31"
    using days(1) days_in_month_range[of m y] by (auto simp: valid_date_def)
  define h i s where "h = t mod 86400 div 3600" and "i = t mod 86400 div 60 mod 60" and "s = t mod 86400 mod 60"
  note split = clock_split[of t, folded h_def i_def s_def]
  define v where "v = utc_rfc3339 t"
  have v: "v = print4 y @ ''-'' @ print2 m @ ''-'' @ print2 d @ ''T'' @ print2 h @ '':'' @ print2 i @ '':'' @ print2 s @ ''Z''"
    by (simp add: v_def utc_rfc3339_def g Let_def h_def i_def s_def)
  note p = parse_printed[OF v]
  have "parse_rfc3339_utc v = Some (wrap64 ((days_from_civil y m d * 86400 + h * 3600 + i * 60 + s) * 10 ^ 9))"
    using y m d split(1-6) unfolding parse_rfc3339_utc_def by (simp add: p)
  also have "(days_from_civil y m d * 86400 + h * 3600 + i * 60 + s) * 10 ^ 9 = t * 10 ^ 9"
    unfolding days(2) split(7) ..
  finally show ?thesis unfolding v_def wrap64_same[OF assms] .
qed

lemma add_seconds_utc:
  assumes "- (2 ^ 63) \<le> t * 10 ^ 9" "t * 10 ^ 9 < 2 ^ 63" "- (2 ^ 63) \<le> (t + seconds) * 10 ^ 9" "(t + seconds) * 10 ^ 9 < 2 ^ 63"
  shows "add_seconds_rfc3339 (utc_rfc3339 t) seconds = utc_rfc3339 (t + seconds)"
proof -
  have "t * 10 ^ 9 + seconds * 10 ^ 9 = (t + seconds) * 10 ^ 9" by (simp add: algebra_simps)
  moreover have "((t + seconds) * 10 ^ 9) sdiv 10 ^ 9 = t + seconds" by (rule sdiv_exact) simp
  ultimately show ?thesis
    unfolding add_seconds_rfc3339_def parse_utc_rfc3339[OF assms(1,2)] using wrap64_same[OF assms(3,4)] by simp
qed

text \<open>
  C21: a date that the program prints is read back by the parser as the same time, and \<open>add_seconds_rfc3339\<close> moves the printed
  date by the seconds, for every time that a clock of nanoseconds in 64 bits holds. The count of days of \<open>days_from_civil\<close> agrees
  with the calendar followed day by day, with its leap years, before and after the epoch.
\<close>

theorem rfc3339_roundtrip:
  assumes "- (2 ^ 63) \<le> t * 10 ^ 9" "t * 10 ^ 9 < 2 ^ 63" "- (2 ^ 63) \<le> (t + seconds) * 10 ^ 9" "(t + seconds) * 10 ^ 9 < 2 ^ 63"
  shows "parse_rfc3339_utc (utc_rfc3339 t) = Some (t * 10 ^ 9)
    \<and> add_seconds_rfc3339 (utc_rfc3339 t) seconds = utc_rfc3339 (t + seconds)
    \<and> (case gmtime_date n of (y, m, d) \<Rightarrow> days_from_civil y m d) = n"
  using parse_utc_rfc3339[OF assms(1,2)] add_seconds_utc[OF assms] gmtime_days(2) by (simp split: prod.split)

theorem rfc3339_roundtrip_witness:
  "parse_rfc3339_utc (utc_rfc3339 1709251199) = Some (1709251199 * 10 ^ 9)
    \<and> add_seconds_rfc3339 (utc_rfc3339 1709251199) 300 = utc_rfc3339 1709251499
    \<and> (case gmtime_date (- 1) of (y, m, d) \<Rightarrow> days_from_civil y m d) = - 1"
  using rfc3339_roundtrip[of 1709251199 300 "- 1"] by simp

text \<open>A year after 2262 is accepted by the parser and read as a time in the past: nanoseconds overflow 64 bits.\<close>

lemma far_future_in_the_past:
  "\<exists>t. parse_rfc3339_utc ''2300-01-01T00:00:00Z'' = Some t \<and> t < 0"
  by (simp add: parse_rfc3339_utc_def parse_fixed_digits_def parse_digit_def is_digit_char_def days_in_month_def days_from_civil_def
      signed_divide_int_def wrap64_def eval_nat_numeral)

end
