(* ===== verification/WebttyProof.thy ===== *)
theory WebttyProof
  imports WebttyPayload WebttyTime ConfigFile
begin

text \<open>
  Model of \<open>bin/webtty/lib/rstream/webtty/auth_proof.cpp\<close>: the transcripts that a WebTTY server and its client sign
  for each other. A transcript is written into one canonical byte string, which is hashed with SHA-256 and signed with
  ECDSA over P-256. As in \<open>WebttyCrypto\<close> the error is threaded through. The record \<open>ecdsa\<close> stands for what the code calls
  of OpenSSL for these keys; SHA-256 is that of the record \<open>openssl\<close>.
\<close>

section \<open>Types\<close>

datatype protocol_version = Webtty_1 | Pv_other int

datatype signature_suite = Ecdsa_p256_sha256 | Ss_other int

datatype auth_requirement = Auth_none | Auth_client_proof | Ar_other int

record client_proof_transcript =
  ct_protocol_version :: protocol_version
  ct_transport :: string
  ct_workspace_id :: string
  ct_project_id :: string
  ct_server_id :: string
  ct_session_id :: string
  ct_server_signing_key_id :: bytes
  ct_server_encryption_key_id :: bytes
  ct_server_nonce :: bytes
  ct_auth_requirement :: auth_requirement
  ct_payload_suite :: payload_cipher_suite
  ct_key_envelope_suite :: key_envelope_suite
  ct_session_key_grant_hash :: bytes
  ct_command_config_hash :: bytes
  ct_attach_grant_hash :: bytes
  ct_requested_role :: string
  ct_client_principal_id :: string
  ct_client_signing_key_id :: bytes
  ct_client_credential_hash :: bytes
  ct_issued_at :: string
  ct_expires_at :: string

record server_proof_transcript =
  st_protocol_version :: protocol_version
  st_transport :: string
  st_workspace_id :: string
  st_project_id :: string
  st_server_id :: string
  st_session_id :: string
  st_server_signing_key_id :: bytes
  st_server_encryption_key_id :: bytes
  st_server_nonce :: bytes
  st_auth_requirement :: auth_requirement
  st_payload_suites :: "payload_cipher_suite list"
  st_key_envelope_suites :: "key_envelope_suite list"
  st_signature_suites :: "signature_suite list"

record signing_identity =
  si_key_id :: bytes
  si_public_key :: bytes
  si_private_key :: bytes

record endpoint_identity =
  en_encryption :: e2e_identity
  en_signing :: signing_identity

record endpoint_identity_public =
  eip_encryption_key_id :: bytes
  eip_encryption_public_key :: bytes
  eip_signing_key_id :: bytes
  eip_signing_public_key :: bytes

text \<open>
  OpenSSL for P-256. A decoder returns the key and how many bytes it read. \<open>ev_sha256\<close> is the digest through a context,
  which may fail; \<open>ev_p1363\<close> is the encoding as DER of a signature of two numbers of 32 bytes.
\<close>

record 'p ecdsa =
  ev_sha256 :: "bytes \<Rightarrow> bytes option"
  ev_d2i_private :: "bytes \<Rightarrow> ('p \<times> nat) option"
  ev_d2i_public :: "bytes \<Rightarrow> ('p \<times> nat) option"
  ev_is_ec :: "'p \<Rightarrow> bool"
  ev_i2d_public :: "'p \<Rightarrow> bytes option"
  ev_i2d_private :: "'p \<Rightarrow> bytes option"
  ev_sign :: "'p \<Rightarrow> bytes \<Rightarrow> bytes option"
  ev_verify :: "'p \<Rightarrow> bytes \<Rightarrow> bytes \<Rightarrow> bool"
  ev_p1363 :: "bytes \<Rightarrow> bytes \<Rightarrow> bytes option"

section \<open>Canonical transcripts\<close>

text \<open>Both ends are moved past the spaces.\<close>

definition trim_copy :: "string \<Rightarrow> string" where
  "trim_copy value = rev (dropWhile is_space (rev (dropWhile is_space value)))"

definition append_length_prefixed_string :: "bytes \<Rightarrow> string \<Rightarrow> bytes" where
  "append_length_prefixed_string dst value = dst @ length_prefixed (bytes_from_string (trim_copy value))"

fun signature_suite_code :: "signature_suite \<Rightarrow> werr \<Rightarrow> 32 word \<times> werr" where
  "signature_suite_code Ecdsa_p256_sha256 e = (1, e)"
| "signature_suite_code _ e = (0, Some Crypto_error)"

fun protocol_version_code :: "protocol_version \<Rightarrow> werr \<Rightarrow> 32 word \<times> werr" where
  "protocol_version_code Webtty_1 e = (1, e)"
| "protocol_version_code _ e = (0, Some Webtty_protocol_error)"

fun auth_requirement_code :: "auth_requirement \<Rightarrow> werr \<Rightarrow> 32 word \<times> werr" where
  "auth_requirement_code Auth_none e = (1, e)"
| "auth_requirement_code Auth_client_proof e = (2, e)"
| "auth_requirement_code _ e = (0, Some Webtty_protocol_error)"

fun append_codes :: "('a \<Rightarrow> werr \<Rightarrow> 32 word \<times> werr) \<Rightarrow> bytes \<Rightarrow> 'a list \<Rightarrow> werr \<Rightarrow> bytes \<times> werr" where
  "append_codes code dst [] e = (dst, e)"
| "append_codes code dst (v # vs) e = (let (c, e1) = code v e in append_codes code (dst @ be32 c) vs e1)"

definition append_payload_suites :: "bytes \<Rightarrow> payload_cipher_suite list \<Rightarrow> werr \<Rightarrow> bytes \<times> werr" where
  "append_payload_suites dst values e = append_codes payload_suite_code (dst @ be32 (of_nat (length values))) values e"

definition append_key_envelope_suites :: "bytes \<Rightarrow> key_envelope_suite list \<Rightarrow> werr \<Rightarrow> bytes \<times> werr" where
  "append_key_envelope_suites dst values e = append_codes key_envelope_suite_code (dst @ be32 (of_nat (length values))) values e"

definition append_signature_suites :: "bytes \<Rightarrow> signature_suite list \<Rightarrow> werr \<Rightarrow> bytes \<times> werr" where
  "append_signature_suites dst values e = append_codes signature_suite_code (dst @ be32 (of_nat (length values))) values e"

definition client_canonical :: "client_proof_transcript \<Rightarrow> werr \<Rightarrow> bytes \<times> werr" where
  "client_canonical t e =
     (let c0 = length_prefixed (bytes_from_string ''rstream-webtty-client-auth-v1'');
          (pv, e1) = protocol_version_code (ct_protocol_version t) e;
          c1 = foldl append_length_prefixed_string (c0 @ be32 pv)
                 [ct_transport t, ct_workspace_id t, ct_project_id t, ct_server_id t, ct_session_id t];
          c2 = c1 @ length_prefixed (ct_server_signing_key_id t) @ length_prefixed (ct_server_encryption_key_id t)
                 @ length_prefixed (ct_server_nonce t);
          (ar, e2) = auth_requirement_code (ct_auth_requirement t) e1;
          (ps, e3) = payload_suite_code (ct_payload_suite t) e2;
          (ks, e4) = key_envelope_suite_code (ct_key_envelope_suite t) e3;
          c3 = c2 @ be32 ar @ be32 ps @ be32 ks @ length_prefixed (ct_session_key_grant_hash t)
                 @ length_prefixed (ct_command_config_hash t) @ length_prefixed (ct_attach_grant_hash t);
          c4 = foldl append_length_prefixed_string c3 [ct_requested_role t, ct_client_principal_id t];
          c5 = c4 @ length_prefixed (ct_client_signing_key_id t) @ length_prefixed (ct_client_credential_hash t)
      in (foldl append_length_prefixed_string c5 [ct_issued_at t, ct_expires_at t], e4))"

definition server_canonical :: "server_proof_transcript \<Rightarrow> werr \<Rightarrow> bytes \<times> werr" where
  "server_canonical t e =
     (let c0 = length_prefixed (bytes_from_string ''rstream-webtty-server-auth-v1'');
          (pv, e1) = protocol_version_code (st_protocol_version t) e;
          c1 = foldl append_length_prefixed_string (c0 @ be32 pv)
                 [st_transport t, st_workspace_id t, st_project_id t, st_server_id t, st_session_id t];
          c2 = c1 @ length_prefixed (st_server_signing_key_id t) @ length_prefixed (st_server_encryption_key_id t)
                 @ length_prefixed (st_server_nonce t);
          (ar, e2) = auth_requirement_code (st_auth_requirement t) e1;
          (c3, e3) = append_payload_suites (c2 @ be32 ar) (st_payload_suites t) e2;
          (c4, e4) = append_key_envelope_suites c3 (st_key_envelope_suites t) e3
      in append_signature_suites c4 (st_signature_suites t) e4)"

definition hash_webtty_client_proof_transcript :: "'k openssl \<Rightarrow> client_proof_transcript \<Rightarrow> werr \<Rightarrow> bytes \<times> werr" where
  "hash_webtty_client_proof_transcript os t e =
     (case client_canonical t e of (c, Some x) \<Rightarrow> ([], Some x) | (c, None) \<Rightarrow> (os_sha256 os c, None))"

definition hash_webtty_server_proof_transcript :: "'k openssl \<Rightarrow> server_proof_transcript \<Rightarrow> werr \<Rightarrow> bytes \<times> werr" where
  "hash_webtty_server_proof_transcript os t e =
     (case server_canonical t e of (c, Some x) \<Rightarrow> ([], Some x) | (c, None) \<Rightarrow> (os_sha256 os c, None))"

section \<open>Keys and signatures\<close>

definition sha256_domain :: "'p ecdsa \<Rightarrow> string \<Rightarrow> bytes \<Rightarrow> bytes" where
  "sha256_domain ev domain input =
     (case ev_sha256 ev (bytes_from_string domain @ input) of
        Some digest \<Rightarrow> if length digest = 32 then digest else []
      | None \<Rightarrow> [])"

definition marshal_key_der :: "('p \<Rightarrow> bytes option) \<Rightarrow> 'p option \<Rightarrow> werr \<Rightarrow> bytes \<times> werr" where
  "marshal_key_der i2d key e =
     (case key of
        None \<Rightarrow> ([], Some Crypto_error)
      | Some k \<Rightarrow> (case i2d k of Some out \<Rightarrow> if out = [] then ([], Some Crypto_error) else (out, e) | None \<Rightarrow> ([], Some Crypto_error)))"

definition marshal_public_key_der :: "'p ecdsa \<Rightarrow> 'p option \<Rightarrow> werr \<Rightarrow> bytes \<times> werr" where
  "marshal_public_key_der ev key e = marshal_key_der (ev_i2d_public ev) key e"

definition marshal_private_key_der :: "'p ecdsa \<Rightarrow> 'p option \<Rightarrow> werr \<Rightarrow> bytes \<times> werr" where
  "marshal_private_key_der ev key e = marshal_key_der (ev_i2d_private ev) key e"

definition parse_key_der :: "('p \<Rightarrow> bool) \<Rightarrow> (bytes \<Rightarrow> ('p \<times> nat) option) \<Rightarrow> bytes \<Rightarrow> werr \<Rightarrow> 'p option \<times> werr" where
  "parse_key_der is_ec d2i der e =
     (if der = [] then (None, Some Crypto_error)
      else case d2i der of
             None \<Rightarrow> (None, Some Crypto_error)
           | Some (k, n) \<Rightarrow>
               if n \<noteq> length der then (None, Some Crypto_error)
               else if \<not> is_ec k then (None, Some Crypto_error)
               else (Some k, e))"

definition parse_private_key_der :: "'p ecdsa \<Rightarrow> bytes \<Rightarrow> werr \<Rightarrow> 'p option \<times> werr" where
  "parse_private_key_der ev der e = parse_key_der (ev_is_ec ev) (ev_d2i_private ev) der e"

definition parse_public_key_der :: "'p ecdsa \<Rightarrow> bytes \<Rightarrow> werr \<Rightarrow> 'p option \<times> werr" where
  "parse_public_key_der ev der e = parse_key_der (ev_is_ec ev) (ev_d2i_public ev) der e"

text \<open>\<open>EVP_PKEY_sign\<close> must report a size that is not zero before it signs.\<close>

definition sign_digest :: "'p ecdsa \<Rightarrow> signing_identity \<Rightarrow> bytes \<Rightarrow> werr \<Rightarrow> bytes \<times> werr" where
  "sign_digest ev identity digest e =
     (if length digest \<noteq> 32 then ([], Some Crypto_error)
      else case parse_private_key_der ev (si_private_key identity) e of
             (Some k, None) \<Rightarrow>
               (case ev_sign ev k digest of
                  Some signature \<Rightarrow> if signature = [] then ([], Some Crypto_error) else (signature, None)
                | None \<Rightarrow> ([], Some Crypto_error))
           | (_, e1) \<Rightarrow> ([], e1))"

definition verify_digest_signature :: "'p ecdsa \<Rightarrow> bytes \<Rightarrow> bytes \<Rightarrow> bytes \<Rightarrow> werr \<Rightarrow> werr" where
  "verify_digest_signature ev public_key digest signature e =
     (if length digest \<noteq> 32 \<or> signature = [] then Some Crypto_error
      else case parse_public_key_der ev public_key e of
             (Some k, None) \<Rightarrow> if ev_verify ev k digest signature then None else Some Crypto_error
           | (_, e1) \<Rightarrow> e1)"

definition p256_p1363_signature_to_der :: "'p ecdsa \<Rightarrow> bytes \<Rightarrow> bytes" where
  "p256_p1363_signature_to_der ev signature =
     (if length signature \<noteq> 64 then []
      else case ev_p1363 ev (take 32 signature) (drop 32 signature) of
             None \<Rightarrow> []
           | Some der \<Rightarrow> if length der > 72 then [] else der)"

definition signing_key_id :: "'p ecdsa \<Rightarrow> bytes \<Rightarrow> bytes \<Rightarrow> bytes \<times> werr" where
  "signing_key_id ev dst public_key =
     (if public_key = [] then (dst, Some Crypto_error)
      else case parse_public_key_der ev public_key None of
             (_, Some x) \<Rightarrow> (dst, Some x)
           | (_, None) \<Rightarrow> (sha256_domain ev ''rstream-webtty-signing-key-id-v1'' public_key, None))"

text \<open>\<open>key\<close> and \<open>pkey\<close>: the generated keys.\<close>

definition generate_endpoint_identity ::
  "'k openssl \<Rightarrow> 'p ecdsa \<Rightarrow> 'k option \<Rightarrow> 'p option \<Rightarrow> endpoint_identity \<Rightarrow> endpoint_identity \<times> werr" where
  "generate_endpoint_identity os ev key pkey dst =
     (case generate_e2e_identity os key (en_encryption dst) of
        (enc, Some x) \<Rightarrow> (dst\<lparr>en_encryption := enc\<rparr>, Some x)
      | (enc, None) \<Rightarrow>
          let dst1 = dst\<lparr>en_encryption := enc\<rparr> in
          case pkey of
            None \<Rightarrow> (dst1, Some Crypto_error)
          | Some k \<Rightarrow>
              let (pub, e1) = marshal_public_key_der ev (Some k) None;
                  (priv, e2) = marshal_private_key_der ev (Some k) e1;
                  dst2 = dst1\<lparr>en_signing := (en_signing dst1)\<lparr>si_public_key := pub, si_private_key := priv\<rparr>\<rparr>
              in if e2 \<noteq> None then (dst2, e2)
                 else let (kid, e3) = signing_key_id ev (si_key_id (en_signing dst2)) pub
                      in (dst2\<lparr>en_signing := (en_signing dst2)\<lparr>si_key_id := kid\<rparr>\<rparr>, e3))"

definition signing_identity_from_private_key :: "'p ecdsa \<Rightarrow> bytes \<Rightarrow> signing_identity \<Rightarrow> signing_identity \<times> werr" where
  "signing_identity_from_private_key ev private_key dst =
     (case parse_private_key_der ev private_key None of
        (_, Some x) \<Rightarrow> (dst, Some x)
      | (k, None) \<Rightarrow>
          (case marshal_public_key_der ev k None of
             (pub, Some x) \<Rightarrow> (dst\<lparr>si_private_key := private_key, si_public_key := pub\<rparr>, Some x)
           | (pub, None) \<Rightarrow>
               let (kid, e) = signing_key_id ev (si_key_id dst) pub
               in (\<lparr>si_key_id = kid, si_public_key = pub, si_private_key = private_key\<rparr>, e)))"

definition public_endpoint_identity :: "endpoint_identity \<Rightarrow> endpoint_identity_public" where
  "public_endpoint_identity identity =
     \<lparr>eip_encryption_key_id = ei_key_id (en_encryption identity), eip_encryption_public_key = ei_public_key (en_encryption identity),
      eip_signing_key_id = si_key_id (en_signing identity), eip_signing_public_key = si_public_key (en_signing identity)\<rparr>"

definition sign_webtty_client_proof_transcript ::
  "'k openssl \<Rightarrow> 'p ecdsa \<Rightarrow> signing_identity \<Rightarrow> client_proof_transcript \<Rightarrow> werr \<Rightarrow> (bytes \<times> bytes) \<times> werr" where
  "sign_webtty_client_proof_transcript os ev identity t e =
     (case hash_webtty_client_proof_transcript os t e of
        (h, Some x) \<Rightarrow> ((h, []), Some x)
      | (h, None) \<Rightarrow> let (s, e1) = sign_digest ev identity h None in ((h, s), e1))"

definition sign_webtty_server_proof_transcript ::
  "'k openssl \<Rightarrow> 'p ecdsa \<Rightarrow> signing_identity \<Rightarrow> server_proof_transcript \<Rightarrow> werr \<Rightarrow> (bytes \<times> bytes) \<times> werr" where
  "sign_webtty_server_proof_transcript os ev identity t e =
     (case hash_webtty_server_proof_transcript os t e of
        (h, Some x) \<Rightarrow> ((h, []), Some x)
      | (h, None) \<Rightarrow> let (s, e1) = sign_digest ev identity h None in ((h, s), e1))"

definition verify_p256_sha256_signature :: "'k openssl \<Rightarrow> 'p ecdsa \<Rightarrow> bytes \<Rightarrow> bytes \<Rightarrow> bytes \<Rightarrow> werr" where
  "verify_p256_sha256_signature os ev public_key message signature =
     (let digest = os_sha256 os message;
          e1 = verify_digest_signature ev public_key digest signature None;
          der = p256_p1363_signature_to_der ev signature
      in if e1 \<noteq> None \<and> length signature = 64 \<and> der \<noteq> [] then verify_digest_signature ev public_key digest der None else e1)"

definition verify_webtty_client_proof_transcript ::
  "'k openssl \<Rightarrow> 'p ecdsa \<Rightarrow> bytes \<Rightarrow> client_proof_transcript \<Rightarrow> bytes \<Rightarrow> werr \<Rightarrow> werr" where
  "verify_webtty_client_proof_transcript os ev public_key t signature e =
     (case hash_webtty_client_proof_transcript os t e of
        (h, Some x) \<Rightarrow> Some x
      | (h, None) \<Rightarrow> verify_digest_signature ev public_key h signature None)"

definition verify_webtty_server_proof_transcript ::
  "'k openssl \<Rightarrow> 'p ecdsa \<Rightarrow> bytes \<Rightarrow> server_proof_transcript \<Rightarrow> bytes \<Rightarrow> werr \<Rightarrow> werr" where
  "verify_webtty_server_proof_transcript os ev public_key t signature e =
     (case hash_webtty_server_proof_transcript os t e of
        (h, Some x) \<Rightarrow> Some x
      | (h, None) \<Rightarrow> verify_digest_signature ev public_key h signature None)"

end
