(* ===== verification/WebttyConvert.thy ===== *)
theory WebttyConvert
  imports WebttyProof
begin

text \<open>
  The messages of a WebTTY session as the code reads and writes them (\<open>messages.proto\<close>), and their conversions:
  \<open>detail/convert.cpp\<close> for the command and the size of the terminal, \<open>to_proto\<close> and \<open>from_proto\<close> of \<open>server.cpp\<close> and
  \<open>client.cpp\<close> for keys and payloads. An enumeration is an integer in a message, a field that may be absent an option, and a
  field of type \<open>bytes\<close> a list of bytes (the code copies it between \<open>std::string\<close> and \<open>byte_vector\<close>).
\<close>

section \<open>The command\<close>

record options =
  op_interactive :: bool
  op_allocate_tty :: bool
  op_send_heartbeat :: bool

datatype user_identifier = Id "32 word" | Name string

datatype protocol_type = Websocket | Plain

record environment =
  env_key :: string
  env_value :: string

record protocol_config =
  cf_protocol_type :: protocol_type
  cf_options :: options
  cf_env_vars :: "environment list"
  cf_cmd_args :: "string list"
  cf_workdir :: "string option"
  cf_username :: "user_identifier option"

record terminal_size =
  ts_row :: "16 word"
  ts_col :: "16 word"
  ts_xpixel :: "16 word"
  ts_ypixel :: "16 word"

record options_msg =
  om_interactive :: bool
  om_allocate_tty :: bool
  om_send_heartbeat :: bool

datatype username_msg = Um_not_set | Um_name string | Um_id "32 word"

record environment_msg =
  em_key :: string
  em_value :: string

record config_msg =
  cm_options :: "options_msg option"
  cm_cmd_args :: "string list"
  cm_env_vars :: "environment_msg list"
  cm_workdir :: "string option"
  cm_username :: "username_msg option"

record terminal_size_msg =
  tm_row :: "32 word"
  tm_col :: "32 word"
  tm_xpixel :: "32 word"
  tm_ypixel :: "32 word"

text \<open>An absent message reads as its default.\<close>

definition options_default :: options_msg where
  "options_default = \<lparr>om_interactive = False, om_allocate_tty = False, om_send_heartbeat = False\<rparr>"

definition config_default :: config_msg where
  "config_default = \<lparr>cm_options = None, cm_cmd_args = [], cm_env_vars = [], cm_workdir = None, cm_username = None\<rparr>"

definition convert_options :: "options_msg \<Rightarrow> options" where
  "convert_options src =
     \<lparr>op_interactive = om_interactive src, op_allocate_tty = om_allocate_tty src, op_send_heartbeat = om_send_heartbeat src\<rparr>"

definition convert_options_msg :: "options \<Rightarrow> options_msg" where
  "convert_options_msg src =
     \<lparr>om_interactive = op_interactive src, om_allocate_tty = op_allocate_tty src, om_send_heartbeat = op_send_heartbeat src\<rparr>"

definition convert_environment :: "environment_msg \<Rightarrow> environment" where
  "convert_environment src = \<lparr>env_key = em_key src, env_value = em_value src\<rparr>"

definition convert_environment_msg :: "environment \<Rightarrow> environment_msg" where
  "convert_environment_msg src = \<lparr>em_key = env_key src, em_value = env_value src\<rparr>"

text \<open>\<open>dst\<close> is kept when the payload is not set.\<close>

fun convert_identifier :: "user_identifier \<Rightarrow> username_msg \<Rightarrow> user_identifier" where
  "convert_identifier dst Um_not_set = dst"
| "convert_identifier dst (Um_name s) = Name s"
| "convert_identifier dst (Um_id i) = Id i"

fun convert_identifier_msg :: "user_identifier \<Rightarrow> username_msg" where
  "convert_identifier_msg (Name s) = Um_name s"
| "convert_identifier_msg (Id i) = Um_id i"

text \<open>A default \<open>identifier\<close> is the number 0. The protocol of \<open>dst\<close> is kept.\<close>

definition convert_config :: "protocol_config \<Rightarrow> config_msg \<Rightarrow> protocol_config" where
  "convert_config dst src =
     dst\<lparr>cf_options := convert_options (case cm_options src of Some x \<Rightarrow> x | None \<Rightarrow> options_default),
         cf_cmd_args := cm_cmd_args src,
         cf_env_vars := map convert_environment (cm_env_vars src),
         cf_workdir := cm_workdir src,
         cf_username := map_option (convert_identifier (Id 0)) (cm_username src)\<rparr>"

definition convert_config_msg :: "protocol_config \<Rightarrow> config_msg" where
  "convert_config_msg src =
     \<lparr>cm_options = Some (convert_options_msg (cf_options src)),
      cm_cmd_args = cf_cmd_args src,
      cm_env_vars = map convert_environment_msg (cf_env_vars src),
      cm_workdir = cf_workdir src,
      cm_username = map_option convert_identifier_msg (cf_username src)\<rparr>"

definition convert_terminal_size :: "terminal_size_msg \<Rightarrow> terminal_size" where
  "convert_terminal_size src =
     \<lparr>ts_row = ucast (tm_row src), ts_col = ucast (tm_col src), ts_xpixel = ucast (tm_xpixel src), ts_ypixel = ucast (tm_ypixel src)\<rparr>"

definition convert_terminal_size_msg :: "terminal_size \<Rightarrow> terminal_size_msg" where
  "convert_terminal_size_msg src =
     \<lparr>tm_row = ucast (ts_row src), tm_col = ucast (ts_col src), tm_xpixel = ucast (ts_xpixel src), tm_ypixel = ucast (ts_ypixel src)\<rparr>"

section \<open>Keys and payloads\<close>

text \<open>The casts between the enumerations and the integers of a message.\<close>

definition ps_of_int :: "int \<Rightarrow> payload_cipher_suite" where
  "ps_of_int n = (if n = 0 then Ps_unspecified else if n = 1 then Aes_256_gcm else if n = 2 then Chacha20_poly1305 else Ps_other n)"

fun int_of_ps :: "payload_cipher_suite \<Rightarrow> int" where
  "int_of_ps Ps_unspecified = 0"
| "int_of_ps Aes_256_gcm = 1"
| "int_of_ps Chacha20_poly1305 = 2"
| "int_of_ps (Ps_other n) = n"

definition ks_of_int :: "int \<Rightarrow> key_envelope_suite" where
  "ks_of_int n = (if n = 0 then Ks_unspecified else if n = 1 then Hpke_aes_256_gcm else if n = 2 then Hpke_chacha20_poly1305 else Ks_other n)"

fun int_of_ks :: "key_envelope_suite \<Rightarrow> int" where
  "int_of_ks Ks_unspecified = 0"
| "int_of_ks Hpke_aes_256_gcm = 1"
| "int_of_ks Hpke_chacha20_poly1305 = 2"
| "int_of_ks (Ks_other n) = n"

definition ss_of_int :: "int \<Rightarrow> signature_suite" where
  "ss_of_int n = (if n = 1 then Ecdsa_p256_sha256 else Ss_other n)"

record grant_msg =
  gm_payload_suite :: int
  gm_payload_key_id :: bytes
  gm_key_envelopes :: "key_envelope list"
  gm_key_context :: bytes
  gm_key_envelope_suite :: int

definition grant_default :: grant_msg where
  "grant_default = \<lparr>gm_payload_suite = 0, gm_payload_key_id = [], gm_key_envelopes = [], gm_key_context = [], gm_key_envelope_suite = 0\<rparr>"

record payload_crypto_msg =
  pcm_payload_suite :: int
  pcm_payload_key_id :: bytes
  pcm_nonce :: bytes
  pcm_aad_context :: bytes

record encrypted_msg =
  xm_ciphertext :: bytes
  xm_plaintext_length :: "32 word"
  xm_payload_crypto :: "payload_crypto_msg option"

definition grant_to_proto :: "session_key_grant \<Rightarrow> grant_msg" where
  "grant_to_proto src =
     \<lparr>gm_payload_suite = int_of_ps (sg_payload_suite src), gm_payload_key_id = sg_payload_key_id src, gm_key_envelopes = sg_key_envelopes src,
      gm_key_context = sg_key_context src, gm_key_envelope_suite = int_of_ks (sg_key_envelope_suite src)\<rparr>"

definition grant_from_proto :: "grant_msg \<Rightarrow> session_key_grant" where
  "grant_from_proto src =
     \<lparr>sg_payload_suite = ps_of_int (gm_payload_suite src), sg_payload_key_id = gm_payload_key_id src, sg_key_envelopes = gm_key_envelopes src,
      sg_key_context = gm_key_context src, sg_key_envelope_suite = ks_of_int (gm_key_envelope_suite src)\<rparr>"

definition metadata_to_proto :: "payload_crypto_metadata \<Rightarrow> payload_crypto_msg" where
  "metadata_to_proto src =
     \<lparr>pcm_payload_suite = int_of_ps (pm_payload_suite src), pcm_payload_key_id = pm_payload_key_id src, pcm_nonce = pm_nonce src,
      pcm_aad_context = pm_aad_context src\<rparr>"

definition metadata_from_proto :: "payload_crypto_msg \<Rightarrow> payload_crypto_metadata" where
  "metadata_from_proto src =
     \<lparr>pm_payload_suite = ps_of_int (pcm_payload_suite src), pm_payload_key_id = pcm_payload_key_id src, pm_nonce = pcm_nonce src,
      pm_aad_context = pcm_aad_context src\<rparr>"

definition encrypted_to_proto :: "encrypted_payload \<Rightarrow> encrypted_msg" where
  "encrypted_to_proto src =
     \<lparr>xm_ciphertext = ep_ciphertext src, xm_plaintext_length = ep_plaintext_length src,
      xm_payload_crypto = Some (metadata_to_proto (ep_payload_crypto src))\<rparr>"

definition metadata_empty :: payload_crypto_metadata where
  "metadata_empty = \<lparr>pm_payload_suite = Ps_unspecified, pm_payload_key_id = [], pm_nonce = [], pm_aad_context = []\<rparr>"

definition encrypted_from_proto :: "encrypted_msg \<Rightarrow> encrypted_payload" where
  "encrypted_from_proto src =
     \<lparr>ep_ciphertext = xm_ciphertext src, ep_plaintext_length = xm_plaintext_length src,
      ep_payload_crypto = (case xm_payload_crypto src of Some m \<Rightarrow> metadata_from_proto m | None \<Rightarrow> metadata_empty)\<rparr>"

section \<open>Round trips\<close>

lemma ps_int_cast: "ps_of_int (int_of_ps s) = s \<or> (\<exists>n. s = Ps_other n)"
  by (cases s) (simp_all add: ps_of_int_def)

lemma ks_int_cast: "ks_of_int (int_of_ks s) = s \<or> (\<exists>n. s = Ks_other n)"
  by (cases s) (simp_all add: ks_of_int_def)

lemma int_casts [simp]: "int_of_ps (ps_of_int n) = n" "int_of_ks (ks_of_int n) = n"
  by (simp_all add: ps_of_int_def ks_of_int_def)

lemma grant_message: "grant_to_proto (grant_from_proto m) = m"
  by (simp add: grant_to_proto_def grant_from_proto_def)

lemma config_roundtrip: "convert_config dst (convert_config_msg src) = src\<lparr>cf_protocol_type := cf_protocol_type dst\<rparr>"
proof -
  have "map convert_environment (map convert_environment_msg es) = es" for es
    by (induction es) (simp_all add: convert_environment_def convert_environment_msg_def)
  moreover have "map_option (convert_identifier (Id 0)) (map_option convert_identifier_msg u) = u" for u
    by (cases u; cases "the u") simp_all
  ultimately show ?thesis
    by (simp add: convert_config_def convert_config_msg_def convert_options_def convert_options_msg_def)
qed

lemma ucast_short: "ucast (ucast x :: 32 word) = x" for x :: "16 word"
  by (auto intro!: bit_word_eqI simp: bit_simps)

lemma terminal_size_roundtrip: "convert_terminal_size (convert_terminal_size_msg s) = s"
  by (simp add: convert_terminal_size_def convert_terminal_size_msg_def ucast_short)

end
