(* ===== verification/WebttyAuth.thy ===== *)
theory WebttyAuth
  imports WebttyConvert
begin

text \<open>
  How a WebTTY server and its client authenticate each other: \<open>do_send_server_hello\<close> and \<open>verify_client_proof\<close> of
  \<open>server.cpp\<close>, \<open>verify_server_hello\<close>, \<open>add_client_proof\<close> and the message of \<open>do_send_open\<close> of \<open>client.cpp\<close>. The server signs a
  hello with a fresh nonce; the client checks it against the identity it expects and signs its open message. Times are
  nanoseconds of the system clock. The serializer of protocol buffers is the record \<open>serializer\<close>.
\<close>

section \<open>Messages\<close>

record identity_msg =
  im_signing_key_id :: bytes
  im_signing_public_key :: bytes
  im_signature_suite :: int
  im_encryption_key_id :: bytes
  im_encryption_public_key :: bytes
  im_key_envelope_suite :: int

record server_proof_msg =
  sp_signature_suite :: int
  sp_signing_key_id :: bytes
  sp_transcript_hash :: bytes
  sp_signature :: bytes

record server_hello_msg =
  sh_protocol_version :: int
  sh_session_nonce :: bytes
  sh_server_identity :: "identity_msg option"
  sh_payload_suites :: "int list"
  sh_key_envelope_suites :: "int list"
  sh_signature_suites :: "int list"
  sh_auth_requirement :: int
  sh_workspace_id :: "string option"
  sh_project_id :: "string option"
  sh_server_id :: "string option"
  sh_session_id :: string
  sh_server_proof :: "server_proof_msg option"

record client_proof_msg =
  cpm_principal_id :: "string option"
  cpm_signing_key_id :: bytes
  cpm_signing_public_key :: bytes
  cpm_signature_suite :: int
  cpm_transcript_hash :: bytes
  cpm_signature :: bytes
  cpm_issued_at :: string
  cpm_expires_at :: string
  cpm_credential :: "bytes option"

record open_msg =
  on_config :: "config_msg option"
  on_capabilities :: "int list"
  on_session_key_grant :: "grant_msg option"
  on_client_proof :: "client_proof_msg option"

text \<open>The deterministic encoding of a message; \<open>None\<close> when it fails.\<close>

record serializer =
  pb_grant :: "grant_msg \<Rightarrow> bytes option"
  pb_config :: "config_msg \<Rightarrow> bytes option"

definition string_from_value :: "string option \<Rightarrow> string" where
  "string_from_value v = (case v of Some s \<Rightarrow> s | None \<Rightarrow> [])"

fun transport_string :: "protocol_type \<Rightarrow> string" where
  "transport_string Plain = ''plain''"
| "transport_string Websocket = ''websocket''"

definition identity_to_proto :: "endpoint_identity_public \<Rightarrow> identity_msg" where
  "identity_to_proto src =
     \<lparr>im_signing_key_id = eip_signing_key_id src, im_signing_public_key = eip_signing_public_key src, im_signature_suite = 1,
      im_encryption_key_id = eip_encryption_key_id src, im_encryption_public_key = eip_encryption_public_key src, im_key_envelope_suite = 1\<rparr>"

definition sha256_bytes :: "'k openssl \<Rightarrow> bytes \<Rightarrow> bytes" where
  "sha256_bytes os value = os_sha256 os value"

definition hash_proto_message :: "'k openssl \<Rightarrow> bytes option \<Rightarrow> bytes option" where
  "hash_proto_message os encoded = map_option (sha256_bytes os) encoded"

section \<open>The server\<close>

text \<open>What a callback of the settings does.\<close>

datatype callback = Throws | Returns "bytes option"

record auth_settings =
  au_payload_crypto_resolver :: "(session_key_grant \<Rightarrow> payload_crypto option \<times> werr) option"
  au_endpoint_identity :: "endpoint_identity option"
  au_require_client_proof :: bool
  au_authorized_client_signing_keys :: "bytes \<rightharpoonup> bytes"
  au_authorized_client_signing_key_resolver :: "(bytes \<Rightarrow> callback) option"
  au_client_proof_credential_verifier :: "(bytes \<Rightarrow> bytes \<Rightarrow> bytes \<Rightarrow> callback) option"
  au_workspace_id :: string
  au_project_id :: string
  au_server_id :: string

definition hello_transcript :: "auth_settings \<Rightarrow> endpoint_identity_public \<Rightarrow> protocol_type \<Rightarrow> string \<Rightarrow> bytes \<Rightarrow> server_proof_transcript" where
  "hello_transcript cfg ident proto session_id nonce =
     \<lparr>st_protocol_version = Webtty_1, st_transport = transport_string proto, st_workspace_id = au_workspace_id cfg,
      st_project_id = au_project_id cfg, st_server_id = au_server_id cfg, st_session_id = session_id,
      st_server_signing_key_id = eip_signing_key_id ident, st_server_encryption_key_id = eip_encryption_key_id ident,
      st_server_nonce = nonce,
      st_auth_requirement = (if au_require_client_proof cfg then Auth_client_proof else Auth_none),
      st_payload_suites = [Aes_256_gcm], st_key_envelope_suites = [Hpke_aes_256_gcm], st_signature_suites = [Ecdsa_p256_sha256]\<rparr>"

text \<open>The message that \<open>do_send_server_hello\<close> sends, and the error that ends the session instead.\<close>

definition server_hello_message ::
  "'k openssl \<Rightarrow> 'p ecdsa \<Rightarrow> auth_settings \<Rightarrow> endpoint_identity \<Rightarrow> protocol_type \<Rightarrow> string \<Rightarrow> bytes \<Rightarrow> server_hello_msg option \<times> werr" where
  "server_hello_message os ev cfg identity proto session_id nonce =
     (let ident = public_endpoint_identity identity;
          ((h, s), e) = sign_webtty_server_proof_transcript os ev (en_signing identity) (hello_transcript cfg ident proto session_id nonce) None
      in if e \<noteq> None then (None, e)
         else
           (Some \<lparr>sh_protocol_version = 1, sh_session_nonce = nonce, sh_server_identity = Some (identity_to_proto ident),
                  sh_payload_suites = [1], sh_key_envelope_suites = [1], sh_signature_suites = [1],
                  sh_auth_requirement = (if au_require_client_proof cfg then 2 else 1),
                  sh_workspace_id = (if au_workspace_id cfg = [] then None else Some (au_workspace_id cfg)),
                  sh_project_id = (if au_project_id cfg = [] then None else Some (au_project_id cfg)),
                  sh_server_id = (if au_server_id cfg = [] then None else Some (au_server_id cfg)),
                  sh_session_id = session_id,
                  sh_server_proof = Some \<lparr>sp_signature_suite = 1, sp_signing_key_id = eip_signing_key_id ident, sp_transcript_hash = h,
                                          sp_signature = s\<rparr>\<rparr>, None))"

text \<open>The key that the settings authorise for a key identifier; an error when a callback throws.\<close>

definition authorized_key :: "auth_settings \<Rightarrow> bytes \<Rightarrow> bytes \<Rightarrow> bytes \<Rightarrow> webtty_error + bytes" where
  "authorized_key cfg key_id public_key credential =
     (let verified = (case au_client_proof_credential_verifier cfg of
                        None \<Rightarrow> Inr []
                      | Some f \<Rightarrow> (case f key_id public_key credential of
                                    Throws \<Rightarrow> Inl Client_unauthorized
                                  | Returns (Some k) \<Rightarrow> Inr k
                                  | Returns None \<Rightarrow> Inr []))
      in case verified of
           Inl x \<Rightarrow> Inl x
         | Inr k \<Rightarrow>
             if k \<noteq> [] then Inr k
             else case au_authorized_client_signing_keys cfg key_id of
                    Some a \<Rightarrow> Inr a
                  | None \<Rightarrow>
                      (case au_authorized_client_signing_key_resolver cfg of
                         None \<Rightarrow> Inr []
                       | Some f \<Rightarrow> (case f key_id of
                                     Throws \<Rightarrow> Inl Client_unauthorized
                                   | Returns (Some a) \<Rightarrow> Inr a
                                   | Returns None \<Rightarrow> Inr [])))"

text \<open>Durations are signed integers of 64 bits.\<close>

definition proof_window_invalid :: "int \<Rightarrow> int \<Rightarrow> int \<Rightarrow> bool" where
  "proof_window_invalid now issued_at expires_at \<longleftrightarrow>
     expires_at < now \<or> issued_at > wrap64 (now + 5 * 10 ^ 9) \<or> wrap64 (expires_at - issued_at) > 30 * 10 ^ 9"

definition open_transcript ::
  "auth_settings \<Rightarrow> endpoint_identity_public \<Rightarrow> protocol_type \<Rightarrow> string \<Rightarrow> bytes \<Rightarrow> bytes \<Rightarrow> bytes \<Rightarrow> bytes \<Rightarrow> client_proof_msg \<Rightarrow> client_proof_transcript" where
  "open_transcript cfg ident proto session_id nonce grant_hash config_hash credential_hash proof =
     \<lparr>ct_protocol_version = Webtty_1, ct_transport = transport_string proto, ct_workspace_id = au_workspace_id cfg,
      ct_project_id = au_project_id cfg, ct_server_id = au_server_id cfg, ct_session_id = session_id,
      ct_server_signing_key_id = eip_signing_key_id ident, ct_server_encryption_key_id = eip_encryption_key_id ident,
      ct_server_nonce = nonce, ct_auth_requirement = Auth_client_proof, ct_payload_suite = Aes_256_gcm,
      ct_key_envelope_suite = Hpke_aes_256_gcm, ct_session_key_grant_hash = grant_hash, ct_command_config_hash = config_hash,
      ct_attach_grant_hash = [], ct_requested_role = [], ct_client_principal_id = string_from_value (cpm_principal_id proof),
      ct_client_signing_key_id = cpm_signing_key_id proof, ct_client_credential_hash = credential_hash,
      ct_issued_at = cpm_issued_at proof, ct_expires_at = cpm_expires_at proof\<rparr>"

definition verify_client_proof ::
  "'k openssl \<Rightarrow> 'p ecdsa \<Rightarrow> serializer \<Rightarrow> auth_settings \<Rightarrow> protocol_type \<Rightarrow> string \<Rightarrow> bytes \<Rightarrow> int \<Rightarrow> open_msg \<Rightarrow> werr" where
  "verify_client_proof os ev pb cfg proto session_id nonce now opn =
     (if \<not> au_require_client_proof cfg then None
      else case au_endpoint_identity cfg of
        None \<Rightarrow> Some Webtty_protocol_error
      | Some identity \<Rightarrow>
      case on_client_proof opn of
        None \<Rightarrow> Some Client_proof_required
      | Some proof \<Rightarrow>
      if cpm_signing_key_id proof = [] then Some Client_proof_invalid
      else case authorized_key cfg (cpm_signing_key_id proof) (cpm_signing_public_key proof)
                  (case cpm_credential proof of Some c \<Rightarrow> c | None \<Rightarrow> []) of
        Inl x \<Rightarrow> Some x
      | Inr authorized_public_key \<Rightarrow>
      if authorized_public_key = [] then Some Client_unauthorized
      else if authorized_public_key \<noteq> cpm_signing_public_key proof then Some Client_unauthorized
      else case (parse_rfc3339_utc (cpm_issued_at proof), parse_rfc3339_utc (cpm_expires_at proof)) of
        (Some issued_at, Some expires_at) \<Rightarrow>
          if proof_window_invalid now issued_at expires_at then Some Client_proof_invalid
          else
            (case hash_proto_message os (pb_grant pb (case on_session_key_grant opn of Some g \<Rightarrow> g | None \<Rightarrow> grant_default)) of
               None \<Rightarrow> Some Webtty_protocol_error
             | Some grant_hash \<Rightarrow>
             case (case on_config opn of Some c \<Rightarrow> hash_proto_message os (pb_config pb c) | None \<Rightarrow> Some (sha256_bytes os [])) of
               None \<Rightarrow> Some Webtty_protocol_error
             | Some config_hash \<Rightarrow>
                 let t = open_transcript cfg (public_endpoint_identity identity) proto session_id nonce grant_hash config_hash
                           (sha256_bytes os (case cpm_credential proof of Some c \<Rightarrow> c | None \<Rightarrow> [])) proof
                 in case hash_webtty_client_proof_transcript os t None of
                      (_, Some x) \<Rightarrow> Some x
                    | (expected_hash, None) \<Rightarrow>
                        if expected_hash \<noteq> cpm_transcript_hash proof then Some Client_proof_invalid
                        else if verify_webtty_client_proof_transcript os ev (cpm_signing_public_key proof) t (cpm_signature proof) None \<noteq> None
                        then Some Client_proof_invalid
                        else None)
      | _ \<Rightarrow> Some Client_proof_invalid)"

section \<open>The client\<close>

record client_auth =
  ca_payload_crypto :: "payload_crypto option"
  ca_endpoint_identity :: "endpoint_identity option"
  ca_expected_server_identity :: "endpoint_identity_public option"
  ca_client_credential :: bytes
  ca_client_principal_id :: string

definition verify_server_hello ::
  "'k openssl \<Rightarrow> 'p ecdsa \<Rightarrow> client_auth \<Rightarrow> protocol_type \<Rightarrow> server_hello_msg \<Rightarrow> werr" where
  "verify_server_hello os ev cfg proto hello =
     (case ca_expected_server_identity cfg of
        None \<Rightarrow> None
      | Some expected \<Rightarrow>
      case (sh_server_identity hello, sh_server_proof hello) of
        (Some actual, Some proof) \<Rightarrow>
          if im_encryption_key_id actual \<noteq> eip_encryption_key_id expected \<or> im_encryption_public_key actual \<noteq> eip_encryption_public_key expected
             \<or> im_signing_key_id actual \<noteq> eip_signing_key_id expected \<or> im_signing_public_key actual \<noteq> eip_signing_public_key expected
          then Some Server_endpoint_identity_mismatch
          else
            let t = \<lparr>st_protocol_version = Webtty_1, st_transport = transport_string proto, st_workspace_id = string_from_value (sh_workspace_id hello),
                     st_project_id = string_from_value (sh_project_id hello), st_server_id = string_from_value (sh_server_id hello),
                     st_session_id = sh_session_id hello, st_server_signing_key_id = im_signing_key_id actual,
                     st_server_encryption_key_id = im_encryption_key_id actual, st_server_nonce = sh_session_nonce hello,
                     st_auth_requirement = (if sh_auth_requirement hello = 2 then Auth_client_proof else Auth_none),
                     st_payload_suites = map ps_of_int (sh_payload_suites hello), st_key_envelope_suites = map ks_of_int (sh_key_envelope_suites hello),
                     st_signature_suites = map ss_of_int (sh_signature_suites hello)\<rparr>
            in case hash_webtty_server_proof_transcript os t None of
                 (_, Some x) \<Rightarrow> Some x
               | (expected_hash, None) \<Rightarrow>
                   if expected_hash \<noteq> sp_transcript_hash proof then Some Server_proof_invalid
                   else if verify_webtty_server_proof_transcript os ev (eip_signing_public_key expected) t (sp_signature proof) None \<noteq> None
                   then Some Server_proof_invalid
                   else None
      | _ \<Rightarrow> Some Server_proof_invalid)"

text \<open>\<open>now\<close> is the clock in seconds, which \<open>utc_now_rfc3339\<close> prints.\<close>

definition add_client_proof ::
  "'k openssl \<Rightarrow> 'p ecdsa \<Rightarrow> serializer \<Rightarrow> client_auth \<Rightarrow> protocol_type \<Rightarrow> int \<Rightarrow> server_hello_msg \<Rightarrow> open_msg \<Rightarrow> open_msg \<times> werr" where
  "add_client_proof os ev pb cfg proto now hello opn =
     (if sh_auth_requirement hello \<noteq> 2 then (opn, None)
      else case ca_endpoint_identity cfg of
        None \<Rightarrow> (opn, Some Client_identity_required)
      | Some identity \<Rightarrow>
      case sh_server_identity hello of
        None \<Rightarrow> (opn, Some Server_proof_invalid)
      | Some server \<Rightarrow>
          let issued_at = utc_rfc3339 now;
              expires_at = add_seconds_rfc3339 issued_at 30
          in case (case on_session_key_grant opn of Some g \<Rightarrow> hash_proto_message os (pb_grant pb g) | None \<Rightarrow> Some (sha256_bytes os [])) of
               None \<Rightarrow> (opn, Some Webtty_protocol_error)
             | Some grant_hash \<Rightarrow>
             case (case on_config opn of Some c \<Rightarrow> hash_proto_message os (pb_config pb c) | None \<Rightarrow> Some (sha256_bytes os [])) of
               None \<Rightarrow> (opn, Some Webtty_protocol_error)
             | Some config_hash \<Rightarrow>
                 let t = \<lparr>ct_protocol_version = Webtty_1, ct_transport = transport_string proto, ct_workspace_id = string_from_value (sh_workspace_id hello),
                          ct_project_id = string_from_value (sh_project_id hello), ct_server_id = string_from_value (sh_server_id hello),
                          ct_session_id = sh_session_id hello, ct_server_signing_key_id = im_signing_key_id server,
                          ct_server_encryption_key_id = im_encryption_key_id server, ct_server_nonce = sh_session_nonce hello,
                          ct_auth_requirement = Auth_client_proof, ct_payload_suite = Aes_256_gcm, ct_key_envelope_suite = Hpke_aes_256_gcm,
                          ct_session_key_grant_hash = grant_hash, ct_command_config_hash = config_hash, ct_attach_grant_hash = [],
                          ct_requested_role = [], ct_client_principal_id = ca_client_principal_id cfg,
                          ct_client_signing_key_id = si_key_id (en_signing identity),
                          ct_client_credential_hash = (if ca_client_credential cfg = [] then sha256_bytes os [] else sha256_bytes os (ca_client_credential cfg)),
                          ct_issued_at = issued_at, ct_expires_at = expires_at\<rparr>
                 in case sign_webtty_client_proof_transcript os ev (en_signing identity) t None of
                      (_, Some x) \<Rightarrow> (opn, Some x)
                    | ((h, s), None) \<Rightarrow>
                        (opn\<lparr>on_client_proof := Some
                           \<lparr>cpm_principal_id = (if ca_client_principal_id cfg = [] then None else Some (ca_client_principal_id cfg)),
                            cpm_signing_key_id = si_key_id (en_signing identity), cpm_signing_public_key = si_public_key (en_signing identity),
                            cpm_signature_suite = 1, cpm_transcript_hash = h, cpm_signature = s, cpm_issued_at = issued_at, cpm_expires_at = expires_at,
                            cpm_credential = (if ca_client_credential cfg = [] then None else Some (ca_client_credential cfg))\<rparr>\<rparr>, None))"

text \<open>\<open>do_send_open\<close>: \<open>config\<close> is the command with the terminal added to its environment.\<close>

definition client_open_message ::
  "'k openssl \<Rightarrow> 'p ecdsa \<Rightarrow> serializer \<Rightarrow> client_auth \<Rightarrow> protocol_type \<Rightarrow> int \<Rightarrow> config_msg \<Rightarrow> server_hello_msg option \<Rightarrow> open_msg \<times> werr" where
  "client_open_message os ev pb cfg proto now config hello =
     (let open0 = \<lparr>on_config = Some config, on_capabilities = [], on_session_key_grant = None, on_client_proof = None\<rparr>;
          open1 = (case ca_payload_crypto cfg of
                     None \<Rightarrow> open0
                   | Some c \<Rightarrow> open0\<lparr>on_capabilities := [1, 2], on_session_key_grant := Some (grant_to_proto (get_session_key_grant c))\<rparr>)
      in case hello of None \<Rightarrow> (open1, None) | Some h \<Rightarrow> add_client_proof os ev pb cfg proto now h open1)"

end
