(* ===== verification/WebttyBinding.thy ===== *)
theory WebttyBinding
  imports WebttyProof
begin

text \<open>
  What a signature over a transcript binds: two transcripts with the same canonical bytes agree in every field, up to the
  spaces around strings, and a transcript of a client is never one of a server.
\<close>

definition sfits :: "string \<Rightarrow> bool" where
  "sfits s \<longleftrightarrow> length s \<le> UINT32_MAX"

definition client_fits :: "client_proof_transcript \<Rightarrow> bool" where
  "client_fits t \<longleftrightarrow>
     list_all sfits [ct_transport t, ct_workspace_id t, ct_project_id t, ct_server_id t, ct_session_id t, ct_requested_role t,
       ct_client_principal_id t, ct_issued_at t, ct_expires_at t]
     \<and> list_all fits [ct_server_signing_key_id t, ct_server_encryption_key_id t, ct_server_nonce t, ct_session_key_grant_hash t,
       ct_command_config_hash t, ct_attach_grant_hash t, ct_client_signing_key_id t, ct_client_credential_hash t]"

definition trimmed_client :: "client_proof_transcript \<Rightarrow> client_proof_transcript" where
  "trimmed_client t = t\<lparr>ct_transport := trim_copy (ct_transport t), ct_workspace_id := trim_copy (ct_workspace_id t),
     ct_project_id := trim_copy (ct_project_id t), ct_server_id := trim_copy (ct_server_id t), ct_session_id := trim_copy (ct_session_id t),
     ct_requested_role := trim_copy (ct_requested_role t), ct_client_principal_id := trim_copy (ct_client_principal_id t),
     ct_issued_at := trim_copy (ct_issued_at t), ct_expires_at := trim_copy (ct_expires_at t)\<rparr>"

definition server_fits :: "server_proof_transcript \<Rightarrow> bool" where
  "server_fits t \<longleftrightarrow>
     list_all sfits [st_transport t, st_workspace_id t, st_project_id t, st_server_id t, st_session_id t]
     \<and> list_all fits [st_server_signing_key_id t, st_server_encryption_key_id t, st_server_nonce t]
     \<and> length (st_payload_suites t) \<le> UINT32_MAX \<and> length (st_key_envelope_suites t) \<le> UINT32_MAX
     \<and> length (st_signature_suites t) \<le> UINT32_MAX"

definition trimmed_server :: "server_proof_transcript \<Rightarrow> server_proof_transcript" where
  "trimmed_server t = t\<lparr>st_transport := trim_copy (st_transport t), st_workspace_id := trim_copy (st_workspace_id t),
     st_project_id := trim_copy (st_project_id t), st_server_id := trim_copy (st_server_id t), st_session_id := trim_copy (st_session_id t)\<rparr>"

lemma length_trim_copy: "length (trim_copy s) \<le> length s"
  unfolding trim_copy_def using length_dropWhile_le [of is_space s] length_dropWhile_le [of is_space "rev (dropWhile is_space s)"]
  by (simp add: length_dropWhile_le le_trans)

lemma trimmed_fits: "sfits s \<Longrightarrow> fits (bytes_from_string (trim_copy s))"
  using length_trim_copy [of s] by (simp add: sfits_def fits_def)

lemma string_field_inj:
  assumes "sfits s" and "sfits t"
  shows "length_prefixed (bytes_from_string (trim_copy s)) @ r = length_prefixed (bytes_from_string (trim_copy t)) @ q
    \<longleftrightarrow> trim_copy s = trim_copy t \<and> r = q"
  using field_inj [OF trimmed_fits trimmed_fits, OF assms] by simp

lemma string_field_eq:
  assumes "sfits s" and "sfits t"
  shows "length_prefixed (bytes_from_string (trim_copy s)) = length_prefixed (bytes_from_string (trim_copy t)) \<longleftrightarrow> trim_copy s = trim_copy t"
  using string_field_inj [OF assms, of "[]" "[]"] by simp

text \<open>A code that does not fail determines the value.\<close>

definition faithful :: "('a \<Rightarrow> werr \<Rightarrow> 32 word \<times> werr) \<Rightarrow> bool" where
  "faithful code \<longleftrightarrow> (\<forall>v e w. code v e = (w, None) \<longrightarrow> e = None) \<and>
     (\<forall>v v' w. code v None = (w, None) \<longrightarrow> code v' None = (w, None) \<longrightarrow> v = v')"

lemma faithfulI:
  "(\<And>v e w. code v e = (w, None) \<Longrightarrow> e = None) \<Longrightarrow> (\<And>v v' w. code v None = (w, None) \<Longrightarrow> code v' None = (w, None) \<Longrightarrow> v = v')
    \<Longrightarrow> faithful code"
  unfolding faithful_def by blast

lemma faithful_value: "faithful code \<Longrightarrow> code v None = (w, None) \<Longrightarrow> code v' None = (w, None) \<Longrightarrow> v = v'"
  unfolding faithful_def by blast

lemma faithful_payload: "faithful payload_suite_code"
  by (rule faithfulI) (auto elim!: payload_suite_code.elims)

lemma faithful_envelope: "faithful key_envelope_suite_code"
  by (rule faithfulI) (auto elim!: key_envelope_suite_code.elims)

lemma faithful_signature: "faithful signature_suite_code"
  by (rule faithfulI) (auto elim!: signature_suite_code.elims)

lemma faithful_version: "faithful protocol_version_code"
  by (rule faithfulI) (auto elim!: protocol_version_code.elims)

lemma faithful_requirement: "faithful auth_requirement_code"
  by (rule faithfulI) (auto elim!: auth_requirement_code.elims)

lemma append_codes_None:
  assumes "faithful code" and "append_codes code dst vs e = (c, None)"
  shows "e = None \<and> (\<exists>ws. map (\<lambda>v. code v None) vs = map (\<lambda>w. (w, None)) ws \<and> c = dst @ concat (map be32 ws))"
  using assms(2)
proof (induction vs arbitrary: dst e)
  case (Cons v vs)
  obtain w e1 where w: "code v e = (w, e1)" by (cases "code v e")
  with Cons.prems have "append_codes code (dst @ be32 w) vs e1 = (c, None)" by simp
  from Cons.IH [OF this] obtain ws where e1: "e1 = None" and ws: "map (\<lambda>v. code v None) vs = map (\<lambda>w. (w, None)) ws"
      "c = (dst @ be32 w) @ concat (map be32 ws)"
    by blast
  from w e1 assms(1) have "e = None" unfolding faithful_def by blast
  with w e1 ws show ?case by (auto intro!: exI [of _ "w # ws"])
qed simp

lemma codes_inj:
  assumes "length ws = length vs" and "concat (map be32 ws) @ r = concat (map be32 vs) @ q"
  shows "ws = vs \<and> r = q"
  using assms by (induction rule: list_induct2) (auto simp: be32_inj)

lemma values_inj:
  assumes "faithful code" and "map (\<lambda>v. code v None) xs = map (\<lambda>w. (w, None)) ws" and "map (\<lambda>v. code v None) ys = map (\<lambda>w. (w, None)) ws"
  shows "xs = ys"
proof -
  have l: "length xs = length ys" using assms(2,3) by (metis length_map)
  have "xs ! i = ys ! i" if "i < length xs" for i
  proof -
    have i: "i < length ws" "i < length ys" using that l assms(2) by (metis length_map)+
    have "code (xs ! i) None = (ws ! i, None)" using assms(2) that i(1) by (metis nth_map)
    moreover have "code (ys ! i) None = (ws ! i, None)" using assms(3) i by (metis nth_map)
    ultimately show ?thesis using assms(1) unfolding faithful_def by blast
  qed
  with l show ?thesis by (simp add: nth_equalityI)
qed

lemma suites_inj:
  assumes "faithful code" and xs: "map (\<lambda>v. code v None) xs = map (\<lambda>w. (w, None)) ws" and ys: "map (\<lambda>v. code v None) ys = map (\<lambda>w. (w, None)) vs"
    and fit: "length xs \<le> UINT32_MAX" "length ys \<le> UINT32_MAX"
    and eq: "be32 (of_nat (length xs)) @ concat (map be32 ws) @ r = be32 (of_nat (length ys)) @ concat (map be32 vs) @ q"
  shows "xs = ys \<and> r = q"
proof -
  have "(of_nat (length xs) :: 32 word) = of_nat (length ys)" and *: "concat (map be32 ws) @ r = concat (map be32 vs) @ q"
    using eq by (simp_all add: be32_inj)
  then have "length xs mod 2 ^ 32 = length ys mod 2 ^ 32" by (simp add: word_of_nat_eq_iff take_bit_eq_mod)
  with fit have "length xs = length ys" by (simp add: UINT32_MAX_def)
  moreover have "length ws = length xs" "length vs = length ys" using xs ys by (metis length_map)+
  ultimately have "ws = vs \<and> r = q" using codes_inj [OF _ *] by simp
  with values_inj [OF assms(1) xs] ys show ?thesis by blast
qed

section \<open>The fields of a canonical transcript\<close>

definition client_fields :: "client_proof_transcript \<Rightarrow> 32 word \<Rightarrow> 32 word \<Rightarrow> 32 word \<Rightarrow> 32 word \<Rightarrow> bytes" where
  "client_fields t pv ar ps ks =
     length_prefixed (bytes_from_string ''rstream-webtty-client-auth-v1'') @ be32 pv
       @ length_prefixed (bytes_from_string (trim_copy (ct_transport t))) @ length_prefixed (bytes_from_string (trim_copy (ct_workspace_id t)))
       @ length_prefixed (bytes_from_string (trim_copy (ct_project_id t))) @ length_prefixed (bytes_from_string (trim_copy (ct_server_id t)))
       @ length_prefixed (bytes_from_string (trim_copy (ct_session_id t))) @ length_prefixed (ct_server_signing_key_id t)
       @ length_prefixed (ct_server_encryption_key_id t) @ length_prefixed (ct_server_nonce t) @ be32 ar @ be32 ps @ be32 ks
       @ length_prefixed (ct_session_key_grant_hash t) @ length_prefixed (ct_command_config_hash t) @ length_prefixed (ct_attach_grant_hash t)
       @ length_prefixed (bytes_from_string (trim_copy (ct_requested_role t))) @ length_prefixed (bytes_from_string (trim_copy (ct_client_principal_id t)))
       @ length_prefixed (ct_client_signing_key_id t) @ length_prefixed (ct_client_credential_hash t)
       @ length_prefixed (bytes_from_string (trim_copy (ct_issued_at t))) @ length_prefixed (bytes_from_string (trim_copy (ct_expires_at t)))"

definition server_fields :: "server_proof_transcript \<Rightarrow> 32 word \<Rightarrow> 32 word \<Rightarrow> 32 word list \<Rightarrow> 32 word list \<Rightarrow> 32 word list \<Rightarrow> bytes" where
  "server_fields t pv ar ps ks ss =
     length_prefixed (bytes_from_string ''rstream-webtty-server-auth-v1'') @ be32 pv
       @ length_prefixed (bytes_from_string (trim_copy (st_transport t))) @ length_prefixed (bytes_from_string (trim_copy (st_workspace_id t)))
       @ length_prefixed (bytes_from_string (trim_copy (st_project_id t))) @ length_prefixed (bytes_from_string (trim_copy (st_server_id t)))
       @ length_prefixed (bytes_from_string (trim_copy (st_session_id t))) @ length_prefixed (st_server_signing_key_id t)
       @ length_prefixed (st_server_encryption_key_id t) @ length_prefixed (st_server_nonce t) @ be32 ar
       @ be32 (of_nat (length (st_payload_suites t))) @ concat (map be32 ps)
       @ be32 (of_nat (length (st_key_envelope_suites t))) @ concat (map be32 ks)
       @ be32 (of_nat (length (st_signature_suites t))) @ concat (map be32 ss) @ []"

lemma fits_domain: "length_prefixed p @ r = length_prefixed p @ q \<longleftrightarrow> r = q"
  by (simp add: length_prefixed_def)

lemma client_canonical_None:
  assumes "client_canonical t e = (c, None)"
  obtains pv ar ps ks where "protocol_version_code (ct_protocol_version t) None = (pv, None)"
    "auth_requirement_code (ct_auth_requirement t) None = (ar, None)" "payload_suite_code (ct_payload_suite t) None = (ps, None)"
    "key_envelope_suite_code (ct_key_envelope_suite t) None = (ks, None)"
    "c = client_fields t pv ar ps ks"
proof -
  obtain pv e1 where pv: "protocol_version_code (ct_protocol_version t) e = (pv, e1)" by (cases "protocol_version_code (ct_protocol_version t) e")
  obtain ar e2 where ar: "auth_requirement_code (ct_auth_requirement t) e1 = (ar, e2)" by (cases "auth_requirement_code (ct_auth_requirement t) e1")
  obtain ps e3 where ps: "payload_suite_code (ct_payload_suite t) e2 = (ps, e3)" by (cases "payload_suite_code (ct_payload_suite t) e2")
  obtain ks e4 where ks: "key_envelope_suite_code (ct_key_envelope_suite t) e3 = (ks, e4)" by (cases "key_envelope_suite_code (ct_key_envelope_suite t) e3")
  note codes = pv ar ps ks
  from assms have "e4 = None" by (simp add: client_canonical_def codes Let_def)
  moreover from this ks have "e3 = None" using faithful_envelope unfolding faithful_def by blast
  moreover from this ps have "e2 = None" using faithful_payload unfolding faithful_def by blast
  moreover from this ar have "e1 = None" using faithful_requirement unfolding faithful_def by blast
  moreover from this pv have "e = None" using faithful_version unfolding faithful_def by blast
  ultimately show ?thesis
    using that assms codes by (simp add: client_canonical_def append_length_prefixed_string_def Let_def client_fields_def)
qed

lemma client_canonical_inj:
  assumes "client_canonical t e = (c, None)" and "client_canonical u e' = (c, None)" and "client_fits t" and "client_fits u"
  shows "trimmed_client t = trimmed_client u"
proof -
  obtain pv ar ps ks where t: "protocol_version_code (ct_protocol_version t) None = (pv, None)"
      "auth_requirement_code (ct_auth_requirement t) None = (ar, None)" "payload_suite_code (ct_payload_suite t) None = (ps, None)"
      "key_envelope_suite_code (ct_key_envelope_suite t) None = (ks, None)" and c: "c = client_fields t pv ar ps ks"
    using client_canonical_None [OF assms(1)] .
  obtain pv' ar' ps' ks' where u: "protocol_version_code (ct_protocol_version u) None = (pv', None)"
      "auth_requirement_code (ct_auth_requirement u) None = (ar', None)" "payload_suite_code (ct_payload_suite u) None = (ps', None)"
      "key_envelope_suite_code (ct_key_envelope_suite u) None = (ks', None)" and d: "c = client_fields u pv' ar' ps' ks'"
    using client_canonical_None [OF assms(2)] .
  have all: "pv = pv' \<and> trim_copy (ct_transport t) = trim_copy (ct_transport u) \<and>
      trim_copy (ct_workspace_id t) = trim_copy (ct_workspace_id u) \<and>
      trim_copy (ct_project_id t) = trim_copy (ct_project_id u) \<and> trim_copy (ct_server_id t) = trim_copy (ct_server_id u) \<and>
      trim_copy (ct_session_id t) = trim_copy (ct_session_id u) \<and> ct_server_signing_key_id t = ct_server_signing_key_id u \<and>
      ct_server_encryption_key_id t = ct_server_encryption_key_id u \<and> ct_server_nonce t = ct_server_nonce u \<and> ar = ar' \<and>
      ps = ps' \<and> ks = ks' \<and> ct_session_key_grant_hash t = ct_session_key_grant_hash u \<and>
      ct_command_config_hash t = ct_command_config_hash u \<and> ct_attach_grant_hash t = ct_attach_grant_hash u \<and>
      trim_copy (ct_requested_role t) = trim_copy (ct_requested_role u) \<and>
      trim_copy (ct_client_principal_id t) = trim_copy (ct_client_principal_id u) \<and>
      ct_client_signing_key_id t = ct_client_signing_key_id u \<and> ct_client_credential_hash t = ct_client_credential_hash u \<and>
      trim_copy (ct_issued_at t) = trim_copy (ct_issued_at u) \<and> trim_copy (ct_expires_at t) = trim_copy (ct_expires_at u)"
    using trans [OF c [symmetric] d] assms(3,4) unfolding client_fields_def client_fits_def list.pred_inject
    by (simp only: be32_inj string_field_inj string_field_eq field_inj fits_domain refl simp_thms)
  have "ct_protocol_version t = ct_protocol_version u" "ct_auth_requirement t = ct_auth_requirement u"
      "ct_payload_suite t = ct_payload_suite u" "ct_key_envelope_suite t = ct_key_envelope_suite u"
    using faithful_value [OF faithful_version] faithful_value [OF faithful_requirement] faithful_value [OF faithful_payload]
      faithful_value [OF faithful_envelope] t u all by simp_all
  with all show ?thesis by (cases t; cases u) (simp add: trimmed_client_def)
qed

lemma server_canonical_None:
  assumes "server_canonical t e = (c, None)"
  obtains pv ar ps ks ss where "protocol_version_code (st_protocol_version t) None = (pv, None)"
    "auth_requirement_code (st_auth_requirement t) None = (ar, None)" "map (\<lambda>v. payload_suite_code v None) (st_payload_suites t) = map (\<lambda>w. (w, None)) ps"
    "map (\<lambda>v. key_envelope_suite_code v None) (st_key_envelope_suites t) = map (\<lambda>w. (w, None)) ks"
    "map (\<lambda>v. signature_suite_code v None) (st_signature_suites t) = map (\<lambda>w. (w, None)) ss"
    "c = server_fields t pv ar ps ks ss"
proof -
  obtain pv e1 where pv: "protocol_version_code (st_protocol_version t) e = (pv, e1)" by (cases "protocol_version_code (st_protocol_version t) e")
  obtain ar e2 where ar: "auth_requirement_code (st_auth_requirement t) e1 = (ar, e2)" by (cases "auth_requirement_code (st_auth_requirement t) e1")
  define c2 where "c2 = foldl append_length_prefixed_string (length_prefixed (bytes_from_string ''rstream-webtty-server-auth-v1'') @ be32 pv)
      [st_transport t, st_workspace_id t, st_project_id t, st_server_id t, st_session_id t]
      @ length_prefixed (st_server_signing_key_id t) @ length_prefixed (st_server_encryption_key_id t) @ length_prefixed (st_server_nonce t)"
  obtain c3 e3 where c3: "append_payload_suites (c2 @ be32 ar) (st_payload_suites t) e2 = (c3, e3)"
    by (cases "append_payload_suites (c2 @ be32 ar) (st_payload_suites t) e2")
  obtain c4 e4 where c4: "append_key_envelope_suites c3 (st_key_envelope_suites t) e3 = (c4, e4)"
    by (cases "append_key_envelope_suites c3 (st_key_envelope_suites t) e3")
  have c5: "append_signature_suites c4 (st_signature_suites t) e4 = (c, None)"
    using assms c4 unfolding server_canonical_def Let_def pv prod.case ar c2_def [symmetric] c3 by simp
  obtain ss where e4: "e4 = None" and ss: "map (\<lambda>v. signature_suite_code v None) (st_signature_suites t) = map (\<lambda>w. (w, None)) ss"
      "c = (c4 @ be32 (of_nat (length (st_signature_suites t)))) @ concat (map be32 ss)"
    using append_codes_None [OF faithful_signature c5 [unfolded append_signature_suites_def]] by blast
  obtain ks where e3: "e3 = None" and ks: "map (\<lambda>v. key_envelope_suite_code v None) (st_key_envelope_suites t) = map (\<lambda>w. (w, None)) ks"
      "c4 = (c3 @ be32 (of_nat (length (st_key_envelope_suites t)))) @ concat (map be32 ks)"
    using append_codes_None [OF faithful_envelope c4 [unfolded append_key_envelope_suites_def e4]] by blast
  obtain ps where e2: "e2 = None" and ps: "map (\<lambda>v. payload_suite_code v None) (st_payload_suites t) = map (\<lambda>w. (w, None)) ps"
      "c3 = ((c2 @ be32 ar) @ be32 (of_nat (length (st_payload_suites t)))) @ concat (map be32 ps)"
    using append_codes_None [OF faithful_payload c3 [unfolded append_payload_suites_def e3]] by blast
  from ar e2 have e1: "e1 = None" using faithful_requirement unfolding faithful_def by blast
  with pv have "e = None" using faithful_version unfolding faithful_def by blast
  with that ss ks ps pv ar e1 e2 show ?thesis
    by (simp add: c2_def append_length_prefixed_string_def server_fields_def)
qed

lemma server_canonical_inj:
  assumes "server_canonical t e = (c, None)" and "server_canonical u e' = (c, None)" and fit: "server_fits t" "server_fits u"
  shows "trimmed_server t = trimmed_server u"
proof -
  obtain pv ar ps ks ss where t: "protocol_version_code (st_protocol_version t) None = (pv, None)"
      "auth_requirement_code (st_auth_requirement t) None = (ar, None)" and tps: "map (\<lambda>v. payload_suite_code v None) (st_payload_suites t) = map (\<lambda>w. (w, None)) ps"
      and tks: "map (\<lambda>v. key_envelope_suite_code v None) (st_key_envelope_suites t) = map (\<lambda>w. (w, None)) ks"
      and tss: "map (\<lambda>v. signature_suite_code v None) (st_signature_suites t) = map (\<lambda>w. (w, None)) ss"
      and c: "c = server_fields t pv ar ps ks ss"
    using server_canonical_None [OF assms(1)] .
  obtain pv' ar' ps' ks' ss' where u: "protocol_version_code (st_protocol_version u) None = (pv', None)"
      "auth_requirement_code (st_auth_requirement u) None = (ar', None)" and ups: "map (\<lambda>v. payload_suite_code v None) (st_payload_suites u) = map (\<lambda>w. (w, None)) ps'"
      and uks: "map (\<lambda>v. key_envelope_suite_code v None) (st_key_envelope_suites u) = map (\<lambda>w. (w, None)) ks'"
      and uss: "map (\<lambda>v. signature_suite_code v None) (st_signature_suites u) = map (\<lambda>w. (w, None)) ss'"
      and d: "c = server_fields u pv' ar' ps' ks' ss'"
    using server_canonical_None [OF assms(2)] .
  have len: "length (st_payload_suites t) \<le> UINT32_MAX" "length (st_key_envelope_suites t) \<le> UINT32_MAX" "length (st_signature_suites t) \<le> UINT32_MAX"
      "length (st_payload_suites u) \<le> UINT32_MAX" "length (st_key_envelope_suites u) \<le> UINT32_MAX" "length (st_signature_suites u) \<le> UINT32_MAX"
    using fit by (simp_all add: server_fits_def)
  have all: "pv = pv' \<and> trim_copy (st_transport t) = trim_copy (st_transport u) \<and> trim_copy (st_workspace_id t) = trim_copy (st_workspace_id u) \<and>
      trim_copy (st_project_id t) = trim_copy (st_project_id u) \<and> trim_copy (st_server_id t) = trim_copy (st_server_id u) \<and>
      trim_copy (st_session_id t) = trim_copy (st_session_id u) \<and> st_server_signing_key_id t = st_server_signing_key_id u \<and>
      st_server_encryption_key_id t = st_server_encryption_key_id u \<and> st_server_nonce t = st_server_nonce u \<and> ar = ar' \<and>
      be32 (of_nat (length (st_payload_suites t))) @ concat (map be32 ps)
        @ be32 (of_nat (length (st_key_envelope_suites t))) @ concat (map be32 ks)
        @ be32 (of_nat (length (st_signature_suites t))) @ concat (map be32 ss) @ [] =
      be32 (of_nat (length (st_payload_suites u))) @ concat (map be32 ps')
        @ be32 (of_nat (length (st_key_envelope_suites u))) @ concat (map be32 ks')
        @ be32 (of_nat (length (st_signature_suites u))) @ concat (map be32 ss') @ []"
    using trans [OF c [symmetric] d] fit unfolding server_fields_def server_fits_def list.pred_inject
    by (simp only: be32_inj string_field_inj string_field_eq field_inj fits_domain refl simp_thms)
  then have suites: "st_payload_suites t = st_payload_suites u" "st_key_envelope_suites t = st_key_envelope_suites u" "st_signature_suites t = st_signature_suites u"
    using suites_inj [OF faithful_payload tps ups len(1,4)] suites_inj [OF faithful_envelope tks uks len(2,5)] suites_inj [OF faithful_signature tss uss len(3,6)]
    by blast+
  have "st_protocol_version t = st_protocol_version u" "st_auth_requirement t = st_auth_requirement u"
    using faithful_value [OF faithful_version] faithful_value [OF faithful_requirement] t u all by simp_all
  with all suites show ?thesis unfolding trimmed_server_def by simp
qed

lemma canonical_apart: "client_canonical t e = (c, None) \<Longrightarrow> server_canonical u e' \<noteq> (c, None)"
  by (auto elim!: client_canonical_None server_canonical_None simp: client_fields_def server_fields_def length_prefixed_inj UINT32_MAX_def)

text \<open>
  C13: a signature binds the whole transcript. Two transcripts of a client that are written into the same canonical bytes agree
  in every field up to the spaces around strings: protocol version, transport, workspace, project, server and session, the keys of
  the server, its nonce, the requirement, the suites, the hashes of the key grant, of the command and of the attach grant, role,
  principal, key, credential and times; the same holds for two transcripts of a server with its lists of suites; and no transcript
  of a client has the bytes of one of a server, so that a signature cannot be used in the other direction.
\<close>

theorem transcripts_bound:
  assumes "client_fits t" and "client_fits u" and "server_fits v" and "server_fits w"
  shows "(client_canonical t e = (c, None) \<longrightarrow> client_canonical u e' = (c, None) \<longrightarrow> trimmed_client t = trimmed_client u)
    \<and> (server_canonical v e = (d, None) \<longrightarrow> server_canonical w e' = (d, None) \<longrightarrow> trimmed_server v = trimmed_server w)
    \<and> (client_canonical t e = (c, None) \<longrightarrow> server_canonical v e' \<noteq> (c, None))"
  using client_canonical_inj [OF _ _ assms(1,2)] server_canonical_inj [OF _ _ assms(3,4)] canonical_apart by blast

definition w_client_transcript :: "string \<Rightarrow> client_proof_transcript" where
  "w_client_transcript nonce = \<lparr>ct_protocol_version = Webtty_1, ct_transport = ''plain'', ct_workspace_id = ''w'', ct_project_id = ''p'',
     ct_server_id = '' s'', ct_session_id = ''1'', ct_server_signing_key_id = [1], ct_server_encryption_key_id = [2],
     ct_server_nonce = bytes_from_string nonce, ct_auth_requirement = Auth_client_proof, ct_payload_suite = Aes_256_gcm,
     ct_key_envelope_suite = Hpke_aes_256_gcm, ct_session_key_grant_hash = [3], ct_command_config_hash = [4], ct_attach_grant_hash = [],
     ct_requested_role = [], ct_client_principal_id = ''me'', ct_client_signing_key_id = [5], ct_client_credential_hash = [6],
     ct_issued_at = ''2024-01-01T00:00:00Z'', ct_expires_at = ''2024-01-01T00:00:30Z''\<rparr>"

definition w_server_transcript :: "string \<Rightarrow> server_proof_transcript" where
  "w_server_transcript nonce = \<lparr>st_protocol_version = Webtty_1, st_transport = ''plain'', st_workspace_id = ''w'', st_project_id = ''p'',
     st_server_id = ''s'', st_session_id = ''1'', st_server_signing_key_id = [1], st_server_encryption_key_id = [2],
     st_server_nonce = bytes_from_string nonce, st_auth_requirement = Auth_client_proof, st_payload_suites = [Aes_256_gcm],
     st_key_envelope_suites = [Hpke_aes_256_gcm], st_signature_suites = [Ecdsa_p256_sha256]\<rparr>"

theorem transcripts_bound_witness:
  "fst (client_canonical (w_client_transcript ''a'') None) \<noteq> fst (client_canonical (w_client_transcript ''b'') None)
    \<and> fst (server_canonical (w_server_transcript ''a'') None) \<noteq> fst (server_canonical (w_server_transcript ''b'') None)
    \<and> fst (client_canonical (w_client_transcript ''a'') None) \<noteq> fst (server_canonical (w_server_transcript ''a'') None)"
proof -
  have fits: "client_fits (w_client_transcript ''a'')" "client_fits (w_client_transcript ''b'')"
      "server_fits (w_server_transcript ''a'')" "server_fits (w_server_transcript ''b'')"
    by (simp_all add: client_fits_def server_fits_def w_client_transcript_def w_server_transcript_def sfits_def fits_def UINT32_MAX_def)
  have None: "snd (client_canonical (w_client_transcript x) None) = None" "snd (server_canonical (w_server_transcript x) None) = None" for x
    by (simp_all add: client_canonical_def server_canonical_def w_client_transcript_def w_server_transcript_def append_payload_suites_def
        append_key_envelope_suites_def append_signature_suites_def Let_def)
  have "trimmed_client (w_client_transcript ''a'') \<noteq> trimmed_client (w_client_transcript ''b'')"
      "trimmed_server (w_server_transcript ''a'') \<noteq> trimmed_server (w_server_transcript ''b'')"
    by (simp_all add: trimmed_client_def trimmed_server_def w_client_transcript_def w_server_transcript_def)
  then show ?thesis
    using transcripts_bound [OF fits, of None _ None] None by (metis prod.collapse)
qed

end
