(* ===== verification/WebttyAuthCorrect.thy ===== *)
theory WebttyAuthCorrect
  imports WebttyAuth WebttyBinding
begin

text \<open>
  What the handshake of a WebTTY session establishes: an open message is accepted only with a signature of an authorised key
  over the transcript of this session; and a server and a client that know each other accept each other.
\<close>

section \<open>An accepted proof\<close>

lemma signature_accepted:
  assumes "verify_digest_signature ev public_key digest signature None = None"
  obtains k where "parse_public_key_der ev public_key None = (Some k, None)" "ev_verify ev k digest signature" "length digest = 32"
  using assms by (auto simp: verify_digest_signature_def parse_public_key_der_def parse_key_der_def split: if_splits option.splits prod.splits)

lemma client_transcript_accepted:
  assumes "verify_webtty_client_proof_transcript os ev public_key t signature None = None"
  obtains c k where "client_canonical t None = (c, None)" "parse_public_key_der ev public_key None = (Some k, None)"
    "ev_verify ev k (os_sha256 os c) signature"
  using assms
  by (auto simp: verify_webtty_client_proof_transcript_def hash_webtty_client_proof_transcript_def elim: signature_accepted split: prod.splits option.splits)

text \<open>
  C5: who opens a session. When a server that requires a proof accepts an open message, the message carries a proof whose key
  the settings authorise for its key identifier (the verifier of credentials, the list or the resolver of keys), the times of
  the proof are dates and lie in the window around the clock of the server, and the signature of the proof was verified under that
  key over the digest of the transcript of this very session: its transport, workspace, project and server, its session
  identifier, the keys of the server and the nonce of its hello, and the hashes of the key grant, of the command and of the
  credential in the message.
\<close>

theorem client_proof_sound:
  assumes "verify_client_proof os ev pb cfg proto session_id nonce now opn = None" and "au_require_client_proof cfg"
  shows "\<exists>identity proof key issued expires gh ch c k.
    au_endpoint_identity cfg = Some identity \<and> on_client_proof opn = Some proof
    \<and> cpm_signing_key_id proof \<noteq> [] \<and> key \<noteq> [] \<and> cpm_signing_public_key proof = key
    \<and> authorized_key cfg (cpm_signing_key_id proof) key (case cpm_credential proof of Some x \<Rightarrow> x | None \<Rightarrow> []) = Inr key
    \<and> parse_rfc3339_utc (cpm_issued_at proof) = Some issued \<and> parse_rfc3339_utc (cpm_expires_at proof) = Some expires
    \<and> now \<le> expires \<and> issued \<le> wrap64 (now + 5 * 10 ^ 9) \<and> wrap64 (expires - issued) \<le> 30 * 10 ^ 9
    \<and> hash_proto_message os (pb_grant pb (case on_session_key_grant opn of Some g \<Rightarrow> g | None \<Rightarrow> grant_default)) = Some gh
    \<and> (case on_config opn of Some m \<Rightarrow> hash_proto_message os (pb_config pb m) | None \<Rightarrow> Some (sha256_bytes os [])) = Some ch
    \<and> client_canonical (open_transcript cfg (public_endpoint_identity identity) proto session_id nonce gh ch
        (sha256_bytes os (case cpm_credential proof of Some x \<Rightarrow> x | None \<Rightarrow> [])) proof) None = (c, None)
    \<and> parse_public_key_der ev key None = (Some k, None) \<and> ev_verify ev k (os_sha256 os c) (cpm_signature proof)"
proof -
  obtain identity where identity: "au_endpoint_identity cfg = Some identity"
    using assms by (auto simp: verify_client_proof_def split: option.splits)
  obtain pr where pf: "on_client_proof opn = Some pr" "cpm_signing_key_id pr \<noteq> []"
    using assms identity by (auto simp: verify_client_proof_def split: option.splits if_splits)
  define cred where "cred = (case cpm_credential pr of Some x \<Rightarrow> x | None \<Rightarrow> [])"
  have key: "authorized_key cfg (cpm_signing_key_id pr) (cpm_signing_public_key pr) cred = Inr (cpm_signing_public_key pr)"
    "cpm_signing_public_key pr \<noteq> []"
    using assms identity pf unfolding verify_client_proof_def by (simp_all add: cred_def split: sum.splits if_splits)
  obtain issued expires where times: "parse_rfc3339_utc (cpm_issued_at pr) = Some issued" "parse_rfc3339_utc (cpm_expires_at pr) = Some expires"
      "\<not> proof_window_invalid now issued expires"
    using assms identity pf key unfolding verify_client_proof_def by (simp add: cred_def split: option.splits if_splits)
  obtain gh where gh: "hash_proto_message os (pb_grant pb (case on_session_key_grant opn of Some g \<Rightarrow> g | None \<Rightarrow> grant_default)) = Some gh"
    using assms identity pf key times unfolding verify_client_proof_def by (auto simp: cred_def split: option.splits)
  obtain ch where ch: "(case on_config opn of Some m \<Rightarrow> hash_proto_message os (pb_config pb m) | None \<Rightarrow> Some (sha256_bytes os [])) = Some ch"
    using assms identity pf key times gh unfolding verify_client_proof_def by (auto simp: cred_def split: option.splits)
  define t where "t = open_transcript cfg (public_endpoint_identity identity) proto session_id nonce gh ch (sha256_bytes os cred) pr"
  have "verify_webtty_client_proof_transcript os ev (cpm_signing_public_key pr) t (cpm_signature pr) None = None"
    using assms identity pf key times gh ch unfolding verify_client_proof_def
    by (simp add: cred_def t_def Let_def split: prod.splits option.splits if_splits)
  then obtain c k where "client_canonical t None = (c, None)" "parse_public_key_der ev (cpm_signing_public_key pr) None = (Some k, None)"
      "ev_verify ev k (os_sha256 os c) (cpm_signature pr)"
    by (rule client_transcript_accepted)
  with identity pf key times gh ch show ?thesis
    unfolding t_def cred_def proof_window_invalid_def by (auto simp: not_less)
qed

section \<open>Server and client accept each other\<close>

text \<open>What is relied on of OpenSSL: SHA-256 has 32 bytes, and what the private key signs the public key verifies.\<close>

definition sha256_ok :: "'k openssl \<Rightarrow> bool" where
  "sha256_ok os \<longleftrightarrow> (\<forall>x. length (os_sha256 os x) = 32)"

definition ecdsa_pair :: "'p ecdsa \<Rightarrow> bytes \<Rightarrow> bytes \<Rightarrow> bool" where
  "ecdsa_pair ev private_key public_key \<longleftrightarrow>
     (\<exists>kp kq. parse_private_key_der ev private_key None = (Some kp, None) \<and> parse_public_key_der ev public_key None = (Some kq, None)
       \<and> (\<forall>d. length d = 32 \<longrightarrow> (\<exists>s. ev_sign ev kp d = Some s \<and> s \<noteq> [] \<and> ev_verify ev kq d s)))"

lemma signs:
  assumes "ecdsa_pair ev (si_private_key identity) public_key" and "length d = 32"
  obtains s where "sign_digest ev identity d None = (s, None)" "verify_digest_signature ev public_key d s None = None"
  using assms by (fastforce simp: ecdsa_pair_def sign_digest_def verify_digest_signature_def)

lemma server_signs:
  assumes "ecdsa_pair ev (si_private_key identity) public_key" and "sha256_ok os" and "server_canonical t None = (c, None)"
  obtains h s where "sign_webtty_server_proof_transcript os ev identity t None = ((h, s), None)"
    "hash_webtty_server_proof_transcript os t None = (h, None)" "verify_webtty_server_proof_transcript os ev public_key t s None = None"
proof -
  have h: "hash_webtty_server_proof_transcript os t None = (os_sha256 os c, None)"
    using assms(3) by (simp add: hash_webtty_server_proof_transcript_def)
  obtain s where "sign_digest ev identity (os_sha256 os c) None = (s, None)" "verify_digest_signature ev public_key (os_sha256 os c) s None = None"
    using signs [OF assms(1)] assms(2) unfolding sha256_ok_def by blast
  with that h show ?thesis
    by (simp add: sign_webtty_server_proof_transcript_def verify_webtty_server_proof_transcript_def)
qed

lemma client_signs:
  assumes "ecdsa_pair ev (si_private_key identity) public_key" and "sha256_ok os" and "client_canonical t None = (c, None)"
  obtains h s where "sign_webtty_client_proof_transcript os ev identity t None = ((h, s), None)"
    "hash_webtty_client_proof_transcript os t None = (h, None)" "verify_webtty_client_proof_transcript os ev public_key t s None = None"
proof -
  have h: "hash_webtty_client_proof_transcript os t None = (os_sha256 os c, None)"
    using assms(3) by (simp add: hash_webtty_client_proof_transcript_def)
  obtain s where "sign_digest ev identity (os_sha256 os c) None = (s, None)" "verify_digest_signature ev public_key (os_sha256 os c) s None = None"
    using signs [OF assms(1)] assms(2) unfolding sha256_ok_def by blast
  with that h show ?thesis
    by (simp add: sign_webtty_client_proof_transcript_def verify_webtty_client_proof_transcript_def)
qed

lemma value_of_nonempty [simp]: "string_from_value (if s = [] then None else Some s) = s"
  by (simp add: string_from_value_def)

lemma hello_canonical: "\<exists>c. server_canonical (hello_transcript cfg ident proto sid nonce) None = (c, None)"
  by (simp add: server_canonical_def hello_transcript_def append_payload_suites_def append_key_envelope_suites_def append_signature_suites_def Let_def)

lemma open_canonical: "\<exists>c. client_canonical (open_transcript cfg ident proto sid nonce gh ch dh pr) None = (c, None)"
  by (simp add: client_canonical_def open_transcript_def Let_def)

lemma hello_accepted:
  assumes pair: "ecdsa_pair ev (si_private_key (en_signing identity)) (si_public_key (en_signing identity))" and sha: "sha256_ok os"
    and expected: "ca_expected_server_identity ccfg = Some (public_endpoint_identity identity)"
  obtains hello where "server_hello_message os ev cfg identity proto sid nonce = (Some hello, None)"
    "verify_server_hello os ev ccfg proto hello = None"
    "sh_session_nonce hello = nonce" "sh_session_id hello = sid" "sh_auth_requirement hello = (if au_require_client_proof cfg then 2 else 1)"
    "sh_server_identity hello = Some (identity_to_proto (public_endpoint_identity identity))"
    "string_from_value (sh_workspace_id hello) = au_workspace_id cfg" "string_from_value (sh_project_id hello) = au_project_id cfg"
    "string_from_value (sh_server_id hello) = au_server_id cfg"
proof -
  define t where "t = hello_transcript cfg (public_endpoint_identity identity) proto sid nonce"
  obtain c where "server_canonical t None = (c, None)" using hello_canonical unfolding t_def by blast
  with pair sha obtain h s where h: "sign_webtty_server_proof_transcript os ev (en_signing identity) t None = ((h, s), None)"
      "hash_webtty_server_proof_transcript os t None = (h, None)"
      "verify_webtty_server_proof_transcript os ev (si_public_key (en_signing identity)) t s None = None"
    by (rule server_signs)
  obtain hello where hello: "server_hello_message os ev cfg identity proto sid nonce = (Some hello, None)"
    using h(1) by (simp add: server_hello_message_def t_def Let_def)
  moreover have "verify_server_hello os ev ccfg proto hello = None"
    using hello h expected
    by (cases "au_require_client_proof cfg") (auto simp: server_hello_message_def verify_server_hello_def t_def hello_transcript_def identity_to_proto_def public_endpoint_identity_def
        ps_of_int_def ks_of_int_def ss_of_int_def Let_def)
  ultimately show ?thesis
    using that h(1) by (auto simp: server_hello_message_def t_def Let_def)
qed

lemma client_proof_made:
  assumes pair: "ecdsa_pair ev (si_private_key (en_signing identity)) (si_public_key (en_signing identity))" and sha: "sha256_ok os"
    and client: "ca_endpoint_identity ccfg = Some identity"
    and hello: "sh_auth_requirement hello = 2" "sh_server_identity hello = Some (identity_to_proto ident)" "sh_session_nonce hello = nonce" "sh_session_id hello = sid"
      "string_from_value (sh_workspace_id hello) = au_workspace_id cfg" "string_from_value (sh_project_id hello) = au_project_id cfg"
      "string_from_value (sh_server_id hello) = au_server_id cfg"
    and gh: "(case on_session_key_grant opn of Some g \<Rightarrow> hash_proto_message os (pb_grant pb g) | None \<Rightarrow> Some (sha256_bytes os [])) = Some gh"
    and ch: "(case on_config opn of Some c \<Rightarrow> hash_proto_message os (pb_config pb c) | None \<Rightarrow> Some (sha256_bytes os [])) = Some ch"
  obtains pr where "add_client_proof os ev pb ccfg proto now hello opn = (opn\<lparr>on_client_proof := Some pr\<rparr>, None)"
    "cpm_signing_key_id pr = si_key_id (en_signing identity)" "cpm_signing_public_key pr = si_public_key (en_signing identity)"
    "cpm_issued_at pr = utc_rfc3339 now" "cpm_expires_at pr = add_seconds_rfc3339 (utc_rfc3339 now) 30"
    "cpm_credential pr = (if ca_client_credential ccfg = [] then None else Some (ca_client_credential ccfg))"
    "hash_webtty_client_proof_transcript os (open_transcript cfg ident proto sid nonce gh ch (sha256_bytes os (ca_client_credential ccfg)) pr) None
      = (cpm_transcript_hash pr, None)"
    "verify_webtty_client_proof_transcript os ev (si_public_key (en_signing identity))
      (open_transcript cfg ident proto sid nonce gh ch (sha256_bytes os (ca_client_credential ccfg)) pr) (cpm_signature pr) None = None"
proof -
  define mk where "mk = (\<lambda>h s. \<lparr>cpm_principal_id = (if ca_client_principal_id ccfg = [] then None else Some (ca_client_principal_id ccfg)),
     cpm_signing_key_id = si_key_id (en_signing identity), cpm_signing_public_key = si_public_key (en_signing identity),
     cpm_signature_suite = 1, cpm_transcript_hash = h, cpm_signature = s, cpm_issued_at = utc_rfc3339 now,
     cpm_expires_at = add_seconds_rfc3339 (utc_rfc3339 now) 30,
     cpm_credential = (if ca_client_credential ccfg = [] then None else Some (ca_client_credential ccfg))\<rparr>)"
  define t where "t = (\<lambda>pr. open_transcript cfg ident proto sid nonce gh ch (sha256_bytes os (ca_client_credential ccfg)) pr)"
  have t: "t (mk h s) = t (mk [] [])" for h s by (simp add: t_def mk_def open_transcript_def)
  obtain c where "client_canonical (t (mk [] [])) None = (c, None)" using open_canonical unfolding t_def by blast
  with pair sha obtain h s where h: "sign_webtty_client_proof_transcript os ev (en_signing identity) (t (mk [] [])) None = ((h, s), None)"
      "hash_webtty_client_proof_transcript os (t (mk [] [])) None = (h, None)"
      "verify_webtty_client_proof_transcript os ev (si_public_key (en_signing identity)) (t (mk [] [])) s None = None"
    by (rule client_signs)
  have cred: "(if ca_client_credential ccfg = [] then sha256_bytes os [] else sha256_bytes os (ca_client_credential ccfg))
      = sha256_bytes os (ca_client_credential ccfg)"
    by simp
  have "add_client_proof os ev pb ccfg proto now hello opn = (opn\<lparr>on_client_proof := Some (mk h s)\<rparr>, None)"
    using h(1) client hello gh ch unfolding add_client_proof_def cred
    by (simp add: t_def mk_def open_transcript_def identity_to_proto_def Let_def)
  with that [of "mk h s"] h t [of h s] show ?thesis
    unfolding t_def by (simp add: mk_def)
qed

lemma window_of_client:
  assumes "0 \<le> t" "(t + 30) * 10 ^ 9 < 2 ^ 63" "t * 10 ^ 9 \<le> now + 5 * 10 ^ 9" "now \<le> (t + 30) * 10 ^ 9" "now + 5 * 10 ^ 9 < 2 ^ 63"
  shows "parse_rfc3339_utc (utc_rfc3339 t) = Some (t * 10 ^ 9)"
    and "parse_rfc3339_utc (add_seconds_rfc3339 (utc_rfc3339 t) 30) = Some ((t + 30) * 10 ^ 9)"
    and "\<not> proof_window_invalid now (t * 10 ^ 9) ((t + 30) * 10 ^ 9)"
proof -
  have t: "- (2 ^ 63) \<le> t * 10 ^ 9" "t * 10 ^ 9 < 2 ^ 63" "- (2 ^ 63) \<le> (t + 30) * 10 ^ 9" using assms(1,2) by simp_all
  show parse: "parse_rfc3339_utc (utc_rfc3339 t) = Some (t * 10 ^ 9)" by (rule parse_utc_rfc3339 [OF t(1,2)])
  have "add_seconds_rfc3339 (utc_rfc3339 t) 30 = utc_rfc3339 (t + 30)" by (rule add_seconds_utc [OF t(1,2,3) assms(2)])
  then show "parse_rfc3339_utc (add_seconds_rfc3339 (utc_rfc3339 t) 30) = Some ((t + 30) * 10 ^ 9)"
    using parse_utc_rfc3339 [OF t(3) assms(2)] by simp
  have "wrap64 (now + 5 * 10 ^ 9) = now + 5 * 10 ^ 9" using assms(1,3,5) by (intro wrap64_same) simp_all
  moreover have "wrap64 ((t + 30) * 10 ^ 9 - t * 10 ^ 9) = 30 * 10 ^ 9" by (subst wrap64_same) simp_all
  ultimately show "\<not> proof_window_invalid now (t * 10 ^ 9) ((t + 30) * 10 ^ 9)"
    using assms(3,4) by (simp add: proof_window_invalid_def)
qed

lemma handshake_agrees:
  assumes "sha256_ok os"
    and "ecdsa_pair ev (si_private_key (en_signing server)) (si_public_key (en_signing server))"
    and "ecdsa_pair ev (si_private_key (en_signing client)) (si_public_key (en_signing client))"
    and "au_require_client_proof cfg" and "au_endpoint_identity cfg = Some server"
    and "ca_expected_server_identity ccfg = Some (public_endpoint_identity server)" and "ca_endpoint_identity ccfg = Some client"
    and "authorized_key cfg (si_key_id (en_signing client)) (si_public_key (en_signing client)) (ca_client_credential ccfg) = Inr (si_public_key (en_signing client))"
    and "si_key_id (en_signing client) \<noteq> []" and "si_public_key (en_signing client) \<noteq> []"
    and "pb_grant pb grant_default = Some []" and "\<forall>g. pb_grant pb g \<noteq> None" and "pb_config pb config \<noteq> None"
    and "0 \<le> t" and "(t + 30) * 10 ^ 9 < 2 ^ 63" and "t * 10 ^ 9 \<le> now + 5 * 10 ^ 9" and "now \<le> (t + 30) * 10 ^ 9" and "now + 5 * 10 ^ 9 < 2 ^ 63"
  shows "\<exists>hello opn. server_hello_message os ev cfg server proto sid nonce = (Some hello, None)
    \<and> verify_server_hello os ev ccfg proto hello = None
    \<and> client_open_message os ev pb ccfg proto t config (Some hello) = (opn, None)
    \<and> on_config opn = Some config
    \<and> on_session_key_grant opn = map_option (\<lambda>c. grant_to_proto (get_session_key_grant c)) (ca_payload_crypto ccfg)
    \<and> verify_client_proof os ev pb cfg proto sid nonce now opn = None"
proof -
  obtain hello where hello: "server_hello_message os ev cfg server proto sid nonce = (Some hello, None)"
      "verify_server_hello os ev ccfg proto hello = None"
      "sh_session_nonce hello = nonce" "sh_session_id hello = sid" "sh_auth_requirement hello = (if au_require_client_proof cfg then 2 else 1)"
      "sh_server_identity hello = Some (identity_to_proto (public_endpoint_identity server))"
      "string_from_value (sh_workspace_id hello) = au_workspace_id cfg" "string_from_value (sh_project_id hello) = au_project_id cfg"
      "string_from_value (sh_server_id hello) = au_server_id cfg"
    using hello_accepted [OF assms(2,1,6)] .
  have required: "sh_auth_requirement hello = 2" using hello(5) assms(4) by simp
  define open1 where "open1 = \<lparr>on_config = Some config, on_capabilities = (if ca_payload_crypto ccfg = None then [] else [1, 2]),
     on_session_key_grant = map_option (\<lambda>c. grant_to_proto (get_session_key_grant c)) (ca_payload_crypto ccfg), on_client_proof = None\<rparr>"
  obtain ch where ch: "hash_proto_message os (pb_config pb config) = Some ch" using assms(13) by (auto simp: hash_proto_message_def)
  obtain gh where gh: "(case on_session_key_grant open1 of Some g \<Rightarrow> hash_proto_message os (pb_grant pb g) | None \<Rightarrow> Some (sha256_bytes os [])) = Some gh"
    using assms(12) [rule_format, of "the (on_session_key_grant open1)"] by (cases "on_session_key_grant open1") (auto simp: hash_proto_message_def)
  obtain pr where pr: "add_client_proof os ev pb ccfg proto t hello open1 = (open1\<lparr>on_client_proof := Some pr\<rparr>, None)"
      "cpm_signing_key_id pr = si_key_id (en_signing client)" "cpm_signing_public_key pr = si_public_key (en_signing client)"
      "cpm_issued_at pr = utc_rfc3339 t" "cpm_expires_at pr = add_seconds_rfc3339 (utc_rfc3339 t) 30"
      "cpm_credential pr = (if ca_client_credential ccfg = [] then None else Some (ca_client_credential ccfg))"
      "hash_webtty_client_proof_transcript os (open_transcript cfg (public_endpoint_identity server) proto sid nonce gh ch
         (sha256_bytes os (ca_client_credential ccfg)) pr) None = (cpm_transcript_hash pr, None)"
      "verify_webtty_client_proof_transcript os ev (si_public_key (en_signing client)) (open_transcript cfg (public_endpoint_identity server) proto sid nonce gh ch
         (sha256_bytes os (ca_client_credential ccfg)) pr) (cpm_signature pr) None = None"
    using client_proof_made [OF assms(3,1,7) required hello(6,3,4,7-9) gh, of ch] ch unfolding open1_def by auto
  have "client_open_message os ev pb ccfg proto t config (Some hello) = (open1\<lparr>on_client_proof := Some pr\<rparr>, None)"
    using pr(1) by (cases "ca_payload_crypto ccfg") (simp_all add: client_open_message_def open1_def)
  moreover have "(case cpm_credential pr of Some x \<Rightarrow> x | None \<Rightarrow> []) = ca_client_credential ccfg" using pr(6) by simp
  moreover have "hash_proto_message os (pb_grant pb (case on_session_key_grant open1 of Some g \<Rightarrow> g | None \<Rightarrow> grant_default)) = Some gh"
    using gh assms(11) by (cases "on_session_key_grant open1") (simp_all add: hash_proto_message_def)
  ultimately show ?thesis
    using hello(1,2) pr ch assms(4,5,8-10) window_of_client [OF assms(14-18)]
    by (auto simp: verify_client_proof_def open1_def)
qed

text \<open>
  C7: a server and a client that know each other agree. When the client expects the identity of the server, the server
  requires proofs and authorises the key of the client, and the clock of the server is at most five seconds behind that of the
  client and at most thirty ahead, then the hello of the server passes the check of the client, the client makes its open
  message without error, and the server accepts it. The message carries the command and the key grant of the client unchanged.
\<close>

theorem webtty_mutual_authentication:
  assumes "sha256_ok os"
    and "ecdsa_pair ev (si_private_key (en_signing server)) (si_public_key (en_signing server))"
    and "ecdsa_pair ev (si_private_key (en_signing client)) (si_public_key (en_signing client))"
    and "au_require_client_proof cfg" and "au_endpoint_identity cfg = Some server"
    and "ca_expected_server_identity ccfg = Some (public_endpoint_identity server)" and "ca_endpoint_identity ccfg = Some client"
    and "authorized_key cfg (si_key_id (en_signing client)) (si_public_key (en_signing client)) (ca_client_credential ccfg) = Inr (si_public_key (en_signing client))"
    and "si_key_id (en_signing client) \<noteq> []" and "si_public_key (en_signing client) \<noteq> []"
    and "pb_grant pb grant_default = Some []" and "\<forall>g. pb_grant pb g \<noteq> None" and "pb_config pb config \<noteq> None"
    and "0 \<le> t" and "(t + 30) * 10 ^ 9 < 2 ^ 63" and "t * 10 ^ 9 \<le> now + 5 * 10 ^ 9" and "now \<le> (t + 30) * 10 ^ 9" and "now + 5 * 10 ^ 9 < 2 ^ 63"
  shows "\<exists>hello opn. server_hello_message os ev cfg server proto sid nonce = (Some hello, None)
    \<and> verify_server_hello os ev ccfg proto hello = None
    \<and> client_open_message os ev pb ccfg proto t config (Some hello) = (opn, None)
    \<and> on_config opn = Some config
    \<and> on_session_key_grant opn = map_option (\<lambda>c. grant_to_proto (get_session_key_grant c)) (ca_payload_crypto ccfg)
    \<and> verify_client_proof os ev pb cfg proto sid nonce now opn = None"
  using handshake_agrees [OF assms] .

section \<open>An example\<close>

text \<open>A stand-in for ECDSA: the two encodings of a key are the same, and a signature is the key followed by the digest.\<close>

definition w_ecdsa :: "bytes ecdsa" where
  "w_ecdsa = \<lparr>ev_sha256 = (\<lambda>d. Some (w_digest 32 d)), ev_d2i_private = (\<lambda>d. Some (d, length d)), ev_d2i_public = (\<lambda>d. Some (d, length d)),
     ev_is_ec = (\<lambda>k. True), ev_i2d_public = Some, ev_i2d_private = Some, ev_sign = (\<lambda>k d. Some (k @ d)), ev_verify = (\<lambda>k d s. s = k @ d),
     ev_p1363 = (\<lambda>r s. None)\<rparr>"

definition w_endpoint :: "byte \<Rightarrow> endpoint_identity" where
  "w_endpoint b = \<lparr>en_encryption = \<lparr>ei_key_id = [b], ei_public_key = [b], ei_private_key = [b]\<rparr>,
     en_signing = \<lparr>si_key_id = [b], si_public_key = [b], si_private_key = [b]\<rparr>\<rparr>"

definition w_auth :: auth_settings where
  "w_auth = \<lparr>au_payload_crypto_resolver = None, au_endpoint_identity = Some (w_endpoint 1), au_require_client_proof = True,
     au_authorized_client_signing_keys = [[2] \<mapsto> [2]], au_authorized_client_signing_key_resolver = None,
     au_client_proof_credential_verifier = None, au_workspace_id = ''w'', au_project_id = [], au_server_id = ''s''\<rparr>"

definition w_client_auth :: client_auth where
  "w_client_auth = \<lparr>ca_payload_crypto = None, ca_endpoint_identity = Some (w_endpoint 2),
     ca_expected_server_identity = Some (public_endpoint_identity (w_endpoint 1)), ca_client_credential = [7], ca_client_principal_id = ''me''\<rparr>"

definition w_serializer :: serializer where
  "w_serializer = \<lparr>pb_grant = (\<lambda>g. Some (gm_payload_key_id g)), pb_config = (\<lambda>c. Some (concat (map bytes_from_string (cm_cmd_args c))))\<rparr>"

lemma w_pair: "b \<noteq> [] \<Longrightarrow> ecdsa_pair w_ecdsa b b"
  by (simp add: ecdsa_pair_def w_ecdsa_def parse_private_key_der_def parse_public_key_der_def parse_key_der_def)

lemma w_sha: "sha256_ok w_openssl"
  by (simp add: sha256_ok_def w_openssl_def w_digest_def)

lemma w_pairs: "b \<noteq> 0 \<Longrightarrow> ecdsa_pair w_ecdsa (si_private_key (en_signing (w_endpoint b))) (si_public_key (en_signing (w_endpoint b)))"
  by (simp add: w_endpoint_def w_pair)

lemma w_accepted:
  "\<exists>opn. verify_client_proof w_openssl w_ecdsa w_serializer w_auth Plain ''1'' [9] 1709251200000000001 opn = None"
  using handshake_agrees [OF w_sha w_pairs w_pairs, of 1 2 w_auth w_client_auth w_serializer config_default 1709251199 1709251200000000001 Plain "''1''" "[9]"]
  by (auto simp: w_auth_def w_client_auth_def w_endpoint_def w_serializer_def authorized_key_def grant_default_def)

theorem webtty_mutual_authentication_witness:
  "\<exists>hello opn. server_hello_message w_openssl w_ecdsa w_auth (w_endpoint 1) Plain ''1'' [9] = (Some hello, None)
    \<and> verify_server_hello w_openssl w_ecdsa w_client_auth Plain hello = None
    \<and> client_open_message w_openssl w_ecdsa w_serializer w_client_auth Plain 1709251199 config_default (Some hello) = (opn, None)
    \<and> verify_client_proof w_openssl w_ecdsa w_serializer w_auth Plain ''1'' [9] 1709251200000000001 opn = None"
  using webtty_mutual_authentication [OF w_sha w_pairs w_pairs, of 1 2 w_auth w_client_auth w_serializer config_default 1709251199 1709251200000000001 Plain "''1''" "[9]"]
  by (auto simp: w_auth_def w_client_auth_def w_endpoint_def w_serializer_def authorized_key_def grant_default_def)

theorem client_proof_sound_witness:
  "\<exists>opn proof c k. verify_client_proof w_openssl w_ecdsa w_serializer w_auth Plain ''1'' [9] 1709251200000000001 opn = None
    \<and> on_client_proof opn = Some proof \<and> ev_verify w_ecdsa k (os_sha256 w_openssl c) (cpm_signature proof)"
proof -
  obtain opn where opn: "verify_client_proof w_openssl w_ecdsa w_serializer w_auth Plain ''1'' [9] 1709251200000000001 opn = None"
    using w_accepted by blast
  then show ?thesis
    using client_proof_sound [OF opn] by (auto simp: w_auth_def)
qed

text \<open>
  The check of the window subtracts two times in 64 bits: a proof that claims to be valid from 1700 to 2262 has a negative
  duration and passes, although the duration is limited to thirty seconds.
\<close>

lemma proof_window_overflows:
  "parse_rfc3339_utc ''1700-01-01T00:00:00Z'' = Some (- 8520336000 * 10 ^ 9) \<and> parse_rfc3339_utc ''2262-01-01T00:00:00Z'' = Some (9214646400 * 10 ^ 9)
    \<and> \<not> proof_window_invalid (1709251200 * 10 ^ 9) (- 8520336000 * 10 ^ 9) (9214646400 * 10 ^ 9)"
  by (simp add: parse_rfc3339_utc_def parse_fixed_digits_def parse_digit_def is_digit_char_def days_in_month_def days_from_civil_def
      signed_divide_int_def wrap64_def eval_nat_numeral proof_window_invalid_def)

end
