(* ===== verification/WebttyHost.thy ===== *)
theory WebttyHost
  imports WebttyConvert Resolve OrderedMap
begin

text \<open>
  Model of \<open>bin/webtty/lib/rstream/webtty/webtty.cpp\<close> on Linux: the environment and the user a session runs with, and the
  labels and the URI under which a server is published. What the system answers (environment variables, the user and group
  databases, \<open>stat\<close>, \<open>uname\<close>, the lines of \<open>/etc/os-release\<close>) is the record \<open>host\<close>. An answer may depend on how often it was
  asked before.
\<close>

section \<open>Types\<close>

datatype execution_mode = Spawn | Login

text \<open>Error codes: of the program, of the generic and of the system category.\<close>

datatype session_error = Wt webtty_error | Generic int | System int

record user_info =
  ui_name :: string
  ui_shell :: string
  ui_home :: string
  ui_uid :: "32 word"
  ui_gid :: "32 word"
  ui_groups :: "32 word list"

record passwd =
  pw_name :: string
  pw_shell :: string
  pw_dir :: string
  pw_uid :: "32 word"
  pw_gid :: "32 word"

record file_status =
  fs_dir :: bool
  fs_sock :: bool
  fs_uid :: "32 word"
  fs_mode :: nat

text \<open>\<open>getgrouplist\<close>: the groups, or a failure with the count it stores and \<open>errno\<close>.\<close>

datatype grouplist = Groups "32 word list" | Too_small int int

record host =
  ho_getenv :: "string \<Rightarrow> string option"
  ho_getuid :: "32 word"
  ho_stat :: "string \<Rightarrow> file_status option"
  ho_sysconf :: int
  ho_getpwnam :: "string \<Rightarrow> nat \<Rightarrow> nat \<Rightarrow> int \<times> passwd option"
  ho_getpwuid :: "32 word \<Rightarrow> nat \<Rightarrow> nat \<Rightarrow> int \<times> passwd option"
  ho_getgrouplist :: "string \<Rightarrow> 32 word \<Rightarrow> nat \<Rightarrow> nat \<Rightarrow> grouplist"
  ho_os_release :: "string list option"
  ho_uname_release :: string
  ho_gethostname :: string
  ho_runtime_os :: string
  ho_runtime_arch :: string

record uri_options =
  uo_transport :: protocol_type
  uo_managed :: bool
  uo_publish :: bool
  uo_execution_mode :: execution_mode
  uo_server_id :: string
  uo_server_name :: string
  uo_host_key_id :: string
  uo_encryption_policy :: string
  uo_server_admission_label :: string
  uo_labels :: "(string \<times> string) list"

record os_details =
  od_id :: string
  od_version_id :: string
  od_codename :: string
  od_pretty_name :: string
  od_kernel :: string
  od_hostname :: string

section \<open>Parsing\<close>

definition parse_execution_mode :: "string \<Rightarrow> execution_mode option" where
  "parse_execution_mode src = (if src = ''spawn'' \<or> src = [] then Some Spawn else if src = ''login'' then Some Login else None)"

definition parse_protocol_type :: "string \<Rightarrow> protocol_type option" where
  "parse_protocol_type src = (if src = ''websocket'' then Some Websocket else if src = ''plain'' then Some Plain else None)"

definition decimal_value :: "string \<Rightarrow> nat" where
  "decimal_value src = foldl (\<lambda>n c. 10 * n + (of_char c - 48)) 0 src"

text \<open>A number that does not fit is an exception.\<close>

definition parse_identifier :: "string \<Rightarrow> user_identifier option" where
  "parse_identifier src =
     (if src \<noteq> [] \<and> list_all is_digit_char src
      then if decimal_value src > UINT32_MAX then None else Some (Id (of_nat (decimal_value src)))
      else Some (Name src))"

definition parse_username :: "string \<Rightarrow> user_identifier option option" where
  "parse_username src = (if src = [] then Some None else map_option Some (parse_identifier src))"

text \<open>\<open>find\<close> of the first \<open>=\<close>.\<close>

definition split_assignment :: "string \<Rightarrow> (string \<times> string) option" where
  "split_assignment s = (if CHR ''='' \<in> set s then Some (takeWhile (\<lambda>c. c \<noteq> CHR ''='') s, tl (dropWhile (\<lambda>c. c \<noteq> CHR ''='') s)) else None)"

fun parse_environment_vars :: "host \<Rightarrow> string list \<Rightarrow> environment list" where
  "parse_environment_vars h [] = []"
| "parse_environment_vars h (str # rest) =
     (if str = [] then parse_environment_vars h rest
      else case split_assignment str of
             Some (key, value) \<Rightarrow> \<lparr>env_key = key, env_value = value\<rparr> # parse_environment_vars h rest
           | None \<Rightarrow>
               (case ho_getenv h str of
                  Some value \<Rightarrow> \<lparr>env_key = str, env_value = value\<rparr> # parse_environment_vars h rest
                | None \<Rightarrow> parse_environment_vars h rest))"

section \<open>The environment of a command\<close>

fun find_environment_variable :: "environment list \<Rightarrow> string \<Rightarrow> nat" where
  "find_environment_variable [] key = 0"
| "find_environment_variable (e # es) key = (if env_key e = key then 0 else Suc (find_environment_variable es key))"

definition add_environment_variable :: "string \<Rightarrow> string \<Rightarrow> bool \<Rightarrow> environment list \<Rightarrow> environment list" where
  "add_environment_variable key value force dst =
     (let i = find_environment_variable dst key in
      if force \<or> i = length dst
      then if i < length dst then dst[i := \<lparr>env_key = key, env_value = value\<rparr>] else dst @ [\<lparr>env_key = key, env_value = value\<rparr>]
      else dst)"

definition add_inherited_variable :: "host \<Rightarrow> string \<Rightarrow> bool \<Rightarrow> environment list \<Rightarrow> environment list" where
  "add_inherited_variable h key force dst =
     (case ho_getenv h key of Some value \<Rightarrow> add_environment_variable key value force dst | None \<Rightarrow> dst)"

definition common_keys :: "string list" where
  "common_keys = [''PATH'', ''LANG'', ''LANGUAGE'', ''LC_ADDRESS'', ''LC_ALL'', ''LC_COLLATE'', ''LC_CTYPE'', ''LC_IDENTIFICATION'',
     ''LC_MEASUREMENT'', ''LC_MESSAGES'', ''LC_MONETARY'', ''LC_NAME'', ''LC_NUMERIC'', ''LC_PAPER'', ''LC_TELEPHONE'', ''LC_TIME'', ''TZ'']"

definition owned_private_directory :: "host \<Rightarrow> user_info \<Rightarrow> string \<Rightarrow> bool" where
  "owned_private_directory h user path \<longleftrightarrow>
     path \<noteq> [] \<and> (case ho_stat h path of None \<Rightarrow> False | Some v \<Rightarrow> fs_dir v \<and> fs_uid v = ui_uid user \<and> fs_mode v mod 64 = 0)"

definition runtime_directory :: "host \<Rightarrow> user_info \<Rightarrow> string" where
  "runtime_directory h user =
     (let inherited = (if ui_uid user = ho_getuid h
                       then (case ho_getenv h ''XDG_RUNTIME_DIR'' of Some d \<Rightarrow> if owned_private_directory h user d then d else [] | None \<Rightarrow> [])
                       else []);
          candidate = ''/run/user/'' @ show_nat (unat (ui_uid user))
      in if inherited = [] then if owned_private_directory h user candidate then candidate else [] else inherited)"

definition add_execution_environment :: "host \<Rightarrow> execution_mode \<Rightarrow> user_info \<Rightarrow> environment list \<Rightarrow> environment list" where
  "add_execution_environment h mode user dst =
     (let dst1 = foldl (\<lambda>d k. add_inherited_variable h k False d) dst common_keys;
          force = (mode = Login);
          dst2 = add_environment_variable ''HOME'' (ui_home user) force
                   (add_environment_variable ''SHELL'' (ui_shell user) force
                     (add_environment_variable ''LOGNAME'' (ui_name user) force
                       (add_environment_variable ''USER'' (ui_name user) force dst1)));
          dir = runtime_directory h user
      in if mode \<noteq> Login \<or> dir = [] then dst2
         else
           let dst3 = add_environment_variable ''XDG_RUNTIME_DIR'' dir True dst2;
               bus = dir @ ''/bus''
           in (case ho_stat h bus of
                 Some v \<Rightarrow> if fs_sock v \<and> fs_uid v = ui_uid user
                           then add_environment_variable ''DBUS_SESSION_BUS_ADDRESS'' (''unix:path='' @ bus) True dst3 else dst3
               | None \<Rightarrow> dst3))"

text \<open>\<open>parse_environment\<close> of \<open>server.cpp\<close>: the environment of the process, in which a later entry replaces an earlier one.\<close>

definition process_environment :: "environment list \<Rightarrow> (string \<rightharpoonup> string)" where
  "process_environment src = foldl (\<lambda>m e. m(env_key e \<mapsto> env_value e)) Map.empty src"

section \<open>Users\<close>

text \<open>The loop doubles the buffer while the lookup reports \<open>ERANGE\<close> (34). \<open>n\<close> counts the calls; no fuel gives no result.\<close>

definition ERANGE :: int where "ERANGE = 34"

definition maximum_buffer_size :: nat where "maximum_buffer_size = 1024 * 1024"

fun lookup_passwd_loop :: "nat \<Rightarrow> (nat \<Rightarrow> nat \<Rightarrow> int \<times> passwd option) \<Rightarrow> nat \<Rightarrow> nat \<Rightarrow> (session_error + passwd) option" where
  "lookup_passwd_loop 0 lookup n buffer_size = None"
| "lookup_passwd_loop (Suc fuel) lookup n buffer_size =
     (case lookup n buffer_size of
        (code, result) \<Rightarrow>
          if code = 0 then Some (case result of None \<Rightarrow> Inl (Generic 2) | Some pw \<Rightarrow> Inr pw)
          else if code \<noteq> ERANGE \<or> buffer_size = maximum_buffer_size then Some (Inl (Generic code))
          else lookup_passwd_loop fuel lookup (Suc n) (min (buffer_size * 2) maximum_buffer_size))"

definition lookup_passwd :: "nat \<Rightarrow> int \<Rightarrow> (nat \<Rightarrow> nat \<Rightarrow> int \<times> passwd option) \<Rightarrow> (session_error + passwd) option" where
  "lookup_passwd fuel configured lookup =
     lookup_passwd_loop fuel lookup 0 (min (if configured > 0 then nat configured else 16 * 1024) maximum_buffer_size)"

definition append_unique :: "'a list \<Rightarrow> 'a \<Rightarrow> 'a list" where
  "append_unique dst value = (if value \<in> set dst then dst else dst @ [value])"

fun lookup_groups_loop :: "nat \<Rightarrow> (nat \<Rightarrow> nat \<Rightarrow> grouplist) \<Rightarrow> nat \<Rightarrow> nat \<Rightarrow> (session_error + 32 word list) option" where
  "lookup_groups_loop 0 f n len = None"
| "lookup_groups_loop (Suc fuel) f n len =
     (case f n len of
        Groups gs \<Rightarrow> Some (Inr gs)
      | Too_small count errno \<Rightarrow>
          let group_count = (if count \<le> int len then int len * 2 else count)
          in if group_count \<le> 0 \<or> group_count > 4096 then Some (Inl (if errno = 0 then Generic 22 else System errno))
             else lookup_groups_loop fuel f (Suc n) (nat group_count))"

definition lookup_group_ids :: "nat \<Rightarrow> host \<Rightarrow> passwd \<Rightarrow> (session_error + 32 word list) option" where
  "lookup_group_ids fuel h pw =
     map_option (map_sum id (foldl append_unique [pw_gid pw])) (lookup_groups_loop fuel (ho_getgrouplist h (pw_name pw) (pw_gid pw)) 0 16)"

definition get_user_info :: "nat \<Rightarrow> host \<Rightarrow> user_identifier option \<Rightarrow> (session_error + user_info) option" where
  "get_user_info fuel h username =
     (let user = (case username of Some u \<Rightarrow> u | None \<Rightarrow> Id (ho_getuid h));
          found = lookup_passwd fuel (ho_sysconf h) (case user of Name s \<Rightarrow> ho_getpwnam h s | Id i \<Rightarrow> ho_getpwuid h i)
      in case found of
           None \<Rightarrow> None
         | Some (Inl e) \<Rightarrow> Some (Inl e)
         | Some (Inr pw) \<Rightarrow>
             map_option (map_sum id (\<lambda>gs. \<lparr>ui_name = pw_name pw, ui_shell = pw_shell pw, ui_home = pw_dir pw, ui_uid = pw_uid pw,
                                           ui_gid = pw_gid pw, ui_groups = gs\<rparr>)) (lookup_group_ids fuel h pw))"

section \<open>The system\<close>

fun unquote_from :: "string \<Rightarrow> string" where
  "unquote_from [] = []"
| "unquote_from [c] = [c]"
| "unquote_from (c # n # cs) =
     (if c = CHR 0x5C
      then (if n = CHR ''n'' then CHR 0x0A else if n = CHR ''r'' then CHR 0x0D else if n = CHR ''t'' then CHR 0x09 else n) # unquote_from cs
      else c # unquote_from (n # cs))"

definition unquote_value :: "string \<Rightarrow> string" where
  "unquote_value value =
     (if length value < 2 \<or> hd value \<noteq> CHR 0x22 \<or> last value \<noteq> CHR 0x22 then value else unquote_from (butlast (tl value)))"

definition parse_os_release_line :: "string \<Rightarrow> (string \<times> string) option" where
  "parse_os_release_line line0 =
     (let line = trim_copy line0 in
      if line = [] \<or> hd line = CHR ''#'' then None
      else map_option (\<lambda>(k, v). (trim_copy k, unquote_value (trim_copy v))) (split_assignment line))"

definition parse_os_release :: "host \<Rightarrow> (string \<rightharpoonup> string) option" where
  "parse_os_release h =
     map_option (foldl (\<lambda>m l. case parse_os_release_line l of None \<Rightarrow> m | Some (k, v) \<Rightarrow> m(k \<mapsto> v)) Map.empty) (ho_os_release h)"

definition release_value :: "(string \<rightharpoonup> string) option \<Rightarrow> string \<Rightarrow> string" where
  "release_value release key = (case release of None \<Rightarrow> [] | Some m \<Rightarrow> (case m key of Some v \<Rightarrow> v | None \<Rightarrow> []))"

definition release_codename :: "(string \<rightharpoonup> string) option \<Rightarrow> string" where
  "release_codename release =
     (if release_value release ''VERSION_CODENAME'' \<noteq> [] then release_value release ''VERSION_CODENAME''
      else release_value release ''UBUNTU_CODENAME'')"

definition release_pretty_fallback :: "(string \<rightharpoonup> string) option \<Rightarrow> string" where
  "release_pretty_fallback release =
     (let name = release_value release ''NAME''; version = release_value release ''VERSION'' in
      if name \<noteq> [] \<and> version \<noteq> [] then name @ '' '' @ version else if name \<noteq> [] then name else version)"

definition get_os_details :: "host \<Rightarrow> os_details" where
  "get_os_details h =
     (let release = parse_os_release h;
          rid = release_value release ''ID'';
          version = release_value release ''VERSION_ID'';
          pretty0 = release_value release ''PRETTY_NAME'';
          pretty1 = (if pretty0 = [] then release_pretty_fallback release else pretty0);
          pretty2 = (if pretty1 = [] \<and> rid \<noteq> [] \<and> version \<noteq> [] then rid @ '' '' @ version else pretty1)
      in \<lparr>od_id = rid, od_version_id = version, od_codename = release_codename release, od_pretty_name = pretty2,
          od_kernel = ho_uname_release h, od_hostname = ho_gethostname h\<rparr>)"

section \<open>Publishing a server\<close>

definition pct_encode :: "string \<Rightarrow> string" where
  "pct_encode value =
     concat (map (\<lambda>c. let n = (of_char c :: nat) in
        if (97 \<le> n \<and> n \<le> 122) \<or> (65 \<le> n \<and> n \<le> 90) \<or> (48 \<le> n \<and> n \<le> 57) \<or> c = CHR ''-'' \<or> c = CHR ''.'' \<or> c = CHR ''_'' \<or> c = CHR ''~''
        then [c]
        else [CHR ''%'', ''0123456789ABCDEF'' ! (n div 16 mod 16), ''0123456789ABCDEF'' ! (n mod 16)]) value)"

definition set_label :: "string \<Rightarrow> string \<Rightarrow> (string, string) omap \<Rightarrow> (string, string) omap" where
  "set_label key value labels = (if value = [] then labels else omap_put key value labels)"

definition fixed_labels :: "host \<Rightarrow> uri_options \<Rightarrow> (string \<times> string) list" where
  "fixed_labels h o' =
     (let d = get_os_details h in
      [(''application-protocol'', ''rstream.webtty''),
       (''rstream.webtty.transport'', if uo_transport o' = Plain then ''plain'' else ''websocket''),
       (''rstream.webtty.capabilities'', ''exec''),
       (''rstream.webtty.execution.mode'', if uo_execution_mode o' = Login then ''login'' else ''spawn''),
       (''rstream.webtty.exec.path'', ''/''),
       (''rstream.webtty.server_id'', uo_server_id o'),
       (''rstream.webtty.server_name'', uo_server_name o'),
       (''rstream.webtty.host_key_id'', uo_host_key_id o'),
       (''rstream.webtty.encryption_policy'', uo_encryption_policy o'),
       (''rstream.webtty.e2e'', if uo_host_key_id o' \<noteq> [] then ''required'' else ''disabled''),
       (''rstream.webtty.client_proof'', if uo_host_key_id o' \<noteq> [] then ''required'' else ''none''),
       (''rstream.webtty.os_family'', ho_runtime_os h),
       (''rstream.webtty.arch'', ho_runtime_arch h),
       (''rstream.webtty.os_id'', od_id d),
       (''rstream.webtty.os_version_id'', od_version_id d),
       (''rstream.webtty.os_version_codename'', od_codename d),
       (''rstream.webtty.os_pretty_name'', od_pretty_name d),
       (''rstream.webtty.kernel_release'', od_kernel d),
       (''rstream.webtty.hostname'', od_hostname d)])"

definition build_webtty_labels :: "host \<Rightarrow> uri_options \<Rightarrow> (string, string) omap" where
  "build_webtty_labels h o' =
     (let labels1 = foldl (\<lambda>m (k, v). set_label k v m) [] (fixed_labels h o');
          labels2 = foldl (\<lambda>m (k, v). set_label (''rstream.webtty.label.'' @ k) v m) labels1 (uo_labels o')
      in set_label ''rstream.webtty.server_admission'' (uo_server_admission_label o') labels2)"

definition build_webtty_uri :: "host \<Rightarrow> uri_options \<Rightarrow> string" where
  "build_webtty_uri h o' =
     (let publish = (uo_publish o' \<and> (uo_managed o' \<or> uo_transport o' \<noteq> Plain));
          uri1 = ''rstrm://'' @ (if uo_managed o' \<and> uo_server_id o' \<noteq> [] then pct_encode (uo_server_id o') else []);
          uri2 = uri1 @ ''?rstrm.publish='' @ (if publish then ''true'' else ''false'') @ ''&rstrm.type=bytestream'';
          uri3 = uri2 @ (if uo_managed o' then ''&rstrm.protocol=webtty''
                         else if uo_transport o' = Websocket then ''&rstrm.protocol=http'' else []);
          uri4 = uri3 @ (if publish then ''&rstrm.token_auth=true'' else [])
      in foldl (\<lambda>u (k, v). u @ ''&rstrm.labels='' @ pct_encode (k @ ''='' @ v)) uri4 (build_webtty_labels h o'))"

end
