(* ===== verification/WebttyHostCorrect.thy ===== *)
theory WebttyHostCorrect
  imports WebttyHost
begin

text \<open>
  The lookups of users and groups end, the environment of a command names the user it runs as, and the URI of a server is
  read back as the parameters and labels it was built from.
\<close>

section \<open>Lookups\<close>

lemma lookup_passwd_loop_ends:
  assumes "0 < n" and "n * 2 ^ k \<ge> maximum_buffer_size" and "n \<le> maximum_buffer_size"
  shows "\<exists>r. lookup_passwd_loop (Suc k) f i n = Some r"
  using assms
proof (induction k arbitrary: n i)
  case 0
  then have "n = maximum_buffer_size" by simp
  then show ?case by (simp split: prod.split)
next
  case (Suc k)
  have "0 < min (n * 2) maximum_buffer_size" "min (n * 2) maximum_buffer_size \<le> maximum_buffer_size"
    using Suc.prems(1) by (simp_all add: maximum_buffer_size_def)
  moreover have "min (n * 2) maximum_buffer_size * 2 ^ k \<ge> maximum_buffer_size"
    using Suc.prems(2) by (auto simp: min_def algebra_simps)
  ultimately show ?case
    using Suc.IH by (subst lookup_passwd_loop.simps) (auto split: prod.split)
qed

lemma lookup_passwd_ends: "\<exists>r. lookup_passwd 21 configured f = Some r"
proof -
  define n where "n = min (if configured > 0 then nat configured else 16 * 1024) maximum_buffer_size"
  have "0 < n" "n \<le> maximum_buffer_size" by (simp_all add: n_def maximum_buffer_size_def)
  moreover from this have "n * 2 ^ 20 \<ge> maximum_buffer_size" by (simp add: maximum_buffer_size_def)
  ultimately have "\<exists>r. lookup_passwd_loop (Suc 20) f 0 n = Some r" by (intro lookup_passwd_loop_ends)
  then show ?thesis by (simp add: lookup_passwd_def n_def)
qed

lemma lookup_passwd_loop_more: "lookup_passwd_loop fuel f i n = Some r \<Longrightarrow> fuel \<le> fuel' \<Longrightarrow> lookup_passwd_loop fuel' f i n = Some r"
proof (induction fuel arbitrary: fuel' i n)
  case (Suc fuel)
  then obtain m where "fuel' = Suc m" "fuel \<le> m" by (cases fuel') auto
  with Suc show ?case by (auto split: prod.splits if_splits)
qed simp

lemma lookup_groups_loop_ends: "0 < n \<Longrightarrow> n \<le> 4096 \<Longrightarrow> 4096 - n < fuel \<Longrightarrow> \<exists>r. lookup_groups_loop fuel f i n = Some r"
proof (induction fuel arbitrary: n i)
  case (Suc fuel)
  show ?case
  proof (cases "f i n")
    case (Too_small count errno)
    define c where "c = (if count \<le> int n then int n * 2 else count)"
    have "int n < c" using Suc.prems(1) by (simp add: c_def)
    then show ?thesis
      using Suc.prems Suc.IH [of "nat c" "Suc i"] Too_small by (auto simp: c_def [symmetric] Let_def)
  qed simp
qed simp

lemma lookup_groups_loop_more: "lookup_groups_loop fuel f i n = Some r \<Longrightarrow> fuel \<le> fuel' \<Longrightarrow> lookup_groups_loop fuel' f i n = Some r"
proof (induction fuel arbitrary: fuel' i n)
  case (Suc fuel)
  then obtain m where "fuel' = Suc m" "fuel \<le> m" by (cases fuel') auto
  with Suc show ?case by (auto simp: Let_def split: grouplist.splits if_splits)
qed simp

lemma get_user_info_result:
  "\<exists>r. \<forall>fuel \<ge> 4081. get_user_info fuel h username = Some r"
proof -
  define f where "f = (case (case username of Some u \<Rightarrow> u | None \<Rightarrow> Id (ho_getuid h)) of Name s \<Rightarrow> ho_getpwnam h s | Id i \<Rightarrow> ho_getpwuid h i)"
  obtain p where p: "lookup_passwd 21 (ho_sysconf h) f = Some p" using lookup_passwd_ends by blast
  have p': "lookup_passwd fuel (ho_sysconf h) f = Some p" if "4081 \<le> fuel" for fuel
    using lookup_passwd_loop_more [OF p [unfolded lookup_passwd_def], of fuel] that by (simp add: lookup_passwd_def)
  show ?thesis
  proof (cases p)
    case (Inl e)
    then show ?thesis using p' by (auto simp: get_user_info_def f_def [symmetric])
  next
    case (Inr pw)
    obtain g where g: "lookup_groups_loop 4081 (ho_getgrouplist h (pw_name pw) (pw_gid pw)) 0 16 = Some g"
      using lookup_groups_loop_ends [of 16 4081] by auto
    have "lookup_groups_loop fuel (ho_getgrouplist h (pw_name pw) (pw_gid pw)) 0 16 = Some g" if "4081 \<le> fuel" for fuel
      using lookup_groups_loop_more [OF g that] .
    with Inr p' show ?thesis by (auto simp: get_user_info_def lookup_group_ids_def f_def [symmetric])
  qed
qed


section \<open>Environments\<close>

lemma find_environment_variable_le: "find_environment_variable es key \<le> length es"
  by (induction es) auto

lemma find_environment_variable_found:
  "find_environment_variable es key < length es \<Longrightarrow> env_key (es ! find_environment_variable es key) = key"
  by (induction es) (auto split: if_splits)

lemma find_environment_variable_missing: "find_environment_variable es key = length es \<longleftrightarrow> key \<notin> env_key ` set es"
  by (induction es) auto

text \<open>In an environment without duplicates the entries are the environment of the process.\<close>

definition unique_keys :: "environment list \<Rightarrow> bool" where
  "unique_keys es \<longleftrightarrow> distinct (map env_key es)"

lemma process_environment_rev: "process_environment es = map_of (rev (map (\<lambda>e. (env_key e, env_value e)) es))"
  by (induction es rule: rev_induct) (simp_all add: process_environment_def)

lemma process_environment_unique:
  assumes "unique_keys es"
  shows "process_environment es = map_of (map (\<lambda>e. (env_key e, env_value e)) es)"
proof -
  have "distinct (map fst (map (\<lambda>e. (env_key e, env_value e)) es))" using assms by (simp add: unique_keys_def comp_def)
  then have "\<forall>x. map_of (rev (map (\<lambda>e. (env_key e, env_value e)) es)) x = map_of (map (\<lambda>e. (env_key e, env_value e)) es) x"
    by (metis distinct_rev map_of_inject_set rev_map set_rev)
  then show ?thesis unfolding process_environment_rev by blast
qed

lemma replace_first:
  "find_environment_variable es key < length es \<Longrightarrow> e = \<lparr>env_key = key, env_value = value\<rparr> \<Longrightarrow>
    map env_key (es[find_environment_variable es key := e]) = map env_key es \<and>
    map_of (map (\<lambda>e. (env_key e, env_value e)) (es[find_environment_variable es key := e]))
      = (map_of (map (\<lambda>e. (env_key e, env_value e)) es))(key \<mapsto> value)"
  by (induction es) (auto simp: fun_upd_twist split: if_splits)

lemma add_variable:
  assumes "unique_keys es"
  shows "unique_keys (add_environment_variable key value force es)"
    and "process_environment (add_environment_variable key value force es)
      = (if force \<or> process_environment es key = None then (process_environment es)(key \<mapsto> value) else process_environment es)"
proof -
  have key: "process_environment es key = None \<longleftrightarrow> find_environment_variable es key = length es"
    by (simp add: process_environment_rev find_environment_variable_missing map_of_eq_None_iff image_image)
  have le: "find_environment_variable es key \<le> length es" by (rule find_environment_variable_le)
  note repl = replace_first [of es key "\<lparr>env_key = key, env_value = value\<rparr>" "value"]
  show u: "unique_keys (add_environment_variable key value force es)"
    using assms repl le find_environment_variable_missing [of es key]
    by (auto simp: add_environment_variable_def unique_keys_def Let_def)
  show "process_environment (add_environment_variable key value force es)
      = (if force \<or> process_environment es key = None then (process_environment es)(key \<mapsto> value) else process_environment es)"
  proof (cases "find_environment_variable es key < length es")
    case True
    then show ?thesis
      using repl key process_environment_unique [OF assms] process_environment_unique [OF u]
      by (auto simp: add_environment_variable_def Let_def)
  next
    case False
    then show ?thesis
      using le key by (auto simp: add_environment_variable_def process_environment_rev Let_def)
  qed
qed

lemma add_variable_keeps:
  "unique_keys es \<Longrightarrow> \<not> force \<Longrightarrow> process_environment es k = Some v \<Longrightarrow> process_environment (add_environment_variable key value force es) k = Some v"
  by (auto simp: add_variable(2))

lemma add_inherited:
  assumes "unique_keys es"
  shows "unique_keys (add_inherited_variable h key False es)"
    and "process_environment (add_inherited_variable h key False es) k
      = (case process_environment es k of Some v \<Rightarrow> Some v | None \<Rightarrow> if k = key then ho_getenv h k else None)"
  using assms add_variable [OF assms] by (auto simp: add_inherited_variable_def split: option.split)

lemma add_all_inherited:
  assumes "unique_keys es"
  shows "unique_keys (foldl (\<lambda>d k. add_inherited_variable h k False d) es ks)
    \<and> process_environment (foldl (\<lambda>d k. add_inherited_variable h k False d) es ks) k
      = (case process_environment es k of Some v \<Rightarrow> Some v | None \<Rightarrow> if k \<in> set ks then ho_getenv h k else None)"
  using assms
proof (induction ks arbitrary: es)
  case (Cons a ks)
  show ?case
    using Cons.IH [OF add_inherited(1) [OF Cons.prems]] add_inherited(2) [OF Cons.prems, of h a]
    by (auto split: option.splits)
qed (simp split: option.split)

lemma string_neqs:
  "''USER'' \<notin> set common_keys" "''LOGNAME'' \<notin> set common_keys" "''SHELL'' \<notin> set common_keys" "''HOME'' \<notin> set common_keys"
  by (simp_all add: common_keys_def)

definition identity_keys :: "string set" where
  "identity_keys = {''USER'', ''LOGNAME'', ''SHELL'', ''HOME''}"

lemma identity_environment:
  fixes h :: host and user :: user_info and force :: bool
  assumes "unique_keys es"
  defines "es' \<equiv> add_environment_variable ''HOME'' (ui_home user) force (add_environment_variable ''SHELL'' (ui_shell user) force
      (add_environment_variable ''LOGNAME'' (ui_name user) force (add_environment_variable ''USER'' (ui_name user) force es)))"
  shows "unique_keys es'"
    and "force \<Longrightarrow> process_environment es' ''USER'' = Some (ui_name user) \<and> process_environment es' ''LOGNAME'' = Some (ui_name user)
      \<and> process_environment es' ''SHELL'' = Some (ui_shell user) \<and> process_environment es' ''HOME'' = Some (ui_home user)"
    and "\<not> force \<Longrightarrow> process_environment es k = Some v \<Longrightarrow> process_environment es' k = Some v"
    and "k \<notin> identity_keys \<Longrightarrow> process_environment es' k = process_environment es k"
proof -
  note u1 = add_variable(1) [OF assms(1), of "''USER''" "ui_name user" force]
  note u2 = add_variable(1) [OF u1, of "''LOGNAME''" "ui_name user" force]
  note u3 = add_variable(1) [OF u2, of "''SHELL''" "ui_shell user" force]
  note p = add_variable(2) [OF assms(1)] add_variable(2) [OF u1] add_variable(2) [OF u2] add_variable(2) [OF u3]
  show "unique_keys es'" unfolding es'_def by (rule add_variable(1) [OF u3])
  show "force \<Longrightarrow> process_environment es' ''USER'' = Some (ui_name user) \<and> process_environment es' ''LOGNAME'' = Some (ui_name user)
      \<and> process_environment es' ''SHELL'' = Some (ui_shell user) \<and> process_environment es' ''HOME'' = Some (ui_home user)"
    unfolding es'_def p by simp
  show "\<not> force \<Longrightarrow> process_environment es k = Some v \<Longrightarrow> process_environment es' k = Some v"
    unfolding es'_def by (intro add_variable_keeps u1 u2 u3 assms(1))
  show "k \<notin> identity_keys \<Longrightarrow> process_environment es' k = process_environment es k"
    unfolding es'_def p by (simp add: identity_keys_def)
qed

lemma execution_environment:
  fixes h :: host and user :: user_info and mode :: execution_mode
  assumes "unique_keys env"
  defines "base \<equiv> foldl (\<lambda>d k. add_inherited_variable h k False d) env common_keys"
  defines "E \<equiv> process_environment (add_execution_environment h mode user env)"
  shows "mode = Login \<Longrightarrow> E ''USER'' = Some (ui_name user) \<and> E ''LOGNAME'' = Some (ui_name user) \<and> E ''SHELL'' = Some (ui_shell user)
      \<and> E ''HOME'' = Some (ui_home user) \<and> (runtime_directory h user \<noteq> [] \<longrightarrow> E ''XDG_RUNTIME_DIR'' = Some (runtime_directory h user))"
    and "mode = Spawn \<Longrightarrow> process_environment base k = Some v \<Longrightarrow> E k = Some v"
    and "k \<notin> identity_keys \<Longrightarrow> k \<noteq> ''XDG_RUNTIME_DIR'' \<Longrightarrow> k \<noteq> ''DBUS_SESSION_BUS_ADDRESS'' \<Longrightarrow> E k = process_environment base k"
proof -
  have base: "unique_keys base" using add_all_inherited [OF assms(1)] by (simp add: base_def)
  note id = identity_environment [OF base, where user = user and force = "mode = Login"]
  define es where "es = add_environment_variable ''HOME'' (ui_home user) (mode = Login) (add_environment_variable ''SHELL'' (ui_shell user) (mode = Login)
      (add_environment_variable ''LOGNAME'' (ui_name user) (mode = Login) (add_environment_variable ''USER'' (ui_name user) (mode = Login) base)))"
  note x = add_variable [OF id(1), folded es_def, of "''XDG_RUNTIME_DIR''" "runtime_directory h user" True]
  note d = add_variable(2) [OF x(1), of "''DBUS_SESSION_BUS_ADDRESS''" _ True]
  have E: "add_execution_environment h mode user env =
      (if mode \<noteq> Login \<or> runtime_directory h user = [] then es
       else let es1 = add_environment_variable ''XDG_RUNTIME_DIR'' (runtime_directory h user) True es; bus = runtime_directory h user @ ''/bus''
            in (case ho_stat h bus of
                 Some v \<Rightarrow> if fs_sock v \<and> fs_uid v = ui_uid user
                           then add_environment_variable ''DBUS_SESSION_BUS_ADDRESS'' (''unix:path='' @ bus) True es1 else es1
               | None \<Rightarrow> es1))"
    by (simp add: add_execution_environment_def es_def base_def Let_def cong: option.case_cong)
  note ids = id(2-4) [folded es_def]
  show "mode = Login \<Longrightarrow> E ''USER'' = Some (ui_name user) \<and> E ''LOGNAME'' = Some (ui_name user) \<and> E ''SHELL'' = Some (ui_shell user)
      \<and> E ''HOME'' = Some (ui_home user) \<and> (runtime_directory h user \<noteq> [] \<longrightarrow> E ''XDG_RUNTIME_DIR'' = Some (runtime_directory h user))"
    unfolding E_def E using ids(1) by (auto simp: x(2) d Let_def split: option.split)
  show "mode = Spawn \<Longrightarrow> process_environment base k = Some v \<Longrightarrow> E k = Some v"
    unfolding E_def E using ids(2) by simp
  show "k \<notin> identity_keys \<Longrightarrow> k \<noteq> ''XDG_RUNTIME_DIR'' \<Longrightarrow> k \<noteq> ''DBUS_SESSION_BUS_ADDRESS'' \<Longrightarrow> E k = process_environment base k"
    unfolding E_def E using ids(3) by (auto simp: x(2) d Let_def split: option.split)
qed


definition w_host :: host where
  "w_host = \<lparr>ho_getenv = [''PATH'' \<mapsto> ''/bin''], ho_getuid = 0, ho_stat = (\<lambda>p. None), ho_sysconf = 1024,
     ho_getpwnam = (\<lambda>s n size. (0, None)), ho_getpwuid = (\<lambda>i n size. (0, None)), ho_getgrouplist = (\<lambda>s g n size. Groups []),
     ho_os_release = None, ho_uname_release = ''6.1'', ho_gethostname = ''box'', ho_runtime_os = ''linux'', ho_runtime_arch = ''arm64''\<rparr>"

definition w_user :: user_info where
  "w_user = \<lparr>ui_name = ''ann'', ui_shell = ''/bin/sh'', ui_home = ''/home/ann'', ui_uid = 1000, ui_gid = 1000, ui_groups = []\<rparr>"


text \<open>
  A client that names a variable twice: only the first entry is replaced, and the process gets the last one, so that the identity
  of a login session is the one the client chose.
\<close>

lemma duplicate_overrides_identity:
  "process_environment (add_execution_environment w_host Login w_user
      [\<lparr>env_key = ''HOME'', env_value = ''x''\<rparr>, \<lparr>env_key = ''HOME'', env_value = ''/tmp/evil''\<rparr>]) ''HOME'' = Some ''/tmp/evil''"
  by (simp add: process_environment_def add_execution_environment_def add_environment_variable_def add_inherited_variable_def common_keys_def
      runtime_directory_def owned_private_directory_def w_host_def w_user_def Let_def)

section \<open>URIs\<close>

lemma hex_table: "n < 16 \<Longrightarrow> ''0123456789ABCDEF'' ! n = hex_digit n"
proof -
  assume "n < 16"
  then have "n \<in> set [0..<16]" by simp
  also have "[0..<16] = [0, 1, 2, 3, 4, 5, 6, 7, 8, 9, 10, 11, 12, 13, 14, 15]" by code_simp
  finally show ?thesis by (auto simp: hex_digit_def char_of_def bit_Suc_0_iff)
qed

text \<open>The encoding is that of the resolver, so what is read back is known from there.\<close>

lemma pct_encode_escape: "pct_encode value = query_escape value"
proof -
  have "(let n = (of_char c :: nat) in
        if (97 \<le> n \<and> n \<le> 122) \<or> (65 \<le> n \<and> n \<le> 90) \<or> (48 \<le> n \<and> n \<le> 57) \<or> c = CHR ''-'' \<or> c = CHR ''.'' \<or> c = CHR ''_'' \<or> c = CHR ''~''
        then [c]
        else [CHR ''%'', ''0123456789ABCDEF'' ! (n div 16 mod 16), ''0123456789ABCDEF'' ! (n mod 16)]) = escape_char c" for c
  proof -
    define n where "n = (of_char c :: nat)"
    have "n < 256" by (simp add: n_def)
    then have "n div 16 < 16" by auto
    then have "(of_char c :: nat) div 16 < 16" by (simp only: n_def)
    then show ?thesis
      unfolding escape_char_def unreserved_def is_alnum_def is_digit_def is_lower_def is_upper_def char_in_def Let_def
      by (auto simp del: nth_Cons_numeral simp: hex_table)
  qed
  then show ?thesis unfolding pct_encode_def query_escape_def by presburger
qed

lemma query_params_append:
  assumes "plain_key k" and "CHR ''?'' \<in> set u"
  shows "query_params (u @ ''&'' @ k @ ''='' @ query_escape v) = query_params u @ [(k, Some v)]"
  using append_query_param_params [OF assms(1), of u v] assms(2) by (simp add: append_query_param_def)

lemma plain_rstrm_keys: "plain_key ''rstrm.publish''" "plain_key ''rstrm.type''" "plain_key ''rstrm.protocol''" "plain_key ''rstrm.token_auth''" "plain_key ''rstrm.labels''"
  by (simp_all add: plain_key_def unreserved_def is_alnum_def is_digit_def is_lower_def is_upper_def char_in_def)

lemma plain_values [simp]: "query_escape ''true'' = ''true''" "query_escape ''false'' = ''false''" "query_escape ''bytestream'' = ''bytestream''"
    "query_escape ''webtty'' = ''webtty''" "query_escape ''http'' = ''http''"
  by (simp_all add: query_escape_def escape_char_def unreserved_def is_alnum_def is_digit_def is_lower_def is_upper_def char_in_def)

lemma label_params:
  assumes "CHR ''?'' \<in> set u"
  shows "query_params (foldl (\<lambda>u (k, v). u @ ''&rstrm.labels='' @ pct_encode (k @ ''='' @ v)) u ls)
    = query_params u @ map (\<lambda>(k, v). (''rstrm.labels'', Some (k @ ''='' @ v))) ls"
  using assms
proof (induction ls arbitrary: u)
  case (Cons l ls)
  obtain k v where l: "l = (k, v)" by (cases l)
  have "query_params (u @ ''&rstrm.labels='' @ pct_encode (k @ ''='' @ v)) = query_params u @ [(''rstrm.labels'', Some (k @ ''='' @ v))]"
    using query_params_append [OF plain_rstrm_keys(5) Cons.prems, of "k @ ''='' @ v"] by (simp add: pct_encode_escape)
  then show ?case using Cons.IH [of "u @ ''&rstrm.labels='' @ pct_encode (k @ ''='' @ v)"] Cons.prems by (simp add: l)
qed simp

text \<open>
  C31: the URI under which a server is published says what was meant. Read as a query string, it has the parameters for
  publishing, type, protocol and token, and one label for every entry of the labels, with exactly its key and value: no name
  of a server and no label that a user chose can add or change a parameter. It is published only when asked for, and a plain
  transport only when it is managed; a published server always asks for a token.
\<close>

theorem webtty_uri_parameters:
  "query_params (build_webtty_uri h o') =
    [(''rstrm.publish'', Some (if uo_publish o' \<and> (uo_managed o' \<or> uo_transport o' = Websocket) then ''true'' else ''false'')),
     (''rstrm.type'', Some ''bytestream'')]
    @ (if uo_managed o' then [(''rstrm.protocol'', Some ''webtty'')] else if uo_transport o' = Websocket then [(''rstrm.protocol'', Some ''http'')] else [])
    @ (if uo_publish o' \<and> (uo_managed o' \<or> uo_transport o' = Websocket) then [(''rstrm.token_auth'', Some ''true'')] else [])
    @ map (\<lambda>(k, v). (''rstrm.labels'', Some (k @ ''='' @ v))) (build_webtty_labels h o')"
proof -
  have transport: "uo_transport o' \<noteq> Plain \<longleftrightarrow> uo_transport o' = Websocket" by (cases "uo_transport o'") auto
  define pub where "pub = (uo_publish o' \<and> (uo_managed o' \<or> uo_transport o' = Websocket))"
  define u1 where "u1 = ''rstrm://'' @ (if uo_managed o' \<and> uo_server_id o' \<noteq> [] then pct_encode (uo_server_id o') else [])"
  have free: "CHR ''?'' \<notin> set u1" using query_escape_free(2) by (auto simp: u1_def pct_encode_escape)
  define u2 where "u2 = append_query_param u1 ''rstrm.publish'' (if pub then ''true'' else ''false'')"
  have u2: "u2 = u1 @ ''?rstrm.publish='' @ (if pub then ''true'' else ''false'')"
    using free by (simp add: u2_def append_query_param_def)
  define u3 where "u3 = u2 @ ''&'' @ ''rstrm.type'' @ ''='' @ query_escape ''bytestream''"
  define u4 where "u4 = u3 @ (if uo_managed o' then ''&'' @ ''rstrm.protocol'' @ ''='' @ query_escape ''webtty''
     else if uo_transport o' = Websocket then ''&'' @ ''rstrm.protocol'' @ ''='' @ query_escape ''http'' else [])"
  define u5 where "u5 = u4 @ (if pub then ''&'' @ ''rstrm.token_auth'' @ ''='' @ query_escape ''true'' else [])"
  have q: "CHR ''?'' \<in> set u2" "CHR ''?'' \<in> set u3" "CHR ''?'' \<in> set u4" "CHR ''?'' \<in> set u5"
    using free by (simp_all add: u2_def u3_def u4_def u5_def append_query_param_def)
  have "dropWhile (\<lambda>c. c \<noteq> CHR ''?'') u1 = []" using free by (auto simp: dropWhile_eq_Nil_conv)
  then have "query_params u1 = []" unfolding query_params_def by (simp only: list.case)
  then have "query_params u2 = [(''rstrm.publish'', Some (if pub then ''true'' else ''false''))]"
    unfolding u2_def by (simp add: append_query_param_params [OF plain_rstrm_keys(1)])
  then have "query_params u5 = [(''rstrm.publish'', Some (if pub then ''true'' else ''false'')), (''rstrm.type'', Some ''bytestream'')]
      @ (if uo_managed o' then [(''rstrm.protocol'', Some ''webtty'')] else if uo_transport o' = Websocket then [(''rstrm.protocol'', Some ''http'')] else [])
      @ (if pub then [(''rstrm.token_auth'', Some ''true'')] else [])"
    using query_params_append [OF plain_rstrm_keys(2) q(1)] query_params_append [OF plain_rstrm_keys(3) q(2)] query_params_append [OF plain_rstrm_keys(4) q(3)]
    unfolding u5_def u4_def u3_def by (cases "uo_managed o'"; cases "uo_transport o' = Websocket"; cases pub) (simp_all del: plain_values)
  moreover have "build_webtty_uri h o' = foldl (\<lambda>u (k, v). u @ ''&rstrm.labels='' @ pct_encode (k @ ''='' @ v)) u5 (build_webtty_labels h o')"
    by (simp add: build_webtty_uri_def u2 u1_def u3_def u4_def u5_def pub_def transport Let_def)
  ultimately show ?thesis
    using label_params [OF q(4)] by (simp add: pub_def)
qed

end
